(* ===== verification/Prelude.thy ===== *)
theory Prelude
  imports Main "HOL-Library.Word" "HOL-Library.AList" "HOL-Library.List_Lexorder"
    "HOL-Library.Char_ord" "HOL-Library.Product_Lexorder" "HOL-Library.Multiset"
begin

text \<open>
  Shared vocabulary of the development.

  \<^item> Identifiers, timestamps and the wire strings of the service are \<open>string\<close>, \<open>int\<close>
    (an \<open>i64\<close> millisecond count) and \<open>string\<close>.
  \<^item> A Rust \<open>HashMap\<close> or \<open>BTreeMap\<close> is an association list with distinct keys, read with
    \<open>map_of\<close> and written with \<open>AList.update\<close>, \<open>AList.delete\<close> and \<open>AList.map_entry\<close>.
    A \<open>BTreeMap\<close> or \<open>BTreeSet\<close> iterates in key order (\<open>btree_keys\<close>, \<open>btree_set\<close>); where the
    code iterates over a \<open>HashMap\<close> and the order can be observed, the order is an
    argument of the operation.
  \<^item> A Rust \<open>Result\<close> is a sum, \<open>Inl\<close> the error; an \<open>expect\<close> that could fail makes the whole
    operation an \<open>option\<close>, \<open>None\<close> being the panic.
\<close>

section \<open>Names of the model's basic types\<close>

type_synonym id = string
type_synonym timestamp_ms = int
type_synonym u64 = "64 word"
type_synonym u32 = "32 word"
type_synonym ('k, 'v) table = "('k \<times> 'v) list"

named_theorems table_simps \<open>reading and writing association-list tables\<close>
named_theorems loop_simps \<open>closed forms of the loops of the code\<close>

section \<open>Ordered containers\<close>

definition btree_set :: "'a::linorder list \<Rightarrow> 'a list" where
  "btree_set xs = sort (remdups xs)"

definition btree_keys :: "('k::linorder, 'v) table \<Rightarrow> 'k list" where
  "btree_keys m = sort (map fst m)"

text \<open>\<open>m.entry(k).or_insert(v)\<close>: the value the entry then holds.\<close>

definition entry_or :: "'k \<Rightarrow> 'v \<Rightarrow> ('k, 'v) table \<Rightarrow> 'v" where
  "entry_or k v m = (case map_of m k of None \<Rightarrow> v | Some w \<Rightarrow> w)"

fun find_map :: "('a \<Rightarrow> 'b option) \<Rightarrow> 'a list \<Rightarrow> 'b option" where
  "find_map f [] = None"
| "find_map f (x # xs) = (case f x of Some y \<Rightarrow> Some y | None \<Rightarrow> find_map f xs)"

text \<open>\<open>xs.iter().position(p)\<close> and \<open>xs.remove(i)\<close>.\<close>

fun position :: "('a \<Rightarrow> bool) \<Rightarrow> 'a list \<Rightarrow> nat option" where
  "position p [] = None"
| "position p (x # xs) = (if p x then Some 0 else map_option Suc (position p xs))"

definition remove_at :: "nat \<Rightarrow> 'a list \<Rightarrow> 'a list" where
  "remove_at i xs = take i xs @ drop (Suc i) xs"

definition first :: "'a list \<Rightarrow> 'a option" where
  "first xs = (case xs of [] \<Rightarrow> None | x # _ \<Rightarrow> Some x)"

definition option_list :: "'a option \<Rightarrow> 'a list" where
  "option_list o' = (case o' of None \<Rightarrow> [] | Some x \<Rightarrow> [x])"

definition or_else :: "'a option \<Rightarrow> 'a option \<Rightarrow> 'a option" where
  "or_else a b = (case a of None \<Rightarrow> b | Some x \<Rightarrow> Some x)"

definition saturating_add :: "'a::len word \<Rightarrow> 'a word \<Rightarrow> 'a word" where
  "saturating_add a b = (if unat a + unat b < 2 ^ LENGTH('a) then a + b else - 1)"

text \<open>\<open>for k in ks { if let Some(v) = m.get_mut(k) { f(v) } }\<close>\<close>

definition modify_all :: "('v \<Rightarrow> 'v) \<Rightarrow> 'k list \<Rightarrow> ('k, 'v) table \<Rightarrow> ('k, 'v) table" where
  "modify_all f ks m = fold (\<lambda>k. AList.map_entry k f) ks m"

text \<open>The rest of a function after a \<open>?\<close>, for a call that also returns a state.\<close>

definition and_then :: "('e + 'a) \<times> 'w \<Rightarrow> ('a \<Rightarrow> 'w \<Rightarrow> ('e + 'b) \<times> 'w) \<Rightarrow> ('e + 'b) \<times> 'w" where
  "and_then m k = (case m of (Inl e, w) \<Rightarrow> (Inl e, w) | (Inr x, w) \<Rightarrow> k x w)"

section \<open>White space\<close>

text \<open>\<open>str::trim\<close> on UTF-8 bytes. \<open>white_prefix\<close> is the width of the white-space character a text begins with.\<close>

definition white_prefix :: "string \<Rightarrow> nat" where
  "white_prefix s =
     (case s of
        [] \<Rightarrow> 0
      | a # s1 \<Rightarrow>
          if of_char a \<in> {9 :: nat, 10, 11, 12, 13, 32} then 1
          else (case s1 of
              [] \<Rightarrow> 0
            | b # s2 \<Rightarrow>
                if of_char a = (194 :: nat) \<and> of_char b \<in> {133 :: nat, 160} then 2
                else (case s2 of
                    [] \<Rightarrow> 0
                  | c # _ \<Rightarrow>
                      if (of_char a, of_char b, of_char c) \<in> {(225 :: nat, 154 :: nat, 128 :: nat), (226, 129, 159), (227, 128, 128)}
                         \<or> (of_char a = (226 :: nat) \<and> of_char b = (128 :: nat)
                            \<and> ((128 \<le> (of_char c :: nat) \<and> (of_char c :: nat) \<le> 138) \<or> of_char c \<in> {168 :: nat, 169, 175}))
                      then 3 else 0)))"

function trim_start :: "string \<Rightarrow> string" where
  "trim_start s = (if white_prefix s = 0 \<or> s = [] then s else trim_start (drop (white_prefix s) s))"
  by auto
termination by (relation "measure length") auto

declare trim_start.simps [simp del]

definition blank :: "string \<Rightarrow> bool" where
  "blank s \<longleftrightarrow> trim_start s = []"

fun trim_end :: "string \<Rightarrow> string" where
  "trim_end [] = []"
| "trim_end (c # s) = (if blank (c # s) then [] else c # trim_end s)"

definition trim :: "string \<Rightarrow> string" where
  "trim s = trim_end (trim_start s)"

section \<open>Lemmas on tables\<close>

lemma and_then_simps [simp]: "and_then (Inl e, w) k = (Inl e, w)" "and_then (Inr x, w) k = k x w"
  by (simp_all add: and_then_def)

lemma snd_and_then_pure: "(\<And>x w. snd (k x w) = w) \<Longrightarrow> snd (and_then m k) = snd m"
  by (cases m; cases "fst m") (auto simp: and_then_def)

lemma and_then_keeps:
  "P (snd m) \<Longrightarrow> (\<And>x. fst m = Inr x \<Longrightarrow> P (snd m) \<Longrightarrow> P (snd (k x (snd m)))) \<Longrightarrow> P (snd (and_then m k))"
  by (cases m; cases "fst m") auto

lemma and_then_Inr: "fst (and_then m k) = Inr b \<Longrightarrow> (\<And>x. fst m = Inr x \<Longrightarrow> fst (k x (snd m)) = Inr b \<Longrightarrow> P) \<Longrightarrow> P"
  by (cases m; cases "fst m") auto

lemma map_of_update [table_simps]: "map_of (AList.update k v m) = (map_of m)(k \<mapsto> v)"
  by (rule AList.update_conv')

lemma map_of_delete [table_simps]: "map_of (AList.delete k m) = (map_of m)(k := None)"
  by (rule AList.delete_conv')

lemma map_of_modify [table_simps]:
  "map_of (AList.map_entry k f m) = (map_of m)(k := map_option f (map_of m k))"
  by (induction m) (auto simp: fun_eq_iff)

definition keys_distinct :: "('k, 'v) table \<Rightarrow> bool" where
  "keys_distinct m \<longleftrightarrow> distinct (map fst m)"

lemma keys_distinct_Nil [simp, intro]: "keys_distinct []"
  by (simp add: keys_distinct_def)

lemma keys_distinct_update [simp, intro]: "keys_distinct m \<Longrightarrow> keys_distinct (AList.update k v m)"
  by (simp add: keys_distinct_def AList.distinct_update)

lemma keys_distinct_delete [simp, intro]: "keys_distinct m \<Longrightarrow> keys_distinct (AList.delete k m)"
  by (simp add: keys_distinct_def AList.distinct_delete)

lemma keys_map_entry [simp]: "map fst (AList.map_entry k f m) = map fst m"
  by (induction m) auto

lemma dom_map_of_modify [simp]: "dom (map_of (AList.map_entry k f m)) = dom (map_of m)"
  by (auto simp: table_simps dom_def split: if_splits)

lemma map_entry_absent: "map_of m k = None \<Longrightarrow> AList.map_entry k f m = m"
  by (induction m) (auto split: if_splits)

lemma map_entry_present: "map_of m k = Some v \<Longrightarrow> AList.map_entry k f m = AList.update k (f v) m"
  by (induction m) (auto split: if_splits)

lemma map_entry_id [simp]: "AList.map_entry k id m = m" "AList.map_entry k (\<lambda>x. x) m = m"
  by (induction m) auto

lemma keys_distinct_map_entry [simp]: "keys_distinct (AList.map_entry k f m) = keys_distinct m"
  by (simp add: keys_distinct_def)

lemma keys_distinct_filter [simp, intro]: "keys_distinct m \<Longrightarrow> keys_distinct (filter P m)"
  by (auto simp: keys_distinct_def distinct_map_filter)

lemma keys_distinct_map_values [simp]:
  "keys_distinct (map (\<lambda>(k, v). (k, f k v)) m) = keys_distinct m"
  by (simp add: keys_distinct_def case_prod_beta comp_def)

lemma map_of_map_values [table_simps]:
  "map_of (map (\<lambda>(k, v). (k, f k v)) m) = (\<lambda>k. map_option (f k) (map_of m k))"
  by (induction m) (auto simp: fun_eq_iff)

lemma in_table_iff: "keys_distinct m \<Longrightarrow> (k, v) \<in> set m \<longleftrightarrow> map_of m k = Some v"
  by (auto simp: keys_distinct_def)

lemma keys_modify_all [simp]: "map fst (modify_all f ks m) = map fst m"
  unfolding modify_all_def by (induction ks arbitrary: m) auto

lemma keys_distinct_modify_all [simp]: "keys_distinct (modify_all f ks m) = keys_distinct m"
  by (simp add: keys_distinct_def)

lemma map_of_modify_all [loop_simps]:
  assumes "\<And>v. f (f v) = f v"
  shows "map_of (modify_all f ks m) k =
    (if k \<in> set ks then map_option f (map_of m k) else map_of m k)"
  unfolding modify_all_def
  by (induction ks arbitrary: m)
    (auto simp: table_simps assms option.map_comp comp_def split: if_splits)

lemma map_of_fold_delete [loop_simps]:
  "map_of (fold AList.delete ks m) k = (if k \<in> set ks then None else map_of m k)"
  by (induction ks arbitrary: m) (auto simp: table_simps)

lemma keys_distinct_fold_delete [simp]: "keys_distinct m \<Longrightarrow> keys_distinct (fold AList.delete ks m)"
  by (induction ks arbitrary: m) auto

lemma mset_delete:
  "keys_distinct m \<Longrightarrow> map_of m k = Some v \<Longrightarrow> mset (AList.delete k m) = mset m - {#(k, v)#}"
proof (induction m)
  case (Cons x m)
  show ?case
  proof (cases "fst x = k")
    case True
    then have "AList.delete k m = m" using Cons.prems(1)
      by (intro AList.delete_id) (auto simp: keys_distinct_def)
    with True Cons.prems(2) show ?thesis by (cases x) simp
  next
    case False
    then have "mset (AList.delete k m) = mset m - {#(k, v)#}" "(k, v) \<in># mset m"
      using Cons by (auto simp: keys_distinct_def split: prod.splits dest: map_of_SomeD)
    with False show ?thesis by (cases x) (simp add: insert_DiffM2)
  qed
qed simp

lemma mset_update_absent: "map_of m k = None \<Longrightarrow> mset (AList.update k v m) = add_mset (k, v) (mset m)"
  by (induction m) (auto split: if_splits)

section \<open>Lemmas on lists and ordered sets\<close>

lemma distinct_mset_subset:
  assumes "mset xs \<subseteq># mset ys" "distinct ys"
  shows "distinct xs"
proof -
  from assms(1) obtain M where "mset ys = mset xs + M" by (auto simp: subset_mset.le_iff_add)
  moreover obtain zs where "mset zs = M" using ex_mset by blast
  ultimately have "mset ys = mset (xs @ zs)" by simp
  with assms(2) show ?thesis using mset_eq_imp_distinct_iff by fastforce
qed

lemma set_btree_set [simp]: "set (btree_set xs) = set xs"
  by (simp add: btree_set_def)

lemma sorted_btree_set [simp]: "sorted (btree_set xs)"
  by (simp add: btree_set_def)

lemma distinct_btree_set [simp]: "distinct (btree_set xs)"
  by (simp add: btree_set_def)

lemma set_btree_keys [simp]: "set (btree_keys m) = fst ` set m"
  by (simp add: btree_keys_def)

lemma distinct_btree_keys [simp]: "keys_distinct m \<Longrightarrow> distinct (btree_keys m)"
  by (simp add: btree_keys_def keys_distinct_def)

lemma unat_saturating_add:
  "unat (saturating_add a b) = min (unat a + unat b) (2 ^ LENGTH('a) - 1)"
  for a b :: "'a::len word"
proof (cases "unat a + unat b < 2 ^ LENGTH('a)")
  case True
  then show ?thesis by (auto simp: saturating_add_def unat_word_ariths)
next
  case False
  then show ?thesis by (simp add: saturating_add_def unsigned_minus_1_eq_mask mask_eq_exp_minus_1)
qed

lemma saturating_add_code [code]:
  "saturating_add a b = (if a \<le> a + b then a + b else - 1)" for a b :: "'a::len word"
  by (simp add: saturating_add_def no_olen_add_nat)

lemma first_simps [simp]: "first [] = None" "first (x # xs) = Some x"
  by (simp_all add: first_def)

lemma first_in_set: "first xs = Some x \<Longrightarrow> x \<in> set xs"
  by (cases xs) auto

lemma set_option_list [simp]: "set (option_list o') = set_option o'"
  by (auto simp: option_list_def split: option.splits)

lemma option_list_simps [simp]: "option_list None = []" "option_list (Some x) = [x]"
  by (simp_all add: option_list_def)

lemma count_list_distinct: "distinct xs \<Longrightarrow> count_list xs x = (if x \<in> set xs then 1 else 0)"
  by (induction xs) auto

lemma set_map_filter: "set (List.map_filter f xs) = {y. \<exists>x \<in> set xs. f x = Some y}"
  by (induction xs) (auto split: option.splits)

lemma distinct_map_filter_fst:
  assumes "\<And>x y. f x = Some y \<Longrightarrow> fst y = x"
  shows "distinct xs \<Longrightarrow> distinct (map fst (List.map_filter f xs))"
proof (induction xs)
  case (Cons x xs)
  then show ?case using assms by (cases "f x") (auto simp: set_map_filter)
qed simp

lemma position_Some:
  "position p xs = Some i \<Longrightarrow> i < length xs \<and> p (xs ! i) \<and> (\<forall>j < i. \<not> p (xs ! j))"
proof (induction xs arbitrary: i)
  case (Cons x xs)
  then show ?case
  proof (cases "p x")
    case False
    then obtain k where "i = Suc k" "position p xs = Some k" using Cons.prems by auto
    with Cons.IH False show ?thesis by (auto simp: less_Suc_eq_0_disj)
  qed simp
qed simp

lemma position_None: "position p xs = None \<longleftrightarrow> (\<forall>x \<in> set xs. \<not> p x)"
  by (induction xs) auto

lemma position_le: "j < length xs \<Longrightarrow> p (xs ! j) \<Longrightarrow> \<exists>k \<le> j. position p xs = Some k"
proof (induction xs arbitrary: j)
  case (Cons x xs)
  show ?case
  proof (cases "p x")
    case False
    with Cons.prems obtain m where m: "j = Suc m" by (cases j) auto
    with Cons False obtain k where "k \<le> m" "position p xs = Some k" by auto
    with m False show ?thesis by auto
  qed simp
qed simp

lemma position_nth: "distinct xs \<Longrightarrow> i < length xs \<Longrightarrow> position (\<lambda>x. x = xs ! i) xs = Some i"
  using position_le [of i xs "\<lambda>x. x = xs ! i"] position_Some [of "\<lambda>x. x = xs ! i" xs] nth_eq_iff_index_eq [of xs _ i]
  by fastforce

lemma length_remove_at [simp]: "i < length xs \<Longrightarrow> length (remove_at i xs) = length xs - 1"
  by (simp add: remove_at_def)

lemma mset_remove_at: "i < length xs \<Longrightarrow> mset xs = add_mset (xs ! i) (mset (remove_at i xs))"
  by (subst id_take_nth_drop [of i xs]) (simp_all add: remove_at_def)

lemma set_remove_at: "set (remove_at i xs) \<subseteq> set xs"
  by (auto simp: remove_at_def dest: in_set_takeD in_set_dropD)

lemma find_map_Some:
  "find_map f xs = Some y \<Longrightarrow> \<exists>i < length xs. f (xs ! i) = Some y \<and> (\<forall>j < i. f (xs ! j) = None)"
proof (induction xs)
  case (Cons x xs)
  show ?case
  proof (cases "f x")
    case None
    with Cons obtain i where "i < length xs" "f (xs ! i) = Some y" "\<forall>j < i. f (xs ! j) = None" by auto
    with None show ?thesis by (intro exI [of _ "Suc i"]) (auto simp: less_Suc_eq_0_disj)
  qed (use Cons in auto)
qed simp

lemma find_map_None: "find_map f xs = None \<longleftrightarrow> (\<forall>x \<in> set xs. f x = None)"
  by (induction xs) (auto split: option.splits)

lemma find_in_set: "List.find p xs = Some x \<Longrightarrow> x \<in> set xs \<and> p x"
  by (auto simp: find_Some_iff)

lemma find_append_new: "x \<notin> f ` set xs \<Longrightarrow> List.find (\<lambda>y. f y = x) (xs @ ys) = List.find (\<lambda>y. f y = x) ys"
  by (induction xs) auto

lemma filter_fold_removeAll: "fold removeAll ys xs = filter (\<lambda>x. x \<notin> set ys) xs"
  by (induction ys arbitrary: xs) (auto simp: removeAll_filter_not_eq intro: filter_cong)

end
