(* ===== verification/WorkModel.thy ===== *)
theory WorkModel
  imports Prelude
begin

text \<open>
  The data of the team work coordinator: \<open>work_coordinator/model.rs\<close> (the enums, the
  intent, lease, batch, snapshot and result structs, the \<open>RunCausalityPort\<close> trait),
  \<open>work_source.rs\<close> (the sources of work) and the private state structs at the top of
  \<open>work_coordinator/coordinator.rs\<close> (\<open>SlotState\<close>, \<open>CoordinatorState\<close>), with the small
  queue operations of \<open>SlotState\<close>.
\<close>

section \<open>Enums\<close>

datatype target_role = Lead | Teammate

datatype work_priority = Foreground | Control | Background

datatype work_source =
    UserMessage | UserIntervention | McpSendMessage | McpShutdownRequest | SpawnWelcome
  | TeamMembershipChanged | SpawnAttachFailure | IdleNotification | InterruptedNotification
  | ShutdownRejected | RecoveryDrain

datatype runtime_constraint =
    RcReady | RcStarting u64 | RcFailed u64 string | RcRemoving u64 | RcSessionStopped

datatype slot_phase = PhIdle | PhQueued | PhStarting | PhRunning | PhPaused | PhBlocked

datatype work_intent_state =
    Queued
  | Starting id u64 \<comment> \<open>batch id, operation id\<close>
  | Running id u64 id \<comment> \<open>batch id, operation id, turn id\<close>
  | Completed
  | Failed string
  | Cancelled string

datatype causal_binding =
    UserVisible | InheritRunningBatch id | ActiveRunOrBackground | BackgroundBinding

datatype commit_result = Committed | StaleOwner | Rejected

datatype start_commit_result = StartAccepted | CancelImmediately | StartStaleOwner

datatype enqueue_disposition = Accepted | DispQueued | BlockedRuntimeStarting

text \<open>The errors of the team crate; the last two wrap an error of another crate as its text.\<close>

datatype team_error =
    TeamNotFound string | AgentNotFound string | TaskNotFound string | InvalidRequest string
  | LeaderOnly string | Forbidden string | SessionNotFound string | BlockedTaskNotFound string
  | BackendNotAllowed string | DuplicateAgentName string | RuntimeNotReady id
  | MemberRuntimeFailed id id id string
  | WorkspacePathUnavailable string | WorkspacePathRuntimeUnavailable string
  | DatabaseError string | JsonError string

fun is_terminal :: "work_intent_state \<Rightarrow> bool" where
  "is_terminal Completed = True"
| "is_terminal (Failed _) = True"
| "is_terminal (Cancelled _) = True"
| "is_terminal _ = False"

fun priority :: "work_source \<Rightarrow> work_priority" where
  "priority UserMessage = Foreground"
| "priority UserIntervention = Foreground"
| "priority McpShutdownRequest = Control"
| "priority ShutdownRejected = Control"
| "priority _ = Background"

definition resumes_paused_slot :: "work_source \<Rightarrow> bool" where
  "resumes_paused_slot src \<longleftrightarrow> src = UserMessage \<or> src = UserIntervention"

definition requires_mailbox_message :: "work_source \<Rightarrow> bool" where
  "requires_mailbox_message src \<longleftrightarrow>
     src \<in> {UserMessage, UserIntervention, McpSendMessage, McpShutdownRequest, SpawnWelcome,
            SpawnAttachFailure, InterruptedNotification, ShutdownRejected, RecoveryDrain}"

text \<open>The derived \<open>Debug\<close> text of a source, which one error message prints.\<close>

fun work_source_debug :: "work_source \<Rightarrow> string" where
  "work_source_debug UserMessage = ''UserMessage''"
| "work_source_debug UserIntervention = ''UserIntervention''"
| "work_source_debug McpSendMessage = ''McpSendMessage''"
| "work_source_debug McpShutdownRequest = ''McpShutdownRequest''"
| "work_source_debug SpawnWelcome = ''SpawnWelcome''"
| "work_source_debug TeamMembershipChanged = ''TeamMembershipChanged''"
| "work_source_debug SpawnAttachFailure = ''SpawnAttachFailure''"
| "work_source_debug IdleNotification = ''IdleNotification''"
| "work_source_debug InterruptedNotification = ''InterruptedNotification''"
| "work_source_debug ShutdownRejected = ''ShutdownRejected''"
| "work_source_debug RecoveryDrain = ''RecoveryDrain''"

fun work_source_display :: "work_source \<Rightarrow> string" where
  "work_source_display UserMessage = ''user_message''"
| "work_source_display UserIntervention = ''user_intervention''"
| "work_source_display McpSendMessage = ''mcp_send_message''"
| "work_source_display McpShutdownRequest = ''mcp_shutdown_request''"
| "work_source_display SpawnWelcome = ''spawn_welcome''"
| "work_source_display TeamMembershipChanged = ''team_membership_changed''"
| "work_source_display SpawnAttachFailure = ''spawn_attach_failure''"
| "work_source_display IdleNotification = ''idle_notification''"
| "work_source_display InterruptedNotification = ''interrupted_notification''"
| "work_source_display ShutdownRejected = ''shutdown_rejected''"
| "work_source_display RecoveryDrain = ''recovery_drain''"

section \<open>Structs\<close>

record work_intent =
  wi_intent_id :: id
  wi_session_generation :: id
  wi_slot_id :: id
  wi_role :: target_role
  wi_source :: work_source
  wi_priority :: work_priority
  wi_mailbox_message_id :: "id option"
  wi_team_run_id :: "id option"
  wi_created_at_ms :: timestamp_ms
  wi_state :: work_intent_state

record enqueue_request =
  er_slot_id :: id
  er_role :: target_role
  er_source :: work_source
  er_binding :: causal_binding

record enqueue_lease =
  el_lease_id :: id
  el_session_generation :: id
  el_slot_id :: id
  el_role :: target_role
  el_source :: work_source
  el_team_run_id :: "id option"

record work_batch =
  wb_batch_id :: id
  wb_session_generation :: id
  wb_slot_id :: id
  wb_intent_ids :: "id list"
  wb_mailbox_message_ids :: "id list"
  wb_highest_priority :: work_priority
  wb_team_run_ids :: "id list"
  wb_operation_id :: u64

datatype reconcile_decision =
    Claim work_batch
  | WaitingForCompletion
  | BlockedBy runtime_constraint
  | SettleSignals "id list"
  | Quiescent

record slot_work_snapshot =
  sn_slot_id :: id
  sn_role :: target_role
  sn_state :: slot_phase
  sn_queued_foreground_count :: nat
  sn_queued_background_count :: nat
  sn_active_batch :: "work_batch option"
  sn_active_turn_id :: "id option"
  sn_active_turn_started_at_ms :: "timestamp_ms option"
  sn_runtime_constraint :: runtime_constraint
  sn_team_run_id :: "id option"

record enqueue_commit =
  ec_intent_id :: id
  ec_team_run_id :: "id option"
  ec_disposition :: enqueue_disposition
  ec_slot :: slot_work_snapshot

record run_work_summary =
  rs_team_run_id :: id
  rs_queued_intent_count :: nat
  rs_starting_batch_count :: nat
  rs_running_batch_count :: nat
  rs_active_enqueue_lease_count :: nat
  rs_paused_intent_count :: nat
  rs_failed_intent_count :: nat
  rs_slots :: "slot_work_snapshot list"

record coordinator_snapshot =
  cn_session_generation :: id
  cn_slots :: "slot_work_snapshot list"
  cn_active_run_summary :: "run_work_summary option"

record reconcile_projection =
  rp_created_recovery_intent_ids :: "id list"
  rp_retained_intent_ids :: "id list"
  rp_cleared_stale_intent_ids :: "id list"

record batch_cancel_target =
  bt_batch :: work_batch
  bt_turn_id :: "id option"

record pause_work_result =
  pw_cancel_target :: "batch_cancel_target option"
  pw_slot :: slot_work_snapshot

record remove_work_result =
  rw_cancel_target :: "batch_cancel_target option"
  rw_terminal_message_ids :: "id list"
  rw_affected_run_summaries :: "run_work_summary list"

record cancel_run_work_result =
  cw_cancel_targets :: "batch_cancel_target list"
  cw_terminal_message_ids :: "id list"
  cw_summary :: run_work_summary

record runtime_constraint_update =
  ru_slot :: slot_work_snapshot
  ru_terminal_message_ids :: "id list"
  ru_affected_run_summaries :: "run_work_summary list"

record run_binding =
  rb_team_run_id :: "id option"
  rb_created_new_run :: bool
  rb_user_intervention :: bool

text \<open>
  The trait \<open>RunCausalityPort\<close> as a record of functions on the state \<open>'r\<close> of its
  implementation. \<open>bind_enqueue\<close> is also given the identifier \<open>generate_id\<close> would return
  if the implementation draws one, and \<open>apply_work_summary\<close> the clock reading.
\<close>

record 'r run_causality_port =
  bind_enqueue :: "id \<Rightarrow> enqueue_request \<Rightarrow> 'r \<Rightarrow> run_binding \<times> 'r"
  abort_binding :: "run_binding \<Rightarrow> 'r \<Rightarrow> 'r"
  apply_work_summary :: "timestamp_ms \<Rightarrow> run_work_summary \<Rightarrow> 'r \<Rightarrow> 'r"

section \<open>The coordinator's private state\<close>

record enqueue_lease_record =
  lr_lease :: enqueue_lease
  lr_binding :: run_binding

record active_batch =
  ab_batch :: work_batch
  ab_turn_id :: "id option"
  ab_started_at_ms :: "timestamp_ms option"

record slot_state =
  ss_role :: target_role
  ss_foreground :: "id list"
  ss_control :: "id list"
  ss_background :: "id list"
  ss_active :: "active_batch option"
  ss_paused :: bool
  ss_runtime_constraint :: runtime_constraint
  ss_known_unread_message_ids :: "id set"
  ss_removed :: bool

definition new_slot :: "target_role \<Rightarrow> slot_state" where
  "new_slot role =
     \<lparr>ss_role = role, ss_foreground = [], ss_control = [], ss_background = [], ss_active = None,
      ss_paused = False, ss_runtime_constraint = RcStarting 0,
      ss_known_unread_message_ids = {}, ss_removed = False\<rparr>"

fun queue :: "slot_state \<Rightarrow> work_priority \<Rightarrow> id list" where
  "queue sl Foreground = ss_foreground sl"
| "queue sl Control = ss_control sl"
| "queue sl Background = ss_background sl"

fun queue_mut :: "work_priority \<Rightarrow> (id list \<Rightarrow> id list) \<Rightarrow> slot_state \<Rightarrow> slot_state" where
  "queue_mut Foreground f sl = sl\<lparr>ss_foreground := f (ss_foreground sl)\<rparr>"
| "queue_mut Control f sl = sl\<lparr>ss_control := f (ss_control sl)\<rparr>"
| "queue_mut Background f sl = sl\<lparr>ss_background := f (ss_background sl)\<rparr>"

definition queued_ids :: "slot_state \<Rightarrow> id list" where
  "queued_ids sl = ss_foreground sl @ ss_control sl @ ss_background sl"

definition remove_queued :: "id \<Rightarrow> slot_state \<Rightarrow> slot_state" where
  "remove_queued i sl =
     sl\<lparr>ss_foreground := filter (\<lambda>c. c \<noteq> i) (ss_foreground sl),
        ss_control := filter (\<lambda>c. c \<noteq> i) (ss_control sl),
        ss_background := filter (\<lambda>c. c \<noteq> i) (ss_background sl)\<rparr>"

definition clear_queues :: "slot_state \<Rightarrow> slot_state" where
  "clear_queues sl = sl\<lparr>ss_foreground := [], ss_control := [], ss_background := []\<rparr>"

record coordinator_state =
  cs_slots :: "(id, slot_state) table"
  cs_intents :: "(id, work_intent) table"
  cs_enqueue_leases :: "(id, enqueue_lease_record) table"
  cs_next_operation_id :: u64

definition initial_state :: coordinator_state where
  "initial_state =
     \<lparr>cs_slots = [], cs_intents = [], cs_enqueue_leases = [], cs_next_operation_id = 0\<rparr>"

record 'r slot_work_coordinator =
  sc_team_id :: id
  sc_session_generation :: id
  sc_run_causality :: "'r run_causality_port"
  sc_run_state :: 'r
  sc_state :: coordinator_state

definition new_coordinator :: "id \<Rightarrow> id \<Rightarrow> 'r run_causality_port \<Rightarrow> 'r \<Rightarrow> 'r slot_work_coordinator" where
  "new_coordinator team gen port r =
     \<lparr>sc_team_id = team, sc_session_generation = gen, sc_run_causality = port,
      sc_run_state = r, sc_state = initial_state\<rparr>"

text \<open>The order in which \<open>next\<close> looks at the queues: foreground, control, background.\<close>

instantiation work_priority :: linorder
begin

fun priority_rank :: "work_priority \<Rightarrow> nat" where
  "priority_rank Foreground = 0"
| "priority_rank Control = 1"
| "priority_rank Background = 2"

definition less_eq_work_priority :: "work_priority \<Rightarrow> work_priority \<Rightarrow> bool" where
  "less_eq_work_priority p q \<longleftrightarrow> priority_rank p \<le> priority_rank q"

definition less_work_priority :: "work_priority \<Rightarrow> work_priority \<Rightarrow> bool" where
  "less_work_priority p q \<longleftrightarrow> priority_rank p < priority_rank q"

instance
proof
  fix p q r :: work_priority
  show "(p < q) = (p \<le> q \<and> \<not> q \<le> p)"
    by (auto simp: less_eq_work_priority_def less_work_priority_def)
  show "p \<le> p" by (simp add: less_eq_work_priority_def)
  show "p \<le> q \<Longrightarrow> q \<le> r \<Longrightarrow> p \<le> r" by (simp add: less_eq_work_priority_def)
  show "p \<le> q \<Longrightarrow> q \<le> p \<Longrightarrow> p = q"
    by (cases p; cases q) (auto simp: less_eq_work_priority_def)
  show "p \<le> q \<or> q \<le> p" by (auto simp: less_eq_work_priority_def)
qed

end

end
