(* ===== verification/WorkCoordinator.thy ===== *)
theory WorkCoordinator
  imports WorkModel
begin

text \<open>
  The operations of the team work coordinator, \<open>work_coordinator/coordinator.rs\<close> and
  \<open>work_coordinator/snapshot.rs\<close>, in the order of the source. An operation reads and
  changes the coordinator's state under its mutex and, having released it, hands the run
  summaries it computed to the causality port. The definitions run both parts as one step,
  so they describe the schedules in which no other operation comes between the two; what
  can happen otherwise is shown on one schedule in \<open>TeamWork\<close>.

  Arguments that stand for the outside world come first: \<open>now\<close> is the clock reading, an
  identifier argument is what \<open>generate_id\<close> returns (\<open>gen\<close> gives the n-th identifier of an
  operation that draws several), and \<open>ord\<close> is the order in which a \<open>HashMap\<close> is iterated.
  Log calls are left out. \<open>None\<close> is a panic of an \<open>expect\<close> or \<open>unreachable!\<close>.
\<close>

section \<open>Snapshots\<close>

definition slot_snapshot_locked :: "coordinator_state \<Rightarrow> id \<Rightarrow> slot_work_snapshot option" where
  "slot_snapshot_locked st sid =
     (case map_of (cs_slots st) sid of None \<Rightarrow> None | Some slot \<Rightarrow>
       let active_batch = map_option ab_batch (ss_active slot);
           active_turn_id = Option.bind (ss_active slot) ab_turn_id;
           started_at = Option.bind (ss_active slot) ab_started_at_ms;
           phase = (if ss_paused slot then PhPaused
                    else if active_turn_id \<noteq> None then PhRunning
                    else if active_batch \<noteq> None then PhStarting
                    else if ss_runtime_constraint slot \<noteq> RcReady then PhBlocked
                    else if queued_ids slot \<noteq> [] then PhQueued
                    else PhIdle);
           run = or_else (Option.bind active_batch (\<lambda>b. first (wb_team_run_ids b)))
                   (find_map (\<lambda>i. Option.bind (map_of (cs_intents st) i) wi_team_run_id)
                      (queued_ids slot))
       in Some \<lparr>sn_slot_id = sid, sn_role = ss_role slot, sn_state = phase,
            sn_queued_foreground_count = length (ss_foreground slot),
            sn_queued_background_count = length (ss_control slot) + length (ss_background slot),
            sn_active_batch = active_batch, sn_active_turn_id = active_turn_id,
            sn_active_turn_started_at_ms = started_at,
            sn_runtime_constraint = ss_runtime_constraint slot, sn_team_run_id = run\<rparr>)"

definition run_intents :: "coordinator_state \<Rightarrow> id \<Rightarrow> work_intent list" where
  "run_intents st rid = filter (\<lambda>i. wi_team_run_id i = Some rid) (map snd (cs_intents st))"

definition run_leases :: "coordinator_state \<Rightarrow> id \<Rightarrow> enqueue_lease_record list" where
  "run_leases st rid =
     filter (\<lambda>r. el_team_run_id (lr_lease r) = Some rid) (map snd (cs_enqueue_leases st))"

fun starting_batch :: "work_intent_state \<Rightarrow> id option" where
  "starting_batch (Starting b _) = Some b"
| "starting_batch _ = None"

fun running_batch :: "work_intent_state \<Rightarrow> id option" where
  "running_batch (Running b _ _) = Some b"
| "running_batch _ = None"

fun is_failed :: "work_intent_state \<Rightarrow> bool" where
  "is_failed (Failed _) = True"
| "is_failed _ = False"

fun is_cancelled :: "work_intent_state \<Rightarrow> bool" where
  "is_cancelled (Cancelled _) = True"
| "is_cancelled _ = False"

definition slot_is_paused :: "coordinator_state \<Rightarrow> id \<Rightarrow> bool" where
  "slot_is_paused st sid =
     (case map_of (cs_slots st) sid of None \<Rightarrow> False | Some slot \<Rightarrow> ss_paused slot)"

definition run_summary_locked :: "coordinator_state \<Rightarrow> id \<Rightarrow> run_work_summary" where
  "run_summary_locked st rid =
     (let associated = run_intents st rid;
          slot_ids = btree_set (map wi_slot_id associated
            @ map (\<lambda>r. el_slot_id (lr_lease r)) (run_leases st rid))
      in \<lparr>rs_team_run_id = rid,
          rs_queued_intent_count = length (filter (\<lambda>i. wi_state i = Queued) associated),
          rs_starting_batch_count =
            length (remdups (List.map_filter (\<lambda>i. starting_batch (wi_state i)) associated)),
          rs_running_batch_count =
            length (remdups (List.map_filter (\<lambda>i. running_batch (wi_state i)) associated)),
          rs_active_enqueue_lease_count = length (run_leases st rid),
          rs_paused_intent_count =
            length (filter (\<lambda>i. wi_state i = Queued \<and> slot_is_paused st (wi_slot_id i)) associated),
          rs_failed_intent_count = length (filter (\<lambda>i. is_failed (wi_state i)) associated),
          rs_slots = List.map_filter (slot_snapshot_locked st) slot_ids\<rparr>)"

definition run_summaries_locked :: "coordinator_state \<Rightarrow> id list \<Rightarrow> run_work_summary list" where
  "run_summaries_locked st run_ids = map (run_summary_locked st) (btree_set run_ids)"

definition all_run_ids :: "coordinator_state \<Rightarrow> id list" where
  "all_run_ids st =
     btree_set (List.map_filter wi_team_run_id (map snd (cs_intents st))
       @ List.map_filter (\<lambda>r. el_team_run_id (lr_lease r)) (map snd (cs_enqueue_leases st)))"

definition publish_run_summaries ::
  "timestamp_ms \<Rightarrow> run_work_summary list \<Rightarrow> 'r slot_work_coordinator \<Rightarrow> 'r slot_work_coordinator" where
  "publish_run_summaries now sums s =
     s\<lparr>sc_run_state := fold (apply_work_summary (sc_run_causality s) now) sums (sc_run_state s)\<rparr>"

section \<open>Helpers at the end of the source file\<close>

fun validate_enqueue_constraint :: "id \<Rightarrow> slot_state \<Rightarrow> team_error + unit" where
  "validate_enqueue_constraint sid slot =
     (if ss_removed slot then Inl (InvalidRequest (''Team slot was removed: '' @ sid))
      else case ss_runtime_constraint slot of
        RcReady \<Rightarrow> Inr ()
      | RcStarting _ \<Rightarrow> Inr ()
      | RcFailed _ classification \<Rightarrow>
          Inl (InvalidRequest (''Team slot runtime failed ('' @ classification @ ''): '' @ sid))
      | RcRemoving _ \<Rightarrow> Inl (InvalidRequest (''Team slot is being removed: '' @ sid))
      | RcSessionStopped \<Rightarrow> Inl (InvalidRequest (''Team session stopped for slot: '' @ sid)))"

definition is_current_batch :: "'r slot_work_coordinator \<Rightarrow> work_batch \<Rightarrow> bool" where
  "is_current_batch s batch \<longleftrightarrow>
     wb_session_generation batch = sc_session_generation s \<and>
     (case Option.bind (map_of (cs_slots (sc_state s)) (wb_slot_id batch)) ss_active of
        None \<Rightarrow> False
      | Some active \<Rightarrow>
          wb_batch_id (ab_batch active) = wb_batch_id batch \<and>
          wb_operation_id (ab_batch active) = wb_operation_id batch \<and>
          wb_session_generation (ab_batch active) = wb_session_generation batch)"

definition set_intent_states ::
  "work_intent_state \<Rightarrow> id list \<Rightarrow> (id, work_intent) table \<Rightarrow> (id, work_intent) table" where
  "set_intent_states ws ids m = modify_all (\<lambda>i. i\<lparr>wi_state := ws\<rparr>) ids m"

section \<open>Enqueueing: lease, commit, abort\<close>

definition acquire_enqueue ::
  "id \<Rightarrow> id \<Rightarrow> enqueue_request \<Rightarrow> 'r slot_work_coordinator
     \<Rightarrow> (team_error + enqueue_lease) \<times> 'r slot_work_coordinator" where
  "acquire_enqueue lease_id run_id req s =
     (let st = sc_state s;
          sid = er_slot_id req;
          slot = (entry_or sid (new_slot (er_role req)) (cs_slots st))\<lparr>ss_role := er_role req\<rparr>;
          slots = AList.update sid slot (cs_slots st);
          st1 = st\<lparr>cs_slots := slots\<rparr>
      in case validate_enqueue_constraint sid slot of
           Inl e \<Rightarrow> (Inl e, s\<lparr>sc_state := st1\<rparr>)
         | Inr _ \<Rightarrow>
             let (binding, r) = (case er_binding req of
                   BackgroundBinding \<Rightarrow>
                     (\<lparr>rb_team_run_id = None, rb_created_new_run = False,
                       rb_user_intervention = False\<rparr>, sc_run_state s)
                 | InheritRunningBatch caller \<Rightarrow>
                     (\<lparr>rb_team_run_id =
                         Option.bind (Option.bind (map_of slots caller) ss_active)
                           (\<lambda>a. first (wb_team_run_ids (ab_batch a))),
                       rb_created_new_run = False, rb_user_intervention = False\<rparr>,
                      sc_run_state s)
                 | _ \<Rightarrow> bind_enqueue (sc_run_causality s) run_id req (sc_run_state s));
                 lease = \<lparr>el_lease_id = lease_id,
                   el_session_generation = sc_session_generation s, el_slot_id = sid,
                   el_role = er_role req, el_source = er_source req,
                   el_team_run_id = rb_team_run_id binding\<rparr>
             in (Inr lease,
                 s\<lparr>sc_run_state := r,
                   sc_state := st1\<lparr>cs_enqueue_leases :=
                     AList.update lease_id \<lparr>lr_lease = lease, lr_binding = binding\<rparr>
                       (cs_enqueue_leases st1)\<rparr>\<rparr>))"

fun commit_disposition :: "slot_state \<Rightarrow> enqueue_disposition option" where
  "commit_disposition slot =
     (case ss_runtime_constraint slot of
        RcStarting _ \<Rightarrow> Some BlockedRuntimeStarting
      | RcReady \<Rightarrow>
          if ss_active slot = None \<and> queued_ids slot = [] then Some Accepted else Some DispQueued
      | _ \<Rightarrow> None)"

definition commit_enqueue ::
  "timestamp_ms \<Rightarrow> id \<Rightarrow> enqueue_lease \<Rightarrow> id option \<Rightarrow> 'r slot_work_coordinator
     \<Rightarrow> ((team_error + enqueue_commit) \<times> 'r slot_work_coordinator) option" where
  "commit_enqueue now intent_id lease msg s =
     (let st = sc_state s; sid = el_slot_id lease in
      case map_of (cs_enqueue_leases st) (el_lease_id lease) of
        None \<Rightarrow> Some (Inl (InvalidRequest ''enqueue lease is no longer active''), s)
      | Some record \<Rightarrow>
        if lr_lease record \<noteq> lease \<or> el_session_generation lease \<noteq> sc_session_generation s
        then Some (Inl (InvalidRequest ''stale enqueue lease owner''), s)
        else if requires_mailbox_message (el_source lease) \<and> msg = None
        then Some (Inl (InvalidRequest
               (work_source_debug (el_source lease) @ '' requires a mailbox message'')), s)
        else (case map_of (cs_slots st) sid of
          None \<Rightarrow> Some (Inl (AgentNotFound sid), s)
        | Some slot \<Rightarrow>
          (case validate_enqueue_constraint sid slot of
             Inl e \<Rightarrow> Some (Inl e, s)
           | Inr _ \<Rightarrow>
             (case commit_disposition slot of None \<Rightarrow> None | Some disposition \<Rightarrow>
               let intent = \<lparr>wi_intent_id = intent_id,
                     wi_session_generation = sc_session_generation s, wi_slot_id = sid,
                     wi_role = el_role lease, wi_source = el_source lease,
                     wi_priority = priority (el_source lease), wi_mailbox_message_id = msg,
                     wi_team_run_id = el_team_run_id lease, wi_created_at_ms = now,
                     wi_state = Queued\<rparr>;
                   slot1 = (if resumes_paused_slot (el_source lease)
                            then slot\<lparr>ss_paused := False\<rparr> else slot);
                   slot2 = slot1\<lparr>ss_known_unread_message_ids :=
                             ss_known_unread_message_ids slot1 \<union> set_option msg\<rparr>;
                   slot3 = queue_mut (wi_priority intent) (\<lambda>q. q @ [intent_id]) slot2;
                   st1 = st\<lparr>cs_enqueue_leases := AList.delete (el_lease_id lease) (cs_enqueue_leases st),
                            cs_intents := AList.update intent_id intent (cs_intents st),
                            cs_slots := AList.update sid slot3 (cs_slots st)\<rparr>
               in (case slot_snapshot_locked st1 sid of None \<Rightarrow> None | Some snap \<Rightarrow>
                 Some (Inr \<lparr>ec_intent_id = intent_id, ec_team_run_id = el_team_run_id lease,
                            ec_disposition = disposition, ec_slot = snap\<rparr>,
                       publish_run_summaries now
                         (run_summaries_locked st1 (option_list (el_team_run_id lease)))
                         (s\<lparr>sc_state := st1\<rparr>)))))))"

definition abort_enqueue ::
  "timestamp_ms \<Rightarrow> enqueue_lease \<Rightarrow> 'r slot_work_coordinator
     \<Rightarrow> commit_result \<times> 'r slot_work_coordinator" where
  "abort_enqueue now lease s =
     (let st = sc_state s in
      case map_of (cs_enqueue_leases st) (el_lease_id lease) of
        None \<Rightarrow> (StaleOwner, s)
      | Some record \<Rightarrow>
        let leases = AList.delete (el_lease_id lease) (cs_enqueue_leases st) in
        if lr_lease record \<noteq> lease \<or> el_session_generation lease \<noteq> sc_session_generation s
        then (StaleOwner,
              s\<lparr>sc_state := st\<lparr>cs_enqueue_leases :=
                AList.update (el_lease_id (lr_lease record)) record leases\<rparr>\<rparr>)
        else
          let st1 = st\<lparr>cs_enqueue_leases := leases\<rparr>;
              remove_empty_run = (case el_team_run_id lease of None \<Rightarrow> False
                | Some rid \<Rightarrow> run_intents st1 rid = [] \<and> run_leases st1 rid = []);
              summaries = run_summaries_locked st1 (option_list (el_team_run_id lease));
              s1 = s\<lparr>sc_state := st1\<rparr>;
              s2 = (if remove_empty_run
                    then s1\<lparr>sc_run_state :=
                      abort_binding (sc_run_causality s1) (lr_binding record) (sc_run_state s1)\<rparr>
                    else s1)
          in (Committed, publish_run_summaries now summaries s2))"

section \<open>Mailbox reconciliation\<close>

fun reconcile_queued ::
  "id list \<Rightarrow> id list \<Rightarrow> (id, work_intent) table
     \<Rightarrow> id list \<times> id list \<times> (id, work_intent) table" where
  "reconcile_queued unread [] m = ([], [], m)"
| "reconcile_queued unread (c # cs) m =
     (case map_of m c of
        None \<Rightarrow> reconcile_queued unread cs m
      | Some intent \<Rightarrow>
        (case wi_mailbox_message_id intent of
           None \<Rightarrow> (let (kept, cleared, m') = reconcile_queued unread cs m in (c # kept, cleared, m'))
         | Some mid \<Rightarrow>
             if mid \<in> set unread
             then (let (kept, cleared, m') = reconcile_queued unread cs m in (c # kept, cleared, m'))
             else (let (kept, cleared, m') =
                         reconcile_queued unread cs
                           (AList.map_entry c (\<lambda>i. i\<lparr>wi_state := Completed\<rparr>) m)
                   in (kept, c # cleared, m'))))"

definition already_owned :: "id \<Rightarrow> id \<Rightarrow> (id, work_intent) table \<Rightarrow> bool" where
  "already_owned sid mid m \<longleftrightarrow>
     list_ex (\<lambda>i. wi_slot_id i = sid \<and> wi_mailbox_message_id i = Some mid
       \<and> \<not> is_terminal (wi_state i)) (map snd m)"

fun recover_unread ::
  "timestamp_ms \<Rightarrow> (nat \<Rightarrow> id) \<Rightarrow> id \<Rightarrow> id \<Rightarrow> target_role \<Rightarrow> nat \<Rightarrow> id list
     \<Rightarrow> coordinator_state \<Rightarrow> (id list \<times> coordinator_state) option" where
  "recover_unread now gen generation sid role n [] st = Some ([], st)"
| "recover_unread now gen generation sid role n (mid # mids) st =
     (if already_owned sid mid (cs_intents st)
      then recover_unread now gen generation sid role n mids st
      else
        let intent_id = gen n;
            intents = AList.update intent_id
              \<lparr>wi_intent_id = intent_id, wi_session_generation = generation, wi_slot_id = sid,
               wi_role = role, wi_source = RecoveryDrain, wi_priority = Background,
               wi_mailbox_message_id = Some mid, wi_team_run_id = None,
               wi_created_at_ms = now, wi_state = Queued\<rparr> (cs_intents st)
        in case map_of (cs_slots st) sid of
             None \<Rightarrow> None
           | Some slot \<Rightarrow>
               (case recover_unread now gen generation sid role (Suc n) mids
                  (st\<lparr>cs_intents := intents,
                     cs_slots := AList.update sid
                       (slot\<lparr>ss_background := ss_background slot @ [intent_id]\<rparr>) (cs_slots st)\<rparr>) of
                  None \<Rightarrow> None
                | Some (created, st') \<Rightarrow> Some (intent_id # created, st')))"

definition reconcile_mailbox ::
  "timestamp_ms \<Rightarrow> (nat \<Rightarrow> id) \<Rightarrow> id \<Rightarrow> id list \<Rightarrow> target_role \<Rightarrow> 'r slot_work_coordinator
     \<Rightarrow> (reconcile_projection \<times> 'r slot_work_coordinator) option" where
  "reconcile_mailbox now gen sid unread role s =
     (let st = sc_state s;
          slot = (entry_or sid (new_slot role) (cs_slots st))
                   \<lparr>ss_role := role, ss_known_unread_message_ids := set unread\<rparr>;
          (kept, cleared, intents) = reconcile_queued unread (queued_ids slot) (cs_intents st);
          st1 = st\<lparr>cs_slots := AList.update sid (fold remove_queued cleared slot) (cs_slots st),
                   cs_intents := intents\<rparr>
      in case recover_unread now gen (sc_session_generation s) sid role 0 unread st1 of
           None \<Rightarrow> None
         | Some (created, st2) \<Rightarrow>
             Some (\<lparr>rp_created_recovery_intent_ids = created, rp_retained_intent_ids = kept,
                    rp_cleared_stale_intent_ids = cleared\<rparr>, s\<lparr>sc_state := st2\<rparr>))"

section \<open>Claiming and starting a batch\<close>

fun claim_intents ::
  "id \<Rightarrow> u64 \<Rightarrow> id list \<Rightarrow> id list \<Rightarrow> id list \<Rightarrow> (id, work_intent) table
     \<Rightarrow> (id list \<times> id list \<times> (id, work_intent) table) option" where
  "claim_intents bid op [] mids runs m = Some (mids, runs, m)"
| "claim_intents bid op (c # cs) mids runs m =
     (case map_of m c of
        None \<Rightarrow> None
      | Some intent \<Rightarrow>
          claim_intents bid op cs
            (mids @ option_list (wi_mailbox_message_id intent))
            (case wi_team_run_id intent of
               None \<Rightarrow> runs
             | Some rid \<Rightarrow> if rid \<in> set runs then runs else runs @ [rid])
            (AList.map_entry c (\<lambda>i. i\<lparr>wi_state := Starting bid op\<rparr>) m))"

definition has_message :: "(id, work_intent) table \<Rightarrow> id \<Rightarrow> bool" where
  "has_message m i =
     (case map_of m i of None \<Rightarrow> False | Some intent \<Rightarrow> wi_mailbox_message_id intent \<noteq> None)"

definition selected_priority :: "slot_state \<Rightarrow> work_priority option" where
  "selected_priority slot =
     List.find (\<lambda>p. queue slot p \<noteq> []) [Foreground, Control, Background]"

definition next_work ::
  "timestamp_ms \<Rightarrow> id \<Rightarrow> id \<Rightarrow> 'r slot_work_coordinator
     \<Rightarrow> (reconcile_decision \<times> 'r slot_work_coordinator) option" where
  "next_work now batch_id sid s =
     (let st = sc_state s in
      case map_of (cs_slots st) sid of
        None \<Rightarrow> Some (Quiescent, s)
      | Some slot \<Rightarrow>
        if ss_active slot \<noteq> None then Some (WaitingForCompletion, s)
        else if ss_runtime_constraint slot \<noteq> RcReady
        then Some (BlockedBy (ss_runtime_constraint slot), s)
        else if ss_paused slot then Some (Quiescent, s)
        else (case selected_priority slot of
          None \<Rightarrow> Some (Quiescent, s)
        | Some p \<Rightarrow>
          let queued = queue slot p;
              message_ids = filter (has_message (cs_intents st)) queued
          in if message_ids = [] then Some (SettleSignals queued, s)
             else
               let op = saturating_add (cs_next_operation_id st) 1 in
               (case claim_intents batch_id op message_ids [] [] (cs_intents st) of
                  None \<Rightarrow> None
                | Some (mids, runs, intents) \<Rightarrow>
                  let batch = \<lparr>wb_batch_id = batch_id,
                        wb_session_generation = sc_session_generation s, wb_slot_id = sid,
                        wb_intent_ids = message_ids, wb_mailbox_message_ids = mids,
                        wb_highest_priority = p, wb_team_run_ids = runs, wb_operation_id = op\<rparr>;
                      slot1 = (fold remove_queued message_ids slot)
                        \<lparr>ss_active := Some \<lparr>ab_batch = batch, ab_turn_id = None,
                                            ab_started_at_ms = None\<rparr>\<rparr>;
                      st1 = st\<lparr>cs_next_operation_id := op, cs_intents := intents,
                               cs_slots := AList.update sid slot1 (cs_slots st)\<rparr>
                  in Some (Claim batch,
                       publish_run_summaries now (run_summaries_locked st1 runs)
                         (s\<lparr>sc_state := st1\<rparr>)))))"

definition mark_started ::
  "timestamp_ms \<Rightarrow> work_batch \<Rightarrow> id \<Rightarrow> 'r slot_work_coordinator
     \<Rightarrow> start_commit_result \<times> 'r slot_work_coordinator" where
  "mark_started now batch turn_id s =
     (let st = sc_state s in
      if \<not> is_current_batch s batch
      then (if list_all (\<lambda>i. case map_of (cs_intents st) i of None \<Rightarrow> False
                 | Some intent \<Rightarrow> is_cancelled (wi_state intent)) (wb_intent_ids batch)
            then (CancelImmediately, s) else (StartStaleOwner, s))
      else
        let cancel_immediately = (case map_of (cs_slots st) (wb_slot_id batch) of
              None \<Rightarrow> False
            | Some slot \<Rightarrow> ss_paused slot \<or> ss_runtime_constraint slot \<noteq> RcReady);
            intents = set_intent_states
              (Running (wb_batch_id batch) (wb_operation_id batch) turn_id)
              (wb_intent_ids batch) (cs_intents st);
            slots = AList.map_entry (wb_slot_id batch)
              (\<lambda>slot. slot\<lparr>ss_active := map_option
                 (\<lambda>a. a\<lparr>ab_turn_id := Some turn_id, ab_started_at_ms := Some now\<rparr>)
                 (ss_active slot)\<rparr>) (cs_slots st);
            st1 = st\<lparr>cs_intents := intents, cs_slots := slots\<rparr>
        in (if cancel_immediately then CancelImmediately else StartAccepted,
            publish_run_summaries now (run_summaries_locked st1 (wb_team_run_ids batch))
              (s\<lparr>sc_state := st1\<rparr>)))"

definition retry_start ::
  "timestamp_ms \<Rightarrow> work_batch \<Rightarrow> 'r slot_work_coordinator
     \<Rightarrow> (commit_result \<times> 'r slot_work_coordinator) option" where
  "retry_start now batch s =
     (let st = sc_state s in
      if \<not> is_current_batch s batch then Some (StaleOwner, s)
      else (case map_of (cs_slots st) (wb_slot_id batch) of
          None \<Rightarrow> None
        | Some slot \<Rightarrow>
          let slot1 = fold (\<lambda>i. queue_mut (wb_highest_priority batch) (\<lambda>q. i # q))
                (rev (wb_intent_ids batch)) (slot\<lparr>ss_active := None\<rparr>);
              st1 = st\<lparr>cs_intents := set_intent_states Queued (wb_intent_ids batch) (cs_intents st),
                       cs_slots := AList.update (wb_slot_id batch) slot1 (cs_slots st)\<rparr>
          in Some (Committed,
               publish_run_summaries now (run_summaries_locked st1 (wb_team_run_ids batch))
                 (s\<lparr>sc_state := st1\<rparr>))))"

definition terminalize_batch ::
  "timestamp_ms \<Rightarrow> work_batch \<Rightarrow> work_intent_state \<Rightarrow> 'r slot_work_coordinator
     \<Rightarrow> (commit_result \<times> 'r slot_work_coordinator) option" where
  "terminalize_batch now batch terminal_state s =
     (let st = sc_state s in
      if \<not> is_current_batch s batch then Some (StaleOwner, s)
      else (case map_of (cs_slots st) (wb_slot_id batch) of
          None \<Rightarrow> None
        | Some slot \<Rightarrow>
          let st1 = st\<lparr>cs_intents :=
                         set_intent_states terminal_state (wb_intent_ids batch) (cs_intents st),
                       cs_slots := AList.update (wb_slot_id batch) (slot\<lparr>ss_active := None\<rparr>)
                         (cs_slots st)\<rparr>
          in Some (Committed,
               publish_run_summaries now (run_summaries_locked st1 (wb_team_run_ids batch))
                 (s\<lparr>sc_state := st1\<rparr>))))"

definition complete_batch ::
  "timestamp_ms \<Rightarrow> work_batch \<Rightarrow> 'r slot_work_coordinator
     \<Rightarrow> (commit_result \<times> 'r slot_work_coordinator) option" where
  "complete_batch now batch s = terminalize_batch now batch Completed s"

definition fail_batch ::
  "timestamp_ms \<Rightarrow> work_batch \<Rightarrow> string \<Rightarrow> 'r slot_work_coordinator
     \<Rightarrow> (commit_result \<times> 'r slot_work_coordinator) option" where
  "fail_batch now batch classification s = terminalize_batch now batch (Failed classification) s"

definition cancel_batch ::
  "timestamp_ms \<Rightarrow> work_batch \<Rightarrow> string \<Rightarrow> 'r slot_work_coordinator
     \<Rightarrow> (commit_result \<times> 'r slot_work_coordinator) option" where
  "cancel_batch now batch classification s =
     terminalize_batch now batch (Cancelled classification) s"

section \<open>Cancelling a run\<close>

fun cancel_batch_intents ::
  "id \<Rightarrow> id list \<Rightarrow> (id, work_intent) table
     \<Rightarrow> (id list \<times> (work_priority \<times> id) list \<times> (id, work_intent) table) option" where
  "cancel_batch_intents rid [] m = Some ([], [], m)"
| "cancel_batch_intents rid (c # cs) m =
     (case map_of m c of
        None \<Rightarrow> None
      | Some intent \<Rightarrow>
        if wi_team_run_id intent = Some rid
        then (case cancel_batch_intents rid cs
                (AList.map_entry c (\<lambda>i. i\<lparr>wi_state := Cancelled ''run_cancelled''\<rparr>) m) of
                None \<Rightarrow> None
              | Some (mids, kept, m') \<Rightarrow>
                  Some (option_list (wi_mailbox_message_id intent) @ mids, kept, m'))
        else (case cancel_batch_intents rid cs
                (AList.map_entry c (\<lambda>i. i\<lparr>wi_state := Queued\<rparr>) m) of
                None \<Rightarrow> None
              | Some (mids, kept, m') \<Rightarrow> Some (mids, (wi_priority intent, c) # kept, m')))"

fun cancel_active_slots ::
  "id \<Rightarrow> (id \<times> active_batch) list \<Rightarrow> coordinator_state
     \<Rightarrow> (batch_cancel_target list \<times> id list \<times> coordinator_state) option" where
  "cancel_active_slots rid [] st = Some ([], [], st)"
| "cancel_active_slots rid ((sid, active) # rest) st =
     (case cancel_batch_intents rid (wb_intent_ids (ab_batch active)) (cs_intents st) of
        None \<Rightarrow> None
      | Some (mids, kept, m') \<Rightarrow>
        (case map_of (cs_slots st) sid of
           None \<Rightarrow> None
         | Some slot \<Rightarrow>
           let slot1 = fold (\<lambda>(p, i). queue_mut p (\<lambda>q. i # q)) (rev kept) (slot\<lparr>ss_active := None\<rparr>)
           in (case cancel_active_slots rid rest
                 (st\<lparr>cs_intents := m', cs_slots := AList.update sid slot1 (cs_slots st)\<rparr>) of
                 None \<Rightarrow> None
               | Some (targets, mids', st') \<Rightarrow>
                   Some (\<lparr>bt_batch = ab_batch active, bt_turn_id = ab_turn_id active\<rparr> # targets,
                         mids @ mids', st'))))"

fun cancel_queued_intents ::
  "id list \<Rightarrow> coordinator_state \<Rightarrow> (id list \<times> coordinator_state) option" where
  "cancel_queued_intents [] st = Some ([], st)"
| "cancel_queued_intents (c # cs) st =
     (case map_of (cs_intents st) c of
        None \<Rightarrow> None
      | Some intent \<Rightarrow>
        (case cancel_queued_intents cs
           (st\<lparr>cs_intents := AList.map_entry c
                 (\<lambda>i. i\<lparr>wi_state := Cancelled ''run_cancelled''\<rparr>) (cs_intents st),
              cs_slots := AList.map_entry (wi_slot_id intent) (remove_queued c) (cs_slots st)\<rparr>) of
           None \<Rightarrow> None
         | Some (mids, st') \<Rightarrow> Some (option_list (wi_mailbox_message_id intent) @ mids, st')))"

definition run_active_slots :: "id \<Rightarrow> coordinator_state \<Rightarrow> (id \<times> active_batch) list" where
  "run_active_slots rid st =
     List.map_filter (\<lambda>sid.
       case Option.bind (map_of (cs_slots st) sid) ss_active of
         None \<Rightarrow> None
       | Some active \<Rightarrow>
           if list_ex (\<lambda>i. Option.bind (map_of (cs_intents st) i) wi_team_run_id = Some rid)
                (wb_intent_ids (ab_batch active))
           then Some (sid, active) else None) (btree_keys (cs_slots st))"

definition run_queued_ids :: "id \<Rightarrow> coordinator_state \<Rightarrow> id list" where
  "run_queued_ids rid st = map wi_intent_id
     (filter (\<lambda>i. wi_team_run_id i = Some rid \<and> wi_state i = Queued) (map snd (cs_intents st)))"

definition cancel_run ::
  "timestamp_ms \<Rightarrow> (id list \<Rightarrow> id list) \<Rightarrow> id \<Rightarrow> 'r slot_work_coordinator
     \<Rightarrow> (cancel_run_work_result \<times> 'r slot_work_coordinator) option" where
  "cancel_run now ord rid s =
     (case cancel_active_slots rid (run_active_slots rid (sc_state s)) (sc_state s) of
        None \<Rightarrow> None
      | Some (targets, mids, st1) \<Rightarrow>
        (case cancel_queued_intents (ord (run_queued_ids rid st1)) st1 of
           None \<Rightarrow> None
         | Some (mids', st2) \<Rightarrow>
           let lease_ids = map (\<lambda>r. el_lease_id (lr_lease r)) (run_leases st2 rid);
               st3 = st2\<lparr>cs_enqueue_leases := fold AList.delete lease_ids (cs_enqueue_leases st2)\<rparr>;
               summary = run_summary_locked st3 rid
           in Some (\<lparr>cw_cancel_targets = targets, cw_terminal_message_ids = mids @ mids',
                     cw_summary = summary\<rparr>,
                    publish_run_summaries now [summary] (s\<lparr>sc_state := st3\<rparr>))))"

definition complete_signals ::
  "timestamp_ms \<Rightarrow> id \<Rightarrow> id list \<Rightarrow> 'r slot_work_coordinator
     \<Rightarrow> commit_result \<times> 'r slot_work_coordinator" where
  "complete_signals now sid intent_ids s =
     (let st = sc_state s;
          valid = list_all (\<lambda>i. case map_of (cs_intents st) i of None \<Rightarrow> False
            | Some intent \<Rightarrow> wi_slot_id intent = sid \<and> wi_mailbox_message_id intent = None
                \<and> wi_state intent = Queued) intent_ids
      in if \<not> valid then (Rejected, s)
         else
           let run_ids = List.map_filter
                 (\<lambda>i. Option.bind (map_of (cs_intents st) i) wi_team_run_id) intent_ids;
               st1 = st\<lparr>cs_intents := set_intent_states Completed intent_ids (cs_intents st),
                        cs_slots := AList.map_entry sid (fold remove_queued intent_ids) (cs_slots st)\<rparr>
           in (Committed,
               publish_run_summaries now (run_summaries_locked st1 run_ids)
                 (s\<lparr>sc_state := st1\<rparr>)))"

section \<open>Slot lifecycle: pause, runtime constraint, removal, stop\<close>

definition pause_slot ::
  "id \<Rightarrow> 'r slot_work_coordinator \<Rightarrow> (pause_work_result \<times> 'r slot_work_coordinator) option" where
  "pause_slot sid s =
     (let st = sc_state s;
          slot = (entry_or sid (new_slot Teammate) (cs_slots st))\<lparr>ss_paused := True\<rparr>;
          st1 = st\<lparr>cs_slots := AList.update sid slot (cs_slots st)\<rparr>;
          target = map_option (\<lambda>a. \<lparr>bt_batch = ab_batch a, bt_turn_id = ab_turn_id a\<rparr>) (ss_active slot)
      in case slot_snapshot_locked st1 sid of
           None \<Rightarrow> None
         | Some snap \<Rightarrow> Some (\<lparr>pw_cancel_target = target, pw_slot = snap\<rparr>, s\<lparr>sc_state := st1\<rparr>))"

fun constrain_intents ::
  "runtime_constraint \<Rightarrow> string \<Rightarrow> id list \<Rightarrow> (id, work_intent) table
     \<Rightarrow> ((work_priority \<times> id) list \<times> id list \<times> id list \<times> (id, work_intent) table) option" where
  "constrain_intents constraint cls [] m = Some ([], [], [], m)"
| "constrain_intents constraint cls (c # cs) m =
     (case map_of m c of
        None \<Rightarrow> None
      | Some intent \<Rightarrow>
        if wi_team_run_id intent = None \<and> constraint \<noteq> RcSessionStopped
        then (case constrain_intents constraint cls cs
                (AList.map_entry c (\<lambda>i. i\<lparr>wi_state := Queued\<rparr>) m) of
                None \<Rightarrow> None
              | Some (requeue, runs, mids, m') \<Rightarrow>
                  Some ((wi_priority intent, c) # requeue, runs, mids, m'))
        else (case constrain_intents constraint cls cs
                (AList.map_entry c (\<lambda>i. i\<lparr>wi_state :=
                   (if constraint = RcSessionStopped then Cancelled cls else Failed cls)\<rparr>) m) of
                None \<Rightarrow> None
              | Some (requeue, runs, mids, m') \<Rightarrow>
                  Some (requeue, option_list (wi_team_run_id intent) @ runs,
                        option_list (wi_mailbox_message_id intent) @ mids, m')))"

fun constraint_classification :: "runtime_constraint \<Rightarrow> string option" where
  "constraint_classification (RcFailed _ classification) = Some classification"
| "constraint_classification RcSessionStopped = Some ''session_stopped''"
| "constraint_classification _ = None"

definition slot_open_ids :: "id \<Rightarrow> coordinator_state \<Rightarrow> id list" where
  "slot_open_ids sid st = map wi_intent_id
     (filter (\<lambda>i. wi_slot_id i = sid \<and> \<not> is_terminal (wi_state i)) (map snd (cs_intents st)))"

definition set_runtime_constraint ::
  "timestamp_ms \<Rightarrow> (id list \<Rightarrow> id list) \<Rightarrow> id \<Rightarrow> runtime_constraint \<Rightarrow> 'r slot_work_coordinator
     \<Rightarrow> (runtime_constraint_update \<times> 'r slot_work_coordinator) option" where
  "set_runtime_constraint now ord sid constraint s =
     (let st = sc_state s;
          slot = (entry_or sid (new_slot Teammate) (cs_slots st))
                   \<lparr>ss_runtime_constraint := constraint\<rparr>;
          result = (case constraint_classification constraint of
              None \<Rightarrow> Some ([], [], st\<lparr>cs_slots := AList.update sid slot (cs_slots st)\<rparr>)
            | Some cls \<Rightarrow>
              (case constrain_intents constraint cls (ord (slot_open_ids sid st)) (cs_intents st) of
                 None \<Rightarrow> None
               | Some (requeue, runs, mids, intents) \<Rightarrow>
                 let slot1 = fold (\<lambda>(p, i). queue_mut p (\<lambda>q. q @ [i])) requeue
                               ((clear_queues slot)\<lparr>ss_active := None\<rparr>)
                 in Some (runs, mids, st\<lparr>cs_intents := intents,
                            cs_slots := AList.update sid slot1 (cs_slots st)\<rparr>)))
      in case result of
           None \<Rightarrow> None
         | Some (runs, mids, st1) \<Rightarrow>
           (case slot_snapshot_locked st1 sid of
              None \<Rightarrow> None
            | Some snap \<Rightarrow>
              let sums = run_summaries_locked st1 runs
              in Some (\<lparr>ru_slot = snap, ru_terminal_message_ids = mids,
                        ru_affected_run_summaries = sums\<rparr>,
                       publish_run_summaries now sums (s\<lparr>sc_state := st1\<rparr>))))"

fun cancel_removed ::
  "id list \<Rightarrow> (id, work_intent) table \<Rightarrow> (id list \<times> id list \<times> (id, work_intent) table) option" where
  "cancel_removed [] m = Some ([], [], m)"
| "cancel_removed (c # cs) m =
     (case map_of m c of
        None \<Rightarrow> None
      | Some intent \<Rightarrow>
        (case cancel_removed cs
           (AList.map_entry c (\<lambda>i. i\<lparr>wi_state := Cancelled ''slot_removed''\<rparr>) m) of
           None \<Rightarrow> None
         | Some (mids, runs, m') \<Rightarrow>
             Some (option_list (wi_mailbox_message_id intent) @ mids,
                   option_list (wi_team_run_id intent) @ runs, m')))"

definition active_ids :: "slot_state \<Rightarrow> id list" where
  "active_ids slot = (case ss_active slot of None \<Rightarrow> [] | Some a \<Rightarrow> wb_intent_ids (ab_batch a))"

definition removal_ids :: "id \<Rightarrow> coordinator_state \<Rightarrow> id list" where
  "removal_ids sid st =
     (let ordered = (case map_of (cs_slots st) sid of None \<Rightarrow> []
            | Some slot \<Rightarrow> active_ids slot @ queued_ids slot);
          remaining = filter (\<lambda>i. wi_slot_id i = sid \<and> \<not> is_terminal (wi_state i)
            \<and> wi_intent_id i \<notin> set ordered) (map snd (cs_intents st))
      in ordered @ map wi_intent_id
           (sort_key (\<lambda>i. (wi_created_at_ms i, wi_intent_id i)) remaining))"

definition remove_slot ::
  "timestamp_ms \<Rightarrow> id \<Rightarrow> 'r slot_work_coordinator
     \<Rightarrow> (remove_work_result \<times> 'r slot_work_coordinator) option" where
  "remove_slot now sid s =
     (let st = sc_state s;
          target = map_option (\<lambda>a. \<lparr>bt_batch = ab_batch a, bt_turn_id = ab_turn_id a\<rparr>)
            (Option.bind (map_of (cs_slots st) sid) ss_active)
      in case cancel_removed (removal_ids sid st) (cs_intents st) of
           None \<Rightarrow> None
         | Some (mids, runs, intents) \<Rightarrow>
           let st1 = st\<lparr>cs_intents := intents,
                 cs_slots := AList.map_entry sid
                   (\<lambda>slot. (clear_queues slot)\<lparr>ss_active := None, ss_removed := True\<rparr>) (cs_slots st)\<rparr>;
               sums = run_summaries_locked st1 runs
           in Some (\<lparr>rw_cancel_target = target, rw_terminal_message_ids = mids,
                     rw_affected_run_summaries = sums\<rparr>,
                    publish_run_summaries now sums (s\<lparr>sc_state := st1\<rparr>)))"

definition stop_work ::
  "timestamp_ms \<Rightarrow> 'r slot_work_coordinator \<Rightarrow> run_work_summary list \<times> 'r slot_work_coordinator" where
  "stop_work now s =
     (let st = sc_state s;
          run_ids = all_run_ids st;
          intents = map (\<lambda>(k, i). (k, if is_terminal (wi_state i) then i
                                      else i\<lparr>wi_state := Cancelled ''session_stopped''\<rparr>)) (cs_intents st);
          slots = map (\<lambda>(k, slot). (k, (clear_queues slot)
                     \<lparr>ss_active := None, ss_runtime_constraint := RcSessionStopped\<rparr>)) (cs_slots st);
          st1 = st\<lparr>cs_intents := intents, cs_slots := slots, cs_enqueue_leases := []\<rparr>;
          sums = map (run_summary_locked st1) run_ids
      in (sums, publish_run_summaries now sums (s\<lparr>sc_state := st1\<rparr>)))"

section \<open>Reading the coordinator\<close>

definition slot_snapshot :: "'r slot_work_coordinator \<Rightarrow> id \<Rightarrow> slot_work_snapshot option" where
  "slot_snapshot s sid = slot_snapshot_locked (sc_state s) sid"

definition summary_has_work :: "run_work_summary \<Rightarrow> bool" where
  "summary_has_work sm \<longleftrightarrow> rs_queued_intent_count sm > 0 \<or> rs_starting_batch_count sm > 0
     \<or> rs_running_batch_count sm > 0 \<or> rs_active_enqueue_lease_count sm > 0
     \<or> rs_paused_intent_count sm > 0"

definition coordinator_snapshot_of :: "'r slot_work_coordinator \<Rightarrow> coordinator_snapshot" where
  "coordinator_snapshot_of s =
     (let st = sc_state s in
      \<lparr>cn_session_generation = sc_session_generation s,
       cn_slots = List.map_filter (slot_snapshot_locked st) (btree_keys (cs_slots st)),
       cn_active_run_summary =
         List.find summary_has_work (map (run_summary_locked st) (all_run_ids st))\<rparr>)"

end
