(* ===== verification/WorkInvariant.thy ===== *)
theory WorkInvariant
  imports WorkCoordinator
begin

text \<open>
  Ownership of work. An intent that is not terminal is held by exactly one place of its
  own slot: the queue of its priority while it is \<open>Queued\<close>, or the active batch while it is
  \<open>Starting\<close> or \<open>Running\<close>. \<open>work_inv\<close> states this for the intent table and the slot table,
  and every operation of the coordinator keeps it.
\<close>

section \<open>The invariant\<close>

definition batch_state :: "active_batch \<Rightarrow> work_intent_state" where
  "batch_state a =
     (case ab_turn_id a of
        None \<Rightarrow> Starting (wb_batch_id (ab_batch a)) (wb_operation_id (ab_batch a))
      | Some t \<Rightarrow> Running (wb_batch_id (ab_batch a)) (wb_operation_id (ab_batch a)) t)"

definition intent_at ::
  "(id \<rightharpoonup> work_intent) \<Rightarrow> id \<Rightarrow> work_priority \<Rightarrow> work_intent_state \<Rightarrow> id \<Rightarrow> bool" where
  "intent_at I sid p ws k \<longleftrightarrow>
     (\<exists>i. I k = Some i \<and> wi_slot_id i = sid \<and> wi_priority i = p \<and> wi_state i = ws)"

definition run_of :: "(id \<rightharpoonup> work_intent) \<Rightarrow> id \<Rightarrow> id option" where
  "run_of I k = Option.bind (I k) wi_team_run_id"

definition run_ids_of :: "(id \<rightharpoonup> work_intent) \<Rightarrow> id set \<Rightarrow> id set" where
  "run_ids_of I K = {r. \<exists>k\<in>K. run_of I k = Some r}"

definition batch_ok :: "(id \<rightharpoonup> work_intent) \<Rightarrow> id \<Rightarrow> active_batch \<Rightarrow> bool" where
  "batch_ok I sid a \<longleftrightarrow>
     wb_slot_id (ab_batch a) = sid \<and> wb_intent_ids (ab_batch a) \<noteq> [] \<and>
     distinct (wb_intent_ids (ab_batch a)) \<and>
     (\<forall>k \<in> set (wb_intent_ids (ab_batch a)).
        intent_at I sid (wb_highest_priority (ab_batch a)) (batch_state a) k) \<and>
     set (wb_team_run_ids (ab_batch a)) = run_ids_of I (set (wb_intent_ids (ab_batch a)))"

definition slot_ok :: "(id \<rightharpoonup> work_intent) \<Rightarrow> id \<Rightarrow> slot_state \<Rightarrow> bool" where
  "slot_ok I sid slot \<longleftrightarrow>
     (\<forall>p. distinct (queue slot p) \<and> (\<forall>k \<in> set (queue slot p). intent_at I sid p Queued k)) \<and>
     (\<forall>a. ss_active slot = Some a \<longrightarrow> batch_ok I sid a)"

definition holds :: "slot_state \<Rightarrow> id \<Rightarrow> bool" where
  "holds slot k \<longleftrightarrow> k \<in> set (queued_ids slot) \<or> k \<in> set (active_ids slot)"

definition work_inv :: "(id \<rightharpoonup> work_intent) \<Rightarrow> (id \<rightharpoonup> slot_state) \<Rightarrow> bool" where
  "work_inv I S \<longleftrightarrow>
     (\<forall>k i. I k = Some i \<longrightarrow> wi_intent_id i = k) \<and>
     (\<forall>sid slot. S sid = Some slot \<longrightarrow> slot_ok I sid slot) \<and>
     (\<forall>k i. I k = Some i \<longrightarrow> \<not> is_terminal (wi_state i) \<longrightarrow>
        (\<exists>slot. S (wi_slot_id i) = Some slot \<and> holds slot k))"

section \<open>Queues\<close>

lemma queue_queue_mut [simp]:
  "queue (queue_mut p f slot) q = (if q = p then f (queue slot q) else queue slot q)"
  by (cases p; cases q) auto

lemma queue_mut_frame [simp]:
  "ss_active (queue_mut p f slot) = ss_active slot"
  "ss_paused (queue_mut p f slot) = ss_paused slot"
  "ss_removed (queue_mut p f slot) = ss_removed slot"
  "ss_runtime_constraint (queue_mut p f slot) = ss_runtime_constraint slot"
  "ss_role (queue_mut p f slot) = ss_role slot"
  by (cases p, auto)+

lemma queue_remove_queued [simp]:
  "queue (remove_queued i slot) p = filter (\<lambda>c. c \<noteq> i) (queue slot p)"
  by (cases p) (auto simp: remove_queued_def)

lemma remove_queued_frame [simp]:
  "ss_active (remove_queued i slot) = ss_active slot"
  "ss_paused (remove_queued i slot) = ss_paused slot"
  "ss_removed (remove_queued i slot) = ss_removed slot"
  "ss_runtime_constraint (remove_queued i slot) = ss_runtime_constraint slot"
  by (simp_all add: remove_queued_def)

lemma queue_fold_remove_queued [simp]:
  "queue (fold remove_queued ids slot) p = filter (\<lambda>c. c \<notin> set ids) (queue slot p)"
  by (induction ids arbitrary: slot) (auto intro: filter_cong)

lemma fold_remove_queued_frame [simp]:
  "ss_active (fold remove_queued ids slot) = ss_active slot"
  "ss_paused (fold remove_queued ids slot) = ss_paused slot"
  "ss_removed (fold remove_queued ids slot) = ss_removed slot"
  "ss_runtime_constraint (fold remove_queued ids slot) = ss_runtime_constraint slot"
  by (induction ids arbitrary: slot) auto

lemma queue_clear_queues [simp]: "queue (clear_queues slot) p = []"
  by (cases p) (auto simp: clear_queues_def)

lemma clear_queues_frame [simp]:
  "ss_active (clear_queues slot) = ss_active slot"
  "ss_paused (clear_queues slot) = ss_paused slot"
  by (simp_all add: clear_queues_def)

lemma queue_record_frame [simp]:
  "queue (slot\<lparr>ss_active := a\<rparr>) p = queue slot p"
  "queue (slot\<lparr>ss_role := r\<rparr>) p = queue slot p"
  "queue (slot\<lparr>ss_paused := b\<rparr>) p = queue slot p"
  "queue (slot\<lparr>ss_removed := b\<rparr>) p = queue slot p"
  "queue (slot\<lparr>ss_runtime_constraint := c\<rparr>) p = queue slot p"
  "queue (slot\<lparr>ss_known_unread_message_ids := u\<rparr>) p = queue slot p"
  by (cases p, auto)+

lemma queue_new_slot [simp]: "queue (new_slot r) p = []" "ss_active (new_slot r) = None"
  by (cases p, auto simp: new_slot_def)+

lemma set_queued_ids: "set (queued_ids slot) = (\<Union>p. set (queue slot p))"
proof -
  have "(\<Union>p. set (queue slot p)) = (\<Union>p \<in> {Foreground, Control, Background}. set (queue slot p))"
    by (rule SUP_cong) (use work_priority.exhaust in auto)
  then show ?thesis by (auto simp: queued_ids_def)
qed

lemma queued_ids_empty_iff: "queued_ids slot = [] \<longleftrightarrow> (\<forall>p. queue slot p = [])"
proof
  show "\<forall>p. queue slot p = []" if "queued_ids slot = []"
  proof
    fix p show "queue slot p = []" using that by (cases p) (auto simp: queued_ids_def)
  qed
  assume "\<forall>p. queue slot p = []"
  from this [rule_format, of Foreground] this [rule_format, of Control]
    this [rule_format, of Background]
  show "queued_ids slot = []" by (simp add: queued_ids_def)
qed

lemma holds_iff: "holds slot k \<longleftrightarrow> (\<exists>p. k \<in> set (queue slot p)) \<or> k \<in> set (active_ids slot)"
  by (auto simp: holds_def set_queued_ids)

lemma active_ids_simps [simp]:
  "ss_active slot = None \<Longrightarrow> active_ids slot = []"
  "ss_active slot = Some a \<Longrightarrow> active_ids slot = wb_intent_ids (ab_batch a)"
  by (simp_all add: active_ids_def)

lemma queue_fold_push_front [simp]:
  "queue (fold (\<lambda>i. queue_mut p (\<lambda>q. i # q)) ids slot) q =
     (if q = p then rev ids @ queue slot q else queue slot q)"
  by (induction ids arbitrary: slot) auto

lemma fold_push_front_active [simp]:
  "ss_active (fold (\<lambda>i. queue_mut p (\<lambda>q. i # q)) ids slot) = ss_active slot"
  by (induction ids arbitrary: slot) auto

lemma queue_fold_push_front_each [simp]:
  "queue (fold (\<lambda>(p, i). queue_mut p (\<lambda>q. i # q)) ps slot) q =
     rev (map snd (filter (\<lambda>x. fst x = q) ps)) @ queue slot q"
  by (induction ps arbitrary: slot) auto

lemma fold_push_front_each_active [simp]:
  "ss_active (fold (\<lambda>(p, i). queue_mut p (\<lambda>q. i # q)) ps slot) = ss_active slot"
  by (induction ps arbitrary: slot) (auto split: prod.splits)

lemma queue_fold_push_back_each [simp]:
  "queue (fold (\<lambda>(p, i). queue_mut p (\<lambda>q. q @ [i])) ps slot) q =
     queue slot q @ map snd (filter (\<lambda>x. fst x = q) ps)"
  by (induction ps arbitrary: slot) auto

lemma fold_push_back_each_active [simp]:
  "ss_active (fold (\<lambda>(p, i). queue_mut p (\<lambda>q. q @ [i])) ps slot) = ss_active slot"
  by (induction ps arbitrary: slot) (auto split: prod.splits)

section \<open>Closed forms of the loops over intents\<close>

definition restate :: "(id option \<Rightarrow> work_intent_state) \<Rightarrow> work_intent \<Rightarrow> work_intent" where
  "restate g i = i\<lparr>wi_state := g (wi_team_run_id i)\<rparr>"

lemma restate_sel [simp]:
  "wi_intent_id (restate g i) = wi_intent_id i"
  "wi_slot_id (restate g i) = wi_slot_id i"
  "wi_priority (restate g i) = wi_priority i"
  "wi_mailbox_message_id (restate g i) = wi_mailbox_message_id i"
  "wi_team_run_id (restate g i) = wi_team_run_id i"
  "wi_created_at_ms (restate g i) = wi_created_at_ms i"
  "wi_state (restate g i) = g (wi_team_run_id i)"
  by (simp_all add: restate_def)

lemma restate_restate [simp]: "restate g (restate g i) = restate g i"
  by (simp add: restate_def)

lemma set_intent_states_restate: "set_intent_states ws ids m = modify_all (restate (\<lambda>_. ws)) ids m"
  by (simp add: set_intent_states_def restate_def [abs_def])

lemma map_of_restate [loop_simps]:
  "map_of (modify_all (restate g) ks m) k =
     (if k \<in> set ks then map_option (restate g) (map_of m k) else map_of m k)"
  by (rule map_of_modify_all) simp

lemma modify_all_Cons: "modify_all f (k # ks) m = modify_all f ks (AList.map_entry k f m)"
  by (simp add: modify_all_def)

lemma modify_all_Nil [simp]: "modify_all f [] m = m"
  by (simp add: modify_all_def)

lemma map_entry_cong:
  "map_of m k = Some v \<Longrightarrow> f v = g v \<Longrightarrow> AList.map_entry k f m = AList.map_entry k g m"
  by (induction m) (auto split: if_splits)

lemma map_entry_restate:
  "map_of m k = Some i \<Longrightarrow> ws = g (wi_team_run_id i) \<Longrightarrow>
     AList.map_entry k (\<lambda>i. i\<lparr>wi_state := ws\<rparr>) m = AList.map_entry k (restate g) m"
  by (rule map_entry_cong [where v = i]) (simp_all add: restate_def)

definition message_of :: "(id \<rightharpoonup> work_intent) \<Rightarrow> id \<Rightarrow> id option" where
  "message_of I k = Option.bind (I k) wi_mailbox_message_id"

definition messages_of :: "(id \<rightharpoonup> work_intent) \<Rightarrow> id list \<Rightarrow> id list" where
  "messages_of I ks = concat (map (\<lambda>k. option_list (message_of I k)) ks)"

lemma messages_of_simps [simp]:
  "messages_of I [] = []"
  "messages_of I (k # ks) = option_list (message_of I k) @ messages_of I ks"
  by (simp_all add: messages_of_def)

lemma run_ids_of_simps [simp]:
  "run_ids_of I {} = {}"
  "run_ids_of I (insert k K) = set_option (run_of I k) \<union> run_ids_of I K"
  by (auto simp: run_ids_of_def)

lemma run_of_restate [simp]: "run_of (map_of (AList.map_entry c (restate g) m)) = run_of (map_of m)"
  by (cases "map_of m c") (auto simp: run_of_def table_simps fun_eq_iff)

lemma run_ids_of_restate [simp]:
  "run_ids_of (map_of (AList.map_entry c (restate g) m)) = run_ids_of (map_of m)"
  by (simp add: run_ids_of_def fun_eq_iff)

lemma message_of_restate [simp]:
  "message_of (map_of (AList.map_entry c (restate g) m)) = message_of (map_of m)"
  by (cases "map_of m c") (auto simp: message_of_def table_simps fun_eq_iff)

lemma messages_of_restate [simp]:
  "messages_of (map_of (AList.map_entry c (restate g) m)) = messages_of (map_of m)"
  by (simp add: messages_of_def fun_eq_iff)

lemma of_present [simp]:
  "I k = Some i \<Longrightarrow> run_of I k = wi_team_run_id i"
  "I k = Some i \<Longrightarrow> message_of I k = wi_mailbox_message_id i"
  by (simp_all add: run_of_def message_of_def)

lemma claim_intents_eq:
  "set cs \<subseteq> dom (map_of m) \<Longrightarrow>
     \<exists>runs'. claim_intents bid op cs mids runs m =
         Some (mids @ messages_of (map_of m) cs, runs',
               modify_all (restate (\<lambda>_. Starting bid op)) cs m)
       \<and> set runs' = set runs \<union> run_ids_of (map_of m) (set cs)"
proof (induction cs arbitrary: mids runs m)
  case (Cons c cs)
  then obtain i where i: "map_of m c = Some i" by auto
  let ?m = "AList.map_entry c (restate (\<lambda>_. Starting bid op)) m"
  define runs1 where "runs1 = (case wi_team_run_id i of None \<Rightarrow> runs
    | Some rid \<Rightarrow> if rid \<in> set runs then runs else runs @ [rid])"
  have *: "AList.map_entry c (\<lambda>i. i\<lparr>wi_state := Starting bid op\<rparr>) m = ?m"
    using i by (rule map_entry_restate) simp
  have runs1: "set runs1 = set runs \<union> set_option (wi_team_run_id i)"
    by (auto simp: runs1_def split: option.splits)
  have "set cs \<subseteq> dom (map_of ?m)" using Cons.prems by simp
  from Cons.IH [OF this, of "mids @ option_list (wi_mailbox_message_id i)" runs1] i
  show ?case by (auto simp: * modify_all_Cons runs1 simp flip: runs1_def)
qed simp

lemma cancel_removed_eq:
  "set cs \<subseteq> dom (map_of m) \<Longrightarrow>
     \<exists>runs. cancel_removed cs m = Some (messages_of (map_of m) cs, runs,
         modify_all (restate (\<lambda>_. Cancelled ''slot_removed'')) cs m)
       \<and> set runs = run_ids_of (map_of m) (set cs)"
proof (induction cs arbitrary: m)
  case (Cons c cs)
  then obtain i where i: "map_of m c = Some i" by auto
  let ?m = "AList.map_entry c (restate (\<lambda>_. Cancelled ''slot_removed'')) m"
  have *: "AList.map_entry c (\<lambda>i. i\<lparr>wi_state := Cancelled ''slot_removed''\<rparr>) m = ?m"
    using i by (rule map_entry_restate) simp
  have "set cs \<subseteq> dom (map_of ?m)" using Cons.prems by simp
  from Cons.IH [OF this] i show ?case by (auto simp: * modify_all_Cons)
qed simp

definition prio_of :: "(id \<rightharpoonup> work_intent) \<Rightarrow> id \<Rightarrow> work_priority" where
  "prio_of I k = (case I k of None \<Rightarrow> Background | Some i \<Rightarrow> wi_priority i)"

lemma prio_of_present [simp]: "I k = Some i \<Longrightarrow> prio_of I k = wi_priority i"
  by (simp add: prio_of_def)

lemma prio_of_restate [simp]:
  "prio_of (map_of (AList.map_entry c (restate g) m)) = prio_of (map_of m)"
  by (cases "map_of m c") (auto simp: prio_of_def table_simps fun_eq_iff)

definition cancel_state :: "id \<Rightarrow> id option \<Rightarrow> work_intent_state" where
  "cancel_state rid r = (if r = Some rid then Cancelled ''run_cancelled'' else Queued)"

lemma cancel_batch_intents_eq:
  "set cs \<subseteq> dom (map_of m) \<Longrightarrow>
     cancel_batch_intents rid cs m =
       Some (messages_of (map_of m) (filter (\<lambda>k. run_of (map_of m) k = Some rid) cs),
             map (\<lambda>k. (prio_of (map_of m) k, k)) (filter (\<lambda>k. run_of (map_of m) k \<noteq> Some rid) cs),
             modify_all (restate (cancel_state rid)) cs m)"
proof (induction cs arbitrary: m)
  case (Cons c cs)
  then obtain i where i: "map_of m c = Some i" by auto
  let ?m = "AList.map_entry c (restate (cancel_state rid)) m"
  have *: "wi_team_run_id i = Some rid \<Longrightarrow>
      AList.map_entry c (\<lambda>i. i\<lparr>wi_state := Cancelled ''run_cancelled''\<rparr>) m = ?m"
    "wi_team_run_id i \<noteq> Some rid \<Longrightarrow> AList.map_entry c (\<lambda>i. i\<lparr>wi_state := Queued\<rparr>) m = ?m"
    by (rule map_entry_restate [OF i], simp add: cancel_state_def)+
  have "set cs \<subseteq> dom (map_of ?m)" using Cons.prems by simp
  from Cons.IH [OF this] i show ?case
    by (auto simp: * modify_all_Cons)
qed simp

definition constrained_state :: "runtime_constraint \<Rightarrow> string \<Rightarrow> id option \<Rightarrow> work_intent_state" where
  "constrained_state c cls r =
     (if r = None \<and> c \<noteq> RcSessionStopped then Queued
      else if c = RcSessionStopped then Cancelled cls else Failed cls)"

lemma constrain_intents_eq:
  "set cs \<subseteq> dom (map_of m) \<Longrightarrow>
     \<exists>runs. constrain_intents c cls cs m =
       Some (map (\<lambda>k. (prio_of (map_of m) k, k))
               (filter (\<lambda>k. run_of (map_of m) k = None \<and> c \<noteq> RcSessionStopped) cs),
             runs,
             messages_of (map_of m)
               (filter (\<lambda>k. \<not> (run_of (map_of m) k = None \<and> c \<noteq> RcSessionStopped)) cs),
             modify_all (restate (constrained_state c cls)) cs m)
       \<and> set runs = run_ids_of (map_of m) (set cs)"
proof (induction cs arbitrary: m)
  case (Cons k cs)
  then obtain i where i: "map_of m k = Some i" by auto
  let ?m = "AList.map_entry k (restate (constrained_state c cls)) m"
  have *: "wi_team_run_id i = None \<Longrightarrow> c \<noteq> RcSessionStopped \<Longrightarrow>
      AList.map_entry k (\<lambda>i. i\<lparr>wi_state := Queued\<rparr>) m = ?m"
    "\<not> (wi_team_run_id i = None \<and> c \<noteq> RcSessionStopped) \<Longrightarrow>
      AList.map_entry k (\<lambda>i. i\<lparr>wi_state :=
        (if c = RcSessionStopped then Cancelled cls else Failed cls)\<rparr>) m = ?m"
    by (rule map_entry_restate [OF i], auto simp: constrained_state_def)+
  have "set cs \<subseteq> dom (map_of ?m)" using Cons.prems by simp
  from Cons.IH [OF this] obtain runs where IH:
    "constrain_intents c cls cs ?m = Some
      (map (\<lambda>k. (prio_of (map_of m) k, k))
         (filter (\<lambda>k. run_of (map_of m) k = None \<and> c \<noteq> RcSessionStopped) cs), runs,
       messages_of (map_of m)
         (filter (\<lambda>k. \<not> (run_of (map_of m) k = None \<and> c \<noteq> RcSessionStopped)) cs),
       modify_all (restate (constrained_state c cls)) cs ?m)"
    "set runs = run_ids_of (map_of m) (set cs)" by auto
  show ?case
  proof (cases "wi_team_run_id i = None \<and> c \<noteq> RcSessionStopped")
    case True
    with IH i *(1) show ?thesis by (simp add: modify_all_Cons)
  next
    case False
    with IH i *(2) show ?thesis by (auto simp: modify_all_Cons simp del: de_Morgan_conj)
  qed
qed simp

definition stale_message :: "id list \<Rightarrow> (id \<rightharpoonup> work_intent) \<Rightarrow> id \<Rightarrow> bool" where
  "stale_message unread I k =
     (case message_of I k of None \<Rightarrow> False | Some mid \<Rightarrow> mid \<notin> set unread)"

lemma stale_message_restate [simp]:
  "stale_message unread (map_of (AList.map_entry c (restate g) m)) = stale_message unread (map_of m)"
  by (simp add: stale_message_def fun_eq_iff)

lemma reconcile_queued_eq:
  "set cs \<subseteq> dom (map_of m) \<Longrightarrow>
     reconcile_queued unread cs m =
       (filter (\<lambda>k. \<not> stale_message unread (map_of m) k) cs,
        filter (stale_message unread (map_of m)) cs,
        modify_all (restate (\<lambda>_. Completed)) (filter (stale_message unread (map_of m)) cs) m)"
proof (induction cs arbitrary: m)
  case (Cons c cs)
  then obtain i where i: "map_of m c = Some i" by auto
  let ?m = "AList.map_entry c (restate (\<lambda>_. Completed)) m"
  have *: "AList.map_entry c (\<lambda>i. i\<lparr>wi_state := Completed\<rparr>) m = ?m"
    using i by (rule map_entry_restate) simp
  have "set cs \<subseteq> dom (map_of ?m)" using Cons.prems by simp
  from Cons.IH [OF this] Cons.IH [of m] Cons.prems i show ?case
    by (auto simp: * modify_all_Cons stale_message_def [of unread "map_of m" c] split: option.splits)
qed simp

section \<open>Keeping the invariant: changes local to one slot\<close>

lemma work_invD:
  assumes "work_inv I S"
  shows "I k = Some i \<Longrightarrow> wi_intent_id i = k"
    and "S sid = Some slot \<Longrightarrow> slot_ok I sid slot"
    and "I k = Some i \<Longrightarrow> \<not> is_terminal (wi_state i) \<Longrightarrow>
           \<exists>slot. S (wi_slot_id i) = Some slot \<and> holds slot k"
  using assms by (auto simp: work_inv_def)

lemma slot_ok_frame:
  assumes "slot_ok I sid slot"
    and "\<And>k i. I k = Some i \<Longrightarrow> wi_slot_id i = sid \<Longrightarrow> I' k = Some i"
  shows "slot_ok I' sid slot"
proof -
  have at: "intent_at I' sid p ws k" if "intent_at I sid p ws k" for p ws k
    using that assms(2) by (auto simp: intent_at_def)
  have "batch_ok I' sid a" if "ss_active slot = Some a" for a
  proof -
    have a: "batch_ok I sid a" using assms(1) that by (simp add: slot_ok_def)
    have "run_of I' k = run_of I k" if "k \<in> set (wb_intent_ids (ab_batch a))" for k
      using a that assms(2) by (fastforce simp: batch_ok_def intent_at_def)
    then have "run_ids_of I' (set (wb_intent_ids (ab_batch a))) =
        run_ids_of I (set (wb_intent_ids (ab_batch a)))"
      by (auto simp: run_ids_of_def)
    with a at show ?thesis by (auto simp: batch_ok_def)
  qed
  with assms(1) at show ?thesis by (auto simp: slot_ok_def)
qed

lemma work_inv_slot:
  assumes inv: "work_inv I S"
    and frame: "\<And>k i. I k = Some i \<Longrightarrow> wi_slot_id i \<noteq> sid \<Longrightarrow> I' k = Some i"
    and orig: "\<And>k i. I' k = Some i \<Longrightarrow> wi_intent_id i = k \<and> (wi_slot_id i = sid \<or> I k = Some i)"
    and slot: "slot_ok I' sid slot'"
    and own: "\<And>k i. I' k = Some i \<Longrightarrow> wi_slot_id i = sid \<Longrightarrow> \<not> is_terminal (wi_state i) \<Longrightarrow>
                holds slot' k"
  shows "work_inv I' (S(sid \<mapsto> slot'))"
  unfolding work_inv_def
proof (intro conjI allI impI)
  fix k i assume "I' k = Some i"
  then show "wi_intent_id i = k" using orig by blast
next
  fix sid1 slot1 assume S: "(S(sid \<mapsto> slot')) sid1 = Some slot1"
  show "slot_ok I' sid1 slot1"
  proof (cases "sid1 = sid")
    case True
    with S slot show ?thesis by simp
  next
    case False
    with S have "slot_ok I sid1 slot1" using work_invD(2) [OF inv] by simp
    then show ?thesis by (rule slot_ok_frame) (use frame False in auto)
  qed
next
  fix k i assume k: "I' k = Some i" and open_state: "\<not> is_terminal (wi_state i)"
  show "\<exists>slot. (S(sid \<mapsto> slot')) (wi_slot_id i) = Some slot \<and> holds slot k"
  proof (cases "wi_slot_id i = sid")
    case True
    with own [OF k _ open_state] show ?thesis by simp
  next
    case False
    with orig [OF k] have "I k = Some i" by simp
    with work_invD(3) [OF inv] open_state False show ?thesis by auto
  qed
qed

text \<open>The usual case: the intents of a list \<open>ks\<close>, all of slot \<open>sid\<close>, get a new state.\<close>

definition restate_on ::
  "(id option \<Rightarrow> work_intent_state) \<Rightarrow> id set \<Rightarrow> (id \<rightharpoonup> work_intent) \<Rightarrow> (id \<rightharpoonup> work_intent)" where
  "restate_on g K I = (\<lambda>k. if k \<in> K then map_option (restate g) (I k) else I k)"

lemma map_of_modify_restate [loop_simps]:
  "map_of (modify_all (restate g) ks m) = restate_on g (set ks) (map_of m)"
  by (simp add: restate_on_def loop_simps fun_eq_iff)

lemma restate_on_empty [simp]: "restate_on g {} I = I"
  by (simp add: restate_on_def)

lemma run_of_restate_on [simp]: "run_of (restate_on g K I) = run_of I"
  by (auto simp: run_of_def restate_on_def fun_eq_iff split: option.splits bind_split)

lemma run_ids_of_restate_on [simp]: "run_ids_of (restate_on g K I) = run_ids_of I"
  by (simp add: run_ids_of_def fun_eq_iff)

lemma intent_at_restate_on:
  "intent_at (restate_on g K I) sid p ws k \<longleftrightarrow>
     (\<exists>i. I k = Some i \<and> wi_slot_id i = sid \<and> wi_priority i = p \<and>
        ws = (if k \<in> K then g (wi_team_run_id i) else wi_state i))"
  by (auto simp: intent_at_def restate_on_def)

lemma work_inv_restate:
  assumes inv: "work_inv I S"
    and K: "\<And>k i. k \<in> K \<Longrightarrow> I k = Some i \<Longrightarrow> wi_slot_id i = sid"
    and slot: "slot_ok (restate_on g K I) sid slot'"
    and own: "\<And>k i. I k = Some i \<Longrightarrow> wi_slot_id i = sid \<Longrightarrow>
       \<not> is_terminal (if k \<in> K then g (wi_team_run_id i) else wi_state i) \<Longrightarrow> holds slot' k"
  shows "work_inv (restate_on g K I) (S(sid \<mapsto> slot'))"
  using inv
proof (rule work_inv_slot)
  show "restate_on g K I k = Some i" if "I k = Some i" "wi_slot_id i \<noteq> sid" for k i
    using that K by (auto simp: restate_on_def)
  show "wi_intent_id i = k \<and> (wi_slot_id i = sid \<or> I k = Some i)"
    if "restate_on g K I k = Some i" for k i
    using that K work_invD(1) [OF inv] by (auto simp: restate_on_def split: if_splits)
  show "slot_ok (restate_on g K I) sid slot'" by (rule slot)
  show "holds slot' k"
    if "restate_on g K I k = Some i" "wi_slot_id i = sid" "\<not> is_terminal (wi_state i)" for k i
    using that own by (auto simp: restate_on_def split: if_splits)
qed

end
