(* ===== verification/WorkSteps.thy ===== *)
theory WorkSteps
  imports WorkInvariant
begin

text \<open>
  Every operation of the coordinator keeps the ownership invariant and, from a state that
  has it, does not panic. One lemma per operation, all instances of the slot-local
  preservation lemmas of \<open>WorkInvariant\<close>.
\<close>

section \<open>The invariant of a coordinator state\<close>

definition leases_ok :: "(id \<rightharpoonup> enqueue_lease_record) \<Rightarrow> (id \<rightharpoonup> slot_state) \<Rightarrow> bool" where
  "leases_ok L S \<longleftrightarrow>
     (\<forall>k r. L k = Some r \<longrightarrow> el_lease_id (lr_lease r) = k \<and> S (el_slot_id (lr_lease r)) \<noteq> None)"

definition state_inv :: "coordinator_state \<Rightarrow> bool" where
  "state_inv st \<longleftrightarrow>
     keys_distinct (cs_slots st) \<and> keys_distinct (cs_intents st) \<and>
     keys_distinct (cs_enqueue_leases st) \<and>
     leases_ok (map_of (cs_enqueue_leases st)) (map_of (cs_slots st)) \<and>
     work_inv (map_of (cs_intents st)) (map_of (cs_slots st))"

lemma state_invD:
  assumes "state_inv st"
  shows "keys_distinct (cs_slots st)" "keys_distinct (cs_intents st)"
    "keys_distinct (cs_enqueue_leases st)"
    "leases_ok (map_of (cs_enqueue_leases st)) (map_of (cs_slots st))"
    "work_inv (map_of (cs_intents st)) (map_of (cs_slots st))"
  using assms by (simp_all add: state_inv_def)

lemma state_inv_initial: "state_inv initial_state"
  by (simp add: state_inv_def initial_state_def leases_ok_def work_inv_def)

lemma sc_state_publish [simp]: "sc_state (publish_run_summaries now sums s) = sc_state s"
  by (simp add: publish_run_summaries_def)

lemma sc_frame_publish [simp]:
  "sc_session_generation (publish_run_summaries now sums s) = sc_session_generation s"
  "sc_run_causality (publish_run_summaries now sums s) = sc_run_causality s"
  by (simp_all add: publish_run_summaries_def)

lemma leases_ok_mono:
  "leases_ok L S \<Longrightarrow> (\<And>k r. L' k = Some r \<Longrightarrow> L k = Some r) \<Longrightarrow> dom S \<subseteq> dom S' \<Longrightarrow> leases_ok L' S'"
  unfolding leases_ok_def by (metis domIff subsetD)

section \<open>Slots seen through their queues and active batch\<close>

lemma slot_ok_cong:
  "(\<And>p. queue slot' p = queue slot p) \<Longrightarrow> ss_active slot' = ss_active slot \<Longrightarrow>
     slot_ok I sid slot' = slot_ok I sid slot"
  by (simp add: slot_ok_def)

lemma holds_cong:
  "(\<And>p. queue slot' p = queue slot p) \<Longrightarrow> ss_active slot' = ss_active slot \<Longrightarrow>
     holds slot' k = holds slot k"
  by (simp add: holds_iff active_ids_def)

lemma holds_mono:
  "holds slot k \<Longrightarrow> (\<And>p. set (queue slot p) \<subseteq> set (queue slot' p)) \<Longrightarrow>
     ss_active slot' = ss_active slot \<Longrightarrow> holds slot' k"
  by (auto simp: holds_iff active_ids_def)

lemma slot_ok_new [simp]: "slot_ok I sid (new_slot r)"
  by (simp add: slot_ok_def)

lemma entry_ok:
  assumes "work_inv I (map_of slots)"
  shows "slot_ok I sid (entry_or sid (new_slot r) slots)"
    and "I k = Some i \<Longrightarrow> wi_slot_id i = sid \<Longrightarrow> \<not> is_terminal (wi_state i) \<Longrightarrow>
           holds (entry_or sid (new_slot r) slots) k"
proof -
  show "slot_ok I sid (entry_or sid (new_slot r) slots)"
    using work_invD(2) [OF assms] by (auto simp: entry_or_def split: option.splits)
  show "holds (entry_or sid (new_slot r) slots) k"
    if "I k = Some i" "wi_slot_id i = sid" "\<not> is_terminal (wi_state i)"
    using work_invD(3) [OF assms that(1,3)] that(2) by (auto simp: entry_or_def)
qed

lemma work_inv_same_work:
  assumes "work_inv I (map_of slots)"
    and "\<And>p. queue slot' p = queue (entry_or sid (new_slot r) slots) p"
    and "ss_active slot' = ss_active (entry_or sid (new_slot r) slots)"
  shows "work_inv I ((map_of slots)(sid \<mapsto> slot'))"
  using assms(1)
proof (rule work_inv_slot)
  show "slot_ok I sid slot'"
    using slot_ok_cong [OF assms(2,3)] entry_ok(1) [OF assms(1)] by simp
  show "holds slot' k" if "I k = Some i" "wi_slot_id i = sid" "\<not> is_terminal (wi_state i)" for k i
    using holds_cong [OF assms(2,3)] entry_ok(2) [OF assms(1) that] by simp
qed (use work_invD(1) [OF assms(1)] in auto)

lemma slot_ok_queueD:
  "slot_ok I sid slot \<Longrightarrow> k \<in> set (queue slot p) \<Longrightarrow> intent_at I sid p Queued k"
  by (auto simp: slot_ok_def)

lemma slot_ok_batchD: "slot_ok I sid slot \<Longrightarrow> ss_active slot = Some a \<Longrightarrow> batch_ok I sid a"
  by (auto simp: slot_ok_def)

lemma batch_state_open [simp]: "batch_state a \<noteq> Queued" "\<not> is_terminal (batch_state a)"
  by (auto simp: batch_state_def split: option.splits)

lemma slot_ok_disjoint:
  assumes "slot_ok I sid slot" "ss_active slot = Some a" "k \<in> set (queue slot p)"
  shows "k \<notin> set (wb_intent_ids (ab_batch a))"
proof
  assume "k \<in> set (wb_intent_ids (ab_batch a))"
  with slot_ok_batchD [OF assms(1,2)] have "intent_at I sid (wb_highest_priority (ab_batch a)) (batch_state a) k"
    by (simp add: batch_ok_def)
  moreover from assms(1,3) have "intent_at I sid p Queued k" by (rule slot_ok_queueD)
  ultimately have "batch_state a = Queued" by (auto simp: intent_at_def)
  then show False by simp
qed

lemma intent_at_keep:
  "intent_at I sid p ws k \<Longrightarrow> k \<notin> K \<Longrightarrow> intent_at (restate_on g K I) sid p ws k"
  by (auto simp: intent_at_restate_on) (auto simp: intent_at_def)

lemma slot_own:
  assumes "work_inv I S" "S sid = Some slot"
    and "I k = Some i" "wi_slot_id i = sid" "\<not> is_terminal (wi_state i)"
  shows "holds slot k"
  using work_invD(3) [OF assms(1,3,5)] assms(2,4) by simp

section \<open>Enqueueing\<close>

declare validate_enqueue_constraint.simps [simp del]
declare commit_disposition.simps [simp del]

definition acquired_slot :: "enqueue_request \<Rightarrow> coordinator_state \<Rightarrow> slot_state" where
  "acquired_slot req st =
     (entry_or (er_slot_id req) (new_slot (er_role req)) (cs_slots st))\<lparr>ss_role := er_role req\<rparr>"

lemma acquire_enqueue_frame [simp]:
  "cs_slots (sc_state (snd (acquire_enqueue lid rid req s))) =
     AList.update (er_slot_id req) (acquired_slot req (sc_state s)) (cs_slots (sc_state s))"
  "cs_intents (sc_state (snd (acquire_enqueue lid rid req s))) = cs_intents (sc_state s)"
  "cs_next_operation_id (sc_state (snd (acquire_enqueue lid rid req s))) =
     cs_next_operation_id (sc_state s)"
  "sc_session_generation (snd (acquire_enqueue lid rid req s)) = sc_session_generation s"
  "sc_run_causality (snd (acquire_enqueue lid rid req s)) = sc_run_causality s"
  by (auto simp: acquire_enqueue_def acquired_slot_def Let_def split: sum.splits prod.splits)

lemma acquire_enqueue_Inl:
  "fst (acquire_enqueue lid rid req s) = Inl e \<longleftrightarrow>
     validate_enqueue_constraint (er_slot_id req) (acquired_slot req (sc_state s)) = Inl e"
  "fst (acquire_enqueue lid rid req s) = Inl e \<Longrightarrow>
     cs_enqueue_leases (sc_state (snd (acquire_enqueue lid rid req s))) =
       cs_enqueue_leases (sc_state s) \<and>
     sc_run_state (snd (acquire_enqueue lid rid req s)) = sc_run_state s"
  by (auto simp: acquire_enqueue_def acquired_slot_def Let_def split: sum.splits prod.splits)

lemma acquire_enqueue_Inr:
  assumes "fst (acquire_enqueue lid rid req s) = Inr l"
  shows "\<exists>b. cs_enqueue_leases (sc_state (snd (acquire_enqueue lid rid req s))) =
        AList.update lid \<lparr>lr_lease = l, lr_binding = b\<rparr> (cs_enqueue_leases (sc_state s))
      \<and> el_team_run_id l = rb_team_run_id b"
    and "el_lease_id l = lid" "el_slot_id l = er_slot_id req" "el_source l = er_source req"
      "el_role l = er_role req" "el_session_generation l = sc_session_generation s"
      "validate_enqueue_constraint (er_slot_id req) (acquired_slot req (sc_state s)) = Inr ()"
  using assms by (auto simp: acquire_enqueue_def acquired_slot_def Let_def
      split: sum.splits prod.splits)

lemma acquired_slot_work [simp]:
  "queue (acquired_slot req st) p =
     queue (entry_or (er_slot_id req) (new_slot (er_role req)) (cs_slots st)) p"
  "ss_active (acquired_slot req st) =
     ss_active (entry_or (er_slot_id req) (new_slot (er_role req)) (cs_slots st))"
  by (simp_all add: acquired_slot_def)

lemma leases_ok_insert:
  "leases_ok L S \<Longrightarrow> el_lease_id (lr_lease r) = k \<Longrightarrow> S (el_slot_id (lr_lease r)) \<noteq> None \<Longrightarrow>
     leases_ok (L(k \<mapsto> r)) S"
  by (auto simp: leases_ok_def)

lemma acquire_enqueue_inv:
  assumes "state_inv (sc_state s)"
  shows "state_inv (sc_state (snd (acquire_enqueue lid rid req s)))"
proof -
  note inv = state_invD [OF assms]
  let ?s = "snd (acquire_enqueue lid rid req s)"
  let ?S = "(map_of (cs_slots (sc_state s)))(er_slot_id req \<mapsto> acquired_slot req (sc_state s))"
  have "leases_ok (map_of (cs_enqueue_leases (sc_state s))) ?S"
    using inv(4) by (rule leases_ok_mono) auto
  then have "leases_ok (map_of (cs_enqueue_leases (sc_state ?s))) ?S
      \<and> keys_distinct (cs_enqueue_leases (sc_state ?s))"
  proof (cases "fst (acquire_enqueue lid rid req s)")
    case (Inl e)
    with acquire_enqueue_Inl(2) [OF this] inv(3) \<open>leases_ok _ ?S\<close> show ?thesis by simp
  next
    case (Inr l)
    with acquire_enqueue_Inr [OF this] inv(3) \<open>leases_ok _ ?S\<close> show ?thesis
      by (auto simp: table_simps intro!: leases_ok_insert)
  qed
  moreover have "work_inv (map_of (cs_intents (sc_state s))) ?S"
    using inv(5) by (rule work_inv_same_work) simp_all
  ultimately show ?thesis
    using inv(1-3) by (auto simp: state_inv_def table_simps)
qed

lemma slot_snapshot_Some: "slot_snapshot_locked st sid = None \<longleftrightarrow> map_of (cs_slots st) sid = None"
  by (simp add: slot_snapshot_locked_def Let_def split: option.splits)

lemma commit_disposition_valid:
  "validate_enqueue_constraint sid slot = Inr () \<Longrightarrow> commit_disposition slot \<noteq> None"
  by (auto simp: validate_enqueue_constraint.simps commit_disposition.simps
      split: if_splits runtime_constraint.splits)

definition committed_intent ::
  "timestamp_ms \<Rightarrow> id \<Rightarrow> id \<Rightarrow> enqueue_lease \<Rightarrow> id option \<Rightarrow> work_intent" where
  "committed_intent now intent_id generation lease msg =
     \<lparr>wi_intent_id = intent_id, wi_session_generation = generation, wi_slot_id = el_slot_id lease,
      wi_role = el_role lease, wi_source = el_source lease, wi_priority = priority (el_source lease),
      wi_mailbox_message_id = msg, wi_team_run_id = el_team_run_id lease, wi_created_at_ms = now,
      wi_state = Queued\<rparr>"

definition committed_slot :: "id \<Rightarrow> enqueue_lease \<Rightarrow> id option \<Rightarrow> slot_state \<Rightarrow> slot_state" where
  "committed_slot intent_id lease msg slot =
     (let slot1 = (if resumes_paused_slot (el_source lease) then slot\<lparr>ss_paused := False\<rparr> else slot)
      in queue_mut (priority (el_source lease)) (\<lambda>q. q @ [intent_id])
           (slot1\<lparr>ss_known_unread_message_ids := ss_known_unread_message_ids slot1 \<union> set_option msg\<rparr>))"

lemma commit_enqueue_cases [consumes 1]:
  assumes "commit_enqueue now iid lease msg s = out"
  obtains (err) e where "out = Some (Inl e, s)"
  | (ok) rcd slot c st1 where
    "map_of (cs_enqueue_leases (sc_state s)) (el_lease_id lease) = Some rcd"
    "lr_lease rcd = lease" "el_session_generation lease = sc_session_generation s"
    "requires_mailbox_message (el_source lease) \<Longrightarrow> msg \<noteq> None"
    "map_of (cs_slots (sc_state s)) (el_slot_id lease) = Some slot"
    "validate_enqueue_constraint (el_slot_id lease) slot = Inr ()"
    "st1 = (sc_state s)\<lparr>
       cs_enqueue_leases := AList.delete (el_lease_id lease) (cs_enqueue_leases (sc_state s)),
       cs_intents := AList.update iid
         (committed_intent now iid (sc_session_generation s) lease msg) (cs_intents (sc_state s)),
       cs_slots := AList.update (el_slot_id lease) (committed_slot iid lease msg slot)
         (cs_slots (sc_state s))\<rparr>"
    "out = Some (Inr c, publish_run_summaries now
       (run_summaries_locked st1 (option_list (el_team_run_id lease))) (s\<lparr>sc_state := st1\<rparr>))"
    "ec_intent_id c = iid" "ec_team_run_id c = el_team_run_id lease"
    "commit_disposition slot = Some (ec_disposition c)"
    "slot_snapshot_locked st1 (el_slot_id lease) = Some (ec_slot c)"
proof (cases "map_of (cs_enqueue_leases (sc_state s)) (el_lease_id lease)")
  case None
  with assms show thesis by (intro err) (auto simp: commit_enqueue_def)
next
  case rec: (Some rcd)
  show thesis
  proof (cases "lr_lease rcd = lease \<and> el_session_generation lease = sc_session_generation s
      \<and> (requires_mailbox_message (el_source lease) \<longrightarrow> msg \<noteq> None)")
    case False
    then obtain e where "out = Some (Inl e, s)"
      using assms rec by (auto simp: commit_enqueue_def Let_def split: if_splits)
    then show thesis by (rule err)
  next
    case guards: True
    show thesis
    proof (cases "map_of (cs_slots (sc_state s)) (el_slot_id lease)")
      case None
      with assms rec guards show thesis by (intro err) (auto simp: commit_enqueue_def Let_def)
    next
      case slot: (Some slot)
      show thesis
      proof (cases "validate_enqueue_constraint (el_slot_id lease) slot")
        case (Inl e)
        with assms rec guards slot show thesis
          by (intro err) (auto simp: commit_enqueue_def Let_def)
      next
        case (Inr u)
        then have valid: "validate_enqueue_constraint (el_slot_id lease) slot = Inr ()" by simp
        from commit_disposition_valid [OF valid] obtain d where d: "commit_disposition slot = Some d"
          by auto
        define st1 where "st1 = (sc_state s)\<lparr>
          cs_enqueue_leases := AList.delete (el_lease_id lease) (cs_enqueue_leases (sc_state s)),
          cs_intents := AList.update iid
            (committed_intent now iid (sc_session_generation s) lease msg) (cs_intents (sc_state s)),
          cs_slots := AList.update (el_slot_id lease) (committed_slot iid lease msg slot)
            (cs_slots (sc_state s))\<rparr>"
        have "slot_snapshot_locked st1 (el_slot_id lease) \<noteq> None"
          by (simp add: slot_snapshot_Some st1_def table_simps)
        then obtain snap where snap: "slot_snapshot_locked st1 (el_slot_id lease) = Some snap"
          by auto
        have "out = Some (Inr \<lparr>ec_intent_id = iid, ec_team_run_id = el_team_run_id lease,
            ec_disposition = d, ec_slot = snap\<rparr>,
          publish_run_summaries now (run_summaries_locked st1 (option_list (el_team_run_id lease)))
            (s\<lparr>sc_state := st1\<rparr>))"
          using assms rec guards slot valid d snap unfolding st1_def
          by (cases msg) (auto simp: commit_enqueue_def Let_def committed_intent_def committed_slot_def)
        with rec guards slot valid d snap show thesis
          by (intro ok [of rcd slot st1 "\<lparr>ec_intent_id = iid,
                ec_team_run_id = el_team_run_id lease, ec_disposition = d, ec_slot = snap\<rparr>"])
            (auto simp: st1_def)
      qed
    qed
  qed
qed

lemma committed_slot_work [simp]:
  "queue (committed_slot iid lease msg slot) p =
     (if p = priority (el_source lease) then queue slot p @ [iid] else queue slot p)"
  "ss_active (committed_slot iid lease msg slot) = ss_active slot"
  by (simp_all add: committed_slot_def Let_def)

lemma commit_work_inv:
  assumes inv: "work_inv I S" and fresh: "I iid = None" and slot: "S (el_slot_id lease) = Some slot"
  shows "work_inv (I(iid \<mapsto> committed_intent now iid g lease msg))
    (S(el_slot_id lease \<mapsto> committed_slot iid lease msg slot))"
  using inv
proof (rule work_inv_slot)
  let ?I = "I(iid \<mapsto> committed_intent now iid g lease msg)"
  have ok: "slot_ok ?I (el_slot_id lease) slot"
    using work_invD(2) [OF inv slot] by (rule slot_ok_frame) (use fresh in auto)
  have new: "iid \<notin> set (queue slot p)" for p
    using slot_ok_queueD [OF work_invD(2) [OF inv slot]] fresh by (fastforce simp: intent_at_def)
  show "slot_ok ?I (el_slot_id lease) (committed_slot iid lease msg slot)"
    using ok new by (auto simp: slot_ok_def intent_at_def committed_intent_def)
  show "holds (committed_slot iid lease msg slot) k"
    if "?I k = Some i" "wi_slot_id i = el_slot_id lease" "\<not> is_terminal (wi_state i)" for k i
  proof (cases "k = iid")
    case True
    then show ?thesis by (auto simp: holds_iff)
  next
    case False
    with that have "holds slot k" using slot_own [OF inv slot] by simp
    then show ?thesis by (rule holds_mono) auto
  qed
qed (use fresh work_invD(1) [OF inv] in \<open>auto simp: committed_intent_def split: if_splits\<close>)

lemma commit_enqueue_inv:
  assumes inv: "state_inv (sc_state s)" and fresh: "map_of (cs_intents (sc_state s)) iid = None"
  shows "\<exists>res s'. commit_enqueue now iid lease msg s = Some (res, s') \<and> state_inv (sc_state s')"
  using refl [of "commit_enqueue now iid lease msg s"]
proof (cases rule: commit_enqueue_cases)
  case (err e)
  with inv show ?thesis by simp
next
  case (ok rcd slot c st1)
  note i = state_invD [OF inv]
  have "leases_ok (map_of (cs_enqueue_leases st1)) (map_of (cs_slots st1))"
    using i(4) unfolding ok(7) by (rule leases_ok_mono) (auto simp: table_simps split: if_splits)
  moreover have "work_inv (map_of (cs_intents st1)) (map_of (cs_slots st1))"
    using commit_work_inv [OF i(5) fresh ok(5)] by (simp add: ok(7) table_simps)
  ultimately have "state_inv st1" using i(1-3) by (simp add: state_inv_def ok(7))
  with ok(8) show ?thesis by simp
qed

lemma abort_enqueue_frame [simp]:
  "cs_slots (sc_state (snd (abort_enqueue now lease s))) = cs_slots (sc_state s)"
  "cs_intents (sc_state (snd (abort_enqueue now lease s))) = cs_intents (sc_state s)"
  "sc_session_generation (snd (abort_enqueue now lease s)) = sc_session_generation s"
  "sc_run_causality (snd (abort_enqueue now lease s)) = sc_run_causality s"
  by (auto simp: abort_enqueue_def Let_def split: option.splits)

lemma abort_enqueue_leases:
  assumes "leases_ok (map_of (cs_enqueue_leases (sc_state s))) S"
  shows "map_of (cs_enqueue_leases (sc_state (snd (abort_enqueue now lease s)))) =
    (if fst (abort_enqueue now lease s) = Committed
     then (map_of (cs_enqueue_leases (sc_state s)))(el_lease_id lease := None)
     else map_of (cs_enqueue_leases (sc_state s)))"
  using assms
  by (auto simp: abort_enqueue_def Let_def table_simps leases_ok_def fun_eq_iff split: option.splits)

lemma abort_enqueue_inv:
  assumes "state_inv (sc_state s)"
  shows "state_inv (sc_state (snd (abort_enqueue now lease s)))"
proof -
  note inv = state_invD [OF assms]
  have "keys_distinct (cs_enqueue_leases (sc_state (snd (abort_enqueue now lease s))))"
    using inv(3) by (auto simp: abort_enqueue_def Let_def split: option.splits)
  moreover have "leases_ok (map_of (cs_enqueue_leases (sc_state (snd (abort_enqueue now lease s)))))
      (map_of (cs_slots (sc_state s)))"
    using inv(4) by (rule leases_ok_mono) (auto simp: abort_enqueue_leases [OF inv(4)] split: if_splits)
  ultimately show ?thesis using inv by (simp add: state_inv_def)
qed

section \<open>Mailbox reconciliation\<close>

definition recovery_intent ::
  "timestamp_ms \<Rightarrow> id \<Rightarrow> id \<Rightarrow> id \<Rightarrow> target_role \<Rightarrow> id \<Rightarrow> work_intent" where
  "recovery_intent now intent_id generation sid role mid =
     \<lparr>wi_intent_id = intent_id, wi_session_generation = generation, wi_slot_id = sid, wi_role = role,
      wi_source = RecoveryDrain, wi_priority = Background, wi_mailbox_message_id = Some mid,
      wi_team_run_id = None, wi_created_at_ms = now, wi_state = Queued\<rparr>"

lemma recover_work_inv:
  assumes inv: "work_inv I S" and fresh: "I iid = None" and slot: "S sid = Some slot"
  shows "work_inv (I(iid \<mapsto> recovery_intent now iid g sid role mid))
    (S(sid \<mapsto> slot\<lparr>ss_background := ss_background slot @ [iid]\<rparr>))"
  using inv
proof (rule work_inv_slot)
  let ?I = "I(iid \<mapsto> recovery_intent now iid g sid role mid)"
  let ?slot = "slot\<lparr>ss_background := ss_background slot @ [iid]\<rparr>"
  have queue': "queue ?slot p = (if p = Background then queue slot p @ [iid] else queue slot p)" for p
    by (cases p) auto
  have ok: "slot_ok ?I sid slot"
    using work_invD(2) [OF inv slot] by (rule slot_ok_frame) (use fresh in auto)
  have new: "iid \<notin> set (queue slot p)" for p
    using slot_ok_queueD [OF work_invD(2) [OF inv slot]] fresh by (fastforce simp: intent_at_def)
  show "slot_ok ?I sid ?slot"
    using ok new unfolding slot_ok_def queue'
    by (auto simp: intent_at_def recovery_intent_def simp del: queue.simps)
  show "holds ?slot k"
    if "?I k = Some i" "wi_slot_id i = sid" "\<not> is_terminal (wi_state i)" for k i
  proof (cases "k = iid")
    case True
    then show ?thesis by (auto simp: holds_iff queue')
  next
    case False
    with that have "holds slot k" using slot_own [OF inv slot] by simp
    then show ?thesis by (rule holds_mono) (auto simp: queue')
  qed
qed (use fresh work_invD(1) [OF inv] in \<open>auto simp: recovery_intent_def split: if_splits\<close>)

definition fresh_supply :: "(nat \<Rightarrow> id) \<Rightarrow> nat \<Rightarrow> coordinator_state \<Rightarrow> bool" where
  "fresh_supply gen n st \<longleftrightarrow> inj gen \<and> (\<forall>k \<ge> n. map_of (cs_intents st) (gen k) = None)"

lemma recover_step_inv:
  assumes inv: "state_inv st" and new_ids: "fresh_supply gen n st" and slot: "map_of (cs_slots st) sid = Some slot"
    and st1_def: "st1 = st\<lparr>
      cs_intents := AList.update (gen n) (recovery_intent now (gen n) g sid role mid) (cs_intents st),
      cs_slots := AList.update sid (slot\<lparr>ss_background := ss_background slot @ [gen n]\<rparr>) (cs_slots st)\<rparr>"
  shows "state_inv st1" "fresh_supply gen (Suc n) st1" "map_of (cs_slots st1) sid \<noteq> None"
proof -
  note inv = state_invD [OF inv]
  have fresh: "map_of (cs_intents st) (gen n) = None" using new_ids by (simp add: fresh_supply_def)
  have "leases_ok (map_of (cs_enqueue_leases st1)) (map_of (cs_slots st1))"
    using inv(4) by (rule leases_ok_mono) (auto simp: st1_def table_simps)
  then show "state_inv st1"
    using inv recover_work_inv [OF inv(5) fresh slot] by (simp add: state_inv_def st1_def table_simps)
  show "fresh_supply gen (Suc n) st1"
    using new_ids by (auto simp: fresh_supply_def st1_def table_simps inj_eq)
  show "map_of (cs_slots st1) sid \<noteq> None" by (simp add: st1_def table_simps)
qed

lemma recover_unread_inv:
  assumes "state_inv st" "fresh_supply gen n st" "map_of (cs_slots st) sid \<noteq> None"
  shows "\<exists>created st'. recover_unread now gen g sid role n mids st = Some (created, st')
    \<and> state_inv st' \<and> cs_enqueue_leases st' = cs_enqueue_leases st
    \<and> (\<forall>k i. map_of (cs_intents st) k = Some i \<longrightarrow> map_of (cs_intents st') k = Some i)
    \<and> (\<forall>k i. map_of (cs_intents st') k = Some i \<longrightarrow>
         map_of (cs_intents st) k = Some i \<or>
         k \<in> set created \<and> map_of (cs_intents st) k = None \<and> wi_slot_id i = sid \<and> wi_state i = Queued
           \<and> wi_team_run_id i = None \<and> (\<exists>m \<in> set mids. wi_mailbox_message_id i = Some m))
    \<and> (\<forall>t. t \<noteq> sid \<longrightarrow> map_of (cs_slots st') t = map_of (cs_slots st) t)
    \<and> (\<forall>slot. map_of (cs_slots st) sid = Some slot \<longrightarrow>
         (\<exists>slot'. map_of (cs_slots st') sid = Some slot' \<and> ss_active slot' = ss_active slot))"
  using assms
proof (induction mids arbitrary: n st)
  case Nil
  then show ?case by auto
next
  case (Cons mid mids)
  show ?case
  proof (cases "already_owned sid mid (cs_intents st)")
    case True
    with Cons.IH [OF Cons.prems] show ?thesis by fastforce
  next
    case False
    from Cons.prems(3) obtain slot where slot: "map_of (cs_slots st) sid = Some slot" by auto
    define i0 where "i0 = recovery_intent now (gen n) g sid role mid"
    define st1 where "st1 = st\<lparr>cs_intents := AList.update (gen n) i0 (cs_intents st),
      cs_slots := AList.update sid (slot\<lparr>ss_background := ss_background slot @ [gen n]\<rparr>) (cs_slots st)\<rparr>"
    have fresh: "map_of (cs_intents st) (gen n) = None"
      using Cons.prems(2) by (simp add: fresh_supply_def)
    from Cons.IH [OF recover_step_inv [OF Cons.prems(1,2) slot st1_def [unfolded i0_def]]] obtain created st' where IH:
      "recover_unread now gen g sid role (Suc n) mids st1 = Some (created, st')" "state_inv st'"
      "cs_enqueue_leases st' = cs_enqueue_leases st1"
      "\<forall>k i. map_of (cs_intents st1) k = Some i \<longrightarrow> map_of (cs_intents st') k = Some i"
      "\<forall>k i. map_of (cs_intents st') k = Some i \<longrightarrow>
         map_of (cs_intents st1) k = Some i \<or>
         k \<in> set created \<and> map_of (cs_intents st1) k = None \<and> wi_slot_id i = sid \<and> wi_state i = Queued
           \<and> wi_team_run_id i = None \<and> (\<exists>m \<in> set mids. wi_mailbox_message_id i = Some m)"
      "\<forall>t. t \<noteq> sid \<longrightarrow> map_of (cs_slots st') t = map_of (cs_slots st1) t"
      "\<forall>slot. map_of (cs_slots st1) sid = Some slot \<longrightarrow>
         (\<exists>slot'. map_of (cs_slots st') sid = Some slot' \<and> ss_active slot' = ss_active slot)"
      by auto
    have "recover_unread now gen g sid role n (mid # mids) st = Some (gen n # created, st')"
      using False slot IH(1) by (simp add: Let_def st1_def i0_def recovery_intent_def)
    moreover have "map_of (cs_intents st') k = Some i" if "map_of (cs_intents st) k = Some i" for k i
      using IH(4) [rule_format, of k i] that fresh
      by (cases "k = gen n") (auto simp: st1_def table_simps)
    moreover have "map_of (cs_intents st) k = Some i \<or>
         k \<in> set (gen n # created) \<and> map_of (cs_intents st) k = None \<and> wi_slot_id i = sid
           \<and> wi_state i = Queued \<and> wi_team_run_id i = None
           \<and> (\<exists>m \<in> set (mid # mids). wi_mailbox_message_id i = Some m)"
      if "map_of (cs_intents st') k = Some i" for k i
      using IH(5) [rule_format, OF that] fresh
      by (cases "k = gen n") (auto simp: st1_def i0_def recovery_intent_def table_simps)
    moreover have "map_of (cs_slots st') t = map_of (cs_slots st) t" if "t \<noteq> sid" for t
      using IH(6) that by (simp add: st1_def table_simps)
    moreover have "\<exists>slot'. map_of (cs_slots st') sid = Some slot' \<and> ss_active slot' = ss_active slot0"
      if "map_of (cs_slots st) sid = Some slot0" for slot0
      using IH(7) that slot by (simp add: st1_def table_simps)
    ultimately show ?thesis using IH(2,3) by (intro exI [of _ "gen n # created"] exI [of _ st'])
        (auto simp: st1_def)
  qed
qed

lemma already_owned_iff:
  "keys_distinct m \<Longrightarrow> already_owned sid mid m \<longleftrightarrow>
     (\<exists>k i. map_of m k = Some i \<and> wi_slot_id i = sid \<and> wi_mailbox_message_id i = Some mid
        \<and> \<not> is_terminal (wi_state i))"
  by (force simp: already_owned_def list_ex_iff in_table_iff [symmetric])

text \<open>After the loop every unread message of the mailbox is carried by an open intent of the slot.\<close>

lemma recover_unread_owned:
  assumes "state_inv st" "fresh_supply gen n st" "map_of (cs_slots st) sid \<noteq> None"
    and "recover_unread now gen g sid role n mids st = Some (created, st')" and "mid \<in> set mids"
  shows "already_owned sid mid (cs_intents st')"
  using assms
proof (induction mids arbitrary: n st created)
  case (Cons m mids)
  show ?case
  proof (cases "already_owned sid m (cs_intents st)")
    case True
    have rec: "recover_unread now gen g sid role n mids st = Some (created, st')"
      using Cons.prems(4) True by simp
    show ?thesis
    proof (cases "mid = m")
      case True
      obtain st2 where "recover_unread now gen g sid role n mids st = Some (created, st2)" "state_inv st2"
        "\<forall>k i. map_of (cs_intents st) k = Some i \<longrightarrow> map_of (cs_intents st2) k = Some i"
        using recover_unread_inv [OF Cons.prems(1-3), of now g role mids] rec by auto
      with rec have "state_inv st'"
        "\<forall>k i. map_of (cs_intents st) k = Some i \<longrightarrow> map_of (cs_intents st') k = Some i" by auto
      with \<open>already_owned sid m _\<close> True show ?thesis
        using state_invD(2) [OF Cons.prems(1)] state_invD(2) by (simp add: already_owned_iff) blast
    next
      case False
      with Cons.prems(5) Cons.IH [OF Cons.prems(1-3) rec] show ?thesis by simp
    qed
  next
    case False
    from Cons.prems(3) obtain slot where slot: "map_of (cs_slots st) sid = Some slot" by auto
    define st1 where "st1 = st\<lparr>
      cs_intents := AList.update (gen n) (recovery_intent now (gen n) g sid role m) (cs_intents st),
      cs_slots := AList.update sid (slot\<lparr>ss_background := ss_background slot @ [gen n]\<rparr>) (cs_slots st)\<rparr>"
    from False slot Cons.prems(4) obtain created1 where
      rec: "recover_unread now gen g sid role (Suc n) mids st1 = Some (created1, st')"
      by (auto simp: st1_def recovery_intent_def Let_def split: option.splits)
    note pre = recover_step_inv [OF Cons.prems(1,2) slot st1_def]
    show ?thesis
    proof (cases "mid = m")
      case True
      have "state_inv st'" "\<forall>k i. map_of (cs_intents st1) k = Some i \<longrightarrow> map_of (cs_intents st') k = Some i"
        using recover_unread_inv [OF pre, of now g role mids] rec by auto
      moreover have "map_of (cs_intents st1) (gen n) = Some (recovery_intent now (gen n) g sid role m)"
        by (simp add: st1_def table_simps)
      ultimately have "map_of (cs_intents st') (gen n) = Some (recovery_intent now (gen n) g sid role m)"
        by blast
      with True \<open>state_inv st'\<close> show ?thesis
        unfolding already_owned_iff [OF state_invD(2) [OF \<open>state_inv st'\<close>]]
        by (intro exI [of _ "gen n"] exI [of _ "recovery_intent now (gen n) g sid role m"])
          (simp add: recovery_intent_def)
    next
      case False
      with Cons.prems(5) Cons.IH [OF pre rec] show ?thesis by simp
    qed
  qed
qed simp

end
