(* ===== verification/WorkBatches.thy ===== *)
theory WorkBatches
  imports WorkSteps
begin

text \<open>
  Preservation of the ownership invariant by the operations on one slot: reconciling the
  mailbox, claiming a batch, starting, retrying and ending it, settling signals and
  pausing. Each is a change of the states of some intents of the slot together with a new
  slot record (\<open>state_inv_restate\<close>).
\<close>

section \<open>Restating the intents of one slot\<close>

lemma state_inv_restate:
  assumes inv: "state_inv st"
    and st': "cs_intents st' = modify_all (restate g) ks (cs_intents st)"
      "cs_slots st' = AList.update sid slot' (cs_slots st)"
      "cs_enqueue_leases st' = cs_enqueue_leases st"
    and K: "\<And>k i. k \<in> set ks \<Longrightarrow> map_of (cs_intents st) k = Some i \<Longrightarrow> wi_slot_id i = sid"
    and slot: "slot_ok (restate_on g (set ks) (map_of (cs_intents st))) sid slot'"
    and own: "\<And>k i. map_of (cs_intents st) k = Some i \<Longrightarrow> wi_slot_id i = sid \<Longrightarrow>
       \<not> is_terminal (if k \<in> set ks then g (wi_team_run_id i) else wi_state i) \<Longrightarrow> holds slot' k"
  shows "state_inv st'"
proof -
  note i = state_invD [OF inv]
  have "leases_ok (map_of (cs_enqueue_leases st')) (map_of (cs_slots st'))"
    using i(4) unfolding st' by (rule leases_ok_mono) (auto simp: table_simps)
  moreover have "work_inv (restate_on g (set ks) (map_of (cs_intents st)))
      ((map_of (cs_slots st))(sid \<mapsto> slot'))"
    using i(5) K slot own by (rule work_inv_restate)
  ultimately show ?thesis
    using i(1-3) by (simp add: state_inv_def st' loop_simps table_simps)
qed

lemma slot_ok_restateI:
  assumes "\<And>p. distinct (queue slot' p)"
    and "\<And>p k. k \<in> set (queue slot' p) \<Longrightarrow> \<exists>i. I k = Some i \<and> wi_slot_id i = sid
           \<and> wi_priority i = p \<and> (if k \<in> K then g (wi_team_run_id i) else wi_state i) = Queued"
    and "\<And>a. ss_active slot' = Some a \<Longrightarrow> batch_ok (restate_on g K I) sid a"
  shows "slot_ok (restate_on g K I) sid slot'"
proof -
  have "intent_at (restate_on g K I) sid p Queued k" if "k \<in> set (queue slot' p)" for p k
    using assms(2) [OF that] by (auto simp: intent_at_restate_on)
  with assms(1,3) show ?thesis by (simp add: slot_ok_def)
qed

lemma batch_ok_keep:
  assumes "batch_ok I sid a" "set (wb_intent_ids (ab_batch a)) \<inter> K = {}"
  shows "batch_ok (restate_on g K I) sid a"
  using assms by (auto simp: batch_ok_def intro!: intent_at_keep)

lemma slot_ok_distinctD: "slot_ok I sid slot \<Longrightarrow> distinct (queue slot p)"
  by (simp add: slot_ok_def)

lemma queue_present:
  "slot_ok I sid slot \<Longrightarrow> k \<in> set (queue slot p) \<Longrightarrow>
     \<exists>i. I k = Some i \<and> wi_slot_id i = sid \<and> wi_priority i = p \<and> wi_state i = Queued"
  using slot_ok_queueD by (auto simp: intent_at_def)

lemma active_present:
  assumes "slot_ok I sid slot" "ss_active slot = Some a" "k \<in> set (wb_intent_ids (ab_batch a))"
  shows "\<exists>i. I k = Some i \<and> wi_slot_id i = sid \<and> wi_priority i = wb_highest_priority (ab_batch a)
    \<and> wi_state i = batch_state a"
  using slot_ok_batchD [OF assms(1,2)] assms(3) by (auto simp: batch_ok_def intent_at_def)

lemma holds_present:
  assumes "slot_ok I sid slot" "holds slot k"
  shows "\<exists>i. I k = Some i \<and> wi_slot_id i = sid \<and> \<not> is_terminal (wi_state i)"
proof (cases "\<exists>p. k \<in> set (queue slot p)")
  case True
  then obtain p where "k \<in> set (queue slot p)" ..
  from queue_present [OF assms(1) this] show ?thesis by auto
next
  case False
  with assms(2) have "k \<in> set (active_ids slot)" by (simp add: holds_iff)
  then obtain a where "ss_active slot = Some a" "k \<in> set (wb_intent_ids (ab_batch a))"
    by (cases "ss_active slot") auto
  from active_present [OF assms(1) this] show ?thesis by auto
qed

lemma holds_queued:
  assumes "slot_ok I sid slot" "holds slot k" "I k = Some i" "wi_state i = Queued"
  shows "k \<in> set (queue slot (wi_priority i))"
proof -
  have "k \<notin> set (active_ids slot)"
  proof
    assume "k \<in> set (active_ids slot)"
    then obtain a where "ss_active slot = Some a" "k \<in> set (wb_intent_ids (ab_batch a))"
      by (cases "ss_active slot") auto
    from active_present [OF assms(1) this] assms(3,4) have "batch_state a = Queued" by simp
    then show False by simp
  qed
  with assms(2) obtain p where "k \<in> set (queue slot p)" by (auto simp: holds_iff)
  with queue_present [OF assms(1) this] assms(3) show ?thesis by auto
qed

lemma slot_ok_drop_queued:
  assumes ok: "slot_ok I sid slot" and K: "K \<subseteq> set (queued_ids slot)"
    and q: "\<And>p. queue slot' p = filter (\<lambda>k. k \<notin> K) (queue slot p)"
    and act: "ss_active slot' = ss_active slot"
  shows "slot_ok (restate_on g K I) sid slot'"
proof (rule slot_ok_restateI)
  show "distinct (queue slot' p)" for p
    using slot_ok_distinctD [OF ok] by (simp add: q)
  show "\<exists>i. I k = Some i \<and> wi_slot_id i = sid \<and> wi_priority i = p
      \<and> (if k \<in> K then g (wi_team_run_id i) else wi_state i) = Queued"
    if "k \<in> set (queue slot' p)" for p k
    using that queue_present [OF ok] by (auto simp: q)
  show "batch_ok (restate_on g K I) sid a" if "ss_active slot' = Some a" for a
  proof (rule batch_ok_keep)
    show "batch_ok I sid a" using slot_ok_batchD [OF ok] that act by simp
    show "set (wb_intent_ids (ab_batch a)) \<inter> K = {}"
      using slot_ok_disjoint [OF ok] that act K by (auto simp: set_queued_ids)
  qed
qed

lemma holds_drop_queued:
  assumes "holds slot k" "k \<notin> K" "\<And>p. queue slot' p = filter (\<lambda>k. k \<notin> K) (queue slot p)"
    "ss_active slot' = ss_active slot"
  shows "holds slot' k"
  using assms by (auto simp: holds_iff active_ids_def)

section \<open>Reconciling the mailbox\<close>

lemma reconcile_queued_inv:
  assumes inv: "state_inv st"
    and slot_def: "slot = (entry_or sid (new_slot role) (cs_slots st))
      \<lparr>ss_role := role, ss_known_unread_message_ids := set unread\<rparr>"
    and cleared_def: "cleared = filter (stale_message unread (map_of (cs_intents st))) (queued_ids slot)"
    and st1_def: "st1 = st\<lparr>
      cs_slots := AList.update sid (fold remove_queued cleared slot) (cs_slots st),
      cs_intents := modify_all (restate (\<lambda>_. Completed)) cleared (cs_intents st)\<rparr>"
  shows "state_inv st1"
    "reconcile_queued unread (queued_ids slot) (cs_intents st) =
       (filter (\<lambda>k. \<not> stale_message unread (map_of (cs_intents st)) k) (queued_ids slot), cleared,
        cs_intents st1)"
    "k \<in> set cleared \<Longrightarrow> \<exists>i. map_of (cs_intents st) k = Some i \<and> wi_slot_id i = sid \<and> wi_state i = Queued"
    "map_of (cs_intents st) k = Some i \<Longrightarrow> wi_slot_id i = sid \<Longrightarrow> wi_state i = Queued \<Longrightarrow>
       k \<in> set (queued_ids slot)"
proof -
  note i = state_invD [OF inv]
  have same: "queue slot p = queue (entry_or sid (new_slot role) (cs_slots st)) p"
    "ss_active slot = ss_active (entry_or sid (new_slot role) (cs_slots st))" for p
    by (simp_all add: slot_def)
  have ok: "slot_ok (map_of (cs_intents st)) sid slot"
    using entry_ok(1) [OF i(5)] slot_ok_cong [OF same] by blast
  have own: "holds slot k" if "map_of (cs_intents st) k = Some j" "wi_slot_id j = sid"
    "\<not> is_terminal (wi_state j)" for k j
    using entry_ok(2) [OF i(5) that] holds_cong [OF same] by blast
  have queued: "\<exists>i. map_of (cs_intents st) k = Some i \<and> wi_slot_id i = sid \<and> wi_state i = Queued"
    if "k \<in> set (queued_ids slot)" for k
    using that queue_present [OF ok] by (fastforce simp: set_queued_ids)
  then have "set (queued_ids slot) \<subseteq> dom (map_of (cs_intents st))" by fastforce
  from reconcile_queued_eq [OF this, of unread]
  show "reconcile_queued unread (queued_ids slot) (cs_intents st) =
       (filter (\<lambda>k. \<not> stale_message unread (map_of (cs_intents st)) k) (queued_ids slot), cleared,
        cs_intents st1)" by (simp add: cleared_def st1_def)
  have K: "set cleared \<subseteq> set (queued_ids slot)" by (auto simp: cleared_def)
  then show "\<exists>i. map_of (cs_intents st) k = Some i \<and> wi_slot_id i = sid \<and> wi_state i = Queued"
    if "k \<in> set cleared" using queued that by blast
  show "k \<in> set (queued_ids slot)"
    if "map_of (cs_intents st) k = Some i" "wi_slot_id i = sid" "wi_state i = Queued"
    using holds_queued [OF ok own that(1,3)] that by (auto simp: set_queued_ids)
  show "state_inv st1"
  proof (rule state_inv_restate [OF inv])
    show "slot_ok (restate_on (\<lambda>_. Completed) (set cleared) (map_of (cs_intents st))) sid
        (fold remove_queued cleared slot)"
      by (rule slot_ok_drop_queued [OF ok K]) simp_all
    show "wi_slot_id j = sid" if "k \<in> set cleared" "map_of (cs_intents st) k = Some j" for k j
      using queued [of k] that K by auto
    show "holds (fold remove_queued cleared slot) k"
      if "map_of (cs_intents st) k = Some j" "wi_slot_id j = sid"
        "\<not> is_terminal (if k \<in> set cleared then Completed else wi_state j)" for k j
    proof -
      have "holds slot k" "k \<notin> set cleared" using that own by (simp_all split: if_splits)
      then show ?thesis by (rule holds_drop_queued) simp_all
    qed
  qed (simp_all add: st1_def)
qed

text \<open>
  What a reconciliation of slot \<open>sid\<close> with the unread messages of its mailbox leaves behind:
  stale queued intents are completed, every unread message has an open intent, the queued
  intents carry only unread messages, and nothing else changes.
\<close>

definition reconciled ::
  "id \<Rightarrow> id list \<Rightarrow> reconcile_projection \<Rightarrow> coordinator_state \<Rightarrow> coordinator_state \<Rightarrow> bool" where
  "reconciled sid unread proj st st' \<longleftrightarrow>
     (\<forall>k i. map_of (cs_intents st) k = Some i \<longrightarrow>
        map_of (cs_intents st') k =
          Some (if k \<in> set (rp_cleared_stale_intent_ids proj) then restate (\<lambda>_. Completed) i else i)) \<and>
     (\<forall>k i. map_of (cs_intents st') k = Some i \<longrightarrow> map_of (cs_intents st) k = None \<longrightarrow>
        k \<in> set (rp_created_recovery_intent_ids proj) \<and> wi_slot_id i = sid \<and> wi_state i = Queued
          \<and> wi_team_run_id i = None \<and> (\<exists>m \<in> set unread. wi_mailbox_message_id i = Some m)) \<and>
     (\<forall>k \<in> set (rp_cleared_stale_intent_ids proj). \<exists>i. map_of (cs_intents st) k = Some i
        \<and> wi_slot_id i = sid \<and> wi_state i = Queued
        \<and> (\<exists>m. wi_mailbox_message_id i = Some m \<and> m \<notin> set unread)) \<and>
     (\<forall>k i. map_of (cs_intents st') k = Some i \<longrightarrow> wi_slot_id i = sid \<longrightarrow> wi_state i = Queued \<longrightarrow>
        set_option (wi_mailbox_message_id i) \<subseteq> set unread) \<and>
     (\<forall>m \<in> set unread. already_owned sid m (cs_intents st')) \<and>
     (\<forall>t. Option.bind (map_of (cs_slots st') t) ss_active = Option.bind (map_of (cs_slots st) t) ss_active)"

lemma reconcile_mailbox_spec:
  assumes inv: "state_inv (sc_state s)" and fresh: "fresh_supply gen 0 (sc_state s)"
  shows "\<exists>proj st'. reconcile_mailbox now gen sid unread role s = Some (proj, s\<lparr>sc_state := st'\<rparr>)
    \<and> state_inv st' \<and> reconciled sid unread proj (sc_state s) st'
    \<and> cs_enqueue_leases st' = cs_enqueue_leases (sc_state s)"
proof -
  let ?st = "sc_state s" and ?I = "map_of (cs_intents (sc_state s))"
  define slot where "slot = (entry_or sid (new_slot role) (cs_slots ?st))
      \<lparr>ss_role := role, ss_known_unread_message_ids := set unread\<rparr>"
  define cleared where "cleared = filter (stale_message unread ?I) (queued_ids slot)"
  define st1 where "st1 = ?st\<lparr>
      cs_slots := AList.update sid (fold remove_queued cleared slot) (cs_slots ?st),
      cs_intents := modify_all (restate (\<lambda>_. Completed)) cleared (cs_intents ?st)\<rparr>"
  note q = reconcile_queued_inv [OF inv slot_def cleared_def st1_def]
  have I1: "map_of (cs_intents st1) = restate_on (\<lambda>_. Completed) (set cleared) ?I"
    by (simp add: st1_def loop_simps)
  have fresh1: "fresh_supply gen 0 st1"
    using fresh by (simp add: fresh_supply_def I1 restate_on_def)
  have slot1: "map_of (cs_slots st1) sid \<noteq> None" by (simp add: st1_def table_simps)
  obtain created st2 where rec:
    "recover_unread now gen (sc_session_generation s) sid role 0 unread st1 = Some (created, st2)"
    "state_inv st2" "cs_enqueue_leases st2 = cs_enqueue_leases st1"
    "\<forall>k i. map_of (cs_intents st1) k = Some i \<longrightarrow> map_of (cs_intents st2) k = Some i"
    "\<forall>k i. map_of (cs_intents st2) k = Some i \<longrightarrow> map_of (cs_intents st1) k = Some i \<or>
         k \<in> set created \<and> map_of (cs_intents st1) k = None \<and> wi_slot_id i = sid \<and> wi_state i = Queued
           \<and> wi_team_run_id i = None \<and> (\<exists>m \<in> set unread. wi_mailbox_message_id i = Some m)"
    "\<forall>t. t \<noteq> sid \<longrightarrow> map_of (cs_slots st2) t = map_of (cs_slots st1) t"
    "\<forall>slot. map_of (cs_slots st1) sid = Some slot \<longrightarrow>
         (\<exists>slot'. map_of (cs_slots st2) sid = Some slot' \<and> ss_active slot' = ss_active slot)"
    using recover_unread_inv [OF q(1) fresh1 slot1] by blast
  have owned: "already_owned sid m (cs_intents st2)" if "m \<in> set unread" for m
    using recover_unread_owned [OF q(1) fresh1 slot1 rec(1) that] .
  have result: "reconcile_mailbox now gen sid unread role s = Some
      (\<lparr>rp_created_recovery_intent_ids = created,
        rp_retained_intent_ids = filter (\<lambda>k. \<not> stale_message unread ?I k) (queued_ids slot),
        rp_cleared_stale_intent_ids = cleared\<rparr>, s\<lparr>sc_state := st2\<rparr>)"
    using q(2) rec(1) by (simp add: reconcile_mailbox_def Let_def flip: slot_def) (simp add: st1_def)
  have kept: "map_of (cs_intents st2) k = Some (if k \<in> set cleared then restate (\<lambda>_. Completed) i else i)"
    if "?I k = Some i" for k i
    using rec(4) that by (simp add: I1 restate_on_def)
  have stale: "\<exists>i. ?I k = Some i \<and> wi_slot_id i = sid \<and> wi_state i = Queued
      \<and> (\<exists>m. wi_mailbox_message_id i = Some m \<and> m \<notin> set unread)" if "k \<in> set cleared" for k
    using q(3) [OF that] that by (auto simp: cleared_def stale_message_def split: option.splits)
  have created: "k \<in> set created \<and> wi_slot_id i = sid \<and> wi_state i = Queued \<and> wi_team_run_id i = None
      \<and> (\<exists>m \<in> set unread. wi_mailbox_message_id i = Some m)"
    if "map_of (cs_intents st2) k = Some i" "?I k = None" for k i
    using rec(5) [rule_format, OF that(1)] that(2) by (auto simp: I1 restate_on_def split: if_splits)
  have queued: "set_option (wi_mailbox_message_id i) \<subseteq> set unread"
    if k: "map_of (cs_intents st2) k = Some i" "wi_slot_id i = sid" "wi_state i = Queued" for k i
  proof (cases "?I k")
    case None
    with created [OF k(1)] show ?thesis by auto
  next
    case (Some j)
    with kept [OF Some] k have "k \<notin> set cleared" "j = i" by (auto split: if_splits)
    with q(4) [of k j] Some k show ?thesis
      by (auto simp: cleared_def stale_message_def split: option.splits)
  qed
  have active: "Option.bind (map_of (cs_slots st2) t) ss_active = Option.bind (map_of (cs_slots ?st) t) ss_active" for t
  proof (cases "t = sid")
    case True
    then show ?thesis using rec(7) by (auto simp: st1_def table_simps slot_def entry_or_def split: option.splits)
  qed (use rec(6) in \<open>simp add: st1_def table_simps\<close>)
  have "reconciled sid unread \<lparr>rp_created_recovery_intent_ids = created,
        rp_retained_intent_ids = filter (\<lambda>k. \<not> stale_message unread ?I k) (queued_ids slot),
        rp_cleared_stale_intent_ids = cleared\<rparr> ?st st2"
    unfolding reconciled_def
    by (intro conjI allI impI ballI) (use kept created queued owned active stale in simp_all)
  moreover have "cs_enqueue_leases st2 = cs_enqueue_leases ?st" using rec(3) by (simp add: st1_def)
  ultimately show ?thesis using result rec(2) by blast
qed

section \<open>Claiming a batch\<close>

lemma find_SomeD: "List.find P xs = Some x \<Longrightarrow> P x \<and> x \<in> set xs"
  by (induction xs) (auto split: if_splits)

lemma selected_priority_Some:
  assumes "selected_priority slot = Some p"
  shows "queue slot p \<noteq> []" "q < p \<Longrightarrow> queue slot q = []"
  using assms by (auto simp: selected_priority_def less_work_priority_def split: if_splits)
    (cases q; simp)+

lemma selected_priority_None: "selected_priority slot = None \<longleftrightarrow> queued_ids slot = []"
  by (auto simp: selected_priority_def queued_ids_def)

definition claimed_batch ::
  "id \<Rightarrow> id \<Rightarrow> id \<Rightarrow> id list \<Rightarrow> id list \<Rightarrow> work_priority \<Rightarrow> id list \<Rightarrow> u64 \<Rightarrow> work_batch" where
  "claimed_batch bid generation sid ids mids p runs op =
     \<lparr>wb_batch_id = bid, wb_session_generation = generation, wb_slot_id = sid, wb_intent_ids = ids,
      wb_mailbox_message_ids = mids, wb_highest_priority = p, wb_team_run_ids = runs,
      wb_operation_id = op\<rparr>"

definition claimed_slot :: "work_batch \<Rightarrow> slot_state \<Rightarrow> slot_state" where
  "claimed_slot batch slot =
     (fold remove_queued (wb_intent_ids batch) slot)
       \<lparr>ss_active := Some \<lparr>ab_batch = batch, ab_turn_id = None, ab_started_at_ms = None\<rparr>\<rparr>"

definition claim_state :: "work_batch \<Rightarrow> work_intent_state" where
  "claim_state batch = Starting (wb_batch_id batch) (wb_operation_id batch)"

text \<open>Everything that holds when \<open>next\<close> claims.\<close>

definition claims ::
  "id \<Rightarrow> 'r slot_work_coordinator \<Rightarrow> slot_state \<Rightarrow> work_batch \<Rightarrow> coordinator_state \<Rightarrow> bool" where
  "claims sid s slot batch st1 \<longleftrightarrow>
     map_of (cs_slots (sc_state s)) sid = Some slot \<and> ss_active slot = None \<and>
     ss_runtime_constraint slot = RcReady \<and> \<not> ss_paused slot \<and>
     selected_priority slot = Some (wb_highest_priority batch) \<and>
     wb_intent_ids batch =
       filter (has_message (cs_intents (sc_state s))) (queue slot (wb_highest_priority batch)) \<and>
     wb_intent_ids batch \<noteq> [] \<and>
     wb_mailbox_message_ids batch = messages_of (map_of (cs_intents (sc_state s))) (wb_intent_ids batch) \<and>
     set (wb_team_run_ids batch) =
       run_ids_of (map_of (cs_intents (sc_state s))) (set (wb_intent_ids batch)) \<and>
     wb_session_generation batch = sc_session_generation s \<and> wb_slot_id batch = sid \<and>
     wb_operation_id batch = saturating_add (cs_next_operation_id (sc_state s)) 1 \<and>
     st1 = (sc_state s)\<lparr>cs_next_operation_id := wb_operation_id batch,
       cs_intents := modify_all (restate (\<lambda>_. claim_state batch)) (wb_intent_ids batch)
         (cs_intents (sc_state s)),
       cs_slots := AList.update sid (claimed_slot batch slot) (cs_slots (sc_state s))\<rparr>"

lemma next_work_cases [consumes 2]:
  assumes "state_inv (sc_state s)" "next_work now bid sid s = out"
  obtains (same) d where "out = Some (d, s)" "\<And>b. d \<noteq> Claim b"
      "\<And>ids. d = SettleSignals ids \<Longrightarrow> \<exists>slot p. map_of (cs_slots (sc_state s)) sid = Some slot
         \<and> selected_priority slot = Some p \<and> ids = queue slot p
         \<and> (\<forall>k \<in> set ids. \<not> has_message (cs_intents (sc_state s)) k)"
  | (claim) batch slot st1 where
      "out = Some (Claim batch, publish_run_summaries now
         (run_summaries_locked st1 (wb_team_run_ids batch)) (s\<lparr>sc_state := st1\<rparr>))"
      "wb_batch_id batch = bid" "claims sid s slot batch st1"
proof (cases "map_of (cs_slots (sc_state s)) sid")
  case None
  with assms(2) show thesis by (intro same [of Quiescent]) (auto simp: next_work_def)
next
  case slot: (Some slot)
  let ?m = "cs_intents (sc_state s)"
  have ok: "slot_ok (map_of ?m) sid slot"
    using work_invD(2) [OF state_invD(5) [OF assms(1)] slot] .
  show thesis
  proof (cases "ss_active slot = None \<and> ss_runtime_constraint slot = RcReady \<and> \<not> ss_paused slot")
    case False
    with assms(2) slot show thesis
      by (intro same [of "if ss_active slot \<noteq> None then WaitingForCompletion
            else if ss_runtime_constraint slot \<noteq> RcReady then BlockedBy (ss_runtime_constraint slot)
            else Quiescent"]) (auto simp: next_work_def Let_def split: if_splits)
  next
    case free: True
    show thesis
    proof (cases "selected_priority slot")
      case None
      with assms(2) slot free show thesis by (intro same [of Quiescent]) (auto simp: next_work_def Let_def)
    next
      case p: (Some p)
      let ?ids = "filter (has_message ?m) (queue slot p)"
      show thesis
      proof (cases "?ids = []")
        case True
        with assms(2) slot free p show thesis
          by (intro same [of "SettleSignals (queue slot p)"])
            (auto simp: next_work_def Let_def filter_empty_conv)
      next
        case ids: False
        define op where "op = saturating_add (cs_next_operation_id (sc_state s)) 1"
        have "set ?ids \<subseteq> dom (map_of ?m)" using queue_present [OF ok, of _ p] by fastforce
        from claim_intents_eq [OF this, of bid op "[]" "[]"] obtain runs where runs:
          "claim_intents bid op ?ids [] [] ?m = Some (messages_of (map_of ?m) ?ids, runs,
             modify_all (restate (\<lambda>_. Starting bid op)) ?ids ?m)"
          "set runs = run_ids_of (map_of ?m) (set ?ids)" by auto
        define batch where "batch = claimed_batch bid (sc_session_generation s) sid ?ids
          (messages_of (map_of ?m) ?ids) p runs op"
        note defs = batch_def claimed_batch_def claimed_slot_def claim_state_def
        define st1 where "st1 = (sc_state s)\<lparr>cs_next_operation_id := wb_operation_id batch,
          cs_intents := modify_all (restate (\<lambda>_. claim_state batch)) (wb_intent_ids batch) ?m,
          cs_slots := AList.update sid (claimed_slot batch slot) (cs_slots (sc_state s))\<rparr>"
        have "out = Some (Claim batch, publish_run_summaries now
           (run_summaries_locked st1 (wb_team_run_ids batch)) (s\<lparr>sc_state := st1\<rparr>))"
          using slot free p ids runs(1) unfolding assms(2) [symmetric] st1_def
          by (simp add: next_work_def Let_def defs flip: op_def)
        then show thesis
          by (rule claim [where slot = slot]) (use slot free p ids runs(2) in \<open>simp_all add: claims_def st1_def defs op_def\<close>)
      qed
    qed
  qed
qed

lemma claimed_slot_work [simp]:
  "queue (claimed_slot batch slot) p = filter (\<lambda>k. k \<notin> set (wb_intent_ids batch)) (queue slot p)"
  "ss_active (claimed_slot batch slot) =
     Some \<lparr>ab_batch = batch, ab_turn_id = None, ab_started_at_ms = None\<rparr>"
  by (simp_all add: claimed_slot_def)

lemma claims_inv:
  assumes inv: "state_inv (sc_state s)" and c: "claims sid s slot batch st1"
  shows "state_inv st1"
proof -
  let ?I = "map_of (cs_intents (sc_state s))" and ?K = "set (wb_intent_ids batch)"
  let ?p = "wb_highest_priority batch" and ?I' = "restate_on (\<lambda>_. claim_state batch) ?K ?I"
  note slot = c [unfolded claims_def, THEN conjunct1]
  have ok: "slot_ok ?I sid slot" using work_invD(2) [OF state_invD(5) [OF inv] slot] .
  have K: "?K \<subseteq> set (queue slot ?p)" using c by (auto simp: claims_def)
  have at: "intent_at ?I' sid ?p (claim_state batch) k" if "k \<in> ?K" for k
    using queue_present [OF ok, of k ?p] K that by (auto simp: intent_at_restate_on)
  have batch: "batch_ok ?I' sid \<lparr>ab_batch = batch, ab_turn_id = None, ab_started_at_ms = None\<rparr>"
    using c at slot_ok_distinctD [OF ok, of ?p]
    by (auto simp: batch_ok_def batch_state_def claims_def claim_state_def)
  show ?thesis
  proof (rule state_inv_restate [OF inv])
    show "slot_ok ?I' sid (claimed_slot batch slot)"
    proof (rule slot_ok_restateI)
      show "distinct (queue (claimed_slot batch slot) p)" for p
        using slot_ok_distinctD [OF ok] by simp
      show "\<exists>i. ?I k = Some i \<and> wi_slot_id i = sid \<and> wi_priority i = p
          \<and> (if k \<in> ?K then claim_state batch else wi_state i) = Queued"
        if "k \<in> set (queue (claimed_slot batch slot) p)" for p k
        using that queue_present [OF ok] by auto
    qed (use batch in auto)
    show "wi_slot_id i = sid" if "k \<in> ?K" "?I k = Some i" for k i
      using that K queue_present [OF ok] by fastforce
    show "holds (claimed_slot batch slot) k"
      if "?I k = Some i" "wi_slot_id i = sid"
        "\<not> is_terminal (if k \<in> ?K then claim_state batch else wi_state i)" for k i
    proof (cases "k \<in> ?K")
      case False
      with that slot_own [OF state_invD(5) [OF inv] slot] have "holds slot k" by simp
      with False c show ?thesis by (auto simp: holds_iff claims_def)
    qed (simp add: holds_iff)
  qed (use c in \<open>simp_all add: claims_def\<close>)
qed

lemma next_work_inv:
  assumes "state_inv (sc_state s)"
  shows "\<exists>d s'. next_work now bid sid s = Some (d, s') \<and> state_inv (sc_state s')"
  using assms refl [of "next_work now bid sid s"]
proof (cases rule: next_work_cases)
  case (claim batch slot st1)
  with claims_inv [OF assms claim(3)] show ?thesis by auto
qed (use assms in auto)

section \<open>Starting, retrying and ending the active batch\<close>

text \<open>
  The owner of a batch presents the value that \<open>next\<close> returned; a forged batch with the
  identifiers of the active one could name other intents.
\<close>

definition genuine :: "'r slot_work_coordinator \<Rightarrow> work_batch \<Rightarrow> bool" where
  "genuine s batch \<longleftrightarrow>
     (\<forall>a. Option.bind (map_of (cs_slots (sc_state s)) (wb_slot_id batch)) ss_active = Some a \<longrightarrow>
        is_current_batch s batch \<longrightarrow> ab_batch a = batch)"

lemma current_batchE:
  assumes "is_current_batch s batch" "genuine s batch"
  obtains slot a where "map_of (cs_slots (sc_state s)) (wb_slot_id batch) = Some slot"
    "ss_active slot = Some a" "ab_batch a = batch"
proof -
  from assms(1) obtain a where
    a: "Option.bind (map_of (cs_slots (sc_state s)) (wb_slot_id batch)) ss_active = Some a"
    by (auto simp: is_current_batch_def split: option.splits)
  with assms have "ab_batch a = batch" by (auto simp: genuine_def)
  with a that show thesis by (auto simp: bind_eq_Some_conv)
qed

text \<open>
  The three ways a batch leaves its claim: the slot \<open>slot'\<close> either keeps the batch with a new
  turn, or has no active batch and then queues exactly the intents that stay open.
\<close>

lemma state_inv_batch:
  assumes inv: "state_inv st" and slot: "map_of (cs_slots st) sid = Some slot"
    and a: "ss_active slot = Some a" and sid: "wb_slot_id (ab_batch a) = sid"
    and st': "cs_intents st' = set_intent_states ws (wb_intent_ids (ab_batch a)) (cs_intents st)"
      "cs_slots st' = AList.update sid slot' (cs_slots st)"
      "cs_enqueue_leases st' = cs_enqueue_leases st"
    and queues: "\<And>p. queue slot' p =
        (if ws = Queued \<and> p = wb_highest_priority (ab_batch a) then wb_intent_ids (ab_batch a) else [])
          @ queue slot p"
    and active: "if ws = Queued \<or> is_terminal ws then ss_active slot' = None
        else \<exists>a'. ss_active slot' = Some a' \<and> ab_batch a' = ab_batch a \<and> batch_state a' = ws"
  shows "state_inv st'"
proof (rule state_inv_restate [OF inv])
  let ?I = "map_of (cs_intents st)" and ?K = "set (wb_intent_ids (ab_batch a))"
  let ?I' = "restate_on (\<lambda>_. ws) ?K ?I"
  have ok: "slot_ok ?I sid slot" using work_invD(2) [OF state_invD(5) [OF inv] slot] .
  have b: "batch_ok ?I sid a" using slot_ok_batchD [OF ok a] .
  show "cs_intents st' = modify_all (restate (\<lambda>_. ws)) (wb_intent_ids (ab_batch a)) (cs_intents st)"
    by (simp add: st' set_intent_states_restate)
  show "slot_ok ?I' sid slot'"
  proof (rule slot_ok_restateI)
    show "distinct (queue slot' p)" for p
      using slot_ok_distinctD [OF ok, of p] slot_ok_disjoint [OF ok a, of _ p] b
      by (auto simp: queues batch_ok_def)
    show "\<exists>i. ?I k = Some i \<and> wi_slot_id i = sid \<and> wi_priority i = p
        \<and> (if k \<in> ?K then ws else wi_state i) = Queued" if "k \<in> set (queue slot' p)" for p k
      using that active_present [OF ok a] queue_present [OF ok, of k p] slot_ok_disjoint [OF ok a, of k p]
      by (auto simp: queues split: if_splits)
    show "batch_ok ?I' sid a'" if "ss_active slot' = Some a'" for a'
    proof -
      have a': "ab_batch a' = ab_batch a" "batch_state a' = ws"
        using active that by (auto split: if_splits)
      have "intent_at ?I' sid (wb_highest_priority (ab_batch a)) ws k" if "k \<in> ?K" for k
        using active_present [OF ok a that] that by (auto simp: intent_at_restate_on)
      with b show ?thesis by (simp add: batch_ok_def a')
    qed
  qed
  show "wi_slot_id i = sid" if "k \<in> ?K" "?I k = Some i" for k i
    using active_present [OF ok a that(1)] that(2) by auto
  show "holds slot' k" if k: "?I k = Some i" "wi_slot_id i = sid"
    "\<not> is_terminal (if k \<in> ?K then ws else wi_state i)" for k i
  proof (cases "k \<in> ?K")
    case True
    with k(3) active show ?thesis by (auto simp: holds_iff queues split: if_splits)
  next
    case False
    with k slot_own [OF state_invD(5) [OF inv] slot] have "holds slot k" by simp
    with False a show ?thesis by (auto simp: holds_iff queues)
  qed
qed (simp_all add: st')

definition started_slot :: "timestamp_ms \<Rightarrow> id \<Rightarrow> slot_state \<Rightarrow> slot_state" where
  "started_slot now turn slot = slot\<lparr>ss_active :=
     map_option (\<lambda>a. a\<lparr>ab_turn_id := Some turn, ab_started_at_ms := Some now\<rparr>) (ss_active slot)\<rparr>"

lemma mark_started_stale:
  assumes "\<not> is_current_batch s batch"
  shows "snd (mark_started now batch turn s) = s" "fst (mark_started now batch turn s) \<noteq> StartAccepted"
  using assms by (auto simp: mark_started_def Let_def)

lemma mark_started_current:
  assumes "is_current_batch s batch" "map_of (cs_slots (sc_state s)) (wb_slot_id batch) = Some slot"
  shows "sc_state (snd (mark_started now batch turn s)) = (sc_state s)\<lparr>
      cs_intents := set_intent_states (Running (wb_batch_id batch) (wb_operation_id batch) turn)
        (wb_intent_ids batch) (cs_intents (sc_state s)),
      cs_slots := AList.update (wb_slot_id batch) (started_slot now turn slot) (cs_slots (sc_state s))\<rparr>"
    and "fst (mark_started now batch turn s) =
      (if ss_paused slot \<or> ss_runtime_constraint slot \<noteq> RcReady then CancelImmediately else StartAccepted)"
  using assms by (simp_all add: mark_started_def Let_def map_entry_present started_slot_def)

lemma mark_started_inv:
  assumes inv: "state_inv (sc_state s)" and gen: "genuine s batch"
  shows "state_inv (sc_state (snd (mark_started now batch turn s)))"
proof (cases "is_current_batch s batch")
  case False
  with inv show ?thesis by (simp add: mark_started_stale)
next
  case True
  from current_batchE [OF True gen] obtain slot a where
    slot: "map_of (cs_slots (sc_state s)) (wb_slot_id batch) = Some slot" "ss_active slot = Some a"
      "ab_batch a = batch" by auto
  show ?thesis
    by (rule state_inv_batch [OF inv slot(1,2)])
      (use slot mark_started_current(1) [OF True slot(1)] in
        \<open>auto simp: started_slot_def batch_state_def\<close>)
qed

definition requeued_slot :: "work_batch \<Rightarrow> slot_state \<Rightarrow> slot_state" where
  "requeued_slot batch slot =
     fold (\<lambda>i. queue_mut (wb_highest_priority batch) (\<lambda>q. i # q))
       (rev (wb_intent_ids batch)) (slot\<lparr>ss_active := None\<rparr>)"

lemma requeued_slot_work [simp]:
  "queue (requeued_slot batch slot) p =
     (if p = wb_highest_priority batch then wb_intent_ids batch @ queue slot p else queue slot p)"
  "ss_active (requeued_slot batch slot) = None"
  by (simp_all add: requeued_slot_def)

lemma retry_start_current:
  assumes "is_current_batch s batch" "map_of (cs_slots (sc_state s)) (wb_slot_id batch) = Some slot"
  shows "\<exists>s'. retry_start now batch s = Some (Committed, s')
    \<and> sc_session_generation s' = sc_session_generation s \<and> sc_state s' = (sc_state s)\<lparr>
      cs_intents := set_intent_states Queued (wb_intent_ids batch) (cs_intents (sc_state s)),
      cs_slots := AList.update (wb_slot_id batch) (requeued_slot batch slot) (cs_slots (sc_state s))\<rparr>"
  using assms by (simp add: retry_start_def Let_def requeued_slot_def)

lemma retry_start_stale: "\<not> is_current_batch s batch \<Longrightarrow> retry_start now batch s = Some (StaleOwner, s)"
  by (simp add: retry_start_def Let_def)

lemma retry_start_inv:
  assumes inv: "state_inv (sc_state s)" and gen: "genuine s batch"
  shows "\<exists>r s'. retry_start now batch s = Some (r, s') \<and> state_inv (sc_state s')"
proof (cases "is_current_batch s batch")
  case False
  with inv show ?thesis by (simp add: retry_start_stale)
next
  case True
  from current_batchE [OF True gen] obtain slot a where
    slot: "map_of (cs_slots (sc_state s)) (wb_slot_id batch) = Some slot" "ss_active slot = Some a"
      "ab_batch a = batch" by auto
  from retry_start_current [OF True slot(1), of now] obtain s' where
    s': "retry_start now batch s = Some (Committed, s')" "sc_state s' = (sc_state s)\<lparr>
      cs_intents := set_intent_states Queued (wb_intent_ids batch) (cs_intents (sc_state s)),
      cs_slots := AList.update (wb_slot_id batch) (requeued_slot batch slot) (cs_slots (sc_state s))\<rparr>"
    by auto
  have "state_inv (sc_state s')"
    by (rule state_inv_batch [OF inv slot(1,2)]) (use slot s'(2) in auto)
  with s'(1) show ?thesis by simp
qed

lemma terminalize_batch_stale:
  "\<not> is_current_batch s batch \<Longrightarrow> terminalize_batch now batch ws s = Some (StaleOwner, s)"
  by (simp add: terminalize_batch_def Let_def)

lemma terminalize_batch_current:
  assumes "is_current_batch s batch" "map_of (cs_slots (sc_state s)) (wb_slot_id batch) = Some slot"
  shows "\<exists>s'. terminalize_batch now batch ws s = Some (Committed, s')
    \<and> sc_session_generation s' = sc_session_generation s \<and> sc_state s' = (sc_state s)\<lparr>
      cs_intents := set_intent_states ws (wb_intent_ids batch) (cs_intents (sc_state s)),
      cs_slots := AList.update (wb_slot_id batch) (slot\<lparr>ss_active := None\<rparr>) (cs_slots (sc_state s))\<rparr>"
  using assms by (simp add: terminalize_batch_def Let_def)

lemma terminalize_batch_inv:
  assumes inv: "state_inv (sc_state s)" and gen: "genuine s batch" and ws: "is_terminal ws"
  shows "\<exists>r s'. terminalize_batch now batch ws s = Some (r, s') \<and> state_inv (sc_state s')"
proof (cases "is_current_batch s batch")
  case False
  with inv show ?thesis by (simp add: terminalize_batch_stale)
next
  case True
  from current_batchE [OF True gen] obtain slot a where
    slot: "map_of (cs_slots (sc_state s)) (wb_slot_id batch) = Some slot" "ss_active slot = Some a"
      "ab_batch a = batch" by auto
  from terminalize_batch_current [OF True slot(1), of now ws] obtain s' where
    s': "terminalize_batch now batch ws s = Some (Committed, s')" "sc_state s' = (sc_state s)\<lparr>
      cs_intents := set_intent_states ws (wb_intent_ids batch) (cs_intents (sc_state s)),
      cs_slots := AList.update (wb_slot_id batch) (slot\<lparr>ss_active := None\<rparr>) (cs_slots (sc_state s))\<rparr>"
    by auto
  have "ws \<noteq> Queued" using ws by auto
  then have "state_inv (sc_state s')"
    by (intro state_inv_batch [OF inv slot(1,2)]) (use slot s'(2) ws in auto)
  with s'(1) show ?thesis by simp
qed

section \<open>Settling signals and pausing\<close>

lemma complete_signals_rejected:
  "fst (complete_signals now sid ids s) \<noteq> Committed \<Longrightarrow> complete_signals now sid ids s = (Rejected, s)"
  by (simp add: complete_signals_def Let_def split: if_splits)

definition settleable :: "id \<Rightarrow> id list \<Rightarrow> (id \<rightharpoonup> work_intent) \<Rightarrow> bool" where
  "settleable sid ids I \<longleftrightarrow>
     (\<forall>k \<in> set ids. \<exists>i. I k = Some i \<and> wi_slot_id i = sid \<and> wi_mailbox_message_id i = None
        \<and> wi_state i = Queued)"

lemma complete_signals_committed:
  "fst (complete_signals now sid ids s) = Committed \<longleftrightarrow>
     settleable sid ids (map_of (cs_intents (sc_state s)))"
  by (force simp: complete_signals_def Let_def settleable_def list_all_iff split: option.splits)

lemma complete_signals_state:
  assumes "fst (complete_signals now sid ids s) = Committed"
  shows "sc_state (snd (complete_signals now sid ids s)) = (sc_state s)\<lparr>
      cs_intents := set_intent_states Completed ids (cs_intents (sc_state s)),
      cs_slots := AList.map_entry sid (fold remove_queued ids) (cs_slots (sc_state s))\<rparr>"
  using assms by (simp add: complete_signals_def Let_def split: if_splits)

lemma complete_signals_inv:
  assumes inv: "state_inv (sc_state s)"
  shows "state_inv (sc_state (snd (complete_signals now sid ids s)))"
proof (cases "fst (complete_signals now sid ids s) = Committed \<and> ids \<noteq> []")
  case False
  then have "sc_state (snd (complete_signals now sid ids s)) = sc_state s"
    using complete_signals_state [of now sid ids s] complete_signals_rejected [of now sid ids s]
    by (cases "fst (complete_signals now sid ids s) = Committed") (auto simp: set_intent_states_def)
  with inv show ?thesis by simp
next
  case True
  let ?st = "sc_state s"
  have set: "settleable sid ids (map_of (cs_intents ?st))"
    using True complete_signals_committed by blast
  then obtain k i where "k \<in> set ids" "map_of (cs_intents ?st) k = Some i" "wi_slot_id i = sid"
    "wi_state i = Queued" using True unfolding settleable_def by (metis list.set_intros(1) neq_Nil_conv)
  then obtain slot where slot: "map_of (cs_slots ?st) sid = Some slot"
    using work_invD(3) [OF state_invD(5) [OF inv]] by fastforce
  have ok: "slot_ok (map_of (cs_intents ?st)) sid slot"
    using work_invD(2) [OF state_invD(5) [OF inv] slot] .
  have K: "set ids \<subseteq> set (queued_ids slot)"
  proof
    fix k assume "k \<in> set ids"
    with set obtain i where i: "map_of (cs_intents ?st) k = Some i" "wi_slot_id i = sid"
      "wi_state i = Queued" by (auto simp: settleable_def)
    then have "holds slot k" using slot_own [OF state_invD(5) [OF inv] slot] by simp
    from holds_queued [OF ok this i(1,3)] show "k \<in> set (queued_ids slot)"
      by (auto simp: set_queued_ids)
  qed
  show ?thesis
  proof (rule state_inv_restate [OF inv])
    show "cs_slots (sc_state (snd (complete_signals now sid ids s))) =
        AList.update sid (fold remove_queued ids slot) (cs_slots ?st)"
      using True slot by (simp add: complete_signals_state map_entry_present)
    show "slot_ok (restate_on (\<lambda>_. Completed) (set ids) (map_of (cs_intents ?st))) sid
        (fold remove_queued ids slot)"
      by (rule slot_ok_drop_queued [OF ok K]) simp_all
    show "wi_slot_id i = sid" if "k \<in> set ids" "map_of (cs_intents ?st) k = Some i" for k i
      using set that by (auto simp: settleable_def)
    show "holds (fold remove_queued ids slot) k"
      if "map_of (cs_intents ?st) k = Some i" "wi_slot_id i = sid"
        "\<not> is_terminal (if k \<in> set ids then Completed else wi_state i)" for k i
    proof -
      have "holds slot k" "k \<notin> set ids"
        using that slot_own [OF state_invD(5) [OF inv] slot] by (simp_all split: if_splits)
      then show ?thesis by (rule holds_drop_queued) simp_all
    qed
  qed (use True in \<open>simp_all add: complete_signals_state set_intent_states_restate\<close>)
qed

lemma pause_slot_inv:
  assumes inv: "state_inv (sc_state s)"
  shows "\<exists>r s'. pause_slot sid s = Some (r, s') \<and> state_inv (sc_state s')"
proof -
  let ?st = "sc_state s"
  note i = state_invD [OF inv]
  define slot where "slot = (entry_or sid (new_slot Teammate) (cs_slots ?st))\<lparr>ss_paused := True\<rparr>"
  define st1 where "st1 = ?st\<lparr>cs_slots := AList.update sid slot (cs_slots ?st)\<rparr>"
  have "work_inv (map_of (cs_intents ?st)) ((map_of (cs_slots ?st))(sid \<mapsto> slot))"
    using i(5) by (rule work_inv_same_work) (simp_all add: slot_def)
  moreover have "leases_ok (map_of (cs_enqueue_leases st1)) (map_of (cs_slots st1))"
    using i(4) by (rule leases_ok_mono) (auto simp: st1_def table_simps)
  ultimately have "state_inv st1" using i by (simp add: state_inv_def st1_def table_simps)
  moreover obtain snap where "slot_snapshot_locked st1 sid = Some snap"
    using slot_snapshot_Some [of st1 sid] by (cases "slot_snapshot_locked st1 sid")
      (auto simp: st1_def table_simps)
  ultimately show ?thesis by (simp add: pause_slot_def Let_def slot_def st1_def)
qed

end
