(* ===== verification/WorkCancel.thy ===== *)
theory WorkCancel
  imports WorkBatches
begin

text \<open>
  Preservation of the ownership invariant by the operations that end work without its
  owner: cancelling a run, a failed or stopped runtime, removing a slot and stopping the
  session. The loops of \<open>cancel_run\<close> are put in closed form on the way.
\<close>

section \<open>Iteration order of a HashMap\<close>

definition iter_order :: "(id list \<Rightarrow> id list) \<Rightarrow> bool" where
  "iter_order ord \<longleftrightarrow> (\<forall>xs. mset (ord xs) = mset xs)"

lemma iter_orderD:
  assumes "iter_order ord"
  shows "set (ord xs) = set xs" "distinct (ord xs) = distinct xs" "mset (ord xs) = mset xs"
proof -
  show m: "mset (ord xs) = mset xs" using assms by (simp add: iter_order_def)
  show "set (ord xs) = set xs" using m by (rule mset_eq_setD)
  show "distinct (ord xs) = distinct xs" using m by (rule mset_eq_imp_distinct_iff)
qed

text \<open>The keys of the intents selected from the table, with the invariant \<open>intent_id = key\<close>.\<close>

lemma selected_keys:
  assumes "keys_distinct m" "\<And>k i. map_of m k = Some i \<Longrightarrow> wi_intent_id i = k"
  shows "set (map wi_intent_id (filter P (map snd m))) = {k. \<exists>i. map_of m k = Some i \<and> P i}"
    and "distinct (map wi_intent_id (filter P (map snd m)))"
proof -
  have in_m: "(k, i) \<in> set m \<longleftrightarrow> map_of m k = Some i" for k i
    using assms(1) by (rule in_table_iff)
  have keys: "map wi_intent_id (filter P (map snd m)) = map fst (filter (\<lambda>x. P (snd x)) m)"
    if "set m' \<subseteq> set m" "m' = m" for m'
  proof -
    have "wi_intent_id (snd x) = fst x" if "x \<in> set m" for x
      using that assms(2) in_m by (metis prod.collapse)
    then show ?thesis by (simp add: filter_map comp_def)
  qed
  then have keys: "map wi_intent_id (filter P (map snd m)) = map fst (filter (\<lambda>x. P (snd x)) m)" by blast
  show "set (map wi_intent_id (filter P (map snd m))) = {k. \<exists>i. map_of m k = Some i \<and> P i}"
    unfolding keys using in_m by (force simp: image_iff)
  show "distinct (map wi_intent_id (filter P (map snd m)))"
    unfolding keys using assms(1) by (simp add: keys_distinct_def distinct_map_filter)
qed

lemma slot_open_ids_spec:
  assumes "state_inv st"
  shows "set (slot_open_ids sid st) = {k. \<exists>i. map_of (cs_intents st) k = Some i \<and> wi_slot_id i = sid
      \<and> \<not> is_terminal (wi_state i)}"
    and "distinct (slot_open_ids sid st)"
  using selected_keys [OF state_invD(2) [OF assms] work_invD(1) [OF state_invD(5) [OF assms]]]
  by (simp_all add: slot_open_ids_def)

lemma run_queued_ids_spec:
  assumes "state_inv st"
  shows "set (run_queued_ids rid st) = {k. \<exists>i. map_of (cs_intents st) k = Some i
      \<and> wi_team_run_id i = Some rid \<and> wi_state i = Queued}"
    and "distinct (run_queued_ids rid st)"
  using selected_keys [OF state_invD(2) [OF assms] work_invD(1) [OF state_invD(5) [OF assms]]]
  by (simp_all add: run_queued_ids_def)

section \<open>Runtime constraint\<close>

definition constrained_slot ::
  "runtime_constraint \<Rightarrow> (id \<rightharpoonup> work_intent) \<Rightarrow> id list \<Rightarrow> slot_state \<Rightarrow> slot_state" where
  "constrained_slot c I ks slot =
     fold (\<lambda>(p, i). queue_mut p (\<lambda>q. q @ [i]))
       (map (\<lambda>k. (prio_of I k, k)) (filter (\<lambda>k. run_of I k = None \<and> c \<noteq> RcSessionStopped) ks))
       ((clear_queues (slot\<lparr>ss_runtime_constraint := c\<rparr>))\<lparr>ss_active := None\<rparr>)"

lemma constrained_slot_work [simp]:
  "queue (constrained_slot c I ks slot) p =
     filter (\<lambda>k. run_of I k = None \<and> c \<noteq> RcSessionStopped \<and> prio_of I k = p) ks"
  "ss_active (constrained_slot c I ks slot) = None"
  by (auto simp: constrained_slot_def filter_map comp_def intro: filter_cong)

lemma set_runtime_constraint_ending:
  assumes inv: "state_inv (sc_state s)" and ord: "iter_order ord"
    and cls: "constraint_classification c = Some cls"
  shows "\<exists>r s'. set_runtime_constraint now ord sid c s = Some (r, s') \<and> state_inv (sc_state s')
    \<and> sc_state s' = (sc_state s)\<lparr>
        cs_intents := modify_all (restate (constrained_state c cls)) (ord (slot_open_ids sid (sc_state s)))
          (cs_intents (sc_state s)),
        cs_slots := AList.update sid (constrained_slot c (map_of (cs_intents (sc_state s)))
            (ord (slot_open_ids sid (sc_state s))) (entry_or sid (new_slot Teammate) (cs_slots (sc_state s))))
          (cs_slots (sc_state s))\<rparr>
    \<and> ru_terminal_message_ids r = messages_of (map_of (cs_intents (sc_state s)))
        (filter (\<lambda>k. \<not> (run_of (map_of (cs_intents (sc_state s))) k = None \<and> c \<noteq> RcSessionStopped))
          (ord (slot_open_ids sid (sc_state s))))"
proof -
  let ?st = "sc_state s" and ?I = "map_of (cs_intents (sc_state s))"
  let ?slot = "entry_or sid (new_slot Teammate) (cs_slots ?st)"
  define ks where "ks = ord (slot_open_ids sid ?st)"
  define slot' where "slot' = constrained_slot c ?I ks ?slot"
  define st1 where "st1 = ?st\<lparr>cs_intents := modify_all (restate (constrained_state c cls)) ks (cs_intents ?st),
    cs_slots := AList.update sid slot' (cs_slots ?st)\<rparr>"
  have ks: "set ks = {k. \<exists>i. ?I k = Some i \<and> wi_slot_id i = sid \<and> \<not> is_terminal (wi_state i)}"
    "distinct ks"
    using slot_open_ids_spec [OF inv] iter_orderD [OF ord] by (simp_all add: ks_def)
  have dom: "set ks \<subseteq> dom ?I" using ks by auto
  have inv1: "state_inv st1"
  proof (rule state_inv_restate [OF inv])
    show "slot_ok (restate_on (constrained_state c cls) (set ks) ?I) sid slot'"
      by (rule slot_ok_restateI) (use ks in \<open>auto simp: slot'_def constrained_state_def\<close>)
    show "holds slot' k" if "?I k = Some i" "wi_slot_id i = sid"
      "\<not> is_terminal (if k \<in> set ks then constrained_state c cls (wi_team_run_id i) else wi_state i)" for k i
      using that ks by (auto simp: holds_iff slot'_def constrained_state_def split: if_splits)
  qed (use ks in \<open>auto simp: st1_def\<close>)
  obtain snap where snap: "slot_snapshot_locked st1 sid = Some snap"
    using slot_snapshot_Some [of st1 sid] by (cases "slot_snapshot_locked st1 sid")
      (auto simp: st1_def table_simps)
  let ?msgs = "messages_of ?I (filter (\<lambda>k. \<not> (run_of ?I k = None \<and> c \<noteq> RcSessionStopped)) ks)"
  obtain runs where runs: "constrain_intents c cls ks (cs_intents ?st) =
      Some (map (\<lambda>k. (prio_of ?I k, k)) (filter (\<lambda>k. run_of ?I k = None \<and> c \<noteq> RcSessionStopped) ks), runs,
            ?msgs, modify_all (restate (constrained_state c cls)) ks (cs_intents ?st))"
    using constrain_intents_eq [OF dom, of c cls] by blast
  have "set_runtime_constraint now ord sid c s = Some (\<lparr>ru_slot = snap, ru_terminal_message_ids = ?msgs,
      ru_affected_run_summaries = run_summaries_locked st1 runs\<rparr>,
      publish_run_summaries now (run_summaries_locked st1 runs) (s\<lparr>sc_state := st1\<rparr>))"
    unfolding set_runtime_constraint_def Let_def cls option.case ks_def [symmetric] runs prod.case
    using snap by (simp add: st1_def slot'_def constrained_slot_def)
  with inv1 show ?thesis
    by (intro exI conjI) (assumption | simp add: st1_def slot'_def ks_def)+
qed

lemma set_runtime_constraint_open:
  assumes inv: "state_inv (sc_state s)" and cls: "constraint_classification c = None"
  shows "\<exists>r s'. set_runtime_constraint now ord sid c s = Some (r, s') \<and> state_inv (sc_state s')
    \<and> sc_state s' = (sc_state s)\<lparr>cs_slots := AList.update sid
        ((entry_or sid (new_slot Teammate) (cs_slots (sc_state s)))\<lparr>ss_runtime_constraint := c\<rparr>)
        (cs_slots (sc_state s))\<rparr> \<and> ru_terminal_message_ids r = []"
proof -
  let ?st = "sc_state s"
  note i = state_invD [OF inv]
  define slot where "slot = (entry_or sid (new_slot Teammate) (cs_slots ?st))\<lparr>ss_runtime_constraint := c\<rparr>"
  define st1 where "st1 = ?st\<lparr>cs_slots := AList.update sid slot (cs_slots ?st)\<rparr>"
  have "work_inv (map_of (cs_intents ?st)) ((map_of (cs_slots ?st))(sid \<mapsto> slot))"
    using i(5) by (rule work_inv_same_work) (simp_all add: slot_def)
  moreover have "leases_ok (map_of (cs_enqueue_leases st1)) (map_of (cs_slots st1))"
    using i(4) by (rule leases_ok_mono) (auto simp: st1_def table_simps)
  ultimately have "state_inv st1" using i by (simp add: state_inv_def st1_def table_simps)
  moreover obtain snap where "slot_snapshot_locked st1 sid = Some snap"
    using slot_snapshot_Some [of st1 sid] by (cases "slot_snapshot_locked st1 sid")
      (auto simp: st1_def table_simps)
  ultimately show ?thesis
    using cls by (simp add: set_runtime_constraint_def Let_def slot_def st1_def)
qed

lemma set_runtime_constraint_inv:
  assumes "state_inv (sc_state s)" "iter_order ord"
  shows "\<exists>r s'. set_runtime_constraint now ord sid c s = Some (r, s') \<and> state_inv (sc_state s')"
  using set_runtime_constraint_ending [OF assms] set_runtime_constraint_open [OF assms(1)]
  by (cases "constraint_classification c") blast+

section \<open>Removing a slot\<close>

lemma removal_ids_spec:
  assumes inv: "state_inv st"
  shows "set (removal_ids sid st) = {k. \<exists>i. map_of (cs_intents st) k = Some i \<and> wi_slot_id i = sid
      \<and> \<not> is_terminal (wi_state i)}" (is "_ = ?open")
proof -
  let ?ordered = "case map_of (cs_slots st) sid of None \<Rightarrow> [] | Some slot \<Rightarrow> active_ids slot @ queued_ids slot"
  have "set ?ordered \<subseteq> ?open"
  proof (cases "map_of (cs_slots st) sid")
    case (Some slot)
    have ok: "slot_ok (map_of (cs_intents st)) sid slot"
      using work_invD(2) [OF state_invD(5) [OF inv] Some] .
    have "holds slot k" if "k \<in> set ?ordered" for k
      using that Some by (auto simp: holds_def)
    then show ?thesis using holds_present [OF ok] by blast
  qed simp
  moreover have "set (map wi_intent_id (filter (\<lambda>i. wi_slot_id i = sid \<and> \<not> is_terminal (wi_state i)
      \<and> wi_intent_id i \<notin> set ?ordered) (map snd (cs_intents st)))) = ?open - set ?ordered"
    using work_invD(1) [OF state_invD(5) [OF inv]]
    by (subst selected_keys(1) [OF state_invD(2) [OF inv] work_invD(1) [OF state_invD(5) [OF inv]]]) auto
  ultimately show ?thesis by (auto simp: removal_ids_def Let_def)
qed

definition removed_slot :: "slot_state \<Rightarrow> slot_state" where
  "removed_slot slot = (clear_queues slot)\<lparr>ss_active := None, ss_removed := True\<rparr>"

lemma removed_slot_work [simp]:
  "queue (removed_slot slot) p = []" "ss_active (removed_slot slot) = None"
  "ss_removed (removed_slot slot) = True"
  by (simp_all add: removed_slot_def)

lemma remove_slot_spec:
  assumes inv: "state_inv (sc_state s)"
  shows "\<exists>r s'. remove_slot now sid s = Some (r, s') \<and> state_inv (sc_state s')
    \<and> sc_state s' = (sc_state s)\<lparr>
        cs_intents := modify_all (restate (\<lambda>_. Cancelled ''slot_removed'')) (removal_ids sid (sc_state s))
          (cs_intents (sc_state s)),
        cs_slots := AList.map_entry sid removed_slot (cs_slots (sc_state s))\<rparr>
    \<and> rw_terminal_message_ids r =
        messages_of (map_of (cs_intents (sc_state s))) (removal_ids sid (sc_state s))"
proof -
  let ?st = "sc_state s" and ?I = "map_of (cs_intents (sc_state s))"
  let ?g = "\<lambda>_. Cancelled ''slot_removed''" and ?ks = "removal_ids sid (sc_state s)"
  note ks = removal_ids_spec [OF inv, of sid]
  define st1 where "st1 = ?st\<lparr>cs_intents := modify_all (restate ?g) ?ks (cs_intents ?st),
    cs_slots := AList.map_entry sid removed_slot (cs_slots ?st)\<rparr>"
  have "state_inv st1"
  proof (cases "map_of (cs_slots ?st) sid")
    case None
    have "set ?ks = {}"
    proof (rule ccontr)
      assume "set ?ks \<noteq> {}"
      then obtain k i where i: "?I k = Some i" "wi_slot_id i = sid" "\<not> is_terminal (wi_state i)"
        unfolding ks by blast
      from work_invD(3) [OF state_invD(5) [OF inv] i(1,3)] i(2) None show False by simp
    qed
    then have "?ks = []" by simp
    with None inv show ?thesis by (simp add: st1_def map_entry_absent)
  next
    case (Some slot)
    show ?thesis
    proof (rule state_inv_restate [OF inv])
      show "slot_ok (restate_on ?g (set ?ks) ?I) sid (removed_slot slot)"
        by (rule slot_ok_restateI) auto
      show "cs_slots st1 = AList.update sid (removed_slot slot) (cs_slots ?st)"
        using Some by (simp add: st1_def map_entry_present)
      show "holds (removed_slot slot) k" if "?I k = Some i" "wi_slot_id i = sid"
        "\<not> is_terminal (if k \<in> set ?ks then Cancelled ''slot_removed'' else wi_state i)" for k i
        using that ks by (auto split: if_splits)
    qed (use ks in \<open>auto simp: st1_def\<close>)
  qed
  moreover have "set ?ks \<subseteq> dom ?I" using ks by auto
  from cancel_removed_eq [OF this] obtain runs where
    "cancel_removed ?ks (cs_intents ?st) = Some (messages_of ?I ?ks, runs,
       modify_all (restate ?g) ?ks (cs_intents ?st))" by blast
  ultimately show ?thesis
    by (simp add: remove_slot_def Let_def st1_def flip: removed_slot_def)
qed

section \<open>Stopping the session\<close>

definition stopped_intent :: "work_intent \<Rightarrow> work_intent" where
  "stopped_intent i = (if is_terminal (wi_state i) then i
     else i\<lparr>wi_state := Cancelled ''session_stopped''\<rparr>)"

definition stopped_slot :: "slot_state \<Rightarrow> slot_state" where
  "stopped_slot slot = (clear_queues slot)\<lparr>ss_active := None, ss_runtime_constraint := RcSessionStopped\<rparr>"

lemma stopped_simps [simp]:
  "queue (stopped_slot slot) p = []" "ss_active (stopped_slot slot) = None"
  "ss_runtime_constraint (stopped_slot slot) = RcSessionStopped"
  "is_terminal (wi_state (stopped_intent i))" "wi_intent_id (stopped_intent i) = wi_intent_id i"
  "wi_team_run_id (stopped_intent i) = wi_team_run_id i"
  by (simp_all add: stopped_slot_def stopped_intent_def)

lemma stop_work_state:
  "sc_state (snd (stop_work now s)) = (sc_state s)\<lparr>
     cs_intents := map (\<lambda>(k, i). (k, stopped_intent i)) (cs_intents (sc_state s)),
     cs_slots := map (\<lambda>(k, slot). (k, stopped_slot slot)) (cs_slots (sc_state s)),
     cs_enqueue_leases := []\<rparr>"
  by (simp add: stop_work_def Let_def stopped_intent_def stopped_slot_def)

lemma stop_work_inv:
  assumes inv: "state_inv (sc_state s)"
  shows "state_inv (sc_state (snd (stop_work now s)))"
proof -
  note i = state_invD [OF inv]
  have "work_inv (\<lambda>k. map_option stopped_intent (map_of (cs_intents (sc_state s)) k))
      (\<lambda>k. map_option stopped_slot (map_of (cs_slots (sc_state s)) k))"
    using work_invD(1) [OF i(5)] by (auto simp: work_inv_def slot_ok_def)
  then show ?thesis
    using i(1,2) by (simp add: state_inv_def stop_work_state table_simps leases_ok_def)
qed

section \<open>Cancelling a run\<close>

definition cancelled_slot ::
  "id \<Rightarrow> (id \<rightharpoonup> work_intent) \<Rightarrow> work_batch \<Rightarrow> slot_state \<Rightarrow> slot_state" where
  "cancelled_slot rid I batch slot =
     fold (\<lambda>(p, i). queue_mut p (\<lambda>q. i # q))
       (rev (map (\<lambda>k. (prio_of I k, k)) (filter (\<lambda>k. run_of I k \<noteq> Some rid) (wb_intent_ids batch))))
       (slot\<lparr>ss_active := None\<rparr>)"

lemma cancelled_slot_work [simp]:
  "queue (cancelled_slot rid I batch slot) p =
     filter (\<lambda>k. run_of I k \<noteq> Some rid \<and> prio_of I k = p) (wb_intent_ids batch) @ queue slot p"
  "ss_active (cancelled_slot rid I batch slot) = None"
  by (auto simp: cancelled_slot_def filter_map comp_def rev_map rev_filter intro!: filter_cong)

lemma cancelled_slot_inv:
  assumes inv: "state_inv st" and slot: "map_of (cs_slots st) sid = Some slot"
    and a: "ss_active slot = Some a"
  shows "state_inv (st\<lparr>
      cs_intents := modify_all (restate (cancel_state rid)) (wb_intent_ids (ab_batch a)) (cs_intents st),
      cs_slots := AList.update sid
        (cancelled_slot rid (map_of (cs_intents st)) (ab_batch a) slot) (cs_slots st)\<rparr>)"
proof (rule state_inv_restate [OF inv])
  let ?I = "map_of (cs_intents st)" and ?ks = "wb_intent_ids (ab_batch a)"
  let ?slot = "cancelled_slot rid ?I (ab_batch a) slot"
  have ok: "slot_ok ?I sid slot" using work_invD(2) [OF state_invD(5) [OF inv] slot] .
  note b = slot_ok_batchD [OF ok a]
  show "slot_ok (restate_on (cancel_state rid) (set ?ks) ?I) sid ?slot"
  proof (rule slot_ok_restateI)
    show "distinct (queue ?slot p)" for p
      using slot_ok_distinctD [OF ok, of p] slot_ok_disjoint [OF ok a, of _ p] b
      by (auto simp: batch_ok_def)
    show "\<exists>i. ?I k = Some i \<and> wi_slot_id i = sid \<and> wi_priority i = p
        \<and> (if k \<in> set ?ks then cancel_state rid (wi_team_run_id i) else wi_state i) = Queued"
      if q: "k \<in> set (queue ?slot p)" for p k
    proof (cases "k \<in> set ?ks")
      case True
      from active_present [OF ok a True] obtain i where "?I k = Some i" "wi_slot_id i = sid"
        by blast
      with True q slot_ok_disjoint [OF ok a, of k p] show ?thesis by (auto simp: cancel_state_def)
    next
      case False
      with q queue_present [OF ok, of k p] show ?thesis by auto
    qed
  qed simp
  show "wi_slot_id i = sid" if "k \<in> set ?ks" "?I k = Some i" for k i
    using active_present [OF ok a that(1)] that(2) by auto
  show "holds ?slot k" if k: "?I k = Some i" "wi_slot_id i = sid"
    "\<not> is_terminal (if k \<in> set ?ks then cancel_state rid (wi_team_run_id i) else wi_state i)" for k i
  proof (cases "k \<in> set ?ks")
    case True
    with k show ?thesis by (auto simp: holds_iff cancel_state_def split: if_splits)
  next
    case False
    with k slot_own [OF state_invD(5) [OF inv] slot] have "holds slot k" by simp
    with False a show ?thesis by (auto simp: holds_iff)
  qed
qed simp_all

definition batch_ids :: "(id \<times> active_batch) list \<Rightarrow> id set" where
  "batch_ids acts = (\<Union>(sid, a) \<in> set acts. set (wb_intent_ids (ab_batch a)))"

definition active_in :: "coordinator_state \<Rightarrow> id \<times> active_batch \<Rightarrow> bool" where
  "active_in st x \<longleftrightarrow> (\<exists>slot. map_of (cs_slots st) (fst x) = Some slot \<and> ss_active slot = Some (snd x))"

lemma messages_of_restate_on [simp]: "messages_of (restate_on g K I) = messages_of I"
  by (auto simp: messages_of_def message_of_def restate_on_def fun_eq_iff map_option_case
      intro!: arg_cong [where f = concat] split: option.splits)

lemma restate_on_restate_on [simp]: "restate_on g K (restate_on g L I) = restate_on g (K \<union> L) I"
  by (auto simp: restate_on_def fun_eq_iff option.map_comp comp_def)

lemma prio_of_restate_on [simp]: "prio_of (restate_on g K I) = prio_of I"
  by (auto simp: prio_of_def restate_on_def fun_eq_iff split: option.splits)

lemma cancelled_slot_restate [simp]: "cancelled_slot rid (restate_on g K I) = cancelled_slot rid I"
  by (simp add: cancelled_slot_def fun_eq_iff)

lemma cancel_active_slots_spec:
  assumes "state_inv st" "distinct (map fst acts)" "list_all (active_in st) acts"
  shows "\<exists>st'. cancel_active_slots rid acts st =
      Some (map (\<lambda>(sid, a). \<lparr>bt_batch = ab_batch a, bt_turn_id = ab_turn_id a\<rparr>) acts,
            concat (map (\<lambda>(sid, a). messages_of (map_of (cs_intents st))
              (filter (\<lambda>k. run_of (map_of (cs_intents st)) k = Some rid) (wb_intent_ids (ab_batch a)))) acts),
            st')
    \<and> state_inv st' \<and> cs_enqueue_leases st' = cs_enqueue_leases st
    \<and> map_of (cs_intents st') = restate_on (cancel_state rid) (batch_ids acts) (map_of (cs_intents st))
    \<and> (\<forall>sid. map_of (cs_slots st') sid =
         (case map_of acts sid of None \<Rightarrow> map_of (cs_slots st) sid
          | Some a \<Rightarrow> map_option (cancelled_slot rid (map_of (cs_intents st)) (ab_batch a)) (map_of (cs_slots st) sid)))"
  using assms
proof (induction acts arbitrary: st)
  case Nil
  then show ?case by (simp add: batch_ids_def)
next
  case (Cons x acts)
  obtain sid a where x: "x = (sid, a)" by fastforce
  from Cons.prems(3) obtain slot where slot: "map_of (cs_slots st) sid = Some slot" "ss_active slot = Some a"
    by (auto simp: active_in_def x)
  let ?I = "map_of (cs_intents st)" and ?ks = "wb_intent_ids (ab_batch a)"
  define st1 where "st1 = st\<lparr>cs_intents := modify_all (restate (cancel_state rid)) ?ks (cs_intents st),
      cs_slots := AList.update sid (cancelled_slot rid ?I (ab_batch a) slot) (cs_slots st)\<rparr>"
  let ?I1 = "restate_on (cancel_state rid) (set ?ks) ?I"
  have I1: "map_of (cs_intents st1) = ?I1"
    by (simp add: st1_def loop_simps)
  have "state_inv st1" unfolding st1_def by (rule cancelled_slot_inv [OF Cons.prems(1) slot])
  moreover have "list_all (active_in st1) acts"
    using Cons.prems(2,3) by (auto simp: list_all_iff active_in_def st1_def table_simps x rev_image_eqI)
  ultimately obtain st' where IH: "cancel_active_slots rid acts st1 =
      Some (map (\<lambda>(sid, a). \<lparr>bt_batch = ab_batch a, bt_turn_id = ab_turn_id a\<rparr>) acts,
            concat (map (\<lambda>(sid, a). messages_of ?I
              (filter (\<lambda>k. run_of ?I k = Some rid) (wb_intent_ids (ab_batch a)))) acts), st')"
    "state_inv st'" "cs_enqueue_leases st' = cs_enqueue_leases st1"
    "map_of (cs_intents st') = restate_on (cancel_state rid) (batch_ids acts) ?I1"
    "\<forall>sid. map_of (cs_slots st') sid =
       (case map_of acts sid of None \<Rightarrow> map_of (cs_slots st1) sid
        | Some a \<Rightarrow> map_option (cancelled_slot rid ?I (ab_batch a)) (map_of (cs_slots st1) sid))"
    using Cons.IH [of st1, unfolded I1 run_of_restate_on messages_of_restate_on cancelled_slot_restate]
      Cons.prems(2) by auto
  have "set ?ks \<subseteq> dom ?I"
    using active_present [OF work_invD(2) [OF state_invD(5) [OF Cons.prems(1)] slot(1)] slot(2)] by fastforce
  then have "cancel_active_slots rid (x # acts) st = Some
      (map (\<lambda>(sid, a). \<lparr>bt_batch = ab_batch a, bt_turn_id = ab_turn_id a\<rparr>) (x # acts),
       concat (map (\<lambda>(sid, a). messages_of ?I
              (filter (\<lambda>k. run_of ?I k = Some rid) (wb_intent_ids (ab_batch a)))) (x # acts)), st')"
    using IH(1) slot by (simp add: x cancel_batch_intents_eq Let_def st1_def cancelled_slot_def)
  moreover have none: "map_of acts sid = None" using Cons.prems(2) by (simp add: x map_of_eq_None_iff)
  moreover have "map_of (cs_slots st') t =
      (case map_of (x # acts) t of None \<Rightarrow> map_of (cs_slots st) t
       | Some a \<Rightarrow> map_option (cancelled_slot rid ?I (ab_batch a)) (map_of (cs_slots st) t))" for t
    using IH(5) none slot by (cases "t = sid") (auto simp: x st1_def table_simps split: option.splits)
  moreover have "map_of (cs_intents st') = restate_on (cancel_state rid) (batch_ids (x # acts)) ?I"
    using IH(4) by (simp add: x batch_ids_def Un_commute)
  moreover have "cs_enqueue_leases st' = cs_enqueue_leases st" using IH(3) by (simp add: st1_def)
  ultimately show ?case using IH(2) by blast
qed

lemma cancel_queued_intents_spec:
  assumes "state_inv st" "distinct ks"
    "\<forall>k \<in> set ks. \<exists>i. map_of (cs_intents st) k = Some i \<and> wi_state i = Queued"
  shows "\<exists>st'. cancel_queued_intents ks st = Some (messages_of (map_of (cs_intents st)) ks, st')
    \<and> state_inv st' \<and> cs_enqueue_leases st' = cs_enqueue_leases st
    \<and> map_of (cs_intents st') =
        restate_on (\<lambda>_. Cancelled ''run_cancelled'') (set ks) (map_of (cs_intents st))
    \<and> (\<forall>sid. map_of (cs_slots st') sid =
         map_option (\<lambda>slot. fold remove_queued
           (filter (\<lambda>k. \<exists>i. map_of (cs_intents st) k = Some i \<and> wi_slot_id i = sid) ks) slot)
           (map_of (cs_slots st) sid))"
  using assms
proof (induction ks arbitrary: st)
  case Nil
  then show ?case by (simp add: option.map_ident)
next
  case (Cons c ks)
  let ?I = "map_of (cs_intents st)" and ?g = "\<lambda>_. Cancelled ''run_cancelled''"
  note inv = state_invD [OF Cons.prems(1)]
  from Cons.prems(3) obtain i where i: "?I c = Some i" "wi_state i = Queued" by auto
  then obtain slot where slot: "map_of (cs_slots st) (wi_slot_id i) = Some slot" "holds slot c"
    using work_invD(3) [OF inv(5) i(1)] by auto
  have ok: "slot_ok ?I (wi_slot_id i) slot" using work_invD(2) [OF inv(5) slot(1)] .
  have c: "c \<in> set (queued_ids slot)"
    using holds_queued [OF ok slot(2) i] by (auto simp: set_queued_ids)
  define st1 where "st1 = st\<lparr>
      cs_intents := AList.map_entry c (\<lambda>i. i\<lparr>wi_state := Cancelled ''run_cancelled''\<rparr>) (cs_intents st),
      cs_slots := AList.map_entry (wi_slot_id i) (remove_queued c) (cs_slots st)\<rparr>"
  have intents1: "cs_intents st1 = modify_all (restate ?g) [c] (cs_intents st)"
    by (simp add: st1_def modify_all_Cons map_entry_restate [OF i(1), where g = ?g])
  then have I1: "map_of (cs_intents st1) = restate_on ?g {c} ?I" by (simp add: loop_simps)
  have "state_inv st1"
  proof (rule state_inv_restate [OF Cons.prems(1) intents1])
    show "cs_slots st1 = AList.update (wi_slot_id i) (remove_queued c slot) (cs_slots st)"
      using slot(1) by (simp add: st1_def map_entry_present)
    show "slot_ok (restate_on ?g (set [c]) ?I) (wi_slot_id i) (remove_queued c slot)"
      by (rule slot_ok_drop_queued [OF ok]) (use c in auto)
    show "holds (remove_queued c slot) k"
      if "?I k = Some j" "wi_slot_id j = wi_slot_id i"
        "\<not> is_terminal (if k \<in> set [c] then Cancelled ''run_cancelled'' else wi_state j)" for k j
    proof -
      have "holds slot k" "k \<notin> set [c]"
        using that slot_own [OF inv(5) slot(1)] by (simp_all split: if_splits)
      then show ?thesis by (rule holds_drop_queued) simp_all
    qed
  qed (use i in \<open>auto simp: st1_def\<close>)
  moreover have "\<forall>k \<in> set ks. \<exists>i. map_of (cs_intents st1) k = Some i \<and> wi_state i = Queued"
    using Cons.prems(2,3) by (auto simp: I1 restate_on_def)
  ultimately obtain st' where IH:
    "cancel_queued_intents ks st1 = Some (messages_of (map_of (cs_intents st1)) ks, st')"
    "state_inv st'" "cs_enqueue_leases st' = cs_enqueue_leases st1"
    "map_of (cs_intents st') = restate_on ?g (set ks) (map_of (cs_intents st1))"
    "\<forall>sid. map_of (cs_slots st') sid = map_option (\<lambda>slot. fold remove_queued
       (filter (\<lambda>k. \<exists>i. map_of (cs_intents st1) k = Some i \<and> wi_slot_id i = sid) ks) slot)
         (map_of (cs_slots st1) sid)"
    using Cons.IH [of st1] Cons.prems(2) by auto
  have "cancel_queued_intents (c # ks) st = Some (messages_of ?I (c # ks), st')"
    using IH(1) i(1) unfolding I1 messages_of_restate_on by (simp add: st1_def)
  moreover have "filter (\<lambda>k. \<exists>i. map_of (cs_intents st1) k = Some i \<and> wi_slot_id i = sid) ks =
      filter (\<lambda>k. \<exists>i. ?I k = Some i \<and> wi_slot_id i = sid) ks" for sid
    by (rule filter_cong) (auto simp: I1 restate_on_def)
  with IH(5) i(1) have "map_of (cs_slots st') sid = map_option (\<lambda>slot. fold remove_queued
      (filter (\<lambda>k. \<exists>i. ?I k = Some i \<and> wi_slot_id i = sid) (c # ks)) slot) (map_of (cs_slots st) sid)" for sid
    by (cases "map_of (cs_slots st) sid") (auto simp: st1_def table_simps)
  moreover have "map_of (cs_intents st') = restate_on ?g (set (c # ks)) ?I"
    using IH(4) by (simp add: I1)
  moreover have "cs_enqueue_leases st' = cs_enqueue_leases st" using IH(3) by (simp add: st1_def)
  ultimately show ?case using IH(2) by blast
qed

definition affected_batch :: "id \<Rightarrow> coordinator_state \<Rightarrow> id \<Rightarrow> bool" where
  "affected_batch rid st k \<longleftrightarrow>
     (\<exists>sid slot a. map_of (cs_slots st) sid = Some slot \<and> ss_active slot = Some a
        \<and> k \<in> set (wb_intent_ids (ab_batch a))
        \<and> (\<exists>j \<in> set (wb_intent_ids (ab_batch a)). run_of (map_of (cs_intents st)) j = Some rid))"

definition cancelled_intent :: "id \<Rightarrow> coordinator_state \<Rightarrow> id \<Rightarrow> work_intent \<Rightarrow> work_intent" where
  "cancelled_intent rid st k i =
     (if wi_team_run_id i = Some rid \<and> \<not> is_terminal (wi_state i)
      then i\<lparr>wi_state := Cancelled ''run_cancelled''\<rparr>
      else if affected_batch rid st k then i\<lparr>wi_state := Queued\<rparr> else i)"

lemma run_active_slots_spec:
  assumes "state_inv st"
  shows "distinct (map fst (run_active_slots rid st))" "list_all (active_in st) (run_active_slots rid st)"
    "k \<in> batch_ids (run_active_slots rid st) \<longleftrightarrow> affected_batch rid st k"
proof -
  define f where "f = (\<lambda>sid. case Option.bind (map_of (cs_slots st) sid) ss_active of None \<Rightarrow> None
       | Some active \<Rightarrow> if list_ex (\<lambda>i. Option.bind (map_of (cs_intents st) i) wi_team_run_id = Some rid)
           (wb_intent_ids (ab_batch active)) then Some (sid, active) else None)"
  have runs: "run_active_slots rid st = List.map_filter f (btree_keys (cs_slots st))"
    by (simp add: run_active_slots_def f_def)
  have f: "f sid = Some (t, a) \<longleftrightarrow> t = sid \<and> active_in st (sid, a)
      \<and> (\<exists>j \<in> set (wb_intent_ids (ab_batch a)). run_of (map_of (cs_intents st)) j = Some rid)" for sid t a
    by (auto simp: f_def active_in_def run_of_def list_ex_iff split: option.splits bind_splits)
  show "distinct (map fst (run_active_slots rid st))"
    unfolding runs by (rule distinct_map_filter_fst) (use f state_invD(1) [OF assms] in auto)
  have mem: "(sid, a) \<in> set (run_active_slots rid st) \<longleftrightarrow> active_in st (sid, a)
      \<and> (\<exists>j \<in> set (wb_intent_ids (ab_batch a)). run_of (map_of (cs_intents st)) j = Some rid)" for sid a
  proof -
    have "(sid, a) \<in> set (run_active_slots rid st) \<longleftrightarrow> (\<exists>t \<in> fst ` set (cs_slots st). f t = Some (sid, a))"
      by (simp add: runs set_map_filter)
    also have "\<dots> \<longleftrightarrow> sid \<in> fst ` set (cs_slots st) \<and> f sid = Some (sid, a)"
      by (auto simp: f)
    also have "\<dots> \<longleftrightarrow> f sid = Some (sid, a)"
      unfolding f active_in_def fst_conv by (metis domI dom_map_of_conv_image_fst)
    finally show ?thesis by (simp add: f)
  qed
  show "list_all (active_in st) (run_active_slots rid st)" using mem by (auto simp: list_all_iff)
  show "k \<in> batch_ids (run_active_slots rid st) \<longleftrightarrow> affected_batch rid st k"
    by (auto simp: batch_ids_def affected_batch_def active_in_def mem) (use mem active_in_def in fastforce)+
qed

lemma run_open_cases:
  assumes inv: "state_inv st" and i: "map_of (cs_intents st) k = Some i"
    and run: "wi_team_run_id i = Some rid" and "\<not> is_terminal (wi_state i)"
  shows "wi_state i = Queued \<or> affected_batch rid st k"
proof -
  from work_invD(3) [OF state_invD(5) [OF inv] i assms(4)] obtain slot where
    slot: "map_of (cs_slots st) (wi_slot_id i) = Some slot" "holds slot k" by blast
  note ok = work_invD(2) [OF state_invD(5) [OF inv] slot(1)]
  from slot(2) consider p where "k \<in> set (queue slot p)" | "k \<in> set (active_ids slot)"
    by (auto simp: holds_iff)
  then show ?thesis
  proof cases
    case 1
    with queue_present [OF ok, of k p] i show ?thesis by auto
  next
    case 2
    then obtain a where "ss_active slot = Some a" "k \<in> set (wb_intent_ids (ab_batch a))"
      by (cases "ss_active slot") auto
    moreover have "run_of (map_of (cs_intents st)) k = Some rid" using i run by simp
    ultimately show ?thesis using slot(1) unfolding affected_batch_def by blast
  qed
qed

lemma affected_open:
  assumes inv: "state_inv st" and i: "map_of (cs_intents st) k = Some i" and "affected_batch rid st k"
  shows "\<not> is_terminal (wi_state i)"
proof -
  from assms(3) obtain sid slot a where a: "map_of (cs_slots st) sid = Some slot"
    "ss_active slot = Some a" "k \<in> set (wb_intent_ids (ab_batch a))"
    by (auto simp: affected_batch_def)
  from active_present [OF work_invD(2) [OF state_invD(5) [OF inv] a(1)] a(2,3)] i
  show ?thesis by auto
qed

lemma cancel_run_spec:
  assumes inv: "state_inv (sc_state s)" and ord: "iter_order ord"
  shows "\<exists>r s'. cancel_run now ord rid s = Some (r, s') \<and> state_inv (sc_state s')
    \<and> (\<forall>k. map_of (cs_intents (sc_state s')) k =
         map_option (cancelled_intent rid (sc_state s) k) (map_of (cs_intents (sc_state s)) k))
    \<and> (\<forall>k. map_of (cs_enqueue_leases (sc_state s')) k =
         (case map_of (cs_enqueue_leases (sc_state s)) k of None \<Rightarrow> None
          | Some l \<Rightarrow> if el_team_run_id (lr_lease l) = Some rid then None else Some l))
    \<and> (\<forall>t slot' a. map_of (cs_slots (sc_state s')) t = Some slot' \<longrightarrow> ss_active slot' = Some a \<longrightarrow>
         (\<exists>slot. map_of (cs_slots (sc_state s)) t = Some slot \<and> ss_active slot = Some a))
    \<and> cw_summary r = run_summary_locked (sc_state s') rid
    \<and> s' = publish_run_summaries now [cw_summary r] (s\<lparr>sc_state := sc_state s'\<rparr>)"
proof -
  let ?st = "sc_state s" and ?I = "map_of (cs_intents (sc_state s))"
  note acts = run_active_slots_spec [OF inv, where rid = rid]
  from cancel_active_slots_spec [OF inv acts(1,2), of rid] obtain targets mids st1 where st1:
    "cancel_active_slots rid (run_active_slots rid ?st) ?st = Some (targets, mids, st1)" "state_inv st1"
    "cs_enqueue_leases st1 = cs_enqueue_leases ?st"
    "map_of (cs_intents st1) = restate_on (cancel_state rid) (batch_ids (run_active_slots rid ?st)) ?I"
    "\<forall>sid. map_of (cs_slots st1) sid = (case map_of (run_active_slots rid ?st) sid of
       None \<Rightarrow> map_of (cs_slots ?st) sid
     | Some a \<Rightarrow> map_option (cancelled_slot rid ?I (ab_batch a)) (map_of (cs_slots ?st) sid))"
    by blast
  define ks where "ks = ord (run_queued_ids rid st1)"
  have ks: "set ks = {k. \<exists>i. map_of (cs_intents st1) k = Some i \<and> wi_team_run_id i = Some rid
      \<and> wi_state i = Queued}" "distinct ks"
    using run_queued_ids_spec [OF st1(2)] iter_orderD [OF ord] by (simp_all add: ks_def)
  then have "\<forall>k \<in> set ks. \<exists>i. map_of (cs_intents st1) k = Some i \<and> wi_state i = Queued" by auto
  from cancel_queued_intents_spec [OF st1(2) ks(2) this] obtain mids' st2 where st2:
    "cancel_queued_intents ks st1 = Some (mids', st2)" "state_inv st2"
    "cs_enqueue_leases st2 = cs_enqueue_leases st1"
    "map_of (cs_intents st2) = restate_on (\<lambda>_. Cancelled ''run_cancelled'') (set ks) (map_of (cs_intents st1))"
    "\<forall>sid. map_of (cs_slots st2) sid = map_option (\<lambda>slot. fold remove_queued
       (filter (\<lambda>k. \<exists>i. map_of (cs_intents st1) k = Some i \<and> wi_slot_id i = sid) ks) slot)
       (map_of (cs_slots st1) sid)"
    by blast
  let ?lids = "map (\<lambda>r. el_lease_id (lr_lease r)) (run_leases st2 rid)"
  define st3 where "st3 = st2\<lparr>cs_enqueue_leases := fold AList.delete ?lids (cs_enqueue_leases st2)\<rparr>"
  note inv2 = state_invD [OF st2(2)]
  have lids: "k \<in> set ?lids \<longleftrightarrow> (\<exists>l. map_of (cs_enqueue_leases st2) k = Some l
      \<and> el_team_run_id (lr_lease l) = Some rid)" for k
    using inv2(3,4) in_table_iff [OF inv2(3)]
    by (fastforce simp: run_leases_def leases_ok_def image_iff)
  have "leases_ok (map_of (cs_enqueue_leases st3)) (map_of (cs_slots st3))"
    using inv2(4) by (rule leases_ok_mono) (auto simp: st3_def loop_simps split: if_splits)
  then have inv3: "state_inv st3" using inv2 by (simp add: state_inv_def st3_def)
  have "map_of (cs_intents st3) k = map_option (cancelled_intent rid ?st k) (?I k)" for k
  proof (cases "?I k")
    case (Some i)
    note open_state = run_open_cases [OF inv Some, of rid] and affected_open = affected_open [OF inv Some]
    have "k \<in> set ks \<longleftrightarrow> wi_team_run_id i = Some rid \<and> \<not> affected_batch rid ?st k \<and> wi_state i = Queued"
      using Some acts(3) [of k] by (auto simp: ks(1) st1(4) restate_on_def cancel_state_def)
    then show ?thesis
      using Some acts(3) [of k] open_state affected_open
      by (auto simp: st3_def st2(4) st1(4) restate_on_def cancelled_intent_def cancel_state_def restate_def)
  qed (simp add: st3_def st2(4) st1(4) restate_on_def)
  moreover have "map_of (cs_enqueue_leases st3) k = (case map_of (cs_enqueue_leases ?st) k of None \<Rightarrow> None
      | Some l \<Rightarrow> if el_team_run_id (lr_lease l) = Some rid then None else Some l)" for k
    using lids [of k] by (auto simp: st3_def loop_simps st2(3) st1(3) split: option.splits)
  moreover have "\<exists>slot. map_of (cs_slots ?st) t = Some slot \<and> ss_active slot = Some a"
    if "map_of (cs_slots st3) t = Some slot'" "ss_active slot' = Some a" for t slot' a
    using that by (auto simp: st3_def st2(5) st1(5) split: option.splits)
  moreover have "cancel_run now ord rid s = Some (\<lparr>cw_cancel_targets = targets,
      cw_terminal_message_ids = mids @ mids', cw_summary = run_summary_locked st3 rid\<rparr>,
      publish_run_summaries now [run_summary_locked st3 rid] (s\<lparr>sc_state := st3\<rparr>))"
    by (simp add: cancel_run_def st1(1) st2(1) [unfolded ks_def] Let_def st3_def)
  ultimately show ?thesis using inv3
    by (intro exI [of _ "\<lparr>cw_cancel_targets = targets, cw_terminal_message_ids = mids @ mids',
        cw_summary = run_summary_locked st3 rid\<rparr>"]
      exI [of _ "publish_run_summaries now [run_summary_locked st3 rid] (s\<lparr>sc_state := st3\<rparr>)"]) simp
qed

end
