(* ===== verification/WorkReach.thy ===== *)
theory WorkReach
  imports WorkCancel
begin

text \<open>
  The coordinator as a state machine. A step is one call of a public operation under its
  mutex; the environment supplies fresh identifiers (\<open>generate_id\<close> never repeats one), a
  \<open>HashMap\<close> iteration order that is a permutation, and, as the owner of a batch, only
  batches that \<open>next\<close> has returned. The list \<open>B\<close> of batches issued so far is ghost state.
  Between two calls the owner of the causality port may change its state by a \<open>side\<close> step.
\<close>

section \<open>Operations as data\<close>

datatype work_op =
    Acquire id id enqueue_request
  | Commit timestamp_ms id enqueue_lease "id option"
  | Abort timestamp_ms enqueue_lease
  | Reconcile timestamp_ms "nat \<Rightarrow> id" id "id list" target_role
  | Next timestamp_ms id id
  | MarkStarted timestamp_ms work_batch id
  | RetryStart timestamp_ms work_batch
  | CompleteBatch timestamp_ms work_batch
  | FailBatch timestamp_ms work_batch string
  | CancelBatch timestamp_ms work_batch string
  | CancelRun timestamp_ms "id list \<Rightarrow> id list" id
  | CompleteSignals timestamp_ms id "id list"
  | Pause id
  | SetConstraint timestamp_ms "id list \<Rightarrow> id list" id runtime_constraint
  | Remove timestamp_ms id
  | Stop timestamp_ms

definition issued_by :: "reconcile_decision \<Rightarrow> work_batch list" where
  "issued_by d = (case d of Claim b \<Rightarrow> [b] | _ \<Rightarrow> [])"

fun exec_op :: "work_op \<Rightarrow> 'r slot_work_coordinator \<Rightarrow> (work_batch list \<times> 'r slot_work_coordinator) option" where
  "exec_op (Acquire lid rid req) s = Some ([], snd (acquire_enqueue lid rid req s))"
| "exec_op (Commit now iid lease msg) s = map_option (\<lambda>(_, s'). ([], s')) (commit_enqueue now iid lease msg s)"
| "exec_op (Abort now lease) s = Some ([], snd (abort_enqueue now lease s))"
| "exec_op (Reconcile now gen sid unread role) s =
     map_option (\<lambda>(_, s'). ([], s')) (reconcile_mailbox now gen sid unread role s)"
| "exec_op (Next now bid sid) s = map_option (\<lambda>(d, s'). (issued_by d, s')) (next_work now bid sid s)"
| "exec_op (MarkStarted now batch turn) s = Some ([], snd (mark_started now batch turn s))"
| "exec_op (RetryStart now batch) s = map_option (\<lambda>(_, s'). ([], s')) (retry_start now batch s)"
| "exec_op (CompleteBatch now batch) s = map_option (\<lambda>(_, s'). ([], s')) (complete_batch now batch s)"
| "exec_op (FailBatch now batch cls) s = map_option (\<lambda>(_, s'). ([], s')) (fail_batch now batch cls s)"
| "exec_op (CancelBatch now batch cls) s = map_option (\<lambda>(_, s'). ([], s')) (cancel_batch now batch cls s)"
| "exec_op (CancelRun now ord rid) s = map_option (\<lambda>(_, s'). ([], s')) (cancel_run now ord rid s)"
| "exec_op (CompleteSignals now sid ids) s = Some ([], snd (complete_signals now sid ids s))"
| "exec_op (Pause sid) s = map_option (\<lambda>(_, s'). ([], s')) (pause_slot sid s)"
| "exec_op (SetConstraint now ord sid c) s =
     map_option (\<lambda>(_, s'). ([], s')) (set_runtime_constraint now ord sid c s)"
| "exec_op (Remove now sid) s = map_option (\<lambda>(_, s'). ([], s')) (remove_slot now sid s)"
| "exec_op (Stop now) s = Some ([], snd (stop_work now s))"

fun op_guard :: "work_batch list \<Rightarrow> 'r slot_work_coordinator \<Rightarrow> work_op \<Rightarrow> bool" where
  "op_guard B s (Commit now iid lease msg) = (map_of (cs_intents (sc_state s)) iid = None)"
| "op_guard B s (Reconcile now gen sid unread role) = fresh_supply gen 0 (sc_state s)"
| "op_guard B s (Next now bid sid) = (bid \<notin> wb_batch_id ` set B)"
| "op_guard B s (MarkStarted now batch turn) = (batch \<in> set B)"
| "op_guard B s (RetryStart now batch) = (batch \<in> set B)"
| "op_guard B s (CompleteBatch now batch) = (batch \<in> set B)"
| "op_guard B s (FailBatch now batch cls) = (batch \<in> set B)"
| "op_guard B s (CancelBatch now batch cls) = (batch \<in> set B)"
| "op_guard B s (CancelRun now ord rid) = iter_order ord"
| "op_guard B s (SetConstraint now ord sid c) = iter_order ord"
| "op_guard B s _ = True"

inductive reachable ::
  "'r run_causality_port \<Rightarrow> ('r \<Rightarrow> 'r \<Rightarrow> bool) \<Rightarrow> id \<Rightarrow> id \<Rightarrow> 'r \<Rightarrow> work_batch list
     \<Rightarrow> 'r slot_work_coordinator \<Rightarrow> bool"
  for port side team generation r where
  start: "reachable port side team generation r [] (new_coordinator team generation port r)"
| step: "reachable port side team generation r B s \<Longrightarrow> op_guard B s op \<Longrightarrow>
    exec_op op s = Some (bs, s') \<Longrightarrow> reachable port side team generation r (bs @ B) s'"
| outside: "reachable port side team generation r B s \<Longrightarrow> side (sc_run_state s) r' \<Longrightarrow>
    reachable port side team generation r B (s\<lparr>sc_run_state := r'\<rparr>)"

section \<open>The lifecycle of an intent\<close>

fun life_step :: "work_intent_state \<Rightarrow> work_intent_state \<Rightarrow> bool" where
  "life_step a (Starting b op) = (a = Starting b op \<or> a = Queued)"
| "life_step a (Running b op t) = (a = Starting b op \<or> (\<exists>t'. a = Running b op t'))"
| "life_step a b = (a = b \<or> \<not> is_terminal a)"

definition evolves :: "(id \<rightharpoonup> work_intent) \<Rightarrow> (id \<rightharpoonup> work_intent) \<Rightarrow> bool" where
  "evolves I I' \<longleftrightarrow> (\<forall>k i. I k = Some i \<longrightarrow>
     (\<exists>ws. I' k = Some (i\<lparr>wi_state := ws\<rparr>) \<and> life_step (wi_state i) ws))"

lemma life_step_refl [simp, intro]: "life_step a a"
  by (cases a) auto

lemma life_step_terminal: "is_terminal a \<Longrightarrow> life_step a b \<Longrightarrow> b = a"
  by (cases b; cases a) auto

lemma life_step_open [simp]:
  "\<not> is_terminal a \<Longrightarrow> life_step a Queued" "\<not> is_terminal a \<Longrightarrow> is_terminal b \<Longrightarrow> life_step a b"
  by simp (cases b; simp)

lemma evolvesI:
  assumes "\<And>k i. I k = Some i \<Longrightarrow> \<exists>ws. I' k = Some (i\<lparr>wi_state := ws\<rparr>) \<and> life_step (wi_state i) ws"
  shows "evolves I I'"
  using assms by (simp add: evolves_def)

lemma evolves_same:
  assumes "\<And>k i. I k = Some i \<Longrightarrow> I' k = Some i"
  shows "evolves I I'"
proof (rule evolvesI)
  fix k i assume "I k = Some i"
  with assms show "\<exists>ws. I' k = Some (i\<lparr>wi_state := ws\<rparr>) \<and> life_step (wi_state i) ws"
    by (intro exI [of _ "wi_state i"]) simp
qed

lemma evolves_refl [simp, intro]: "evolves I I"
  by (rule evolves_same)

lemma evolves_insert: "I k = None \<Longrightarrow> evolves I (I(k \<mapsto> i))"
  by (rule evolves_same) auto

lemma evolves_restate:
  assumes "\<And>k i. k \<in> K \<Longrightarrow> I k = Some i \<Longrightarrow> life_step (wi_state i) (g (wi_team_run_id i))"
  shows "evolves I (restate_on g K I)"
proof (rule evolvesI)
  fix k i assume i: "I k = Some i"
  show "\<exists>ws. restate_on g K I k = Some (i\<lparr>wi_state := ws\<rparr>) \<and> life_step (wi_state i) ws"
    using assms [OF _ i] i
    by (intro exI [of _ "if k \<in> K then g (wi_team_run_id i) else wi_state i"])
      (simp add: restate_on_def restate_def)
qed

section \<open>What every step guarantees\<close>

definition active_of :: "coordinator_state \<Rightarrow> id \<Rightarrow> active_batch option" where
  "active_of st sid = Option.bind (map_of (cs_slots st) sid) ss_active"

definition active_batches :: "coordinator_state \<Rightarrow> work_batch set" where
  "active_batches st = {ab_batch a | a sid. active_of st sid = Some a}"

definition step_ok ::
  "work_batch list \<Rightarrow> 'r slot_work_coordinator \<Rightarrow> 'r slot_work_coordinator \<Rightarrow> bool" where
  "step_ok bs s s' \<longleftrightarrow>
     state_inv (sc_state s') \<and> evolves (map_of (cs_intents (sc_state s))) (map_of (cs_intents (sc_state s'))) \<and>
     active_batches (sc_state s') \<subseteq> active_batches (sc_state s) \<union> set bs \<and>
     sc_session_generation s' = sc_session_generation s \<and> sc_run_causality s' = sc_run_causality s"

lemma active_batches_subset:
  assumes "\<And>sid a. active_of st' sid = Some a \<Longrightarrow>
    (\<exists>a'. active_of st sid = Some a' \<and> ab_batch a' = ab_batch a) \<or> ab_batch a \<in> X"
  shows "active_batches st' \<subseteq> active_batches st \<union> X"
proof
  fix b assume "b \<in> active_batches st'"
  then obtain a sid where "active_of st' sid = Some a" "b = ab_batch a" by (auto simp: active_batches_def)
  with assms [of sid a] show "b \<in> active_batches st \<union> X" by (auto simp: active_batches_def) metis
qed

lemma active_of_update:
  "cs_slots st' = AList.update sid slot (cs_slots st) \<Longrightarrow>
     active_of st' t = (if t = sid then ss_active slot else active_of st t)"
  by (simp add: active_of_def table_simps)

lemma active_of_slot [simp]: "map_of (cs_slots st) sid = Some slot \<Longrightarrow> active_of st sid = ss_active slot"
  by (simp add: active_of_def)

lemma active_of_entry:
  "ss_active (entry_or sid (new_slot r) (cs_slots st)) = active_of st sid"
  by (auto simp: entry_or_def active_of_def split: option.splits)

lemma acquire_enqueue_ok:
  assumes "state_inv (sc_state s)"
  shows "step_ok [] s (snd (acquire_enqueue lid rid req s))"
  unfolding step_ok_def
proof (intro conjI)
  show "active_batches (sc_state (snd (acquire_enqueue lid rid req s))) \<subseteq> active_batches (sc_state s) \<union> set []"
    by (rule active_batches_subset)
      (simp add: active_of_update [OF acquire_enqueue_frame(1)] active_of_entry split: if_splits)
qed (simp_all add: acquire_enqueue_inv [OF assms])

lemma commit_enqueue_ok:
  assumes "state_inv (sc_state s)" "map_of (cs_intents (sc_state s)) iid = None"
  shows "\<exists>res s'. commit_enqueue now iid lease msg s = Some (res, s') \<and> step_ok [] s s'"
  using refl [of "commit_enqueue now iid lease msg s"]
proof (cases rule: commit_enqueue_cases)
  case (err e)
  with assms show ?thesis by (auto simp: step_ok_def)
next
  case (ok rcd slot c st1)
  have slots: "cs_slots st1 = AList.update (el_slot_id lease) (committed_slot iid lease msg slot) (cs_slots (sc_state s))"
    by (simp add: ok(7))
  have "active_batches st1 \<subseteq> active_batches (sc_state s) \<union> set []"
    using ok(5) by (intro active_batches_subset) (simp add: active_of_update [OF slots] split: if_splits)
  moreover have "state_inv st1" using commit_enqueue_inv [OF assms, of now lease msg] ok(8) by simp
  moreover have "evolves (map_of (cs_intents (sc_state s))) (map_of (cs_intents st1))"
    using evolves_insert [of "map_of (cs_intents (sc_state s))" iid] assms(2) by (simp add: ok(7) table_simps)
  ultimately show ?thesis using ok(8) by (simp add: step_ok_def)
qed

lemma abort_enqueue_ok:
  assumes "state_inv (sc_state s)"
  shows "step_ok [] s (snd (abort_enqueue now lease s))"
  using abort_enqueue_inv [OF assms]
  by (auto simp: step_ok_def active_batches_def active_of_def)

lemma reconcile_mailbox_ok:
  assumes "state_inv (sc_state s)" "fresh_supply gen 0 (sc_state s)"
  shows "\<exists>proj s'. reconcile_mailbox now gen sid unread role s = Some (proj, s') \<and> step_ok [] s s'"
proof -
  from reconcile_mailbox_spec [OF assms] obtain proj st' where
    r: "reconcile_mailbox now gen sid unread role s = Some (proj, s\<lparr>sc_state := st'\<rparr>)" "state_inv st'"
      "reconciled sid unread proj (sc_state s) st'" by blast
  have "evolves (map_of (cs_intents (sc_state s))) (map_of (cs_intents st'))"
  proof (rule evolvesI)
    fix k i assume i: "map_of (cs_intents (sc_state s)) k = Some i"
    let ?c = "k \<in> set (rp_cleared_stale_intent_ids proj)"
    from r(3) i have "map_of (cs_intents st') k = Some (i\<lparr>wi_state := if ?c then Completed else wi_state i\<rparr>)"
      "?c \<Longrightarrow> wi_state i = Queued"
      unfolding reconciled_def by (auto simp: restate_def)
    then show "\<exists>ws. map_of (cs_intents st') k = Some (i\<lparr>wi_state := ws\<rparr>) \<and> life_step (wi_state i) ws"
      by (intro exI [of _ "if ?c then Completed else wi_state i"]) auto
  qed
  moreover have "active_of st' t = active_of (sc_state s) t" for t
    using r(3) by (simp add: reconciled_def active_of_def)
  ultimately show ?thesis using r(1,2) by (simp add: step_ok_def active_batches_def)
qed

lemma next_work_ok:
  assumes "state_inv (sc_state s)"
  shows "\<exists>d s'. next_work now bid sid s = Some (d, s') \<and> step_ok (issued_by d) s s'
    \<and> (\<forall>b \<in> set (issued_by d). wb_batch_id b = bid \<and> wb_session_generation b = sc_session_generation s)"
  using assms refl [of "next_work now bid sid s"]
proof (cases rule: next_work_cases)
  case (same d)
  then have "issued_by d = []" by (cases d) (auto simp: issued_by_def)
  with same(1) assms show ?thesis by (auto simp: step_ok_def)
next
  case (claim batch slot st1)
  let ?I = "map_of (cs_intents (sc_state s))"
  have c: "cs_slots st1 = AList.update sid (claimed_slot batch slot) (cs_slots (sc_state s))"
    "map_of (cs_intents st1) = restate_on (\<lambda>_. claim_state batch) (set (wb_intent_ids batch)) ?I"
    "set (wb_intent_ids batch) \<subseteq> set (queue slot (wb_highest_priority batch))"
    "map_of (cs_slots (sc_state s)) sid = Some slot" "wb_session_generation batch = sc_session_generation s"
    using claim(3) by (auto simp: claims_def loop_simps)
  note ok = work_invD(2) [OF state_invD(5) [OF assms] c(4)]
  have "evolves ?I (map_of (cs_intents st1))"
    unfolding c(2) by (rule evolves_restate) (use queue_present [OF ok] c(3) in \<open>fastforce simp: claim_state_def\<close>)
  moreover have "active_batches st1 \<subseteq> active_batches (sc_state s) \<union> set [batch]"
    by (rule active_batches_subset) (auto simp: active_of_update [OF c(1)] split: if_splits)
  ultimately show ?thesis
    using claim(1,2) claims_inv [OF assms claim(3)] c(5) by (simp add: step_ok_def issued_by_def)
qed

text \<open>No operation touches the session generation or the port.\<close>

definition same_session :: "'r slot_work_coordinator \<Rightarrow> 'r slot_work_coordinator \<Rightarrow> bool" where
  "same_session s s' \<longleftrightarrow> sc_session_generation s' = sc_session_generation s
     \<and> sc_run_causality s' = sc_run_causality s \<and> sc_team_id s' = sc_team_id s"

lemma same_session_publish [simp]:
  "same_session s (publish_run_summaries now sums (s\<lparr>sc_state := st\<rparr>))" "same_session s s"
  "same_session s (s\<lparr>sc_state := st\<rparr>)"
  by (simp_all add: same_session_def publish_run_summaries_def)

lemma same_session_ops:
  "same_session s (snd (mark_started now batch turn s))"
  "retry_start now batch s = Some (r, s') \<Longrightarrow> same_session s s'"
  "terminalize_batch now batch ws s = Some (r, s') \<Longrightarrow> same_session s s'"
  "same_session s (snd (complete_signals now sid ids s))"
  "pause_slot sid s = Some (rp, s') \<Longrightarrow> same_session s s'"
  "set_runtime_constraint now ord sid c s = Some (rc, s') \<Longrightarrow> same_session s s'"
  "remove_slot now sid s = Some (rr, s') \<Longrightarrow> same_session s s'"
  "same_session s (snd (stop_work now s))"
  "cancel_run now ord rid s = Some (rx, s') \<Longrightarrow> same_session s s'"
  by (auto simp: mark_started_def retry_start_def terminalize_batch_def complete_signals_def
      pause_slot_def set_runtime_constraint_def remove_slot_def stop_work_def cancel_run_def Let_def
      split: if_splits option.splits prod.splits)

lemma step_okI:
  assumes "state_inv (sc_state s')" "same_session s s'"
    and "evolves (map_of (cs_intents (sc_state s))) (map_of (cs_intents (sc_state s')))"
    and "\<And>sid a. active_of (sc_state s') sid = Some a \<Longrightarrow>
      (\<exists>a'. active_of (sc_state s) sid = Some a' \<and> ab_batch a' = ab_batch a) \<or> ab_batch a \<in> set bs"
  shows "step_ok bs s s'"
  using assms(1-3) active_batches_subset [OF assms(4)] by (auto simp: step_ok_def same_session_def)

text \<open>Ending or advancing the active batch.\<close>

lemma batch_step_ok:
  assumes inv: "state_inv (sc_state s)" and inv': "state_inv (sc_state s')" and ss: "same_session s s'"
    and slot: "map_of (cs_slots (sc_state s)) (wb_slot_id batch) = Some slot"
    and a: "ss_active slot = Some a" "ab_batch a = batch"
    and st': "cs_intents (sc_state s') = set_intent_states ws (wb_intent_ids batch) (cs_intents (sc_state s))"
      "cs_slots (sc_state s') = AList.update (wb_slot_id batch) slot' (cs_slots (sc_state s))"
    and act: "\<And>a'. ss_active slot' = Some a' \<Longrightarrow> ab_batch a' = batch"
    and ws: "ws = Queued \<or> is_terminal ws \<or> (\<exists>t. ws = Running (wb_batch_id batch) (wb_operation_id batch) t)"
  shows "step_ok [] s s'"
proof (rule step_okI [OF inv' ss])
  let ?I = "map_of (cs_intents (sc_state s))"
  note ok = work_invD(2) [OF state_invD(5) [OF inv] slot]
  have life: "life_step (batch_state a) ws"
    using ws a(2) by (auto simp: batch_state_def split: option.splits)
  have "evolves ?I (restate_on (\<lambda>_. ws) (set (wb_intent_ids batch)) ?I)"
    by (rule evolves_restate) (use active_present [OF ok a(1)] a(2) life in fastforce)
  then show "evolves ?I (map_of (cs_intents (sc_state s')))"
    by (simp add: st' set_intent_states_restate loop_simps)
  show "(\<exists>a''. active_of (sc_state s) sid = Some a'' \<and> ab_batch a'' = ab_batch a') \<or> ab_batch a' \<in> set []"
    if "active_of (sc_state s') sid = Some a'" for sid a'
    using that act slot a by (auto simp: active_of_update [OF st'(2)] split: if_splits)
qed

lemma mark_started_ok:
  assumes inv: "state_inv (sc_state s)" and gen: "genuine s batch"
  shows "step_ok [] s (snd (mark_started now batch turn s))"
proof (cases "is_current_batch s batch")
  case False
  with inv show ?thesis by (simp add: mark_started_stale step_ok_def)
next
  case True
  from current_batchE [OF True gen] obtain slot a where
    slot: "map_of (cs_slots (sc_state s)) (wb_slot_id batch) = Some slot" "ss_active slot = Some a"
      "ab_batch a = batch" by auto
  show ?thesis
    by (rule batch_step_ok [OF inv mark_started_inv [OF inv gen] same_session_ops(1) slot])
      (use slot mark_started_current(1) [OF True slot(1)] in \<open>auto simp: started_slot_def\<close>)
qed

lemma retry_start_ok:
  assumes inv: "state_inv (sc_state s)" and gen: "genuine s batch"
  shows "\<exists>r s'. retry_start now batch s = Some (r, s') \<and> step_ok [] s s'"
proof (cases "is_current_batch s batch")
  case False
  with inv show ?thesis by (simp add: retry_start_stale step_ok_def)
next
  case True
  from current_batchE [OF True gen] obtain slot a where
    slot: "map_of (cs_slots (sc_state s)) (wb_slot_id batch) = Some slot" "ss_active slot = Some a"
      "ab_batch a = batch" by auto
  from retry_start_inv [OF inv gen, of now] obtain r s' where
    s': "retry_start now batch s = Some (r, s')" "state_inv (sc_state s')" by auto
  have "step_ok [] s s'"
    by (rule batch_step_ok [OF inv s'(2) same_session_ops(2) [OF s'(1)] slot])
      (use retry_start_current [OF True slot(1), of now] s'(1) in auto)
  with s'(1) show ?thesis by blast
qed

lemma terminalize_batch_ok:
  assumes inv: "state_inv (sc_state s)" and gen: "genuine s batch" and ws: "is_terminal ws"
  shows "\<exists>r s'. terminalize_batch now batch ws s = Some (r, s') \<and> step_ok [] s s'"
proof (cases "is_current_batch s batch")
  case False
  with inv show ?thesis by (simp add: terminalize_batch_stale step_ok_def)
next
  case True
  from current_batchE [OF True gen] obtain slot a where
    slot: "map_of (cs_slots (sc_state s)) (wb_slot_id batch) = Some slot" "ss_active slot = Some a"
      "ab_batch a = batch" by auto
  from terminalize_batch_inv [OF inv gen ws, of now] obtain r s' where
    s': "terminalize_batch now batch ws s = Some (r, s')" "state_inv (sc_state s')" by auto
  have "step_ok [] s s'"
    by (rule batch_step_ok [OF inv s'(2) same_session_ops(3) [OF s'(1)] slot])
      (use terminalize_batch_current [OF True slot(1), of now ws] s'(1) ws in auto)
  with s'(1) show ?thesis by blast
qed

lemma complete_signals_ok:
  assumes inv: "state_inv (sc_state s)"
  shows "step_ok [] s (snd (complete_signals now sid ids s))"
proof (cases "fst (complete_signals now sid ids s) = Committed")
  case False
  with inv show ?thesis by (simp add: complete_signals_rejected step_ok_def)
next
  case True
  let ?I = "map_of (cs_intents (sc_state s))"
  show ?thesis
  proof (rule step_okI [OF complete_signals_inv [OF inv] same_session_ops(4)])
    have "evolves ?I (restate_on (\<lambda>_. Completed) (set ids) ?I)"
      by (rule evolves_restate) (use True complete_signals_committed [of now sid ids s] in
          \<open>force simp: settleable_def\<close>)
    then show "evolves ?I (map_of (cs_intents (sc_state (snd (complete_signals now sid ids s)))))"
      using True by (simp add: complete_signals_state set_intent_states_restate loop_simps)
    show "(\<exists>a'. active_of (sc_state s) t = Some a' \<and> ab_batch a' = ab_batch a) \<or> ab_batch a \<in> set []"
      if "active_of (sc_state (snd (complete_signals now sid ids s))) t = Some a" for t a
      using that True by (auto simp: active_of_def complete_signals_state table_simps bind_eq_Some_conv
          split: if_splits)
  qed
qed

lemma pause_slot_ok:
  assumes inv: "state_inv (sc_state s)"
  shows "\<exists>r s'. pause_slot sid s = Some (r, s') \<and> step_ok [] s s'"
proof -
  from pause_slot_inv [OF inv, of sid] obtain r s' where
    s': "pause_slot sid s = Some (r, s')" "state_inv (sc_state s')" by blast
  then have st': "cs_intents (sc_state s') = cs_intents (sc_state s)"
    "cs_slots (sc_state s') = AList.update sid
       ((entry_or sid (new_slot Teammate) (cs_slots (sc_state s)))\<lparr>ss_paused := True\<rparr>) (cs_slots (sc_state s))"
    by (auto simp: pause_slot_def Let_def split: option.splits)
  have "step_ok [] s s'"
    by (rule step_okI [OF s'(2) same_session_ops(5) [OF s'(1)]])
      (auto simp: st' active_of_update [OF st'(2)] active_of_entry split: if_splits)
  with s'(1) show ?thesis by blast
qed

lemma set_runtime_constraint_ok:
  assumes inv: "state_inv (sc_state s)" and ord: "iter_order ord"
  shows "\<exists>r s'. set_runtime_constraint now ord sid c s = Some (r, s') \<and> step_ok [] s s'"
proof (cases "constraint_classification c")
  case None
  from set_runtime_constraint_open [OF inv None, of now ord sid] obtain r s' where
    s': "set_runtime_constraint now ord sid c s = Some (r, s')" "state_inv (sc_state s')"
    and st': "sc_state s' = (sc_state s)\<lparr>cs_slots := AList.update sid
      ((entry_or sid (new_slot Teammate) (cs_slots (sc_state s)))\<lparr>ss_runtime_constraint := c\<rparr>)
      (cs_slots (sc_state s))\<rparr>" by blast
  have slots: "cs_slots (sc_state s') = AList.update sid
      ((entry_or sid (new_slot Teammate) (cs_slots (sc_state s)))\<lparr>ss_runtime_constraint := c\<rparr>)
      (cs_slots (sc_state s))" by (simp add: st')
  have "step_ok [] s s'"
  proof (rule step_okI [OF s'(2) same_session_ops(6) [OF s'(1)]])
    show "(\<exists>a'. active_of (sc_state s) t = Some a' \<and> ab_batch a' = ab_batch a) \<or> ab_batch a \<in> set []"
      if "active_of (sc_state s') t = Some a" for t a
      using that by (auto simp: active_of_update [OF slots] active_of_entry split: if_splits)
  qed (simp add: st')
  with s'(1) show ?thesis by blast
next
  case (Some cls)
  let ?ks = "ord (slot_open_ids sid (sc_state s))" and ?I = "map_of (cs_intents (sc_state s))"
  from set_runtime_constraint_ending [OF inv ord Some, of now sid] obtain r s' where
    s': "set_runtime_constraint now ord sid c s = Some (r, s')" "state_inv (sc_state s')"
    and st': "cs_intents (sc_state s') = modify_all (restate (constrained_state c cls)) ?ks (cs_intents (sc_state s))"
      "cs_slots (sc_state s') = AList.update sid (constrained_slot c ?I ?ks
         (entry_or sid (new_slot Teammate) (cs_slots (sc_state s)))) (cs_slots (sc_state s))" by auto
  have "step_ok [] s s'"
  proof (rule step_okI [OF s'(2) same_session_ops(6) [OF s'(1)]])
    show "evolves ?I (map_of (cs_intents (sc_state s')))"
      unfolding st' map_of_modify_restate
      by (rule evolves_restate)
        (auto simp: iter_orderD [OF ord] slot_open_ids_spec [OF inv] constrained_state_def)
    show "(\<exists>a'. active_of (sc_state s) t = Some a' \<and> ab_batch a' = ab_batch a) \<or> ab_batch a \<in> set []"
      if "active_of (sc_state s') t = Some a" for t a
      using that by (auto simp: active_of_update [OF st'(2)] split: if_splits)
  qed
  with s'(1) show ?thesis by blast
qed

lemma remove_slot_ok:
  assumes inv: "state_inv (sc_state s)"
  shows "\<exists>r s'. remove_slot now sid s = Some (r, s') \<and> step_ok [] s s'"
proof -
  let ?I = "map_of (cs_intents (sc_state s))"
  from remove_slot_spec [OF inv, of now sid] obtain r s' where
    s': "remove_slot now sid s = Some (r, s')" "state_inv (sc_state s')"
    and st': "cs_intents (sc_state s') = modify_all (restate (\<lambda>_. Cancelled ''slot_removed''))
        (removal_ids sid (sc_state s)) (cs_intents (sc_state s))"
      "cs_slots (sc_state s') = AList.map_entry sid removed_slot (cs_slots (sc_state s))" by auto
  have "step_ok [] s s'"
  proof (rule step_okI [OF s'(2) same_session_ops(7) [OF s'(1)]])
    show "evolves ?I (map_of (cs_intents (sc_state s')))"
      unfolding st' map_of_modify_restate
      by (rule evolves_restate) (auto simp: removal_ids_spec [OF inv])
    show "(\<exists>a'. active_of (sc_state s) t = Some a' \<and> ab_batch a' = ab_batch a) \<or> ab_batch a \<in> set []"
      if "active_of (sc_state s') t = Some a" for t a
      using that by (auto simp: active_of_def st' table_simps bind_eq_Some_conv split: if_splits)
  qed
  with s'(1) show ?thesis by blast
qed

lemma stop_work_ok:
  assumes inv: "state_inv (sc_state s)"
  shows "step_ok [] s (snd (stop_work now s))"
proof (rule step_okI [OF stop_work_inv [OF inv] same_session_ops(8)])
  show "evolves (map_of (cs_intents (sc_state s))) (map_of (cs_intents (sc_state (snd (stop_work now s)))))"
  proof (rule evolvesI)
    fix k i assume i: "map_of (cs_intents (sc_state s)) k = Some i"
    show "\<exists>ws. map_of (cs_intents (sc_state (snd (stop_work now s)))) k = Some (i\<lparr>wi_state := ws\<rparr>)
        \<and> life_step (wi_state i) ws"
      by (intro exI [of _ "wi_state (stopped_intent i)"])
        (simp add: stop_work_state table_simps i stopped_intent_def)
  qed
qed (auto simp: active_of_def stop_work_state table_simps bind_eq_Some_conv)

lemma cancel_run_ok:
  assumes inv: "state_inv (sc_state s)" and ord: "iter_order ord"
  shows "\<exists>r s'. cancel_run now ord rid s = Some (r, s') \<and> step_ok [] s s'"
proof -
  let ?I = "map_of (cs_intents (sc_state s))"
  from cancel_run_spec [OF inv ord, of now rid] obtain r s' where
    s': "cancel_run now ord rid s = Some (r, s')" "state_inv (sc_state s')"
    and I': "\<forall>k. map_of (cs_intents (sc_state s')) k = map_option (cancelled_intent rid (sc_state s) k) (?I k)"
    and act: "\<forall>t slot' a. map_of (cs_slots (sc_state s')) t = Some slot' \<longrightarrow> ss_active slot' = Some a \<longrightarrow>
         (\<exists>slot. map_of (cs_slots (sc_state s)) t = Some slot \<and> ss_active slot = Some a)" by blast
  have "step_ok [] s s'"
  proof (rule step_okI [OF s'(2) same_session_ops(9) [OF s'(1)]])
    show "evolves ?I (map_of (cs_intents (sc_state s')))"
    proof (rule evolvesI)
      fix k i assume i: "?I k = Some i"
      show "\<exists>ws. map_of (cs_intents (sc_state s')) k = Some (i\<lparr>wi_state := ws\<rparr>) \<and> life_step (wi_state i) ws"
        by (intro exI [of _ "wi_state (cancelled_intent rid (sc_state s) k i)"])
          (use I' i affected_open [OF inv i] in \<open>simp add: cancelled_intent_def\<close>)
    qed
    show "(\<exists>a'. active_of (sc_state s) t = Some a' \<and> ab_batch a' = ab_batch a) \<or> ab_batch a \<in> set []"
      if "active_of (sc_state s') t = Some a" for t a
    proof -
      have "active_of (sc_state s) t = Some a"
        using that act unfolding active_of_def bind_eq_Some_conv by blast
      then show ?thesis by blast
    qed
  qed
  with s'(1) show ?thesis by blast
qed

section \<open>Reachable states\<close>

definition issued_ok :: "work_batch list \<Rightarrow> 'r slot_work_coordinator \<Rightarrow> bool" where
  "issued_ok B s \<longleftrightarrow> inj_on wb_batch_id (set B) \<and> active_batches (sc_state s) \<subseteq> set B
     \<and> (\<forall>b \<in> set B. wb_session_generation b = sc_session_generation s)"

lemma issued_genuine:
  assumes "issued_ok B s" "batch \<in> set B"
  shows "genuine s batch"
  unfolding genuine_def
proof (intro allI impI)
  fix a assume a: "Option.bind (map_of (cs_slots (sc_state s)) (wb_slot_id batch)) ss_active = Some a"
    and cur: "is_current_batch s batch"
  then have "wb_batch_id (ab_batch a) = wb_batch_id batch" by (simp add: is_current_batch_def)
  moreover have "ab_batch a \<in> set B"
    using assms(1) a by (auto simp: issued_ok_def active_batches_def active_of_def)
  ultimately show "ab_batch a = batch" using assms by (auto simp: issued_ok_def dest: inj_onD)
qed

lemma issued_ok_quiet: "issued_ok B s \<Longrightarrow> step_ok [] s s' \<Longrightarrow> issued_ok B s'"
  by (auto simp: issued_ok_def step_ok_def)

lemma quiet_step:
  assumes "issued_ok B s" "exec_op op s = Some ([], s')" "step_ok [] s s'"
  shows "\<exists>bs s'. exec_op op s = Some (bs, s') \<and> step_ok bs s s' \<and> issued_ok (bs @ B) s'"
  using assms issued_ok_quiet by auto

lemma quiet_step_option:
  assumes "issued_ok B s" "exec_op op s = map_option (\<lambda>(_, s'). ([], s')) x"
    and "\<exists>r s'. x = Some (r, s') \<and> step_ok [] s s'"
  shows "\<exists>bs s'. exec_op op s = Some (bs, s') \<and> step_ok bs s s' \<and> issued_ok (bs @ B) s'"
proof -
  from assms(3) obtain r s' where "x = Some (r, s')" "step_ok [] s s'" by blast
  with quiet_step [OF assms(1), of op s'] assms(2) show ?thesis by simp
qed

lemma exec_op_ok:
  assumes inv: "state_inv (sc_state s)" and issued: "issued_ok B s" and guard: "op_guard B s op"
  shows "\<exists>bs s'. exec_op op s = Some (bs, s') \<and> step_ok bs s s' \<and> issued_ok (bs @ B) s'"
proof (cases op)
  case (Next now bid sid)
  from next_work_ok [OF inv, of now bid sid] obtain d s' where
    d: "next_work now bid sid s = Some (d, s')" "step_ok (issued_by d) s s'"
      "\<forall>b \<in> set (issued_by d). wb_batch_id b = bid \<and> wb_session_generation b = sc_session_generation s"
    by blast
  have "issued_ok (issued_by d @ B) s'"
    using d(2,3) issued guard Next
    by (cases d) (auto simp: issued_ok_def step_ok_def issued_by_def)
  with d Next show ?thesis by auto
next
  case (Commit now iid lease msg)
  with guard show ?thesis by (intro quiet_step_option [OF issued _ commit_enqueue_ok [OF inv]]) simp_all
next
  case (Reconcile now gen sid unread role)
  with guard show ?thesis by (intro quiet_step_option [OF issued _ reconcile_mailbox_ok [OF inv]]) simp_all
next
  case (MarkStarted now batch turn)
  with guard show ?thesis
    by (intro quiet_step [OF issued _ mark_started_ok [OF inv issued_genuine [OF issued]]]) simp_all
next
  case (RetryStart now batch)
  with guard show ?thesis
    by (intro quiet_step_option [OF issued _ retry_start_ok [OF inv issued_genuine [OF issued]]]) simp_all
next
  case (CompleteBatch now batch)
  with guard show ?thesis by (intro quiet_step_option [OF issued _ terminalize_batch_ok
        [OF inv issued_genuine [OF issued], of batch Completed]]) (simp_all add: complete_batch_def)
next
  case (FailBatch now batch cls)
  with guard show ?thesis by (intro quiet_step_option [OF issued _ terminalize_batch_ok
        [OF inv issued_genuine [OF issued], of batch "Failed cls"]]) (simp_all add: fail_batch_def)
next
  case (CancelBatch now batch cls)
  with guard show ?thesis by (intro quiet_step_option [OF issued _ terminalize_batch_ok
        [OF inv issued_genuine [OF issued], of batch "Cancelled cls"]]) (simp_all add: cancel_batch_def)
next
  case (CancelRun now ord rid)
  with guard show ?thesis by (intro quiet_step_option [OF issued _ cancel_run_ok [OF inv]]) simp_all
next
  case (SetConstraint now ord sid c)
  with guard show ?thesis by (intro quiet_step_option [OF issued _ set_runtime_constraint_ok [OF inv]]) simp_all
next
  case (Pause sid)
  then show ?thesis by (intro quiet_step_option [OF issued _ pause_slot_ok [OF inv]]) simp_all
next
  case (Remove now sid)
  then show ?thesis by (intro quiet_step_option [OF issued _ remove_slot_ok [OF inv]]) simp_all
qed (simp_all add: acquire_enqueue_ok [OF inv] abort_enqueue_ok [OF inv] complete_signals_ok [OF inv]
    stop_work_ok [OF inv] issued_ok_quiet [OF issued])

lemma reachable_inv:
  "reachable port side team generation r B s \<Longrightarrow> state_inv (sc_state s) \<and> issued_ok B s
     \<and> sc_session_generation s = generation \<and> sc_run_causality s = port"
proof (induction rule: reachable.induct)
  case start
  show ?case
    using state_inv_initial by (auto simp: new_coordinator_def issued_ok_def active_batches_def active_of_def initial_state_def)
next
  case (step B s op bs s')
  then show ?case using exec_op_ok [of s B op] by (auto simp: step_ok_def)
next
  case (outside B s r')
  then show ?case by (simp add: issued_ok_def)
qed

end
