(* ===== verification/RunPort.thy ===== *)
theory RunPort
  imports WorkReach
begin

text \<open>
  The interface between the coordinator and the keeper of team runs. The coordinator binds
  new work to a run through \<open>RunCausalityPort\<close> and publishes, after every change, the work
  summary of the runs concerned; the keeper may declare a run ended only on a summary
  without work. The locale \<open>run_ledger\<close> states the laws the coordinator's client relies on
  and proves, once for every such port, that a run declared ended has no work left.
\<close>

section \<open>The work of a run\<close>

definition work_of :: "coordinator_state \<Rightarrow> id \<Rightarrow> bool" where
  "work_of st rid \<longleftrightarrow>
     (\<exists>k i. map_of (cs_intents st) k = Some i \<and> wi_team_run_id i = Some rid \<and> \<not> is_terminal (wi_state i))
     \<or> (\<exists>k l. map_of (cs_enqueue_leases st) k = Some l \<and> el_team_run_id (lr_lease l) = Some rid)"

definition failed_of :: "coordinator_state \<Rightarrow> id \<Rightarrow> bool" where
  "failed_of st rid \<longleftrightarrow>
     (\<exists>k i. map_of (cs_intents st) k = Some i \<and> wi_team_run_id i = Some rid \<and> is_failed (wi_state i))"

lemma in_run_intents:
  "keys_distinct (cs_intents st) \<Longrightarrow> i \<in> set (run_intents st rid) \<longleftrightarrow>
     (\<exists>k. map_of (cs_intents st) k = Some i) \<and> wi_team_run_id i = Some rid"
  by (force simp: run_intents_def in_table_iff [symmetric])

lemma in_run_leases:
  "keys_distinct (cs_enqueue_leases st) \<Longrightarrow> l \<in> set (run_leases st rid) \<longleftrightarrow>
     (\<exists>k. map_of (cs_enqueue_leases st) k = Some l) \<and> el_team_run_id (lr_lease l) = Some rid"
  by (force simp: run_leases_def in_table_iff [symmetric])

lemma open_state_cases:
  "\<not> is_terminal ws \<longleftrightarrow> ws = Queued \<or> starting_batch ws \<noteq> None \<or> running_batch ws \<noteq> None"
  by (cases ws) auto

lemma length_remdups_pos: "0 < length (remdups xs) \<longleftrightarrow> xs \<noteq> []"
  by (metis length_greater_0_conv remdups_eq_nil_iff)

lemma map_filter_nonempty: "List.map_filter f xs \<noteq> [] \<longleftrightarrow> (\<exists>x \<in> set xs. f x \<noteq> None)"
  by (induction xs) (auto split: option.splits)

lemma ex_in_set: "(\<exists>x. x \<in> set xs) \<longleftrightarrow> xs \<noteq> []"
  by (cases xs) auto

text \<open>The summary the code computes says exactly whether the run has work, and whether it failed.\<close>

lemma summary_has_work_iff:
  assumes "state_inv st"
  shows "summary_has_work (run_summary_locked st rid) \<longleftrightarrow> work_of st rid"
proof -
  note d = state_invD(2,3) [OF assms]
  have "summary_has_work (run_summary_locked st rid) \<longleftrightarrow>
      (\<exists>i \<in> set (run_intents st rid). \<not> is_terminal (wi_state i)) \<or> run_leases st rid \<noteq> []"
    by (auto simp: summary_has_work_def run_summary_locked_def Let_def length_remdups_pos
        map_filter_nonempty filter_empty_conv open_state_cases simp del: length_greater_0_conv)
  also have "\<dots> \<longleftrightarrow> work_of st rid"
    unfolding work_of_def ex_in_set [symmetric] Bex_def in_run_intents [OF d(1)] in_run_leases [OF d(2)]
    by blast
  finally show ?thesis .
qed

lemma summary_failed_iff:
  assumes "state_inv st"
  shows "rs_failed_intent_count (run_summary_locked st rid) > 0 \<longleftrightarrow> failed_of st rid"
proof -
  have "rs_failed_intent_count (run_summary_locked st rid) > 0 \<longleftrightarrow>
      (\<exists>i. i \<in> set (run_intents st rid) \<and> is_failed (wi_state i))"
    by (auto simp: run_summary_locked_def Let_def filter_empty_conv)
  then show ?thesis
    unfolding in_run_intents [OF state_invD(2) [OF assms]] failed_of_def by blast
qed

lemma summary_run_id [simp]: "rs_team_run_id (run_summary_locked st rid) = rid"
  by (simp add: run_summary_locked_def Let_def)

section \<open>Where work comes from\<close>

text \<open>
  Apart from \<open>acquire_enqueue\<close> no operation gives a run work it did not have: intents only
  move along their lifecycle, and a new intent belongs to no run or to the run of the lease
  that was committed.
\<close>

definition no_new_work :: "coordinator_state \<Rightarrow> coordinator_state \<Rightarrow> bool" where
  "no_new_work st st' \<longleftrightarrow> (\<forall>x. work_of st' x \<longrightarrow> work_of st x)
     \<and> (\<forall>x. failed_of st' x \<longrightarrow> failed_of st x \<or> work_of st x)"

lemma no_new_workI:
  assumes ev: "evolves (map_of (cs_intents st)) (map_of (cs_intents st'))"
    and new: "\<And>k i x. map_of (cs_intents st) k = None \<Longrightarrow> map_of (cs_intents st') k = Some i \<Longrightarrow>
      wi_team_run_id i = Some x \<Longrightarrow> work_of st x"
    and leases: "\<And>k l. map_of (cs_enqueue_leases st') k = Some l \<Longrightarrow> map_of (cs_enqueue_leases st) k = Some l"
  shows "no_new_work st st'"
proof -
  have old: "work_of st x \<or> (\<exists>j. map_of (cs_intents st) k = Some j \<and> wi_team_run_id j = Some x
      \<and> wi_state j = wi_state i \<and> is_terminal (wi_state i))"
    if "map_of (cs_intents st') k = Some i" "wi_team_run_id i = Some x" for k i x
  proof (cases "map_of (cs_intents st) k")
    case None
    with new that show ?thesis by blast
  next
    case (Some j)
    with ev that obtain ws where ws: "i = j\<lparr>wi_state := ws\<rparr>" "life_step (wi_state j) ws"
      unfolding evolves_def by fastforce
    show ?thesis
    proof (cases "is_terminal (wi_state j)")
      case True
      with life_step_terminal [OF True ws(2)] Some ws(1) that(2) show ?thesis by auto
    next
      case False
      with Some ws(1) that(2) show ?thesis by (auto simp: work_of_def)
    qed
  qed
  have "work_of st x" if "work_of st' x" for x
    using that old leases unfolding work_of_def by metis
  moreover have "failed_of st x \<or> work_of st x" if "failed_of st' x" for x
    using that old unfolding failed_of_def by metis
  ultimately show ?thesis by (simp add: no_new_work_def)
qed

lemma dom_set_intent_states [simp]: "map_of (set_intent_states ws ids m) k = None \<longleftrightarrow> map_of m k = None"
  by (simp add: set_intent_states_restate loop_simps restate_on_def)

lemma restate_on_None [simp]: "restate_on g K I k = None \<longleftrightarrow> I k = None"
  by (simp add: restate_on_def)

definition same_keys :: "coordinator_state \<Rightarrow> coordinator_state \<Rightarrow> bool" where
  "same_keys st st' \<longleftrightarrow> (\<forall>k. map_of (cs_intents st') k = None \<longleftrightarrow> map_of (cs_intents st) k = None)
     \<and> (\<forall>k l. map_of (cs_enqueue_leases st') k = Some l \<longrightarrow> map_of (cs_enqueue_leases st) k = Some l)"

lemma same_keys_refl [simp]: "same_keys st st"
  by (simp add: same_keys_def)

lemma same_keys_no_new_work:
  "evolves (map_of (cs_intents st)) (map_of (cs_intents st')) \<Longrightarrow> same_keys st st' \<Longrightarrow> no_new_work st st'"
  by (rule no_new_workI) (simp_all add: same_keys_def, metis option.distinct(1))

fun enqueues :: "work_op \<Rightarrow> bool" where
  "enqueues (Acquire lid rid req) = True"
| "enqueues (Commit now iid lease msg) = True"
| "enqueues (Reconcile now gen sid unread role) = True"
| "enqueues op = False"

lemma exec_op_same_keys:
  assumes inv: "state_inv (sc_state s)" and ex: "exec_op op s = Some (bs, s')" and "\<not> enqueues op"
    and guard: "op_guard B s op"
  shows "same_keys (sc_state s) (sc_state s')"
proof (cases op)
  case (Next now bid sid)
  show ?thesis using inv refl [of "next_work now bid sid s"]
  proof (cases rule: next_work_cases)
    case (same d)
    with ex Next show ?thesis by auto
  next
    case (claim batch slot st1)
    with ex Next show ?thesis by (auto simp: same_keys_def claims_def loop_simps)
  qed
next
  case (CancelRun now ord rid)
  with guard have "iter_order ord" by simp
  from cancel_run_spec [OF inv this, of now rid] obtain r s1 where s1: "cancel_run now ord rid s = Some (r, s1)"
    "\<forall>k. map_of (cs_intents (sc_state s1)) k =
       map_option (cancelled_intent rid (sc_state s) k) (map_of (cs_intents (sc_state s)) k)"
    "\<forall>k. map_of (cs_enqueue_leases (sc_state s1)) k =
       (case map_of (cs_enqueue_leases (sc_state s)) k of None \<Rightarrow> None
        | Some l \<Rightarrow> if el_team_run_id (lr_lease l) = Some rid then None else Some l)" by blast
  with ex CancelRun have "s1 = s'" by auto
  with s1(2,3) show ?thesis by (simp add: same_keys_def split: option.splits)
next
  case (SetConstraint now ord sid c)
  with guard have ord: "iter_order ord" by simp
  show ?thesis
  proof (cases "constraint_classification c")
    case None
    from set_runtime_constraint_open [OF inv None, of now ord sid] ex SetConstraint show ?thesis
      by (auto simp: same_keys_def)
  next
    case (Some cls)
    from set_runtime_constraint_ending [OF inv ord Some, of now sid] ex SetConstraint show ?thesis
      by (auto simp: same_keys_def loop_simps)
  qed
next
  case (Remove now sid)
  with remove_slot_spec [OF inv, of now sid] ex show ?thesis
    by (auto simp: same_keys_def loop_simps)
next
  case (Abort now lease)
  with ex abort_enqueue_leases [OF state_invD(4) [OF inv], of now lease] show ?thesis
    by (auto simp: same_keys_def split: if_splits)
next
  case (Stop now)
  with ex show ?thesis by (auto simp: same_keys_def stop_work_state table_simps)
qed (use assms(3) ex in \<open>auto simp: same_keys_def mark_started_def retry_start_def terminalize_batch_def
      complete_batch_def fail_batch_def cancel_batch_def complete_signals_def pause_slot_def Let_def
      split: if_splits option.splits\<close>)

lemma exec_op_no_new_work:
  assumes inv: "state_inv (sc_state s)" and issued: "issued_ok B s" and guard: "op_guard B s op"
    and ex: "exec_op op s = Some (bs, s')" and "\<And>lid rid req. op \<noteq> Acquire lid rid req"
  shows "no_new_work (sc_state s) (sc_state s')"
proof -
  have ev: "evolves (map_of (cs_intents (sc_state s))) (map_of (cs_intents (sc_state s')))"
    using exec_op_ok [OF inv issued guard] ex by (auto simp: step_ok_def)
  show ?thesis
  proof (cases op)
    case (Commit now iid lease msg)
    show ?thesis using refl [of "commit_enqueue now iid lease msg s"]
    proof (cases rule: commit_enqueue_cases)
      case (err e)
      with ex Commit ev show ?thesis by (auto intro!: same_keys_no_new_work)
    next
      case (ok rcd slot c st1)
      have "work_of (sc_state s) x" if "el_team_run_id lease = Some x" for x
        using ok(1,2) that by (auto simp: work_of_def)
      then show ?thesis
        using ex Commit ok(8) ev by (intro no_new_workI)
          (auto simp: ok(7) table_simps committed_intent_def split: if_splits)
    qed
  next
    case (Reconcile now gen sid unread role)
    with guard have "fresh_supply gen 0 (sc_state s)" by simp
    from reconcile_mailbox_spec [OF inv this] obtain proj st' where
      r: "reconcile_mailbox now gen sid unread role s = Some (proj, s\<lparr>sc_state := st'\<rparr>)"
        "reconciled sid unread proj (sc_state s) st'" "cs_enqueue_leases st' = cs_enqueue_leases (sc_state s)"
      by blast
    with ex Reconcile have st': "st' = sc_state s'" by auto
    show ?thesis
    proof (rule no_new_workI [OF ev])
      show "work_of (sc_state s) x" if "map_of (cs_intents (sc_state s)) k = None"
        "map_of (cs_intents (sc_state s')) k = Some i" "wi_team_run_id i = Some x" for k i x
        using r(2) that unfolding reconciled_def st' by fastforce
    qed (simp add: r(3) flip: st')
  qed (use assms(5) same_keys_no_new_work [OF ev exec_op_same_keys [OF inv ex _ guard]] in auto)
qed

section \<open>What an operation tells the port\<close>

text \<open>
  After its change of state an operation publishes the summaries of some runs, computed on
  the new state; \<open>abort_enqueue\<close> may first withdraw a binding.
\<close>

definition published :: "'r slot_work_coordinator \<Rightarrow> 'r slot_work_coordinator \<Rightarrow> bool" where
  "published s s' \<longleftrightarrow>
     (\<exists>now rids r0. sc_run_state s' = fold (apply_work_summary (sc_run_causality s) now)
          (map (run_summary_locked (sc_state s')) rids) r0
        \<and> (r0 = sc_run_state s \<or> (\<exists>b. r0 = abort_binding (sc_run_causality s) b (sc_run_state s))))"

lemma published_summaries [intro!]:
  "published s (publish_run_summaries now (run_summaries_locked st rids) (s\<lparr>sc_state := st\<rparr>))"
  "published s (publish_run_summaries now (map (run_summary_locked st) rids) (s\<lparr>sc_state := st\<rparr>))"
  by (auto simp: published_def publish_run_summaries_def run_summaries_locked_def)

lemma published_quiet [intro!]: "published s (s\<lparr>sc_state := st\<rparr>)" "published s s"
  unfolding published_def
  by (rule exI, rule exI [of _ "[]"], rule exI [of _ "sc_run_state s"], simp)+

lemma published_abort [intro!]:
  "published s (publish_run_summaries now (run_summaries_locked st rids)
     (s\<lparr>sc_state := st, sc_run_state := abort_binding (sc_run_causality s) b (sc_run_state s)\<rparr>))"
  by (auto simp: published_def publish_run_summaries_def run_summaries_locked_def)

lemma exec_op_published:
  assumes "exec_op op s = Some (bs, s')" "\<And>lid rid req. op \<noteq> Acquire lid rid req"
  shows "published s s'"
proof (cases op)
  case (CancelRun now ord rid)
  have *: "published s (publish_run_summaries now [run_summary_locked st x] (s\<lparr>sc_state := st\<rparr>))" for st x now
    using published_summaries(2) [of s now st "[x]"] by simp
  show ?thesis using assms CancelRun * by (auto simp: cancel_run_def Let_def split: option.splits)
qed (use assms in \<open>auto simp: commit_enqueue_def abort_enqueue_def reconcile_mailbox_def next_work_def
      mark_started_def retry_start_def complete_batch_def fail_batch_def cancel_batch_def
      terminalize_batch_def complete_signals_def pause_slot_def set_runtime_constraint_def remove_slot_def
      stop_work_def Let_def split: option.splits sum.splits if_splits prod.splits\<close>)

section \<open>The laws of a run ledger\<close>

text \<open>
  \<open>ended r x\<close> says that the port's state \<open>r\<close> records run \<open>x\<close> as over without failure.
\<close>

locale run_ledger =
  fixes port :: "'r run_causality_port"
    and side :: "'r \<Rightarrow> 'r \<Rightarrow> bool"
    and ended :: "'r \<Rightarrow> id \<Rightarrow> bool"
    and fresh :: 'r
  assumes fresh_open: "\<not> ended fresh x"
    and bind_open: "bind_enqueue port new req r = (b, r') \<Longrightarrow> rb_team_run_id b = Some x \<Longrightarrow> \<not> ended r' x"
    and bind_ended: "bind_enqueue port new req r = (b, r') \<Longrightarrow> ended r' x \<Longrightarrow> ended r x"
    and abort_ended: "ended (abort_binding port b r) x \<Longrightarrow> ended r x"
    and apply_ended: "ended (apply_work_summary port now sm r) x \<Longrightarrow>
      ended r x \<or> (x = rs_team_run_id sm \<and> \<not> summary_has_work sm \<and> rs_failed_intent_count sm = 0)"
    and side_ended: "side r r' \<Longrightarrow> ended r' x \<Longrightarrow> ended r x"
begin

definition settled :: "coordinator_state \<Rightarrow> 'r \<Rightarrow> bool" where
  "settled st r \<longleftrightarrow> (\<forall>x. ended r x \<longrightarrow> \<not> work_of st x \<and> \<not> failed_of st x)"

lemma settled_apply:
  assumes "state_inv st" "settled st r"
  shows "settled st (fold (apply_work_summary port now) (map (run_summary_locked st) rids) r)"
  using assms(2)
proof (induction rids arbitrary: r)
  case (Cons x rids)
  have "settled st (apply_work_summary port now (run_summary_locked st x) r)"
    unfolding settled_def
  proof (intro allI impI)
    fix y assume "ended (apply_work_summary port now (run_summary_locked st x) r) y"
    from apply_ended [OF this] show "\<not> work_of st y \<and> \<not> failed_of st y"
      using Cons.prems summary_has_work_iff [OF assms(1), of x] summary_failed_iff [OF assms(1), of x]
      by (auto simp: settled_def)
  qed
  then show ?case using Cons.IH by simp
qed simp

lemma settled_published:
  assumes "settled (sc_state s) (sc_run_state s)" "state_inv (sc_state s')" "sc_run_causality s = port"
    and "no_new_work (sc_state s) (sc_state s')" "published s s'"
  shows "settled (sc_state s') (sc_run_state s')"
proof -
  from assms(5) obtain now rids r0 where r0: "sc_run_state s' = fold (apply_work_summary port now)
      (map (run_summary_locked (sc_state s')) rids) r0"
    "r0 = sc_run_state s \<or> (\<exists>b. r0 = abort_binding port b (sc_run_state s))"
    unfolding published_def assms(3) by blast
  have "ended r0 x \<Longrightarrow> ended (sc_run_state s) x" for x
    using r0(2) abort_ended by auto
  then have "settled (sc_state s') r0"
    using assms(1,4) unfolding settled_def no_new_work_def by blast
  then show ?thesis unfolding r0(1) by (rule settled_apply [OF assms(2)])
qed

lemma acquired_binding:
  assumes inv: "state_inv (sc_state s)" and port: "sc_run_causality s = port"
    and settled: "settled (sc_state s) (sc_run_state s)"
    and ok: "fst (acquire_enqueue lid rid req s) = Inr lease"
  shows "\<not> (\<exists>x. el_team_run_id lease = Some x \<and> ended (sc_run_state (snd (acquire_enqueue lid rid req s))) x)"
    "ended (sc_run_state (snd (acquire_enqueue lid rid req s))) x \<Longrightarrow> ended (sc_run_state s) x"
proof -
  have inherit: "work_of (sc_state s) x" if a: "active_of (sc_state s) caller = Some a"
    "first (wb_team_run_ids (ab_batch a)) = Some x" for caller a x
  proof -
    from a(1) obtain slot where slot: "map_of (cs_slots (sc_state s)) caller = Some slot" "ss_active slot = Some a"
      by (auto simp: active_of_def bind_eq_Some_conv)
    note sok = work_invD(2) [OF state_invD(5) [OF inv] slot(1)]
    from slot_ok_batchD [OF sok slot(2)] first_in_set [OF a(2)]
    obtain k where "k \<in> set (wb_intent_ids (ab_batch a))" "run_of (map_of (cs_intents (sc_state s))) k = Some x"
      by (auto simp: batch_ok_def run_ids_of_def)
    with active_present [OF sok slot(2), of k] show ?thesis
      unfolding work_of_def by fastforce
  qed
  have active: "Option.bind (map_of (AList.update (er_slot_id req) (acquired_slot req (sc_state s))
      (cs_slots (sc_state s))) caller) ss_active = active_of (sc_state s) caller" for caller
    by (auto simp: table_simps active_of_def entry_or_def split: option.splits)
  show "\<not> (\<exists>x. el_team_run_id lease = Some x \<and> ended (sc_run_state (snd (acquire_enqueue lid rid req s))) x)"
  proof (cases "er_binding req")
    case (InheritRunningBatch caller)
    with ok have l: "el_team_run_id lease = Option.bind (active_of (sc_state s) caller)
        (\<lambda>a. first (wb_team_run_ids (ab_batch a)))"
      "sc_run_state (snd (acquire_enqueue lid rid req s)) = sc_run_state s"
      by (auto simp: acquire_enqueue_def Let_def active [unfolded acquired_slot_def] split: sum.splits)
    then show ?thesis using inherit settled by (auto simp: settled_def bind_eq_Some_conv)
  qed (use ok port bind_open in \<open>auto simp: acquire_enqueue_def Let_def split: sum.splits prod.splits\<close>)
  show "ended (sc_run_state s) x" if "ended (sc_run_state (snd (acquire_enqueue lid rid req s))) x"
    using that bind_ended port by (auto simp: acquire_enqueue_def Let_def
        split: sum.splits prod.splits causal_binding.splits)
qed

lemma settled_acquire:
  assumes inv: "state_inv (sc_state s)" and port: "sc_run_causality s = port"
    and settled: "settled (sc_state s) (sc_run_state s)"
  shows "settled (sc_state (snd (acquire_enqueue lid rid req s))) (sc_run_state (snd (acquire_enqueue lid rid req s)))"
proof (cases "fst (acquire_enqueue lid rid req s)")
  case (Inl e)
  with acquire_enqueue_Inl(2) [OF Inl] settled show ?thesis
    by (simp add: settled_def work_of_def failed_of_def)
next
  case (Inr lease)
  note b = acquired_binding [OF inv port settled Inr]
  let ?s' = "snd (acquire_enqueue lid rid req s)"
  from acquire_enqueue_Inr(1) [OF Inr] obtain bd where
    leases: "cs_enqueue_leases (sc_state ?s') =
      AList.update lid \<lparr>lr_lease = lease, lr_binding = bd\<rparr> (cs_enqueue_leases (sc_state s))" by blast
  have "work_of (sc_state ?s') x \<Longrightarrow> work_of (sc_state s) x \<or> el_team_run_id lease = Some x" for x
    by (auto simp: work_of_def leases table_simps split: if_splits)
  moreover have "failed_of (sc_state ?s') x = failed_of (sc_state s) x" for x
    by (simp add: failed_of_def)
  ultimately show ?thesis using b settled unfolding settled_def by blast
qed

lemma settled_reachable:
  "reachable port side team generation fresh B s \<Longrightarrow> settled (sc_state s) (sc_run_state s)"
proof (induction rule: reachable.induct)
  case start
  show ?case using fresh_open by (simp add: settled_def new_coordinator_def)
next
  case (step B s op bs s')
  note inv = reachable_inv [OF step.hyps(1)]
  from exec_op_ok [of s B op] inv step.hyps have inv': "state_inv (sc_state s')"
    by (auto simp: step_ok_def)
  show ?case
  proof (cases "\<exists>lid rid req. op = Acquire lid rid req")
    case True
    with step.hyps(3) settled_acquire inv step.IH show ?thesis by auto
  next
    case False
    then have "no_new_work (sc_state s) (sc_state s')" "published s s'"
      using exec_op_no_new_work [of s B op bs s'] exec_op_published [of op s bs s'] inv step.hyps by blast+
    with settled_published inv inv' step.IH show ?thesis by blast
  qed
next
  case (outside B s r')
  then show ?case using side_ended by (auto simp: settled_def)
qed

end

end
