(* ===== verification/TeamRun.thy ===== *)
theory TeamRun
  imports RunPort
begin

text \<open>
  The team run manager, \<open>team_run/manager.rs\<close>: the record of the team's current run, its
  status as driven by the coordinator's work summaries, the events it broadcasts, and its
  implementation of \<open>RunCausalityPort\<close>. The payload types are those of
  \<open>aionui-api-types/src/team.rs\<close>, the event names those of \<open>events.rs\<close>.
\<close>

section \<open>Data\<close>

datatype team_run_status = RunAccepted | RunRunning | RunCancelling | RunCompleted | RunCancelled | RunFailed

datatype team_run_source = SourceUserMessage

datatype team_slot_work_state =
    SlotIdle | SlotQueued | SlotStarting | SlotRunning | SlotPaused | SlotBlocked

datatype team_slot_blocked_reason = RuntimeStarting | RuntimeFailed | RuntimeRemoving | SessionStopped

record team_slot_work_payload =
  tsp_slot_id :: id
  tsp_role :: target_role
  tsp_state :: team_slot_work_state
  tsp_queued_foreground_count :: nat
  tsp_queued_background_count :: nat
  tsp_active_turn_id :: "id option"
  tsp_active_turn_started_at_ms :: "timestamp_ms option"
  tsp_active_turn_elapsed_ms :: "u64 option"
  tsp_active_turn_slow :: "bool option"
  tsp_active_turn_slow_threshold_ms :: "u64 option"
  tsp_blocked_reason :: "team_slot_blocked_reason option"
  tsp_team_run_id :: "id option"

record team_run_payload =
  trp_team_id :: id
  trp_team_run_id :: id
  trp_source :: team_run_source
  trp_has_user_intervention :: bool
  trp_target_slot_id :: id
  trp_target_role :: target_role
  trp_status :: team_run_status
  trp_queued_intent_count :: nat
  trp_starting_batch_count :: nat
  trp_running_batch_count :: nat
  trp_active_enqueue_lease_count :: nat
  trp_slot_work :: "team_slot_work_payload list"

record team_run_record =
  tr_team_run_id :: id
  tr_source :: team_run_source
  tr_has_user_intervention :: bool
  tr_target_slot_id :: id
  tr_target_role :: target_role
  tr_status :: team_run_status
  tr_started_at_ms :: "timestamp_ms option"
  tr_completed_at_ms :: "timestamp_ms option"
  tr_cancel_reason :: "string option"
  tr_summary :: "run_work_summary option"
  tr_accepted_emitted :: bool

text \<open>The emitter is the list of events broadcast so far, the latest last.\<close>

record team_run_manager =
  rm_team_id :: id
  rm_state :: "team_run_record option"
  rm_events :: "(string \<times> team_run_payload) list"

definition TEAM_RUN_ACCEPTED_EVENT :: string where "TEAM_RUN_ACCEPTED_EVENT = ''team.runAccepted''"
definition TEAM_RUN_STARTED_EVENT :: string where "TEAM_RUN_STARTED_EVENT = ''team.runStarted''"
definition TEAM_RUN_UPDATED_EVENT :: string where "TEAM_RUN_UPDATED_EVENT = ''team.runUpdated''"
definition TEAM_RUN_COMPLETED_EVENT :: string where "TEAM_RUN_COMPLETED_EVENT = ''team.runCompleted''"
definition TEAM_RUN_CANCELLED_EVENT :: string where "TEAM_RUN_CANCELLED_EVENT = ''team.runCancelled''"
definition TEAM_RUN_FAILED_EVENT :: string where "TEAM_RUN_FAILED_EVENT = ''team.runFailed''"

definition ACTIVE_TURN_SLOW_THRESHOLD_MS :: u64 where
  "ACTIVE_TURN_SLOW_THRESHOLD_MS = 10 * 60 * 1000"

section \<open>Operations\<close>

definition run_is_active :: "team_run_record \<Rightarrow> bool" where
  "run_is_active run \<longleftrightarrow> tr_status run \<in> {RunAccepted, RunRunning, RunCancelling}"

definition new_manager :: "id \<Rightarrow> team_run_manager" where
  "new_manager team = \<lparr>rm_team_id = team, rm_state = None, rm_events = []\<rparr>"

definition broadcast_team_run ::
  "string \<Rightarrow> team_run_payload \<Rightarrow> team_run_manager \<Rightarrow> team_run_manager" where
  "broadcast_team_run name payload m = m\<lparr>rm_events := rm_events m @ [(name, payload)]\<rparr>"

definition active_run :: "team_run_manager \<Rightarrow> team_run_record option" where
  "active_run m = (case rm_state m of None \<Rightarrow> None
     | Some run \<Rightarrow> if run_is_active run then Some run else None)"

definition bind_user_enqueue ::
  "id \<Rightarrow> id \<Rightarrow> target_role \<Rightarrow> team_run_manager \<Rightarrow> run_binding \<times> team_run_manager" where
  "bind_user_enqueue run_id slot_id role m =
     (case active_run m of
        Some run \<Rightarrow>
          (\<lparr>rb_team_run_id = Some (tr_team_run_id run), rb_created_new_run = False,
            rb_user_intervention = True\<rparr>,
           m\<lparr>rm_state := Some (run\<lparr>tr_has_user_intervention := True\<rparr>)\<rparr>)
      | None \<Rightarrow>
          (\<lparr>rb_team_run_id = Some run_id, rb_created_new_run = True, rb_user_intervention = False\<rparr>,
           m\<lparr>rm_state := Some
             \<lparr>tr_team_run_id = run_id, tr_source = SourceUserMessage, tr_has_user_intervention = False,
              tr_target_slot_id = slot_id, tr_target_role = role, tr_status = RunAccepted,
              tr_started_at_ms = None, tr_completed_at_ms = None, tr_cancel_reason = None,
              tr_summary = None, tr_accepted_emitted = False\<rparr>\<rparr>))"

definition current_active_run_id :: "team_run_manager \<Rightarrow> id option" where
  "current_active_run_id m = map_option tr_team_run_id (active_run m)"

text \<open>\<open>now_ms().saturating_sub(started_at).max(0) as u64\<close> on \<open>i64\<close> clock readings.\<close>

definition elapsed_ms :: "timestamp_ms \<Rightarrow> timestamp_ms \<Rightarrow> u64" where
  "elapsed_ms now started = word_of_int (max 0 (min (2 ^ 63 - 1) (now - started)))"

fun slot_state_payload :: "slot_phase \<Rightarrow> team_slot_work_state" where
  "slot_state_payload PhIdle = SlotIdle"
| "slot_state_payload PhQueued = SlotQueued"
| "slot_state_payload PhStarting = SlotStarting"
| "slot_state_payload PhRunning = SlotRunning"
| "slot_state_payload PhPaused = SlotPaused"
| "slot_state_payload PhBlocked = SlotBlocked"

fun blocked_reason :: "runtime_constraint \<Rightarrow> team_slot_blocked_reason option" where
  "blocked_reason RcReady = None"
| "blocked_reason (RcStarting _) = Some RuntimeStarting"
| "blocked_reason (RcFailed _ _) = Some RuntimeFailed"
| "blocked_reason (RcRemoving _) = Some RuntimeRemoving"
| "blocked_reason RcSessionStopped = Some SessionStopped"

definition slot_payload :: "timestamp_ms \<Rightarrow> slot_work_snapshot \<Rightarrow> team_slot_work_payload" where
  "slot_payload now slot =
     (let elapsed = map_option (elapsed_ms now) (sn_active_turn_started_at_ms slot) in
      \<lparr>tsp_slot_id = sn_slot_id slot, tsp_role = sn_role slot,
       tsp_state = slot_state_payload (sn_state slot),
       tsp_queued_foreground_count = sn_queued_foreground_count slot,
       tsp_queued_background_count = sn_queued_background_count slot,
       tsp_active_turn_id = sn_active_turn_id slot,
       tsp_active_turn_started_at_ms = sn_active_turn_started_at_ms slot,
       tsp_active_turn_elapsed_ms = elapsed,
       tsp_active_turn_slow = map_option (\<lambda>e. ACTIVE_TURN_SLOW_THRESHOLD_MS \<le> e) elapsed,
       tsp_active_turn_slow_threshold_ms =
         map_option (\<lambda>_. ACTIVE_TURN_SLOW_THRESHOLD_MS) (sn_active_turn_id slot),
       tsp_blocked_reason = blocked_reason (sn_runtime_constraint slot),
       tsp_team_run_id = sn_team_run_id slot\<rparr>)"

definition payload_locked ::
  "timestamp_ms \<Rightarrow> id \<Rightarrow> team_run_record \<Rightarrow> run_work_summary \<Rightarrow> team_run_payload" where
  "payload_locked now team run sm =
     \<lparr>trp_team_id = team, trp_team_run_id = tr_team_run_id run, trp_source = tr_source run,
      trp_has_user_intervention = tr_has_user_intervention run,
      trp_target_slot_id = tr_target_slot_id run, trp_target_role = tr_target_role run,
      trp_status = tr_status run, trp_queued_intent_count = rs_queued_intent_count sm,
      trp_starting_batch_count = rs_starting_batch_count sm,
      trp_running_batch_count = rs_running_batch_count sm,
      trp_active_enqueue_lease_count = rs_active_enqueue_lease_count sm,
      trp_slot_work = map (slot_payload now) (rs_slots sm)\<rparr>"

definition advance_run :: "timestamp_ms \<Rightarrow> run_work_summary \<Rightarrow> team_run_record \<Rightarrow> team_run_record" where
  "advance_run now sm run =
     (let run1 = run\<lparr>tr_summary := Some sm\<rparr>;
          no_work = (rs_queued_intent_count sm = 0 \<and> rs_starting_batch_count sm = 0
            \<and> rs_running_batch_count sm = 0 \<and> rs_active_enqueue_lease_count sm = 0
            \<and> rs_paused_intent_count sm = 0)
      in if rs_failed_intent_count sm > 0
         then run1\<lparr>tr_status := RunFailed, tr_completed_at_ms := Some now\<rparr>
         else if no_work
         then run1\<lparr>tr_status := (if tr_status run = RunCancelling then RunCancelled else RunCompleted),
                   tr_completed_at_ms := Some now\<rparr>
         else if rs_running_batch_count sm > 0
         then run1\<lparr>tr_status := RunRunning,
                   tr_started_at_ms := Some (case tr_started_at_ms run of None \<Rightarrow> now | Some t \<Rightarrow> t)\<rparr>
         else run1)"

definition run_event :: "team_run_status \<Rightarrow> team_run_status \<Rightarrow> string" where
  "run_event prev now_status =
     (if now_status = RunFailed \<and> prev \<noteq> RunFailed then TEAM_RUN_FAILED_EVENT
      else if now_status = RunCancelled \<and> prev \<noteq> RunCancelled then TEAM_RUN_CANCELLED_EVENT
      else if now_status = RunCompleted \<and> prev \<noteq> RunCompleted then TEAM_RUN_COMPLETED_EVENT
      else if now_status = RunRunning \<and> prev \<noteq> RunRunning then TEAM_RUN_STARTED_EVENT
      else TEAM_RUN_UPDATED_EVENT)"

definition manager_apply_work_summary ::
  "timestamp_ms \<Rightarrow> run_work_summary \<Rightarrow> team_run_manager \<Rightarrow> team_run_manager" where
  "manager_apply_work_summary now sm m =
     (case rm_state m of None \<Rightarrow> m
      | Some run \<Rightarrow>
        if tr_team_run_id run \<noteq> rs_team_run_id sm then m
        else
          let run1 = advance_run now sm run;
              event = (if \<not> tr_accepted_emitted run then TEAM_RUN_ACCEPTED_EVENT
                       else run_event (tr_status run) (tr_status run1));
              run2 = run1\<lparr>tr_accepted_emitted := True\<rparr>
          in broadcast_team_run event (payload_locked now (rm_team_id m) run2 sm)
               (m\<lparr>rm_state := Some run2\<rparr>))"

definition begin_cancel ::
  "timestamp_ms \<Rightarrow> id \<Rightarrow> string option \<Rightarrow> team_run_manager \<Rightarrow> (team_error + unit) \<times> team_run_manager" where
  "begin_cancel now rid reason m =
     (case active_run m of
        None \<Rightarrow> (Inl (InvalidRequest (''team run is not active: '' @ rid)), m)
      | Some run \<Rightarrow>
        if tr_team_run_id run \<noteq> rid
        then (Inl (InvalidRequest (''team run is not active: '' @ rid)), m)
        else
          let run1 = run\<lparr>tr_status := RunCancelling, tr_cancel_reason := reason\<rparr>;
              m1 = m\<lparr>rm_state := Some run1\<rparr>
          in (Inr (), case tr_summary run1 of None \<Rightarrow> m1
              | Some sm \<Rightarrow>
                  broadcast_team_run TEAM_RUN_UPDATED_EVENT (payload_locked now (rm_team_id m) run1 sm) m1))"

definition empty_summary :: "id \<Rightarrow> run_work_summary" where
  "empty_summary rid = \<lparr>rs_team_run_id = rid, rs_queued_intent_count = 0, rs_starting_batch_count = 0,
     rs_running_batch_count = 0, rs_active_enqueue_lease_count = 0, rs_paused_intent_count = 0,
     rs_failed_intent_count = 0, rs_slots = []\<rparr>"

definition current_payload ::
  "timestamp_ms \<Rightarrow> coordinator_snapshot \<Rightarrow> team_run_manager \<Rightarrow> team_run_payload option" where
  "current_payload now snap m =
     map_option (\<lambda>run.
       let sm = (case tr_summary run of
             Some sm \<Rightarrow> sm
           | None \<Rightarrow> (case cn_active_run_summary snap of
               Some sm \<Rightarrow> if rs_team_run_id sm = tr_team_run_id run then sm
                          else empty_summary (tr_team_run_id run)
             | None \<Rightarrow> empty_summary (tr_team_run_id run)))
       in payload_locked now (rm_team_id m) run sm) (rm_state m)"

definition publish_snapshot_update ::
  "timestamp_ms \<Rightarrow> coordinator_snapshot \<Rightarrow> team_run_manager \<Rightarrow> team_run_manager" where
  "publish_snapshot_update now snap m =
     (case current_payload now snap m of None \<Rightarrow> m
      | Some payload \<Rightarrow>
        if trp_status payload \<in> {RunAccepted, RunRunning}
        then broadcast_team_run TEAM_RUN_UPDATED_EVENT payload m else m)"

definition manager_bind_enqueue ::
  "id \<Rightarrow> enqueue_request \<Rightarrow> team_run_manager \<Rightarrow> run_binding \<times> team_run_manager" where
  "manager_bind_enqueue run_id req m =
     (case er_binding req of
        UserVisible \<Rightarrow> bind_user_enqueue run_id (er_slot_id req) (er_role req) m
      | ActiveRunOrBackground \<Rightarrow>
          (\<lparr>rb_team_run_id = current_active_run_id m, rb_created_new_run = False,
            rb_user_intervention = False\<rparr>, m)
      | _ \<Rightarrow> (\<lparr>rb_team_run_id = None, rb_created_new_run = False, rb_user_intervention = False\<rparr>, m))"

definition manager_abort_binding :: "run_binding \<Rightarrow> team_run_manager \<Rightarrow> team_run_manager" where
  "manager_abort_binding b m =
     (case rm_state m of None \<Rightarrow> m
      | Some run \<Rightarrow> if Some (tr_team_run_id run) = rb_team_run_id b then m\<lparr>rm_state := None\<rparr> else m)"

definition manager_port :: "team_run_manager run_causality_port" where
  "manager_port = \<lparr>bind_enqueue = manager_bind_enqueue, abort_binding = manager_abort_binding,
     apply_work_summary = manager_apply_work_summary\<rparr>"

text \<open>What the manager's other callers may do to it between two coordinator calls.\<close>

definition manager_side :: "team_run_manager \<Rightarrow> team_run_manager \<Rightarrow> bool" where
  "manager_side m m' \<longleftrightarrow> (\<exists>now rid reason. m' = snd (begin_cancel now rid reason m))
     \<or> (\<exists>now snap. m' = publish_snapshot_update now snap m)"

section \<open>The manager keeps the laws of a run ledger\<close>

definition ended_run :: "team_run_manager \<Rightarrow> id \<Rightarrow> bool" where
  "ended_run m x = (case rm_state m of None \<Rightarrow> False
     | Some run \<Rightarrow> tr_team_run_id run = x \<and> tr_status run \<in> {RunCompleted, RunCancelled})"

lemma broadcast_frame [simp]:
  "rm_state (broadcast_team_run name payload m) = rm_state m"
  "rm_team_id (broadcast_team_run name payload m) = rm_team_id m"
  by (simp_all add: broadcast_team_run_def)

lemma active_runD: "active_run m = Some run \<Longrightarrow> rm_state m = Some run \<and> run_is_active run"
  by (auto simp: active_run_def split: option.splits if_splits)

lemma advance_run_id [simp]: "tr_team_run_id (advance_run now sm run) = tr_team_run_id run"
  by (simp add: advance_run_def Let_def)

lemma advance_run_ended:
  assumes "tr_status (advance_run now sm run) \<in> {RunCompleted, RunCancelled}"
  shows "tr_status run \<in> {RunCompleted, RunCancelled}
    \<or> (\<not> summary_has_work sm \<and> rs_failed_intent_count sm = 0)"
  using assms by (auto simp: advance_run_def Let_def summary_has_work_def split: if_splits)

lemma begin_cancel_ended: "ended_run (snd (begin_cancel now rid reason m)) x \<Longrightarrow> ended_run m x"
  by (auto simp: begin_cancel_def ended_run_def Let_def split: option.splits if_splits)

lemma publish_snapshot_state [simp]: "rm_state (publish_snapshot_update now snap m) = rm_state m"
  by (simp add: publish_snapshot_update_def split: option.splits)

lemma bind_user_enqueue_active:
  "\<exists>run. rm_state (snd (bind_user_enqueue new sid role m)) = Some run \<and> run_is_active run
     \<and> rb_team_run_id (fst (bind_user_enqueue new sid role m)) = Some (tr_team_run_id run)"
proof (cases "active_run m")
  case (Some run)
  from active_runD [OF this] Some show ?thesis by (simp add: bind_user_enqueue_def run_is_active_def)
qed (simp add: bind_user_enqueue_def run_is_active_def)

lemma not_ended_active: "rm_state m = Some run \<Longrightarrow> run_is_active run \<Longrightarrow> \<not> ended_run m x"
  by (auto simp: ended_run_def run_is_active_def)

lemma manager_bind_open:
  assumes "manager_bind_enqueue new req m = (b, m')"
  shows "rb_team_run_id b = Some x \<Longrightarrow> \<not> ended_run m' x" "ended_run m' x \<Longrightarrow> ended_run m x"
proof -
  obtain run where run: "rm_state (snd (bind_user_enqueue new (er_slot_id req) (er_role req) m)) = Some run"
    "run_is_active run" using bind_user_enqueue_active by blast
  have active: "\<not> ended_run m y" if "current_active_run_id m = Some y'" for y y'
    using that not_ended_active by (auto simp: current_active_run_id_def dest: active_runD)
  show "\<not> ended_run m' x" if "rb_team_run_id b = Some x"
    using assms that not_ended_active [OF run] active
    by (auto simp: manager_bind_enqueue_def split: causal_binding.splits)
  show "ended_run m x" if "ended_run m' x"
    using assms that not_ended_active [OF run] by (auto simp: manager_bind_enqueue_def split: causal_binding.splits)
qed

lemma manager_apply_ended:
  assumes "ended_run (manager_apply_work_summary now sm m) x"
  shows "ended_run m x \<or> (x = rs_team_run_id sm \<and> \<not> summary_has_work sm \<and> rs_failed_intent_count sm = 0)"
proof (cases "rm_state m")
  case None
  with assms show ?thesis by (simp add: manager_apply_work_summary_def ended_run_def)
next
  case (Some run)
  show ?thesis
  proof (cases "tr_team_run_id run = rs_team_run_id sm")
    case True
    with assms Some have "tr_status (advance_run now sm run) \<in> {RunCompleted, RunCancelled}" "x = rs_team_run_id sm"
      by (auto simp: manager_apply_work_summary_def ended_run_def Let_def)
    with advance_run_ended [OF this(1)] True Some show ?thesis by (auto simp: ended_run_def)
  next
    case False
    with assms Some show ?thesis by (simp add: manager_apply_work_summary_def)
  qed
qed

interpretation team_runs: run_ledger manager_port manager_side ended_run "new_manager team" for team
proof
  show "\<not> ended_run (new_manager team) x" for x
    by (simp add: ended_run_def new_manager_def)
  show "\<not> ended_run r' x"
    if "bind_enqueue manager_port new req r = (b, r')" "rb_team_run_id b = Some x" for new req r b r' x
    using that manager_bind_open by (simp add: manager_port_def)
  show "ended_run r x"
    if "bind_enqueue manager_port new req r = (b, r')" "ended_run r' x" for new req r b r' x
    using that manager_bind_open by (simp add: manager_port_def)
  show "ended_run r x" if "ended_run (abort_binding manager_port b r) x" for b r x
    using that by (auto simp: manager_port_def manager_abort_binding_def ended_run_def
        split: option.splits if_splits)
  show "ended_run r x \<or> (x = rs_team_run_id sm \<and> \<not> summary_has_work sm \<and> rs_failed_intent_count sm = 0)"
    if "ended_run (apply_work_summary manager_port now sm r) x" for now sm r x
    using that manager_apply_ended by (simp add: manager_port_def)
  show "ended_run r x" if "manager_side r r'" "ended_run r' x" for r r' x
    using that begin_cancel_ended by (auto simp: manager_side_def) (simp add: ended_run_def)
qed

end
