(* ===== verification/TeamWork.thy ===== *)
theory TeamWork
  imports TeamRun
begin

text \<open>
  The guarantees of a team session: the work coordinator together with the run manager
  behind its causality port. Each property is stated on the operations themselves and
  applied to a small session, \<open>demo\<close>, at the places where it has hypotheses.
\<close>

section \<open>Traces\<close>

text \<open>The decidable part of the guard, and the part about iteration orders.\<close>

fun quick_guard :: "work_batch list \<Rightarrow> 'r slot_work_coordinator \<Rightarrow> work_op \<Rightarrow> bool" where
  "quick_guard B s (Commit now iid lease msg) = (map_of (cs_intents (sc_state s)) iid = None)"
| "quick_guard B s (Reconcile now gen sid unread role) = False"
| "quick_guard B s (Next now bid sid) = (bid \<notin> wb_batch_id ` set B)"
| "quick_guard B s (MarkStarted now batch turn) = (batch \<in> set B)"
| "quick_guard B s (RetryStart now batch) = (batch \<in> set B)"
| "quick_guard B s (CompleteBatch now batch) = (batch \<in> set B)"
| "quick_guard B s (FailBatch now batch cls) = (batch \<in> set B)"
| "quick_guard B s (CancelBatch now batch cls) = (batch \<in> set B)"
| "quick_guard B s _ = True"

fun order_ok :: "work_op \<Rightarrow> bool" where
  "order_ok (CancelRun now ord rid) = iter_order ord"
| "order_ok (SetConstraint now ord sid c) = iter_order ord"
| "order_ok _ = True"

lemma quick_guard: "quick_guard B s op \<Longrightarrow> order_ok op \<Longrightarrow> op_guard B s op"
  by (cases op) auto

fun trace_ok :: "work_op list \<Rightarrow> work_batch list \<Rightarrow> 'r slot_work_coordinator \<Rightarrow> bool" where
  "trace_ok [] B s = True"
| "trace_ok (op # ops) B s = (quick_guard B s op \<and>
     (case exec_op op s of None \<Rightarrow> False | Some (bs, s') \<Rightarrow> trace_ok ops (bs @ B) s'))"

fun trace_end :: "work_op list \<Rightarrow> work_batch list \<Rightarrow> 'r slot_work_coordinator
    \<Rightarrow> work_batch list \<times> 'r slot_work_coordinator" where
  "trace_end [] B s = (B, s)"
| "trace_end (op # ops) B s =
     (case exec_op op s of None \<Rightarrow> (B, s) | Some (bs, s') \<Rightarrow> trace_end ops (bs @ B) s')"

lemma trace_reachable:
  "reachable port side team g r B s \<Longrightarrow> trace_ok ops B s \<Longrightarrow> list_all order_ok ops \<Longrightarrow>
     reachable port side team g r (fst (trace_end ops B s)) (snd (trace_end ops B s))"
proof (induction ops arbitrary: B s)
  case (Cons op ops)
  then obtain bs s1 where op: "quick_guard B s op" "order_ok op" "exec_op op s = Some (bs, s1)"
    "trace_ok ops (bs @ B) s1" by (auto split: option.splits)
  from Cons.IH [OF reachable.step [OF Cons.prems(1) quick_guard [OF op(1,2)] op(3)] op(4)] Cons.prems(3) op(3)
  show ?case by simp
qed simp

lemma iter_order_id [simp]: "iter_order (\<lambda>xs. xs)" "iter_order id"
  by (simp_all add: iter_order_def)

section \<open>A session\<close>

definition demo_ready :: work_op where
  "demo_ready = SetConstraint 1 (\<lambda>xs. xs) ''lead'' RcReady"

definition demo_request :: "work_source \<Rightarrow> causal_binding \<Rightarrow> enqueue_request" where
  "demo_request src b = \<lparr>er_slot_id = ''lead'', er_role = Lead, er_source = src, er_binding = b\<rparr>"

definition demo_lease :: "id \<Rightarrow> work_source \<Rightarrow> enqueue_lease" where
  "demo_lease lid src = \<lparr>el_lease_id = lid, el_session_generation = ''gen'', el_slot_id = ''lead'',
     el_role = Lead, el_source = src, el_team_run_id = Some ''run1''\<rparr>"

definition demo_ops :: "work_op list" where
  "demo_ops =
     [demo_ready,
      Acquire ''l1'' ''run1'' (demo_request UserMessage UserVisible),
      Commit 2 ''i1'' (demo_lease ''l1'' UserMessage) (Some ''m1''),
      Acquire ''l2'' ''run2'' (demo_request McpSendMessage ActiveRunOrBackground),
      Commit 3 ''i2'' (demo_lease ''l2'' McpSendMessage) (Some ''m2'')]"

definition demo_new :: "team_run_manager slot_work_coordinator" where
  "demo_new = new_coordinator ''team'' ''gen'' manager_port (new_manager ''team'')"

definition demo_queued :: "team_run_manager slot_work_coordinator" where
  "demo_queued = snd (trace_end demo_ops [] demo_new)"

definition demo_batch :: work_batch where
  "demo_batch = claimed_batch ''b1'' ''gen'' ''lead'' [''i1''] [''m1''] Foreground [''run1''] 1"

definition demo_started :: "team_run_manager slot_work_coordinator" where
  "demo_started = snd (trace_end (demo_ops @ [Next 4 ''b1'' ''lead'', MarkStarted 5 demo_batch ''t1'']) [] demo_new)"

lemma demo_trace:
  assumes "trace_ok ops [] demo_new" "list_all order_ok ops"
  shows "reachable manager_port manager_side ''team'' ''gen'' (new_manager ''team'')
    (fst (trace_end ops [] demo_new)) (snd (trace_end ops [] demo_new))"
  using trace_reachable [OF reachable.start assms [unfolded demo_new_def]] by (simp add: demo_new_def)

definition demo_done :: "team_run_manager slot_work_coordinator" where
  "demo_done = snd (trace_end (demo_ops @ [Next 4 ''b1'' ''lead'', MarkStarted 5 demo_batch ''t1'',
     CompleteBatch 6 demo_batch]) [] demo_new)"

lemma demo_queued_reachable:
  "reachable manager_port manager_side ''team'' ''gen'' (new_manager ''team'') [] demo_queued"
proof -
  have "trace_ok demo_ops [] demo_new" by code_simp
  moreover have "list_all order_ok demo_ops" by (simp add: demo_ops_def demo_ready_def)
  moreover have "fst (trace_end demo_ops [] demo_new) = []" by code_simp
  ultimately show ?thesis using demo_trace [of demo_ops] by (simp add: demo_queued_def)
qed

lemma demo_started_reachable:
  "reachable manager_port manager_side ''team'' ''gen'' (new_manager ''team'') [demo_batch] demo_started"
proof -
  let ?ops = "demo_ops @ [Next 4 ''b1'' ''lead'', MarkStarted 5 demo_batch ''t1'']"
  have "trace_ok ?ops [] demo_new" by code_simp
  moreover have "list_all order_ok ?ops" by (simp add: demo_ops_def demo_ready_def)
  moreover have "fst (trace_end ?ops [] demo_new) = [demo_batch]" by code_simp
  ultimately show ?thesis using demo_trace [of ?ops] by (simp add: demo_started_def)
qed

lemma demo_done_reachable:
  "reachable manager_port manager_side ''team'' ''gen'' (new_manager ''team'') [demo_batch] demo_done"
proof -
  let ?ops = "demo_ops @ [Next 4 ''b1'' ''lead'', MarkStarted 5 demo_batch ''t1'', CompleteBatch 6 demo_batch]"
  have "trace_ok ?ops [] demo_new" by code_simp
  moreover have "list_all order_ok ?ops" by (simp add: demo_ops_def demo_ready_def)
  moreover have "fst (trace_end ?ops [] demo_new) = [demo_batch]" by code_simp
  ultimately show ?thesis using demo_trace [of ?ops] by (simp add: demo_done_def)
qed

section \<open>Ownership and totality\<close>

lemma queues_disjoint:
  assumes "slot_ok I sid slot" "p \<noteq> q"
  shows "set (queue slot p) \<inter> set (queue slot q) = {}"
  using queue_present [OF assms(1), of _ p] queue_present [OF assms(1), of _ q] assms(2) by fastforce

lemma slot_ids_distinct:
  assumes ok: "slot_ok I sid slot"
  shows "distinct (queued_ids slot @ active_ids slot)"
proof -
  have "distinct (queued_ids slot)"
    using slot_ok_distinctD [OF ok] queues_disjoint [OF ok, of Foreground Control]
      queues_disjoint [OF ok, of Foreground Background] queues_disjoint [OF ok, of Control Background]
      slot_ok_distinctD [OF ok, of Foreground] slot_ok_distinctD [OF ok, of Control]
      slot_ok_distinctD [OF ok, of Background]
    by (auto simp: queued_ids_def)
  moreover have "distinct (active_ids slot)"
    using slot_ok_batchD [OF ok] by (cases "ss_active slot") (auto simp: batch_ok_def)
  moreover have "set (queued_ids slot) \<inter> set (active_ids slot) = {}"
    using slot_ok_disjoint [OF ok] by (cases "ss_active slot") (auto simp: set_queued_ids)
  ultimately show ?thesis by simp
qed

lemma holds_iff_open:
  assumes "state_inv st" "map_of (cs_slots st) sid = Some slot"
  shows "holds slot k \<longleftrightarrow> (\<exists>i. map_of (cs_intents st) k = Some i \<and> wi_slot_id i = sid \<and> \<not> is_terminal (wi_state i))"
  using holds_present [OF work_invD(2) [OF state_invD(5) [OF assms(1)] assms(2)]]
    slot_own [OF state_invD(5) [OF assms(1)] assms(2)] by blast

text \<open>
  C1. In every reachable state of a session, an intent that is not terminal sits at exactly
  one place, a queue or the active batch of its own slot, and an identifier that is not an
  open intent of a slot sits nowhere in it: no work is lost, duplicated or held by a
  foreign slot.
\<close>

theorem open_intent_has_one_owner:
  assumes "reachable port side team generation r B s"
  shows "(\<forall>i. map_of (cs_intents (sc_state s)) k = Some i \<longrightarrow> \<not> is_terminal (wi_state i) \<longrightarrow>
        map_of (cs_slots (sc_state s)) (wi_slot_id i) \<noteq> None)
    \<and> (\<forall>sid slot. map_of (cs_slots (sc_state s)) sid = Some slot \<longrightarrow>
        count_list (queued_ids slot @ active_ids slot) k =
          (case map_of (cs_intents (sc_state s)) k of None \<Rightarrow> 0
           | Some i \<Rightarrow> if wi_slot_id i = sid \<and> \<not> is_terminal (wi_state i) then 1 else 0))"
proof (intro conjI allI impI)
  have inv: "state_inv (sc_state s)" using reachable_inv [OF assms] by blast
  fix i assume i: "map_of (cs_intents (sc_state s)) k = Some i" "\<not> is_terminal (wi_state i)"
  show "map_of (cs_slots (sc_state s)) (wi_slot_id i) \<noteq> None"
    using work_invD(3) [OF state_invD(5) [OF inv] i] by auto
next
  have inv: "state_inv (sc_state s)" using reachable_inv [OF assms] by blast
  fix sid slot assume slot: "map_of (cs_slots (sc_state s)) sid = Some slot"
  have "count_list (queued_ids slot @ active_ids slot) k = (if holds slot k then 1 else 0)"
    using slot_ids_distinct [OF work_invD(2) [OF state_invD(5) [OF inv] slot]]
    by (subst count_list_distinct) (auto simp: holds_def)
  also have "\<dots> = (case map_of (cs_intents (sc_state s)) k of None \<Rightarrow> 0
      | Some i \<Rightarrow> if wi_slot_id i = sid \<and> \<not> is_terminal (wi_state i) then 1 else 0)"
    unfolding holds_iff_open [OF inv slot] by (auto split: option.splits)
  finally show "count_list (queued_ids slot @ active_ids slot) k =
        (case map_of (cs_intents (sc_state s)) k of None \<Rightarrow> 0
         | Some i \<Rightarrow> if wi_slot_id i = sid \<and> \<not> is_terminal (wi_state i) then 1 else 0)" .
qed

theorem open_intent_has_one_owner_witness:
  "\<exists>slot. map_of (cs_slots (sc_state demo_queued)) ''lead'' = Some slot
     \<and> count_list (queued_ids slot @ active_ids slot) ''i2'' = 1"
proof -
  have "map_option queued_ids (map_of (cs_slots (sc_state demo_queued)) ''lead'') = Some [''i1'', ''i2'']"
    by code_simp
  then obtain slot where slot: "map_of (cs_slots (sc_state demo_queued)) ''lead'' = Some slot" by auto
  have "map_option (\<lambda>i. (wi_slot_id i, wi_state i)) (map_of (cs_intents (sc_state demo_queued)) ''i2'')
      = Some (''lead'', Queued)" by code_simp
  then obtain i where "map_of (cs_intents (sc_state demo_queued)) ''i2'' = Some i"
    "wi_slot_id i = ''lead''" "wi_state i = Queued" by auto
  with open_intent_has_one_owner [OF demo_queued_reachable, of "''i2''"] slot show ?thesis by simp
qed

text \<open>
  C2. No operation of the coordinator panics: in a reachable state every call that the
  session can make returns, and the state it leaves is reachable again.
\<close>

theorem no_operation_panics:
  assumes "reachable port side team generation r B s" "op_guard B s op"
  shows "\<exists>bs s'. exec_op op s = Some (bs, s') \<and> reachable port side team generation r (bs @ B) s'"
proof -
  have "\<exists>bs s'. exec_op op s = Some (bs, s')"
    using exec_op_ok [of s B op] reachable_inv [OF assms(1)] assms(2) by blast
  then show ?thesis using reachable.step [OF assms] by blast
qed

theorem no_operation_panics_witness:
  "\<exists>bs s'. exec_op (CompleteBatch 6 demo_batch) demo_started = Some (bs, s')
     \<and> reachable manager_port manager_side ''team'' ''gen'' (new_manager ''team'') (bs @ [demo_batch]) s'"
  using no_operation_panics [OF demo_started_reachable, of "CompleteBatch 6 demo_batch"] by simp

text \<open>
  C3. An operation changes nothing of an existing intent but its state, and the state only
  along the lifecycle: a claim starts from \<open>Queued\<close>, a batch runs only after the same batch
  and operation started it, and a terminal intent never changes again.
\<close>

theorem intent_lifecycle:
  assumes "reachable port side team generation r B s" "op_guard B s op" "exec_op op s = Some (bs, s')"
    and "map_of (cs_intents (sc_state s)) k = Some i"
  shows "\<exists>ws. map_of (cs_intents (sc_state s')) k = Some (i\<lparr>wi_state := ws\<rparr>) \<and> life_step (wi_state i) ws
    \<and> (is_terminal (wi_state i) \<longrightarrow> ws = wi_state i)"
proof -
  have "evolves (map_of (cs_intents (sc_state s))) (map_of (cs_intents (sc_state s')))"
    using exec_op_ok [of s B op] reachable_inv [OF assms(1)] assms(2,3) by (auto simp: step_ok_def)
  with assms(4) obtain ws where "map_of (cs_intents (sc_state s')) k = Some (i\<lparr>wi_state := ws\<rparr>)"
    "life_step (wi_state i) ws" by (auto simp: evolves_def)
  then show ?thesis using life_step_terminal by blast
qed

theorem intent_lifecycle_witness:
  "\<exists>i s' ws. map_of (cs_intents (sc_state demo_started)) ''i1'' = Some i
     \<and> wi_state i = Running ''b1'' 1 ''t1''
     \<and> exec_op (FailBatch 6 demo_batch ''boom'') demo_started = Some ([], s')
     \<and> map_of (cs_intents (sc_state s')) ''i1'' = Some (i\<lparr>wi_state := ws\<rparr>) \<and> life_step (wi_state i) ws"
proof -
  have "map_option wi_state (map_of (cs_intents (sc_state demo_started)) ''i1'') = Some (Running ''b1'' 1 ''t1'')"
    by code_simp
  then obtain i where i: "map_of (cs_intents (sc_state demo_started)) ''i1'' = Some i"
    "wi_state i = Running ''b1'' 1 ''t1''" by auto
  have "map_option fst (exec_op (FailBatch 6 demo_batch ''boom'') demo_started) = Some []" by code_simp
  then obtain s' where s': "exec_op (FailBatch 6 demo_batch ''boom'') demo_started = Some ([], s')"
    by auto
  from intent_lifecycle [OF demo_started_reachable _ s' i(1)] i s' show ?thesis by fastforce
qed

section \<open>Claiming, settling, retrying\<close>

lemma messages_of_all:
  assumes "\<And>k. k \<in> set ks \<Longrightarrow> message_of I k \<noteq> None"
  shows "messages_of I ks = map (\<lambda>k. the (message_of I k)) ks"
  using assms
proof (induction ks)
  case (Cons k ks)
  from Cons.prems [of k] obtain m where "message_of I k = Some m" by auto
  with Cons show ?case by simp
qed simp

lemma has_message_iff: "has_message m k \<longleftrightarrow> message_of (map_of m) k \<noteq> None"
  by (auto simp: has_message_def message_of_def split: option.splits)

text \<open>
  C4. When \<open>next\<close> claims a batch, the slot was free, ready and not paused; the batch holds
  exactly the message-carrying intents of the first non-empty queue, in queue order, with
  their messages in the same order, and every queue of higher priority was empty. The
  claimed intents are \<open>Starting\<close> under the batch's id and operation, and leave the queue.
\<close>

theorem next_claims_first_queue:
  assumes "reachable port side team generation r B s"
    and "next_work now bid sid s = Some (Claim b, s')"
  shows "\<exists>slot slot'. map_of (cs_slots (sc_state s)) sid = Some slot
    \<and> ss_active slot = None \<and> ss_runtime_constraint slot = RcReady \<and> \<not> ss_paused slot
    \<and> (\<forall>q < wb_highest_priority b. queue slot q = [])
    \<and> wb_intent_ids b = filter (has_message (cs_intents (sc_state s))) (queue slot (wb_highest_priority b))
    \<and> wb_intent_ids b \<noteq> []
    \<and> map Some (wb_mailbox_message_ids b) = map (message_of (map_of (cs_intents (sc_state s)))) (wb_intent_ids b)
    \<and> (\<forall>k \<in> set (wb_intent_ids b). \<exists>i. map_of (cs_intents (sc_state s')) k = Some i
         \<and> wi_state i = Starting bid (wb_operation_id b))
    \<and> map_of (cs_slots (sc_state s')) sid = Some slot'
    \<and> ss_active slot' = Some \<lparr>ab_batch = b, ab_turn_id = None, ab_started_at_ms = None\<rparr>
    \<and> (\<forall>q. queue slot' q = filter (\<lambda>k. k \<notin> set (wb_intent_ids b)) (queue slot q))"
proof -
  have inv: "state_inv (sc_state s)" using reachable_inv [OF assms(1)] by blast
  let ?I = "map_of (cs_intents (sc_state s))"
  show ?thesis using inv refl [of "next_work now bid sid s"]
  proof (cases rule: next_work_cases)
    case (same d)
    with assms(2) show ?thesis by simp
  next
    case (claim batch slot st1)
    with assms(2) have b: "batch = b" "sc_state s' = st1" "wb_batch_id b = bid" by auto
    note c = claim(3) [unfolded claims_def b]
    have ids: "set (wb_intent_ids b) \<subseteq> set (queue slot (wb_highest_priority b))" using c by auto
    have slot: "map_of (cs_slots (sc_state s)) sid = Some slot" using c by blast
    note ok = work_invD(2) [OF state_invD(5) [OF inv] slot]
    have msgs: "message_of ?I k \<noteq> None" if "k \<in> set (wb_intent_ids b)" for k
      using c that by (simp add: has_message_iff)
    have "map Some (wb_mailbox_message_ids b) = map (message_of ?I) (wb_intent_ids b)"
      using c msgs messages_of_all [of "wb_intent_ids b" ?I] by simp
    moreover have "\<exists>i. map_of (cs_intents st1) k = Some i \<and> wi_state i = Starting bid (wb_operation_id b)"
      if "k \<in> set (wb_intent_ids b)" for k
    proof -
      from queue_present [OF ok, of k] ids that obtain i where "?I k = Some i" by blast
      with c that b(3) show ?thesis by (simp add: loop_simps restate_on_def claim_state_def)
    qed
    moreover have "map_of (cs_slots st1) sid = Some (claimed_slot b slot)" using c by (simp add: table_simps)
    ultimately show ?thesis
      using c selected_priority_Some [of slot "wb_highest_priority b"] unfolding b(2)
      by (intro exI [of _ slot] exI [of _ "claimed_slot b slot"]) auto
  qed
qed

theorem next_claims_first_queue_witness:
  "\<exists>s' slot slot'. next_work 4 ''b1'' ''lead'' demo_queued = Some (Claim demo_batch, s')
     \<and> map_of (cs_slots (sc_state demo_queued)) ''lead'' = Some slot
     \<and> map_of (cs_slots (sc_state s')) ''lead'' = Some slot' \<and> queue slot' Background = [''i2'']
     \<and> map Some (wb_mailbox_message_ids demo_batch) = [Some ''m1'']"
proof -
  have "map_option fst (next_work 4 ''b1'' ''lead'' demo_queued) = Some (Claim demo_batch)" by code_simp
  then obtain s' where s': "next_work 4 ''b1'' ''lead'' demo_queued = Some (Claim demo_batch, s')" by auto
  have q: "map_option (\<lambda>slot. queue slot Background) (map_of (cs_slots (sc_state demo_queued)) ''lead'') = Some [''i2'']"
    by code_simp
  have "wb_intent_ids demo_batch = [''i1'']" "wb_mailbox_message_ids demo_batch = [''m1'']"
    by (simp_all add: demo_batch_def claimed_batch_def)
  with next_claims_first_queue [OF demo_queued_reachable s'] s' q show ?thesis
    by (auto simp del: queue.simps)
qed



text \<open>
  Claiming a batch and retrying its start gives the claim back: the claimed intents are
  \<open>Queued\<close> again at the front of their queue in their old order, ahead of the signals that
  stayed, the slot is free, and every other queue and slot is as before the claim.
\<close>

theorem claim_retry_roundtrip:
  assumes "reachable port side team generation r B s"
    and "next_work now bid sid s = Some (Claim b, s1)" "map_of (cs_slots (sc_state s)) sid = Some slot"
  shows "\<exists>s2 slot2. retry_start now2 b s1 = Some (Committed, s2)
    \<and> map_of (cs_intents (sc_state s2)) = map_of (cs_intents (sc_state s))
    \<and> map_of (cs_slots (sc_state s2)) = (map_of (cs_slots (sc_state s)))(sid \<mapsto> slot2)
    \<and> ss_active slot2 = None
    \<and> (\<forall>q. queue slot2 q =
         (if q = wb_highest_priority b
          then filter (has_message (cs_intents (sc_state s))) (queue slot q)
               @ filter (\<lambda>k. \<not> has_message (cs_intents (sc_state s)) k) (queue slot q)
          else queue slot q))"
proof -
  have inv: "state_inv (sc_state s)" using reachable_inv [OF assms(1)] by blast
  let ?I = "map_of (cs_intents (sc_state s))" and ?p = "wb_highest_priority b"
  note ok = work_invD(2) [OF state_invD(5) [OF inv] assms(3)]
  show ?thesis using inv refl [of "next_work now bid sid s"]
  proof (cases rule: next_work_cases)
    case (same d)
    with assms(2) show ?thesis by simp
  next
    case (claim batch slot' st1)
    with assms(2) have b: "batch = b" "sc_state s1 = st1" "sc_session_generation s1 = sc_session_generation s"
      by auto
    have slot': "slot' = slot" using claim(3) assms(3) by (simp add: claims_def)
    note c = claim(3) [unfolded claims_def b slot']
    have I1: "map_of (cs_intents st1) = restate_on (\<lambda>_. claim_state b) (set (wb_intent_ids b)) ?I"
      using c by (simp add: loop_simps)
    have S1: "map_of (cs_slots st1) = (map_of (cs_slots (sc_state s)))(sid \<mapsto> claimed_slot b slot)"
      using c by (simp add: table_simps)
    have cur: "is_current_batch s1 b" "map_of (cs_slots (sc_state s1)) (wb_slot_id b) = Some (claimed_slot b slot)"
      using c b S1 by (simp_all add: is_current_batch_def)
    from retry_start_current [OF cur, of now2] obtain s2 where s2: "retry_start now2 b s1 = Some (Committed, s2)"
      "sc_state s2 = st1\<lparr>cs_intents := set_intent_states Queued (wb_intent_ids b) (cs_intents st1),
        cs_slots := AList.update (wb_slot_id b) (requeued_slot b (claimed_slot b slot)) (cs_slots st1)\<rparr>"
      unfolding b(2) by blast
    have "restate_on (\<lambda>_. Queued) (set (wb_intent_ids b)) (restate_on (\<lambda>_. claim_state b) (set (wb_intent_ids b)) ?I) = ?I"
    proof
      fix k
      show "restate_on (\<lambda>_. Queued) (set (wb_intent_ids b)) (restate_on (\<lambda>_. claim_state b) (set (wb_intent_ids b)) ?I) k = ?I k"
      proof (cases "k \<in> set (wb_intent_ids b)")
        case True
        then have "k \<in> set (queue slot ?p)" using c by auto
        from queue_present [OF ok this] True show ?thesis
          by (auto simp: restate_on_def restate_def)
      qed (simp add: restate_on_def)
    qed
    then have "map_of (cs_intents (sc_state s2)) = ?I"
      by (simp add: s2(2) set_intent_states_restate loop_simps I1)
    moreover have "map_of (cs_slots (sc_state s2)) =
        (map_of (cs_slots (sc_state s)))(sid \<mapsto> requeued_slot b (claimed_slot b slot))"
      using c S1 by (simp add: s2(2) table_simps)
    moreover have "queue (requeued_slot b (claimed_slot b slot)) q = (if q = ?p
        then filter (has_message (cs_intents (sc_state s))) (queue slot q)
             @ filter (\<lambda>k. \<not> has_message (cs_intents (sc_state s)) k) (queue slot q) else queue slot q)" for q
    proof (cases "q = ?p")
      case True
      have "wb_intent_ids b = filter (has_message (cs_intents (sc_state s))) (queue slot ?p)" using c by blast
      with True show ?thesis by (auto intro!: filter_cong)
    next
      case False
      have "wb_intent_ids b = filter (has_message (cs_intents (sc_state s))) (queue slot ?p)" using c by blast
      with False queues_disjoint [OF ok False] show ?thesis by (auto intro!: filter_True)
    qed
    ultimately show ?thesis using s2(1)
      by (intro exI [of _ s2] exI [of _ "requeued_slot b (claimed_slot b slot)"]) simp
  qed
qed

theorem claim_retry_roundtrip_witness:
  "\<exists>s1 s2. next_work 4 ''b1'' ''lead'' demo_queued = Some (Claim demo_batch, s1)
     \<and> retry_start 5 demo_batch s1 = Some (Committed, s2)
     \<and> map_of (cs_intents (sc_state s2)) = map_of (cs_intents (sc_state demo_queued))"
proof -
  have "map_option fst (next_work 4 ''b1'' ''lead'' demo_queued) = Some (Claim demo_batch)" by code_simp
  then obtain s1 where s1: "next_work 4 ''b1'' ''lead'' demo_queued = Some (Claim demo_batch, s1)" by auto
  have "map_option (\<lambda>_. ()) (map_of (cs_slots (sc_state demo_queued)) ''lead'') = Some ()" by code_simp
  then obtain slot where "map_of (cs_slots (sc_state demo_queued)) ''lead'' = Some slot" by auto
  from claim_retry_roundtrip [OF demo_queued_reachable s1 this, of 5] s1 show ?thesis by blast
qed

text \<open>
  C6. A batch that has lost its slot can never act again: once it is issued and not active,
  no later operation makes it active, and presenting it to the coordinator is answered with
  \<open>StaleOwner\<close> (or an immediate cancel for a start) and changes nothing.
\<close>

theorem lost_batch_stays_lost:
  assumes "reachable port side team generation r B s" "b \<in> set B" "b \<notin> active_batches (sc_state s)"
    and "op_guard B s op" "exec_op op s = Some (bs, s')"
  shows "b \<notin> active_batches (sc_state s')
    \<and> retry_start now b s' = Some (StaleOwner, s') \<and> complete_batch now b s' = Some (StaleOwner, s')
    \<and> fail_batch now b cls s' = Some (StaleOwner, s') \<and> cancel_batch now b cls s' = Some (StaleOwner, s')
    \<and> snd (mark_started now b turn s') = s' \<and> fst (mark_started now b turn s') \<noteq> StartAccepted"
proof -
  have inv: "state_inv (sc_state s)" "issued_ok B s" using reachable_inv [OF assms(1)] by auto
  from exec_op_ok [OF inv assms(4)] assms(5) have step: "step_ok bs s s'" "issued_ok (bs @ B) s'" by auto
  have "b \<notin> set bs"
  proof
    assume "b \<in> set bs"
    moreover from assms(5) this obtain now bid sid where op: "op = Next now bid sid" by (cases op) auto
    ultimately have "wb_batch_id b = bid"
      using next_work_ok [OF inv(1), of now bid sid] assms(5) by auto
    with assms(2,4) op show False by auto
  qed
  with assms(3) step(1) have gone: "b \<notin> active_batches (sc_state s')" by (auto simp: step_ok_def)
  have "\<not> is_current_batch s' b"
  proof
    assume cur: "is_current_batch s' b"
    from current_batchE [OF cur issued_genuine [OF step(2)]] assms(2) obtain slot a where
      "map_of (cs_slots (sc_state s')) (wb_slot_id b) = Some slot" "ss_active slot = Some a" "ab_batch a = b"
      by auto
    then have "active_of (sc_state s') (wb_slot_id b) = Some a" "ab_batch a = b" by simp_all
    then have "b \<in> active_batches (sc_state s')" unfolding active_batches_def by blast
    with gone show False by simp
  qed
  with gone show ?thesis
    by (simp add: retry_start_stale complete_batch_def fail_batch_def cancel_batch_def
        terminalize_batch_stale mark_started_stale)
qed

theorem lost_batch_stays_lost_witness:
  "\<exists>s'. exec_op (Pause ''lead'') demo_done = Some ([], s') \<and> demo_batch \<notin> active_batches (sc_state s')
     \<and> complete_batch 7 demo_batch s' = Some (StaleOwner, s')"
proof -
  have "map_option fst (exec_op (Pause ''lead'') demo_done) = Some []" by code_simp
  then obtain s' where s': "exec_op (Pause ''lead'') demo_done = Some ([], s')" by auto
  have "map (\<lambda>(sid, slot). ss_active slot) (cs_slots (sc_state demo_done)) = [None]" by code_simp
  then have "active_of (sc_state demo_done) sid = None" for sid
    by (auto simp: active_of_def bind_eq_None_conv dest!: map_of_SomeD)
  then have "demo_batch \<notin> active_batches (sc_state demo_done)" by (simp add: active_batches_def)
  from lost_batch_stays_lost [OF demo_done_reachable _ this _ s', of 7] s' show ?thesis
    by (intro exI [of _ s']) simp
qed

section \<open>Ending work without its owner\<close>

text \<open>
  C7. Cancelling a run ends all of its work and nothing else: afterwards the run has no open
  intent and no enqueue lease, its summary says so, its open intents are
  \<open>Cancelled "run_cancelled"\<close>, and an intent of another run keeps its state unless it
  shared a batch with the run, in which case it is queued again. Leases of other runs stay.
\<close>

theorem cancel_run_ends_exactly_the_run:
  assumes "reachable port side team generation r B s" "iter_order ord"
  shows "\<exists>res s'. cancel_run now ord rid s = Some (res, s')
    \<and> \<not> work_of (sc_state s') rid \<and> \<not> summary_has_work (cw_summary res)
    \<and> (\<forall>k i. map_of (cs_intents (sc_state s)) k = Some i \<longrightarrow>
         map_of (cs_intents (sc_state s')) k = Some (i\<lparr>wi_state :=
           (if wi_team_run_id i = Some rid \<and> \<not> is_terminal (wi_state i) then Cancelled ''run_cancelled''
            else if affected_batch rid (sc_state s) k then Queued else wi_state i)\<rparr>))
    \<and> (\<forall>k l. map_of (cs_enqueue_leases (sc_state s')) k = Some l \<longleftrightarrow>
         map_of (cs_enqueue_leases (sc_state s)) k = Some l \<and> el_team_run_id (lr_lease l) \<noteq> Some rid)"
proof -
  have inv: "state_inv (sc_state s)" using reachable_inv [OF assms(1)] by blast
  from cancel_run_spec [OF inv assms(2), of now rid] obtain res s' where s':
    "cancel_run now ord rid s = Some (res, s')" "state_inv (sc_state s')"
    "\<forall>k. map_of (cs_intents (sc_state s')) k =
       map_option (cancelled_intent rid (sc_state s) k) (map_of (cs_intents (sc_state s)) k)"
    "\<forall>k. map_of (cs_enqueue_leases (sc_state s')) k =
       (case map_of (cs_enqueue_leases (sc_state s)) k of None \<Rightarrow> None
        | Some l \<Rightarrow> if el_team_run_id (lr_lease l) = Some rid then None else Some l)"
    "cw_summary res = run_summary_locked (sc_state s') rid" by blast
  have leases: "map_of (cs_enqueue_leases (sc_state s')) k = Some l \<longleftrightarrow>
      map_of (cs_enqueue_leases (sc_state s)) k = Some l \<and> el_team_run_id (lr_lease l) \<noteq> Some rid" for k l
    by (auto simp: s'(4) split: option.splits if_splits)
  have "is_terminal (wi_state i)"
    if "map_of (cs_intents (sc_state s')) k = Some i" "wi_team_run_id i = Some rid" for k i
  proof -
    from that(1) obtain z where z: "map_of (cs_intents (sc_state s)) k = Some z"
      "i = cancelled_intent rid (sc_state s) k z" by (auto simp: s'(3))
    then have "wi_team_run_id z = Some rid" using that(2) by (simp add: cancelled_intent_def split: if_splits)
    with z affected_open [OF inv z(1)] show ?thesis by (auto simp: cancelled_intent_def)
  qed
  then have "\<not> work_of (sc_state s') rid" using leases by (auto simp: work_of_def)
  moreover from this have "\<not> summary_has_work (cw_summary res)"
    using summary_has_work_iff [OF s'(2)] by (simp add: s'(5))
  moreover have "map_of (cs_intents (sc_state s')) k = Some (i\<lparr>wi_state :=
           (if wi_team_run_id i = Some rid \<and> \<not> is_terminal (wi_state i) then Cancelled ''run_cancelled''
            else if affected_batch rid (sc_state s) k then Queued else wi_state i)\<rparr>)"
    if "map_of (cs_intents (sc_state s)) k = Some i" for k i
    using that by (simp add: s'(3) cancelled_intent_def)
  ultimately show ?thesis using s'(1) leases by blast
qed

theorem cancel_run_ends_exactly_the_run_witness:
  "\<exists>res s'. cancel_run 7 (\<lambda>xs. xs) ''run1'' demo_started = Some (res, s') \<and> \<not> work_of (sc_state s') ''run1''"
  using cancel_run_ends_exactly_the_run [OF demo_started_reachable iter_order_id(1), of 7 "''run1''"] by blast

text \<open>
  Stopping the session ends everything: every intent is terminal (an open one becomes
  \<open>Cancelled "session_stopped"\<close>), there is no lease, no queue entry and no active batch, the
  summaries returned report no work, and every known slot refuses new enqueues.
\<close>

theorem stop_ends_everything:
  assumes "reachable port side team generation r B s"
  shows "(\<forall>k i. map_of (cs_intents (sc_state s)) k = Some i \<longrightarrow>
        map_of (cs_intents (sc_state (snd (stop_work now s)))) k = Some (i\<lparr>wi_state :=
          (if is_terminal (wi_state i) then wi_state i else Cancelled ''session_stopped'')\<rparr>))
    \<and> cs_enqueue_leases (sc_state (snd (stop_work now s))) = []
    \<and> (\<forall>sid slot. map_of (cs_slots (sc_state (snd (stop_work now s)))) sid = Some slot \<longrightarrow>
        queued_ids slot = [] \<and> ss_active slot = None)
    \<and> (\<forall>sm \<in> set (fst (stop_work now s)). \<not> summary_has_work sm)
    \<and> (map_of (cs_slots (sc_state s)) (er_slot_id req) \<noteq> None \<longrightarrow>
        (\<exists>e. fst (acquire_enqueue lid rid req (snd (stop_work now s))) = Inl e))"
proof (intro conjI allI impI ballI)
  let ?st = "sc_state (snd (stop_work now s))"
  have inv: "state_inv (sc_state s)" using reachable_inv [OF assms] by blast
  fix k i assume "map_of (cs_intents (sc_state s)) k = Some i"
  then show "map_of (cs_intents ?st) k = Some (i\<lparr>wi_state :=
      (if is_terminal (wi_state i) then wi_state i else Cancelled ''session_stopped'')\<rparr>)"
    by (simp add: stop_work_state table_simps stopped_intent_def)
next
  fix sid slot assume "map_of (cs_slots (sc_state (snd (stop_work now s)))) sid = Some slot"
  then obtain slot0 where "slot = stopped_slot slot0" by (auto simp: stop_work_state table_simps)
  then show "queued_ids slot = []" "ss_active slot = None" by (simp_all add: queued_ids_empty_iff)
next
  let ?st = "sc_state (snd (stop_work now s))"
  fix sm assume "sm \<in> set (fst (stop_work now s))"
  then obtain x where sm: "sm = run_summary_locked ?st x"
    by (auto simp: stop_work_state) (auto simp: stop_work_def Let_def stopped_intent_def stopped_slot_def)
  have "\<not> work_of ?st x" by (auto simp: work_of_def stop_work_state table_simps)
  then show "\<not> summary_has_work sm"
    using summary_has_work_iff [OF stop_work_inv [of s now]] reachable_inv [OF assms] by (simp add: sm)
next
  assume "map_of (cs_slots (sc_state s)) (er_slot_id req) \<noteq> None"
  then obtain slot where "map_of (cs_slots (sc_state s)) (er_slot_id req) = Some slot" by auto
  then have "\<exists>e. validate_enqueue_constraint (er_slot_id req)
      (acquired_slot req (sc_state (snd (stop_work now s)))) = Inl e"
    by (auto simp: acquired_slot_def entry_or_def stop_work_state table_simps
        validate_enqueue_constraint.simps)
  then show "\<exists>e. fst (acquire_enqueue lid rid req (snd (stop_work now s))) = Inl e"
    by (simp add: acquire_enqueue_Inl(1))
qed (simp add: stop_work_state)

theorem stop_ends_everything_witness:
  "cs_enqueue_leases (sc_state (snd (stop_work 8 demo_started))) = []
   \<and> (\<exists>e. fst (acquire_enqueue ''l3'' ''run3'' (demo_request UserMessage UserVisible)
        (snd (stop_work 8 demo_started))) = Inl e)"
proof -
  have "map_option (\<lambda>_. ()) (map_of (cs_slots (sc_state demo_started)) ''lead'') = Some ()" by code_simp
  then have "map_of (cs_slots (sc_state demo_started)) (er_slot_id (demo_request UserMessage UserVisible)) \<noteq> None"
    by (auto simp: demo_request_def)
  then show ?thesis
    using stop_ends_everything [OF demo_started_reachable, of 8 "demo_request UserMessage UserVisible"] by simp
qed

lemma fold_push_back_constraint [simp]:
  "ss_runtime_constraint (fold (\<lambda>(p, i). queue_mut p (\<lambda>q. q @ [i])) ps slot) = ss_runtime_constraint slot"
  by (induction ps arbitrary: slot) auto

lemma constrained_slot_constraint [simp]: "ss_runtime_constraint (constrained_slot c I ks slot) = c"
  by (simp add: constrained_slot_def clear_queues_def)

text \<open>
  When the runtime of a slot fails, every open intent of the slot that belongs to a run
  fails with the given classification, every open intent without a run is queued again, no
  other intent changes, the slot has no active batch and its queues hold exactly the intents
  that survived, and the slot refuses new enqueues.
\<close>

theorem failed_runtime_fails_run_work:
  assumes "reachable port side team generation r B s" "iter_order ord"
  shows "\<exists>u s' slot'. set_runtime_constraint now ord sid (RcFailed e cls) s = Some (u, s')
    \<and> (\<forall>k i. map_of (cs_intents (sc_state s)) k = Some i \<longrightarrow>
         map_of (cs_intents (sc_state s')) k = Some (i\<lparr>wi_state :=
           (if wi_slot_id i = sid \<and> \<not> is_terminal (wi_state i)
            then (if wi_team_run_id i = None then Queued else Failed cls) else wi_state i)\<rparr>))
    \<and> map_of (cs_slots (sc_state s')) sid = Some slot' \<and> ss_active slot' = None
    \<and> set (queued_ids slot') = {k. \<exists>i. map_of (cs_intents (sc_state s)) k = Some i \<and> wi_slot_id i = sid
         \<and> \<not> is_terminal (wi_state i) \<and> wi_team_run_id i = None}
    \<and> (er_slot_id req = sid \<longrightarrow> (\<exists>err. fst (acquire_enqueue lid rid req s') = Inl err))"
proof -
  let ?I = "map_of (cs_intents (sc_state s))" and ?ks = "ord (slot_open_ids sid (sc_state s))"
  have inv: "state_inv (sc_state s)" using reachable_inv [OF assms(1)] by blast
  have cls: "constraint_classification (RcFailed e cls) = Some cls" by simp
  define slot' where "slot' = constrained_slot (RcFailed e cls) ?I ?ks
    (entry_or sid (new_slot Teammate) (cs_slots (sc_state s)))"
  from set_runtime_constraint_ending [OF inv assms(2) cls, of now sid] obtain u s' where
    s': "set_runtime_constraint now ord sid (RcFailed e cls) s = Some (u, s')"
    "sc_state s' = (sc_state s)\<lparr>
        cs_intents := modify_all (restate (constrained_state (RcFailed e cls) cls)) ?ks (cs_intents (sc_state s)),
        cs_slots := AList.update sid slot' (cs_slots (sc_state s))\<rparr>"
    unfolding slot'_def by blast
  have ks: "set ?ks = {k. \<exists>i. ?I k = Some i \<and> wi_slot_id i = sid \<and> \<not> is_terminal (wi_state i)}"
    using iter_orderD(1) [OF assms(2)] slot_open_ids_spec(1) [OF inv] by simp
  have "map_of (cs_intents (sc_state s')) k = Some (i\<lparr>wi_state :=
      (if wi_slot_id i = sid \<and> \<not> is_terminal (wi_state i)
       then (if wi_team_run_id i = None then Queued else Failed cls) else wi_state i)\<rparr>)" if "?I k = Some i" for k i
    using that ks by (auto simp: s'(2) loop_simps restate_on_def restate_def constrained_state_def)
  moreover have "set (queued_ids slot') = {k. \<exists>i. ?I k = Some i \<and> wi_slot_id i = sid
      \<and> \<not> is_terminal (wi_state i) \<and> wi_team_run_id i = None}"
    using ks by (auto simp: slot'_def set_queued_ids)
  moreover have "map_of (cs_slots (sc_state s')) sid = Some slot'" "ss_active slot' = None"
    by (simp_all add: s'(2) table_simps slot'_def)
  moreover have "\<exists>err. fst (acquire_enqueue lid rid req s') = Inl err" if "er_slot_id req = sid"
    unfolding acquire_enqueue_Inl(1)
    by (auto simp: s'(2) acquired_slot_def entry_or_def table_simps that slot'_def
        validate_enqueue_constraint.simps)
  ultimately show ?thesis using s'(1) by blast
qed

theorem failed_runtime_fails_run_work_witness:
  "\<exists>u s' slot'. set_runtime_constraint 7 (\<lambda>xs. xs) ''lead'' (RcFailed 2 ''crash'') demo_started = Some (u, s')
     \<and> map_of (cs_slots (sc_state s')) ''lead'' = Some slot' \<and> ss_active slot' = None"
  using failed_runtime_fails_run_work [OF demo_started_reachable iter_order_id(1), of 7 "''lead''" 2 "''crash''"]
  by blast

text \<open>
  Reconciling a slot with its mailbox loses no message and keeps no stale one: every
  unread message is afterwards carried by an open intent of the slot, every queued intent of
  the slot carries an unread message or none, an intent that existed before is unchanged
  unless it was queued for a message that is no longer unread (then it is completed), and a
  new intent is a queued recovery of an unread message that belongs to no run.
\<close>

theorem reconcile_tracks_mailbox:
  assumes "reachable port side team generation r B s" "fresh_supply gen 0 (sc_state s)"
  shows "\<exists>proj s'. reconcile_mailbox now gen sid unread role s = Some (proj, s')
    \<and> (\<forall>m \<in> set unread. \<exists>k i. map_of (cs_intents (sc_state s')) k = Some i \<and> wi_slot_id i = sid
         \<and> wi_mailbox_message_id i = Some m \<and> \<not> is_terminal (wi_state i))
    \<and> (\<forall>k i. map_of (cs_intents (sc_state s')) k = Some i \<longrightarrow> wi_slot_id i = sid \<longrightarrow> wi_state i = Queued \<longrightarrow>
         set_option (wi_mailbox_message_id i) \<subseteq> set unread)
    \<and> (\<forall>k i. map_of (cs_intents (sc_state s)) k = Some i \<longrightarrow>
         (\<exists>ws. map_of (cs_intents (sc_state s')) k = Some (i\<lparr>wi_state := ws\<rparr>) \<and> (ws = wi_state i \<or>
            ws = Completed \<and> wi_state i = Queued \<and> wi_slot_id i = sid
              \<and> (\<exists>m. wi_mailbox_message_id i = Some m \<and> m \<notin> set unread))))
    \<and> (\<forall>k i. map_of (cs_intents (sc_state s')) k = Some i \<longrightarrow> map_of (cs_intents (sc_state s)) k = None \<longrightarrow>
         k \<in> set (rp_created_recovery_intent_ids proj) \<and> wi_slot_id i = sid \<and> wi_state i = Queued
         \<and> wi_team_run_id i = None \<and> (\<exists>m \<in> set unread. wi_mailbox_message_id i = Some m))"
proof -
  have inv: "state_inv (sc_state s)" using reachable_inv [OF assms(1)] by blast
  from reconcile_mailbox_spec [OF inv assms(2)] obtain proj st' where r:
    "reconcile_mailbox now gen sid unread role s = Some (proj, s\<lparr>sc_state := st'\<rparr>)" "state_inv st'"
    "reconciled sid unread proj (sc_state s) st'" by blast
  note c = r(3) [unfolded reconciled_def]
  have "\<exists>ws. map_of (cs_intents st') k = Some (i\<lparr>wi_state := ws\<rparr>) \<and> (ws = wi_state i \<or>
      ws = Completed \<and> wi_state i = Queued \<and> wi_slot_id i = sid
        \<and> (\<exists>m. wi_mailbox_message_id i = Some m \<and> m \<notin> set unread))"
    if i: "map_of (cs_intents (sc_state s)) k = Some i" for k i
  proof (cases "k \<in> set (rp_cleared_stale_intent_ids proj)")
    case True
    then obtain j where "map_of (cs_intents (sc_state s)) k = Some j" "wi_slot_id j = sid" "wi_state j = Queued"
      "\<exists>m. wi_mailbox_message_id j = Some m \<and> m \<notin> set unread" using c by blast
    moreover have "map_of (cs_intents st') k = Some (restate (\<lambda>_. Completed) i)" using c i True by simp
    ultimately show ?thesis using i by (intro exI [of _ Completed]) (auto simp: restate_def)
  next
    case False
    with c i have "map_of (cs_intents st') k = Some i" by simp
    then show ?thesis by (intro exI [of _ "wi_state i"]) simp
  qed
  moreover have "\<exists>k i. map_of (cs_intents st') k = Some i \<and> wi_slot_id i = sid
         \<and> wi_mailbox_message_id i = Some m \<and> \<not> is_terminal (wi_state i)" if "m \<in> set unread" for m
    using c that by (simp add: already_owned_iff [OF state_invD(2) [OF r(2)]])
  ultimately show ?thesis
    using r(1) c by (intro exI [of _ proj] exI [of _ "s\<lparr>sc_state := st'\<rparr>"]) simp
qed

definition demo_ids :: "nat \<Rightarrow> id" where
  "demo_ids n = ''rec'' @ replicate n (CHR ''x'')"

lemma demo_ids_fresh: "fresh_supply demo_ids 0 (sc_state demo_queued)"
proof -
  have "map fst (cs_intents (sc_state demo_queued)) = [''i1'', ''i2'']" by code_simp
  then have "set (map fst (cs_intents (sc_state demo_queued))) = {''i1'', ''i2''}" by (simp del: set_map)
  then have "dom (map_of (cs_intents (sc_state demo_queued))) = {''i1'', ''i2''}"
    unfolding dom_map_of_conv_image_fst set_map .
  moreover have "demo_ids n \<notin> {''i1'', ''i2''}" for n by (simp add: demo_ids_def)
  ultimately have "map_of (cs_intents (sc_state demo_queued)) (demo_ids n) = None" for n
    unfolding domIff [symmetric] by blast
  moreover have "inj demo_ids" by (rule injI) (simp add: demo_ids_def)
  ultimately show ?thesis by (simp add: fresh_supply_def)
qed

theorem reconcile_tracks_mailbox_witness:
  "\<exists>proj s'. reconcile_mailbox 9 demo_ids ''lead'' [''m2'', ''m7''] Lead demo_queued = Some (proj, s')
     \<and> (\<forall>m \<in> {''m2'', ''m7''}. \<exists>k i. map_of (cs_intents (sc_state s')) k = Some i \<and> wi_slot_id i = ''lead''
          \<and> wi_mailbox_message_id i = Some m \<and> \<not> is_terminal (wi_state i))"
proof -
  from reconcile_tracks_mailbox [OF demo_queued_reachable demo_ids_fresh, of 9 "''lead''" "[''m2'', ''m7'']" Lead]
  obtain proj s' where
    "reconcile_mailbox 9 demo_ids ''lead'' [''m2'', ''m7''] Lead demo_queued = Some (proj, s')"
    "\<forall>m \<in> set [''m2'', ''m7'']. \<exists>k i. map_of (cs_intents (sc_state s')) k = Some i \<and> wi_slot_id i = ''lead''
       \<and> wi_mailbox_message_id i = Some m \<and> \<not> is_terminal (wi_state i)" by blast
  then show ?thesis unfolding list.set by blast
qed

text \<open>
  Removing a known slot cancels exactly its open intents as \<open>slot_removed\<close>, reports their
  messages, empties the slot, leaves every other slot alone, and the slot refuses enqueues
  from then on.
\<close>

theorem removed_slot_is_closed:
  assumes "reachable port side team generation r B s" "map_of (cs_slots (sc_state s)) sid = Some slot"
  shows "\<exists>res s' slot'. remove_slot now sid s = Some (res, s')
    \<and> (\<forall>k i. map_of (cs_intents (sc_state s)) k = Some i \<longrightarrow>
         map_of (cs_intents (sc_state s')) k = Some (i\<lparr>wi_state :=
           (if wi_slot_id i = sid \<and> \<not> is_terminal (wi_state i) then Cancelled ''slot_removed'' else wi_state i)\<rparr>))
    \<and> set (rw_terminal_message_ids res) = {m. \<exists>k i. map_of (cs_intents (sc_state s)) k = Some i
         \<and> wi_slot_id i = sid \<and> \<not> is_terminal (wi_state i) \<and> wi_mailbox_message_id i = Some m}
    \<and> map_of (cs_slots (sc_state s')) = (map_of (cs_slots (sc_state s)))(sid \<mapsto> slot')
    \<and> queued_ids slot' = [] \<and> ss_active slot' = None
    \<and> (er_slot_id req = sid \<longrightarrow>
         fst (acquire_enqueue lid rid req s') = Inl (InvalidRequest (''Team slot was removed: '' @ sid)))"
proof -
  let ?I = "map_of (cs_intents (sc_state s))" and ?ks = "removal_ids sid (sc_state s)"
  have inv: "state_inv (sc_state s)" using reachable_inv [OF assms(1)] by blast
  from remove_slot_spec [OF inv, of now sid] obtain res s' where s': "remove_slot now sid s = Some (res, s')"
    "sc_state s' = (sc_state s)\<lparr>cs_intents := modify_all (restate (\<lambda>_. Cancelled ''slot_removed'')) ?ks
        (cs_intents (sc_state s)), cs_slots := AList.map_entry sid removed_slot (cs_slots (sc_state s))\<rparr>"
    "rw_terminal_message_ids res = messages_of ?I ?ks" by blast
  note ks = removal_ids_spec [OF inv, of sid]
  have "map_of (cs_intents (sc_state s')) k = Some (i\<lparr>wi_state :=
      (if wi_slot_id i = sid \<and> \<not> is_terminal (wi_state i) then Cancelled ''slot_removed'' else wi_state i)\<rparr>)"
    if "?I k = Some i" for k i
    using that ks by (auto simp: s'(2) loop_simps restate_on_def restate_def)
  moreover have "set (rw_terminal_message_ids res) = {m. \<exists>k i. ?I k = Some i
      \<and> wi_slot_id i = sid \<and> \<not> is_terminal (wi_state i) \<and> wi_mailbox_message_id i = Some m}"
    by (auto simp: s'(3) messages_of_def message_of_def ks bind_eq_Some_conv) blast+
  moreover have slots: "map_of (cs_slots (sc_state s')) = (map_of (cs_slots (sc_state s)))(sid \<mapsto> removed_slot slot)"
    by (simp add: s'(2) table_simps assms(2))
  moreover have "queued_ids (removed_slot slot) = []" "ss_active (removed_slot slot) = None"
    by (simp_all add: queued_ids_empty_iff)
  moreover have "fst (acquire_enqueue lid rid req s') = Inl (InvalidRequest (''Team slot was removed: '' @ sid))"
    if "er_slot_id req = sid"
    unfolding acquire_enqueue_Inl(1)
    using that slots by (simp add: acquired_slot_def entry_or_def validate_enqueue_constraint.simps)
  ultimately show ?thesis using s'(1) by blast
qed

theorem removed_slot_is_closed_witness:
  "\<exists>res s'. remove_slot 9 ''lead'' demo_queued = Some (res, s')
     \<and> fst (acquire_enqueue ''l9'' ''run9'' (demo_request UserMessage UserVisible) s') =
         Inl (InvalidRequest ''Team slot was removed: lead'')"
proof -
  have "map_option (\<lambda>_. ()) (map_of (cs_slots (sc_state demo_queued)) ''lead'') = Some ()" by code_simp
  then obtain slot where "map_of (cs_slots (sc_state demo_queued)) ''lead'' = Some slot" by auto
  from removed_slot_is_closed [OF demo_queued_reachable this, of 9 "demo_request UserMessage UserVisible"
      "''l9''" "''run9''"]
  show ?thesis by (auto simp: demo_request_def)
qed

section \<open>Runs\<close>


definition demo_over :: "team_run_manager slot_work_coordinator" where
  "demo_over = snd (trace_end (demo_ops @ [Next 4 ''b1'' ''lead'', MarkStarted 5 demo_batch ''t1'',
     CompleteBatch 6 demo_batch, CancelRun 7 (\<lambda>xs. xs) ''run1'']) [] demo_new)"


text \<open>
  The status machine of the run manager forgets a cancellation. A session cancels its
  run, the run is recorded as cancelled and \<open>team.runCancelled\<close> goes out; the summary that
  \<open>stop\<close> publishes afterwards turns the same run into a completed one and sends
  \<open>team.runCompleted\<close>.
\<close>

definition demo_cancelled :: "team_run_manager slot_work_coordinator option" where
  "demo_cancelled = map_option snd (cancel_run 8 (\<lambda>xs. xs) ''run1'' (demo_started\<lparr>sc_run_state :=
     snd (begin_cancel 7 ''run1'' None (sc_run_state demo_started))\<rparr>))"

theorem cancelled_run_reported_completed:
  "map_option (\<lambda>s. map_option tr_status (rm_state (sc_run_state s))) demo_cancelled = Some (Some RunCancelled)
   \<and> map_option (\<lambda>s. map_option tr_status (rm_state (sc_run_state (snd (stop_work 9 s))))) demo_cancelled
       = Some (Some RunCompleted)
   \<and> map_option (\<lambda>s. map fst (rm_events (sc_run_state (snd (stop_work 9 s))))) demo_cancelled
       = Some [''team.runAccepted'', ''team.runUpdated'', ''team.runUpdated'', ''team.runStarted'',
               ''team.runUpdated'', ''team.runCancelled'', ''team.runCompleted'']"
  by code_simp

text \<open>
  Reconciliation can strand a run. When the only messages of a run are no longer unread,
  \<open>reconcile_mailbox\<close> completes the run's intents but publishes no summary: the run has no
  work left and the manager still holds it as the active run.
\<close>

theorem reconcile_strands_active_run:
  "\<exists>proj s'. reconcile_mailbox 9 demo_ids ''lead'' [] Lead demo_queued = Some (proj, s')
     \<and> \<not> summary_has_work (run_summary_locked (sc_state s') ''run1'')
     \<and> current_active_run_id (sc_run_state s') = Some ''run1''"
proof -
  have "map_option (\<lambda>(proj, s'). (summary_has_work (run_summary_locked (sc_state s') ''run1''),
      current_active_run_id (sc_run_state s'))) (reconcile_mailbox 9 demo_ids ''lead'' [] Lead demo_queued)
    = Some (False, Some ''run1'')" by code_simp
  then show ?thesis by auto
qed

text \<open>
  Summaries are published after the mutex is released, so two operations can publish in
  the wrong order. Here the summary that \<open>complete_batch\<close> computed when the run had no work
  is applied after a second thread has acquired and committed new work for the same run: the
  manager then records the run as completed while the coordinator holds a queued intent of it.
\<close>

definition demo_single :: "team_run_manager slot_work_coordinator" where
  "demo_single = snd (trace_end [demo_ready,
      Acquire ''l1'' ''run1'' (demo_request UserMessage UserVisible),
      Commit 2 ''i1'' (demo_lease ''l1'' UserMessage) (Some ''m1''),
      Next 4 ''b1'' ''lead'', MarkStarted 5 demo_batch ''t1''] [] demo_new)"

theorem late_summary_completes_run_with_work:
  "let late = run_summary_locked (sc_state (snd (the (complete_batch 6 demo_batch demo_single)))) ''run1'';
       unpublished = demo_single\<lparr>sc_state := sc_state (snd (the (complete_batch 6 demo_batch demo_single)))\<rparr>;
       other = snd (trace_end
         [Acquire ''l2'' ''run2'' (demo_request UserMessage UserVisible),
          Commit 7 ''i2'' (demo_lease ''l2'' UserMessage) (Some ''m2'')] [] unpublished);
       m = manager_apply_work_summary 8 late (sc_run_state other)
   in map_option tr_status (rm_state m) = Some RunCompleted
      \<and> map_option tr_team_run_id (rm_state m) = Some ''run1''
      \<and> summary_has_work (run_summary_locked (sc_state other) ''run1'')"
  by code_simp

end
