(* ===== verification/RunRepository.thy ===== *)
theory RunRepository
  imports Prelude Complex_Main
begin

text \<open>
  The agent run repository: the trait \<open>IAgentRunRepository\<close> of \<open>aionui-db/src/repository/agent_run.rs\<close>
  as a record of functions, and its SQLite implementation \<open>sqlite_agent_run.rs\<close>.

  The database is a record of the tables the queries touch. A query is a function on it; the
  constraints of the \<open>agent_runs\<close> table (primary key, unique turn, foreign keys, the check on
  the status) are those of the migration \<open>021_multi_user_agent_capacity.sql\<close>. The connection can
  fail: \<open>rd_faults\<close> lists, query by query, whether it does, and a failed query changes no
  table. Rows that tie in an \<open>ORDER BY\<close> keep the order of the table. Percentages are rational
  numbers, so rounding and not-a-number values of \<open>f32\<close> and \<open>f64\<close> are not modelled.
\<close>

section \<open>Rows\<close>

record agent_run_row =
  ar_id :: id
  ar_turn_id :: id
  ar_user_id :: id
  ar_conversation_id :: id
  ar_source :: string
  ar_status :: string
  ar_request_json :: string
  ar_message_id :: "id option"
  ar_error_code :: "string option"
  ar_effective_model :: "string option"
  ar_fallback_used :: bool
  ar_queued_at :: timestamp_ms
  ar_started_at :: "timestamp_ms option"
  ar_finished_at :: "timestamp_ms option"
  ar_updated_at :: timestamp_ms

record agent_runtime_policy_row =
  pr_mode :: string
  pr_global_active_limit :: int
  pr_per_user_active_limit :: int
  pr_per_user_queue_limit :: int
  pr_global_queue_limit :: int
  pr_queue_timeout_ms :: int
  pr_confirmation_timeout_ms :: int
  pr_resident_task_limit :: int
  pr_resident_idle_timeout_ms :: int
  pr_memory_constrained_percent :: rat
  pr_memory_pause_percent :: rat
  pr_memory_reject_percent :: rat

record create_agent_run_params =
  cp_id :: id
  cp_turn_id :: id
  cp_user_id :: id
  cp_conversation_id :: id
  cp_source :: string
  cp_request_json :: string
  cp_message_id :: "id option"
  cp_queued_at :: timestamp_ms

datatype db_error =
    DbQuery string
  | DbMigration string
  | DbNotFound string
  | DbConflict string
  | DbInit string

section \<open>The trait\<close>

record 'd agent_run_repository =
  repo_load_runtime_policy :: "'d \<Rightarrow> (db_error + agent_runtime_policy_row) \<times> 'd"
  repo_save_runtime_policy :: "agent_runtime_policy_row \<Rightarrow> timestamp_ms \<Rightarrow> 'd \<Rightarrow> (db_error + unit) \<times> 'd"
  repo_create_queued :: "create_agent_run_params \<Rightarrow> 'd \<Rightarrow> (db_error + agent_run_row) \<times> 'd"
  repo_find_by_turn_id :: "id \<Rightarrow> 'd \<Rightarrow> (db_error + agent_run_row option) \<times> 'd"
  repo_list_for_user :: "id \<Rightarrow> 'd \<Rightarrow> (db_error + agent_run_row list) \<times> 'd"
  repo_list_queued :: "'d \<Rightarrow> (db_error + agent_run_row list) \<times> 'd"
  repo_mark_dispatching :: "id \<Rightarrow> timestamp_ms \<Rightarrow> 'd \<Rightarrow> (db_error + bool) \<times> 'd"
  repo_mark_running :: "id \<Rightarrow> timestamp_ms \<Rightarrow> 'd \<Rightarrow> (db_error + unit) \<times> 'd"
  repo_set_effective_model :: "id \<Rightarrow> string \<Rightarrow> bool \<Rightarrow> timestamp_ms \<Rightarrow> 'd \<Rightarrow> (db_error + unit) \<times> 'd"
  repo_mark_terminal :: "id \<Rightarrow> string \<Rightarrow> string option \<Rightarrow> timestamp_ms \<Rightarrow> 'd \<Rightarrow> (db_error + unit) \<times> 'd"
  repo_cancel_queued :: "id \<Rightarrow> id \<Rightarrow> timestamp_ms \<Rightarrow> 'd \<Rightarrow> (db_error + bool) \<times> 'd"
  repo_fail_interrupted :: "timestamp_ms \<Rightarrow> 'd \<Rightarrow> (db_error + nat) \<times> 'd"

section \<open>SQLite\<close>

record run_db =
  rd_runs :: "agent_run_row list"
  rd_policy :: "agent_runtime_policy_row option"
  rd_policy_updated_at :: timestamp_ms
  rd_users :: "id list"
  rd_conversations :: "id list"
  rd_faults :: "bool list"

text \<open>The values the check on \<open>agent_runs.status\<close> allows.\<close>

definition run_status_values :: "string list" where
  "run_status_values = [''queued'', ''dispatching'', ''running'', ''completed'', ''failed'', ''cancelled'', ''timed_out'']"

definition on_pool :: "(run_db \<Rightarrow> (db_error + 'a) \<times> run_db) \<Rightarrow> run_db \<Rightarrow> (db_error + 'a) \<times> run_db" where
  "on_pool q d =
     (case rd_faults d of
        [] \<Rightarrow> q d
      | f # fs \<Rightarrow> if f then (Inl (DbQuery ''database error''), d\<lparr>rd_faults := fs\<rparr>) else q (d\<lparr>rd_faults := fs\<rparr>))"

text \<open>\<open>UPDATE agent_runs SET f WHERE p\<close>: the number of rows affected.\<close>

definition update_runs ::
  "(agent_run_row \<Rightarrow> bool) \<Rightarrow> (agent_run_row \<Rightarrow> agent_run_row) \<Rightarrow> run_db \<Rightarrow> (db_error + nat) \<times> run_db" where
  "update_runs p f d =
     (if \<exists>r \<in> set (filter p (rd_runs d)). ar_status (f r) \<notin> set run_status_values
      then (Inl (DbQuery ''CHECK constraint failed''), d)
      else (Inr (length (filter p (rd_runs d))),
            d\<lparr>rd_runs := map (\<lambda>r. if p r then f r else r) (rd_runs d)\<rparr>))"

definition map_ok :: "('a \<Rightarrow> 'b) \<Rightarrow> (db_error + 'a) \<times> 'd \<Rightarrow> (db_error + 'b) \<times> 'd" where
  "map_ok g x = (map_sum id g (fst x), snd x)"

definition sqlite_load_runtime_policy :: "run_db \<Rightarrow> (db_error + agent_runtime_policy_row) \<times> run_db" where
  "sqlite_load_runtime_policy = on_pool (\<lambda>d. case rd_policy d of
       None \<Rightarrow> (Inl (DbQuery ''no rows returned''), d)
     | Some row \<Rightarrow> (Inr row, d))"

definition sqlite_save_runtime_policy ::
  "agent_runtime_policy_row \<Rightarrow> timestamp_ms \<Rightarrow> run_db \<Rightarrow> (db_error + unit) \<times> run_db" where
  "sqlite_save_runtime_policy policy updated_at = on_pool (\<lambda>d.
     if rd_policy d = None then (Inr (), d)
     else if pr_mode policy \<notin> {''off'', ''shadow'', ''enforce''}
     then (Inl (DbQuery ''CHECK constraint failed''), d)
     else (Inr (), d\<lparr>rd_policy := Some policy, rd_policy_updated_at := updated_at\<rparr>))"

definition sqlite_find_by_turn_id :: "id \<Rightarrow> run_db \<Rightarrow> (db_error + agent_run_row option) \<times> run_db" where
  "sqlite_find_by_turn_id turn = on_pool (\<lambda>d. (Inr (List.find (\<lambda>r. ar_turn_id r = turn) (rd_runs d)), d))"

definition queued_row :: "create_agent_run_params \<Rightarrow> agent_run_row" where
  "queued_row p =
     \<lparr>ar_id = cp_id p, ar_turn_id = cp_turn_id p, ar_user_id = cp_user_id p,
      ar_conversation_id = cp_conversation_id p, ar_source = cp_source p, ar_status = ''queued'',
      ar_request_json = cp_request_json p, ar_message_id = cp_message_id p, ar_error_code = None,
      ar_effective_model = None, ar_fallback_used = False, ar_queued_at = cp_queued_at p,
      ar_started_at = None, ar_finished_at = None, ar_updated_at = cp_queued_at p\<rparr>"

definition insert_run :: "create_agent_run_params \<Rightarrow> run_db \<Rightarrow> (db_error + unit) \<times> run_db" where
  "insert_run p d =
     (if cp_id p \<in> ar_id ` set (rd_runs d) \<or> cp_turn_id p \<in> ar_turn_id ` set (rd_runs d)
      then (Inl (DbQuery ''UNIQUE constraint failed''), d)
      else if cp_user_id p \<notin> set (rd_users d) \<or> cp_conversation_id p \<notin> set (rd_conversations d)
      then (Inl (DbQuery ''FOREIGN KEY constraint failed''), d)
      else (Inr (), d\<lparr>rd_runs := rd_runs d @ [queued_row p]\<rparr>))"

definition sqlite_create_queued ::
  "create_agent_run_params \<Rightarrow> run_db \<Rightarrow> (db_error + agent_run_row) \<times> run_db" where
  "sqlite_create_queued p d =
     (case on_pool (insert_run p) d of
        (Inl e, d1) \<Rightarrow> (Inl e, d1)
      | (Inr _, d1) \<Rightarrow>
          (case sqlite_find_by_turn_id (cp_turn_id p) d1 of
             (Inl e, d2) \<Rightarrow> (Inl e, d2)
           | (Inr None, d2) \<Rightarrow> (Inl (DbInit ''agent run disappeared after insert''), d2)
           | (Inr (Some row), d2) \<Rightarrow> (Inr row, d2)))"

definition sqlite_list_for_user :: "id \<Rightarrow> run_db \<Rightarrow> (db_error + agent_run_row list) \<times> run_db" where
  "sqlite_list_for_user user = on_pool (\<lambda>d.
     (Inr (sort_key ar_queued_at
        (filter (\<lambda>r. ar_user_id r = user \<and> ar_status r \<in> {''queued'', ''dispatching'', ''running''}) (rd_runs d))), d))"

definition sqlite_list_queued :: "run_db \<Rightarrow> (db_error + agent_run_row list) \<times> run_db" where
  "sqlite_list_queued = on_pool (\<lambda>d.
     (Inr (sort_key (\<lambda>r. (ar_queued_at r, ar_id r)) (filter (\<lambda>r. ar_status r = ''queued'') (rd_runs d))), d))"

definition dispatching_row :: "timestamp_ms \<Rightarrow> agent_run_row \<Rightarrow> agent_run_row" where
  "dispatching_row t r = r\<lparr>ar_status := ''dispatching'', ar_started_at := Some t, ar_updated_at := t\<rparr>"

definition sqlite_mark_dispatching :: "id \<Rightarrow> timestamp_ms \<Rightarrow> run_db \<Rightarrow> (db_error + bool) \<times> run_db" where
  "sqlite_mark_dispatching rid t d =
     map_ok (\<lambda>n. n = 1)
       (on_pool (update_runs (\<lambda>r. ar_id r = rid \<and> ar_status r = ''queued'') (dispatching_row t)) d)"

definition running_row :: "timestamp_ms \<Rightarrow> agent_run_row \<Rightarrow> agent_run_row" where
  "running_row t r = r\<lparr>ar_status := ''running'', ar_started_at := or_else (ar_started_at r) (Some t), ar_updated_at := t\<rparr>"

definition sqlite_mark_running :: "id \<Rightarrow> timestamp_ms \<Rightarrow> run_db \<Rightarrow> (db_error + unit) \<times> run_db" where
  "sqlite_mark_running rid t d =
     map_ok (\<lambda>_. ()) (on_pool (update_runs (\<lambda>r. ar_id r = rid) (running_row t)) d)"

definition modelled_row :: "string \<Rightarrow> bool \<Rightarrow> timestamp_ms \<Rightarrow> agent_run_row \<Rightarrow> agent_run_row" where
  "modelled_row model fallback t r =
     r\<lparr>ar_effective_model := Some model, ar_fallback_used := fallback, ar_updated_at := t\<rparr>"

definition sqlite_set_effective_model ::
  "id \<Rightarrow> string \<Rightarrow> bool \<Rightarrow> timestamp_ms \<Rightarrow> run_db \<Rightarrow> (db_error + unit) \<times> run_db" where
  "sqlite_set_effective_model rid model fallback t d =
     map_ok (\<lambda>_. ()) (on_pool (update_runs (\<lambda>r. ar_id r = rid) (modelled_row model fallback t)) d)"

definition terminal_row :: "string \<Rightarrow> string option \<Rightarrow> timestamp_ms \<Rightarrow> agent_run_row \<Rightarrow> agent_run_row" where
  "terminal_row status code t r =
     r\<lparr>ar_status := status, ar_error_code := code, ar_finished_at := Some t, ar_updated_at := t\<rparr>"

definition sqlite_mark_terminal ::
  "id \<Rightarrow> string \<Rightarrow> string option \<Rightarrow> timestamp_ms \<Rightarrow> run_db \<Rightarrow> (db_error + unit) \<times> run_db" where
  "sqlite_mark_terminal rid status code t d =
     map_ok (\<lambda>_. ()) (on_pool (update_runs (\<lambda>r. ar_id r = rid) (terminal_row status code t)) d)"

definition sqlite_cancel_queued :: "id \<Rightarrow> id \<Rightarrow> timestamp_ms \<Rightarrow> run_db \<Rightarrow> (db_error + bool) \<times> run_db" where
  "sqlite_cancel_queued turn user t d =
     map_ok (\<lambda>n. n = 1)
       (on_pool (update_runs (\<lambda>r. ar_turn_id r = turn \<and> ar_user_id r = user \<and> ar_status r = ''queued'')
          (terminal_row ''cancelled'' (Some ''CANCELLED'') t)) d)"

definition sqlite_fail_interrupted :: "timestamp_ms \<Rightarrow> run_db \<Rightarrow> (db_error + nat) \<times> run_db" where
  "sqlite_fail_interrupted t d =
     on_pool (update_runs (\<lambda>r. ar_status r \<in> {''dispatching'', ''running''})
       (terminal_row ''failed'' (Some ''BACKEND_RESTARTED'') t)) d"

definition sqlite_run_repository :: "run_db agent_run_repository" where
  "sqlite_run_repository =
     \<lparr>repo_load_runtime_policy = sqlite_load_runtime_policy,
      repo_save_runtime_policy = sqlite_save_runtime_policy,
      repo_create_queued = sqlite_create_queued,
      repo_find_by_turn_id = sqlite_find_by_turn_id,
      repo_list_for_user = sqlite_list_for_user,
      repo_list_queued = sqlite_list_queued,
      repo_mark_dispatching = sqlite_mark_dispatching,
      repo_mark_running = sqlite_mark_running,
      repo_set_effective_model = sqlite_set_effective_model,
      repo_mark_terminal = sqlite_mark_terminal,
      repo_cancel_queued = sqlite_cancel_queued,
      repo_fail_interrupted = sqlite_fail_interrupted\<rparr>"

section \<open>What the scheduler relies on\<close>

text \<open>
  The contract of the trait, as a locale: \<open>rows\<close> is the table of runs by id, and every operation
  keeps \<open>valid\<close> and changes the rows as its query says, or not at all when it fails.
\<close>

definition rows_where ::
  "(agent_run_row \<Rightarrow> bool) \<Rightarrow> (agent_run_row \<Rightarrow> agent_run_row) \<Rightarrow> (id \<Rightarrow> agent_run_row option) \<Rightarrow> id \<Rightarrow> agent_run_row option" where
  "rows_where p f m i = map_option (\<lambda>r. if p r then f r else r) (m i)"

definition is_ok :: "'e + 'a \<Rightarrow> bool" where
  "is_ok r = (case r of Inl _ \<Rightarrow> False | Inr _ \<Rightarrow> True)"

lemma is_ok_simps [simp]: "\<not> is_ok (Inl e)" "is_ok (Inr x)"
  by (simp_all add: is_ok_def)

lemma is_ok_map_sum [simp]: "is_ok (map_sum id g r) = is_ok r"
  by (cases r) simp_all

locale run_store =
  fixes repo :: "'d agent_run_repository"
    and rows :: "'d \<Rightarrow> id \<Rightarrow> agent_run_row option"
    and valid :: "'d \<Rightarrow> bool"
  assumes load: "\<And>d r d'. \<lbrakk>valid d; repo_load_runtime_policy repo d = (r, d')\<rbrakk> \<Longrightarrow> valid d' \<and> rows d' = rows d"
    and save: "\<And>d p t r d'. \<lbrakk>valid d; repo_save_runtime_policy repo p t d = (r, d')\<rbrakk> \<Longrightarrow> valid d' \<and> rows d' = rows d"
    and list_queued: "\<And>d r d'. \<lbrakk>valid d; repo_list_queued repo d = (r, d')\<rbrakk> \<Longrightarrow>
      valid d' \<and> rows d' = rows d \<and>
      (\<forall>rs row. r = Inr rs \<longrightarrow> (row \<in> set rs \<longleftrightarrow> rows d (ar_id row) = Some row \<and> ar_status row = ''queued''))"
    and list_for_user: "\<And>d u r d'. \<lbrakk>valid d; repo_list_for_user repo u d = (r, d')\<rbrakk> \<Longrightarrow>
      valid d' \<and> rows d' = rows d \<and> (\<forall>rs row. r = Inr rs \<longrightarrow> row \<in> set rs \<longrightarrow> ar_user_id row = u)"
    and create_ok: "\<And>d p row d'. \<lbrakk>valid d; repo_create_queued repo p d = (Inr row, d')\<rbrakk> \<Longrightarrow>
      valid d' \<and> rows d (cp_id p) = None \<and> row = queued_row p \<and> rows d' = (rows d)(cp_id p \<mapsto> row)"
    and create_err: "\<And>d p e d'. \<lbrakk>valid d; repo_create_queued repo p d = (Inl e, d')\<rbrakk> \<Longrightarrow>
      valid d' \<and> (rows d' = rows d \<or> rows d (cp_id p) = None \<and> rows d' = (rows d)(cp_id p \<mapsto> queued_row p))"
    and dispatching: "\<And>d i t r d'. \<lbrakk>valid d; repo_mark_dispatching repo i t d = (r, d')\<rbrakk> \<Longrightarrow> valid d' \<and>
      rows d' = (if is_ok r then rows_where (\<lambda>x. ar_id x = i \<and> ar_status x = ''queued'') (dispatching_row t) (rows d)
                 else rows d) \<and>
      (r = Inr True \<longrightarrow> (\<exists>row. rows d i = Some row \<and> ar_status row = ''queued''))"
    and running: "\<And>d i t r d'. \<lbrakk>valid d; repo_mark_running repo i t d = (r, d')\<rbrakk> \<Longrightarrow> valid d' \<and>
      rows d' = (if is_ok r then rows_where (\<lambda>x. ar_id x = i) (running_row t) (rows d) else rows d)"
    and set_model: "\<And>d i m b t r d'. \<lbrakk>valid d; repo_set_effective_model repo i m b t d = (r, d')\<rbrakk> \<Longrightarrow> valid d' \<and>
      rows d' = (if is_ok r then rows_where (\<lambda>x. ar_id x = i) (modelled_row m b t) (rows d) else rows d)"
    and terminal: "\<And>d i s c t r d'. \<lbrakk>valid d; repo_mark_terminal repo i s c t d = (r, d')\<rbrakk> \<Longrightarrow> valid d' \<and>
      rows d' = (if is_ok r then rows_where (\<lambda>x. ar_id x = i) (terminal_row s c t) (rows d) else rows d)"
    and cancel: "\<And>d turn u t r d'. \<lbrakk>valid d; repo_cancel_queued repo turn u t d = (r, d')\<rbrakk> \<Longrightarrow> valid d' \<and>
      rows d' = (if is_ok r then rows_where (\<lambda>x. ar_turn_id x = turn \<and> ar_user_id x = u \<and> ar_status x = ''queued'')
                   (terminal_row ''cancelled'' (Some ''CANCELLED'') t) (rows d) else rows d)"
    and interrupted: "\<And>d t r d'. \<lbrakk>valid d; repo_fail_interrupted repo t d = (r, d')\<rbrakk> \<Longrightarrow> valid d' \<and>
      rows d' = (if is_ok r then rows_where (\<lambda>x. ar_status x \<in> {''dispatching'', ''running''})
                   (terminal_row ''failed'' (Some ''BACKEND_RESTARTED'') t) (rows d) else rows d)"
    and keyed: "\<And>d i row. \<lbrakk>valid d; rows d i = Some row\<rbrakk> \<Longrightarrow> ar_id row = i"

section \<open>SQLite keeps the contract\<close>

definition db_rows :: "run_db \<Rightarrow> id \<Rightarrow> agent_run_row option" where
  "db_rows d = map_of (map (\<lambda>r. (ar_id r, r)) (rd_runs d))"

definition db_valid :: "run_db \<Rightarrow> bool" where
  "db_valid d \<longleftrightarrow> distinct (map ar_id (rd_runs d)) \<and> distinct (map ar_turn_id (rd_runs d))
     \<and> (\<forall>r \<in> set (rd_runs d). ar_status r \<in> set run_status_values)"

lemma db_rows_iff: "db_valid d \<Longrightarrow> db_rows d i = Some r \<longleftrightarrow> r \<in> set (rd_runs d) \<and> ar_id r = i"
  unfolding db_rows_def db_valid_def by (subst map_of_eq_Some_iff) (auto simp: comp_def)

lemma db_rows_None: "db_rows d i = None \<longleftrightarrow> i \<notin> ar_id ` set (rd_runs d)"
  by (auto simp: db_rows_def map_of_eq_None_iff image_iff)

lemma db_faults_irrelevant [simp]:
  "db_valid (d\<lparr>rd_faults := fs\<rparr>) = db_valid d" "db_rows (d\<lparr>rd_faults := fs\<rparr>) = db_rows d"
  by (simp_all add: db_valid_def db_rows_def)

lemma map_of_row_update:
  assumes "\<And>r. ar_id (f r) = ar_id r"
  shows "map_of (map (\<lambda>r. (ar_id r, r)) (map (\<lambda>r. if p r then f r else r) rs)) i
    = rows_where p f (map_of (map (\<lambda>r. (ar_id r, r)) rs)) i"
  using assms by (induction rs) (auto simp: rows_where_def)

lemma update_runs_contract:
  assumes "db_valid d" "update_runs p f d = (r, d')" "\<And>r. ar_id (f r) = ar_id r \<and> ar_turn_id (f r) = ar_turn_id r"
  shows "db_valid d' \<and> db_rows d' = (if is_ok r then rows_where p f (db_rows d) else db_rows d)
    \<and> (\<forall>n. r = Inr n \<longrightarrow> n = length (filter p (rd_runs d)))"
proof (cases "\<exists>r \<in> set (filter p (rd_runs d)). ar_status (f r) \<notin> set run_status_values")
  case True
  with assms show ?thesis by (auto simp: update_runs_def)
next
  case False
  let ?g = "\<lambda>r. if p r then f r else r"
  from False assms(2) have r: "r = Inr (length (filter p (rd_runs d)))" "d' = d\<lparr>rd_runs := map ?g (rd_runs d)\<rparr>"
    by (auto simp: update_runs_def)
  have ids: "map ar_id (map ?g (rd_runs d)) = map ar_id (rd_runs d)"
    "map ar_turn_id (map ?g (rd_runs d)) = map ar_turn_id (rd_runs d)" using assms(3) by auto
  have "\<forall>r \<in> set (map ?g (rd_runs d)). ar_status r \<in> set run_status_values"
    using assms(1) False by (auto simp: db_valid_def)
  moreover have "rd_runs d' = map ?g (rd_runs d)" by (simp add: r(2))
  ultimately have "db_valid d'" using assms(1) by (simp only: db_valid_def ids simp_thms)
  moreover have "db_rows d' = rows_where p f (db_rows d)"
    unfolding db_rows_def r(2) using map_of_row_update [of f p "rd_runs d"] assms(3) by (auto simp: fun_eq_iff)
  ultimately show ?thesis using r(1) by simp
qed

lemma on_pool_cases:
  assumes "on_pool q d = (r, d')"
  obtains (fault) fs where "r = Inl (DbQuery ''database error'')" "d' = d\<lparr>rd_faults := fs\<rparr>"
  | (run) fs where "q (d\<lparr>rd_faults := fs\<rparr>) = (r, d')"
proof (cases "rd_faults d")
  case Nil
  then have "d\<lparr>rd_faults := []\<rparr> = d" by (cases d) simp
  moreover have "q d = (r, d')" using assms Nil by (simp add: on_pool_def)
  ultimately have "q (d\<lparr>rd_faults := []\<rparr>) = (r, d')" by simp
  then show ?thesis by (rule run)
next
  case (Cons f fs)
  show ?thesis
  proof (cases f)
    case True
    with Cons assms have "r = Inl (DbQuery ''database error'')" "d' = d\<lparr>rd_faults := fs\<rparr>" by (auto simp: on_pool_def)
    then show ?thesis by (rule fault)
  next
    case False
    with Cons assms have "q (d\<lparr>rd_faults := fs\<rparr>) = (r, d')" by (simp add: on_pool_def)
    then show ?thesis by (rule run)
  qed
qed

lemma pool_update_contract:
  assumes "db_valid d" "map_ok g (on_pool (update_runs p f) d) = (r, d')"
    "\<And>r. ar_id (f r) = ar_id r \<and> ar_turn_id (f r) = ar_turn_id r"
  shows "db_valid d' \<and> db_rows d' = (if is_ok r then rows_where p f (db_rows d) else db_rows d)
    \<and> (\<forall>b. r = Inr b \<longrightarrow> b = g (length (filter p (rd_runs d))))"
proof -
  obtain r0 where r0: "on_pool (update_runs p f) d = (r0, d')" "r = map_sum id g r0"
    using assms(2) by (cases "on_pool (update_runs p f) d") (auto simp: map_ok_def)
  from r0(1) have "db_valid d' \<and> db_rows d' = (if is_ok r0 then rows_where p f (db_rows d) else db_rows d)
      \<and> (\<forall>n. r0 = Inr n \<longrightarrow> n = length (filter p (rd_runs d)))"
  proof (cases rule: on_pool_cases)
    case (fault fs)
    then show ?thesis using assms(1) by simp
  next
    case (run fs)
    then show ?thesis using update_runs_contract [of "d\<lparr>rd_faults := fs\<rparr>"] assms(1,3) by simp
  qed
  then show ?thesis using r0(2) by (cases r0) auto
qed

lemma pool_read_contract:
  assumes "db_valid d" "on_pool (\<lambda>d. (g d, d)) d = (r, d')"
  shows "db_valid d' \<and> db_rows d' = db_rows d \<and> (is_ok r \<longrightarrow> (\<exists>fs. r = g (d\<lparr>rd_faults := fs\<rparr>)))"
  using assms(2) by (cases rule: on_pool_cases) (use assms(1) in auto)

lemma row_updates_keep_ids [simp]:
  "ar_id (dispatching_row t r) = ar_id r \<and> ar_turn_id (dispatching_row t r) = ar_turn_id r"
  "ar_id (running_row t r) = ar_id r \<and> ar_turn_id (running_row t r) = ar_turn_id r"
  "ar_id (modelled_row m b t r) = ar_id r \<and> ar_turn_id (modelled_row m b t r) = ar_turn_id r"
  "ar_id (terminal_row s c t r) = ar_id r \<and> ar_turn_id (terminal_row s c t r) = ar_turn_id r"
  by (simp_all add: dispatching_row_def running_row_def modelled_row_def terminal_row_def)

lemma insert_run_contract:
  assumes "db_valid d" "insert_run p d = (r, d')"
  shows "db_valid d'" "is_ok r \<Longrightarrow> db_rows d (cp_id p) = None \<and> db_rows d' = (db_rows d)(cp_id p \<mapsto> queued_row p)
      \<and> List.find (\<lambda>r. ar_turn_id r = cp_turn_id p) (rd_runs d') = Some (queued_row p)"
    "\<not> is_ok r \<Longrightarrow> db_rows d' = db_rows d"
proof -
  have keys: "ar_id (queued_row p) = cp_id p" "ar_turn_id (queued_row p) = cp_turn_id p"
    "ar_status (queued_row p) \<in> set run_status_values" by (simp_all add: queued_row_def run_status_values_def)
  show "db_valid d'" "\<not> is_ok r \<Longrightarrow> db_rows d' = db_rows d"
    using assms keys by (auto simp: insert_run_def db_valid_def split: if_splits)
  assume "is_ok r"
  with assms have new: "cp_id p \<notin> ar_id ` set (rd_runs d)" "cp_turn_id p \<notin> ar_turn_id ` set (rd_runs d)"
    and d': "rd_runs d' = rd_runs d @ [queued_row p]" by (auto simp: insert_run_def split: if_splits)
  have "map_of (map (\<lambda>r. (ar_id r, r)) (rs @ [queued_row p]))
      = (map_of (map (\<lambda>r. (ar_id r, r)) rs))(cp_id p \<mapsto> queued_row p)" if "cp_id p \<notin> ar_id ` set rs" for rs
    using that keys(1) by (induction rs) auto
  note rows = this [OF new(1)]
  have "db_rows d (cp_id p) = None" using new(1) by (simp add: db_rows_None)
  then show "db_rows d (cp_id p) = None \<and> db_rows d' = (db_rows d)(cp_id p \<mapsto> queued_row p)
      \<and> List.find (\<lambda>r. ar_turn_id r = cp_turn_id p) (rd_runs d') = Some (queued_row p)"
    using new keys d' rows by (simp add: db_rows_def find_append_new)
qed

lemma pool_insert_contract:
  assumes "db_valid d" "on_pool (insert_run p) d = (r, d')"
  shows "db_valid d'" "is_ok r \<Longrightarrow> db_rows d (cp_id p) = None \<and> db_rows d' = (db_rows d)(cp_id p \<mapsto> queued_row p)
      \<and> List.find (\<lambda>r. ar_turn_id r = cp_turn_id p) (rd_runs d') = Some (queued_row p)"
    "\<not> is_ok r \<Longrightarrow> db_rows d' = db_rows d"
  using assms(2) by (cases rule: on_pool_cases;
      use assms(1) insert_run_contract [of "d\<lparr>rd_faults := _\<rparr>" p r d'] in auto)+

lemma find_contract:
  assumes "sqlite_find_by_turn_id turn d = (r, d')"
  shows "\<exists>fs. d' = d\<lparr>rd_faults := fs\<rparr>"
    "r = Inr x \<Longrightarrow> x = List.find (\<lambda>r. ar_turn_id r = turn) (rd_runs d)"
  using assms unfolding sqlite_find_by_turn_id_def by (cases rule: on_pool_cases; auto)+

lemma create_contract:
  assumes "db_valid d" "sqlite_create_queued p d = (r, d')"
  shows "db_valid d'"
    "r = Inr row \<Longrightarrow> db_rows d (cp_id p) = None \<and> row = queued_row p \<and> db_rows d' = (db_rows d)(cp_id p \<mapsto> row)"
    "db_rows d' = db_rows d \<or> db_rows d (cp_id p) = None \<and> db_rows d' = (db_rows d)(cp_id p \<mapsto> queued_row p)"
proof -
  obtain r1 d1 where ins: "on_pool (insert_run p) d = (r1, d1)" by (cases "on_pool (insert_run p) d")
  note i = pool_insert_contract [OF assms(1) ins]
  obtain r2 d2 where fnd: "sqlite_find_by_turn_id (cp_turn_id p) d1 = (r2, d2)"
    by (cases "sqlite_find_by_turn_id (cp_turn_id p) d1")
  note f = find_contract [OF fnd]
  have step: "r = (case r1 of Inl e \<Rightarrow> Inl e | Inr _ \<Rightarrow> (case r2 of Inl e \<Rightarrow> Inl e
        | Inr None \<Rightarrow> Inl (DbInit ''agent run disappeared after insert'') | Inr (Some row) \<Rightarrow> Inr row))"
    "d' = (case r1 of Inl e \<Rightarrow> d1 | Inr _ \<Rightarrow> d2)"
    using assms(2) unfolding sqlite_create_queued_def ins fnd by (auto simp: fnd split: sum.splits option.splits)
  have d2: "db_valid d2 = db_valid d1" "db_rows d2 = db_rows d1" using f(1) by auto
  show "db_valid d'" using i(1) d2 step(2) by (cases r1) auto
  show "db_rows d' = db_rows d \<or> db_rows d (cp_id p) = None \<and> db_rows d' = (db_rows d)(cp_id p \<mapsto> queued_row p)"
    using i(2,3) d2 step(2) by (cases r1) auto
  assume "r = Inr row"
  then obtain u where r1: "r1 = Inr u" and r2: "r2 = Inr (Some row)" using step(1)
    by (auto split: sum.splits option.splits)
  from f(2) [OF r2] i(2) r1 have "row = queued_row p" by simp
  with i(2) r1 d2 step(2) show "db_rows d (cp_id p) = None \<and> row = queued_row p \<and> db_rows d' = (db_rows d)(cp_id p \<mapsto> row)"
    by auto
qed

lemma pool_policy_contract:
  assumes "db_valid d"
  shows "sqlite_save_runtime_policy p t d = (r, d') \<Longrightarrow> db_valid d' \<and> db_rows d' = db_rows d"
    "sqlite_load_runtime_policy d = (r', d') \<Longrightarrow> db_valid d' \<and> db_rows d' = db_rows d"
  unfolding sqlite_save_runtime_policy_def sqlite_load_runtime_policy_def
  by (erule on_pool_cases; use assms in \<open>auto simp: db_valid_def db_rows_def split: if_splits option.splits\<close>)+

lemma dispatch_contract:
  assumes "db_valid d" "sqlite_mark_dispatching i t d = (Inr True, d')"
  shows "\<exists>row. db_rows d i = Some row \<and> ar_status row = ''queued''"
proof -
  from pool_update_contract [OF assms(1) assms(2) [unfolded sqlite_mark_dispatching_def] row_updates_keep_ids(1)]
  have "length (filter (\<lambda>r. ar_id r = i \<and> ar_status r = ''queued'') (rd_runs d)) = 1" by blast
  then have "filter (\<lambda>r. ar_id r = i \<and> ar_status r = ''queued'') (rd_runs d) \<noteq> []" by (intro notI) simp
  then obtain row where "row \<in> set (rd_runs d)" "ar_id row = i" "ar_status row = ''queued''"
    by (auto simp: filter_empty_conv)
  then show ?thesis using db_rows_iff [OF assms(1)] by blast
qed

interpretation sqlite: run_store sqlite_run_repository db_rows db_valid
proof (unfold_locales, goal_cases)
  case (1 d r d')
  then show ?case by (intro pool_policy_contract(2) [of d r]) (simp_all add: sqlite_run_repository_def)
next
  case (2 d p t r d')
  then show ?case by (intro pool_policy_contract(1) [of d p t r]) (simp_all add: sqlite_run_repository_def)
next
  case (3 d r d')
  then show ?case using pool_read_contract [of d _ r d'] db_rows_iff
    by (fastforce simp: sqlite_run_repository_def sqlite_list_queued_def)
next
  case (4 d u r d')
  then show ?case using pool_read_contract [of d _ r d']
    by (fastforce simp: sqlite_run_repository_def sqlite_list_for_user_def)
next
  case (5 d p row d')
  then show ?case using create_contract [of d p "Inr row" d'] by (simp add: sqlite_run_repository_def)
next
  case (6 d p e d')
  then show ?case using create_contract [of d p "Inl e" d'] by (simp add: sqlite_run_repository_def)
next
  case (7 d i t r d')
  then show ?case using pool_update_contract [of d "\<lambda>n. n = 1" _ "dispatching_row t" r d'] dispatch_contract [of d i t d']
    by (auto simp: sqlite_run_repository_def sqlite_mark_dispatching_def)
next
  case (8 d i t r d')
  then show ?case using pool_update_contract [of d "\<lambda>_. ()" _ "running_row t" r d']
    by (simp add: sqlite_run_repository_def sqlite_mark_running_def)
next
  case (9 d i m b t r d')
  then show ?case using pool_update_contract [of d "\<lambda>_. ()" _ "modelled_row m b t" r d']
    by (simp add: sqlite_run_repository_def sqlite_set_effective_model_def)
next
  case (10 d i s c t r d')
  then show ?case using pool_update_contract [of d "\<lambda>_. ()" _ "terminal_row s c t" r d']
    by (simp add: sqlite_run_repository_def sqlite_mark_terminal_def)
next
  case (11 d turn u t r d')
  then show ?case
    using pool_update_contract [of d "\<lambda>n. n = 1" _ "terminal_row ''cancelled'' (Some ''CANCELLED'') t" r d']
    by (simp add: sqlite_run_repository_def sqlite_cancel_queued_def)
next
  case (12 d t r d')
  then have "map_ok (\<lambda>n. n) (on_pool (update_runs (\<lambda>r. ar_status r \<in> {''dispatching'', ''running''})
      (terminal_row ''failed'' (Some ''BACKEND_RESTARTED'') t)) d) = (r, d')"
    by (cases r) (simp_all add: sqlite_run_repository_def sqlite_fail_interrupted_def map_ok_def)
  with 12(1) show ?case using pool_update_contract [of d "\<lambda>n. n" _ "terminal_row ''failed'' (Some ''BACKEND_RESTARTED'') t" r d']
    by simp
next
  case (13 d i row)
  then show ?case by (simp add: db_rows_iff)
qed

end
