(* ===== verification/RunScheduler.thy ===== *)
theory RunScheduler
  imports RunRepository
begin

text \<open>
  The agent run scheduler, \<open>aionui-conversation/src/run_scheduler.rs\<close>: admission of agent runs,
  the queue, round-robin dispatch under the active and memory limits, cancellation, expiry,
  recovery after a restart, and the runtime policy.

  An operation is a function on the whole scheduler: the state behind its mutex, its policy,
  the repository's state, and logs of what it sent on permit channels and broadcast. Each
  operation runs to its end before the next one starts, except that \<open>enqueue\<close> is given as its
  two halves, since another caller can come between the check and the insertion. The
  environment supplies the clock and the memory readings; \<open>sc_ticks\<close> counts the readings taken,
  so that consecutive readings can differ. \<open>usize\<close> and \<open>u64\<close> settings are natural numbers,
  casts and the products that can wrap keep their width. A permit channel is a number.
\<close>

section \<open>Policy\<close>

datatype agent_runtime_mode = ModeOff | ModeShadow | ModeEnforce

datatype agent_run_status =
    RunQueued | RunDispatching | RunRunning | RunCompleted | RunFailed | RunCancelled | RunTimedOut

record runtime_policy =
  rp_mode :: agent_runtime_mode
  rp_global_active_limit :: nat
  rp_per_user_active_limit :: nat
  rp_per_user_queue_limit :: nat
  rp_global_queue_limit :: nat
  rp_queue_timeout_ms :: nat
  rp_confirmation_timeout_ms :: nat
  rp_resident_task_limit :: nat
  rp_resident_idle_timeout_ms :: nat
  rp_memory_constrained_percent :: rat
  rp_memory_pause_percent :: rat
  rp_memory_reject_percent :: rat

text \<open>\<open>AgentRuntimePolicyResponse\<close> has the fields of the policy.\<close>

type_synonym agent_runtime_policy_response = runtime_policy

record update_agent_runtime_policy_request =
  up_mode :: "agent_runtime_mode option"
  up_global_active_limit :: "nat option"
  up_per_user_active_limit :: "nat option"
  up_per_user_queue_limit :: "nat option"
  up_global_queue_limit :: "nat option"
  up_queue_timeout_ms :: "nat option"
  up_confirmation_timeout_ms :: "nat option"
  up_resident_task_limit :: "nat option"
  up_resident_idle_timeout_ms :: "nat option"
  up_memory_constrained_percent :: "rat option"
  up_memory_pause_percent :: "rat option"
  up_memory_reject_percent :: "rat option"

text \<open>The environment: the mode variable, the memory readings and the clock.\<close>

record runtime_env =
  env_mode_var :: "string option"
  env_memory :: "nat \<Rightarrow> rat option"
  env_now :: "nat \<Rightarrow> timestamp_ms"

definition DEFAULT_TURN_ESTIMATE_MS :: nat where
  "DEFAULT_TURN_ESTIMATE_MS = 60000"

definition usize_max :: nat where
  "usize_max = 2 ^ 64 - 1"

definition default_policy :: "runtime_env \<Rightarrow> runtime_policy" where
  "default_policy ev =
     \<lparr>rp_mode = (if env_mode_var ev = Some ''off'' then ModeOff
                 else if env_mode_var ev = Some ''shadow'' then ModeShadow else ModeEnforce),
      rp_global_active_limit = 6, rp_per_user_active_limit = 1, rp_per_user_queue_limit = 1,
      rp_global_queue_limit = 20, rp_queue_timeout_ms = 15 * 60 * 1000,
      rp_confirmation_timeout_ms = 5 * 60 * 1000, rp_resident_task_limit = 6,
      rp_resident_idle_timeout_ms = 3 * 60 * 1000, rp_memory_constrained_percent = 75,
      rp_memory_pause_percent = 85, rp_memory_reject_percent = 90\<rparr>"

definition policy_response :: "runtime_policy \<Rightarrow> agent_runtime_policy_response" where
  "policy_response p =
     \<lparr>rp_mode = rp_mode p, rp_global_active_limit = rp_global_active_limit p,
      rp_per_user_active_limit = rp_per_user_active_limit p,
      rp_per_user_queue_limit = rp_per_user_queue_limit p, rp_global_queue_limit = rp_global_queue_limit p,
      rp_queue_timeout_ms = rp_queue_timeout_ms p, rp_confirmation_timeout_ms = rp_confirmation_timeout_ms p,
      rp_resident_task_limit = rp_resident_task_limit p,
      rp_resident_idle_timeout_ms = rp_resident_idle_timeout_ms p,
      rp_memory_constrained_percent = rp_memory_constrained_percent p,
      rp_memory_pause_percent = rp_memory_pause_percent p, rp_memory_reject_percent = rp_memory_reject_percent p\<rparr>"

text \<open>\<open>x.clamp(lo, hi)\<close> panics (\<open>None\<close>) when \<open>lo > hi\<close>.\<close>

definition clamp :: "'a::linorder \<Rightarrow> 'a \<Rightarrow> 'a \<Rightarrow> 'a option" where
  "clamp lo hi x = (if lo \<le> hi then Some (if x < lo then lo else if x > hi then hi else x) else None)"

definition clamp_setting :: "nat \<Rightarrow> nat \<Rightarrow> nat option \<Rightarrow> nat \<Rightarrow> nat option" where
  "clamp_setting lo hi update current = (case update of None \<Rightarrow> Some current | Some v \<Rightarrow> clamp lo hi v)"

definition unwrap_or :: "'a \<Rightarrow> 'a option \<Rightarrow> 'a" where
  "unwrap_or d x = (case x of None \<Rightarrow> d | Some v \<Rightarrow> v)"

definition apply_policy ::
  "update_agent_runtime_policy_request \<Rightarrow> runtime_policy \<Rightarrow> runtime_policy option" where
  "apply_policy u p =
     Option.bind (clamp_setting 1 64 (up_global_active_limit u) (rp_global_active_limit p)) (\<lambda>gal.
     Option.bind (clamp_setting 1 8 (up_per_user_active_limit u) (rp_per_user_active_limit p)) (\<lambda>ual.
     Option.bind (clamp_setting 1 8 (up_per_user_queue_limit u) (rp_per_user_queue_limit p)) (\<lambda>uql.
     Option.bind (clamp_setting 1 1000 (up_global_queue_limit u) (rp_global_queue_limit p)) (\<lambda>gql.
     Option.bind (clamp_setting 1000 (24 * 60 * 60 * 1000) (up_queue_timeout_ms u) (rp_queue_timeout_ms p)) (\<lambda>qt.
     Option.bind (clamp_setting 1000 (24 * 60 * 60 * 1000) (up_confirmation_timeout_ms u) (rp_confirmation_timeout_ms p)) (\<lambda>ct.
     Option.bind (clamp_setting 1 64 (up_resident_task_limit u) (rp_resident_task_limit p)) (\<lambda>rt.
     Option.bind (clamp_setting 1000 (24 * 60 * 60 * 1000) (up_resident_idle_timeout_ms u) (rp_resident_idle_timeout_ms p)) (\<lambda>ri.
     let constrained = unwrap_or (rp_memory_constrained_percent p) (up_memory_constrained_percent u);
         paused = unwrap_or (rp_memory_pause_percent p) (up_memory_pause_percent u);
         rejecting = unwrap_or (rp_memory_reject_percent p) (up_memory_reject_percent u)
     in Option.bind (clamp 50 97 constrained) (\<lambda>c.
        Option.bind (clamp (c + 1) 98 paused) (\<lambda>pa.
        Option.bind (clamp (pa + 1) 100 rejecting) (\<lambda>re.
          Some \<lparr>rp_mode = unwrap_or (rp_mode p) (up_mode u), rp_global_active_limit = gal,
            rp_per_user_active_limit = ual, rp_per_user_queue_limit = uql, rp_global_queue_limit = gql,
            rp_queue_timeout_ms = qt, rp_confirmation_timeout_ms = ct, rp_resident_task_limit = rt,
            rp_resident_idle_timeout_ms = ri, rp_memory_constrained_percent = c,
            rp_memory_pause_percent = pa, rp_memory_reject_percent = re\<rparr>)))))))))))"

section \<open>Memory and errors\<close>

datatype memory_state = MemNormal | MemConstrained | MemPaused | MemRejecting

fun memory_state_as_str :: "memory_state \<Rightarrow> string" where
  "memory_state_as_str MemNormal = ''normal''"
| "memory_state_as_str MemConstrained = ''constrained''"
| "memory_state_as_str MemPaused = ''paused''"
| "memory_state_as_str MemRejecting = ''rejecting''"

datatype run_admission_error =
    QueueFull | UserLimit | MemoryPressure | QueueTimeout | Cancelled | BackendRestarted | Persistence

fun admission_code :: "run_admission_error \<Rightarrow> string" where
  "admission_code QueueFull = ''RUN_QUEUE_FULL''"
| "admission_code UserLimit = ''USER_RUN_LIMIT''"
| "admission_code MemoryPressure = ''MEMORY_PRESSURE''"
| "admission_code QueueTimeout = ''RUN_QUEUE_TIMEOUT''"
| "admission_code Cancelled = ''CANCELLED''"
| "admission_code BackendRestarted = ''BACKEND_RESTARTED''"
| "admission_code Persistence = ''INTERNAL_ERROR''"

section \<open>Scheduler state\<close>

record agent_run_admission =
  aa_run_id :: id
  aa_turn_id :: id
  aa_queued_at :: timestamp_ms
  aa_permit :: nat

record new_agent_run =
  na_run_id :: id
  na_turn_id :: id
  na_user_id :: id
  na_conversation_id :: id
  na_source :: string
  na_request_json :: string
  na_message_id :: "id option"
  na_queued_at :: timestamp_ms

record queued_run =
  qr_row :: agent_run_row
  qr_permit :: nat

record active_run =
  av_user_id :: id

record scheduler_state =
  ss_queue :: "queued_run list"
  ss_active :: "(id, active_run) table"
  ss_user_ring :: "id list"
  ss_last_dispatched_user :: "id option"

datatype run_event =
    EvRunQueued id id id timestamp_ms
  | EvRunStarted id id id timestamp_ms
  | EvRunTimedOut id id id string
  | EvQueueUpdated id id nat u64

text \<open>What was sent on a permit channel, with the run whose sender it was.\<close>

record permit_sent =
  ps_permit :: nat
  ps_run_id :: id
  ps_result :: "run_admission_error + unit"

record 'd agent_run_scheduler =
  sc_repo :: 'd
  sc_policy :: runtime_policy
  sc_policy_poisoned :: bool
  sc_state :: scheduler_state
  sc_ticks :: nat
  sc_next_channel :: nat
  sc_sent :: "permit_sent list"
  sc_broadcasts :: "(id \<times> run_event) list"

definition new_scheduler :: "runtime_env \<Rightarrow> 'd \<Rightarrow> 'd agent_run_scheduler" where
  "new_scheduler ev d =
     \<lparr>sc_repo = d, sc_policy = default_policy ev, sc_policy_poisoned = False,
      sc_state = \<lparr>ss_queue = [], ss_active = [], ss_user_ring = [], ss_last_dispatched_user = None\<rparr>,
      sc_ticks = 0, sc_next_channel = 0, sc_sent = [], sc_broadcasts = []\<rparr>"

text \<open>Environment readings, channel sends and broadcasts.\<close>

definition now_ms :: "runtime_env \<Rightarrow> 'd agent_run_scheduler \<Rightarrow> timestamp_ms \<times> 'd agent_run_scheduler" where
  "now_ms ev s = (env_now ev (sc_ticks s), s\<lparr>sc_ticks := Suc (sc_ticks s)\<rparr>)"

definition send_permit :: "queued_run \<Rightarrow> run_admission_error + unit \<Rightarrow> 'd agent_run_scheduler \<Rightarrow> 'd agent_run_scheduler" where
  "send_permit run r s = s\<lparr>sc_sent := sc_sent s @ [\<lparr>ps_permit = qr_permit run, ps_run_id = ar_id (qr_row run), ps_result = r\<rparr>]\<rparr>"

definition broadcast_to_user :: "id \<Rightarrow> run_event \<Rightarrow> 'd agent_run_scheduler \<Rightarrow> 'd agent_run_scheduler" where
  "broadcast_to_user user e s = s\<lparr>sc_broadcasts := sc_broadcasts s @ [(user, e)]\<rparr>"

section \<open>Operations\<close>

definition policy :: "runtime_env \<Rightarrow> 'd agent_run_scheduler \<Rightarrow> runtime_policy" where
  "policy ev s = (if sc_policy_poisoned s then default_policy ev else sc_policy s)"

definition mode_of_row :: "runtime_env \<Rightarrow> agent_runtime_policy_row \<Rightarrow> agent_runtime_mode" where
  "mode_of_row ev row =
     (if env_mode_var ev = Some ''off'' then ModeOff
      else if env_mode_var ev = Some ''shadow'' then ModeShadow
      else if env_mode_var ev = Some ''enforce'' then ModeEnforce
      else if pr_mode row = ''off'' then ModeOff
      else if pr_mode row = ''shadow'' then ModeShadow
      else ModeEnforce)"

definition load_policy ::
  "runtime_env \<Rightarrow> 'd agent_run_repository \<Rightarrow> 'd agent_run_scheduler
     \<Rightarrow> (run_admission_error + unit) \<times> 'd agent_run_scheduler" where
  "load_policy ev repo s =
     (case repo_load_runtime_policy repo (sc_repo s) of
        (Inl _, d) \<Rightarrow> (Inl Persistence, s\<lparr>sc_repo := d\<rparr>)
      | (Inr row, d) \<Rightarrow>
          (Inr (), s\<lparr>sc_repo := d, sc_policy := (if sc_policy_poisoned s then sc_policy s else
             (sc_policy s)\<lparr>rp_mode := mode_of_row ev row,
               rp_global_active_limit := nat (max (pr_global_active_limit row) 1),
               rp_per_user_active_limit := nat (max (pr_per_user_active_limit row) 1),
               rp_per_user_queue_limit := nat (max (pr_per_user_queue_limit row) 1),
               rp_global_queue_limit := nat (max (pr_global_queue_limit row) 1),
               rp_queue_timeout_ms := nat (max (pr_queue_timeout_ms row) 1000),
               rp_confirmation_timeout_ms := nat (max (pr_confirmation_timeout_ms row) 1000),
               rp_resident_task_limit := nat (max (pr_resident_task_limit row) 1),
               rp_resident_idle_timeout_ms := nat (max (pr_resident_idle_timeout_ms row) 1000)\<rparr>)\<rparr>))"

text \<open>\<open>n as i64\<close> for a 64-bit unsigned \<open>n\<close>.\<close>

definition as_i64 :: "nat \<Rightarrow> int" where
  "as_i64 n = (if n < 2 ^ 63 then int n else int n - 2 ^ 64)"

fun mode_name :: "agent_runtime_mode \<Rightarrow> string" where
  "mode_name ModeOff = ''off''"
| "mode_name ModeShadow = ''shadow''"
| "mode_name ModeEnforce = ''enforce''"

definition policy_row :: "runtime_policy \<Rightarrow> agent_runtime_policy_row" where
  "policy_row p =
     \<lparr>pr_mode = mode_name (rp_mode p), pr_global_active_limit = as_i64 (rp_global_active_limit p),
      pr_per_user_active_limit = as_i64 (rp_per_user_active_limit p),
      pr_per_user_queue_limit = as_i64 (rp_per_user_queue_limit p),
      pr_global_queue_limit = as_i64 (rp_global_queue_limit p),
      pr_queue_timeout_ms = as_i64 (rp_queue_timeout_ms p),
      pr_confirmation_timeout_ms = as_i64 (rp_confirmation_timeout_ms p),
      pr_resident_task_limit = as_i64 (rp_resident_task_limit p),
      pr_resident_idle_timeout_ms = as_i64 (rp_resident_idle_timeout_ms p),
      pr_memory_constrained_percent = rp_memory_constrained_percent p,
      pr_memory_pause_percent = rp_memory_pause_percent p,
      pr_memory_reject_percent = rp_memory_reject_percent p\<rparr>"

definition memory_level :: "runtime_policy \<Rightarrow> rat option \<Rightarrow> memory_state" where
  "memory_level p percent =
     (case percent of
        None \<Rightarrow> MemNormal
      | Some v \<Rightarrow> if v \<ge> rp_memory_reject_percent p then MemRejecting
                  else if v \<ge> rp_memory_pause_percent p then MemPaused
                  else if v \<ge> rp_memory_constrained_percent p then MemConstrained
                  else MemNormal)"

definition read_memory_state ::
  "runtime_env \<Rightarrow> runtime_policy \<Rightarrow> 'd agent_run_scheduler \<Rightarrow> (rat option \<times> memory_state) \<times> 'd agent_run_scheduler" where
  "read_memory_state ev p s =
     (let percent = env_memory ev (sc_ticks s)
      in ((percent, memory_level p percent), s\<lparr>sc_ticks := Suc (sc_ticks s)\<rparr>))"

definition effective_limit :: "runtime_policy \<Rightarrow> memory_state \<Rightarrow> nat" where
  "effective_limit p memory =
     (if rp_mode p \<noteq> ModeEnforce then usize_max
      else case memory of
        MemNormal \<Rightarrow> rp_global_active_limit p
      | MemConstrained \<Rightarrow> min (rp_global_active_limit p) 2
      | MemPaused \<Rightarrow> 0
      | MemRejecting \<Rightarrow> 0)"

definition user_active :: "id \<Rightarrow> scheduler_state \<Rightarrow> nat" where
  "user_active user st = length (filter (\<lambda>(_, run). av_user_id run = user) (ss_active st))"

definition user_queued :: "id \<Rightarrow> scheduler_state \<Rightarrow> nat" where
  "user_queued user st = length (filter (\<lambda>run. ar_user_id (qr_row run) = user) (ss_queue st))"

definition preflight ::
  "runtime_env \<Rightarrow> id \<Rightarrow> 'd agent_run_scheduler \<Rightarrow> (run_admission_error + unit) \<times> 'd agent_run_scheduler" where
  "preflight ev user s =
     (let p = policy ev s;
          ((_, memory), s1) = read_memory_state ev p s;
          st = sc_state s1
      in if memory = MemRejecting then (Inl MemoryPressure, s1)
         else if rp_mode p \<noteq> ModeEnforce then (Inr (), s1)
         else if length (ss_queue st) \<ge> rp_global_queue_limit p then (Inl QueueFull, s1)
         else if user_active user st \<ge> rp_per_user_active_limit p \<and> user_queued user st \<ge> rp_per_user_queue_limit p
         then (Inl UserLimit, s1)
         else if user_queued user st \<ge> rp_per_user_queue_limit p then (Inl UserLimit, s1)
         else (Inr (), s1))"

text \<open>\<open>position.div_ceil(limit)\<close>, for a positive limit.\<close>

definition div_ceil :: "nat \<Rightarrow> nat \<Rightarrow> nat" where
  "div_ceil a b = (if a mod b = 0 then a div b else a div b + 1)"

definition wave_estimate :: "nat \<Rightarrow> nat \<Rightarrow> u64" where
  "wave_estimate pos limit = word_of_nat (div_ceil pos limit) * word_of_nat DEFAULT_TURN_ESTIMATE_MS"

definition broadcast_queue_positions :: "runtime_env \<Rightarrow> 'd agent_run_scheduler \<Rightarrow> 'd agent_run_scheduler" where
  "broadcast_queue_positions ev s =
     (let limit = max (rp_global_active_limit (policy ev s)) 1
      in fold (\<lambda>(index, run).
           broadcast_to_user (ar_user_id (qr_row run))
             (EvQueueUpdated (ar_conversation_id (qr_row run)) (ar_turn_id (qr_row run)) (index + 1)
               (wave_estimate (index + 1) limit)))
         (zip [0..<length (ss_queue (sc_state s))] (ss_queue (sc_state s))) s)"

text \<open>The choice \<open>dispatch_available\<close> makes while it holds the lock.\<close>

definition ring_start :: "scheduler_state \<Rightarrow> nat" where
  "ring_start st =
     (case ss_last_dispatched_user st of
        None \<Rightarrow> 0
      | Some prev \<Rightarrow> (case position (\<lambda>u. u = prev) (ss_user_ring st) of
            None \<Rightarrow> 0
          | Some index \<Rightarrow> (index + 1) mod max (length (ss_user_ring st)) 1))"

definition active_users :: "scheduler_state \<Rightarrow> id list" where
  "active_users st = map (\<lambda>(_, run). av_user_id run) (ss_active st)"

definition ring_user :: "scheduler_state \<Rightarrow> nat \<Rightarrow> id" where
  "ring_user st offset = ss_user_ring st ! ((ring_start st + offset) mod length (ss_user_ring st))"

definition candidate_index :: "agent_runtime_mode \<Rightarrow> scheduler_state \<Rightarrow> nat \<Rightarrow> nat option" where
  "candidate_index mode st offset =
     (if mode = ModeEnforce \<and> ring_user st offset \<in> set (active_users st) then None
      else position (\<lambda>run. ar_user_id (qr_row run) = ring_user st offset) (ss_queue st))"

definition choose_index :: "agent_runtime_mode \<Rightarrow> scheduler_state \<Rightarrow> nat option" where
  "choose_index mode st = find_map (candidate_index mode st) [0..<length (ss_user_ring st)]"

definition take_next :: "agent_runtime_mode \<Rightarrow> nat \<Rightarrow> scheduler_state \<Rightarrow> (queued_run \<times> scheduler_state) option" where
  "take_next mode limit st =
     (if length (ss_active st) \<ge> limit \<or> ss_queue st = [] then None
      else case choose_index mode st of
        None \<Rightarrow> None
      | Some index \<Rightarrow>
          let run = ss_queue st ! index in
          Some (run, st\<lparr>ss_queue := remove_at index (ss_queue st),
            ss_last_dispatched_user := Some (ar_user_id (qr_row run)),
            ss_active := AList.update (ar_id (qr_row run)) \<lparr>av_user_id = ar_user_id (qr_row run)\<rparr> (ss_active st)\<rparr>))"

definition dispatch_run ::
  "runtime_env \<Rightarrow> 'd agent_run_repository \<Rightarrow> queued_run \<Rightarrow> 'd agent_run_scheduler \<Rightarrow> 'd agent_run_scheduler" where
  "dispatch_run ev repo run s =
     (let (started_at, s1) = now_ms ev s; row = qr_row run;
          (r, d) = repo_mark_dispatching repo (ar_id row) started_at (sc_repo s1);
          s2 = s1\<lparr>sc_repo := d\<rparr>
      in if r = Inr True
         then send_permit run (Inr ())
           (broadcast_to_user (ar_user_id row)
             (EvRunStarted (ar_id row) (ar_turn_id row) (ar_conversation_id row) started_at) s2)
         else send_permit run (Inl Persistence)
           (s2\<lparr>sc_state := (sc_state s2)\<lparr>ss_active := AList.delete (ar_id row) (ss_active (sc_state s2))\<rparr>\<rparr>))"

lemma dispatch_run_queue [simp]: "ss_queue (sc_state (dispatch_run ev repo run s)) = ss_queue (sc_state s)"
  by (simp add: dispatch_run_def now_ms_def send_permit_def broadcast_to_user_def Let_def split: prod.splits)

lemma choose_index_bound:
  assumes "choose_index mode st = Some index"
  shows "index < length (ss_queue st)"
  using find_map_Some [OF assms [unfolded choose_index_def]]
  by (auto simp: candidate_index_def split: if_splits dest: position_Some)

lemma take_next_shorter:
  assumes "take_next mode limit st = Some (run, st')"
  shows "length (ss_queue st') < length (ss_queue st)"
  using assms choose_index_bound [of mode st] by (auto simp: take_next_def Let_def split: if_splits option.splits)

function (sequential) dispatch_available ::
  "runtime_env \<Rightarrow> 'd agent_run_repository \<Rightarrow> 'd agent_run_scheduler \<Rightarrow> 'd agent_run_scheduler" where
  "dispatch_available ev repo s =
     (let p = policy ev s; m = read_memory_state ev p s; memory = snd (fst m); s1 = snd m;
          limit = effective_limit p memory
      in case take_next (rp_mode p) limit (sc_state s1) of
           None \<Rightarrow> broadcast_queue_positions ev s1
         | Some (run, st) \<Rightarrow> dispatch_available ev repo (dispatch_run ev repo run (s1\<lparr>sc_state := st\<rparr>)))"
  by pat_completeness auto
termination
  by (relation "measure (\<lambda>(ev, repo, s). length (ss_queue (sc_state s)))")
    (auto simp: read_memory_state_def Let_def dest: take_next_shorter)

definition push_queued :: "agent_run_row \<Rightarrow> 'd agent_run_scheduler \<Rightarrow> nat \<times> 'd agent_run_scheduler" where
  "push_queued row s =
     (let ch = sc_next_channel s; st = sc_state s;
          ring = (if ar_user_id row \<in> set (ss_user_ring st) then ss_user_ring st
                  else ss_user_ring st @ [ar_user_id row])
      in (ch, s\<lparr>sc_next_channel := Suc ch,
              sc_state := st\<lparr>ss_user_ring := ring,
                ss_queue := ss_queue st @ [\<lparr>qr_row = row, qr_permit = ch\<rparr>]\<rparr>\<rparr>))"

definition run_params :: "new_agent_run \<Rightarrow> create_agent_run_params" where
  "run_params i =
     \<lparr>cp_id = na_run_id i, cp_turn_id = na_turn_id i, cp_user_id = na_user_id i,
      cp_conversation_id = na_conversation_id i, cp_source = na_source i,
      cp_request_json = na_request_json i, cp_message_id = na_message_id i, cp_queued_at = na_queued_at i\<rparr>"

text \<open>The rest of \<open>enqueue\<close>, after \<open>preflight\<close> let the run in.\<close>

definition enqueue_admitted ::
  "runtime_env \<Rightarrow> 'd agent_run_repository \<Rightarrow> new_agent_run \<Rightarrow> 'd agent_run_scheduler
     \<Rightarrow> (run_admission_error + agent_run_admission) \<times> 'd agent_run_scheduler" where
  "enqueue_admitted ev repo input s =
     (case repo_create_queued repo (run_params input) (sc_repo s) of
        (Inl _, d) \<Rightarrow> (Inl Persistence, s\<lparr>sc_repo := d\<rparr>)
      | (Inr row, d) \<Rightarrow>
          let (ch, s1) = push_queued row (s\<lparr>sc_repo := d\<rparr>);
              s2 = broadcast_to_user (ar_user_id row)
                (EvRunQueued (ar_id row) (ar_turn_id row) (ar_conversation_id row) (ar_queued_at row)) s1
          in (Inr \<lparr>aa_run_id = na_run_id input, aa_turn_id = na_turn_id input,
                   aa_queued_at = na_queued_at input, aa_permit = ch\<rparr>,
              dispatch_available ev repo s2))"

definition enqueue ::
  "runtime_env \<Rightarrow> 'd agent_run_repository \<Rightarrow> new_agent_run \<Rightarrow> 'd agent_run_scheduler
     \<Rightarrow> (run_admission_error + agent_run_admission) \<times> 'd agent_run_scheduler" where
  "enqueue ev repo input s =
     (case preflight ev (na_user_id input) s of
        (Inl e, s1) \<Rightarrow> (Inl e, s1)
      | (Inr _, s1) \<Rightarrow> enqueue_admitted ev repo input s1)"

definition restore ::
  "runtime_env \<Rightarrow> 'd agent_run_repository \<Rightarrow> agent_run_row \<Rightarrow> 'd agent_run_scheduler
     \<Rightarrow> agent_run_admission \<times> 'd agent_run_scheduler" where
  "restore ev repo row s =
     (let (ch, s1) = push_queued row s
      in (\<lparr>aa_run_id = ar_id row, aa_turn_id = ar_turn_id row, aa_queued_at = ar_queued_at row, aa_permit = ch\<rparr>,
          dispatch_available ev repo s1))"

definition update_policy ::
  "runtime_env \<Rightarrow> 'd agent_run_repository \<Rightarrow> update_agent_runtime_policy_request \<Rightarrow> 'd agent_run_scheduler
     \<Rightarrow> (agent_runtime_policy_response \<times> 'd agent_run_scheduler) option" where
  "update_policy ev repo u s =
     Option.bind (if sc_policy_poisoned s then Some (default_policy ev, s)
                  else map_option (\<lambda>p. (p, s\<lparr>sc_policy := p\<rparr>)) (apply_policy u (sc_policy s)))
       (\<lambda>(p, s1).
          let (t, s2) = now_ms ev s1;
              (_, d) = repo_save_runtime_policy repo (policy_row p) t (sc_repo s2)
          in Some (policy_response p, dispatch_available ev repo (s2\<lparr>sc_repo := d\<rparr>)))"

definition mark_running :: "runtime_env \<Rightarrow> 'd agent_run_repository \<Rightarrow> id \<Rightarrow> 'd agent_run_scheduler \<Rightarrow> 'd agent_run_scheduler" where
  "mark_running ev repo rid s =
     (let (t, s1) = now_ms ev s in s1\<lparr>sc_repo := snd (repo_mark_running repo rid t (sc_repo s1))\<rparr>)"

definition set_effective_model ::
  "runtime_env \<Rightarrow> 'd agent_run_repository \<Rightarrow> id \<Rightarrow> string \<Rightarrow> bool \<Rightarrow> 'd agent_run_scheduler \<Rightarrow> 'd agent_run_scheduler" where
  "set_effective_model ev repo rid model fallback_used s =
     (let (t, s1) = now_ms ev s
      in s1\<lparr>sc_repo := snd (repo_set_effective_model repo rid model fallback_used t (sc_repo s1))\<rparr>)"

fun status_name :: "agent_run_status \<Rightarrow> string" where
  "status_name RunQueued = ''queued''"
| "status_name RunDispatching = ''dispatching''"
| "status_name RunRunning = ''running''"
| "status_name RunCompleted = ''completed''"
| "status_name RunFailed = ''failed''"
| "status_name RunCancelled = ''cancelled''"
| "status_name RunTimedOut = ''timed_out''"

definition parse_status :: "string \<Rightarrow> agent_run_status" where
  "parse_status s =
     (if s = ''queued'' then RunQueued else if s = ''dispatching'' then RunDispatching
      else if s = ''running'' then RunRunning else if s = ''completed'' then RunCompleted
      else if s = ''cancelled'' then RunCancelled else if s = ''timed_out'' then RunTimedOut
      else RunFailed)"

definition deactivate :: "id \<Rightarrow> 'd agent_run_scheduler \<Rightarrow> 'd agent_run_scheduler" where
  "deactivate rid s = s\<lparr>sc_state := (sc_state s)\<lparr>ss_active := AList.delete rid (ss_active (sc_state s))\<rparr>\<rparr>"

definition finish ::
  "runtime_env \<Rightarrow> 'd agent_run_repository \<Rightarrow> id \<Rightarrow> agent_run_status \<Rightarrow> string option
     \<Rightarrow> 'd agent_run_scheduler \<Rightarrow> 'd agent_run_scheduler" where
  "finish ev repo rid status error_code s =
     (let (t, s1) = now_ms ev s;
          s2 = s1\<lparr>sc_repo := snd (repo_mark_terminal repo rid (status_name status) error_code t (sc_repo s1))\<rparr>
      in dispatch_available ev repo (deactivate rid s2))"

definition cancel_queued ::
  "runtime_env \<Rightarrow> 'd agent_run_repository \<Rightarrow> id \<Rightarrow> id \<Rightarrow> 'd agent_run_scheduler
     \<Rightarrow> (run_admission_error + bool) \<times> 'd agent_run_scheduler" where
  "cancel_queued ev repo user turn s =
     (case position (\<lambda>run. ar_user_id (qr_row run) = user \<and> ar_turn_id (qr_row run) = turn) (ss_queue (sc_state s)) of
        None \<Rightarrow> (Inr False, s)
      | Some index \<Rightarrow>
          let run = ss_queue (sc_state s) ! index;
              s1 = s\<lparr>sc_state := (sc_state s)\<lparr>ss_queue := remove_at index (ss_queue (sc_state s))\<rparr>\<rparr>;
              (t, s2) = now_ms ev s1;
              (r, d) = repo_cancel_queued repo turn user t (sc_repo s2);
              s3 = s2\<lparr>sc_repo := d\<rparr>
          in (case r of
               Inl _ \<Rightarrow> (Inl Persistence, s3)
             | Inr _ \<Rightarrow> (Inr True, broadcast_queue_positions ev (send_permit run (Inl Cancelled) s3))))"

definition saturating_sub_i64 :: "int \<Rightarrow> int \<Rightarrow> int" where
  "saturating_sub_i64 a b = max (- (2 ^ 63)) (min (2 ^ 63 - 1) (a - b))"

definition expire_run :: "runtime_env \<Rightarrow> 'd agent_run_repository \<Rightarrow> queued_run \<Rightarrow> 'd agent_run_scheduler \<Rightarrow> 'd agent_run_scheduler" where
  "expire_run ev repo run s =
     (let (t, s1) = now_ms ev s; row = qr_row run;
          s2 = s1\<lparr>sc_repo := snd (repo_mark_terminal repo (ar_id row) ''timed_out'' (Some ''RUN_QUEUE_TIMEOUT'') t (sc_repo s1))\<rparr>
      in broadcast_to_user (ar_user_id row)
           (EvRunTimedOut (ar_id row) (ar_turn_id row) (ar_conversation_id row) ''RUN_QUEUE_TIMEOUT'')
           (send_permit run (Inl QueueTimeout) s2))"

definition expire_deadline :: "runtime_env \<Rightarrow> 'd agent_run_scheduler \<Rightarrow> timestamp_ms" where
  "expire_deadline ev s = saturating_sub_i64 (env_now ev (sc_ticks s)) (as_i64 (rp_queue_timeout_ms (policy ev s)))"

definition expire_queued :: "runtime_env \<Rightarrow> 'd agent_run_repository \<Rightarrow> 'd agent_run_scheduler \<Rightarrow> 'd agent_run_scheduler" where
  "expire_queued ev repo s =
     (let deadline = expire_deadline ev s; (_, s1) = now_ms ev s; queue = ss_queue (sc_state s1);
          expired = filter (\<lambda>run. ar_queued_at (qr_row run) \<le> deadline) queue;
          retained = filter (\<lambda>run. \<not> ar_queued_at (qr_row run) \<le> deadline) queue;
          s2 = s1\<lparr>sc_state := (sc_state s1)\<lparr>ss_queue := retained\<rparr>\<rparr>
      in dispatch_available ev repo (fold (expire_run ev repo) expired s2))"

definition recover_after_restart ::
  "runtime_env \<Rightarrow> 'd agent_run_repository \<Rightarrow> 'd agent_run_scheduler
     \<Rightarrow> (run_admission_error + agent_run_row list) \<times> 'd agent_run_scheduler" where
  "recover_after_restart ev repo s =
     (let (t, s1) = now_ms ev s in
      case repo_fail_interrupted repo t (sc_repo s1) of
        (Inl _, d) \<Rightarrow> (Inl Persistence, s1\<lparr>sc_repo := d\<rparr>)
      | (Inr _, d) \<Rightarrow>
          (case repo_list_queued repo d of
             (Inl _, d') \<Rightarrow> (Inl Persistence, s1\<lparr>sc_repo := d'\<rparr>)
           | (Inr rows, d') \<Rightarrow> (Inr rows, s1\<lparr>sc_repo := d'\<rparr>)))"

record agent_run_response =
  rs_id :: id
  rs_conversation_id :: id
  rs_turn_id :: id
  rs_source :: string
  rs_status :: agent_run_status
  rs_queue_position :: "u32 option"
  rs_estimated_wait_ms :: "u64 option"
  rs_effective_model :: "string option"
  rs_fallback_used :: bool
  rs_error_code :: "string option"
  rs_queued_at :: timestamp_ms
  rs_started_at :: "timestamp_ms option"
  rs_finished_at :: "timestamp_ms option"

definition row_to_response :: "agent_run_row \<Rightarrow> queued_run list \<Rightarrow> agent_run_response" where
  "row_to_response row queue =
     (let queue_position = map_option (\<lambda>index. word_of_nat index + 1)
            (position (\<lambda>queued. ar_id (qr_row queued) = ar_id row) queue) :: u32 option
      in \<lparr>rs_id = ar_id row, rs_conversation_id = ar_conversation_id row, rs_turn_id = ar_turn_id row,
          rs_source = ar_source row, rs_status = parse_status (ar_status row), rs_queue_position = queue_position,
          rs_estimated_wait_ms = map_option (\<lambda>pos. ucast pos * word_of_nat DEFAULT_TURN_ESTIMATE_MS) queue_position,
          rs_effective_model = ar_effective_model row, rs_fallback_used = ar_fallback_used row,
          rs_error_code = ar_error_code row, rs_queued_at = ar_queued_at row,
          rs_started_at = ar_started_at row, rs_finished_at = ar_finished_at row\<rparr>)"

definition list_for_user ::
  "'d agent_run_repository \<Rightarrow> id \<Rightarrow> 'd agent_run_scheduler
     \<Rightarrow> (run_admission_error + agent_run_response list) \<times> 'd agent_run_scheduler" where
  "list_for_user repo user s =
     (case repo_list_for_user repo user (sc_repo s) of
        (Inl _, d) \<Rightarrow> (Inl Persistence, s\<lparr>sc_repo := d\<rparr>)
      | (Inr rows, d) \<Rightarrow> (Inr (map (\<lambda>row. row_to_response row (ss_queue (sc_state s))) rows), s\<lparr>sc_repo := d\<rparr>))"

definition queue_details :: "runtime_env \<Rightarrow> id \<Rightarrow> 'd agent_run_scheduler \<Rightarrow> (u32 \<times> u64) option" where
  "queue_details ev turn s =
     map_option (\<lambda>index. (word_of_nat (index + 1),
         wave_estimate (index + 1) (max (rp_global_active_limit (policy ev s)) 1)))
       (position (\<lambda>run. ar_turn_id (qr_row run) = turn) (ss_queue (sc_state s)))"

record agent_runtime_status_response =
  st_memory_used_percent :: "rat option"
  st_memory_state :: string
  st_configured_active_limit :: nat
  st_effective_active_limit :: nat
  st_active_count :: nat
  st_queued_count :: nat
  st_resident_task_count :: nat

definition scheduler_status ::
  "runtime_env \<Rightarrow> nat \<Rightarrow> 'd agent_run_scheduler \<Rightarrow> agent_runtime_status_response \<times> 'd agent_run_scheduler" where
  "scheduler_status ev resident s =
     (let p = policy ev s; ((percent, memory), s1) = read_memory_state ev p s; st = sc_state s1
      in (\<lparr>st_memory_used_percent = percent, st_memory_state = memory_state_as_str memory,
           st_configured_active_limit = rp_global_active_limit p,
           st_effective_active_limit = effective_limit p memory,
           st_active_count = length (ss_active st), st_queued_count = length (ss_queue st),
           st_resident_task_count = resident\<rparr>, s1))"

end
