(* ===== verification/SchedulerInvariant.thy ===== *)
theory SchedulerInvariant
  imports RunScheduler
begin

text \<open>
  Invariants of the run scheduler: an induction rule for the dispatch loop, the scheduler as a
  state machine, and what every reachable state satisfies (limits, the user ring, permits). The
  facts that need the repository's contract are proved in the locale \<open>run_store\<close>.
\<close>

declare dispatch_available.simps [simp del]

section \<open>The dispatch loop\<close>

lemma broadcast_queue_positions_frame:
  "\<exists>bs. broadcast_queue_positions ev s = s\<lparr>sc_broadcasts := bs\<rparr>"
proof -
  have "\<exists>bs. fold (\<lambda>x. broadcast_to_user (f x) (g x)) xs s = s\<lparr>sc_broadcasts := bs\<rparr>" for f g and xs :: "'b list"
  proof (induction xs arbitrary: s)
    case Nil
    have "s = s\<lparr>sc_broadcasts := sc_broadcasts s\<rparr>" by simp
    then show ?case by (metis fold_simps(1))
  next
    case (Cons x xs)
    obtain bs where "fold (\<lambda>x. broadcast_to_user (f x) (g x)) xs (broadcast_to_user (f x) (g x) s)
        = (broadcast_to_user (f x) (g x) s)\<lparr>sc_broadcasts := bs\<rparr>" using Cons.IH by blast
    moreover have "(broadcast_to_user (f x) (g x) s)\<lparr>sc_broadcasts := bs\<rparr> = s\<lparr>sc_broadcasts := bs\<rparr>"
      by (simp add: broadcast_to_user_def)
    ultimately show ?case by auto
  qed
  from this [of "\<lambda>(index, run). ar_user_id (qr_row run)"
      "\<lambda>(index, run). EvQueueUpdated (ar_conversation_id (qr_row run)) (ar_turn_id (qr_row run)) (index + 1)
         (wave_estimate (index + 1) (max (rp_global_active_limit (policy ev s)) 1))"]
  show ?thesis unfolding broadcast_queue_positions_def Let_def by (simp add: case_prod_unfold)
qed

lemma policy_frame [simp]:
  "policy ev (s\<lparr>sc_ticks := t\<rparr>) = policy ev s" "policy ev (s\<lparr>sc_broadcasts := bs\<rparr>) = policy ev s"
  "policy ev (s\<lparr>sc_state := st\<rparr>) = policy ev s" "policy ev (s\<lparr>sc_repo := d\<rparr>) = policy ev s"
  "policy ev (s\<lparr>sc_sent := ps\<rparr>) = policy ev s"
  by (simp_all add: policy_def)

lemma dispatch_unfold:
  "dispatch_available ev repo s =
     (case take_next (rp_mode (policy ev s))
         (effective_limit (policy ev s) (memory_level (policy ev s) (env_memory ev (sc_ticks s)))) (sc_state s) of
        None \<Rightarrow> broadcast_queue_positions ev (s\<lparr>sc_ticks := Suc (sc_ticks s)\<rparr>)
      | Some (run, st) \<Rightarrow> dispatch_available ev repo
          (dispatch_run ev repo run (s\<lparr>sc_ticks := Suc (sc_ticks s), sc_state := st\<rparr>)))"
  by (subst dispatch_available.simps) (simp add: read_memory_state_def Let_def split: option.split)

text \<open>An assertion that survives a reading, a broadcast and a dispatch survives the loop.\<close>

lemma dispatch_rule [consumes 1, case_names tick announce dispatch]:
  assumes "I s"
    and tick: "\<And>s. I s \<Longrightarrow> I (s\<lparr>sc_ticks := Suc (sc_ticks s)\<rparr>)"
    and announce: "\<And>s bs. I s \<Longrightarrow> I (s\<lparr>sc_broadcasts := bs\<rparr>)"
    and dispatch: "\<And>s memory run st. I s \<Longrightarrow>
      take_next (rp_mode (policy ev s)) (effective_limit (policy ev s) memory) (sc_state s) = Some (run, st) \<Longrightarrow>
      I (dispatch_run ev repo run (s\<lparr>sc_state := st\<rparr>))"
  shows "I (dispatch_available ev repo s)"
  using assms(1)
proof (induction "length (ss_queue (sc_state s))" arbitrary: s rule: less_induct)
  case less
  let ?s1 = "s\<lparr>sc_ticks := Suc (sc_ticks s)\<rparr>"
  let ?next = "take_next (rp_mode (policy ev s))
     (effective_limit (policy ev s) (memory_level (policy ev s) (env_memory ev (sc_ticks s)))) (sc_state s)"
  have I1: "I ?s1" using tick [OF less.prems] .
  show ?case
  proof (cases ?next)
    case None
    obtain bs where "broadcast_queue_positions ev ?s1 = ?s1\<lparr>sc_broadcasts := bs\<rparr>"
      using broadcast_queue_positions_frame by blast
    with announce [OF I1] None show ?thesis by (subst dispatch_unfold) simp
  next
    case (Some x)
    then obtain run st where next_run: "?next = Some (run, st)" by (cases x) simp
    have "I (dispatch_run ev repo run (?s1\<lparr>sc_state := st\<rparr>))" using dispatch [OF I1] next_run by simp
    moreover have "length (ss_queue st) < length (ss_queue (sc_state s))" using take_next_shorter [OF next_run] .
    ultimately have "I (dispatch_available ev repo (dispatch_run ev repo run (?s1\<lparr>sc_state := st\<rparr>)))"
      using less.hyps by simp
    with next_run show ?thesis by (subst dispatch_unfold) simp
  qed
qed

lemma take_next_cases:
  assumes "take_next mode limit st = Some (run, st')"
  obtains index where "choose_index mode st = Some index" "index < length (ss_queue st)" "run = ss_queue st ! index"
    "length (ss_active st) < limit"
    "st' = st\<lparr>ss_queue := remove_at index (ss_queue st),
       ss_last_dispatched_user := Some (ar_user_id (qr_row run)),
       ss_active := AList.update (ar_id (qr_row run)) \<lparr>av_user_id = ar_user_id (qr_row run)\<rparr> (ss_active st)\<rparr>"
  using assms choose_index_bound [of mode st] by (auto simp: take_next_def Let_def split: if_splits option.splits)

lemma dispatch_run_cases:
  obtains (granted) t d where "repo_mark_dispatching repo (ar_id (qr_row run)) t (sc_repo s) = (Inr True, d)"
      "t = env_now ev (sc_ticks s)"
      "dispatch_run ev repo run s = s\<lparr>sc_ticks := Suc (sc_ticks s), sc_repo := d,
         sc_broadcasts := sc_broadcasts s @ [(ar_user_id (qr_row run),
           EvRunStarted (ar_id (qr_row run)) (ar_turn_id (qr_row run)) (ar_conversation_id (qr_row run)) t)],
         sc_sent := sc_sent s @ [\<lparr>ps_permit = qr_permit run, ps_run_id = ar_id (qr_row run), ps_result = Inr ()\<rparr>]\<rparr>"
  | (refused) t r d where "repo_mark_dispatching repo (ar_id (qr_row run)) t (sc_repo s) = (r, d)" "r \<noteq> Inr True"
      "dispatch_run ev repo run s = s\<lparr>sc_ticks := Suc (sc_ticks s), sc_repo := d,
         sc_state := (sc_state s)\<lparr>ss_active := AList.delete (ar_id (qr_row run)) (ss_active (sc_state s))\<rparr>,
         sc_sent := sc_sent s @ [\<lparr>ps_permit = qr_permit run, ps_run_id = ar_id (qr_row run), ps_result = Inl Persistence\<rparr>]\<rparr>"
proof -
  obtain r d where rd: "repo_mark_dispatching repo (ar_id (qr_row run)) (env_now ev (sc_ticks s)) (sc_repo s) = (r, d)"
    by (cases "repo_mark_dispatching repo (ar_id (qr_row run)) (env_now ev (sc_ticks s)) (sc_repo s)")
  show thesis
  proof (cases "r = Inr True")
    case True
    show ?thesis by (rule granted) (use rd True in \<open>simp_all add: dispatch_run_def now_ms_def send_permit_def broadcast_to_user_def Let_def\<close>)
  next
    case False
    show ?thesis by (rule refused) (use rd False in \<open>simp_all add: dispatch_run_def now_ms_def send_permit_def Let_def\<close>)
  qed
qed

lemma dispatch_policy [simp]:
  "sc_policy (dispatch_available ev repo s) = sc_policy s"
  "sc_policy_poisoned (dispatch_available ev repo s) = sc_policy_poisoned s" for s :: "'d agent_run_scheduler"
proof -
  have "sc_policy (dispatch_available ev repo s) = sc_policy s
      \<and> sc_policy_poisoned (dispatch_available ev repo s) = sc_policy_poisoned s"
  proof (rule dispatch_rule)
    fix s' :: "'d agent_run_scheduler" and run st
    assume "sc_policy s' = sc_policy s \<and> sc_policy_poisoned s' = sc_policy_poisoned s"
    then show "sc_policy (dispatch_run ev repo run (s'\<lparr>sc_state := st\<rparr>)) = sc_policy s
        \<and> sc_policy_poisoned (dispatch_run ev repo run (s'\<lparr>sc_state := st\<rparr>)) = sc_policy_poisoned s"
      by (cases rule: dispatch_run_cases [where repo = repo and run = run and s = "s'\<lparr>sc_state := st\<rparr>" and ev = ev]) auto
  qed auto
  then show "sc_policy (dispatch_available ev repo s) = sc_policy s"
    "sc_policy_poisoned (dispatch_available ev repo s) = sc_policy_poisoned s" by auto
qed

section \<open>The scheduler as a state machine\<close>

definition terminal_statuses :: "agent_run_status set" where
  "terminal_statuses = {RunCompleted, RunFailed, RunCancelled, RunTimedOut}"

text \<open>
  Any sequence of calls, by any callers. \<open>admitted\<close> is the second half of an \<open>enqueue\<close> whose
  check was done earlier, \<open>finish\<close> is called with a terminal status, and the flag says whether
  the repository may fail a cancellation.
\<close>

inductive sched_step ::
  "runtime_env \<Rightarrow> 'd agent_run_repository \<Rightarrow> bool \<Rightarrow> 'd agent_run_scheduler \<Rightarrow> 'd agent_run_scheduler \<Rightarrow> bool"
  for ev :: runtime_env and repo :: "'d agent_run_repository" and faulty :: bool where
  preflight: "sched_step ev repo faulty s (snd (preflight ev user s))"
| enqueue: "sched_step ev repo faulty s (snd (enqueue ev repo input s))"
| admitted: "sched_step ev repo faulty s (snd (enqueue_admitted ev repo input s))"
| restore: "sched_step ev repo faulty s (snd (restore ev repo row s))"
| load: "sched_step ev repo faulty s (snd (load_policy ev repo s))"
| update: "update_policy ev repo u s = Some (r, s') \<Longrightarrow> sched_step ev repo faulty s s'"
| running: "sched_step ev repo faulty s (mark_running ev repo rid s)"
| set_model: "sched_step ev repo faulty s (set_effective_model ev repo rid model fallback s)"
| finish: "status \<in> terminal_statuses \<Longrightarrow> sched_step ev repo faulty s (finish ev repo rid status code s)"
| cancel: "cancel_queued ev repo user turn s = (Inr b, s') \<Longrightarrow> sched_step ev repo faulty s s'"
| cancel_failed: "faulty \<Longrightarrow> cancel_queued ev repo user turn s = (Inl e, s') \<Longrightarrow> sched_step ev repo faulty s s'"
| expire: "sched_step ev repo faulty s (expire_queued ev repo s)"
| recover: "sched_step ev repo faulty s (snd (recover_after_restart ev repo s))"
| list_runs: "sched_step ev repo faulty s (snd (list_for_user repo user s))"
| status: "sched_step ev repo faulty s (snd (scheduler_status ev resident s))"

text \<open>States reached from a new scheduler while the policy always satisfies \<open>P\<close>.\<close>

inductive sched_reachable ::
  "runtime_env \<Rightarrow> 'd agent_run_repository \<Rightarrow> bool \<Rightarrow> (runtime_policy \<Rightarrow> bool) \<Rightarrow> 'd \<Rightarrow> 'd agent_run_scheduler \<Rightarrow> bool"
  for ev :: runtime_env and repo :: "'d agent_run_repository" and faulty :: bool
    and P :: "runtime_policy \<Rightarrow> bool" and d :: 'd where
  start: "P (default_policy ev) \<Longrightarrow> sched_reachable ev repo faulty P d (new_scheduler ev d)"
| step: "sched_reachable ev repo faulty P d s \<Longrightarrow> sched_step ev repo faulty s s' \<Longrightarrow> P (sc_policy s') \<Longrightarrow>
    sched_reachable ev repo faulty P d s'"

text \<open>The repository calls a step makes outside the dispatch loop.\<close>

inductive repo_call :: "'d agent_run_repository \<Rightarrow> 'd \<Rightarrow> 'd \<Rightarrow> bool" for repo :: "'d agent_run_repository" where
  "repo_call repo d (snd (repo_load_runtime_policy repo d))"
| "repo_call repo d (snd (repo_save_runtime_policy repo p t d))"
| "repo_call repo d (snd (repo_create_queued repo c d))"
| "repo_call repo d (snd (repo_list_for_user repo user d))"
| "repo_call repo d (snd (repo_list_queued repo d))"
| "repo_call repo d (snd (repo_mark_running repo rid t d))"
| "repo_call repo d (snd (repo_set_effective_model repo rid model fallback t d))"
| "st \<noteq> ''queued'' \<Longrightarrow> repo_call repo d (snd (repo_mark_terminal repo rid st code t d))"
| "repo_call repo d (snd (repo_cancel_queued repo turn user t d))"
| "repo_call repo d (snd (repo_fail_interrupted repo t d))"

lemma terminal_name_not_queued: "status \<in> terminal_statuses \<Longrightarrow> status_name status \<noteq> ''queued''"
  by (auto simp: terminal_statuses_def)

definition timeout_sent :: "queued_run \<Rightarrow> permit_sent" where
  "timeout_sent run = \<lparr>ps_permit = qr_permit run, ps_run_id = ar_id (qr_row run), ps_result = Inl QueueTimeout\<rparr>"

lemma update_policy_shape:
  assumes "update_policy ev repo u s = Some (r, s')"
  obtains p t where "s' = dispatch_available ev repo (s\<lparr>sc_policy := sc_policy s', sc_ticks := Suc (sc_ticks s),
      sc_repo := snd (repo_save_runtime_policy repo p t (sc_repo s))\<rparr>)"
proof -
  have "\<exists>pol p t. s' = dispatch_available ev repo (s\<lparr>sc_policy := pol, sc_ticks := Suc (sc_ticks s),
      sc_repo := snd (repo_save_runtime_policy repo p t (sc_repo s))\<rparr>)"
  proof (cases "sc_policy_poisoned s")
    case True
    have "s\<lparr>sc_policy := sc_policy s\<rparr> = s" by simp
    then show ?thesis using assms True unfolding update_policy_def
      by (intro exI [of _ "sc_policy s"]) (auto simp: now_ms_def Let_def case_prod_beta)
  next
    case False
    then show ?thesis using assms by (auto simp: update_policy_def now_ms_def Let_def bind_eq_Some_conv case_prod_beta)
  qed
  then obtain pol p t where "s' = dispatch_available ev repo (s\<lparr>sc_policy := pol, sc_ticks := Suc (sc_ticks s),
      sc_repo := snd (repo_save_runtime_policy repo p t (sc_repo s))\<rparr>)" by blast
  moreover from this have "pol = sc_policy s'" by simp
  ultimately show thesis using that by simp
qed

text \<open>A step is made of a few kinds of change: an assertion they all keep is an invariant.\<close>

locale sched_changes =
  fixes ev :: runtime_env and repo :: "'d agent_run_repository" and faulty :: bool
    and I :: "'d agent_run_scheduler \<Rightarrow> bool"
  assumes tick: "\<And>s. I s \<Longrightarrow> I (s\<lparr>sc_ticks := Suc (sc_ticks s)\<rparr>)"
    and announce: "\<And>s bs. I s \<Longrightarrow> I (s\<lparr>sc_broadcasts := bs\<rparr>)"
    and call: "\<And>s d. I s \<Longrightarrow> repo_call repo (sc_repo s) d \<Longrightarrow> I (s\<lparr>sc_repo := d\<rparr>)"
    and push: "\<And>s row. I s \<Longrightarrow> I (snd (push_queued row s))"
    and deactivated: "\<And>s rid. I s \<Longrightarrow> I (deactivate rid s)"
    and answered: "\<And>s i. I s \<Longrightarrow> i < length (ss_queue (sc_state s)) \<Longrightarrow>
      I (send_permit (ss_queue (sc_state s) ! i) (Inl Cancelled)
        (s\<lparr>sc_state := (sc_state s)\<lparr>ss_queue := remove_at i (ss_queue (sc_state s))\<rparr>\<rparr>))"
    and lost: "\<And>s i. faulty \<Longrightarrow> I s \<Longrightarrow> i < length (ss_queue (sc_state s)) \<Longrightarrow>
      I (s\<lparr>sc_state := (sc_state s)\<lparr>ss_queue := remove_at i (ss_queue (sc_state s))\<rparr>\<rparr>)"
    and expired: "\<And>s q. I s \<Longrightarrow>
      I (s\<lparr>sc_state := (sc_state s)\<lparr>ss_queue := filter (\<lambda>run. \<not> q run) (ss_queue (sc_state s))\<rparr>,
           sc_sent := sc_sent s @ map timeout_sent (filter q (ss_queue (sc_state s)))\<rparr>)"
    and dispatch: "\<And>s memory run st. I s \<Longrightarrow>
      take_next (rp_mode (policy ev s)) (effective_limit (policy ev s) memory) (sc_state s) = Some (run, st) \<Longrightarrow>
      I (dispatch_run ev repo run (s\<lparr>sc_state := st\<rparr>))"
begin

lemma loop: "I s \<Longrightarrow> I (dispatch_available ev repo s)"
  by (rule dispatch_rule [of I, OF _ tick announce dispatch])

lemma positions: "I s \<Longrightarrow> I (broadcast_queue_positions ev s)"
  using announce broadcast_queue_positions_frame [of ev s] by metis

lemma preflight_kept: "I s \<Longrightarrow> I (snd (preflight ev user s))"
  using tick [of s] by (simp add: preflight_def read_memory_state_def Let_def)

lemma enqueue_admitted_kept:
  assumes "I s" shows "I (snd (enqueue_admitted ev repo input s))"
proof -
  obtain r d where rd: "repo_create_queued repo (run_params input) (sc_repo s) = (r, d)"
    by (cases "repo_create_queued repo (run_params input) (sc_repo s)")
  then have I1: "I (s\<lparr>sc_repo := d\<rparr>)" using call [OF assms] repo_call.intros(3) [of repo "sc_repo s" "run_params input"] by simp
  show ?thesis
  proof (cases r)
    case (Inl e)
    with rd I1 show ?thesis by (simp add: enqueue_admitted_def)
  next
    case (Inr row)
    obtain ch s1 where ch: "push_queued row (s\<lparr>sc_repo := d\<rparr>) = (ch, s1)" by (cases "push_queued row (s\<lparr>sc_repo := d\<rparr>)")
    with push [OF I1, of row] have "I s1" by simp
    from loop [OF announce [OF this]] rd Inr ch show ?thesis
      by (simp add: enqueue_admitted_def Let_def broadcast_to_user_def)
  qed
qed

lemma expire_fold:
  assumes "I (s\<lparr>sc_sent := sc_sent s @ map timeout_sent runs\<rparr>)"
  shows "I (fold (expire_run ev repo) runs s)"
  using assms
proof (induction runs arbitrary: s)
  case (Cons run runs)
  let ?s = "s\<lparr>sc_sent := sc_sent s @ map timeout_sent (run # runs)\<rparr>"
  let ?d = "snd (repo_mark_terminal repo (ar_id (qr_row run)) ''timed_out'' (Some ''RUN_QUEUE_TIMEOUT'')
     (env_now ev (sc_ticks s)) (sc_repo s))"
  let ?s' = "?s\<lparr>sc_ticks := Suc (sc_ticks ?s), sc_repo := ?d, sc_broadcasts := sc_broadcasts s @ [(ar_user_id (qr_row run),
      EvRunTimedOut (ar_id (qr_row run)) (ar_turn_id (qr_row run)) (ar_conversation_id (qr_row run)) ''RUN_QUEUE_TIMEOUT'')]\<rparr>"
  have "I ?s'"
    by (intro announce call tick Cons.prems) (simp add: repo_call.intros(8))
  moreover have "?s' = (expire_run ev repo run s)\<lparr>sc_sent := sc_sent (expire_run ev repo run s) @ map timeout_sent runs\<rparr>"
    by (cases s) (simp add: expire_run_def now_ms_def broadcast_to_user_def send_permit_def timeout_sent_def Let_def)
  ultimately have "I (fold (expire_run ev repo) runs (expire_run ev repo run s))" by (intro Cons.IH) (simp only:)
  then show ?case by simp
qed simp

lemma expire_kept:
  assumes "I s" shows "I (expire_queued ev repo s)"
  using loop [OF expire_fold] expired [OF tick [OF assms]]
  by (simp add: expire_queued_def now_ms_def Let_def)

lemma cancel_kept:
  assumes "I s" "cancel_queued ev repo user turn s = (r, s')" "is_ok r \<or> faulty"
  shows "I s'"
proof (cases "position (\<lambda>run. ar_user_id (qr_row run) = user \<and> ar_turn_id (qr_row run) = turn) (ss_queue (sc_state s))")
  case None
  with assms show ?thesis by (simp add: cancel_queued_def)
next
  case (Some i)
  let ?s1 = "s\<lparr>sc_state := (sc_state s)\<lparr>ss_queue := remove_at i (ss_queue (sc_state s))\<rparr>\<rparr>" and ?run = "ss_queue (sc_state s) ! i"
  have i: "i < length (ss_queue (sc_state s))" using position_Some [OF Some] by simp
  obtain r' d where rd: "repo_cancel_queued repo turn user (env_now ev (sc_ticks s)) (sc_repo s) = (r', d)"
    by (cases "repo_cancel_queued repo turn user (env_now ev (sc_ticks s)) (sc_repo s)")
  then have call': "repo_call repo (sc_repo s) d" using repo_call.intros(9) [of repo "sc_repo s" turn user] by (metis snd_conv)
  show ?thesis
  proof (cases r')
    case (Inl e)
    then have "s' = ?s1\<lparr>sc_ticks := Suc (sc_ticks s), sc_repo := d\<rparr>" "\<not> is_ok r"
      using assms(2) Some rd by (auto simp: cancel_queued_def now_ms_def Let_def)
    moreover have "I (?s1\<lparr>sc_ticks := Suc (sc_ticks ?s1), sc_repo := d\<rparr>)"
      using \<open>\<not> is_ok r\<close> assms(3) i call' by (intro call tick lost assms(1)) simp_all
    ultimately show ?thesis by simp
  next
    case (Inr b)
    then have "s' = broadcast_queue_positions ev (send_permit ?run (Inl Cancelled) (?s1\<lparr>sc_ticks := Suc (sc_ticks s), sc_repo := d\<rparr>))"
      using assms(2) Some rd by (auto simp: cancel_queued_def now_ms_def Let_def)
    moreover have "I ((send_permit ?run (Inl Cancelled) ?s1)\<lparr>sc_ticks := Suc (sc_ticks (send_permit ?run (Inl Cancelled) ?s1)), sc_repo := d\<rparr>)"
      using i call' by (intro call tick answered assms(1)) (simp_all add: send_permit_def)
    moreover have "(send_permit ?run (Inl Cancelled) ?s1)\<lparr>sc_ticks := Suc (sc_ticks (send_permit ?run (Inl Cancelled) ?s1)), sc_repo := d\<rparr>
        = send_permit ?run (Inl Cancelled) (?s1\<lparr>sc_ticks := Suc (sc_ticks s), sc_repo := d\<rparr>)"
      by (cases s) (simp add: send_permit_def)
    ultimately show ?thesis by (metis positions)
  qed
qed

lemma recover_kept:
  assumes "I s" shows "I (snd (recover_after_restart ev repo s))"
proof -
  let ?s1 = "s\<lparr>sc_ticks := Suc (sc_ticks s)\<rparr>" and ?t = "env_now ev (sc_ticks s)"
  have I1: "I (?s1\<lparr>sc_repo := snd (repo_fail_interrupted repo ?t (sc_repo s))\<rparr>)"
    by (intro call tick assms) (simp add: repo_call.intros(10))
  obtain r d where rd: "repo_fail_interrupted repo ?t (sc_repo s) = (r, d)" by (cases "repo_fail_interrupted repo ?t (sc_repo s)")
  obtain r' d' where rd': "repo_list_queued repo d = (r', d')" by (cases "repo_list_queued repo d")
  have "I (?s1\<lparr>sc_repo := d\<rparr>)" using I1 rd by simp
  from call [OF this, of d'] rd' repo_call.intros(5) [of repo d] have "I (?s1\<lparr>sc_repo := d'\<rparr>)" by simp
  with I1 rd rd' show ?thesis
    by (cases r; cases r') (simp_all add: recover_after_restart_def now_ms_def Let_def)
qed

lemma step_kept:
  assumes "sched_step ev repo faulty s s'" "I s"
    and policy: "\<And>t. I t \<Longrightarrow> I (t\<lparr>sc_policy := sc_policy s'\<rparr>)"
  shows "I s'"
  using assms(1)
proof (cases rule: sched_step.cases)
  case (preflight user)
  then show ?thesis using preflight_kept [OF assms(2)] by simp
next
  case (enqueue input)
  obtain r s1 where p: "preflight ev (na_user_id input) s = (r, s1)" by (cases "preflight ev (na_user_id input) s")
  then have "I s1" using preflight_kept [OF assms(2), of "na_user_id input"] by simp
  with p enqueue enqueue_admitted_kept show ?thesis by (cases r) (simp_all add: enqueue_def)
next
  case (admitted input)
  then show ?thesis using enqueue_admitted_kept [OF assms(2)] by simp
next
  case (restore row)
  obtain ch s1 where "push_queued row s = (ch, s1)" by (cases "push_queued row s")
  with restore loop push [OF assms(2), of row] show ?thesis by (simp add: restore_def Let_def)
next
  case load
  obtain r d where rd: "repo_load_runtime_policy repo (sc_repo s) = (r, d)" by (cases "repo_load_runtime_policy repo (sc_repo s)")
  have "I (s\<lparr>sc_repo := d\<rparr>)" using call [OF assms(2) repo_call.intros(1)] rd by simp
  from policy [OF this] this load rd show ?thesis by (cases r) (simp_all add: load_policy_def)
next
  case (update u r)
  from update_policy_shape [OF update(1)] obtain p t where s': "s' = dispatch_available ev repo (s\<lparr>sc_policy := sc_policy s', sc_ticks := Suc (sc_ticks s),
      sc_repo := snd (repo_save_runtime_policy repo p t (sc_repo s))\<rparr>)" by blast
  have "I (s\<lparr>sc_policy := sc_policy s', sc_ticks := Suc (sc_ticks (s\<lparr>sc_policy := sc_policy s'\<rparr>)),
      sc_repo := snd (repo_save_runtime_policy repo p t (sc_repo s))\<rparr>)"
    by (intro call tick policy assms(2)) (simp add: repo_call.intros(2))
  from loop [OF this] s' show ?thesis by simp
next
  case (running rid)
  have "I (s\<lparr>sc_ticks := Suc (sc_ticks s), sc_repo := snd (repo_mark_running repo rid (env_now ev (sc_ticks s)) (sc_repo s))\<rparr>)"
    by (intro call tick assms(2)) (simp add: repo_call.intros(6))
  with running show ?thesis by (simp add: mark_running_def now_ms_def Let_def)
next
  case (set_model rid model fallback)
  have "I (s\<lparr>sc_ticks := Suc (sc_ticks s),
      sc_repo := snd (repo_set_effective_model repo rid model fallback (env_now ev (sc_ticks s)) (sc_repo s))\<rparr>)"
    by (intro call tick assms(2)) (simp add: repo_call.intros(7))
  with set_model show ?thesis by (simp add: set_effective_model_def now_ms_def Let_def)
next
  case (finish status rid code)
  have "I (deactivate rid (s\<lparr>sc_ticks := Suc (sc_ticks s),
      sc_repo := snd (repo_mark_terminal repo rid (status_name status) code (env_now ev (sc_ticks s)) (sc_repo s))\<rparr>))"
    by (intro deactivated call tick assms(2)) (simp add: repo_call.intros(8) terminal_name_not_queued [OF finish(2)])
  from loop [OF this] finish(1) show ?thesis by (simp add: finish_def now_ms_def Let_def)
next
  case (cancel user turn b)
  then show ?thesis using cancel_kept [OF assms(2)] by auto
next
  case (cancel_failed user turn e)
  then show ?thesis using cancel_kept [OF assms(2)] by auto
next
  case expire
  then show ?thesis using expire_kept [OF assms(2)] by simp
next
  case recover
  then show ?thesis using recover_kept [OF assms(2)] by simp
next
  case (list_runs user)
  have "I (s\<lparr>sc_repo := snd (repo_list_for_user repo user (sc_repo s))\<rparr>)"
    by (intro call assms(2)) (simp add: repo_call.intros(4))
  with list_runs show ?thesis
    by (cases "repo_list_for_user repo user (sc_repo s)"; cases "fst (repo_list_for_user repo user (sc_repo s))")
      (simp_all add: list_for_user_def)
next
  case (status resident)
  then show ?thesis using tick [OF assms(2)] by (simp add: scheduler_status_def read_memory_state_def Let_def)
qed

end

section \<open>Limits\<close>

lemma candidate_index_Some:
  assumes "candidate_index mode st offset = Some index"
  shows "position (\<lambda>run. ar_user_id (qr_row run) = ring_user st offset) (ss_queue st) = Some index"
    "ar_user_id (qr_row (ss_queue st ! index)) = ring_user st offset"
    "mode = ModeEnforce \<Longrightarrow> ring_user st offset \<notin> set (active_users st)"
proof -
  show pos: "position (\<lambda>run. ar_user_id (qr_row run) = ring_user st offset) (ss_queue st) = Some index"
    using assms by (simp add: candidate_index_def split: if_splits)
  show "ar_user_id (qr_row (ss_queue st ! index)) = ring_user st offset" using position_Some [OF pos] by simp
  show "mode = ModeEnforce \<Longrightarrow> ring_user st offset \<notin> set (active_users st)"
    using assms by (auto simp: candidate_index_def)
qed

lemma candidate_index_None:
  "candidate_index mode st offset = None \<longleftrightarrow>
     (mode = ModeEnforce \<and> ring_user st offset \<in> set (active_users st))
     \<or> (\<forall>run \<in> set (ss_queue st). ar_user_id (qr_row run) \<noteq> ring_user st offset)"
  by (auto simp: candidate_index_def position_None)

lemma choose_index_spec:
  assumes "choose_index mode st = Some index"
  obtains offset where "offset < length (ss_user_ring st)" "candidate_index mode st offset = Some index"
    "\<And>earlier. earlier < offset \<Longrightarrow> candidate_index mode st earlier = None"
proof -
  from find_map_Some [OF assms [unfolded choose_index_def]] obtain offset where
    "offset < length (ss_user_ring st)" "candidate_index mode st ([0..<length (ss_user_ring st)] ! offset) = Some index"
    "\<forall>j < offset. candidate_index mode st ([0..<length (ss_user_ring st)] ! j) = None" by auto
  then show thesis by (intro that [of offset]) auto
qed

lemma take_next_enforce:
  assumes "take_next ModeEnforce limit st = Some (run, st')"
  shows "ar_user_id (qr_row run) \<notin> set (active_users st)"
proof -
  from assms obtain index where "choose_index ModeEnforce st = Some index" "run = ss_queue st ! index"
    by (rule take_next_cases)
  then show ?thesis by (elim choose_index_spec) (simp add: candidate_index_Some)
qed

definition limit_inv :: "nat \<Rightarrow> 'd agent_run_scheduler \<Rightarrow> bool" where
  "limit_inv n s \<longleftrightarrow> \<not> sc_policy_poisoned s \<and> rp_mode (sc_policy s) = ModeEnforce
     \<and> rp_global_active_limit (sc_policy s) \<le> n \<and> keys_distinct (ss_active (sc_state s))
     \<and> length (ss_active (sc_state s)) \<le> n \<and> distinct (active_users (sc_state s))"

lemma length_update_le: "length (AList.update k v m) \<le> Suc (length m)"
  by (induction m) auto

lemma length_delete_le': "length (AList.delete k m) \<le> length m"
  by (induction m) auto

lemma users_update:
  "distinct (map f m) \<Longrightarrow> f (k, v) \<notin> set (map f m) \<Longrightarrow> distinct (map f (AList.update k v m))
    \<and> set (map f (AList.update k v m)) \<subseteq> insert (f (k, v)) (set (map f m))"
  by (induction m) auto

lemma users_delete: "distinct (map f m) \<Longrightarrow> distinct (map f (AList.delete k m))"
  by (simp add: AList.delete_eq distinct_map_filter)

lemma effective_limit_enforce: "rp_mode p = ModeEnforce \<Longrightarrow> effective_limit p memory \<le> rp_global_active_limit p"
  by (simp add: effective_limit_def split: memory_state.splits)

lemma limit_inv_dispatch:
  assumes "limit_inv n s"
    and next_run: "take_next (rp_mode (policy ev s)) (effective_limit (policy ev s) memory) (sc_state s) = Some (run, st)"
  shows "limit_inv n (dispatch_run ev repo run (s\<lparr>sc_state := st\<rparr>))"
proof -
  have p: "policy ev s = sc_policy s" "rp_mode (sc_policy s) = ModeEnforce" using assms(1) by (simp_all add: limit_inv_def policy_def)
  note fresh = take_next_enforce [OF next_run [unfolded p]]
  from next_run have act: "ss_active st = AList.update (ar_id (qr_row run)) \<lparr>av_user_id = ar_user_id (qr_row run)\<rparr> (ss_active (sc_state s))"
    and len: "length (ss_active (sc_state s)) < effective_limit (policy ev s) memory" by (auto elim: take_next_cases)
  have "length (ss_active st) \<le> n"
    using len effective_limit_enforce [of "sc_policy s" memory] p assms(1) length_update_le
    unfolding act limit_inv_def by (metis le_trans less_eq_Suc_le)
  moreover have "distinct (active_users st)"
    using users_update [of "\<lambda>(_, run). av_user_id run" "ss_active (sc_state s)"] fresh assms(1)
    unfolding active_users_def act limit_inv_def by simp
  moreover have "keys_distinct (ss_active st)" using assms(1) by (simp add: act limit_inv_def)
  ultimately have st: "limit_inv n (s\<lparr>sc_state := st\<rparr>)" using assms(1) by (simp add: limit_inv_def)
  show ?thesis
    by (cases rule: dispatch_run_cases [where repo = repo and run = run and s = "s\<lparr>sc_state := st\<rparr>" and ev = ev])
      (use st length_delete_le' [of _ "ss_active st"] in
        \<open>auto simp: limit_inv_def active_users_def intro: users_delete order_trans\<close>)
qed

interpretation limits: sched_changes ev repo faulty "limit_inv n" for ev repo faulty n
proof (unfold_locales, goal_cases)
  case (5 s rid)
  then show ?case using length_delete_le' [of rid "ss_active (sc_state s)"]
    by (auto simp: limit_inv_def deactivate_def active_users_def intro: users_delete order_trans)
next
  case (9 s memory run st)
  then show ?case by (rule limit_inv_dispatch)
qed (auto simp: limit_inv_def active_users_def push_queued_def send_permit_def Let_def)

section \<open>The user ring and the permits\<close>

definition ring_inv :: "'d agent_run_scheduler \<Rightarrow> bool" where
  "ring_inv s \<longleftrightarrow> distinct (ss_user_ring (sc_state s))
     \<and> (\<forall>run \<in> set (ss_queue (sc_state s)). ar_user_id (qr_row run) \<in> set (ss_user_ring (sc_state s)))"

lemma ring_inv_dispatch:
  assumes "ring_inv s" "take_next mode limit (sc_state s) = Some (run, st)"
  shows "ring_inv (dispatch_run ev repo run (s\<lparr>sc_state := st\<rparr>))"
proof -
  from assms have "ring_inv (s\<lparr>sc_state := st\<rparr>)" using set_remove_at
    by (elim take_next_cases) (fastforce simp: ring_inv_def)
  then show ?thesis
    by (cases rule: dispatch_run_cases [where repo = repo and run = run and s = "s\<lparr>sc_state := st\<rparr>" and ev = ev])
      (auto simp: ring_inv_def)
qed

interpretation ring: sched_changes ev repo faulty ring_inv for ev repo faulty
proof (unfold_locales, goal_cases)
  case (9 s memory run st)
  then show ?case by (rule ring_inv_dispatch)
qed (use set_remove_at in \<open>fastforce simp: ring_inv_def push_queued_def send_permit_def deactivate_def Let_def\<close>)+

definition held_permits :: "'d agent_run_scheduler \<Rightarrow> nat multiset" where
  "held_permits s = mset (map qr_permit (ss_queue (sc_state s))) + mset (map ps_permit (sc_sent s))"

definition permits_inv :: "bool \<Rightarrow> 'd agent_run_scheduler \<Rightarrow> bool" where
  "permits_inv faulty s \<longleftrightarrow>
     held_permits s \<subseteq># mset [0..<sc_next_channel s] \<and> (\<not> faulty \<longrightarrow> held_permits s = mset [0..<sc_next_channel s])"

lemma mset_permits_remove:
  "i < length queue \<Longrightarrow> mset (map qr_permit queue) = add_mset (qr_permit (queue ! i)) (mset (map qr_permit (remove_at i queue)))"
  by (simp add: mset_remove_at)

lemma permits_inv_move:
  assumes "permits_inv faulty s" "i < length (ss_queue (sc_state s))"
    "ss_queue (sc_state s') = remove_at i (ss_queue (sc_state s))" "sc_next_channel s' = sc_next_channel s"
    "sc_sent s' = sc_sent s @ [x]" "ps_permit x = qr_permit (ss_queue (sc_state s) ! i)"
  shows "permits_inv faulty s'"
  using assms mset_permits_remove [OF assms(2)] by (simp add: permits_inv_def held_permits_def)

lemma permits_inv_dispatch:
  assumes "permits_inv faulty s" "take_next mode limit (sc_state s) = Some (run, st)"
  shows "permits_inv faulty (dispatch_run ev repo run (s\<lparr>sc_state := st\<rparr>))"
proof -
  from assms(2) obtain i where i: "i < length (ss_queue (sc_state s))" "run = ss_queue (sc_state s) ! i"
    "ss_queue st = remove_at i (ss_queue (sc_state s))" by (auto elim: take_next_cases)
  show ?thesis
    by (cases rule: dispatch_run_cases [where repo = repo and run = run and s = "s\<lparr>sc_state := st\<rparr>" and ev = ev])
      (rule permits_inv_move [OF assms(1) i(1)], use i in auto)+
qed

lemma permits_inv_expired:
  assumes "permits_inv faulty s"
  shows "permits_inv faulty
    (s\<lparr>sc_state := (sc_state s)\<lparr>ss_queue := filter (\<lambda>run. \<not> q run) (ss_queue (sc_state s))\<rparr>,
       sc_sent := sc_sent s @ map timeout_sent (filter q (ss_queue (sc_state s)))\<rparr>)"
proof -
  have "mset (map qr_permit queue) = mset (map qr_permit (filter (\<lambda>run. \<not> q run) queue))
        + mset (map ps_permit (map timeout_sent (filter q queue)))" for queue
    by (induction queue) (auto simp: timeout_sent_def)
  from this [of "ss_queue (sc_state s)"] have "held_permits
    (s\<lparr>sc_state := (sc_state s)\<lparr>ss_queue := filter (\<lambda>run. \<not> q run) (ss_queue (sc_state s))\<rparr>,
       sc_sent := sc_sent s @ map timeout_sent (filter q (ss_queue (sc_state s)))\<rparr>) = held_permits s"
    unfolding held_permits_def by (simp only: map_append mset_append) simp
  with assms show ?thesis by (simp add: permits_inv_def)
qed

interpretation permits: sched_changes ev repo faulty "permits_inv faulty" for ev repo faulty
proof (unfold_locales, goal_cases)
  case (4 s row)
  then show ?case by (simp add: permits_inv_def held_permits_def push_queued_def Let_def)
next
  case (6 s i)
  show ?case by (rule permits_inv_move [OF 6, where x = "\<lparr>ps_permit = qr_permit (ss_queue (sc_state s) ! i),
      ps_run_id = ar_id (qr_row (ss_queue (sc_state s) ! i)), ps_result = Inl Cancelled\<rparr>"]) (simp_all add: send_permit_def)
next
  case (7 s i)
  let ?s1 = "s\<lparr>sc_state := (sc_state s)\<lparr>ss_queue := remove_at i (ss_queue (sc_state s))\<rparr>\<rparr>"
  have "held_permits s = add_mset (qr_permit (ss_queue (sc_state s) ! i)) (held_permits ?s1)"
    using mset_permits_remove [OF 7(3)] by (simp add: held_permits_def)
  then have "held_permits ?s1 \<subseteq># held_permits s" by simp
  with 7 show ?case by (auto simp: permits_inv_def intro: subset_mset.order_trans)
next
  case (8 s q)
  then show ?case by (rule permits_inv_expired)
next
  case (9 s memory run st)
  then show ?case by (rule permits_inv_dispatch)
qed (auto simp: permits_inv_def held_permits_def deactivate_def)

end
