(* ===== verification/SchedulerGrants.thy ===== *)
theory SchedulerGrants
  imports SchedulerInvariant
begin

text \<open>
  What the scheduler guarantees with a repository that keeps the contract \<open>run_store\<close>: a run is
  granted at most once, and a granted run has left the state \<open>queued\<close>. Also the reachable
  versions of the invariants, and that the dispatch loop stops only when nothing can run.
\<close>

section \<open>Grants\<close>

definition granted :: "'d agent_run_scheduler \<Rightarrow> id list" where
  "granted s = map ps_run_id (filter (\<lambda>x. ps_result x = Inr ()) (sc_sent s))"

lemma granted_frame [simp]:
  "granted (s\<lparr>sc_ticks := t\<rparr>) = granted s" "granted (s\<lparr>sc_broadcasts := bs\<rparr>) = granted s"
  "granted (s\<lparr>sc_state := st\<rparr>) = granted s" "granted (s\<lparr>sc_repo := d\<rparr>) = granted s"
  "granted (s\<lparr>sc_policy := p\<rparr>) = granted s" "granted (s\<lparr>sc_next_channel := n\<rparr>) = granted s"
  "granted (s\<lparr>sc_sent := sc_sent s @ map timeout_sent runs\<rparr>) = granted s"
  by (simp_all add: granted_def timeout_sent_def filter_map comp_def)

definition left_queue :: "(id \<Rightarrow> agent_run_row option) \<Rightarrow> id \<Rightarrow> bool" where
  "left_queue m i \<longleftrightarrow> (case m i of None \<Rightarrow> False | Some row \<Rightarrow> ar_status row \<noteq> ''queued'')"

lemma left_queue_rows_where:
  assumes "left_queue m i" "\<And>r. p r \<Longrightarrow> ar_status r \<noteq> ''queued'' \<Longrightarrow> ar_status (f r) \<noteq> ''queued''"
  shows "left_queue (rows_where p f m) i"
  using assms by (auto simp: left_queue_def rows_where_def split: option.splits)

lemma row_update_statuses [simp]:
  "ar_status (dispatching_row t r) = ''dispatching''" "ar_status (running_row t r) = ''running''"
  "ar_status (modelled_row m b t r) = ar_status r" "ar_status (terminal_row st c t r) = st"
  by (simp_all add: dispatching_row_def running_row_def modelled_row_def terminal_row_def)

definition grants_inv :: "('d \<Rightarrow> id \<Rightarrow> agent_run_row option) \<Rightarrow> ('d \<Rightarrow> bool) \<Rightarrow> 'd agent_run_scheduler \<Rightarrow> bool" where
  "grants_inv rows valid s \<longleftrightarrow> valid (sc_repo s) \<and> distinct (granted s)
     \<and> (\<forall>i \<in> set (granted s). left_queue (rows (sc_repo s)) i)"

context run_store
begin

lemma repo_call_keeps:
  assumes "repo_call repo d d'" "valid d"
  shows "valid d' \<and> (\<forall>i. left_queue (rows d) i \<longrightarrow> left_queue (rows d') i)"
  using assms(1)
proof (cases rule: repo_call.cases)
  case 1
  then show ?thesis using load [OF assms(2)] by (metis surjective_pairing)
next
  case (2 p t)
  then show ?thesis using save [OF assms(2)] by (metis surjective_pairing)
next
  case (3 c)
  obtain r where r: "repo_create_queued repo c d = (r, d')" using 3 by (metis prod.collapse)
  show ?thesis
  proof (cases r)
    case (Inl e)
    then show ?thesis using create_err [OF assms(2)] r by (fastforce simp: left_queue_def)
  next
    case (Inr row)
    then show ?thesis using create_ok [OF assms(2)] r by (fastforce simp: left_queue_def)
  qed
next
  case (4 user)
  then show ?thesis using list_for_user [OF assms(2)] by (metis surjective_pairing)
next
  case 5
  then show ?thesis using list_queued [OF assms(2)] by (metis surjective_pairing)
next
  case (6 rid t)
  then show ?thesis using running [OF assms(2), of rid t] by (cases "repo_mark_running repo rid t d") (auto intro: left_queue_rows_where)
next
  case (7 rid model fallback t)
  then show ?thesis using set_model [OF assms(2), of rid model fallback t]
    by (cases "repo_set_effective_model repo rid model fallback t d") (auto intro: left_queue_rows_where)
next
  case (8 st rid code t)
  then show ?thesis using terminal [OF assms(2), of rid st code t]
    by (cases "repo_mark_terminal repo rid st code t d") (auto intro: left_queue_rows_where)
next
  case (9 turn user t)
  then show ?thesis using cancel [OF assms(2), of turn user t]
    by (cases "repo_cancel_queued repo turn user t d") (auto intro: left_queue_rows_where)
next
  case (10 t)
  then show ?thesis using interrupted [OF assms(2), of t]
    by (cases "repo_fail_interrupted repo t d") (auto intro: left_queue_rows_where)
qed

lemma grants_call:
  assumes "grants_inv rows valid s" "repo_call repo (sc_repo s) d"
  shows "grants_inv rows valid (s\<lparr>sc_repo := d\<rparr>)"
  using assms repo_call_keeps [OF assms(2)] by (auto simp: grants_inv_def)

lemma grants_dispatch:
  assumes "grants_inv rows valid s"
  shows "grants_inv rows valid (dispatch_run ev repo run s)"
proof (cases rule: dispatch_run_cases [where repo = repo and run = run and s = s and ev = ev])
  case (granted t d)
  let ?i = "ar_id (qr_row run)"
  have v: "valid (sc_repo s)" using assms by (simp add: grants_inv_def)
  from dispatching [OF v granted(1)] have d: "valid d"
    "rows d = rows_where (\<lambda>x. ar_id x = ?i \<and> ar_status x = ''queued'') (dispatching_row t) (rows (sc_repo s))"
    and new: "\<exists>row. rows (sc_repo s) ?i = Some row \<and> ar_status row = ''queued''" by auto
  from new have "?i \<notin> set (granted s)" using assms by (auto simp: grants_inv_def left_queue_def)
  moreover have "granted (dispatch_run ev repo run s) = granted s @ [?i]" by (simp add: granted(3) granted_def)
  moreover have "left_queue (rows d) i" if "left_queue (rows (sc_repo s)) i" for i
    unfolding d(2) by (rule left_queue_rows_where [OF that]) simp
  moreover have "left_queue (rows d) ?i"
    using new keyed [OF v, of ?i] unfolding d(2) by (auto simp: left_queue_def rows_where_def)
  ultimately show ?thesis using assms d(1) granted(3) by (auto simp: grants_inv_def)
next
  case (refused t r d)
  have v: "valid (sc_repo s)" using assms by (simp add: grants_inv_def)
  from dispatching [OF v refused(1)] have "valid d"
    "\<And>i. left_queue (rows (sc_repo s)) i \<Longrightarrow> left_queue (rows d) i" by (auto intro: left_queue_rows_where split: if_splits)
  moreover have "granted (dispatch_run ev repo run s) = granted s" by (simp add: refused(3) granted_def)
  ultimately show ?thesis using assms refused(3) by (auto simp: grants_inv_def)
qed

end

sublocale run_store \<subseteq> grants: sched_changes ev repo faulty "grants_inv rows valid" for ev faulty
proof (unfold_locales, goal_cases)
  case (3 s d)
  then show ?case by (rule grants_call)
next
  case (9 s memory run st)
  then have "grants_inv rows valid (s\<lparr>sc_state := st\<rparr>)" by (simp add: grants_inv_def)
  then show ?case by (rule grants_dispatch)
qed (auto simp: grants_inv_def push_queued_def deactivate_def send_permit_def granted_def timeout_sent_def filter_map comp_def Let_def)

context run_store
begin

lemma granted_at_most_once:
  assumes "sched_reachable ev repo faulty P d s" "valid d"
  shows "distinct (granted s) \<and> (\<forall>i \<in> set (granted s). left_queue (rows (sc_repo s)) i)"
proof -
  have "grants_inv rows valid s" using assms(1)
  proof (induction rule: sched_reachable.induct)
    case start
    then show ?case using assms(2) by (simp add: grants_inv_def granted_def new_scheduler_def)
  next
    case (step s s')
    show ?case by (rule grants.step_kept [OF step.hyps(2) step.IH]) (simp add: grants_inv_def)
  qed
  then show ?thesis by (simp add: grants_inv_def)
qed

end

section \<open>Reachable states\<close>

lemma reachable_policy: "sched_reachable ev repo faulty P d s \<Longrightarrow> P (sc_policy s)"
  by (induction rule: sched_reachable.induct) (simp_all add: new_scheduler_def)

lemma reachable_limits:
  assumes "sched_reachable ev repo faulty P d s"
    "\<And>p. P p \<Longrightarrow> rp_mode p = ModeEnforce \<and> rp_global_active_limit p \<le> n"
  shows "limit_inv n s"
  using assms(1)
proof (induction rule: sched_reachable.induct)
  case start
  then show ?case using assms(2) by (auto simp: limit_inv_def new_scheduler_def active_users_def)
next
  case (step s s')
  show ?case using assms(2) step.hyps(3)
    by (intro limits.step_kept [OF step.hyps(2) step.IH]) (auto simp: limit_inv_def)
qed

lemma reachable_ring: "sched_reachable ev repo faulty P d s \<Longrightarrow> ring_inv s"
proof (induction rule: sched_reachable.induct)
  case (step s s')
  show ?case by (rule ring.step_kept [OF step.hyps(2) step.IH]) (simp add: ring_inv_def)
qed (simp add: ring_inv_def new_scheduler_def)

lemma reachable_permits: "sched_reachable ev repo faulty P d s \<Longrightarrow> permits_inv faulty s"
proof (induction rule: sched_reachable.induct)
  case (step s s')
  show ?case by (rule permits.step_kept [OF step.hyps(2) step.IH]) (simp add: permits_inv_def held_permits_def)
qed (simp add: permits_inv_def held_permits_def new_scheduler_def)

section \<open>The loop stops only when nothing can run\<close>

lemma dispatch_stops:
  "\<exists>k < sc_ticks (dispatch_available ev repo s).
     take_next (rp_mode (policy ev s)) (effective_limit (policy ev s) (memory_level (policy ev s) (env_memory ev k)))
       (sc_state (dispatch_available ev repo s)) = None"
proof (induction "length (ss_queue (sc_state s))" arbitrary: s rule: less_induct)
  case less
  let ?limit = "effective_limit (policy ev s) (memory_level (policy ev s) (env_memory ev (sc_ticks s)))"
  let ?s1 = "s\<lparr>sc_ticks := Suc (sc_ticks s)\<rparr>"
  show ?case
  proof (cases "take_next (rp_mode (policy ev s)) ?limit (sc_state s)")
    case None
    obtain bs where "broadcast_queue_positions ev ?s1 = ?s1\<lparr>sc_broadcasts := bs\<rparr>"
      using broadcast_queue_positions_frame by blast
    then have "dispatch_available ev repo s = ?s1\<lparr>sc_broadcasts := bs\<rparr>" using None by (subst dispatch_unfold) simp
    with None show ?thesis by (intro exI [of _ "sc_ticks s"]) simp
  next
    case (Some x)
    then obtain run st where next_run: "take_next (rp_mode (policy ev s)) ?limit (sc_state s) = Some (run, st)" by (cases x) simp
    let ?s2 = "dispatch_run ev repo run (?s1\<lparr>sc_state := st\<rparr>)"
    have eq: "dispatch_available ev repo s = dispatch_available ev repo ?s2"
      using next_run by (subst dispatch_unfold) simp
    have p: "policy ev ?s2 = policy ev s"
      by (cases rule: dispatch_run_cases [where repo = repo and run = run and s = "?s1\<lparr>sc_state := st\<rparr>" and ev = ev]) (simp_all add: policy_def)
    from less [of ?s2] take_next_shorter [OF next_run] p show ?thesis unfolding eq by simp
  qed
qed

lemma ring_offset_exists: "i < n \<Longrightarrow> \<exists>k < n. (start + k) mod n = (i::nat)"
proof (intro exI conjI)
  assume i: "i < n"
  show "(i + (n - start mod n)) mod n < n" using i by simp
  have "(start + (i + (n - start mod n)) mod n) mod n = (start mod n + (i + (n - start mod n))) mod n"
    by (simp add: mod_simps)
  also have "start mod n \<le> n" using i mod_less_divisor [of n start] by simp
  then have "start mod n + (i + (n - start mod n)) = i + n" by simp
  finally show "(start + (i + (n - start mod n)) mod n) mod n = i" using i by simp
qed

lemma take_next_None:
  assumes "take_next mode limit st = None"
    "\<forall>run \<in> set (ss_queue st). ar_user_id (qr_row run) \<in> set (ss_user_ring st)"
  shows "length (ss_active st) \<ge> limit
    \<or> (\<forall>run \<in> set (ss_queue st). mode = ModeEnforce \<and> ar_user_id (qr_row run) \<in> set (active_users st))"
proof (cases "length (ss_active st) \<ge> limit \<or> ss_queue st = []")
  case False
  with assms(1) have none: "\<And>k. k < length (ss_user_ring st) \<Longrightarrow> candidate_index mode st k = None"
    by (auto simp: take_next_def choose_index_def find_map_None Let_def split: option.splits)
  have "mode = ModeEnforce \<and> ar_user_id (qr_row run) \<in> set (active_users st)" if run: "run \<in> set (ss_queue st)" for run
  proof -
    let ?n = "length (ss_user_ring st)"
    from assms(2) run have "ar_user_id (qr_row run) \<in> set (ss_user_ring st)" by blast
    then obtain i where i: "i < ?n" "ss_user_ring st ! i = ar_user_id (qr_row run)" unfolding in_set_conv_nth by blast
    obtain k where "k < ?n" "(ring_start st + k) mod ?n = i"
      using ring_offset_exists [OF i(1)] by blast
    then have "ring_user st k = ar_user_id (qr_row run)" using i(2) by (simp add: ring_user_def)
    with none [OF \<open>k < ?n\<close>] run show ?thesis by (auto simp: candidate_index_None)
  qed
  then show ?thesis by blast
qed auto

end
