(* ===== verification/AgentRuns.thy ===== *)
theory AgentRuns
  imports SchedulerGrants "HOL-Library.Code_Target_Nat"
begin

text \<open>
  Properties of the agent run scheduler, over \<open>RunScheduler\<close> and, where the repository matters,
  the SQLite model of \<open>RunRepository\<close>.
\<close>

section \<open>A concrete scheduler\<close>

definition demo_env :: runtime_env where
  "demo_env = \<lparr>env_mode_var = None, env_memory = (\<lambda>_. None), env_now = (\<lambda>k. 1000)\<rparr>"

definition demo_db :: run_db where
  "demo_db = \<lparr>rd_runs = [], rd_policy = Some (policy_row (default_policy demo_env)), rd_policy_updated_at = 0,
     rd_users = [''u1'', ''u2''], rd_conversations = [''c1'', ''c2''], rd_faults = []\<rparr>"

definition demo_run :: "id \<Rightarrow> id \<Rightarrow> new_agent_run" where
  "demo_run rid user = \<lparr>na_run_id = rid, na_turn_id = ''t'' @ rid, na_user_id = user, na_conversation_id = ''c1'',
     na_source = ''conversation'', na_request_json = ''{}'', na_message_id = None, na_queued_at = 1\<rparr>"

definition demo_new :: "run_db agent_run_scheduler" where
  "demo_new = new_scheduler demo_env demo_db"

definition demo_one :: "run_db agent_run_scheduler" where
  "demo_one = snd (enqueue demo_env sqlite_run_repository (demo_run ''r1'' ''u1'') demo_new)"

definition demo_two :: "run_db agent_run_scheduler" where
  "demo_two = snd (enqueue demo_env sqlite_run_repository (demo_run ''r2'' ''u1'') demo_one)"

definition enforcing :: "nat \<Rightarrow> runtime_policy \<Rightarrow> bool" where
  "enforcing n p \<longleftrightarrow> rp_mode p = ModeEnforce \<and> rp_global_active_limit p \<le> n"

lemma enqueue_policy [simp]: "sc_policy (snd (enqueue ev repo input s)) = sc_policy s"
  by (simp add: enqueue_def enqueue_admitted_def preflight_def read_memory_state_def push_queued_def broadcast_to_user_def
      Let_def split: prod.splits sum.splits)

lemma demo_reachable:
  "sched_reachable demo_env sqlite_run_repository faulty (enforcing 6) demo_db demo_new"
  "sched_reachable demo_env sqlite_run_repository faulty (enforcing 6) demo_db demo_one"
  "sched_reachable demo_env sqlite_run_repository faulty (enforcing 6) demo_db demo_two"
proof -
  have p: "enforcing 6 (default_policy demo_env)" by (simp add: enforcing_def default_policy_def demo_env_def)
  then show new: "sched_reachable demo_env sqlite_run_repository faulty (enforcing 6) demo_db demo_new"
    unfolding demo_new_def by (rule sched_reachable.start)
  show one: "sched_reachable demo_env sqlite_run_repository faulty (enforcing 6) demo_db demo_one"
    unfolding demo_one_def by (rule sched_reachable.step [OF new sched_step.enqueue]) (simp add: p demo_new_def new_scheduler_def)
  show "sched_reachable demo_env sqlite_run_repository faulty (enforcing 6) demo_db demo_two"
    unfolding demo_two_def by (rule sched_reachable.step [OF one sched_step.enqueue])
      (simp add: p demo_one_def demo_new_def new_scheduler_def)
qed

section \<open>Properties\<close>

text \<open>
  C10. While the policy enforces and keeps its active limit at most n, at most n runs are active
  in every reachable state, and no user has two active runs.
\<close>

theorem active_runs_within_limits:
  assumes "sched_reachable ev repo faulty (enforcing n) d s"
  shows "length (ss_active (sc_state s)) \<le> n \<and> distinct (map (\<lambda>(_, run). av_user_id run) (ss_active (sc_state s)))"
  using reachable_limits [OF assms, of n] by (simp add: enforcing_def limit_inv_def active_users_def)

theorem active_runs_within_limits_witness:
  "length (ss_active (sc_state demo_two)) \<le> 6 \<and> distinct (map (\<lambda>(_, run). av_user_id run) (ss_active (sc_state demo_two)))
   \<and> map fst (ss_active (sc_state demo_two)) = [''r1''] \<and> map (ar_id \<circ> qr_row) (ss_queue (sc_state demo_two)) = [''r2'']"
proof -
  have "map fst (ss_active (sc_state demo_two)) = [''r1''] \<and> map (ar_id \<circ> qr_row) (ss_queue (sc_state demo_two)) = [''r2'']"
    by code_simp
  with active_runs_within_limits [OF demo_reachable(3)] show ?thesis by blast
qed

text \<open>
  C11. With the SQLite repository, whatever queries fail, no run is ever granted its permit
  twice, and a granted run is in the table with a status other than queued.
\<close>

theorem run_granted_at_most_once:
  assumes "sched_reachable ev sqlite_run_repository faulty P d s" "db_valid d"
  shows "distinct (map ps_run_id (filter (\<lambda>x. ps_result x = Inr ()) (sc_sent s)))
    \<and> (\<forall>x \<in> set (sc_sent s). ps_result x = Inr () \<longrightarrow>
         (\<exists>row. db_rows (sc_repo s) (ps_run_id x) = Some row \<and> ar_status row \<noteq> ''queued''))"
  using sqlite.granted_at_most_once [OF assms] by (auto simp: granted_def left_queue_def split: option.splits)

theorem run_granted_at_most_once_witness:
  "map ps_run_id (sc_sent demo_two) = [''r1''] \<and> (\<exists>row. db_rows (sc_repo demo_two) ''r1'' = Some row \<and> ar_status row \<noteq> ''queued'')"
proof -
  have sent: "map (\<lambda>x. (ps_run_id x, ps_result x)) (sc_sent demo_two) = [(''r1'', Inr ())]" by code_simp
  then obtain x where x: "sc_sent demo_two = [x]" "ps_run_id x = ''r1''" "ps_result x = Inr ()" by auto
  have "db_valid demo_db" by (simp add: db_valid_def demo_db_def)
  from run_granted_at_most_once [OF demo_reachable(3) this] x show ?thesis by auto
qed

text \<open>
  A permit is answered at most once and never while its run still waits; unless the
  repository fails a cancellation, every permit handed out is answered or still waits.
\<close>

theorem permits_are_accounted_for:
  assumes "sched_reachable ev repo faulty P d s"
  shows "distinct (map qr_permit (ss_queue (sc_state s)) @ map ps_permit (sc_sent s))
    \<and> set (map qr_permit (ss_queue (sc_state s)) @ map ps_permit (sc_sent s)) \<subseteq> {0..<sc_next_channel s}
    \<and> (\<not> faulty \<longrightarrow>
         set (map qr_permit (ss_queue (sc_state s)) @ map ps_permit (sc_sent s)) = {0..<sc_next_channel s})"
proof -
  let ?held = "map qr_permit (ss_queue (sc_state s)) @ map ps_permit (sc_sent s)"
  have inv: "mset ?held \<subseteq># mset [0..<sc_next_channel s]" "\<not> faulty \<longrightarrow> mset ?held = mset [0..<sc_next_channel s]"
    using reachable_permits [OF assms] by (simp_all add: permits_inv_def held_permits_def)
  have "distinct ?held" using inv(1) by (rule distinct_mset_subset) simp
  moreover have "set ?held \<subseteq> {0..<sc_next_channel s}" using set_mset_mono [OF inv(1)] by (simp only: set_mset_mset set_upt)
  moreover have "set ?held = {0..<sc_next_channel s}" if "\<not> faulty"
    using mset_eq_setD [OF inv(2) [rule_format, OF that]] by (simp only: set_upt)
  ultimately show ?thesis by blast
qed

theorem permits_are_accounted_for_witness:
  "set (map qr_permit (ss_queue (sc_state demo_two)) @ map ps_permit (sc_sent demo_two)) = {0..<2}"
proof -
  have "sc_next_channel demo_two = 2" by code_simp
  with permits_are_accounted_for [OF demo_reachable(3) [where faulty = False]] show ?thesis by simp
qed

text \<open>The number of users the ring offers a slot to before \<open>u\<close>.\<close>

definition ring_turns :: "scheduler_state \<Rightarrow> id \<Rightarrow> nat option" where
  "ring_turns st u = position (\<lambda>k. ring_user st k = u) [0..<length (ss_user_ring st)]"

lemma ring_start_after:
  assumes "distinct (ss_user_ring st)" "ss_last_dispatched_user st = Some (ss_user_ring st ! i)" "i < length (ss_user_ring st)"
  shows "ring_start st = (i + 1) mod length (ss_user_ring st)"
proof -
  have "max (length (ss_user_ring st)) 1 = length (ss_user_ring st)" using assms(3) by simp
  then show ?thesis using assms(2) position_nth [OF assms(1,3)] unfolding ring_start_def by simp
qed

lemma next_run_overtaken:
  assumes ring: "distinct (ss_user_ring st)"
    and next_run: "take_next mode limit st = Some (run, st')"
    and waits: "waiting \<in> set (ss_queue st)" "mode = ModeEnforce \<longrightarrow> ar_user_id (qr_row waiting) \<notin> set (active_users st)"
      "ar_user_id (qr_row waiting) \<noteq> ar_user_id (qr_row run)"
    and turns: "ring_turns st (ar_user_id (qr_row waiting)) = Some k"
  shows "\<exists>k' < k. ring_turns st' (ar_user_id (qr_row waiting)) = Some k'"
proof -
  let ?u = "ar_user_id (qr_row waiting)" and ?n = "length (ss_user_ring st)"
  from turns have k: "k < ?n" "ring_user st k = ?u" by (auto simp: ring_turns_def dest: position_Some)
  from next_run obtain index where index: "choose_index mode st = Some index" "run = ss_queue st ! index"
    and st': "ss_user_ring st' = ss_user_ring st" "ss_last_dispatched_user st' = Some (ar_user_id (qr_row run))"
    by (auto elim!: take_next_cases)
  from index(1) obtain off where off: "off < ?n" "candidate_index mode st off = Some index"
    "\<And>earlier. earlier < off \<Longrightarrow> candidate_index mode st earlier = None" by (rule choose_index_spec) blast
  have user: "ar_user_id (qr_row run) = ring_user st off" using candidate_index_Some(2) [OF off(2)] index(2) by simp
  have "candidate_index mode st k \<noteq> None" unfolding candidate_index_None using waits(1,2) k(2) by auto
  with off(3) have "off \<le> k" by (meson not_le_imp_less)
  moreover have "off \<noteq> k" using user k(2) waits(3) by auto
  ultimately have less: "off < k" by simp
  have "(ring_start st + off) mod ?n < ?n" using off(1) by (intro mod_less_divisor) (rule le_less_trans [OF le0])
  then have "ring_start st' = ((ring_start st + off) mod ?n + 1) mod ?n"
    using ring_start_after [of st' "(ring_start st + off) mod ?n"] ring st' user by (simp add: ring_user_def)
  then have "(ring_start st' + (k - off - 1)) mod ?n = (ring_start st + off + 1 + (k - off - 1)) mod ?n"
    by (simp add: mod_simps)
  then have "ring_user st' (k - off - 1) = ?u" using less k(2) by (simp add: ring_user_def st')
  moreover have bound: "k - off - 1 < ?n" using k(1) by linarith
  ultimately have "\<exists>k' \<le> k - off - 1. ring_turns st' ?u = Some k'"
    unfolding ring_turns_def st'(1) by (intro position_le) simp_all
  then obtain k' where "k' \<le> k - off - 1" "ring_turns st' ?u = Some k'" by blast
  then show ?thesis using less by (intro exI [of _ k']) auto
qed

text \<open>
  C12. Dispatch is fair: the run taken is the oldest one of its user, and every user who could
  have run instead is strictly closer to its turn in the ring afterwards, so a waiting user is
  passed over at most once by each of the others.
\<close>

theorem dispatch_is_fair:
  assumes "sched_reachable ev repo faulty P d s"
    "take_next mode limit (sc_state s) = Some (run, st')"
  shows "(\<exists>before after. ss_queue (sc_state s) = before @ run # after \<and> ss_queue st' = before @ after
      \<and> (\<forall>r \<in> set before. ar_user_id (qr_row r) \<noteq> ar_user_id (qr_row run)))
    \<and> (\<forall>waiting \<in> set (ss_queue (sc_state s)).
        (mode = ModeEnforce \<longrightarrow> ar_user_id (qr_row waiting) \<notin> set (active_users (sc_state s))) \<longrightarrow>
        ar_user_id (qr_row waiting) \<noteq> ar_user_id (qr_row run) \<longrightarrow>
        (\<exists>k k'. ring_turns (sc_state s) (ar_user_id (qr_row waiting)) = Some k
              \<and> ring_turns st' (ar_user_id (qr_row waiting)) = Some k' \<and> k' < k))"
proof
  let ?st = "sc_state s"
  have inv: "distinct (ss_user_ring ?st)" "\<forall>run \<in> set (ss_queue ?st). ar_user_id (qr_row run) \<in> set (ss_user_ring ?st)"
    using reachable_ring [OF assms(1)] by (simp_all add: ring_inv_def)
  from assms(2) obtain index where index: "choose_index mode ?st = Some index" "index < length (ss_queue ?st)"
    "run = ss_queue ?st ! index" "ss_queue st' = remove_at index (ss_queue ?st)" by (auto elim!: take_next_cases)
  from index(1) obtain off where "candidate_index mode ?st off = Some index" by (rule choose_index_spec)
  from position_Some [OF candidate_index_Some(1) [OF this]] have older: "\<forall>j < index. ar_user_id (qr_row (ss_queue ?st ! j)) \<noteq> ar_user_id (qr_row run)"
    by (simp add: index(3))
  show "\<exists>before after. ss_queue ?st = before @ run # after \<and> ss_queue st' = before @ after
      \<and> (\<forall>r \<in> set before. ar_user_id (qr_row r) \<noteq> ar_user_id (qr_row run))"
    using id_take_nth_drop [OF index(2)] index(2-4) older
    by (intro exI [of _ "take index (ss_queue ?st)"] exI [of _ "drop (Suc index) (ss_queue ?st)"])
      (auto simp: remove_at_def in_set_conv_nth)
  have "\<exists>k. ring_turns ?st u = Some k" if "u \<in> set (ss_user_ring ?st)" for u
  proof -
    from that obtain i where i: "i < length (ss_user_ring ?st)" "ss_user_ring ?st ! i = u" by (auto simp: in_set_conv_nth)
    from ring_offset_exists [OF i(1)] obtain k where "k < length (ss_user_ring ?st)" "ring_user ?st k = u"
      unfolding ring_user_def using i(2) by metis
    with position_le [of k "[0..<length (ss_user_ring ?st)]" "\<lambda>k. ring_user ?st k = u"] show ?thesis by (auto simp: ring_turns_def)
  qed
  with next_run_overtaken [OF inv(1) assms(2)] inv(2)
  show "\<forall>waiting \<in> set (ss_queue ?st). (mode = ModeEnforce \<longrightarrow> ar_user_id (qr_row waiting) \<notin> set (active_users ?st)) \<longrightarrow>
      ar_user_id (qr_row waiting) \<noteq> ar_user_id (qr_row run) \<longrightarrow>
      (\<exists>k k'. ring_turns ?st (ar_user_id (qr_row waiting)) = Some k
            \<and> ring_turns st' (ar_user_id (qr_row waiting)) = Some k' \<and> k' < k)" by meson
qed

text \<open>Two users wait because the memory is paused.\<close>

definition paused_env :: runtime_env where
  "paused_env = demo_env\<lparr>env_memory := (\<lambda>_. Some 86)\<rparr>"

definition demo_waiting :: "run_db agent_run_scheduler" where
  "demo_waiting = snd (enqueue paused_env sqlite_run_repository (demo_run ''r2'' ''u2'')
     (snd (enqueue paused_env sqlite_run_repository (demo_run ''r1'' ''u1'') demo_new)))"

lemma demo_waiting_reachable:
  "sched_reachable paused_env sqlite_run_repository faulty (enforcing 6) demo_db demo_waiting"
proof -
  have p: "enforcing 6 (default_policy paused_env)" "demo_new = new_scheduler paused_env demo_db"
    by (simp_all add: enforcing_def default_policy_def paused_env_def demo_env_def demo_new_def new_scheduler_def)
  note new = sched_reachable.start [of "enforcing 6", OF p(1), of sqlite_run_repository faulty demo_db]
  show ?thesis unfolding demo_waiting_def p(2)
    by (rule sched_reachable.step [OF sched_reachable.step [OF new sched_step.enqueue] sched_step.enqueue])
      (simp_all add: p(1) new_scheduler_def)
qed

theorem dispatch_is_fair_witness:
  "\<exists>run st' k k'. take_next ModeEnforce 6 (sc_state demo_waiting) = Some (run, st') \<and> ar_id (qr_row run) = ''r1''
     \<and> ring_turns (sc_state demo_waiting) ''u2'' = Some k \<and> ring_turns st' ''u2'' = Some k' \<and> k' < k"
proof -
  have "map_option (\<lambda>(run, _). (ar_id (qr_row run), ar_user_id (qr_row run)))
      (take_next ModeEnforce 6 (sc_state demo_waiting)) = Some (''r1'', ''u1'')" by code_simp
  then obtain run st' where n: "take_next ModeEnforce 6 (sc_state demo_waiting) = Some (run, st')"
    "ar_id (qr_row run) = ''r1''" "ar_user_id (qr_row run) = ''u1''" by auto
  have w: "map (\<lambda>r. ar_user_id (qr_row r)) (ss_queue (sc_state demo_waiting)) = [''u1'', ''u2'']"
    "active_users (sc_state demo_waiting) = []" by code_simp+
  from w(1) have "''u2'' \<in> (\<lambda>r. ar_user_id (qr_row r)) ` set (ss_queue (sc_state demo_waiting))"
    unfolding set_map [symmetric] by simp
  then obtain waiting where "waiting \<in> set (ss_queue (sc_state demo_waiting))" "ar_user_id (qr_row waiting) = ''u2''" by force
  with dispatch_is_fair [OF demo_waiting_reachable n(1)] n w(2) show ?thesis by auto
qed



end
