(* ===== verification/AgentRunPolicy.thy ===== *)
theory AgentRunPolicy
  imports AgentRuns
begin

text \<open>
  Properties of the run scheduler's single operations: admission, expiry, policy updates and their
  persistence, recovery after a restart, and two ways in which the code misses its own limits.
\<close>

section \<open>What the dispatch loop leaves alone\<close>

lemma dispatch_queue_sub:
  fixes s :: "'d agent_run_scheduler"
  shows "mset (ss_queue (sc_state (dispatch_available ev repo s))) \<subseteq># mset (ss_queue (sc_state s))"
proof (rule dispatch_rule [where I = "\<lambda>t. mset (ss_queue (sc_state t)) \<subseteq># mset (ss_queue (sc_state s))"])
  fix t :: "'d agent_run_scheduler" and memory run st
  assume sub: "mset (ss_queue (sc_state t)) \<subseteq># mset (ss_queue (sc_state s))"
    and next_run: "take_next (rp_mode (policy ev t)) (effective_limit (policy ev t) memory) (sc_state t) = Some (run, st)"
  from next_run obtain index where "index < length (ss_queue (sc_state t))"
    "ss_queue st = remove_at index (ss_queue (sc_state t))" by (auto elim!: take_next_cases)
  then have "mset (ss_queue (sc_state t)) = add_mset (ss_queue (sc_state t) ! index) (mset (ss_queue st))"
    by (simp add: mset_remove_at)
  then have "mset (ss_queue st) \<subseteq># mset (ss_queue (sc_state t))" by simp
  from subset_mset.order_trans [OF this sub] show "mset (ss_queue (sc_state (dispatch_run ev repo run (t\<lparr>sc_state := st\<rparr>)))) \<subseteq># mset (ss_queue (sc_state s))"
    by simp
qed auto

lemma dispatch_queue_bounds:
  "length (ss_queue (sc_state (dispatch_available ev repo s))) \<le> length (ss_queue (sc_state s))"
  "user_queued user (sc_state (dispatch_available ev repo s)) \<le> user_queued user (sc_state s)"
  "set (ss_queue (sc_state (dispatch_available ev repo s))) \<subseteq> set (ss_queue (sc_state s))"
proof -
  note sub = dispatch_queue_sub [of ev repo s]
  show "length (ss_queue (sc_state (dispatch_available ev repo s))) \<le> length (ss_queue (sc_state s))"
    using size_mset_mono [OF sub] by simp
  show "user_queued user (sc_state (dispatch_available ev repo s)) \<le> user_queued user (sc_state s)"
    using size_mset_mono [OF multiset_filter_mono [OF sub, of "\<lambda>run. ar_user_id (qr_row run) = user"]]
    by (simp add: user_queued_def flip: mset_filter)
  show "set (ss_queue (sc_state (dispatch_available ev repo s))) \<subseteq> set (ss_queue (sc_state s))"
    using set_mset_mono [OF sub] by simp
qed

lemma dispatch_sent:
  fixes s :: "'d agent_run_scheduler"
  shows "\<exists>rest. sc_sent (dispatch_available ev repo s) = sc_sent s @ rest
     \<and> (\<forall>x \<in> set rest. ps_result x = Inr () \<or> ps_result x = Inl Persistence)"
proof (rule dispatch_rule [where I = "\<lambda>t. \<exists>rest. sc_sent t = sc_sent s @ rest
     \<and> (\<forall>x \<in> set rest. ps_result x = Inr () \<or> ps_result x = Inl Persistence)"])
  fix t :: "'d agent_run_scheduler" and run st
  assume "\<exists>rest. sc_sent t = sc_sent s @ rest \<and> (\<forall>x \<in> set rest. ps_result x = Inr () \<or> ps_result x = Inl Persistence)"
  then obtain rest where rest: "sc_sent t = sc_sent s @ rest"
    "\<forall>x \<in> set rest. ps_result x = Inr () \<or> ps_result x = Inl Persistence" by blast
  show "\<exists>rest. sc_sent (dispatch_run ev repo run (t\<lparr>sc_state := st\<rparr>)) = sc_sent s @ rest
     \<and> (\<forall>x \<in> set rest. ps_result x = Inr () \<or> ps_result x = Inl Persistence)"
    by (cases rule: dispatch_run_cases [where repo = repo and run = run and s = "t\<lparr>sc_state := st\<rparr>" and ev = ev])
      (use rest in \<open>auto intro!: exI [of _ "rest @ [_]"]\<close>)
qed auto

section \<open>Admission\<close>

lemma preflight_cases:
  "preflight ev user s =
     (let p = policy ev s; st = sc_state s in
      (if memory_level p (env_memory ev (sc_ticks s)) = MemRejecting then Inl MemoryPressure
       else if rp_mode p = ModeEnforce \<and> length (ss_queue st) \<ge> rp_global_queue_limit p then Inl QueueFull
       else if rp_mode p = ModeEnforce \<and> user_queued user st \<ge> rp_per_user_queue_limit p then Inl UserLimit
       else Inr (), s\<lparr>sc_ticks := Suc (sc_ticks s)\<rparr>))"
  by (simp add: preflight_def read_memory_state_def Let_def)

lemma push_queued_sizes:
  "length (ss_queue (sc_state (snd (push_queued row s)))) = Suc (length (ss_queue (sc_state s)))"
  "user_queued user (sc_state (snd (push_queued row s)))
     = user_queued user (sc_state s) + (if ar_user_id row = user then 1 else 0)"
  by (simp_all add: push_queued_def Let_def user_queued_def)

lemma enqueue_admitted_ok:
  assumes "enqueue_admitted ev repo input s = (Inr a, s')"
  obtains row d where "repo_create_queued repo (run_params input) (sc_repo s) = (Inr row, d)"
    "s' = dispatch_available ev repo (broadcast_to_user (ar_user_id row)
       (EvRunQueued (ar_id row) (ar_turn_id row) (ar_conversation_id row) (ar_queued_at row))
       (snd (push_queued row (s\<lparr>sc_repo := d\<rparr>))))"
    "aa_permit a = sc_next_channel s"
  using assms by (auto simp: enqueue_admitted_def Let_def push_queued_def split: prod.splits sum.splits)



section \<open>Expiry\<close>

lemma expire_fold_frame:
  "sc_state (fold (expire_run ev repo) runs s) = sc_state s
   \<and> sc_sent (fold (expire_run ev repo) runs s) = sc_sent s @ map timeout_sent runs"
  by (induction runs arbitrary: s)
    (simp_all add: expire_run_def now_ms_def broadcast_to_user_def send_permit_def timeout_sent_def Let_def)

text \<open>
  Expiry is exact: afterwards no waiting run has reached the deadline, the runs that had
  are answered with a timeout, each once and in queue order, and nobody else is.
\<close>

theorem expiry_is_exact:
  "let s' = expire_queued ev repo s; late = (\<lambda>run. ar_queued_at (qr_row run) \<le> expire_deadline ev s) in
     (\<forall>run \<in> set (ss_queue (sc_state s')). \<not> late run \<and> run \<in> set (ss_queue (sc_state s)))
   \<and> (\<exists>rest. sc_sent s' = sc_sent s @ map timeout_sent (filter late (ss_queue (sc_state s))) @ rest
        \<and> (\<forall>x \<in> set rest. ps_result x \<noteq> Inl QueueTimeout))"
proof -
  let ?late = "\<lambda>run. ar_queued_at (qr_row run) \<le> expire_deadline ev s"
  let ?s2 = "s\<lparr>sc_ticks := Suc (sc_ticks s), sc_state := (sc_state s)\<lparr>ss_queue := filter (\<lambda>run. \<not> ?late run) (ss_queue (sc_state s))\<rparr>\<rparr>"
  let ?s3 = "fold (expire_run ev repo) (filter ?late (ss_queue (sc_state s))) ?s2"
  have s': "expire_queued ev repo s = dispatch_available ev repo ?s3"
    by (simp add: expire_queued_def now_ms_def Let_def)
  note frame = expire_fold_frame [of ev repo "filter ?late (ss_queue (sc_state s))" ?s2]
  from frame dispatch_queue_bounds(3) [of ev repo ?s3]
  have queue: "\<forall>run \<in> set (ss_queue (sc_state (expire_queued ev repo s))). \<not> ?late run \<and> run \<in> set (ss_queue (sc_state s))"
    unfolding s' by auto
  obtain rest where "sc_sent (dispatch_available ev repo ?s3) = sc_sent ?s3 @ rest"
    "\<forall>x \<in> set rest. ps_result x = Inr () \<or> ps_result x = Inl Persistence" using dispatch_sent by blast
  with frame have "sc_sent (expire_queued ev repo s) = sc_sent s @ map timeout_sent (filter ?late (ss_queue (sc_state s))) @ rest"
    "\<forall>x \<in> set rest. ps_result x \<noteq> Inl QueueTimeout" unfolding s' by auto
  with queue show ?thesis unfolding Let_def by blast
qed

text \<open>The two waiting runs were queued at 1; a day later both are late.\<close>

definition late_env :: runtime_env where
  "late_env = paused_env\<lparr>env_now := (\<lambda>_. 86400000)\<rparr>"

theorem expiry_is_exact_witness:
  "ss_queue (sc_state (expire_queued late_env sqlite_run_repository demo_waiting)) = []
   \<and> (\<exists>rest. sc_sent (expire_queued late_env sqlite_run_repository demo_waiting)
        = map timeout_sent (ss_queue (sc_state demo_waiting)) @ rest)"
proof -
  have "map (\<lambda>run. ar_queued_at (qr_row run) \<le> expire_deadline late_env demo_waiting) (ss_queue (sc_state demo_waiting)) = [True, True]"
    "sc_sent demo_waiting = []" by code_simp+
  then have "\<forall>run \<in> set (ss_queue (sc_state demo_waiting)). ar_queued_at (qr_row run) \<le> expire_deadline late_env demo_waiting"
    "sc_sent demo_waiting = []" by auto
  then show ?thesis using expiry_is_exact [of late_env sqlite_run_repository demo_waiting]
    by (cases "ss_queue (sc_state (expire_queued late_env sqlite_run_repository demo_waiting))")
      (auto simp: Let_def filter_id_conv [THEN iffD2])
qed

section \<open>Policy updates\<close>

definition limits_ok :: "runtime_policy \<Rightarrow> bool" where
  "limits_ok p \<longleftrightarrow> rp_global_active_limit p \<in> {1..64} \<and> rp_per_user_active_limit p \<in> {1..8}
     \<and> rp_per_user_queue_limit p \<in> {1..8} \<and> rp_global_queue_limit p \<in> {1..1000}
     \<and> rp_queue_timeout_ms p \<in> {1000..86400000} \<and> rp_confirmation_timeout_ms p \<in> {1000..86400000}
     \<and> rp_resident_task_limit p \<in> {1..64} \<and> rp_resident_idle_timeout_ms p \<in> {1000..86400000}"

lemma clamp_eq: "lo \<le> hi \<Longrightarrow> clamp lo hi x = Some (max lo (min hi x))"
  by (auto simp: clamp_def max_def min_def)

definition in_setting :: "nat \<Rightarrow> nat \<Rightarrow> nat option \<Rightarrow> nat \<Rightarrow> nat" where
  "in_setting lo hi u x = (case u of None \<Rightarrow> x | Some v \<Rightarrow> max lo (min hi v))"

lemma clamp_setting_eq: "lo \<le> hi \<Longrightarrow> clamp_setting lo hi u x = Some (in_setting lo hi u x)"
  by (cases u) (simp_all add: clamp_setting_def in_setting_def clamp_eq)

lemma in_setting_bounds: "lo \<le> hi \<Longrightarrow> x \<in> {lo..hi} \<Longrightarrow> in_setting lo hi u x \<in> {lo..hi}"
  by (cases u) (auto simp: in_setting_def)

lemma policy_bounds:
  "\<exists>p'. apply_policy u p = Some p'
     \<and> 50 \<le> rp_memory_constrained_percent p'
     \<and> rp_memory_constrained_percent p' + 1 \<le> rp_memory_pause_percent p'
     \<and> rp_memory_pause_percent p' + 1 \<le> rp_memory_reject_percent p' \<and> rp_memory_reject_percent p' \<le> 100
     \<and> (limits_ok p \<longrightarrow> limits_ok p')
     \<and> (let c = unwrap_or (rp_memory_constrained_percent p) (up_memory_constrained_percent u);
            pa = unwrap_or (rp_memory_pause_percent p) (up_memory_pause_percent u);
            re = unwrap_or (rp_memory_reject_percent p) (up_memory_reject_percent u)
        in 50 \<le> c \<and> c \<le> 97 \<and> c + 1 \<le> pa \<and> pa \<le> 98 \<and> pa + 1 \<le> re \<and> re \<le> 100 \<longrightarrow>
           rp_memory_constrained_percent p' = c \<and> rp_memory_pause_percent p' = pa \<and> rp_memory_reject_percent p' = re)"
proof -
  let ?c = "unwrap_or (rp_memory_constrained_percent p) (up_memory_constrained_percent u)"
  let ?pa = "unwrap_or (rp_memory_pause_percent p) (up_memory_pause_percent u)"
  let ?re = "unwrap_or (rp_memory_reject_percent p) (up_memory_reject_percent u)"
  define c where "c = max 50 (min 97 ?c)"
  define pa where "pa = max (c + 1) (min 98 ?pa)"
  define re where "re = max (pa + 1) (min 100 ?re)"
  have c: "50 \<le> c" "c \<le> 97" "50 \<le> ?c \<and> ?c \<le> 97 \<longrightarrow> c = ?c" by (auto simp: c_def)
  have pa: "c + 1 \<le> pa" "pa \<le> 98" "c + 1 \<le> ?pa \<and> ?pa \<le> 98 \<longrightarrow> pa = ?pa" using c(2) by (auto simp: pa_def)
  have re: "pa + 1 \<le> re" "re \<le> 100" "pa + 1 \<le> ?re \<and> ?re \<le> 100 \<longrightarrow> re = ?re" using pa(2) by (auto simp: re_def)
  have "clamp 50 97 ?c = Some c" unfolding c_def by (rule clamp_eq) simp
  moreover have "clamp (c + 1) 98 ?pa = Some pa" unfolding pa_def by (rule clamp_eq) (use c(2) in simp)
  moreover have "clamp (pa + 1) 100 ?re = Some re" unfolding re_def by (rule clamp_eq) (use pa(2) in simp)
  ultimately have clamps: "clamp 50 97 ?c = Some c" "clamp (c + 1) 98 ?pa = Some pa" "clamp (pa + 1) 100 ?re = Some re" .
  let ?p' = "\<lparr>rp_mode = unwrap_or (rp_mode p) (up_mode u),
     rp_global_active_limit = in_setting 1 64 (up_global_active_limit u) (rp_global_active_limit p),
     rp_per_user_active_limit = in_setting 1 8 (up_per_user_active_limit u) (rp_per_user_active_limit p),
     rp_per_user_queue_limit = in_setting 1 8 (up_per_user_queue_limit u) (rp_per_user_queue_limit p),
     rp_global_queue_limit = in_setting 1 1000 (up_global_queue_limit u) (rp_global_queue_limit p),
     rp_queue_timeout_ms = in_setting 1000 86400000 (up_queue_timeout_ms u) (rp_queue_timeout_ms p),
     rp_confirmation_timeout_ms = in_setting 1000 86400000 (up_confirmation_timeout_ms u) (rp_confirmation_timeout_ms p),
     rp_resident_task_limit = in_setting 1 64 (up_resident_task_limit u) (rp_resident_task_limit p),
     rp_resident_idle_timeout_ms = in_setting 1000 86400000 (up_resident_idle_timeout_ms u) (rp_resident_idle_timeout_ms p),
     rp_memory_constrained_percent = c, rp_memory_pause_percent = pa, rp_memory_reject_percent = re\<rparr>"
  have "apply_policy u p = Some ?p'" by (simp add: apply_policy_def clamp_setting_eq clamps Let_def)
  moreover have "limits_ok ?p'" if "limits_ok p"
    using that unfolding limits_ok_def runtime_policy.simps by (intro conjI in_setting_bounds) simp_all
  ultimately show ?thesis using c pa re by (intro exI [of _ ?p']) (simp add: Let_def)
qed

text \<open>
  A policy update never panics, whatever it asks for. The memory thresholds it leaves are
  at least 50, a full point apart and at most 100, limits that were within their bounds stay
  within them, and thresholds that already satisfy the bounds are taken as they are.
\<close>

theorem policy_update_is_bounded:
  "\<exists>p'. apply_policy u p = Some p'
     \<and> 50 \<le> rp_memory_constrained_percent p'
     \<and> rp_memory_constrained_percent p' + 1 \<le> rp_memory_pause_percent p'
     \<and> rp_memory_pause_percent p' + 1 \<le> rp_memory_reject_percent p' \<and> rp_memory_reject_percent p' \<le> 100
     \<and> (limits_ok p \<longrightarrow> limits_ok p')
     \<and> (let c = unwrap_or (rp_memory_constrained_percent p) (up_memory_constrained_percent u);
            pa = unwrap_or (rp_memory_pause_percent p) (up_memory_pause_percent u);
            re = unwrap_or (rp_memory_reject_percent p) (up_memory_reject_percent u)
        in 50 \<le> c \<and> c \<le> 97 \<and> c + 1 \<le> pa \<and> pa \<le> 98 \<and> pa + 1 \<le> re \<and> re \<le> 100 \<longrightarrow>
           rp_memory_constrained_percent p' = c \<and> rp_memory_pause_percent p' = pa \<and> rp_memory_reject_percent p' = re)"
  by (rule policy_bounds)

definition no_update :: update_agent_runtime_policy_request where
  "no_update = \<lparr>up_mode = None, up_global_active_limit = None, up_per_user_active_limit = None,
     up_per_user_queue_limit = None, up_global_queue_limit = None, up_queue_timeout_ms = None,
     up_confirmation_timeout_ms = None, up_resident_task_limit = None, up_resident_idle_timeout_ms = None,
     up_memory_constrained_percent = None, up_memory_pause_percent = None, up_memory_reject_percent = None\<rparr>"

theorem policy_update_is_bounded_witness:
  "\<exists>p'. apply_policy (no_update\<lparr>up_memory_constrained_percent := Some 60\<rparr>) (default_policy demo_env) = Some p'
     \<and> limits_ok p' \<and> rp_memory_constrained_percent p' = 60 \<and> rp_memory_pause_percent p' = 85"
  using policy_update_is_bounded [of "no_update\<lparr>up_memory_constrained_percent := Some 60\<rparr>" "default_policy demo_env"]
  by (auto simp: Let_def no_update_def unwrap_or_def default_policy_def limits_ok_def)

section \<open>Persistence\<close>

lemma sqlite_dispatching_frame:
  "rd_faults d = [] \<Longrightarrow> rd_policy (snd (sqlite_mark_dispatching rid t d)) = rd_policy d
     \<and> rd_faults (snd (sqlite_mark_dispatching rid t d)) = []"
  by (simp add: sqlite_mark_dispatching_def map_ok_def on_pool_def update_runs_def)

lemma dispatch_keeps_saved_policy:
  assumes "rd_faults (sc_repo s) = []"
  shows "rd_policy (sc_repo (dispatch_available ev sqlite_run_repository s)) = rd_policy (sc_repo s)
    \<and> rd_faults (sc_repo (dispatch_available ev sqlite_run_repository s)) = []"
proof (rule dispatch_rule [where I = "\<lambda>t. rd_policy (sc_repo t) = rd_policy (sc_repo s) \<and> rd_faults (sc_repo t) = []"])
  fix t :: "run_db agent_run_scheduler" and run st
  assume t: "rd_policy (sc_repo t) = rd_policy (sc_repo s) \<and> rd_faults (sc_repo t) = []"
  have "sc_repo (dispatch_run ev sqlite_run_repository run (t\<lparr>sc_state := st\<rparr>))
      = snd (sqlite_mark_dispatching (ar_id (qr_row run)) (env_now ev (sc_ticks t)) (sc_repo t))"
    by (simp add: dispatch_run_def now_ms_def send_permit_def broadcast_to_user_def sqlite_run_repository_def
        Let_def split: prod.splits)
  with t sqlite_dispatching_frame show "rd_policy (sc_repo (dispatch_run ev sqlite_run_repository run (t\<lparr>sc_state := st\<rparr>))) = rd_policy (sc_repo s)
      \<and> rd_faults (sc_repo (dispatch_run ev sqlite_run_repository run (t\<lparr>sc_state := st\<rparr>))) = []" by simp
qed (use assms in auto)

lemma as_i64_small: "n \<le> 86400000 \<Longrightarrow> as_i64 n = int n"
  by (simp add: as_i64_def)

lemma load_saved_limits:
  assumes "limits_ok p" "rd_policy d = Some (policy_row p)" "rd_faults d = []"
    "env_mode_var ev \<notin> {Some ''off'', Some ''shadow'', Some ''enforce''}"
  shows "sc_policy (snd (load_policy ev sqlite_run_repository (new_scheduler ev d)))
    = p\<lparr>rp_memory_constrained_percent := 75, rp_memory_pause_percent := 85, rp_memory_reject_percent := 90\<rparr>"
proof -
  have "mode_of_row ev (policy_row p) = rp_mode p"
    using assms(4) by (cases "rp_mode p") (simp_all add: mode_of_row_def policy_row_def)
  then show ?thesis using assms(1-3)
    by (simp add: load_policy_def sqlite_run_repository_def sqlite_load_runtime_policy_def on_pool_def
        new_scheduler_def default_policy_def policy_row_def limits_ok_def as_i64_small max_def)
qed

text \<open>
  A saved policy survives a restart except for its memory thresholds: when the policy an
  update has produced is loaded by a new process, the mode and the eight limits are the ones
  reported to the caller, but the three memory thresholds are the built-in 75, 85 and 90
  percent, whatever was saved.
\<close>

theorem restart_forgets_memory_thresholds:
  assumes "update_policy ev sqlite_run_repository u s = Some (r, s')" "\<not> sc_policy_poisoned s" "limits_ok (sc_policy s)"
    "rd_faults (sc_repo s) = []" "rd_policy (sc_repo s) \<noteq> None"
    "env_mode_var ev \<notin> {Some ''off'', Some ''shadow'', Some ''enforce''}"
  shows "sc_policy (snd (load_policy ev sqlite_run_repository (new_scheduler ev (sc_repo s'))))
    = r\<lparr>rp_memory_constrained_percent := 75, rp_memory_pause_percent := 85, rp_memory_reject_percent := 90\<rparr>"
proof -
  obtain p where p: "apply_policy u (sc_policy s) = Some p" "limits_ok p"
    using policy_bounds [of u "sc_policy s"] assms(3) by blast
  define s2 where "s2 = s\<lparr>sc_policy := p, sc_ticks := Suc (sc_ticks s),
     sc_repo := snd (sqlite_save_runtime_policy (policy_row p) (env_now ev (sc_ticks s)) (sc_repo s))\<rparr>"
  have mode: "pr_mode (policy_row p) \<in> {''off'', ''shadow'', ''enforce''}"
    by (cases "rp_mode p") (simp_all add: policy_row_def)
  have s2: "rd_policy (sc_repo s2) = Some (policy_row p)" "rd_faults (sc_repo s2) = []"
    using assms(4,5) mode by (auto simp: s2_def sqlite_save_runtime_policy_def on_pool_def)
  have r: "r = policy_response p" "s' = dispatch_available ev sqlite_run_repository s2"
    using assms(1,2) p(1) by (auto simp: update_policy_def now_ms_def s2_def sqlite_run_repository_def Let_def split: prod.splits)
  have "rd_policy (sc_repo s') = Some (policy_row p)" "rd_faults (sc_repo s') = []"
    using dispatch_keeps_saved_policy [OF s2(2)] s2(1) by (simp_all add: r(2))
  from load_saved_limits [OF p(2) this assms(6)] show ?thesis by (simp add: r(1) policy_response_def)
qed

theorem restart_forgets_memory_thresholds_witness:
  "\<exists>r s'. update_policy demo_env sqlite_run_repository (no_update\<lparr>up_memory_reject_percent := Some 99\<rparr>) demo_new = Some (r, s')
     \<and> rp_memory_reject_percent r = 99
     \<and> rp_memory_reject_percent (sc_policy (snd (load_policy demo_env sqlite_run_repository (new_scheduler demo_env (sc_repo s'))))) = 90"
proof -
  let ?u = "no_update\<lparr>up_memory_reject_percent := Some 99\<rparr>"
  have "map_option (\<lambda>(r, _). rp_memory_reject_percent r) (update_policy demo_env sqlite_run_repository ?u demo_new) = Some 99"
    by code_simp
  then obtain r s' where r: "update_policy demo_env sqlite_run_repository ?u demo_new = Some (r, s')"
    "rp_memory_reject_percent r = 99" by auto
  have "\<not> sc_policy_poisoned demo_new" "limits_ok (sc_policy demo_new)" "rd_faults (sc_repo demo_new) = []"
    "rd_policy (sc_repo demo_new) \<noteq> None" "env_mode_var demo_env \<notin> {Some ''off'', Some ''shadow'', Some ''enforce''}"
    by (simp_all add: demo_new_def new_scheduler_def limits_ok_def default_policy_def demo_db_def demo_env_def)
  from restart_forgets_memory_thresholds [OF r(1) this] r show ?thesis by auto
qed

section \<open>Restart\<close>

lemma sqlite_interrupted_ok:
  "rd_faults d = [] \<Longrightarrow> sqlite_fail_interrupted t d =
     (Inr (length (filter (\<lambda>r. ar_status r \<in> {''dispatching'', ''running''}) (rd_runs d))),
      d\<lparr>rd_runs := map (\<lambda>r. if ar_status r \<in> {''dispatching'', ''running''}
          then terminal_row ''failed'' (Some ''BACKEND_RESTARTED'') t r else r) (rd_runs d)\<rparr>)"
  by (simp add: sqlite_fail_interrupted_def on_pool_def update_runs_def run_status_values_def terminal_row_def)

lemma recover_eq:
  assumes "repo_fail_interrupted repo (env_now ev (sc_ticks s)) (sc_repo s) = (Inr n, d1)"
    "repo_list_queued repo d1 = (Inr rows, d2)"
  shows "recover_after_restart ev repo s = (Inr rows, s\<lparr>sc_ticks := Suc (sc_ticks s), sc_repo := d2\<rparr>)"
  using assms by (simp add: recover_after_restart_def now_ms_def)

text \<open>
  Recovery after a restart: the runs the old process was dispatching or running are marked
  failed and nothing else in the table changes; the rows returned are exactly the queued ones,
  in the order in which they were queued, and no row is left dispatching or running.
\<close>

theorem restart_recovers_queue:
  assumes "rd_faults (sc_repo s) = []" "db_valid (sc_repo s)"
  shows "\<exists>rows s'. recover_after_restart ev sqlite_run_repository s = (Inr rows, s')
    \<and> sorted (map (\<lambda>r. (ar_queued_at r, ar_id r)) rows)
    \<and> mset rows = mset (filter (\<lambda>r. ar_status r = ''queued'') (rd_runs (sc_repo s)))
    \<and> (\<forall>i. db_rows (sc_repo s') i = map_option (\<lambda>r. if ar_status r \<in> {''dispatching'', ''running''}
          then terminal_row ''failed'' (Some ''BACKEND_RESTARTED'') (env_now ev (sc_ticks s)) r else r) (db_rows (sc_repo s) i))
    \<and> (\<forall>r \<in> set (rd_runs (sc_repo s')). ar_status r \<notin> {''dispatching'', ''running''})
    \<and> sc_state s' = sc_state s"
proof -
  let ?d = "sc_repo s" and ?t = "env_now ev (sc_ticks s)"
  let ?f = "terminal_row ''failed'' (Some ''BACKEND_RESTARTED'') ?t" and ?p = "\<lambda>r. ar_status r \<in> {''dispatching'', ''running''}"
  define d' where "d' = ?d\<lparr>rd_runs := map (\<lambda>r. if ?p r then ?f r else r) (rd_runs ?d)\<rparr>"
  define rows where "rows = sort_key (\<lambda>r. (ar_queued_at r, ar_id r)) (filter (\<lambda>r. ar_status r = ''queued'') (rd_runs d'))"
  define s' where "s' = s\<lparr>sc_ticks := Suc (sc_ticks s), sc_repo := d'\<rparr>"
  have fi: "repo_fail_interrupted sqlite_run_repository ?t ?d = (Inr (length (filter ?p (rd_runs ?d))), d')"
    using sqlite_interrupted_ok [OF assms(1)] by (simp add: sqlite_run_repository_def d'_def)
  have lq: "repo_list_queued sqlite_run_repository d' = (Inr rows, d')"
    using assms(1) by (simp add: sqlite_run_repository_def sqlite_list_queued_def on_pool_def rows_def d'_def)
  have run: "recover_after_restart ev sqlite_run_repository s = (Inr rows, s')"
    unfolding s'_def by (rule recover_eq [OF fi lq])
  have "filter (\<lambda>r. ar_status r = ''queued'') (map (\<lambda>r. if ?p r then ?f r else r) rs) = filter (\<lambda>r. ar_status r = ''queued'') rs" for rs
    by (induction rs) auto
  then have "mset rows = mset (filter (\<lambda>r. ar_status r = ''queued'') (rd_runs ?d))" by (simp add: rows_def d'_def)
  moreover have "db_rows d' i = map_option (\<lambda>r. if ?p r then ?f r else r) (db_rows ?d i)" for i
    using sqlite.interrupted [OF assms(2) fi] by (simp add: rows_where_def)
  moreover have "\<forall>r \<in> set (rd_runs d'). \<not> ?p r" by (auto simp: d'_def)
  moreover have "sorted (map (\<lambda>r. (ar_queued_at r, ar_id r)) rows)" unfolding rows_def by (rule sorted_sort_key)
  moreover have "sc_repo s' = d'" "sc_state s' = sc_state s" by (simp_all add: s'_def)
  ultimately show ?thesis using run by (intro exI [of _ rows] exI [of _ s'] conjI allI) simp_all
qed

theorem restart_recovers_queue_witness:
  "\<exists>rows s'. recover_after_restart demo_env sqlite_run_repository demo_two = (Inr rows, s') \<and> length rows = 1"
proof -
  have "rd_faults (sc_repo demo_two) = []" "db_valid (sc_repo demo_two)" by code_simp+
  moreover have "length (filter (\<lambda>r. ar_status r = ''queued'') (rd_runs (sc_repo demo_two))) = 1" by code_simp
  moreover obtain rows s' where "recover_after_restart demo_env sqlite_run_repository demo_two = (Inr rows, s')"
    "mset rows = mset (filter (\<lambda>r. ar_status r = ''queued'') (rd_runs (sc_repo demo_two)))"
    using restart_recovers_queue [OF calculation(1,2), of demo_env] by blast
  moreover from this(2) have "length rows = length (filter (\<lambda>r. ar_status r = ''queued'') (rd_runs (sc_repo demo_two)))"
    by (rule mset_eq_length)
  ultimately show ?thesis by auto
qed

section \<open>Two races and failures\<close>

text \<open>
  The queue limits can be exceeded: \<open>enqueue\<close> releases the lock between its check and its
  insertion, so two requests of one user can both pass the check and both be queued, two runs
  waiting where the policy allows one.
\<close>

theorem concurrent_enqueue_exceeds_limit:
  "let run1 = demo_run ''r1'' ''u1''; run2 = demo_run ''r2'' ''u1'';
       (check1, s1) = preflight paused_env ''u1'' demo_new;
       (check2, s2) = preflight paused_env ''u1'' s1;
       s4 = snd (enqueue_admitted paused_env sqlite_run_repository run2
              (snd (enqueue_admitted paused_env sqlite_run_repository run1 s2)))
   in check1 = Inr () \<and> check2 = Inr ()
      \<and> rp_per_user_queue_limit (policy paused_env s4) < user_queued ''u1'' (sc_state s4)"
  by code_simp

text \<open>
  A cancellation the database fails loses the run: it leaves the queue and its permit is
  never answered, but its row stays queued, so the recovery of the next start brings the
  cancelled run back.
\<close>

theorem failed_cancel_loses_run:
  "let s0 = demo_waiting\<lparr>sc_repo := (sc_repo demo_waiting)\<lparr>rd_faults := [True]\<rparr>\<rparr>;
       (r, s1) = cancel_queued paused_env sqlite_run_repository ''u1'' ''tr1'' s0
   in r = Inl Persistence
      \<and> map (\<lambda>run. ar_id (qr_row run)) (ss_queue (sc_state s0)) = [''r1'', ''r2'']
      \<and> map (\<lambda>run. ar_id (qr_row run)) (ss_queue (sc_state s1)) = [''r2'']
      \<and> sc_sent s1 = []
      \<and> map_sum id (map ar_id) (fst (recover_after_restart paused_env sqlite_run_repository (new_scheduler paused_env (sc_repo s1))))
          = Inr [''r1'', ''r2'']"
  by code_simp

end
