(* ===== verification/Dependency.thy ===== *)
theory Dependency
  imports Prelude
begin

text \<open>
  Extension dependencies, \<open>aionui-extension/src/dependency.rs\<close>: version checks, the load order by
  Kahn's algorithm, and the depth-first search that reports cycles.

  An extension's dependencies are a hash map; the list that models it is one of its iteration
  orders. Of a manifest and of a loaded extension the records hold the fields read here; the
  others (display data, contributions, state) would be fields of a record extension. The version
  crate is a parameter: parsing a version, parsing a requirement, and
  matching. Arithmetic on the in-degrees that would go below zero, and the \<open>expect\<close> on a missing
  entry, are the panic \<open>None\<close> of the loop.
\<close>

section \<open>Data\<close>

record extension_manifest =
  mf_name :: string
  mf_version :: string
  mf_dependencies :: "(string, string) table"

record loaded_extension =
  ex_manifest :: extension_manifest
  ex_directory :: string

datatype dependency_issue =
    Missing string string string
  | VersionMismatch string string string string
  | Circular "string list"

record dependency_validation_result =
  vr_valid :: bool
  vr_issues :: "dependency_issue list"
  vr_load_order :: "string list"

record ('v, 'r) semver =
  sv_parse_version :: "string \<Rightarrow> 'v option"
  sv_parse_req :: "string \<Rightarrow> 'r option"
  sv_matches :: "'r \<Rightarrow> 'v \<Rightarrow> bool"

abbreviation ext_name :: "loaded_extension \<Rightarrow> string" where
  "ext_name e \<equiv> mf_name (ex_manifest e)"

abbreviation ext_deps :: "loaded_extension \<Rightarrow> (string, string) table" where
  "ext_deps e \<equiv> mf_dependencies (ex_manifest e)"

section \<open>Versions\<close>

definition is_ascii_digit :: "char \<Rightarrow> bool" where
  "is_ascii_digit c \<longleftrightarrow> c \<in> set ''0123456789''"

definition version_matches :: "('v, 'r) semver \<Rightarrow> string \<Rightarrow> string \<Rightarrow> bool" where
  "version_matches sv requirement actual =
     (case sv_parse_version sv actual of
        None \<Rightarrow> False
      | Some version \<Rightarrow>
          let req_str = (case requirement of
                [] \<Rightarrow> requirement
              | c # _ \<Rightarrow> if is_ascii_digit c then ''='' @ requirement else requirement)
          in (case sv_parse_req sv req_str of
                None \<Rightarrow> False
              | Some req \<Rightarrow> sv_matches sv req version))"

definition dependency_issues :: "('v, 'r) semver \<Rightarrow> loaded_extension list \<Rightarrow> dependency_issue list" where
  "dependency_issues sv extensions =
     (let versions = fold (\<lambda>e. AList.update (ext_name e) (mf_version (ex_manifest e))) extensions []
      in concat (map (\<lambda>e. List.map_filter (\<lambda>(dep_name, dep_req).
            case map_of versions dep_name of
              None \<Rightarrow> Some (Missing (ext_name e) dep_name dep_req)
            | Some actual \<Rightarrow> if version_matches sv dep_req actual then None
                              else Some (VersionMismatch (ext_name e) dep_name dep_req actual)) (ext_deps e)) extensions))"

section \<open>The load order\<close>

definition known_names :: "loaded_extension list \<Rightarrow> string list" where
  "known_names extensions = map ext_name extensions"

text \<open>The two maps of the first loop: dependents of a dependency, and in-degrees.\<close>

definition add_edge :: "string list \<Rightarrow> string \<Rightarrow> string \<Rightarrow> (string, string list) table \<times> (string, nat) table
     \<Rightarrow> (string, string list) table \<times> (string, nat) table" where
  "add_edge known name dep_name g =
     (if dep_name \<in> set known
      then (AList.update dep_name (entry_or dep_name [] (fst g) @ [name]) (fst g),
            AList.update name (entry_or name 0 (snd g) + 1) (snd g))
      else g)"

definition add_extension :: "string list \<Rightarrow> loaded_extension \<Rightarrow> (string, string list) table \<times> (string, nat) table
     \<Rightarrow> (string, string list) table \<times> (string, nat) table" where
  "add_extension known e g =
     fold (add_edge known (ext_name e)) (map fst (ext_deps e))
       (fst g, AList.update (ext_name e) (entry_or (ext_name e) 0 (snd g)) (snd g))"

definition build_graph :: "loaded_extension list \<Rightarrow> (string, string list) table \<times> (string, nat) table" where
  "build_graph extensions = fold (add_extension (known_names extensions)) extensions ([], [])"

fun release_dependents :: "string list \<Rightarrow> (string, nat) table \<Rightarrow> string list \<Rightarrow> ((string, nat) table \<times> string list) option" where
  "release_dependents [] in_degree ready = Some (in_degree, ready)"
| "release_dependents (dep # deps) in_degree ready =
     (case map_of in_degree dep of
        None \<Rightarrow> None
      | Some 0 \<Rightarrow> None
      | Some (Suc deg) \<Rightarrow>
          release_dependents deps (AList.update dep deg in_degree) (if deg = 0 then ready @ [dep] else ready))"

lemma sum_update:
  "map_of m k = Some n \<Longrightarrow> sum_list (map snd (AList.update k v m)) + n = sum_list (map snd m) + v" for v n :: nat
  by (induction m) (auto split: if_splits)

lemma release_dependents_measure:
  "release_dependents deps deg ready = Some (deg', ready') \<Longrightarrow>
     sum_list (map snd deg') + length ready' \<le> sum_list (map snd deg) + length ready"
proof (induction deps deg ready rule: release_dependents.induct)
  case (2 dep deps deg ready)
  from 2(2) obtain n where n: "map_of deg dep = Some (Suc n)"
    "release_dependents deps (AList.update dep n deg) (if n = 0 then ready @ [dep] else ready) = Some (deg', ready')"
    by (auto split: option.splits nat.splits)
  from 2(1) [OF n(1) refl n(2)] sum_update [OF n(1), of n] show ?case by (auto split: if_splits)
qed simp

function kahn :: "(string, string list) table \<Rightarrow> string list \<Rightarrow> (string, nat) table \<Rightarrow> string list \<Rightarrow> string list option" where
  "kahn adj [] in_degree order = Some order"
| "kahn adj (node # queue) in_degree order =
     (case map_of adj node of
        None \<Rightarrow> kahn adj queue in_degree (order @ [node])
      | Some dependents \<Rightarrow>
          (case release_dependents dependents in_degree [] of
             None \<Rightarrow> None
           | Some (in_degree', ready) \<Rightarrow> kahn adj (queue @ sort ready) in_degree' (order @ [node])))"
  by pat_completeness auto
termination
proof (relation "measure (\<lambda>(adj, queue, deg, order). sum_list (map snd deg) + length queue)", goal_cases)
  case (3 adj node queue deg order deps x deg' ready)
  then show ?case using release_dependents_measure [of deps deg "[]" deg' ready] by auto
qed auto

definition kahn_seeds :: "(string, nat) table \<Rightarrow> string list" where
  "kahn_seeds in_degree = sort (map fst (filter (\<lambda>(_, deg). deg = 0) in_degree))"

section \<open>Cycles\<close>

record dfs_state =
  df_visited :: "string list"
  df_on_stack :: "string list"
  df_path :: "string list"
  df_cycles :: "string list list"

definition dfs_enter :: "string \<Rightarrow> dfs_state \<Rightarrow> dfs_state" where
  "dfs_enter node s = s\<lparr>df_visited := List.insert node (df_visited s),
     df_on_stack := List.insert node (df_on_stack s), df_path := df_path s @ [node]\<rparr>"

definition dfs_leave :: "string \<Rightarrow> dfs_state \<Rightarrow> dfs_state" where
  "dfs_leave node s = s\<lparr>df_path := butlast (df_path s), df_on_stack := removeAll node (df_on_stack s)\<rparr>"

definition dfs_record :: "string \<Rightarrow> dfs_state \<Rightarrow> dfs_state" where
  "dfs_record nxt s =
     (case position (\<lambda>n. n = nxt) (df_path s) of
        None \<Rightarrow> s
      | Some start \<Rightarrow> s\<lparr>df_cycles := df_cycles s @ [drop start (df_path s) @ [nxt]]\<rparr>)"

definition dfs_neighbors :: "(string, string list) table \<Rightarrow> string \<Rightarrow> string list" where
  "dfs_neighbors adj node = (case map_of adj node of None \<Rightarrow> [] | Some ns \<Rightarrow> ns)"

text \<open>The loop of \<open>dfs_find_cycles\<close> over the neighbours of a node.\<close>

function dfs_loop :: "(string, string list) table \<Rightarrow> string list \<Rightarrow> dfs_state \<Rightarrow> dfs_state" where
  "dfs_loop adj [] s = s"
| "dfs_loop adj (nxt # rest) s =
     (if nxt \<notin> set (df_visited s)
      then dfs_loop adj rest (dfs_leave nxt (dfs_loop adj (dfs_neighbors adj nxt) (dfs_enter nxt s)))
      else if nxt \<in> set (df_on_stack s) then dfs_loop adj rest (dfs_record nxt s)
      else dfs_loop adj rest s)"
  by pat_completeness auto

lemma dfs_visited_simps [simp]:
  "set (df_visited (dfs_enter n s)) = insert n (set (df_visited s))"
  "df_visited (dfs_leave n s) = df_visited s" "df_visited (dfs_record n s) = df_visited s"
  by (auto simp: dfs_enter_def dfs_leave_def dfs_record_def split: option.splits)

lemma dfs_loop_visited_dom: "dfs_loop_dom (adj, ns, s) \<Longrightarrow> set (df_visited s) \<subseteq> set (df_visited (dfs_loop adj ns s))"
  by (induction adj ns s rule: dfs_loop.pinduct) (auto simp: dfs_loop.psimps)

termination dfs_loop
proof (relation "inv_image (finite_psubset <*lex*> less_than)
    (\<lambda>(adj, ns, s). (fst ` set adj - set (df_visited s), length ns))", goal_cases)
  case 1
  show ?case by (intro wf_inv_image wf_lex_prod wf_finite_psubset wf_less_than)
next
  case (2 adj nxt rest s)
  then show ?case
    by (cases "nxt \<in> fst ` set adj")
      (auto simp: finite_psubset_def dfs_neighbors_def map_of_eq_None_iff [THEN iffD2])
next
  case (3 adj nxt rest s)
  then show ?case using dfs_loop_visited_dom [OF 3(2)] by (auto simp: finite_psubset_def)
qed (auto simp: finite_psubset_def)

definition dfs_find_cycles :: "(string, string list) table \<Rightarrow> string \<Rightarrow> dfs_state \<Rightarrow> dfs_state" where
  "dfs_find_cycles adj node s = dfs_leave node (dfs_loop adj (dfs_neighbors adj node) (dfs_enter node s))"

definition involved_graph :: "loaded_extension list \<Rightarrow> string list \<Rightarrow> (string, string list) table" where
  "involved_graph extensions involved =
     fold (\<lambda>e adj. if ext_name e \<in> set involved
             then AList.update (ext_name e) (sort (filter (\<lambda>d. d \<in> set involved) (map fst (ext_deps e)))) adj
             else adj) extensions []"

definition find_cycles :: "loaded_extension list \<Rightarrow> string list \<Rightarrow> string list list" where
  "find_cycles extensions involved =
     (let adj = involved_graph extensions involved
      in df_cycles (fold (\<lambda>node s. if node \<notin> set (df_visited s) then dfs_find_cycles adj node s else s)
           (btree_set involved) \<lparr>df_visited = [], df_on_stack = [], df_path = [], df_cycles = []\<rparr>))"

definition compute_topological_order :: "loaded_extension list \<Rightarrow> (string list \<times> string list list) option" where
  "compute_topological_order extensions =
     (let (adj, in_degree) = build_graph extensions
      in (case kahn adj (kahn_seeds in_degree) in_degree [] of
            None \<Rightarrow> None
          | Some order \<Rightarrow>
              let remaining = filter (\<lambda>n. n \<notin> set order) (known_names extensions);
                  cycles = (if remaining = [] then [] else find_cycles extensions remaining)
              in Some (order @ btree_set remaining, cycles)))"

definition topological_sort :: "loaded_extension list \<Rightarrow> string list option" where
  "topological_sort extensions = map_option fst (compute_topological_order extensions)"

definition validate_dependencies ::
  "('v, 'r) semver \<Rightarrow> loaded_extension list \<Rightarrow> dependency_validation_result option" where
  "validate_dependencies sv extensions =
     (case compute_topological_order extensions of
        None \<Rightarrow> None
      | Some (load_order, cycles) \<Rightarrow>
          let issues = dependency_issues sv extensions @ map Circular cycles
          in Some \<lparr>vr_valid = (issues = []), vr_issues = issues, vr_load_order = load_order\<rparr>)"

end
