(* ===== verification/DependencyOrder.thy ===== *)
theory DependencyOrder
  imports Dependency
begin

text \<open>
  Correctness of the load order and of the cycle report: Kahn's loop against the dependency
  relation, and the depth-first search against the paths of the graph.
\<close>

section \<open>The dependency relation\<close>

definition wf_extensions :: "loaded_extension list \<Rightarrow> bool" where
  "wf_extensions exts \<longleftrightarrow> distinct (map ext_name exts) \<and> (\<forall>e \<in> set exts. keys_distinct (ext_deps e))"

definition requires :: "loaded_extension list \<Rightarrow> (string \<times> string) set" where
  "requires exts = {(v, u). \<exists>e \<in> set exts. ext_name e = v \<and> u \<in> fst ` set (ext_deps e) \<and> u \<in> ext_name ` set exts}"

lemma requires_names: "(v, u) \<in> requires exts \<Longrightarrow> v \<in> ext_name ` set exts \<and> u \<in> ext_name ` set exts"
  by (auto simp: requires_def)

lemma finite_requires: "finite (requires exts)"
  by (rule finite_subset [of _ "ext_name ` set exts \<times> ext_name ` set exts"]) (auto dest: requires_names)

section \<open>The graph the first loop builds\<close>

lemma entry_or_update: "entry_or k v (AList.update j x m) = (if k = j then x else entry_or k v m)"
  by (simp add: entry_or_def table_simps)

lemma add_edges:
  fixes g :: "(string, string list) table \<times> (string, nat) table"
  assumes "map_of (snd g) name \<noteq> None"
  shows "entry_or u [] (fst (fold (add_edge known name) ds g))
      = entry_or u [] (fst g) @ replicate (count_list (filter (\<lambda>d. d \<in> set known) ds) u) name
    \<and> entry_or v 0 (snd (fold (add_edge known name) ds g))
      = entry_or v 0 (snd g) + (if v = name then length (filter (\<lambda>d. d \<in> set known) ds) else 0)
    \<and> (keys_distinct (snd g) \<longrightarrow> keys_distinct (snd (fold (add_edge known name) ds g)))
    \<and> dom (map_of (snd (fold (add_edge known name) ds g))) = dom (map_of (snd g))"
  using assms
proof (induction ds arbitrary: g)
  case (Cons d ds)
  have n: "map_of (snd (add_edge known name d g)) name \<noteq> None"
    using Cons.prems by (simp add: add_edge_def table_simps)
  have "replicate (count_list (if P then d # xs else xs) u) name
      = (if P \<and> d = u then [name] else []) @ replicate (count_list xs u) name" for P and xs :: "string list"
    by simp
  then show ?case using Cons.IH [OF n] Cons.prems
    by (auto simp: add_edge_def entry_or_update table_simps dom_def)
qed simp

lemma add_extensions:
  fixes g :: "(string, string list) table \<times> (string, nat) table"
  shows "entry_or u [] (fst (fold (add_extension known) exts g))
      = entry_or u [] (fst g) @ concat (map (\<lambda>e. replicate (count_list (filter (\<lambda>d. d \<in> set known) (map fst (ext_deps e))) u) (ext_name e)) exts)
    \<and> entry_or v 0 (snd (fold (add_extension known) exts g))
      = entry_or v 0 (snd g) + sum_list (map (\<lambda>e. if v = ext_name e then length (filter (\<lambda>d. d \<in> set known) (map fst (ext_deps e))) else 0) exts)
    \<and> (keys_distinct (snd g) \<longrightarrow> keys_distinct (snd (fold (add_extension known) exts g)))
    \<and> dom (map_of (snd (fold (add_extension known) exts g))) = dom (map_of (snd g)) \<union> ext_name ` set exts"
proof (induction exts arbitrary: g)
  case (Cons e exts)
  let ?g0 = "(fst g, AList.update (ext_name e) (entry_or (ext_name e) 0 (snd g)) (snd g))"
  have "map_of (snd ?g0) (ext_name e) \<noteq> None" by (simp add: table_simps)
  note edges = add_edges [OF this, of _ known "map fst (ext_deps e)"]
  have g0: "entry_or w 0 (snd ?g0) = entry_or w 0 (snd g)" for w by (simp add: entry_or_update)
  have dom0: "dom (map_of (snd ?g0)) = insert (ext_name e) (dom (map_of (snd g)))" by (auto simp: table_simps)
  have step: "add_extension known e g = fold (add_edge known (ext_name e)) (map fst (ext_deps e)) ?g0"
    by (simp add: add_extension_def)
  show ?case using Cons.IH [of "add_extension known e g"] edges [of u v] g0 dom0
    by (simp add: step)
qed simp

definition dependents :: "loaded_extension list \<Rightarrow> string \<Rightarrow> string list" where
  "dependents exts u = map ext_name (filter (\<lambda>e. (ext_name e, u) \<in> requires exts) exts)"

lemma requires_of:
  assumes "wf_extensions exts" "e \<in> set exts"
  shows "(ext_name e, u) \<in> requires exts \<longleftrightarrow> u \<in> fst ` set (ext_deps e) \<and> u \<in> ext_name ` set exts"
proof -
  have "e' = e" if "e' \<in> set exts" "ext_name e' = ext_name e" for e'
    using assms that by (auto simp: wf_extensions_def distinct_map dest: inj_onD)
  then show ?thesis using assms(2) by (auto simp: requires_def)
qed

lemma build_graph_spec:
  assumes wf: "wf_extensions exts" and g: "build_graph exts = (adj, deg)"
  shows "entry_or u [] adj = dependents exts u" "keys_distinct deg"
    "map_of deg v = (if v \<in> ext_name ` set exts then Some (card {u. (v, u) \<in> requires exts}) else None)"
proof -
  let ?known = "known_names exts"
  have adj: "adj = fst (fold (add_extension ?known) exts ([], []))" and deg: "deg = snd (fold (add_extension ?known) exts ([], []))"
    using g by (auto simp: build_graph_def)
  note spec = add_extensions [of _ ?known exts "([], [])"]
  show "keys_distinct deg" using spec by (simp add: deg)
  have "concat (map (\<lambda>e. replicate (count_list (filter (\<lambda>d. d \<in> set ?known) (map fst (ext_deps e))) u) (ext_name e)) es)
      = map ext_name (filter (\<lambda>e. (ext_name e, u) \<in> requires exts) es)" if "set es \<subseteq> set exts" for es
    using that
  proof (induction es)
    case (Cons e es)
    then have "distinct (filter (\<lambda>d. d \<in> set ?known) (map fst (ext_deps e)))"
      using wf by (auto simp: wf_extensions_def keys_distinct_def)
    with Cons requires_of [OF wf, of e u] show ?case by (auto simp: count_list_distinct known_names_def)
  qed simp
  then show "entry_or u [] adj = dependents exts u" using spec by (simp add: adj dependents_def entry_or_def)
  show "map_of deg v = (if v \<in> ext_name ` set exts then Some (card {u. (v, u) \<in> requires exts}) else None)"
  proof (cases "v \<in> ext_name ` set exts")
    case True
    then obtain e where e: "e \<in> set exts" "ext_name e = v" by auto
    let ?ds = "filter (\<lambda>d. d \<in> set ?known) (map fst (ext_deps e))"
    have "sum_list (map (\<lambda>e. if v = ext_name e then length (filter (\<lambda>d. d \<in> set ?known) (map fst (ext_deps e))) else 0) es) =
        (if e \<in> set es then length ?ds else 0)" if "set es \<subseteq> set exts" "distinct (map ext_name es)" for es
      using that
    proof (induction es)
      case (Cons x es)
      have "x = e" if "ext_name x = v"
        using that e Cons.prems(1) wf by (auto simp: wf_extensions_def distinct_map dest: inj_onD)
      moreover have "e \<notin> set es" if "ext_name x = v"
        using that e(2) Cons.prems(2) imageI [of e "set es" "\<lambda>e. ext_name e"] by auto
      moreover have "x \<noteq> e" if "ext_name x \<noteq> v" using that e(2) by auto
      ultimately show ?case using Cons by (cases "ext_name x = v") auto
    qed simp
    from this [of exts] wf e have "entry_or v 0 deg = length ?ds" using spec [of _ v] by (simp add: deg wf_extensions_def entry_or_def)
    moreover have "length ?ds = card (set ?ds)"
      using wf e by (intro distinct_card [symmetric]) (auto simp: wf_extensions_def keys_distinct_def)
    moreover have "set ?ds = {u. (v, u) \<in> requires exts}" using requires_of [OF wf e(1)] e(2) by (auto simp: known_names_def)
    moreover have "v \<in> dom (map_of deg)" using spec True by (simp add: deg)
    ultimately show ?thesis using True by (auto simp: entry_or_def)
  next
    case False
    then have "v \<notin> dom (map_of deg)" using spec by (simp add: deg)
    with False show ?thesis by (simp add: domIff)
  qed
qed

section \<open>Kahn's loop\<close>

lemma release_dependents_spec:
  assumes "distinct ds" "\<forall>v \<in> set ds. \<exists>k. map_of deg v = Some (Suc k)"
  shows "\<exists>deg'. release_dependents ds deg ready = Some (deg', ready @ filter (\<lambda>v. map_of deg v = Some 1) ds)
    \<and> (\<forall>v. map_of deg' v = (if v \<in> set ds then map_option (\<lambda>n. n - 1) (map_of deg v) else map_of deg v))"
  using assms
proof (induction ds arbitrary: deg ready)
  case (Cons d ds)
  from Cons.prems obtain k where k: "map_of deg d = Some (Suc k)" by auto
  let ?deg = "AList.update d k deg" and ?ready = "if k = 0 then ready @ [d] else ready"
  have same: "\<forall>v \<in> set ds. map_of ?deg v = map_of deg v" using Cons.prems(1) by (auto simp: table_simps)
  with Cons.IH [of ?deg ?ready] Cons.prems obtain deg' where
    "release_dependents ds ?deg ?ready = Some (deg', ?ready @ filter (\<lambda>v. map_of ?deg v = Some 1) ds)"
    "\<forall>v. map_of deg' v = (if v \<in> set ds then map_option (\<lambda>n. n - 1) (map_of ?deg v) else map_of ?deg v)" by auto
  moreover have "filter (\<lambda>v. map_of ?deg v = Some 1) ds = filter (\<lambda>v. map_of deg v = Some 1) ds"
    using same by (intro filter_cong) auto
  ultimately show ?case using k Cons.prems(1) by (auto simp: table_simps)
qed auto

lemma kahn_step:
  "kahn adj (node # queue) deg order =
     (case release_dependents (entry_or node [] adj) deg [] of
        None \<Rightarrow> None
      | Some (deg', ready) \<Rightarrow> kahn adj (queue @ sort ready) deg' (order @ [node]))"
  by (cases "map_of adj node") (simp_all add: entry_or_def)

definition before_ok :: "(string \<times> string) set \<Rightarrow> string list \<Rightarrow> bool" where
  "before_ok r order \<longleftrightarrow> (\<forall>i < length order. r `` {order ! i} \<subseteq> set (take i order))"

definition kahn_inv :: "(string \<times> string) set \<Rightarrow> string set \<Rightarrow> string list \<Rightarrow> (string, nat) table \<Rightarrow> string list \<Rightarrow> bool" where
  "kahn_inv r nodes queue deg order \<longleftrightarrow> distinct (order @ queue) \<and> set (order @ queue) \<subseteq> nodes
     \<and> (\<forall>v \<in> nodes. map_of deg v = Some (card (r `` {v} - set order)))
     \<and> (\<forall>v \<in> nodes. v \<in> set (order @ queue) \<longleftrightarrow> r `` {v} \<subseteq> set order) \<and> before_ok r order"

lemma before_ok_snoc: "before_ok r order \<Longrightarrow> r `` {v} \<subseteq> set order \<Longrightarrow> before_ok r (order @ [v])"
  by (auto simp: before_ok_def nth_append less_Suc_eq)

lemma kahn_inv_step:
  assumes inv: "kahn_inv r nodes (n # queue) deg order"
    and r: "finite r" "r \<subseteq> nodes \<times> nodes" and ds: "distinct ds" "set ds = {v. (v, n) \<in> r}"
  shows "\<exists>deg' ready. release_dependents ds deg [] = Some (deg', ready) \<and> kahn_inv r nodes (queue @ sort ready) deg' (order @ [n])"
proof -
  have n: "n \<in> nodes" "n \<notin> set order" "n \<notin> set queue" using inv by (auto simp: kahn_inv_def)
  have fin: "finite (r `` {v} - X)" for v X using r(1) by simp
  have deg: "\<And>v. v \<in> nodes \<Longrightarrow> map_of deg v = Some (card (r `` {v} - set order))" using inv by (simp add: kahn_inv_def)
  have ds_nodes: "set ds \<subseteq> nodes" using ds(2) r(2) by auto
  have minus: "card (r `` {v} - set (order @ [n])) = card (r `` {v} - set order) - (if v \<in> set ds then 1 else 0)" for v
  proof -
    have "r `` {v} - set (order @ [n]) = (r `` {v} - set order) - {n}" by auto
    moreover have "n \<in> r `` {v} - set order \<longleftrightarrow> v \<in> set ds" using n ds(2) by auto
    ultimately show ?thesis by (simp add: card_Diff_singleton_if)
  qed
  have pos: "\<forall>v \<in> set ds. \<exists>k. map_of deg v = Some (Suc k)"
  proof
    fix v assume "v \<in> set ds"
    then have "n \<in> r `` {v} - set order" using ds(2) n by auto
    then have "card (r `` {v} - set order) \<noteq> 0" using fin by auto
    with deg ds_nodes \<open>v \<in> set ds\<close> show "\<exists>k. map_of deg v = Some (Suc k)" by (metis not0_implies_Suc subsetD)
  qed
  define ready where "ready = filter (\<lambda>v. map_of deg v = Some 1) ds"
  from release_dependents_spec [OF ds(1) pos, of "[]"] obtain deg' where
    rel: "release_dependents ds deg [] = Some (deg', ready)"
    and deg': "\<forall>v. map_of deg' v = (if v \<in> set ds then map_option (\<lambda>n. n - 1) (map_of deg v) else map_of deg v)"
    by (auto simp: ready_def)
  have ready_iff: "v \<in> set ready \<longleftrightarrow> v \<in> set ds \<and> r `` {v} \<subseteq> set (order @ [n])" for v
  proof -
    have "v \<in> set ready \<longleftrightarrow> v \<in> set ds \<and> card (r `` {v} - set (order @ [n])) = 0"
      using deg ds_nodes pos minus [of v] by (fastforce simp: ready_def)
    also have "card (r `` {v} - set (order @ [n])) = 0 \<longleftrightarrow> r `` {v} \<subseteq> set (order @ [n])" using fin by auto
    finally show ?thesis .
  qed
  have enq: "\<And>v. v \<in> nodes \<Longrightarrow> v \<in> set (order @ n # queue) \<longleftrightarrow> r `` {v} \<subseteq> set order" using inv by (simp add: kahn_inv_def)
  have new: "set ready \<inter> set (order @ n # queue) = {}"
    using enq ds_nodes ds(2) n(2) ready_iff by blast
  have "distinct ((order @ [n]) @ queue @ sort ready)"
    using inv new ds(1) by (auto simp: kahn_inv_def ready_def)
  moreover have "set ((order @ [n]) @ queue @ sort ready) \<subseteq> nodes" using inv ds_nodes by (auto simp: kahn_inv_def ready_def)
  moreover have "map_of deg' v = Some (card (r `` {v} - set (order @ [n])))" if "v \<in> nodes" for v
    using deg' deg [OF that] minus [of v] by simp
  moreover have "v \<in> set ((order @ [n]) @ queue @ sort ready) \<longleftrightarrow> r `` {v} \<subseteq> set (order @ [n])" if "v \<in> nodes" for v
    using enq [OF that] ready_iff [of v] ds(2) by auto
  moreover have "before_ok r (order @ [n])" using inv enq [OF n(1)] by (intro before_ok_snoc) (auto simp: kahn_inv_def)
  ultimately show ?thesis using rel by (auto simp: kahn_inv_def)
qed

lemma kahn_correct:
  assumes "finite r" "r \<subseteq> nodes \<times> nodes" "\<And>u. distinct (entry_or u [] adj) \<and> set (entry_or u [] adj) = {v. (v, u) \<in> r}"
    and "kahn_inv r nodes queue deg order"
  shows "\<exists>order' deg'. kahn adj queue deg order = Some order' \<and> kahn_inv r nodes [] deg' order'"
  using assms(4)
proof (induction "sum_list (map snd deg) + length queue" arbitrary: queue deg order rule: less_induct)
  case less
  show ?case
  proof (cases queue)
    case Nil
    with less.prems show ?thesis by auto
  next
    case (Cons n q)
    from kahn_inv_step [OF less.prems [unfolded Cons] assms(1,2)] assms(3) [of n]
    obtain deg' ready where rel: "release_dependents (entry_or n [] adj) deg [] = Some (deg', ready)"
      and inv: "kahn_inv r nodes (q @ sort ready) deg' (order @ [n])" by blast
    have "sum_list (map snd deg') + length (q @ sort ready) < sum_list (map snd deg) + length queue"
      using release_dependents_measure [OF rel] Cons by simp
    from less.hyps [OF this inv] rel show ?thesis unfolding Cons kahn_step by simp
  qed
qed

section \<open>Cycles of the relation\<close>

lemma endless_cycle:
  assumes "finite S" "S \<noteq> {}" "\<forall>v \<in> S. \<exists>u \<in> S. (v, u) \<in> r"
  shows "\<exists>u \<in> S. (u, u) \<in> r\<^sup>+"
proof (rule ccontr)
  assume none: "\<not> (\<exists>u \<in> S. (u, u) \<in> r\<^sup>+)"
  let ?r = "r \<inter> S \<times> S"
  have "acyclic ?r"
  proof (rule acyclicI, rule allI, rule notI)
    fix x assume x: "(x, x) \<in> ?r\<^sup>+"
    then have "x \<in> S" by (induction rule: trancl_induct) auto
    moreover have "(x, x) \<in> r\<^sup>+" using x by (rule trancl_mono) auto
    ultimately show False using none by blast
  qed
  then have "wf (?r\<inverse>)" using assms(1) by (intro finite_acyclic_wf_converse) auto
  moreover from assms(2) obtain x where "x \<in> S" by blast
  ultimately obtain v where v: "v \<in> S" "\<And>u. (u, v) \<in> ?r\<inverse> \<Longrightarrow> u \<notin> S" by (rule wfE_min) blast
  from assms(3) v(1) obtain u where u: "u \<in> S" "(v, u) \<in> r" by blast
  with v(1) have "(u, v) \<in> ?r\<inverse>" by simp
  from v(2) [OF this] u(1) show False by contradiction
qed

lemma before_ok_later:
  assumes "before_ok r order" "i < length order" "(order ! i, u) \<in> r\<^sup>+"
  shows "\<exists>j < i. order ! j = u"
  using assms(3)
proof (induction rule: trancl_induct)
  case (base u)
  then have "u \<in> set (take i order)" using assms(1,2) by (auto simp: before_ok_def)
  then show ?case by (auto simp: in_set_conv_nth)
next
  case (step u w)
  then obtain j where j: "j < i" "order ! j = u" by blast
  then have "j < length order" using assms(2) by simp
  with assms(1) have "r `` {order ! j} \<subseteq> set (take j order)" unfolding before_ok_def by blast
  with j step.hyps(2) have "w \<in> set (take j order)" by auto
  then obtain k where "k < length (take j order)" "take j order ! k = w" unfolding in_set_conv_nth by blast
  with j(1) show ?case by (intro exI [of _ k]) simp
qed

lemma before_ok_acyclic_at:
  assumes "before_ok r order" "distinct order" "v \<in> set order" shows "(v, v) \<notin> r\<^sup>+"
proof
  assume cyc: "(v, v) \<in> r\<^sup>+"
  from assms(3) obtain i where "i < length order" "order ! i = v" by (auto simp: in_set_conv_nth)
  with before_ok_later [OF assms(1)] cyc obtain j where "j < i" "order ! j = order ! i" by metis
  with \<open>i < length order\<close> assms(2) show False by (simp add: nth_eq_iff_index_eq)
qed

section \<open>The depth-first search\<close>

definition dfs_ok :: "dfs_state \<Rightarrow> bool" where
  "dfs_ok s \<longleftrightarrow> set (df_on_stack s) = set (df_path s) \<and> set (df_path s) \<subseteq> set (df_visited s) \<and> distinct (df_path s)"

lemma dfs_enter_ok: "dfs_ok s \<Longrightarrow> n \<notin> set (df_visited s) \<Longrightarrow> dfs_ok (dfs_enter n s)"
  by (auto simp: dfs_ok_def dfs_enter_def)

lemma dfs_record_frame [simp]: "df_path (dfs_record n s) = df_path s" "df_on_stack (dfs_record n s) = df_on_stack s"
  by (simp_all add: dfs_record_def split: option.splits)

lemma dfs_record_ok: "dfs_ok s \<Longrightarrow> dfs_ok (dfs_record n s)"
  by (simp add: dfs_ok_def)

lemma dfs_leave_ok:
  assumes "dfs_ok s'" "df_path s' = df_path (dfs_enter n s)" "dfs_ok s" "n \<notin> set (df_visited s)"
  shows "dfs_ok (dfs_leave n s')" "df_path (dfs_leave n s') = df_path s"
  using assms by (auto simp: dfs_ok_def dfs_leave_def dfs_enter_def)

lemma dfs_loop_ok: "dfs_ok s \<Longrightarrow> dfs_ok (dfs_loop adj ns s) \<and> df_path (dfs_loop adj ns s) = df_path s"
proof (induction adj ns s rule: dfs_loop.induct)
  case (2 adj nxt rest s)
  show ?case
  proof (cases "nxt \<in> set (df_visited s)")
    case True
    then show ?thesis using 2 dfs_record_ok [OF 2(5)] by auto
  next
    case False
    let ?s' = "dfs_loop adj (dfs_neighbors adj nxt) (dfs_enter nxt s)"
    have "dfs_ok ?s' \<and> df_path ?s' = df_path (dfs_enter nxt s)" using 2(1) [OF False dfs_enter_ok [OF 2(5) False]] .
    with dfs_leave_ok [of ?s' nxt s] 2(5) False have l: "dfs_ok (dfs_leave nxt ?s')" "df_path (dfs_leave nxt ?s') = df_path s" by auto
    with 2(2) [OF False l(1)] False show ?thesis by simp
  qed
qed simp

text \<open>A list of nodes that follows the edges and ends where it starts.\<close>

definition is_walk :: "(string, string list) table \<Rightarrow> string list \<Rightarrow> bool" where
  "is_walk adj p \<longleftrightarrow> (\<forall>i. Suc i < length p \<longrightarrow> p ! Suc i \<in> set (dfs_neighbors adj (p ! i)))"

definition is_cycle :: "(string, string list) table \<Rightarrow> string list \<Rightarrow> bool" where
  "is_cycle adj c \<longleftrightarrow> length c \<ge> 2 \<and> hd c = last c \<and> is_walk adj c"

lemma is_walk_snoc: "is_walk adj p \<Longrightarrow> p = [] \<or> n \<in> set (dfs_neighbors adj (last p)) \<Longrightarrow> is_walk adj (p @ [n])"
proof -
  assume walk: "is_walk adj p" and n: "p = [] \<or> n \<in> set (dfs_neighbors adj (last p))"
  have "last p = p ! i" if "Suc i = length p" for i using that by (cases p rule: rev_cases) auto
  with walk n show ?thesis by (auto simp: is_walk_def nth_append less_Suc_eq)
qed

lemma is_walk_drop: "is_walk adj p \<Longrightarrow> is_walk adj (drop k p)"
  by (auto simp: is_walk_def)

lemma dfs_record_cycle:
  assumes "is_walk adj (df_path s)" "df_path s = [] \<or> n \<in> set (dfs_neighbors adj (last (df_path s)))" "\<forall>c \<in> set (df_cycles s). is_cycle adj c"
  shows "\<forall>c \<in> set (df_cycles (dfs_record n s)). is_cycle adj c"
proof (cases "position (\<lambda>m. m = n) (df_path s)")
  case None
  with assms show ?thesis by (simp add: dfs_record_def)
next
  case (Some k)
  then have k: "k < length (df_path s)" "df_path s ! k = n" using position_Some [OF Some] by auto
  have "is_walk adj (drop k (df_path s) @ [n])"
    by (rule is_walk_snoc [OF is_walk_drop [OF assms(1)]]) (use assms(2) k(1) in \<open>auto simp: last_drop\<close>)
  then have "is_cycle adj (drop k (df_path s) @ [n])" using k by (simp add: is_cycle_def hd_append hd_drop_conv_nth)
  with assms(3) Some show ?thesis by (simp add: dfs_record_def)
qed

lemma dfs_loop_cycles:
  "dfs_ok s \<Longrightarrow> is_walk adj (df_path s) \<Longrightarrow> df_path s = [] \<or> set ns \<subseteq> set (dfs_neighbors adj (last (df_path s))) \<Longrightarrow>
   \<forall>c \<in> set (df_cycles s). is_cycle adj c \<Longrightarrow> \<forall>c \<in> set (df_cycles (dfs_loop adj ns s)). is_cycle adj c"
proof (induction adj ns s rule: dfs_loop.induct)
  case (2 adj nxt rest s)
  note ok = 2(5) and walk = 2(6) and ns = 2(7) and cyc = 2(8)
  show ?case
  proof (cases "nxt \<in> set (df_visited s)")
    case True
    have "\<forall>c \<in> set (df_cycles (dfs_record nxt s)). is_cycle adj c"
      using dfs_record_cycle [OF walk _ cyc, of nxt] ns by auto
    moreover have "df_path s = [] \<or> set rest \<subseteq> set (dfs_neighbors adj (last (df_path s)))" using ns by auto
    ultimately show ?thesis using 2(3) [OF _ _ dfs_record_ok [OF ok]] 2(4) [OF _ _ ok] True walk cyc by simp
  next
    case False
    let ?e = "dfs_enter nxt s" and ?s' = "dfs_loop adj (dfs_neighbors adj nxt) (dfs_enter nxt s)"
    have e: "dfs_ok ?e" "df_path ?e = df_path s @ [nxt]" "df_cycles ?e = df_cycles s"
      using dfs_enter_ok [OF ok False] by (simp_all add: dfs_enter_def)
    have "is_walk adj (df_path ?e)" unfolding e(2) using ns by (intro is_walk_snoc [OF walk]) auto
    from 2(1) [OF False e(1) this] e cyc have c': "\<forall>c \<in> set (df_cycles ?s'). is_cycle adj c" by simp
    have p': "dfs_ok ?s'" "df_path ?s' = df_path ?e" using dfs_loop_ok [OF e(1)] by auto
    have l: "dfs_ok (dfs_leave nxt ?s')" "df_path (dfs_leave nxt ?s') = df_path s" using dfs_leave_ok [OF p' ok False] .
    moreover have "df_cycles (dfs_leave nxt ?s') = df_cycles ?s'" by (simp add: dfs_leave_def)
    moreover have "df_path s = [] \<or> set rest \<subseteq> set (dfs_neighbors adj (last (df_path s)))" using ns by auto
    ultimately show ?thesis using 2(2) [OF False l(1)] walk c' False by simp
  qed
qed simp

lemma dfs_loop_cycles_grow: "length (df_cycles s) \<le> length (df_cycles (dfs_loop adj ns s))"
proof (induction adj ns s rule: dfs_loop.induct)
  case (2 adj nxt rest s)
  have "length (df_cycles s) \<le> length (df_cycles (dfs_record nxt s))" by (simp add: dfs_record_def split: option.splits)
  moreover have "df_cycles (dfs_enter nxt s) = df_cycles s" "\<And>t. df_cycles (dfs_leave nxt t) = df_cycles t"
    by (simp_all add: dfs_enter_def dfs_leave_def)
  ultimately show ?case using 2 by (auto intro: order_trans)
qed simp

text \<open>
  As long as every visited node is on the stack and every node has a successor, the search
  must come back to the stack.
\<close>

lemma dfs_loop_finds:
  "dfs_ok s \<Longrightarrow> set (df_visited s) = set (df_on_stack s) \<Longrightarrow> ns \<noteq> [] \<Longrightarrow> set ns \<subseteq> nodes \<Longrightarrow>
   \<forall>n \<in> nodes. dfs_neighbors adj n \<noteq> [] \<and> set (dfs_neighbors adj n) \<subseteq> nodes \<Longrightarrow> df_cycles (dfs_loop adj ns s) \<noteq> []"
proof (induction adj ns s rule: dfs_loop.induct)
  case (2 adj nxt rest s)
  note ok = 2(5) and vis = 2(6) and ns = 2(8) and succ = 2(9)
  show ?case
  proof (cases "nxt \<in> set (df_visited s)")
    case True
    then have "position (\<lambda>m. m = nxt) (df_path s) \<noteq> None" using ok vis by (auto simp: position_None dfs_ok_def)
    then have "df_cycles (dfs_record nxt s) \<noteq> []" by (auto simp: dfs_record_def)
    then show ?thesis using dfs_loop_cycles_grow [of "dfs_record nxt s" adj rest] True vis by auto
  next
    case False
    let ?s' = "dfs_loop adj (dfs_neighbors adj nxt) (dfs_enter nxt s)"
    have "df_cycles ?s' \<noteq> []" using 2(1) [OF False dfs_enter_ok [OF ok False]] vis ns succ by (simp add: dfs_enter_def)
    moreover have "df_cycles (dfs_leave nxt ?s') = df_cycles ?s'" by (simp add: dfs_leave_def)
    ultimately show ?thesis using dfs_loop_cycles_grow [of "dfs_leave nxt ?s'" adj rest] False by auto
  qed
qed simp

lemma involved_graph_lookup:
  assumes "distinct (map ext_name es)"
  shows "map_of (fold (\<lambda>e adj. if ext_name e \<in> set involved
       then AList.update (ext_name e) (sort (filter (\<lambda>d. d \<in> set involved) (map fst (ext_deps e)))) adj else adj) es adj) v
     = (case find (\<lambda>e. ext_name e = v) es of
      Some e \<Rightarrow> if v \<in> set involved then Some (sort (filter (\<lambda>d. d \<in> set involved) (map fst (ext_deps e)))) else map_of adj v
    | None \<Rightarrow> map_of adj v)"
  using assms
proof (induction es arbitrary: adj)
  case (Cons e es)
  have "find (\<lambda>e'. ext_name e' = v) es = None" if "ext_name e = v"
    using that Cons.prems by (force simp: find_None_iff image_iff)
  with Cons show ?case by (auto simp: table_simps split: option.splits)
qed simp

lemma involved_graph_neighbors:
  assumes wf: "wf_extensions exts" and involved: "set involved \<subseteq> ext_name ` set exts"
  shows "set (dfs_neighbors (involved_graph exts involved) v)
    = {u. (v, u) \<in> requires exts \<and> v \<in> set involved \<and> u \<in> set involved}"
proof (cases "find (\<lambda>e. ext_name e = v) exts")
  case None
  then have "v \<notin> ext_name ` set exts" by (auto simp: find_None_iff)
  moreover have "dfs_neighbors (involved_graph exts involved) v = []"
    using involved_graph_lookup [of exts involved "[]" v] wf None
    by (simp add: dfs_neighbors_def involved_graph_def wf_extensions_def)
  ultimately show ?thesis using involved by auto
next
  case (Some e)
  then have e: "e \<in> set exts" "ext_name e = v" by (auto simp: find_Some_iff)
  have nb: "set (dfs_neighbors (involved_graph exts involved) v)
      = (if v \<in> set involved then {u \<in> fst ` set (ext_deps e). u \<in> set involved} else {})"
    using involved_graph_lookup [of exts involved "[]" v] wf Some
    by (simp add: dfs_neighbors_def involved_graph_def wf_extensions_def)
  have "{u. (v, u) \<in> requires exts} = {u \<in> fst ` set (ext_deps e). u \<in> ext_name ` set exts}"
    using requires_of [OF wf e(1)] e(2) by simp
  then show ?thesis unfolding nb using involved by auto
qed

text \<open>Started on an empty stack, the search over the seeds is one run of the loop.\<close>

lemma find_cycles_loop:
  "find_cycles exts involved = df_cycles (dfs_loop (involved_graph exts involved) (btree_set involved)
     \<lparr>df_visited = [], df_on_stack = [], df_path = [], df_cycles = []\<rparr>)"
proof -
  have "fold (\<lambda>node s. if node \<notin> set (df_visited s) then dfs_find_cycles adj node s else s) ns s = dfs_loop adj ns s"
    if "dfs_ok s" "df_path s = []" for adj ns s
    using that
  proof (induction ns arbitrary: s)
    case (Cons n ns)
    let ?s' = "if n \<notin> set (df_visited s) then dfs_find_cycles adj n s else s"
    have "dfs_ok ?s' \<and> df_path ?s' = []"
      using dfs_loop_ok [OF Cons.prems(1), of adj "[n]"] Cons.prems(2) Cons.prems(1)
      by (cases "n \<in> set (df_visited s)") (auto simp: dfs_find_cycles_def)
    then have "fold (\<lambda>node s. if node \<notin> set (df_visited s) then dfs_find_cycles adj node s else s) ns ?s' = dfs_loop adj ns ?s'"
      using Cons.IH by blast
    moreover have "n \<notin> set (df_on_stack s)" using Cons.prems by (simp add: dfs_ok_def)
    ultimately show ?case by (simp add: dfs_find_cycles_def)
  qed simp
  then show ?thesis by (simp add: find_cycles_def Let_def dfs_ok_def)
qed

lemma find_cycles_are_cycles:
  assumes "c \<in> set (find_cycles exts involved)" shows "is_cycle (involved_graph exts involved) c"
  using assms dfs_loop_cycles [of "\<lparr>df_visited = [], df_on_stack = [], df_path = [], df_cycles = []\<rparr>"
      "involved_graph exts involved" "btree_set involved"]
  by (simp add: find_cycles_loop dfs_ok_def is_walk_def)

lemma find_cycles_finds:
  assumes "involved \<noteq> []"
    "\<forall>n \<in> set involved. dfs_neighbors (involved_graph exts involved) n \<noteq> []
       \<and> set (dfs_neighbors (involved_graph exts involved) n) \<subseteq> set involved"
  shows "find_cycles exts involved \<noteq> []"
proof -
  have "btree_set involved \<noteq> []" using assms(1) by (metis set_btree_set set_empty)
  then show ?thesis unfolding find_cycles_loop
    using assms(2) by (intro dfs_loop_finds [where nodes = "set involved"]) (simp_all add: dfs_ok_def)
qed

section \<open>The result\<close>

lemma kahn_start:
  assumes wf: "wf_extensions exts" and g: "build_graph exts = (adj, deg)"
  shows "kahn_inv (requires exts) (ext_name ` set exts) (kahn_seeds deg) deg []"
proof -
  note spec = build_graph_spec [OF wf g]
  have fin: "finite (requires exts `` {v})" for v using finite_requires by simp
  have eq: "{u. (v, u) \<in> requires exts} = requires exts `` {v}" for v by auto
  have seeds: "v \<in> set (kahn_seeds deg) \<longleftrightarrow> map_of deg v = Some 0" for v
    using in_table_iff [OF spec(2), of v 0] by (force simp: kahn_seeds_def)
  have "distinct (kahn_seeds deg)"
    using spec(2) by (simp add: kahn_seeds_def keys_distinct_def distinct_map_filter)
  moreover have "set (kahn_seeds deg) \<subseteq> ext_name ` set exts" using seeds spec(3) by (auto split: if_splits)
  moreover have "v \<in> set (kahn_seeds deg) \<longleftrightarrow> requires exts `` {v} \<subseteq> set []" if "v \<in> ext_name ` set exts" for v
    using seeds spec(3) [of v] that fin by (simp add: eq)
  ultimately show ?thesis using spec(3) eq by (simp add: kahn_inv_def before_ok_def)
qed

lemma order_computed:
  assumes wf: "wf_extensions exts"
  obtains order deg rest where
    "compute_topological_order exts = Some (order @ btree_set rest, if rest = [] then [] else find_cycles exts rest)"
    "kahn_inv (requires exts) (ext_name ` set exts) [] deg order"
    "rest = filter (\<lambda>n. n \<notin> set order) (known_names exts)"
proof -
  obtain adj deg where g: "build_graph exts = (adj, deg)" by (cases "build_graph exts")
  have "distinct (entry_or u [] adj) \<and> set (entry_or u [] adj) = {v. (v, u) \<in> requires exts}" for u
  proof -
    have "distinct (dependents exts u)" unfolding dependents_def
      using wf by (intro distinct_map_filter) (simp add: wf_extensions_def)
    moreover have "set (dependents exts u) = {v. (v, u) \<in> requires exts}"
      by (auto simp: dependents_def requires_def)
    ultimately show ?thesis using build_graph_spec(1) [OF wf g] by simp
  qed
  then obtain order deg' where "kahn adj (kahn_seeds deg) deg [] = Some order"
    "kahn_inv (requires exts) (ext_name ` set exts) [] deg' order"
    using kahn_correct [OF finite_requires _ _ kahn_start [OF wf g]] requires_names by (metis mem_Sigma_iff subrelI)
  then show thesis using g by (intro that) (auto simp: compute_topological_order_def Let_def)
qed

lemma remaining_has_successor:
  assumes "kahn_inv (requires exts) (ext_name ` set exts) [] deg order"
    "v \<in> ext_name ` set exts" "v \<notin> set order"
  shows "\<exists>u \<in> ext_name ` set exts - set order. (v, u) \<in> requires exts"
  using assms requires_names by (fastforce simp: kahn_inv_def)

lemma remaining_reaches_cycle:
  assumes "kahn_inv (requires exts) (ext_name ` set exts) [] deg order"
    "v \<in> ext_name ` set exts" "v \<notin> set order"
  shows "\<exists>u. (v, u) \<in> (requires exts)\<^sup>* \<and> (u, u) \<in> (requires exts)\<^sup>+"
proof -
  let ?S = "{u \<in> ext_name ` set exts - set order. (v, u) \<in> (requires exts)\<^sup>*}"
  have "\<forall>x \<in> ?S. \<exists>u \<in> ?S. (x, u) \<in> requires exts"
    using remaining_has_successor [OF assms(1)] by (blast intro: rtrancl_into_rtrancl)
  moreover have "v \<in> ?S" using assms by simp
  moreover have "finite ?S" by simp
  ultimately show ?thesis using endless_cycle [of ?S "requires exts"] by blast
qed

text \<open>
  C15. The load order never panics and is a permutation of the installed extensions. Every
  extension that does not depend, directly or not, on a dependency cycle is loaded after all
  the installed extensions it depends on.
\<close>

theorem load_order_respects_dependencies:
  assumes "wf_extensions exts"
  shows "\<exists>order. topological_sort exts = Some order
    \<and> distinct order \<and> set order = ext_name ` set exts
    \<and> (\<forall>i < length order. (\<forall>u. (order ! i, u) \<in> (requires exts)\<^sup>* \<longrightarrow> (u, u) \<notin> (requires exts)\<^sup>+) \<longrightarrow>
         requires exts `` {order ! i} \<subseteq> set (take i order))"
proof -
  obtain order deg rest where res: "compute_topological_order exts = Some (order @ btree_set rest, if rest = [] then [] else find_cycles exts rest)"
    and inv: "kahn_inv (requires exts) (ext_name ` set exts) [] deg order"
    and rest: "rest = filter (\<lambda>n. n \<notin> set order) (known_names exts)" using order_computed [OF assms] .
  let ?all = "order @ btree_set rest"
  have "distinct ?all" "set ?all = ext_name ` set exts"
    using inv by (auto simp: kahn_inv_def rest known_names_def)
  moreover have "requires exts `` {?all ! i} \<subseteq> set (take i ?all)"
    if "i < length ?all" "\<forall>u. (?all ! i, u) \<in> (requires exts)\<^sup>* \<longrightarrow> (u, u) \<notin> (requires exts)\<^sup>+" for i
  proof (cases "i < length order")
    case True
    then show ?thesis using inv by (simp add: kahn_inv_def before_ok_def nth_append)
  next
    case False
    then have "?all ! i \<in> set rest" using that(1) nth_mem [of "i - length order" "btree_set rest"] by (simp add: nth_append)
    then show ?thesis using remaining_reaches_cycle [OF inv, of "?all ! i"] that(2) by (auto simp: rest known_names_def)
  qed
  ultimately show ?thesis using res by (auto simp: topological_sort_def)
qed

theorem load_order_respects_dependencies_witness:
  "wf_extensions [\<lparr>ex_manifest = \<lparr>mf_name = ''app'', mf_version = ''1'', mf_dependencies = [(''base'', ''1''), (''ui'', ''1'')]\<rparr>, ex_directory = []\<rparr>,
     \<lparr>ex_manifest = \<lparr>mf_name = ''ui'', mf_version = ''1'', mf_dependencies = [(''base'', ''1'')]\<rparr>, ex_directory = []\<rparr>,
     \<lparr>ex_manifest = \<lparr>mf_name = ''base'', mf_version = ''1'', mf_dependencies = []\<rparr>, ex_directory = []\<rparr>]
   \<and> topological_sort [\<lparr>ex_manifest = \<lparr>mf_name = ''app'', mf_version = ''1'', mf_dependencies = [(''base'', ''1''), (''ui'', ''1'')]\<rparr>, ex_directory = []\<rparr>,
     \<lparr>ex_manifest = \<lparr>mf_name = ''ui'', mf_version = ''1'', mf_dependencies = [(''base'', ''1'')]\<rparr>, ex_directory = []\<rparr>,
     \<lparr>ex_manifest = \<lparr>mf_name = ''base'', mf_version = ''1'', mf_dependencies = []\<rparr>, ex_directory = []\<rparr>] = Some [''base'', ''ui'', ''app'']"
  (is "wf_extensions ?exts \<and> _")
proof -
  have wf: "wf_extensions ?exts" by (simp add: wf_extensions_def keys_distinct_def)
  have "topological_sort ?exts = Some [''base'', ''ui'', ''app'']" by code_simp
  with wf load_order_respects_dependencies [OF wf] show ?thesis by blast
qed

lemma cycles_reported:
  assumes wf: "wf_extensions exts"
  obtains order cycles where "compute_topological_order exts = Some (order, cycles)"
    "\<forall>c \<in> set cycles. 2 \<le> length c \<and> hd c = last c \<and> (\<forall>i. Suc i < length c \<longrightarrow> (c ! i, c ! Suc i) \<in> requires exts)"
    "cycles = [] \<longleftrightarrow> acyclic (requires exts)"
proof -
  obtain order deg rest where res: "compute_topological_order exts = Some (order @ btree_set rest, if rest = [] then [] else find_cycles exts rest)"
    and inv: "kahn_inv (requires exts) (ext_name ` set exts) [] deg order"
    and rest: "rest = filter (\<lambda>n. n \<notin> set order) (known_names exts)" using order_computed [OF wf] .
  have sub: "set rest = ext_name ` set exts - set order" by (auto simp: rest known_names_def)
  note nb = involved_graph_neighbors [OF wf, of rest]
  have "2 \<le> length c \<and> hd c = last c \<and> (\<forall>i. Suc i < length c \<longrightarrow> (c ! i, c ! Suc i) \<in> requires exts)"
    if "c \<in> set (find_cycles exts rest)" for c
    using find_cycles_are_cycles [OF that] nb sub by (auto simp: is_cycle_def is_walk_def)
  moreover have "find_cycles exts rest \<noteq> []" "\<not> acyclic (requires exts)" if "rest \<noteq> []"
  proof -
    have "set (dfs_neighbors (involved_graph exts rest) n) \<noteq> {}" if n: "n \<in> set rest" for n
    proof -
      obtain u where "u \<in> set rest" "(n, u) \<in> requires exts" using remaining_has_successor [OF inv, of n] n unfolding sub by auto
      with n sub show ?thesis by (subst nb) auto
    qed
    moreover have "set (dfs_neighbors (involved_graph exts rest) n) \<subseteq> set rest" for n using sub by (subst nb) auto
    ultimately show "find_cycles exts rest \<noteq> []" by (intro find_cycles_finds [OF that]) force
    from that obtain v where "v \<in> set rest" by (cases rest) auto
    then show "\<not> acyclic (requires exts)" using remaining_reaches_cycle [OF inv, of v] sub by (auto simp: acyclic_def)
  qed
  moreover have "acyclic (requires exts)" if "rest = []"
  proof -
    have all: "ext_name ` set exts \<subseteq> set order" using sub that by auto
    have "(v, v) \<notin> (requires exts)\<^sup>+" if "v \<in> set order" for v
      using before_ok_acyclic_at [of "requires exts" order v] inv that by (simp add: kahn_inv_def)
    moreover have "v \<in> set order" if "(v, v) \<in> (requires exts)\<^sup>+" for v
      using tranclD [OF that] requires_names all by blast
    ultimately show ?thesis by (auto simp: acyclic_def)
  qed
  ultimately show thesis by (cases "rest = []") (rule that [OF res], simp, simp)+
qed

lemma versions_table:
  assumes "distinct (map ext_name exts)" "e \<in> set exts"
  shows "map_of (fold (\<lambda>e. AList.update (ext_name e) (mf_version (ex_manifest e))) exts t) (ext_name e) = Some (mf_version (ex_manifest e))"
proof -
  have absent: "map_of (fold (\<lambda>e. AList.update (ext_name e) (mf_version (ex_manifest e))) es t) k = map_of t k"
    if "k \<notin> ext_name ` set es" for es t k
    using that by (induction es arbitrary: t) (auto simp: table_simps)
  show ?thesis using assms by (induction exts arbitrary: t) (auto simp: table_simps absent)
qed

lemma versions_table_None:
  "d \<notin> ext_name ` set exts \<Longrightarrow> map_of (fold (\<lambda>e. AList.update (ext_name e) (mf_version (ex_manifest e))) exts []) d = None"
proof -
  have "map_of (fold (\<lambda>e. AList.update (ext_name e) (mf_version (ex_manifest e))) es t) d = map_of t d"
    if "d \<notin> ext_name ` set es" for es t
    using that by (induction es arbitrary: t) (auto simp: table_simps)
  then show "d \<notin> ext_name ` set exts \<Longrightarrow> ?thesis" by simp
qed

lemma dependency_issues_in:
  assumes "distinct (map ext_name exts)"
  shows "i \<in> set (dependency_issues sv exts) \<longleftrightarrow>
    (\<exists>e \<in> set exts. \<exists>(d, req) \<in> set (ext_deps e).
       (d \<notin> ext_name ` set exts \<and> i = Missing (ext_name e) d req)
     \<or> (\<exists>e' \<in> set exts. ext_name e' = d \<and> \<not> version_matches sv req (mf_version (ex_manifest e'))
           \<and> i = VersionMismatch (ext_name e) d req (mf_version (ex_manifest e'))))"
proof -
  define t where "t = fold (\<lambda>e. AList.update (ext_name e) (mf_version (ex_manifest e))) exts []"
  have t: "map_of t (ext_name e) = Some (mf_version (ex_manifest e))" if "e \<in> set exts" for e
    using versions_table [OF assms that] by (simp add: t_def)
  have t_None: "map_of t d = None \<longleftrightarrow> d \<notin> ext_name ` set exts" for d
    using t versions_table_None [of d exts] by (auto simp: t_def [symmetric])
  have t_Some: "map_of t d = Some v \<longleftrightarrow> (\<exists>e' \<in> set exts. ext_name e' = d \<and> mf_version (ex_manifest e') = v)" for d v
  proof
    assume v: "map_of t d = Some v"
    with t_None [of d] obtain e' where "e' \<in> set exts" "ext_name e' = d" by auto
    with t [of e'] v show "\<exists>e' \<in> set exts. ext_name e' = d \<and> mf_version (ex_manifest e') = v" by auto
  qed (use t in auto)
  have one: "(case map_of t d of None \<Rightarrow> Some (Missing n d req)
      | Some actual \<Rightarrow> if version_matches sv req actual then None else Some (VersionMismatch n d req actual)) = Some i
    \<longleftrightarrow> (d \<notin> ext_name ` set exts \<and> i = Missing n d req)
      \<or> (\<exists>e' \<in> set exts. ext_name e' = d \<and> \<not> version_matches sv req (mf_version (ex_manifest e'))
           \<and> i = VersionMismatch n d req (mf_version (ex_manifest e')))" for n d req
  proof (cases "map_of t d")
    case None
    with t_None [of d] show ?thesis by auto
  next
    case (Some v)
    then obtain e' where e': "e' \<in> set exts" "ext_name e' = d" "mf_version (ex_manifest e') = v" using t_Some by blast
    have "x = e'" if "x \<in> set exts" "ext_name x = d" for x
      using assms that e' by (auto simp: distinct_map dest: inj_onD)
    then have "(\<exists>x \<in> set exts. ext_name x = d \<and> P x) \<longleftrightarrow> P e'" for P using e' by blast
    moreover have "d \<in> ext_name ` set exts" using e' by blast
    ultimately show ?thesis using Some e'(3) by auto
  qed
  show ?thesis unfolding dependency_issues_def t_def [symmetric] Let_def
    by (simp add: set_map_filter split_beta one [symmetric])
qed

lemma dependency_issues_none:
  assumes dist: "distinct (map ext_name exts)"
  shows "dependency_issues sv exts = [] \<longleftrightarrow> (\<forall>e \<in> set exts. \<forall>(d, req) \<in> set (ext_deps e).
     \<exists>e' \<in> set exts. ext_name e' = d \<and> version_matches sv req (mf_version (ex_manifest e')))" (is "_ \<longleftrightarrow> ?ok")
proof
  note iss = dependency_issues_in [OF dist, of _ sv]
  assume none: "dependency_issues sv exts = []"
  then have no: "\<not> (\<exists>i. i \<in> set (dependency_issues sv exts))" by simp
  show ?ok
  proof (intro ballI, clarify)
    fix e d req assume e: "e \<in> set exts" "(d, req) \<in> set (ext_deps e)"
    have "Missing (ext_name e) d req \<notin> set (dependency_issues sv exts)" using no by blast
    with e have "d \<in> ext_name ` set exts" unfolding iss by blast
    then obtain e' where e': "e' \<in> set exts" "ext_name e' = d" by blast
    have "VersionMismatch (ext_name e) d req (mf_version (ex_manifest e')) \<notin> set (dependency_issues sv exts)" using no by blast
    with e e' have "version_matches sv req (mf_version (ex_manifest e'))" unfolding iss by blast
    with e' show "\<exists>e' \<in> set exts. ext_name e' = d \<and> version_matches sv req (mf_version (ex_manifest e'))" by blast
  qed
next
  note iss = dependency_issues_in [OF dist, of _ sv]
  have uniq: "e = e'" if "e \<in> set exts" "e' \<in> set exts" "ext_name e = ext_name e'" for e e'
    using dist that by (auto simp: distinct_map dest: inj_onD)
  assume ok: ?ok
  have "i \<notin> set (dependency_issues sv exts)" for i
  proof
    assume "i \<in> set (dependency_issues sv exts)"
    then obtain e d req where "e \<in> set exts" "(d, req) \<in> set (ext_deps e)"
      "d \<notin> ext_name ` set exts \<or> (\<exists>e' \<in> set exts. ext_name e' = d \<and> \<not> version_matches sv req (mf_version (ex_manifest e')))"
      unfolding iss by auto
    with ok uniq show False by fastforce
  qed
  then show "dependency_issues sv exts = []" by (metis list.set_intros(1) neq_Nil_conv)
qed

text \<open>
  C16. The validation never panics. Its issues are exactly the dependencies that are not
  installed, the installed ones whose version does not match, and cycles; each reported cycle
  follows the dependencies from an extension back to itself, and one is reported exactly when
  the dependencies are cyclic. The result is valid exactly when there is nothing to report.
\<close>

theorem validation_is_exact:
  assumes "wf_extensions exts"
  shows "\<exists>r. validate_dependencies sv exts = Some r
    \<and> (\<forall>n d req. Missing n d req \<in> set (vr_issues r) \<longleftrightarrow>
         (\<exists>e \<in> set exts. ext_name e = n \<and> (d, req) \<in> set (ext_deps e)) \<and> d \<notin> ext_name ` set exts)
    \<and> (\<forall>n d req v. VersionMismatch n d req v \<in> set (vr_issues r) \<longleftrightarrow>
         (\<exists>e \<in> set exts. ext_name e = n \<and> (d, req) \<in> set (ext_deps e)) \<and>
         (\<exists>e \<in> set exts. ext_name e = d \<and> mf_version (ex_manifest e) = v) \<and> \<not> version_matches sv req v)
    \<and> (\<forall>c. Circular c \<in> set (vr_issues r) \<longrightarrow> 2 \<le> length c \<and> hd c = last c
         \<and> (\<forall>i. Suc i < length c \<longrightarrow> (c ! i, c ! Suc i) \<in> requires exts))
    \<and> ((\<exists>c. Circular c \<in> set (vr_issues r)) \<longleftrightarrow> \<not> acyclic (requires exts))
    \<and> (vr_valid r \<longleftrightarrow> (\<forall>e \<in> set exts. \<forall>(d, req) \<in> set (ext_deps e).
         \<exists>e' \<in> set exts. ext_name e' = d \<and> version_matches sv req (mf_version (ex_manifest e'))) \<and> acyclic (requires exts))"
proof -
  obtain order cycles where res: "compute_topological_order exts = Some (order, cycles)"
    and cyc: "\<forall>c \<in> set cycles. 2 \<le> length c \<and> hd c = last c \<and> (\<forall>i. Suc i < length c \<longrightarrow> (c ! i, c ! Suc i) \<in> requires exts)"
    and acyc: "cycles = [] \<longleftrightarrow> acyclic (requires exts)" using cycles_reported [OF assms] .
  have dist: "distinct (map ext_name exts)" using assms by (simp add: wf_extensions_def)
  note iss = dependency_issues_in [OF dist, of _ sv] and ok = dependency_issues_none [OF dist, of sv]
  have "Missing n d req \<in> set (dependency_issues sv exts) \<longleftrightarrow>
         (\<exists>e \<in> set exts. ext_name e = n \<and> (d, req) \<in> set (ext_deps e)) \<and> d \<notin> ext_name ` set exts" for n d req
    unfolding iss by fastforce
  moreover have "VersionMismatch n d req v \<in> set (dependency_issues sv exts) \<longleftrightarrow>
         (\<exists>e \<in> set exts. ext_name e = n \<and> (d, req) \<in> set (ext_deps e)) \<and>
         (\<exists>e \<in> set exts. ext_name e = d \<and> mf_version (ex_manifest e) = v) \<and> \<not> version_matches sv req v" for n d req v
    unfolding iss by fastforce
  moreover have "Circular c \<notin> set (dependency_issues sv exts)" for c unfolding iss by auto
  moreover have "(\<exists>c. c \<in> set cycles) \<longleftrightarrow> \<not> acyclic (requires exts)" using acyc by (cases cycles) auto
  ultimately show ?thesis using cyc acyc ok
    by (simp add: validate_dependencies_def res image_iff)
qed

text \<open>Requirements that are an equals sign and a version, and two extensions that need each other.\<close>

definition exact_semver :: "(string, string) semver" where
  "exact_semver = \<lparr>sv_parse_version = Some,
     sv_parse_req = (\<lambda>s. case s of [] \<Rightarrow> None | c # v \<Rightarrow> if c = CHR ''='' then Some v else None), sv_matches = (=)\<rparr>"

definition mutual_extensions :: "loaded_extension list" where
  "mutual_extensions =
     [\<lparr>ex_manifest = \<lparr>mf_name = ''a'', mf_version = ''1'', mf_dependencies = [(''b'', ''2''), (''c'', ''1'')]\<rparr>, ex_directory = []\<rparr>,
      \<lparr>ex_manifest = \<lparr>mf_name = ''b'', mf_version = ''1'', mf_dependencies = [(''a'', ''=1'')]\<rparr>, ex_directory = []\<rparr>]"

theorem validation_is_exact_witness:
  "wf_extensions mutual_extensions
   \<and> validate_dependencies exact_semver mutual_extensions = Some \<lparr>vr_valid = False,
       vr_issues = [VersionMismatch ''a'' ''b'' ''2'' ''1'', Missing ''a'' ''c'' ''1'', Circular [''a'', ''b'', ''a'']],
       vr_load_order = [''a'', ''b'']\<rparr>
   \<and> \<not> acyclic (requires mutual_extensions)"
proof -
  have wf: "wf_extensions mutual_extensions"
    by (simp add: wf_extensions_def mutual_extensions_def keys_distinct_def)
  have v: "validate_dependencies exact_semver mutual_extensions = Some \<lparr>vr_valid = False,
       vr_issues = [VersionMismatch ''a'' ''b'' ''2'' ''1'', Missing ''a'' ''c'' ''1'', Circular [''a'', ''b'', ''a'']],
       vr_load_order = [''a'', ''b'']\<rparr>" by code_simp
  have "\<not> acyclic (requires mutual_extensions)"
    using validation_is_exact [OF wf, of exact_semver] v by auto
  with wf v show ?thesis by blast
qed

end
