(* ===== verification/TeamRepository.thy ===== *)
theory TeamRepository
  imports RunRepository
begin

text \<open>
  The team repository: the trait \<open>ITeamRepository\<close> of \<open>aionui-db/src/repository/team.rs\<close> as a record
  of functions, and its SQLite implementation \<open>sqlite_team.rs\<close> over the tables \<open>teams\<close>, \<open>mailbox\<close>
  and \<open>team_tasks\<close>.

  As in the run repository, a query is a function on the database and \<open>tb_faults\<close> lists, query by
  query, whether the connection fails; a failed query changes no table. A transaction is one such
  query, since its statements take effect together or not at all. The keys and checks are those of
  the migration \<open>002_legacy_data_normalize.sql\<close>. Rows that tie in an \<open>ORDER BY\<close> keep the order of
  the table. The crate \<open>serde_json\<close> is the parameter \<open>js\<close>; writing a list of strings
  or a JSON value does not fail, reading fails with a message.
  A function that reads the clock takes the reading as its argument \<open>now\<close>.
\<close>

section \<open>Rows\<close>

record team_row =
  tw_id :: id
  tw_user_id :: id
  tw_name :: string
  tw_workspace :: string
  tw_workspace_mode :: string
  tw_agents :: string
  tw_lead_agent_id :: "id option"
  tw_session_mode :: "string option"
  tw_agents_version :: string
  tw_created_at :: timestamp_ms
  tw_updated_at :: timestamp_ms

record mailbox_message_row =
  mr_id :: id
  mr_team_id :: id
  mr_to_agent_id :: id
  mr_from_agent_id :: id
  mr_msg_type :: string
  mr_content :: string
  mr_summary :: "string option"
  mr_files :: "string option"
  mr_read :: bool
  mr_created_at :: timestamp_ms

record team_task_row =
  tk_id :: id
  tk_team_id :: id
  tk_subject :: string
  tk_description :: "string option"
  tk_status :: string
  tk_owner :: "string option"
  tk_blocked_by :: string
  tk_blocks :: string
  tk_metadata :: "string option"
  tk_created_at :: timestamp_ms
  tk_updated_at :: timestamp_ms

record update_team_params =
  up_name :: "string option"
  up_workspace :: "string option"
  up_agents :: "string option"
  up_lead_agent_id :: "string option"
  up_session_mode :: "string option"

record update_task_params =
  ut_status :: "string option"
  ut_description :: "string option"
  ut_owner :: "string option"
  ut_blocked_by :: "string option"
  ut_metadata :: "string option"

record 'j serde_json =
  js_list_to_string :: "string list \<Rightarrow> string"
  js_list_from_str :: "string \<Rightarrow> string + string list"
  js_value_to_string :: "'j \<Rightarrow> string"
  js_value_from_str :: "string \<Rightarrow> string + 'j"

section \<open>The trait\<close>

record 'd team_repository =
  tr_create_team :: "team_row \<Rightarrow> 'd \<Rightarrow> (db_error + unit) \<times> 'd"
  tr_list_teams :: "'d \<Rightarrow> (db_error + team_row list) \<times> 'd"
  tr_list_teams_by_user :: "id \<Rightarrow> 'd \<Rightarrow> (db_error + team_row list) \<times> 'd"
  tr_get_team :: "id \<Rightarrow> 'd \<Rightarrow> (db_error + team_row option) \<times> 'd"
  tr_update_team :: "timestamp_ms \<Rightarrow> id \<Rightarrow> update_team_params \<Rightarrow> 'd \<Rightarrow> (db_error + unit) \<times> 'd"
  tr_delete_team :: "id \<Rightarrow> 'd \<Rightarrow> (db_error + unit) \<times> 'd"
  tr_write_message :: "mailbox_message_row \<Rightarrow> 'd \<Rightarrow> (db_error + unit) \<times> 'd"
  tr_read_unread_and_mark :: "id \<Rightarrow> id \<Rightarrow> 'd \<Rightarrow> (db_error + mailbox_message_row list) \<times> 'd"
  tr_peek_unread :: "id \<Rightarrow> id \<Rightarrow> 'd \<Rightarrow> (db_error + mailbox_message_row list) \<times> 'd"
  tr_mark_read_batch :: "id list \<Rightarrow> 'd \<Rightarrow> (db_error + unit) \<times> 'd"
  tr_get_history :: "id \<Rightarrow> id \<Rightarrow> int option \<Rightarrow> 'd \<Rightarrow> (db_error + mailbox_message_row list) \<times> 'd"
  tr_delete_mailbox_by_team :: "id \<Rightarrow> 'd \<Rightarrow> (db_error + unit) \<times> 'd"
  tr_create_task :: "team_task_row \<Rightarrow> 'd \<Rightarrow> (db_error + unit) \<times> 'd"
  tr_find_task_by_id :: "id \<Rightarrow> id \<Rightarrow> 'd \<Rightarrow> (db_error + team_task_row option) \<times> 'd"
  tr_update_task :: "timestamp_ms \<Rightarrow> id \<Rightarrow> update_task_params \<Rightarrow> 'd \<Rightarrow> (db_error + unit) \<times> 'd"
  tr_list_tasks :: "id \<Rightarrow> 'd \<Rightarrow> (db_error + team_task_row list) \<times> 'd"
  tr_append_to_blocks :: "timestamp_ms \<Rightarrow> id \<Rightarrow> id \<Rightarrow> 'd \<Rightarrow> (db_error + unit) \<times> 'd"
  tr_remove_from_blocked_by :: "timestamp_ms \<Rightarrow> id \<Rightarrow> id \<Rightarrow> 'd \<Rightarrow> (db_error + unit) \<times> 'd"
  tr_delete_tasks_by_team :: "id \<Rightarrow> 'd \<Rightarrow> (db_error + unit) \<times> 'd"

section \<open>SQLite\<close>

record team_db =
  tb_teams :: "team_row list"
  tb_mailbox :: "mailbox_message_row list"
  tb_tasks :: "team_task_row list"
  tb_faults :: "bool list"

definition team_pool :: "(team_db \<Rightarrow> (db_error + 'a) \<times> team_db) \<Rightarrow> team_db \<Rightarrow> (db_error + 'a) \<times> team_db" where
  "team_pool q d =
     (case tb_faults d of
        [] \<Rightarrow> q d
      | f # fs \<Rightarrow> if f then (Inl (DbQuery ''database error''), d\<lparr>tb_faults := fs\<rparr>) else q (d\<lparr>tb_faults := fs\<rparr>))"

definition message_type_values :: "string list" where
  "message_type_values = [''message'', ''idle_notification'', ''shutdown_request'']"

definition task_status_values :: "string list" where
  "task_status_values = [''pending'', ''in_progress'', ''completed'', ''deleted'']"

text \<open>The value of a column that an update sets when it is given.\<close>

definition set_some :: "'a option \<Rightarrow> 'a \<Rightarrow> 'a" where
  "set_some new old = (case new of None \<Rightarrow> old | Some v \<Rightarrow> v)"

subsection \<open>Teams\<close>

definition sqlite_create_team :: "team_row \<Rightarrow> team_db \<Rightarrow> (db_error + unit) \<times> team_db" where
  "sqlite_create_team row = team_pool (\<lambda>d.
     if tw_id row \<in> tw_id ` set (tb_teams d) then (Inl (DbQuery ''UNIQUE constraint failed''), d)
     else (Inr (), d\<lparr>tb_teams := tb_teams d @ [row]\<rparr>))"

definition sqlite_list_teams :: "team_db \<Rightarrow> (db_error + team_row list) \<times> team_db" where
  "sqlite_list_teams = team_pool (\<lambda>d. (Inr (sort_key tw_created_at (tb_teams d)), d))"

definition sqlite_list_teams_by_user :: "id \<Rightarrow> team_db \<Rightarrow> (db_error + team_row list) \<times> team_db" where
  "sqlite_list_teams_by_user user = team_pool (\<lambda>d.
     (Inr (sort_key tw_created_at (filter (\<lambda>t. tw_user_id t = user) (tb_teams d))), d))"

definition sqlite_get_team :: "id \<Rightarrow> team_db \<Rightarrow> (db_error + team_row option) \<times> team_db" where
  "sqlite_get_team team = team_pool (\<lambda>d. (Inr (List.find (\<lambda>t. tw_id t = team) (tb_teams d)), d))"

definition updated_team :: "timestamp_ms \<Rightarrow> update_team_params \<Rightarrow> team_row \<Rightarrow> team_row" where
  "updated_team now p t =
     t\<lparr>tw_name := set_some (up_name p) (tw_name t),
       tw_workspace := set_some (up_workspace p) (tw_workspace t),
       tw_agents := set_some (up_agents p) (tw_agents t),
       tw_lead_agent_id := (if up_lead_agent_id p = None then tw_lead_agent_id t else up_lead_agent_id p),
       tw_session_mode := (if up_session_mode p = None then tw_session_mode t else up_session_mode p),
       tw_updated_at := now\<rparr>"

definition sqlite_update_team ::
  "timestamp_ms \<Rightarrow> id \<Rightarrow> update_team_params \<Rightarrow> team_db \<Rightarrow> (db_error + unit) \<times> team_db" where
  "sqlite_update_team now team p d =
     (if up_name p = None \<and> up_workspace p = None \<and> up_agents p = None
         \<and> up_lead_agent_id p = None \<and> up_session_mode p = None
      then (Inr (), d)
      else team_pool (\<lambda>d.
        if team \<notin> tw_id ` set (tb_teams d) then (Inl (DbNotFound (''team '' @ team)), d)
        else (Inr (), d\<lparr>tb_teams := map (\<lambda>t. if tw_id t = team then updated_team now p t else t) (tb_teams d)\<rparr>)) d)"

definition sqlite_delete_team :: "id \<Rightarrow> team_db \<Rightarrow> (db_error + unit) \<times> team_db" where
  "sqlite_delete_team team = team_pool (\<lambda>d.
     if team \<notin> tw_id ` set (tb_teams d) then (Inl (DbNotFound (''team '' @ team)), d)
     else (Inr (), d\<lparr>tb_teams := filter (\<lambda>t. tw_id t \<noteq> team) (tb_teams d)\<rparr>))"

subsection \<open>Mailbox\<close>

definition sqlite_write_message :: "mailbox_message_row \<Rightarrow> team_db \<Rightarrow> (db_error + unit) \<times> team_db" where
  "sqlite_write_message row = team_pool (\<lambda>d.
     if mr_id row \<in> mr_id ` set (tb_mailbox d) then (Inl (DbQuery ''UNIQUE constraint failed''), d)
     else if mr_msg_type row \<notin> set message_type_values then (Inl (DbQuery ''CHECK constraint failed''), d)
     else (Inr (), d\<lparr>tb_mailbox := tb_mailbox d @ [row]\<rparr>))"

definition unread_for :: "id \<Rightarrow> id \<Rightarrow> mailbox_message_row \<Rightarrow> bool" where
  "unread_for team agent r \<longleftrightarrow> mr_team_id r = team \<and> mr_to_agent_id r = agent \<and> \<not> mr_read r"

definition select_unread :: "id \<Rightarrow> id \<Rightarrow> team_db \<Rightarrow> mailbox_message_row list" where
  "select_unread team agent d = sort_key mr_created_at (filter (unread_for team agent) (tb_mailbox d))"

definition mark_where :: "(mailbox_message_row \<Rightarrow> bool) \<Rightarrow> team_db \<Rightarrow> team_db" where
  "mark_where p d = d\<lparr>tb_mailbox := map (\<lambda>r. if p r then r\<lparr>mr_read := True\<rparr> else r) (tb_mailbox d)\<rparr>"

definition sqlite_read_unread_and_mark ::
  "id \<Rightarrow> id \<Rightarrow> team_db \<Rightarrow> (db_error + mailbox_message_row list) \<times> team_db" where
  "sqlite_read_unread_and_mark team agent = team_pool (\<lambda>d.
     let rows = select_unread team agent d
     in (Inr rows, if rows \<noteq> [] then mark_where (unread_for team agent) d else d))"

definition sqlite_peek_unread :: "id \<Rightarrow> id \<Rightarrow> team_db \<Rightarrow> (db_error + mailbox_message_row list) \<times> team_db" where
  "sqlite_peek_unread team agent = team_pool (\<lambda>d. (Inr (select_unread team agent d), d))"

text \<open>\<open>ids.chunks(500)\<close>, one update for each chunk.\<close>

function chunks :: "nat \<Rightarrow> 'a list \<Rightarrow> 'a list list" where
  "chunks n xs = (if n = 0 \<or> xs = [] then [] else take n xs # chunks n (drop n xs))"
  by auto
termination by (relation "measure (\<lambda>(n, xs). length xs)") auto

declare chunks.simps [simp del]

fun mark_chunks :: "id list list \<Rightarrow> team_db \<Rightarrow> (db_error + unit) \<times> team_db" where
  "mark_chunks [] d = (Inr (), d)"
| "mark_chunks (chunk # rest) d =
     (case team_pool (\<lambda>d. (Inr (), mark_where (\<lambda>r. mr_id r \<in> set chunk) d)) d of
        (Inl e, d1) \<Rightarrow> (Inl e, d1)
      | (Inr _, d1) \<Rightarrow> mark_chunks rest d1)"

definition sqlite_mark_read_batch :: "id list \<Rightarrow> team_db \<Rightarrow> (db_error + unit) \<times> team_db" where
  "sqlite_mark_read_batch ids d = (if ids = [] then (Inr (), d) else mark_chunks (chunks 500 ids) d)"

text \<open>A negative \<open>LIMIT\<close> is no limit in SQLite.\<close>

definition sqlite_get_history ::
  "id \<Rightarrow> id \<Rightarrow> int option \<Rightarrow> team_db \<Rightarrow> (db_error + mailbox_message_row list) \<times> team_db" where
  "sqlite_get_history team agent limit = team_pool (\<lambda>d.
     let rows = sort_key mr_created_at (filter (\<lambda>r. mr_team_id r = team \<and> mr_to_agent_id r = agent) (tb_mailbox d))
     in (Inr (case limit of None \<Rightarrow> rows | Some n \<Rightarrow> if n < 0 then rows else take (nat n) rows), d))"

definition sqlite_delete_mailbox_by_team :: "id \<Rightarrow> team_db \<Rightarrow> (db_error + unit) \<times> team_db" where
  "sqlite_delete_mailbox_by_team team = team_pool (\<lambda>d.
     (Inr (), d\<lparr>tb_mailbox := filter (\<lambda>r. mr_team_id r \<noteq> team) (tb_mailbox d)\<rparr>))"

subsection \<open>Tasks\<close>

definition sqlite_create_task :: "team_task_row \<Rightarrow> team_db \<Rightarrow> (db_error + unit) \<times> team_db" where
  "sqlite_create_task row = team_pool (\<lambda>d.
     if tk_id row \<in> tk_id ` set (tb_tasks d) then (Inl (DbQuery ''UNIQUE constraint failed''), d)
     else if tk_status row \<notin> set task_status_values then (Inl (DbQuery ''CHECK constraint failed''), d)
     else (Inr (), d\<lparr>tb_tasks := tb_tasks d @ [row]\<rparr>))"

definition sqlite_find_task_by_id :: "id \<Rightarrow> id \<Rightarrow> team_db \<Rightarrow> (db_error + team_task_row option) \<times> team_db" where
  "sqlite_find_task_by_id team task = team_pool (\<lambda>d.
     (Inr (List.find (\<lambda>r. tk_team_id r = team \<and> tk_id r = task) (tb_tasks d)), d))"

definition updated_task :: "timestamp_ms \<Rightarrow> update_task_params \<Rightarrow> team_task_row \<Rightarrow> team_task_row" where
  "updated_task now p r =
     r\<lparr>tk_status := set_some (ut_status p) (tk_status r),
       tk_description := (if ut_description p = None then tk_description r else ut_description p),
       tk_owner := (if ut_owner p = None then tk_owner r else ut_owner p),
       tk_blocked_by := set_some (ut_blocked_by p) (tk_blocked_by r),
       tk_metadata := (if ut_metadata p = None then tk_metadata r else ut_metadata p),
       tk_updated_at := now\<rparr>"

definition map_task :: "id \<Rightarrow> (team_task_row \<Rightarrow> team_task_row) \<Rightarrow> team_task_row list \<Rightarrow> team_task_row list" where
  "map_task task f rs = map (\<lambda>r. if tk_id r = task then f r else r) rs"

definition sqlite_update_task ::
  "timestamp_ms \<Rightarrow> id \<Rightarrow> update_task_params \<Rightarrow> team_db \<Rightarrow> (db_error + unit) \<times> team_db" where
  "sqlite_update_task now task p d =
     (if ut_status p = None \<and> ut_description p = None \<and> ut_owner p = None
         \<and> ut_blocked_by p = None \<and> ut_metadata p = None
      then (Inr (), d)
      else team_pool (\<lambda>d.
        if task \<notin> tk_id ` set (tb_tasks d) then (Inl (DbNotFound (''task '' @ task)), d)
        else if (case ut_status p of None \<Rightarrow> False | Some s \<Rightarrow> s \<notin> set task_status_values)
        then (Inl (DbQuery ''CHECK constraint failed''), d)
        else (Inr (), d\<lparr>tb_tasks := map_task task (updated_task now p) (tb_tasks d)\<rparr>)) d)"

definition sqlite_list_tasks :: "id \<Rightarrow> team_db \<Rightarrow> (db_error + team_task_row list) \<times> team_db" where
  "sqlite_list_tasks team = team_pool (\<lambda>d.
     (Inr (sort_key tk_created_at (filter (\<lambda>r. tk_team_id r = team) (tb_tasks d))), d))"

definition list_or_empty :: "'j serde_json \<Rightarrow> string \<Rightarrow> string list" where
  "list_or_empty js s = (case js_list_from_str js s of Inl _ \<Rightarrow> [] | Inr xs \<Rightarrow> xs)"

definition blocks_appended :: "'j serde_json \<Rightarrow> timestamp_ms \<Rightarrow> id \<Rightarrow> team_task_row \<Rightarrow> team_task_row" where
  "blocks_appended js now blocked row =
     (let blocks = list_or_empty js (tk_blocks row);
          blocks' = (if blocked \<in> set blocks then blocks else blocks @ [blocked])
      in row\<lparr>tk_blocks := js_list_to_string js blocks', tk_updated_at := now\<rparr>)"

definition blocked_by_removed :: "'j serde_json \<Rightarrow> timestamp_ms \<Rightarrow> id \<Rightarrow> team_task_row \<Rightarrow> team_task_row" where
  "blocked_by_removed js now unblocked row =
     row\<lparr>tk_blocked_by := js_list_to_string js (filter (\<lambda>i. i \<noteq> unblocked) (list_or_empty js (tk_blocked_by row))),
         tk_updated_at := now\<rparr>"

text \<open>The transaction of the two link updates: read a task, write it back changed.\<close>

definition rewrite_task ::
  "id \<Rightarrow> (team_task_row \<Rightarrow> team_task_row) \<Rightarrow> team_db \<Rightarrow> (db_error + unit) \<times> team_db" where
  "rewrite_task task f = team_pool (\<lambda>d.
     if task \<notin> tk_id ` set (tb_tasks d) then (Inl (DbNotFound (''task '' @ task)), d)
     else (Inr (), d\<lparr>tb_tasks := map_task task f (tb_tasks d)\<rparr>))"

definition sqlite_append_to_blocks ::
  "'j serde_json \<Rightarrow> timestamp_ms \<Rightarrow> id \<Rightarrow> id \<Rightarrow> team_db \<Rightarrow> (db_error + unit) \<times> team_db" where
  "sqlite_append_to_blocks js now task blocked = rewrite_task task (blocks_appended js now blocked)"

definition sqlite_remove_from_blocked_by ::
  "'j serde_json \<Rightarrow> timestamp_ms \<Rightarrow> id \<Rightarrow> id \<Rightarrow> team_db \<Rightarrow> (db_error + unit) \<times> team_db" where
  "sqlite_remove_from_blocked_by js now task unblocked = rewrite_task task (blocked_by_removed js now unblocked)"

definition sqlite_delete_tasks_by_team :: "id \<Rightarrow> team_db \<Rightarrow> (db_error + unit) \<times> team_db" where
  "sqlite_delete_tasks_by_team team = team_pool (\<lambda>d.
     (Inr (), d\<lparr>tb_tasks := filter (\<lambda>r. tk_team_id r \<noteq> team) (tb_tasks d)\<rparr>))"

definition sqlite_team_repository :: "'j serde_json \<Rightarrow> team_db team_repository" where
  "sqlite_team_repository js =
     \<lparr>tr_create_team = sqlite_create_team, tr_list_teams = sqlite_list_teams,
      tr_list_teams_by_user = sqlite_list_teams_by_user, tr_get_team = sqlite_get_team,
      tr_update_team = sqlite_update_team, tr_delete_team = sqlite_delete_team,
      tr_write_message = sqlite_write_message, tr_read_unread_and_mark = sqlite_read_unread_and_mark,
      tr_peek_unread = sqlite_peek_unread, tr_mark_read_batch = sqlite_mark_read_batch,
      tr_get_history = sqlite_get_history, tr_delete_mailbox_by_team = sqlite_delete_mailbox_by_team,
      tr_create_task = sqlite_create_task, tr_find_task_by_id = sqlite_find_task_by_id,
      tr_update_task = sqlite_update_task, tr_list_tasks = sqlite_list_tasks,
      tr_append_to_blocks = sqlite_append_to_blocks js,
      tr_remove_from_blocked_by = sqlite_remove_from_blocked_by js,
      tr_delete_tasks_by_team = sqlite_delete_tasks_by_team\<rparr>"

section \<open>What the task board relies on\<close>

text \<open>
  The task operations of the trait as a contract: \<open>tasks\<close> is the table, and as long as the
  connection is \<open>calm\<close> each operation does to it what its query says. A failure leaves it as it was.
\<close>

definition no_task_fields :: "update_task_params \<Rightarrow> bool" where
  "no_task_fields p \<longleftrightarrow> ut_status p = None \<and> ut_description p = None \<and> ut_owner p = None
     \<and> ut_blocked_by p = None \<and> ut_metadata p = None"

locale task_store =
  fixes repo :: "'d team_repository" and js :: "'j serde_json"
    and tasks :: "'d \<Rightarrow> team_task_row list" and calm :: "'d \<Rightarrow> bool"
  assumes find_task: "\<And>d team i. calm d \<Longrightarrow> \<exists>d'. calm d' \<and> tasks d' = tasks d \<and>
      tr_find_task_by_id repo team i d = (Inr (List.find (\<lambda>r. tk_team_id r = team \<and> tk_id r = i) (tasks d)), d')"
    and list_tasks: "\<And>d team. calm d \<Longrightarrow> \<exists>d'. calm d' \<and> tasks d' = tasks d \<and>
      tr_list_tasks repo team d = (Inr (sort_key tk_created_at (filter (\<lambda>r. tk_team_id r = team) (tasks d))), d')"
    and insert_task: "\<And>d row. \<lbrakk>calm d; tk_id row \<notin> tk_id ` set (tasks d); tk_status row \<in> set task_status_values\<rbrakk> \<Longrightarrow>
      \<exists>d'. calm d' \<and> tasks d' = tasks d @ [row] \<and> tr_create_task repo row d = (Inr (), d')"
    and insert_twice: "\<And>d row. \<lbrakk>calm d; tk_id row \<in> tk_id ` set (tasks d)\<rbrakk> \<Longrightarrow>
      \<exists>d' e. calm d' \<and> tasks d' = tasks d \<and> tr_create_task repo row d = (Inl e, d')"
    and update: "\<And>d now i p. \<lbrakk>calm d; i \<in> tk_id ` set (tasks d); \<forall>s. ut_status p = Some s \<longrightarrow> s \<in> set task_status_values\<rbrakk> \<Longrightarrow>
      \<exists>d'. calm d' \<and> tr_update_task repo now i p d = (Inr (), d') \<and>
        tasks d' = (if no_task_fields p then tasks d else map_task i (updated_task now p) (tasks d))"
    and append: "\<And>d now i j. \<lbrakk>calm d; i \<in> tk_id ` set (tasks d)\<rbrakk> \<Longrightarrow>
      \<exists>d'. calm d' \<and> tasks d' = map_task i (blocks_appended js now j) (tasks d) \<and>
        tr_append_to_blocks repo now i j d = (Inr (), d')"
    and remove: "\<And>d now i j. \<lbrakk>calm d; i \<in> tk_id ` set (tasks d)\<rbrakk> \<Longrightarrow>
      \<exists>d'. calm d' \<and> tasks d' = map_task i (blocked_by_removed js now j) (tasks d) \<and>
        tr_remove_from_blocked_by repo now i j d = (Inr (), d')"

definition team_calm :: "team_db \<Rightarrow> bool" where
  "team_calm d \<longleftrightarrow> True \<notin> set (tb_faults d)"

lemma team_pool_calm:
  assumes "team_calm d" shows "\<exists>fs. team_pool q d = q (d\<lparr>tb_faults := fs\<rparr>) \<and> True \<notin> set fs"
proof (cases "tb_faults d")
  case Nil
  then have "d\<lparr>tb_faults := []\<rparr> = d" by (cases d) simp
  then have "team_pool q d = q (d\<lparr>tb_faults := []\<rparr>)" using Nil by (simp only: team_pool_def list.case)
  then show ?thesis by (intro exI [of _ "[]"]) simp
next
  case (Cons f fs)
  then show ?thesis using assms by (intro exI [of _ fs]) (auto simp: team_calm_def team_pool_def)
qed

lemma team_pool_task:
  assumes "team_calm d" "\<And>fs. \<exists>d'. q (d\<lparr>tb_faults := fs\<rparr>) = (r, d') \<and> tb_faults d' = fs \<and> tb_tasks d' = ts"
  shows "\<exists>d'. team_calm d' \<and> tb_tasks d' = ts \<and> team_pool q d = (r, d')"
  using team_pool_calm [OF assms(1), of q] assms(2) by (metis team_calm_def)

lemmas sqlite_task_defs = sqlite_team_repository_def sqlite_create_task_def sqlite_find_task_by_id_def
  sqlite_update_task_def sqlite_list_tasks_def sqlite_append_to_blocks_def sqlite_remove_from_blocked_by_def
  rewrite_task_def

interpretation sqlite_tasks: task_store "sqlite_team_repository js" js tb_tasks team_calm for js
proof (unfold_locales, goal_cases)
  case (1 d team i)
  then show ?case by (simp add: sqlite_task_defs team_pool_task)
next
  case (2 d team)
  then show ?case by (simp add: sqlite_task_defs team_pool_task)
next
  case (3 d row)
  then show ?case by (simp add: sqlite_task_defs team_pool_task)
next
  case (4 d row)
  then have "\<exists>d'. team_calm d' \<and> tb_tasks d' = tb_tasks d \<and>
      sqlite_create_task row d = (Inl (DbQuery ''UNIQUE constraint failed''), d')"
    by (simp add: sqlite_task_defs team_pool_task)
  then show ?case by (auto simp: sqlite_team_repository_def)
next
  case (5 d now i p)
  show ?case
  proof (cases "no_task_fields p")
    case True
    then show ?thesis using 5 by (auto simp: sqlite_task_defs no_task_fields_def)
  next
    case False
    from 5(3) have "\<not> (case ut_status p of None \<Rightarrow> False | Some s \<Rightarrow> s \<notin> set task_status_values)" by (auto split: option.splits)
    then have "\<exists>d'. team_calm d' \<and> tb_tasks d' = map_task i (updated_task now p) (tb_tasks d) \<and>
        sqlite_update_task now i p d = (Inr (), d')"
      using False 5 by (simp add: sqlite_task_defs no_task_fields_def [symmetric] team_pool_task)
    then show ?thesis using False by (auto simp: sqlite_team_repository_def)
  qed
next
  case (6 d now i j)
  then show ?case by (simp add: sqlite_task_defs team_pool_task)
next
  case (7 d now i j)
  then show ?case by (simp add: sqlite_task_defs team_pool_task)
qed

end
