(* ===== verification/TaskBoard.thy ===== *)
theory TaskBoard
  imports TeamRepository WorkModel
begin

text \<open>
  The task board of a team, \<open>aionui-team/src/task_board.rs\<close>, over any implementation of the team
  repository, with the task types of \<open>types.rs\<close>.

  The board's own state is the table of tasks. The functions take the repository, the id that
  \<open>generate_id\<close> returns and a reading of the clock as arguments. A dependency is stored at both
  ends, in \<open>blocked_by\<close> of the task that waits and in \<open>blocks\<close> of the one it waits for; the
  lemmas show when the two ends agree and what completing a task then does.
\<close>

section \<open>Types\<close>

datatype task_status = TaskPending | TaskInProgress | TaskCompleted | TaskDeleted

fun task_status_display :: "task_status \<Rightarrow> string" where
  "task_status_display TaskPending = ''pending''"
| "task_status_display TaskInProgress = ''in_progress''"
| "task_status_display TaskCompleted = ''completed''"
| "task_status_display TaskDeleted = ''deleted''"

definition task_status_parse :: "string \<Rightarrow> task_status option" where
  "task_status_parse s =
     (if s = ''pending'' then Some TaskPending
      else if s = ''in_progress'' then Some TaskInProgress
      else if s = ''completed'' then Some TaskCompleted
      else if s = ''deleted'' then Some TaskDeleted
      else None)"

record 'j team_task =
  tt_id :: id
  tt_team_id :: id
  tt_subject :: string
  tt_description :: "string option"
  tt_status :: task_status
  tt_owner :: "string option"
  tt_blocked_by :: "id list"
  tt_blocks :: "id list"
  tt_metadata :: "'j option"
  tt_created_at :: timestamp_ms
  tt_updated_at :: timestamp_ms

definition team_task_from_row :: "'j serde_json \<Rightarrow> team_task_row \<Rightarrow> string + 'j team_task" where
  "team_task_from_row js row =
     (let status = (case task_status_parse (tk_status row) of None \<Rightarrow> TaskPending | Some s \<Rightarrow> s)
      in (case js_list_from_str js (tk_blocked_by row) of
            Inl e \<Rightarrow> Inl e
          | Inr blocked_by \<Rightarrow>
              (case js_list_from_str js (tk_blocks row) of
                 Inl e \<Rightarrow> Inl e
               | Inr blocks \<Rightarrow>
                   (case (case tk_metadata row of
                            None \<Rightarrow> Inr None
                          | Some s \<Rightarrow> map_sum id Some (js_value_from_str js s)) of
                      Inl e \<Rightarrow> Inl e
                    | Inr metadata \<Rightarrow>
                        Inr \<lparr>tt_id = tk_id row, tt_team_id = tk_team_id row, tt_subject = tk_subject row,
                             tt_description = tk_description row, tt_status = status, tt_owner = tk_owner row,
                             tt_blocked_by = blocked_by, tt_blocks = blocks, tt_metadata = metadata,
                             tt_created_at = tk_created_at row, tt_updated_at = tk_updated_at row\<rparr>))))"

record 'j task_update =
  tu_status :: "task_status option"
  tu_description :: "string option"
  tu_owner :: "string option"
  tu_blocked_by :: "id list option"
  tu_metadata :: "'j option"

text \<open>The conversion of a database error into a team error, with the text it displays.\<close>

fun db_error_display :: "db_error \<Rightarrow> string" where
  "db_error_display (DbQuery e) = ''Database query failed: '' @ e"
| "db_error_display (DbMigration e) = ''Migration failed: '' @ e"
| "db_error_display (DbNotFound e) = ''Record not found: '' @ e"
| "db_error_display (DbConflict e) = ''Duplicate record: '' @ e"
| "db_error_display (DbInit e) = ''Database initialization failed: '' @ e"

abbreviation db_fails :: "db_error \<Rightarrow> 'd \<Rightarrow> (team_error + 'a) \<times> 'd" where
  "db_fails e d \<equiv> (Inl (DatabaseError (db_error_display e)), d)"

section \<open>Operations\<close>

fun check_dependencies :: "'d team_repository \<Rightarrow> id \<Rightarrow> id list \<Rightarrow> 'd \<Rightarrow> (team_error + unit) \<times> 'd" where
  "check_dependencies repo team [] d = (Inr (), d)"
| "check_dependencies repo team (dep_id # deps) d =
     (case tr_find_task_by_id repo team dep_id d of
        (Inl e, d1) \<Rightarrow> db_fails e d1
      | (Inr None, d1) \<Rightarrow> (Inl (BlockedTaskNotFound dep_id), d1)
      | (Inr (Some _), d1) \<Rightarrow> check_dependencies repo team deps d1)"

fun append_all_blocks :: "'d team_repository \<Rightarrow> timestamp_ms \<Rightarrow> id list \<Rightarrow> id \<Rightarrow> 'd \<Rightarrow> (team_error + unit) \<times> 'd" where
  "append_all_blocks repo now [] task_id d = (Inr (), d)"
| "append_all_blocks repo now (dep_id # deps) task_id d =
     (case tr_append_to_blocks repo now dep_id task_id d of
        (Inl e, d1) \<Rightarrow> db_fails e d1
      | (Inr _, d1) \<Rightarrow> append_all_blocks repo now deps task_id d1)"

definition new_task_row ::
  "'j serde_json \<Rightarrow> timestamp_ms \<Rightarrow> id \<Rightarrow> id \<Rightarrow> string \<Rightarrow> string option \<Rightarrow> string option \<Rightarrow> id list \<Rightarrow> team_task_row" where
  "new_task_row js now task_id team subject description owner blocked_by =
     \<lparr>tk_id = task_id, tk_team_id = team, tk_subject = subject, tk_description = description,
      tk_status = task_status_display TaskPending, tk_owner = owner,
      tk_blocked_by = js_list_to_string js blocked_by, tk_blocks = ''[]'', tk_metadata = None,
      tk_created_at = now, tk_updated_at = now\<rparr>"

definition create_task ::
  "'j serde_json \<Rightarrow> 'd team_repository \<Rightarrow> timestamp_ms \<Rightarrow> id \<Rightarrow> id \<Rightarrow> string \<Rightarrow> string option \<Rightarrow> string option \<Rightarrow> id list
     \<Rightarrow> 'd \<Rightarrow> (team_error + 'j team_task) \<times> 'd" where
  "create_task js repo now task_id team subject description owner blocked_by d =
     (case check_dependencies repo team blocked_by d of
        (Inl e, d1) \<Rightarrow> (Inl e, d1)
      | (Inr _, d1) \<Rightarrow>
          let row = new_task_row js now task_id team subject description owner blocked_by
          in (case tr_create_task repo row d1 of
                (Inl e, d2) \<Rightarrow> db_fails e d2
              | (Inr _, d2) \<Rightarrow>
                  (case append_all_blocks repo now blocked_by task_id d2 of
                     (Inl e, d3) \<Rightarrow> (Inl e, d3)
                   | (Inr _, d3) \<Rightarrow> (map_sum JsonError id (team_task_from_row js row), d3))))"

fun remove_all_blocked :: "'d team_repository \<Rightarrow> timestamp_ms \<Rightarrow> id list \<Rightarrow> id \<Rightarrow> 'd \<Rightarrow> (team_error + unit) \<times> 'd" where
  "remove_all_blocked repo now [] completed d = (Inr (), d)"
| "remove_all_blocked repo now (downstream_id # rest) completed d =
     (case tr_remove_from_blocked_by repo now downstream_id completed d of
        (Inl e, d1) \<Rightarrow> db_fails e d1
      | (Inr _, d1) \<Rightarrow> remove_all_blocked repo now rest completed d1)"

definition check_unblocks ::
  "'j serde_json \<Rightarrow> 'd team_repository \<Rightarrow> timestamp_ms \<Rightarrow> id \<Rightarrow> team_task_row \<Rightarrow> 'd \<Rightarrow> (team_error + unit) \<times> 'd" where
  "check_unblocks js repo now completed_task_id completed_row d =
     (case js_list_from_str js (tk_blocks completed_row) of
        Inl e \<Rightarrow> (Inl (JsonError e), d)
      | Inr blocks \<Rightarrow> remove_all_blocked repo now blocks completed_task_id d)"

definition task_params :: "'j serde_json \<Rightarrow> 'j task_update \<Rightarrow> update_task_params" where
  "task_params js u =
     \<lparr>ut_status = map_option task_status_display (tu_status u),
      ut_description = tu_description u, ut_owner = tu_owner u,
      ut_blocked_by = map_option (js_list_to_string js) (tu_blocked_by u),
      ut_metadata = map_option (js_value_to_string js) (tu_metadata u)\<rparr>"

definition update_task ::
  "'j serde_json \<Rightarrow> 'd team_repository \<Rightarrow> timestamp_ms \<Rightarrow> id \<Rightarrow> id \<Rightarrow> 'j task_update \<Rightarrow> 'd \<Rightarrow> (team_error + 'j team_task) \<times> 'd" where
  "update_task js repo now team task_id update d =
     (case tr_find_task_by_id repo team task_id d of
        (Inl e, d1) \<Rightarrow> db_fails e d1
      | (Inr None, d1) \<Rightarrow> (Inl (TaskNotFound task_id), d1)
      | (Inr (Some existing), d1) \<Rightarrow>
          (case tr_update_task repo now task_id (task_params js update) d1 of
             (Inl e, d2) \<Rightarrow> db_fails e d2
           | (Inr _, d2) \<Rightarrow>
               (case (if tu_status update = Some TaskCompleted then check_unblocks js repo now task_id existing d2
                      else (Inr (), d2)) of
                  (Inl e, d3) \<Rightarrow> (Inl e, d3)
                | (Inr _, d3) \<Rightarrow>
                    (case tr_find_task_by_id repo team task_id d3 of
                       (Inl e, d4) \<Rightarrow> db_fails e d4
                     | (Inr None, d4) \<Rightarrow> (Inl (TaskNotFound task_id), d4)
                     | (Inr (Some updated), d4) \<Rightarrow> (map_sum JsonError id (team_task_from_row js updated), d4)))))"

definition list_tasks :: "'j serde_json \<Rightarrow> 'd team_repository \<Rightarrow> id \<Rightarrow> 'd \<Rightarrow> (team_error + 'j team_task list) \<times> 'd" where
  "list_tasks js repo team d =
     (case tr_list_tasks repo team d of
        (Inl e, d1) \<Rightarrow> db_fails e d1
      | (Inr rows, d1) \<Rightarrow> (Inr (List.map_filter (\<lambda>r. case team_task_from_row js r of Inl _ \<Rightarrow> None | Inr t \<Rightarrow> Some t) rows), d1))"

section \<open>Closed forms over the repository's contract\<close>

definition in_team :: "team_task_row list \<Rightarrow> id \<Rightarrow> id \<Rightarrow> bool" where
  "in_team rows team i \<longleftrightarrow> (\<exists>r \<in> set rows. tk_team_id r = team \<and> tk_id r = i)"

definition link_blocks :: "'j serde_json \<Rightarrow> timestamp_ms \<Rightarrow> id list \<Rightarrow> id \<Rightarrow> team_task_row list \<Rightarrow> team_task_row list" where
  "link_blocks js now deps i rows = fold (\<lambda>dep. map_task dep (blocks_appended js now i)) deps rows"

definition unlink_blocked :: "'j serde_json \<Rightarrow> timestamp_ms \<Rightarrow> id list \<Rightarrow> id \<Rightarrow> team_task_row list \<Rightarrow> team_task_row list" where
  "unlink_blocked js now downs i rows = fold (\<lambda>down. map_task down (blocked_by_removed js now i)) downs rows"

definition set_fields :: "'j serde_json \<Rightarrow> timestamp_ms \<Rightarrow> id \<Rightarrow> 'j task_update \<Rightarrow> team_task_row list \<Rightarrow> team_task_row list" where
  "set_fields js now i u rows =
     (if no_task_fields (task_params js u) then rows else map_task i (updated_task now (task_params js u)) rows)"

definition update_rows ::
  "'j serde_json \<Rightarrow> timestamp_ms \<Rightarrow> id \<Rightarrow> 'j task_update \<Rightarrow> id list \<Rightarrow> team_task_row list \<Rightarrow> team_task_row list" where
  "update_rows js now i u downs rows =
     (if tu_status u = Some TaskCompleted then unlink_blocked js now downs i (set_fields js now i u rows)
      else set_fields js now i u rows)"

lemma map_task_ids:
  assumes "\<And>r. tk_id (f r) = tk_id r" shows "map tk_id (map_task i f rows) = map tk_id rows"
  using assms by (simp add: map_task_def)

lemma row_updates_keep_task [simp]:
  "tk_id (blocks_appended js now i r) = tk_id r" "tk_team_id (blocks_appended js now i r) = tk_team_id r"
  "tk_id (blocked_by_removed js now i r) = tk_id r" "tk_team_id (blocked_by_removed js now i r) = tk_team_id r"
  "tk_id (updated_task now p r) = tk_id r" "tk_team_id (updated_task now p r) = tk_team_id r"
  "tk_blocked_by (blocks_appended js now i r) = tk_blocked_by r" "tk_blocks (blocked_by_removed js now i r) = tk_blocks r"
  "tk_blocks (updated_task now p r) = tk_blocks r"
  "tk_status (blocks_appended js now i r) = tk_status r" "tk_status (blocked_by_removed js now i r) = tk_status r"
  by (simp_all add: blocks_appended_def blocked_by_removed_def updated_task_def Let_def)

lemma map_task_id_set [simp]:
  "tk_id ` set (map_task i (blocks_appended js now j) rows) = tk_id ` set rows"
  "tk_id ` set (map_task i (blocked_by_removed js now j) rows) = tk_id ` set rows"
  "tk_id ` set (map_task i (updated_task now p) rows) = tk_id ` set rows"
  using map_task_ids [of "blocks_appended js now j" i rows] map_task_ids [of "blocked_by_removed js now j" i rows]
    map_task_ids [of "updated_task now p" i rows] by (metis list.set_map row_updates_keep_task)+

lemma task_status_display_ok [simp]: "task_status_display s \<in> set task_status_values"
  by (cases s) (simp_all add: task_status_values_def)

lemma task_status_roundtrip [simp]: "task_status_parse (task_status_display s) = Some s"
  by (cases s) (simp_all add: task_status_parse_def)

lemma find_in_team: "List.find (\<lambda>r. tk_team_id r = team \<and> tk_id r = i) rows = None \<longleftrightarrow> \<not> in_team rows team i"
  by (auto simp: find_None_iff in_team_def)

context task_store
begin

lemma check_dependencies_calm:
  "calm d \<Longrightarrow> \<exists>d'. calm d' \<and> tasks d' = tasks d \<and> check_dependencies repo team deps d =
     (case List.find (\<lambda>i. \<not> in_team (tasks d) team i) deps of None \<Rightarrow> Inr () | Some i \<Rightarrow> Inl (BlockedTaskNotFound i), d')"
proof (induction deps arbitrary: d)
  case (Cons i deps)
  from find_task [OF Cons.prems, of team i] obtain d1 where d1: "calm d1" "tasks d1 = tasks d"
    "tr_find_task_by_id repo team i d = (Inr (List.find (\<lambda>r. tk_team_id r = team \<and> tk_id r = i) (tasks d)), d1)" by blast
  show ?case
  proof (cases "in_team (tasks d) team i")
    case True
    then obtain r where "List.find (\<lambda>r. tk_team_id r = team \<and> tk_id r = i) (tasks d) = Some r"
      using find_in_team by (metis not_Some_eq)
    then show ?thesis using Cons.IH [OF d1(1)] d1 True by simp
  next
    case False
    then have "List.find (\<lambda>r. tk_team_id r = team \<and> tk_id r = i) (tasks d) = None" using find_in_team by metis
    then show ?thesis using d1 False by simp
  qed
qed simp

lemma append_all_blocks_calm:
  "calm d \<Longrightarrow> set deps \<subseteq> tk_id ` set (tasks d) \<Longrightarrow>
   \<exists>d'. calm d' \<and> tasks d' = link_blocks js now deps i (tasks d) \<and> append_all_blocks repo now deps i d = (Inr (), d')"
proof (induction deps arbitrary: d)
  case (Cons dep deps)
  from append [OF Cons.prems(1), of dep now i] Cons.prems(2) obtain d1 where d1: "calm d1"
    "tasks d1 = map_task dep (blocks_appended js now i) (tasks d)" "tr_append_to_blocks repo now dep i d = (Inr (), d1)" by auto
  then show ?case using Cons.IH [OF d1(1)] Cons.prems(2) by (simp add: link_blocks_def)
qed (simp add: link_blocks_def)

lemma remove_all_blocked_calm:
  "calm d \<Longrightarrow> set downs \<subseteq> tk_id ` set (tasks d) \<Longrightarrow>
   \<exists>d'. calm d' \<and> tasks d' = unlink_blocked js now downs i (tasks d) \<and> remove_all_blocked repo now downs i d = (Inr (), d')"
proof (induction downs arbitrary: d)
  case (Cons down downs)
  from remove [OF Cons.prems(1), of down now i] Cons.prems(2) obtain d1 where d1: "calm d1"
    "tasks d1 = map_task down (blocked_by_removed js now i) (tasks d)" "tr_remove_from_blocked_by repo now down i d = (Inr (), d1)" by auto
  then show ?case using Cons.IH [OF d1(1)] Cons.prems(2) by (simp add: unlink_blocked_def)
qed (simp add: unlink_blocked_def)

lemma create_task_calm:
  assumes "calm d"
  shows "\<exists>res d'. create_task js repo now i team subj desc owner deps d = (res, d') \<and> calm d' \<and>
    (case List.find (\<lambda>k. \<not> in_team (tasks d) team k) deps of
       Some k \<Rightarrow> res = Inl (BlockedTaskNotFound k) \<and> tasks d' = tasks d
     | None \<Rightarrow>
         if i \<in> tk_id ` set (tasks d) then (\<exists>e. res = Inl (DatabaseError e)) \<and> tasks d' = tasks d
         else res = map_sum JsonError id (team_task_from_row js (new_task_row js now i team subj desc owner deps))
           \<and> tasks d' = link_blocks js now deps i (tasks d @ [new_task_row js now i team subj desc owner deps]))"
proof -
  let ?row = "new_task_row js now i team subj desc owner deps"
  have row: "tk_id ?row = i" "tk_status ?row \<in> set task_status_values"
    using task_status_display_ok [of TaskPending] by (simp_all add: new_task_row_def del: task_status_display.simps task_status_display_ok)
  obtain d1 where d1: "calm d1" "tasks d1 = tasks d" "check_dependencies repo team deps d =
     (case List.find (\<lambda>k. \<not> in_team (tasks d) team k) deps of None \<Rightarrow> Inr () | Some k \<Rightarrow> Inl (BlockedTaskNotFound k), d1)"
    using check_dependencies_calm [OF assms] by blast
  show ?thesis
  proof (cases "List.find (\<lambda>k. \<not> in_team (tasks d) team k) deps")
    case (Some k)
    then show ?thesis using d1 by (simp add: create_task_def)
  next
    case None
    show ?thesis
    proof (cases "i \<in> tk_id ` set (tasks d)")
      case True
      with insert_twice [OF d1(1), of ?row] row d1(2) obtain d2 e where
        "calm d2" "tasks d2 = tasks d" "tr_create_task repo ?row d1 = (Inl e, d2)" by auto
      then show ?thesis using d1 None True by (simp add: create_task_def Let_def)
    next
      case False
      with insert_task [OF d1(1), of ?row] row d1(2) obtain d2 where d2: "calm d2" "tasks d2 = tasks d @ [?row]"
        "tr_create_task repo ?row d1 = (Inr (), d2)" by auto
      have "set deps \<subseteq> tk_id ` set (tasks d2)" using None d2(2) by (fastforce simp: find_None_iff in_team_def)
      from append_all_blocks_calm [OF d2(1) this, of now i] obtain d3 where
        "calm d3" "tasks d3 = link_blocks js now deps i (tasks d2)" "append_all_blocks repo now deps i d2 = (Inr (), d3)" by blast
      then show ?thesis using d1 d2 None False by (simp add: create_task_def Let_def)
    qed
  qed
qed

lemma update_task_calm:
  assumes "calm d" "List.find (\<lambda>r. tk_team_id r = team \<and> tk_id r = i) (tasks d) = Some ex"
    "tu_status u = Some TaskCompleted \<Longrightarrow> js_list_from_str js (tk_blocks ex) = Inr downs \<and> set downs \<subseteq> tk_id ` set (tasks d)"
  shows "\<exists>d'. calm d' \<and> tasks d' = update_rows js now i u downs (tasks d) \<and> update_task js repo now team i u d =
    (case List.find (\<lambda>r. tk_team_id r = team \<and> tk_id r = i) (update_rows js now i u downs (tasks d)) of
       None \<Rightarrow> Inl (TaskNotFound i) | Some r \<Rightarrow> map_sum JsonError id (team_task_from_row js r), d')"
proof -
  let ?rows1 = "set_fields js now i u (tasks d)" and ?rows2 = "update_rows js now i u downs (tasks d)"
  obtain d1 where d1: "calm d1" "tasks d1 = tasks d" "tr_find_task_by_id repo team i d = (Inr (Some ex), d1)"
    using find_task [OF assms(1), of team i] assms(2) by auto
  have "i \<in> tk_id ` set (tasks d1)" using assms(2) d1(2) by (auto simp: find_Some_iff)
  moreover have "\<forall>s. ut_status (task_params js u) = Some s \<longrightarrow> s \<in> set task_status_values" by (auto simp: task_params_def)
  ultimately obtain d2 where d2: "calm d2" "tasks d2 = ?rows1"
    "tr_update_task repo now i (task_params js u) d1 = (Inr (), d2)" using update [OF d1(1), of i "task_params js u" now] d1(2) by (auto simp: set_fields_def)
  have "\<exists>d3. calm d3 \<and> tasks d3 = ?rows2 \<and> (if tu_status u = Some TaskCompleted then check_unblocks js repo now i ex d2 else (Inr (), d2)) = (Inr (), d3)"
  proof (cases "tu_status u = Some TaskCompleted")
    case True
    have "set downs \<subseteq> tk_id ` set (tasks d2)" using assms(3) [OF True] d2(2) by (simp add: set_fields_def)
    from remove_all_blocked_calm [OF d2(1) this, of now i] show ?thesis
      using True assms(3) [OF True] d2(2) by (simp add: check_unblocks_def update_rows_def)
  next
    case False
    then show ?thesis using d2 by (simp add: update_rows_def)
  qed
  then obtain d3 where d3: "calm d3" "tasks d3 = ?rows2"
    "(if tu_status u = Some TaskCompleted then check_unblocks js repo now i ex d2 else (Inr (), d2)) = (Inr (), d3)" by blast
  obtain d4 where d4: "calm d4" "tasks d4 = ?rows2"
    "tr_find_task_by_id repo team i d3 = (Inr (List.find (\<lambda>r. tk_team_id r = team \<and> tk_id r = i) ?rows2), d4)"
    using find_task [OF d3(1), of team i] d3(2) by auto
  show ?thesis unfolding update_task_def using d1(3) d2(3) d3(3) d4 by (auto split: option.split)
qed

lemma update_task_missing:
  assumes "calm d" "\<not> in_team (tasks d) team i"
  shows "\<exists>d'. calm d' \<and> tasks d' = tasks d \<and> update_task js repo now team i u d = (Inl (TaskNotFound i), d')"
  using find_task [OF assms(1), of team i] assms(2) find_in_team [of team i "tasks d"] by (auto simp: update_task_def)

lemma list_tasks_calm:
  assumes "calm d"
  shows "\<exists>ts d'. calm d' \<and> tasks d' = tasks d \<and> list_tasks js repo team d = (Inr ts, d')"
  using list_tasks [OF assms, of team] by (auto simp: TaskBoard.list_tasks_def)

end

end
