(* ===== verification/TaskLinks.thy ===== *)
theory TaskLinks
  imports TaskBoard
begin

text \<open>
  The dependency links of a task board: that both ends agree and the dependencies are acyclic in
  every state the board's own operations reach, and what breaks them.

  What is used of \<open>serde_json\<close> is that reading a list or a value that was written returns it, and
  that \<open>[]\<close> is the empty list.
\<close>

section \<open>Links\<close>

definition json_laws :: "'j serde_json \<Rightarrow> bool" where
  "json_laws js \<longleftrightarrow> (\<forall>xs. js_list_from_str js (js_list_to_string js xs) = Inr xs)
     \<and> js_list_from_str js ''[]'' = Inr []
     \<and> (\<forall>v. js_value_from_str js (js_value_to_string js v) = Inr v)"

definition blocked_of :: "'j serde_json \<Rightarrow> team_task_row \<Rightarrow> id list" where
  "blocked_of js r = list_or_empty js (tk_blocked_by r)"

definition blocks_of :: "'j serde_json \<Rightarrow> team_task_row \<Rightarrow> id list" where
  "blocks_of js r = list_or_empty js (tk_blocks r)"

definition row_readable :: "'j serde_json \<Rightarrow> team_task_row \<Rightarrow> bool" where
  "row_readable js r \<longleftrightarrow> js_list_from_str js (tk_blocked_by r) = Inr (blocked_of js r)
     \<and> js_list_from_str js (tk_blocks r) = Inr (blocks_of js r)
     \<and> (\<forall>m. tk_metadata r = Some m \<longrightarrow> (\<exists>v. js_value_from_str js m = Inr v))"

text \<open>\<open>(t, u)\<close> when task \<open>t\<close> waits for task \<open>u\<close>.\<close>

definition waits :: "'j serde_json \<Rightarrow> team_task_row list \<Rightarrow> (id \<times> id) set" where
  "waits js rows = (\<Union>r \<in> set rows. {tk_id r} \<times> set (blocked_of js r))"

definition board_linked :: "'j serde_json \<Rightarrow> team_task_row list \<Rightarrow> bool" where
  "board_linked js rows \<longleftrightarrow> distinct (map tk_id rows)
     \<and> (\<forall>r \<in> set rows. row_readable js r)
     \<and> (\<forall>r \<in> set rows. \<forall>u \<in> set (blocked_of js r). \<exists>s \<in> set rows. tk_id s = u \<and> tk_id r \<in> set (blocks_of js s))
     \<and> (\<forall>s \<in> set rows. set (blocks_of js s) \<subseteq> tk_id ` set rows)"

lemma board_linkedD:
  assumes "board_linked js rows" "r \<in> set rows" "u \<in> set (blocked_of js r)"
  obtains s where "s \<in> set rows" "tk_id s = u" "tk_id r \<in> set (blocks_of js s)"
proof -
  have "\<forall>r \<in> set rows. \<forall>u \<in> set (blocked_of js r). \<exists>s \<in> set rows. tk_id s = u \<and> tk_id r \<in> set (blocks_of js s)"
    using assms(1) by (simp add: board_linked_def)
  from bspec [OF bspec [OF this assms(2)] assms(3)] that show thesis by auto
qed

lemma list_or_empty_written: "json_laws js \<Longrightarrow> list_or_empty js (js_list_to_string js xs) = xs"
  by (simp add: list_or_empty_def json_laws_def)

named_theorems link_simps \<open>what the row updates do to the links\<close>

lemma links_appended [link_simps]:
  assumes "json_laws js"
  shows "blocks_of js (blocks_appended js now i r) = (if i \<in> set (blocks_of js r) then blocks_of js r else blocks_of js r @ [i])"
    "blocked_of js (blocks_appended js now i r) = blocked_of js r"
    "row_readable js r \<Longrightarrow> row_readable js (blocks_appended js now i r)"
  using assms by (simp_all add: blocks_of_def blocked_of_def blocks_appended_def row_readable_def list_or_empty_written Let_def,
    simp add: json_laws_def)

lemma links_removed [link_simps]:
  assumes "json_laws js"
  shows "blocked_of js (blocked_by_removed js now i r) = filter (\<lambda>k. k \<noteq> i) (blocked_of js r)"
    "blocks_of js (blocked_by_removed js now i r) = blocks_of js r"
    "row_readable js r \<Longrightarrow> row_readable js (blocked_by_removed js now i r)"
  using assms by (simp_all add: blocks_of_def blocked_of_def blocked_by_removed_def row_readable_def list_or_empty_written,
    simp add: json_laws_def)

lemma links_updated:
  assumes "json_laws js" "tu_blocked_by u = None"
  shows "blocked_of js (updated_task now (task_params js u) r) = blocked_of js r"
    "blocks_of js (updated_task now (task_params js u) r) = blocks_of js r"
    "row_readable js r \<Longrightarrow> row_readable js (updated_task now (task_params js u) r)"
  using assms by (auto simp: blocks_of_def blocked_of_def updated_task_def task_params_def set_some_def
    row_readable_def json_laws_def split: option.splits)

lemma appended_twice [simp]:
  "json_laws js \<Longrightarrow> blocks_appended js now i (blocks_appended js now i r) = blocks_appended js now i r"
  by (simp add: blocks_appended_def list_or_empty_written Let_def)

lemma removed_twice [simp]:
  "json_laws js \<Longrightarrow> blocked_by_removed js now i (blocked_by_removed js now i r) = blocked_by_removed js now i r"
  by (simp add: blocked_by_removed_def list_or_empty_written)

text \<open>The loops over a list of tasks change each of them once, whatever the order.\<close>

lemma fold_map_task:
  assumes "\<And>r. f (f r) = f r" "\<And>r. tk_id (f r) = tk_id r"
  shows "fold (\<lambda>i. map_task i f) is rows = map (\<lambda>r. if tk_id r \<in> set is then f r else r) rows"
proof (induction "is" arbitrary: rows)
  case (Cons i "is")
  then show ?case using assms by (auto simp: map_task_def)
qed simp

lemma link_blocks_map:
  "json_laws js \<Longrightarrow> link_blocks js now deps i rows = map (\<lambda>r. if tk_id r \<in> set deps then blocks_appended js now i r else r) rows"
  unfolding link_blocks_def by (rule fold_map_task) simp_all

lemma unlink_blocked_map:
  "json_laws js \<Longrightarrow> unlink_blocked js now downs i rows = map (\<lambda>r. if tk_id r \<in> set downs then blocked_by_removed js now i r else r) rows"
  unfolding unlink_blocked_def by (rule fold_map_task) simp_all

section \<open>The invariant\<close>

definition board_ok :: "'j serde_json \<Rightarrow> team_task_row list \<Rightarrow> bool" where
  "board_ok js rows \<longleftrightarrow> board_linked js rows \<and> acyclic (waits js rows)"

lemma acyclic_new_node:
  assumes "acyclic r" "i \<notin> Range r" "i \<notin> set us"
  shows "acyclic (r \<union> {i} \<times> set us)"
  using assms(3)
proof (induction us)
  case (Cons u us)
  let ?r = "r \<union> {i} \<times> set us"
  have "(u, i) \<notin> ?r\<^sup>*"
  proof
    assume "(u, i) \<in> ?r\<^sup>*"
    then show False using Cons.prems assms(2) by (cases rule: rtranclE) auto
  qed
  moreover have "r \<union> {i} \<times> set (u # us) = insert (i, u) ?r" by auto
  ultimately show ?case using Cons by (simp add: acyclic_insert)
qed (use assms(1) in simp)

lemma new_row_links:
  assumes "json_laws js"
  shows "blocked_of js (new_task_row js now i team subj desc owner deps) = deps"
    "blocks_of js (new_task_row js now i team subj desc owner deps) = []"
    "row_readable js (new_task_row js now i team subj desc owner deps)"
    "tk_id (new_task_row js now i team subj desc owner deps) = i"
  using assms by (simp_all add: new_task_row_def blocked_of_def blocks_of_def row_readable_def list_or_empty_written,
    simp_all add: json_laws_def list_or_empty_def)

lemma board_ok_create:
  assumes js: "json_laws js" and ok: "board_ok js rows" and new: "i \<notin> tk_id ` set rows" and deps: "set deps \<subseteq> tk_id ` set rows"
  shows "board_ok js (link_blocks js now deps i (rows @ [new_task_row js now i team subj desc owner deps]))"
proof -
  let ?new = "new_task_row js now i team subj desc owner deps"
  define f where "f = (\<lambda>r. if tk_id r \<in> set deps then blocks_appended js now i r else r)"
  note nr = new_row_links [OF js, of now i team subj desc owner deps]
  have inew: "i \<notin> set deps" using new deps by auto
  have rows': "link_blocks js now deps i (rows @ [?new]) = map f rows @ [?new]"
    using inew nr(4) by (simp add: link_blocks_map [OF js] f_def)
  have f: "tk_id (f r) = tk_id r" "blocked_of js (f r) = blocked_of js r"
    "set (blocks_of js (f r)) = (if tk_id r \<in> set deps then insert i (set (blocks_of js r)) else set (blocks_of js r))"
    "row_readable js r \<Longrightarrow> row_readable js (f r)" for r
    using links_appended [OF js] by (auto simp: f_def)
  have linked: "board_linked js rows" and acyc: "acyclic (waits js rows)" using ok by (auto simp: board_ok_def)
  have "waits js (map f rows @ [?new]) = waits js rows \<union> {i} \<times> set deps"
    using f(1,2) nr(1,4) by (simp add: waits_def Un_commute)
  moreover have "i \<notin> Range (waits js rows)" using linked new by (force simp: waits_def board_linked_def)
  ultimately have "acyclic (waits js (map f rows @ [?new]))" using acyclic_new_node [OF acyc _ inew] by simp
  moreover have "board_linked js (map f rows @ [?new])" unfolding board_linked_def
  proof (intro conjI ballI)
    show "distinct (map tk_id (map f rows @ [?new]))"
      using linked new nr(4) f(1) by (auto simp: board_linked_def comp_def)
    fix r assume r: "r \<in> set (map f rows @ [?new])"
    show "row_readable js r" using r linked f(4) nr(3) by (auto simp: board_linked_def)
    have ids: "tk_id ` set (map f rows @ [?new]) = insert i (tk_id ` set rows)"
      using f(1) nr(4) by (auto simp: image_iff)
    show "set (blocks_of js r) \<subseteq> tk_id ` set (map f rows @ [?new])" unfolding ids
    proof (cases "r = ?new")
      case False
      then obtain r0 where r0: "r0 \<in> set rows" "r = f r0" using r by auto
      then have "set (blocks_of js r0) \<subseteq> tk_id ` set rows" using linked by (simp add: board_linked_def)
      then show "set (blocks_of js r) \<subseteq> insert i (tk_id ` set rows)" unfolding r0(2) f(3) by auto
    qed (simp add: nr(2))
    fix u assume u: "u \<in> set (blocked_of js r)"
    show "\<exists>s \<in> set (map f rows @ [?new]). tk_id s = u \<and> tk_id r \<in> set (blocks_of js s)"
    proof (cases "r = ?new")
      case True
      then obtain s where "s \<in> set rows" "tk_id s = u" "u \<in> set deps" using u nr(1) deps by auto
      then show ?thesis using f(1,3) [of s] True nr(4) by auto
    next
      case False
      then obtain r0 where r0: "r0 \<in> set rows" "r = f r0" using r by auto
      then obtain s where "s \<in> set rows" "tk_id s = u" "tk_id r0 \<in> set (blocks_of js s)"
        using u f(2) [of r0] board_linkedD [OF linked r0(1), of u] by auto
      then show ?thesis using f(1,3) [of s] f(1) [of r0] r0(2) by (intro bexI [of _ "f s"]) auto
    qed
  qed
  ultimately show ?thesis by (simp add: rows' board_ok_def)
qed

text \<open>An update that only shrinks what tasks wait for keeps the invariant.\<close>

lemma board_ok_map:
  assumes ok: "board_ok js rows"
    and f: "\<And>r. tk_id (f r) = tk_id r" "\<And>r. set (blocked_of js (f r)) \<subseteq> set (blocked_of js r)"
      "\<And>r. blocks_of js (f r) = blocks_of js r" "\<And>r. row_readable js r \<Longrightarrow> row_readable js (f r)"
  shows "board_ok js (map f rows)"
proof -
  have "waits js (map f rows) \<subseteq> waits js rows" using f(1,2) by (force simp: waits_def)
  then have "acyclic (waits js (map f rows))" using ok acyclic_subset by (auto simp: board_ok_def)
  moreover have "board_linked js (map f rows)"
    using ok f unfolding board_ok_def board_linked_def by (simp add: comp_def image_image, blast)
  ultimately show ?thesis by (simp add: board_ok_def)
qed

lemma board_ok_update:
  assumes js: "json_laws js" and ok: "board_ok js rows" and u: "tu_blocked_by u = None"
  shows "board_ok js (update_rows js now i u downs rows)"
proof -
  have "board_ok js (set_fields js now i u rows)"
    using board_ok_map [OF ok, of "\<lambda>r. if tk_id r = i then updated_task now (task_params js u) r else r"]
      links_updated [OF js u] ok by (auto simp: set_fields_def map_task_def)
  moreover have "board_ok js (unlink_blocked js now downs i rows')" if "board_ok js rows'" for rows'
    unfolding unlink_blocked_map [OF js]
    by (rule board_ok_map [OF that]) (auto simp: links_removed [OF js])
  ultimately show ?thesis by (simp add: update_rows_def)
qed

section \<open>Reachable boards\<close>

inductive board_step :: "'j serde_json \<Rightarrow> team_db \<Rightarrow> team_db \<Rightarrow> bool" for js where
  create: "create_task js (sqlite_team_repository js) now i team subj desc owner deps d = (res, d') \<Longrightarrow> board_step js d d'"
| update: "tu_blocked_by u = None \<Longrightarrow> update_task js (sqlite_team_repository js) now team i u d = (res, d') \<Longrightarrow> board_step js d d'"
| list: "list_tasks js (sqlite_team_repository js) team d = (res, d') \<Longrightarrow> board_step js d d'"

text \<open>Histories of a board whose tasks start out empty, on a connection that does not fail.\<close>

inductive board_reachable :: "'j serde_json \<Rightarrow> team_db \<Rightarrow> bool" for js where
  start: "tb_tasks d = [] \<Longrightarrow> team_calm d \<Longrightarrow> board_reachable js d"
| step: "board_reachable js d \<Longrightarrow> board_step js d d' \<Longrightarrow> board_reachable js d'"

lemma sqlite_update_known:
  assumes js: "json_laws js" and calm: "team_calm d" and ok: "board_ok js (tb_tasks d)" and i: "in_team (tb_tasks d) team i"
  obtains ex d' where "ex \<in> set (tb_tasks d)" "tk_id ex = i" "tk_team_id ex = team" "team_calm d'"
    "tb_tasks d' = update_rows js now i u (blocks_of js ex) (tb_tasks d)"
    "update_task js (sqlite_team_repository js) now team i u d =
      (case List.find (\<lambda>r. tk_team_id r = team \<and> tk_id r = i) (tb_tasks d') of
         None \<Rightarrow> Inl (TaskNotFound i) | Some r \<Rightarrow> map_sum JsonError id (team_task_from_row js r), d')"
proof -
  obtain ex where ex: "List.find (\<lambda>r. tk_team_id r = team \<and> tk_id r = i) (tb_tasks d) = Some ex"
    using i find_in_team by (metis not_Some_eq)
  then have mem: "ex \<in> set (tb_tasks d)" "tk_id ex = i" "tk_team_id ex = team" by (auto simp: find_Some_iff)
  have "js_list_from_str js (tk_blocks ex) = Inr (blocks_of js ex)" "set (blocks_of js ex) \<subseteq> tk_id ` set (tb_tasks d)"
    using ok mem(1) by (auto simp: board_ok_def board_linked_def row_readable_def)
  then obtain d' where "team_calm d'" "tb_tasks d' = update_rows js now i u (blocks_of js ex) (tb_tasks d)"
    "update_task js (sqlite_team_repository js) now team i u d =
      (case List.find (\<lambda>r. tk_team_id r = team \<and> tk_id r = i) (update_rows js now i u (blocks_of js ex) (tb_tasks d)) of
         None \<Rightarrow> Inl (TaskNotFound i) | Some r \<Rightarrow> map_sum JsonError id (team_task_from_row js r), d')"
    using sqlite_tasks.update_task_calm [OF calm ex, of u js "blocks_of js ex" now] by auto
  then show thesis by (intro that [OF mem]) auto
qed

lemma board_step_ok:
  assumes js: "json_laws js" and step: "board_step js d d'" and calm: "team_calm d" and ok: "board_ok js (tb_tasks d)"
  shows "team_calm d' \<and> board_ok js (tb_tasks d')"
  using step
proof cases
  case (create now i team subj desc owner deps res)
  show ?thesis
  proof (cases "List.find (\<lambda>k. \<not> in_team (tb_tasks d) team k) deps")
    case None
    then have "set deps \<subseteq> tk_id ` set (tb_tasks d)" by (force simp: find_None_iff in_team_def)
    then show ?thesis using sqlite_tasks.create_task_calm [OF calm, of js now i team subj desc owner deps] create None ok
      board_ok_create [OF js ok, of i deps] by (auto split: if_splits)
  next
    case (Some k)
    then show ?thesis using sqlite_tasks.create_task_calm [OF calm, of js now i team subj desc owner deps] create ok by auto
  qed
next
  case (update u now team i res)
  show ?thesis
  proof (cases "in_team (tb_tasks d) team i")
    case True
    obtain ex d2 where d2: "team_calm d2" "tb_tasks d2 = update_rows js now i u (blocks_of js ex) (tb_tasks d)"
      "update_task js (sqlite_team_repository js) now team i u d =
        (case List.find (\<lambda>r. tk_team_id r = team \<and> tk_id r = i) (tb_tasks d2) of
           None \<Rightarrow> Inl (TaskNotFound i) | Some r \<Rightarrow> map_sum JsonError id (team_task_from_row js r), d2)"
      using sqlite_update_known [OF js calm ok True] .
    then have "d' = d2" using update(2) by simp
    then show ?thesis using d2 board_ok_update [OF js ok update(1)] by simp
  next
    case False
    from sqlite_tasks.update_task_missing [OF calm False] update(2) ok show ?thesis by (metis prod.inject)
  qed
next
  case (list team res)
  from sqlite_tasks.list_tasks_calm [OF calm] list ok show ?thesis by (metis prod.inject)
qed

lemma board_reachable_ok:
  assumes "json_laws js" "board_reachable js d" shows "team_calm d \<and> board_ok js (tb_tasks d)"
  using assms(2)
proof induction
  case (start d)
  then show ?case by (simp add: board_ok_def board_linked_def waits_def acyclic_def)
next
  case (step d d')
  then show ?case using board_step_ok [OF assms(1)] by blast
qed

lemma update_rows_nth:
  assumes js: "json_laws js" and u: "tu_blocked_by u = None" and k: "k < length rows"
  shows "length (update_rows js now i u downs rows) = length rows"
    "tk_id (update_rows js now i u downs rows ! k) = tk_id (rows ! k)"
    "tk_team_id (update_rows js now i u downs rows ! k) = tk_team_id (rows ! k)"
    "blocked_of js (update_rows js now i u downs rows ! k) =
       (if tu_status u = Some TaskCompleted \<and> tk_id (rows ! k) \<in> set downs
        then filter (\<lambda>j. j \<noteq> i) (blocked_of js (rows ! k)) else blocked_of js (rows ! k))"
    "tk_status (update_rows js now i u downs rows ! k) =
       (if tk_id (rows ! k) = i \<and> tu_status u \<noteq> None then task_status_display (the (tu_status u)) else tk_status (rows ! k))"
  using k links_updated [OF js u] links_removed [OF js]
  by (auto simp: update_rows_def set_fields_def unlink_blocked_map [OF js] map_task_def
      no_task_fields_def task_params_def updated_task_def set_some_def)


section \<open>A concrete encoding\<close>

text \<open>
  For the examples, an encoding of string lists in brackets: each character after a dot, each
  string before a comma. JSON values are natural numbers in unary.
\<close>

fun dotted_items :: "string list \<Rightarrow> string \<Rightarrow> string \<Rightarrow> string + string list" where
  "dotted_items acc cur [] = Inl ''unexpected end''"
| "dotted_items acc cur [c] = (if c = CHR '']'' then Inr acc else Inl ''unexpected character'')"
| "dotted_items acc cur (c # x # rest) =
     (if c = CHR ''.'' then dotted_items acc (cur @ [x]) rest
      else if c = CHR '','' then dotted_items (acc @ [cur]) [] (x # rest)
      else Inl ''unexpected character'')"

definition dotted_json :: "nat serde_json" where
  "dotted_json =
     \<lparr>js_list_to_string = (\<lambda>xs. ''['' @ concat (map (\<lambda>s. concat (map (\<lambda>c. [CHR ''.'', c]) s) @ '','') xs) @ '']''),
      js_list_from_str = (\<lambda>s. case s of [] \<Rightarrow> Inl ''unexpected end'' | _ # rest \<Rightarrow> dotted_items [] [] rest),
      js_value_to_string = (\<lambda>n. replicate n CHR ''1''),
      js_value_from_str = (\<lambda>s. Inr (length s))\<rparr>"

lemma dotted_string: "rest \<noteq> [] \<Longrightarrow> dotted_items acc cur (concat (map (\<lambda>c. [CHR ''.'', c]) s) @ rest) = dotted_items acc (cur @ s) rest"
  by (induction s arbitrary: cur) auto

lemma dotted_list: "dotted_items acc [] (concat (map (\<lambda>s. concat (map (\<lambda>c. [CHR ''.'', c]) s) @ '','') xs) @ '']'') = Inr (acc @ xs)"
proof (induction xs arbitrary: acc)
  case (Cons s xs)
  let ?rest = "concat (map (\<lambda>s. concat (map (\<lambda>c. [CHR ''.'', c]) s) @ '','') xs) @ '']''"
  obtain x y where xy: "?rest = x # y" by (cases ?rest) auto
  have "dotted_items acc [] (concat (map (\<lambda>c. [CHR ''.'', c]) s) @ '','' @ ?rest) = dotted_items acc s ('','' @ ?rest)"
    using dotted_string [of "'','' @ ?rest" acc "[]" s] by simp
  also have "\<dots> = dotted_items (acc @ [s]) [] ?rest" unfolding xy by simp
  finally show ?case using Cons.IH [of "acc @ [s]"] by simp
qed simp

lemma dotted_json_laws: "json_laws dotted_json"
  using dotted_list [of "[]"] by (simp add: json_laws_def dotted_json_def)

definition empty_team_db :: team_db where
  "empty_team_db = \<lparr>tb_teams = [], tb_mailbox = [], tb_tasks = [], tb_faults = []\<rparr>"

definition no_update :: "nat task_update" where
  "no_update = \<lparr>tu_status = None, tu_description = None, tu_owner = None, tu_blocked_by = None, tu_metadata = None\<rparr>"

abbreviation example_create :: "id \<Rightarrow> id list \<Rightarrow> team_db \<Rightarrow> (team_error + nat team_task) \<times> team_db" where
  "example_create i deps \<equiv> create_task dotted_json (sqlite_team_repository dotted_json) 0 i ''team'' i None None deps"

abbreviation example_update :: "id \<Rightarrow> nat task_update \<Rightarrow> team_db \<Rightarrow> (team_error + nat team_task) \<times> team_db" where
  "example_update i u \<equiv> update_task dotted_json (sqlite_team_repository dotted_json) 1 ''team'' i u"

definition two_task_db :: team_db where
  "two_task_db = snd (example_create ''b'' [''a''] (snd (example_create ''a'' [] empty_team_db)))"

lemma two_task_db_reachable: "board_reachable dotted_json two_task_db"
proof -
  have "board_reachable dotted_json empty_team_db" by (rule board_reachable.start) (simp_all add: empty_team_db_def team_calm_def)
  from board_reachable.step [OF this board_step.create, OF prod.collapse [symmetric]]
  have "board_reachable dotted_json (snd (example_create ''a'' [] empty_team_db))" .
  from board_reachable.step [OF this board_step.create, OF prod.collapse [symmetric]]
  show ?thesis unfolding two_task_db_def .
qed




text \<open>
  Three ways a task stays blocked by a completed task: it was created after the other task was
  completed; it was made to wait through an update, which does not tell the other task; or the
  connection failed while its creation was linking it, which leaves the task on the board although
  the creation reports an error.
\<close>

theorem stale_dependencies:
  "let completed = no_update\<lparr>tu_status := Some TaskCompleted\<rparr>;
       one = snd (example_create ''a'' [] empty_team_db);
       late = snd (example_create ''b'' [''a''] (snd (example_update ''a'' completed one)));
       two = snd (example_create ''b'' [] one);
       updated = snd (example_update ''a'' completed
         (snd (example_update ''b'' (no_update\<lparr>tu_blocked_by := Some [''a'']\<rparr>) two)));
       broken = example_create ''b'' [''a''] (one\<lparr>tb_faults := [False, False, True]\<rparr>);
       after = snd (example_update ''a'' completed (snd broken))
   in map (\<lambda>r. (tk_id r, tk_status r, blocked_of dotted_json r)) (tb_tasks late)
        = [(''a'', ''completed'', []), (''b'', ''pending'', [''a''])]
    \<and> map (\<lambda>r. (tk_id r, tk_status r, blocked_of dotted_json r)) (tb_tasks updated)
        = [(''a'', ''completed'', []), (''b'', ''pending'', [''a''])]
    \<and> fst broken = Inl (DatabaseError ''Database query failed: database error'')
    \<and> map (\<lambda>r. (tk_id r, tk_status r, blocked_of dotted_json r)) (tb_tasks after)
        = [(''a'', ''completed'', []), (''b'', ''pending'', [''a''])]"
  by code_simp

end
