(* ===== verification/TeamMailbox.thy ===== *)
theory TeamMailbox
  imports TaskBoard
begin

text \<open>
  The mailbox of a team, \<open>aionui-team/src/mailbox.rs\<close>, over any implementation of the team
  repository, with the message types of \<open>types.rs\<close>. The lemmas show that the mailbox is a queue of
  unread messages for each agent of each team, which is what the drain of the agents' event loop
  and the reconciliation of the work coordinator rely on.
\<close>

section \<open>Types\<close>

datatype mailbox_message_type = MailMessage | MailIdleNotification | MailShutdownRequest

fun message_type_display :: "mailbox_message_type \<Rightarrow> string" where
  "message_type_display MailMessage = ''message''"
| "message_type_display MailIdleNotification = ''idle_notification''"
| "message_type_display MailShutdownRequest = ''shutdown_request''"

definition message_type_parse :: "string \<Rightarrow> mailbox_message_type option" where
  "message_type_parse s =
     (if s = ''message'' then Some MailMessage
      else if s = ''idle_notification'' then Some MailIdleNotification
      else if s = ''shutdown_request'' then Some MailShutdownRequest
      else None)"

record mailbox_message =
  mm_id :: id
  mm_team_id :: id
  mm_to_agent_id :: id
  mm_from_agent_id :: id
  mm_msg_type :: mailbox_message_type
  mm_content :: string
  mm_summary :: "string option"
  mm_files :: "string list option"
  mm_read :: bool
  mm_created_at :: timestamp_ms

definition mailbox_message_from_row :: "'j serde_json \<Rightarrow> mailbox_message_row \<Rightarrow> mailbox_message option" where
  "mailbox_message_from_row js row =
     (case message_type_parse (mr_msg_type row) of
        None \<Rightarrow> None
      | Some msg_type \<Rightarrow>
          let files = (case mr_files row of
                None \<Rightarrow> None
              | Some s \<Rightarrow> (case js_list_from_str js s of
                    Inl _ \<Rightarrow> None
                  | Inr v \<Rightarrow> if v = [] then None else Some v))
          in Some \<lparr>mm_id = mr_id row, mm_team_id = mr_team_id row, mm_to_agent_id = mr_to_agent_id row,
                   mm_from_agent_id = mr_from_agent_id row, mm_msg_type = msg_type, mm_content = mr_content row,
                   mm_summary = mr_summary row, mm_files = files, mm_read = mr_read row,
                   mm_created_at = mr_created_at row\<rparr>)"

section \<open>Operations\<close>

definition write_with_files ::
  "'j serde_json \<Rightarrow> 'd team_repository \<Rightarrow> timestamp_ms \<Rightarrow> id \<Rightarrow> id \<Rightarrow> id \<Rightarrow> id \<Rightarrow> mailbox_message_type \<Rightarrow> string
     \<Rightarrow> string option \<Rightarrow> string list option \<Rightarrow> 'd \<Rightarrow> (team_error + mailbox_message) \<times> 'd" where
  "write_with_files js repo now new_id team_id to_agent_id from_agent_id msg_type content summary files d =
     (let files_json = (case files of None \<Rightarrow> None | Some f \<Rightarrow> if f = [] then None else Some (js_list_to_string js f));
          row = \<lparr>mr_id = new_id, mr_team_id = team_id, mr_to_agent_id = to_agent_id, mr_from_agent_id = from_agent_id,
                 mr_msg_type = message_type_display msg_type, mr_content = content, mr_summary = summary,
                 mr_files = files_json, mr_read = False, mr_created_at = now\<rparr>
      in (case tr_write_message repo row d of
            (Inl e, d1) \<Rightarrow> db_fails e d1
          | (Inr _, d1) \<Rightarrow>
              (case mailbox_message_from_row js row of
                 None \<Rightarrow> (Inl (InvalidRequest (''invalid message type: '' @ message_type_display msg_type)), d1)
               | Some m \<Rightarrow> (Inr m, d1))))"

definition write_mail ::
  "'j serde_json \<Rightarrow> 'd team_repository \<Rightarrow> timestamp_ms \<Rightarrow> id \<Rightarrow> id \<Rightarrow> id \<Rightarrow> id \<Rightarrow> mailbox_message_type \<Rightarrow> string
     \<Rightarrow> string option \<Rightarrow> 'd \<Rightarrow> (team_error + mailbox_message) \<times> 'd" where
  "write_mail js repo now new_id team_id to_agent_id from_agent_id msg_type content summary d =
     write_with_files js repo now new_id team_id to_agent_id from_agent_id msg_type content summary None d"

definition from_rows :: "'j serde_json \<Rightarrow> (db_error + mailbox_message_row list) \<times> 'd \<Rightarrow> (team_error + mailbox_message list) \<times> 'd" where
  "from_rows js x =
     (case x of
        (Inl e, d) \<Rightarrow> db_fails e d
      | (Inr rows, d) \<Rightarrow> (Inr (List.map_filter (mailbox_message_from_row js) rows), d))"

definition read_unread :: "'j serde_json \<Rightarrow> 'd team_repository \<Rightarrow> id \<Rightarrow> id \<Rightarrow> 'd \<Rightarrow> (team_error + mailbox_message list) \<times> 'd" where
  "read_unread js repo team_id agent_id d = from_rows js (tr_read_unread_and_mark repo team_id agent_id d)"

definition peek_unread :: "'j serde_json \<Rightarrow> 'd team_repository \<Rightarrow> id \<Rightarrow> id \<Rightarrow> 'd \<Rightarrow> (team_error + mailbox_message list) \<times> 'd" where
  "peek_unread js repo team_id agent_id d = from_rows js (tr_peek_unread repo team_id agent_id d)"

definition mark_read_batch :: "'d team_repository \<Rightarrow> id list \<Rightarrow> 'd \<Rightarrow> (team_error + unit) \<times> 'd" where
  "mark_read_batch repo ids d =
     (case tr_mark_read_batch repo ids d of
        (Inl e, d1) \<Rightarrow> db_fails e d1
      | (Inr _, d1) \<Rightarrow> (Inr (), d1))"

fun collect_unread ::
  "'j serde_json \<Rightarrow> 'd team_repository \<Rightarrow> id \<Rightarrow> id list \<Rightarrow> id list \<Rightarrow> 'd \<Rightarrow> (team_error + id list) \<times> 'd" where
  "collect_unread js repo team_id [] ids d = (Inr ids, d)"
| "collect_unread js repo team_id (agent_id # agents) ids d =
     (case peek_unread js repo team_id agent_id d of
        (Inl e, d1) \<Rightarrow> (Inl e, d1)
      | (Inr unread, d1) \<Rightarrow> collect_unread js repo team_id agents (ids @ map mm_id unread) d1)"

definition mark_all_unread_for_agents_read ::
  "'j serde_json \<Rightarrow> 'd team_repository \<Rightarrow> id \<Rightarrow> id list \<Rightarrow> 'd \<Rightarrow> (team_error + nat) \<times> 'd" where
  "mark_all_unread_for_agents_read js repo team_id agent_ids d =
     (case collect_unread js repo team_id agent_ids [] d of
        (Inl e, d1) \<Rightarrow> (Inl e, d1)
      | (Inr ids, d1) \<Rightarrow>
          if ids \<noteq> []
          then (case mark_read_batch repo ids d1 of
                  (Inl e, d2) \<Rightarrow> (Inl e, d2)
                | (Inr _, d2) \<Rightarrow> (Inr (length ids), d2))
          else (Inr (length ids), d1))"

definition get_history ::
  "'j serde_json \<Rightarrow> 'd team_repository \<Rightarrow> id \<Rightarrow> id \<Rightarrow> int option \<Rightarrow> 'd \<Rightarrow> (team_error + mailbox_message list) \<times> 'd" where
  "get_history js repo team_id agent_id limit d = from_rows js (tr_get_history repo team_id agent_id limit d)"

definition has_unread :: "'d team_repository \<Rightarrow> id \<Rightarrow> id \<Rightarrow> 'd \<Rightarrow> (team_error + bool) \<times> 'd" where
  "has_unread repo team_id agent_id d =
     (case tr_get_history repo team_id agent_id None d of
        (Inl e, d1) \<Rightarrow> db_fails e d1
      | (Inr rows, d1) \<Rightarrow> (Inr (list_ex (\<lambda>r. \<not> mr_read r) rows), d1))"

definition delete_by_team :: "'d team_repository \<Rightarrow> id \<Rightarrow> 'd \<Rightarrow> (team_error + unit) \<times> 'd" where
  "delete_by_team repo team_id d =
     (case tr_delete_mailbox_by_team repo team_id d of
        (Inl e, d1) \<Rightarrow> db_fails e d1
      | (Inr _, d1) \<Rightarrow> (Inr (), d1))"

section \<open>What the mailbox relies on\<close>

definition mark_rows :: "(mailbox_message_row \<Rightarrow> bool) \<Rightarrow> mailbox_message_row list \<Rightarrow> mailbox_message_row list" where
  "mark_rows p = map (\<lambda>r. if p r then r\<lparr>mr_read := True\<rparr> else r)"

definition unread_rows :: "id \<Rightarrow> id \<Rightarrow> mailbox_message_row list \<Rightarrow> mailbox_message_row list" where
  "unread_rows team agent rows = sort_key mr_created_at (filter (unread_for team agent) rows)"

locale message_store =
  fixes repo :: "'d team_repository"
    and messages :: "'d \<Rightarrow> mailbox_message_row list" and calm :: "'d \<Rightarrow> bool"
  assumes insert_message: "\<And>d row. \<lbrakk>calm d; mr_id row \<notin> mr_id ` set (messages d); mr_msg_type row \<in> set message_type_values\<rbrakk> \<Longrightarrow>
      \<exists>d'. calm d' \<and> messages d' = messages d @ [row] \<and> tr_write_message repo row d = (Inr (), d')"
    and read_and_mark: "\<And>d team agent. calm d \<Longrightarrow>
      \<exists>d'. calm d' \<and> messages d' = mark_rows (unread_for team agent) (messages d) \<and>
        tr_read_unread_and_mark repo team agent d = (Inr (unread_rows team agent (messages d)), d')"
    and peek: "\<And>d team agent. calm d \<Longrightarrow>
      \<exists>d'. calm d' \<and> messages d' = messages d \<and> tr_peek_unread repo team agent d = (Inr (unread_rows team agent (messages d)), d')"
    and mark_batch: "\<And>d ids. calm d \<Longrightarrow>
      \<exists>d'. calm d' \<and> messages d' = mark_rows (\<lambda>r. mr_id r \<in> set ids) (messages d) \<and> tr_mark_read_batch repo ids d = (Inr (), d')"
    and history: "\<And>d team agent. calm d \<Longrightarrow>
      \<exists>d'. calm d' \<and> messages d' = messages d \<and> tr_get_history repo team agent None d =
        (Inr (sort_key mr_created_at (filter (\<lambda>r. mr_team_id r = team \<and> mr_to_agent_id r = agent) (messages d))), d')"

lemma chunks_concat: "0 < n \<Longrightarrow> concat (chunks n xs) = xs"
proof (induction n xs rule: chunks.induct)
  case (1 n xs)
  then show ?case by (subst chunks.simps) (auto simp: append_take_drop_id)
qed

lemma mark_rows_twice: "(\<And>r. p (r\<lparr>mr_read := True\<rparr>) = p r) \<Longrightarrow> mark_rows p (mark_rows q rows) = mark_rows (\<lambda>r. p r \<or> q r) rows"
  by (simp add: mark_rows_def)

lemma mark_chunks_calm:
  "team_calm d \<Longrightarrow> \<exists>d'. team_calm d' \<and> tb_mailbox d' = mark_rows (\<lambda>r. mr_id r \<in> set (concat cs)) (tb_mailbox d)
     \<and> mark_chunks cs d = (Inr (), d')"
proof (induction cs arbitrary: d)
  case (Cons c cs)
  from team_pool_calm [OF Cons.prems, of "\<lambda>d. (Inr (), mark_where (\<lambda>r. mr_id r \<in> set c) d)"] obtain fs where fs: "True \<notin> set fs"
    "team_pool (\<lambda>d. (Inr (), mark_where (\<lambda>r. mr_id r \<in> set c) d)) d = (Inr (), mark_where (\<lambda>r. mr_id r \<in> set c) (d\<lparr>tb_faults := fs\<rparr>))" by auto
  let ?d1 = "mark_where (\<lambda>r. mr_id r \<in> set c) (d\<lparr>tb_faults := fs\<rparr>)"
  have "team_calm ?d1" "tb_mailbox ?d1 = mark_rows (\<lambda>r. mr_id r \<in> set c) (tb_mailbox d)"
    using fs(1) by (simp_all add: mark_where_def team_calm_def mark_rows_def)
  then show ?case using Cons.IH [of ?d1] fs(2) by (simp add: mark_rows_twice disj_commute)
qed (simp add: mark_rows_def)

lemma mark_where_rows [simp]:
  "tb_mailbox (mark_where p d) = mark_rows p (tb_mailbox d)" "tb_faults (mark_where p d) = tb_faults d"
  by (simp_all add: mark_where_def mark_rows_def)

lemma mark_none: "(\<forall>r \<in> set rows. \<not> p r) \<Longrightarrow> mark_rows p rows = rows"
  by (simp add: mark_rows_def map_idI)

lemma team_pool_mail:
  assumes "team_calm d" "\<And>fs. \<exists>d'. q (d\<lparr>tb_faults := fs\<rparr>) = (r, d') \<and> tb_faults d' = fs \<and> tb_mailbox d' = ms"
  shows "\<exists>d'. team_calm d' \<and> tb_mailbox d' = ms \<and> team_pool q d = (r, d')"
  using team_pool_calm [OF assms(1), of q] assms(2) by (metis team_calm_def)

lemmas sqlite_mail_defs = sqlite_team_repository_def sqlite_write_message_def sqlite_read_unread_and_mark_def
  sqlite_peek_unread_def sqlite_get_history_def select_unread_def unread_rows_def Let_def

interpretation sqlite_mail: message_store "sqlite_team_repository js" tb_mailbox team_calm for js
proof (unfold_locales, goal_cases)
  case (1 d row)
  then show ?case by (simp add: sqlite_mail_defs team_pool_mail)
next
  case (2 d team agent)
  have none: "mark_rows (unread_for team agent) (tb_mailbox d) = tb_mailbox d"
    if "unread_rows team agent (tb_mailbox d) = []"
    using arg_cong [OF that, of set] by (intro mark_none) (auto simp: unread_rows_def)
  have sel: "select_unread team agent (d\<lparr>tb_faults := fs\<rparr>) = unread_rows team agent (tb_mailbox d)" for fs
    by (simp add: select_unread_def unread_rows_def)
  have "\<exists>d'. team_calm d' \<and> tb_mailbox d' = mark_rows (unread_for team agent) (tb_mailbox d) \<and>
      sqlite_read_unread_and_mark team agent d = (Inr (unread_rows team agent (tb_mailbox d)), d')"
    unfolding sqlite_read_unread_and_mark_def
    by (rule team_pool_mail [OF 2]) (auto simp: sel Let_def none mark_where_rows)
  then show ?case by (simp add: sqlite_team_repository_def)
next
  case (3 d team agent)
  then show ?case by (simp add: sqlite_mail_defs team_pool_mail)
next
  case (4 d ids)
  then show ?case using mark_chunks_calm [OF 4, of "chunks 500 ids"] chunks_concat [of 500 ids]
    by (auto simp: sqlite_team_repository_def sqlite_mark_read_batch_def mark_none)
next
  case (5 d team agent)
  then show ?case by (simp add: sqlite_mail_defs team_pool_mail)
qed

section \<open>The queue of unread messages\<close>

definition unread_ids :: "id \<Rightarrow> id \<Rightarrow> mailbox_message_row list \<Rightarrow> id list" where
  "unread_ids team agent rows = map mr_id (unread_rows team agent rows)"

definition mail_ok :: "mailbox_message_row list \<Rightarrow> bool" where
  "mail_ok rows \<longleftrightarrow> distinct (map mr_id rows) \<and> (\<forall>r \<in> set rows. mr_msg_type r \<in> set message_type_values)"

lemma sort_key_snoc:
  assumes "\<forall>x \<in> set xs. f x \<le> f y" shows "sort_key f (xs @ [y]) = sort_key f xs @ [y]"
proof -
  have "filter (\<lambda>x. f k = f x) (sort_key f xs) = filter (\<lambda>x. f k = f x) xs" for k
    using sort_key_stable [of f "f k" xs] by (simp add: eq_commute)
  then show ?thesis using assms by (intro properties_for_sort_key) (auto simp: sorted_append)
qed

lemma unread_rows_snoc:
  assumes "\<forall>r \<in> set rows. mr_created_at r \<le> mr_created_at row"
  shows "unread_rows team agent (rows @ [row]) = (if unread_for team agent row then unread_rows team agent rows @ [row] else unread_rows team agent rows)"
  using assms by (simp add: unread_rows_def sort_key_snoc)

lemma unread_rows_marked:
  assumes "\<And>r. p (r\<lparr>mr_read := True\<rparr>) = p r"
  shows "unread_rows team agent (mark_rows p rows) = filter (\<lambda>r. \<not> p r) (unread_rows team agent rows)"
proof -
  have "filter (unread_for team agent) (mark_rows p rows) = filter (\<lambda>r. \<not> p r) (filter (unread_for team agent) rows)"
    by (induction rows) (auto simp: mark_rows_def unread_for_def)
  then show ?thesis by (simp only: unread_rows_def filter_sort)
qed

lemma unread_rows_taken:
  "unread_rows team agent (mark_rows (unread_for t a) rows) = (if team = t \<and> agent = a then [] else unread_rows team agent rows)"
proof (cases "team = t \<and> agent = a")
  case True
  have "filter (unread_for t a) (mark_rows (unread_for t a) rows) = []"
    by (induction rows) (simp_all add: mark_rows_def, simp add: unread_for_def)
  then show ?thesis using True by (simp add: unread_rows_def)
next
  case False
  have "\<not> (unread_for team agent r \<and> unread_for t a r)" for r using False by (auto simp: unread_for_def)
  moreover have "\<not> unread_for team agent (r\<lparr>mr_read := True\<rparr>)" for r by (simp add: unread_for_def)
  ultimately have "filter (unread_for team agent) (mark_rows (unread_for t a) rows) = filter (unread_for team agent) rows"
    by (induction rows) (simp_all add: mark_rows_def)
  then show ?thesis using False by (simp only: unread_rows_def if_False)
qed

lemma mail_ok_marked:
  assumes "mail_ok rows" shows "mail_ok (mark_rows p rows)"
proof -
  have "map mr_id (mark_rows p rows) = map mr_id rows" by (simp add: mark_rows_def)
  moreover have "\<forall>r \<in> set (mark_rows p rows). mr_msg_type r \<in> set message_type_values"
    using assms by (auto simp: mark_rows_def mail_ok_def)
  ultimately show ?thesis using assms by (simp only: mail_ok_def simp_thms)
qed

lemma message_type_parse_iff: "message_type_parse s \<noteq> None \<longleftrightarrow> s \<in> set message_type_values"
  by (simp add: message_type_parse_def message_type_values_def)

lemma message_type_roundtrip [simp]: "message_type_parse (message_type_display t) = Some t"
  by (cases t) (simp_all add: message_type_parse_def)

lemma message_type_display_ok [simp]: "message_type_display t \<in> set message_type_values"
  by (cases t) (simp_all add: message_type_values_def)

lemma from_rows_ids:
  assumes "\<forall>r \<in> set rows. mr_msg_type r \<in> set message_type_values"
  shows "map mm_id (List.map_filter (mailbox_message_from_row js) rows) = map mr_id rows"
  using assms
proof (induction rows)
  case (Cons r rows)
  then obtain t where "message_type_parse (mr_msg_type r) = Some t" using message_type_parse_iff by (metis list.set_intros(1) not_None_eq)
  then obtain m where "mailbox_message_from_row js r = Some m" "mm_id m = mr_id r" by (simp add: mailbox_message_from_row_def Let_def)
  then show ?case using Cons by (simp add: map_filter_simps)
qed (simp add: map_filter_simps)

lemma unread_rows_types: "mail_ok rows \<Longrightarrow> \<forall>r \<in> set (unread_rows team agent rows). mr_msg_type r \<in> set message_type_values"
  by (simp add: mail_ok_def unread_rows_def)

context message_store
begin

lemma write_calm:
  assumes "calm d" "mail_ok (messages d)" "i \<notin> mr_id ` set (messages d)" "\<forall>r \<in> set (messages d). mr_created_at r \<le> now"
  shows "\<exists>m d'. write_with_files js repo now i team to fr ty content summary files d = (Inr m, d')
    \<and> calm d' \<and> mail_ok (messages d') \<and> mm_id m = i \<and> mm_msg_type m = ty \<and> mm_content m = content \<and> \<not> mm_read m
    \<and> (\<forall>t a. unread_ids t a (messages d') = unread_ids t a (messages d) @ (if t = team \<and> a = to then [i] else []))"
proof -
  define row where "row = \<lparr>mr_id = i, mr_team_id = team, mr_to_agent_id = to, mr_from_agent_id = fr,
     mr_msg_type = message_type_display ty, mr_content = content, mr_summary = summary,
     mr_files = (case files of None \<Rightarrow> None | Some f \<Rightarrow> if f = [] then None else Some (js_list_to_string js f)),
     mr_read = False, mr_created_at = now\<rparr>"
  obtain d' where d': "calm d'" "messages d' = messages d @ [row]" "tr_write_message repo row d = (Inr (), d')"
    using insert_message [OF assms(1), of row] assms(3) by (auto simp: row_def)
  obtain m where m: "mailbox_message_from_row js row = Some m" "mm_id m = i" "mm_msg_type m = ty" "mm_content m = content" "\<not> mm_read m"
    by (simp add: mailbox_message_from_row_def row_def Let_def)
  have "unread_ids t a (messages d') = unread_ids t a (messages d) @ (if t = team \<and> a = to then [i] else [])" for t a
    using unread_rows_snoc [of "messages d" row t a] assms(4) unfolding d'(2)
    by (auto simp: unread_ids_def row_def unread_for_def)
  moreover have "mail_ok (messages d')" using assms(2,3) unfolding d'(2) by (auto simp: mail_ok_def row_def)
  moreover have "write_with_files js repo now i team to fr ty content summary files d = (Inr m, d')"
    using d'(3) m(1) by (simp add: write_with_files_def Let_def row_def [symmetric])
  ultimately show ?thesis using d'(1) m by blast
qed

lemma read_calm:
  assumes "calm d" "mail_ok (messages d)"
  shows "\<exists>ms d'. read_unread js repo team agent d = (Inr ms, d') \<and> calm d' \<and> mail_ok (messages d')
    \<and> map mm_id ms = unread_ids team agent (messages d)
    \<and> (\<forall>t a. unread_ids t a (messages d') = (if t = team \<and> a = agent then [] else unread_ids t a (messages d)))"
  using read_and_mark [OF assms(1), of team agent] mail_ok_marked [OF assms(2)] from_rows_ids [OF unread_rows_types [OF assms(2)], of js team agent]
  by (auto simp: read_unread_def from_rows_def unread_ids_def unread_rows_taken)

lemma peek_calm:
  assumes "calm d" "mail_ok (messages d)"
  shows "\<exists>ms d'. peek_unread js repo team agent d = (Inr ms, d') \<and> calm d' \<and> messages d' = messages d
    \<and> map mm_id ms = unread_ids team agent (messages d)"
  using peek [OF assms(1), of team agent] from_rows_ids [OF unread_rows_types [OF assms(2)], of js team agent]
  by (auto simp: peek_unread_def from_rows_def unread_ids_def)

lemma mark_calm:
  assumes "calm d" "mail_ok (messages d)"
  shows "\<exists>d'. mark_read_batch repo ids d = (Inr (), d') \<and> calm d' \<and> mail_ok (messages d')
    \<and> (\<forall>t a. unread_ids t a (messages d') = filter (\<lambda>i. i \<notin> set ids) (unread_ids t a (messages d)))"
  using mark_batch [OF assms(1), of ids] mail_ok_marked [OF assms(2)]
  by (auto simp: mark_read_batch_def unread_ids_def unread_rows_marked filter_map comp_def)

lemma collect_calm:
  assumes "mail_ok (messages d)" "calm d"
  shows "\<exists>d'. collect_unread js repo team agents ids d =
      (Inr (ids @ concat (map (\<lambda>a. unread_ids team a (messages d)) agents)), d') \<and> calm d' \<and> messages d' = messages d"
  using assms
proof (induction agents arbitrary: ids d)
  case (Cons a agents)
  from peek_calm [OF Cons.prems(2,1), of js team a] obtain ms d1 where d1: "peek_unread js repo team a d = (Inr ms, d1)" "calm d1"
    "messages d1 = messages d" "map mm_id ms = unread_ids team a (messages d)" by blast
  then show ?case using Cons.IH [of d1 "ids @ map mm_id ms"] Cons.prems by simp
qed simp

lemma mark_all_calm:
  assumes "calm d" "mail_ok (messages d)"
  shows "\<exists>d'. mark_all_unread_for_agents_read js repo team agents d =
      (Inr (sum_list (map (\<lambda>a. length (unread_ids team a (messages d))) agents)), d') \<and> calm d' \<and> mail_ok (messages d')
    \<and> (\<forall>t a. unread_ids t a (messages d') = filter (\<lambda>i. \<forall>b \<in> set agents. i \<notin> set (unread_ids team b (messages d))) (unread_ids t a (messages d)))"
proof -
  let ?ids = "concat (map (\<lambda>a. unread_ids team a (messages d)) agents)"
  obtain d1 where d1: "collect_unread js repo team agents [] d = (Inr ?ids, d1)" "calm d1" "messages d1 = messages d"
    using collect_calm [OF assms(2,1), of js team agents "[]"] by auto
  have len: "length ?ids = sum_list (map (\<lambda>a. length (unread_ids team a (messages d))) agents)"
    by (simp add: length_concat comp_def)
  have ids: "i \<notin> set ?ids \<longleftrightarrow> (\<forall>b \<in> set agents. i \<notin> set (unread_ids team b (messages d)))" for i by simp
  obtain d2 where d2: "mark_read_batch repo ?ids d1 = (Inr (), d2)" "calm d2" "mail_ok (messages d2)"
    "\<forall>t a. unread_ids t a (messages d2) = filter (\<lambda>i. i \<notin> set ?ids) (unread_ids t a (messages d))"
    using mark_calm [OF d1(2), of ?ids] assms(2) d1(3) by auto
  show ?thesis
  proof (cases "?ids = []")
    case True
    then have "mark_all_unread_for_agents_read js repo team agents d = (Inr (length ?ids), d1)"
      by (simp only: mark_all_unread_for_agents_read_def d1(1) prod.case sum.case if_False simp_thms)
    moreover have "\<forall>b \<in> set agents. unread_ids team b (messages d) = []" using True by simp
    ultimately show ?thesis using d1(2,3) assms(2) len by (intro exI [of _ d1]) simp
  next
    case False
    then have "mark_all_unread_for_agents_read js repo team agents d = (Inr (length ?ids), d2)"
      using d1(1) d2(1) by (simp only: mark_all_unread_for_agents_read_def prod.case sum.case if_True simp_thms)
    then show ?thesis using d2 len ids by (intro exI [of _ d2]) auto
  qed
qed

lemma has_unread_calm:
  assumes "calm d"
  shows "\<exists>d'. has_unread repo team agent d = (Inr (unread_ids team agent (messages d) \<noteq> []), d') \<and> calm d' \<and> messages d' = messages d"
proof -
  have "list_ex (\<lambda>r. \<not> mr_read r) (sort_key mr_created_at (filter (\<lambda>r. mr_team_id r = team \<and> mr_to_agent_id r = agent) rows))
      \<longleftrightarrow> unread_ids team agent rows \<noteq> []" for rows
    by (auto simp: list_ex_iff unread_ids_def unread_rows_def unread_for_def filter_empty_conv simp flip: set_empty)
  then show ?thesis using history [OF assms, of team agent] by (auto simp: has_unread_def)
qed

end

text \<open>
  C19. The mailbox refines one queue of unread messages per agent of a team. While the connection
  does not fail, a write with a fresh id and a clock that has not gone back appends to the queue of
  the addressee; reading takes the whole queue in order and empties it, so that no message is read
  twice; marking removes exactly the given ids; cancelling the unread messages of some agents
  removes exactly their messages; and every operation keeps the invariant the next one needs.
\<close>

theorem mailbox_is_a_queue:
  assumes calm: "team_calm d" and ok: "mail_ok (tb_mailbox d)"
  shows "(\<forall>now i team to fr ty content summary files.
      i \<notin> mr_id ` set (tb_mailbox d) \<longrightarrow> (\<forall>r \<in> set (tb_mailbox d). mr_created_at r \<le> now) \<longrightarrow>
      (\<exists>m d'. write_with_files js (sqlite_team_repository js) now i team to fr ty content summary files d = (Inr m, d')
         \<and> team_calm d' \<and> mail_ok (tb_mailbox d') \<and> mm_id m = i \<and> mm_msg_type m = ty \<and> mm_content m = content \<and> \<not> mm_read m
         \<and> (\<forall>t a. unread_ids t a (tb_mailbox d') = unread_ids t a (tb_mailbox d) @ (if t = team \<and> a = to then [i] else []))))
  \<and> (\<exists>ms d'. read_unread js (sqlite_team_repository js) team agent d = (Inr ms, d') \<and> team_calm d' \<and> mail_ok (tb_mailbox d')
         \<and> map mm_id ms = unread_ids team agent (tb_mailbox d)
         \<and> (\<forall>t a. unread_ids t a (tb_mailbox d') = (if t = team \<and> a = agent then [] else unread_ids t a (tb_mailbox d))))
  \<and> (\<exists>d'. mark_read_batch (sqlite_team_repository js) ids d = (Inr (), d') \<and> team_calm d' \<and> mail_ok (tb_mailbox d')
         \<and> (\<forall>t a. unread_ids t a (tb_mailbox d') = filter (\<lambda>i. i \<notin> set ids) (unread_ids t a (tb_mailbox d))))
  \<and> (\<exists>d'. mark_all_unread_for_agents_read js (sqlite_team_repository js) team agents d =
           (Inr (sum_list (map (\<lambda>a. length (unread_ids team a (tb_mailbox d))) agents)), d') \<and> team_calm d' \<and> mail_ok (tb_mailbox d')
         \<and> (\<forall>t a. unread_ids t a (tb_mailbox d') =
              filter (\<lambda>i. \<forall>b \<in> set agents. i \<notin> set (unread_ids team b (tb_mailbox d))) (unread_ids t a (tb_mailbox d))))
  \<and> (\<exists>d'. has_unread (sqlite_team_repository js) team agent d = (Inr (unread_ids team agent (tb_mailbox d) \<noteq> []), d')
         \<and> team_calm d' \<and> tb_mailbox d' = tb_mailbox d)"
proof (intro conjI allI impI, goal_cases)
  case (1 now i team to fr ty content summary files)
  then show ?case by (rule sqlite_mail.write_calm [OF calm ok])
next
  case 2
  show ?case by (rule sqlite_mail.read_calm [OF calm ok])
next
  case 3
  show ?case by (rule sqlite_mail.mark_calm [OF calm ok])
next
  case 4
  show ?case by (rule sqlite_mail.mark_all_calm [OF calm ok])
next
  case 5
  show ?case by (rule sqlite_mail.has_unread_calm [OF calm])
qed

text \<open>A message that ann sends to bob, and bob reading his mail twice.\<close>

definition plain_json :: "unit serde_json" where
  "plain_json = \<lparr>js_list_to_string = concat, js_list_from_str = (\<lambda>s. Inr [s]), js_value_to_string = (\<lambda>_. []), js_value_from_str = (\<lambda>_. Inr ())\<rparr>"

theorem mailbox_is_a_queue_witness:
  "\<exists>m d'. write_with_files plain_json (sqlite_team_repository plain_json) 5 ''m1'' ''t'' ''bob'' ''ann'' MailMessage ''hi'' None None
       \<lparr>tb_teams = [], tb_mailbox = [], tb_tasks = [], tb_faults = []\<rparr> = (Inr m, d')
     \<and> unread_ids ''t'' ''bob'' (tb_mailbox d') = [''m1''] \<and> unread_ids ''t'' ''ann'' (tb_mailbox d') = []
     \<and> (\<exists>ms d''. read_unread plain_json (sqlite_team_repository plain_json) ''t'' ''bob'' d' = (Inr ms, d'')
          \<and> map mm_id ms = [''m1''] \<and> unread_ids ''t'' ''bob'' (tb_mailbox d'') = [])"
proof -
  let ?d = "\<lparr>tb_teams = [], tb_mailbox = [], tb_tasks = [], tb_faults = []\<rparr>"
  have calm: "team_calm ?d" and ok: "mail_ok (tb_mailbox ?d)" by (simp_all add: team_calm_def mail_ok_def)
  have nil: "unread_ids t a (tb_mailbox ?d) = []" for t a by (simp add: unread_ids_def unread_rows_def)
  obtain m d' where d': "write_with_files plain_json (sqlite_team_repository plain_json) 5 ''m1'' ''t'' ''bob'' ''ann'' MailMessage ''hi'' None None ?d = (Inr m, d')"
    "team_calm d'" "mail_ok (tb_mailbox d')" "\<And>t a. unread_ids t a (tb_mailbox d') = (if t = ''t'' \<and> a = ''bob'' then [''m1''] else [])"
    using conjunct1 [OF mailbox_is_a_queue [OF calm ok, of plain_json], rule_format, of "''m1''" 5] unfolding nil by force
  obtain ms d'' where "read_unread plain_json (sqlite_team_repository plain_json) ''t'' ''bob'' d' = (Inr ms, d'')"
    "map mm_id ms = [''m1'']" "unread_ids ''t'' ''bob'' (tb_mailbox d'') = []"
    using mailbox_is_a_queue [OF d'(2,3), of plain_json "''t''" "''bob''"] unfolding d'(4) by force
  then show ?thesis using d'(1) d'(4) by auto
qed

end
