(* ===== verification/RateLimit.thy ===== *)
theory RateLimit
  imports Prelude
begin

text \<open>
  The fixed-window rate limiter of \<open>aionui-auth/src/rate_limit.rs\<close> and the one-time QR login tokens
  of \<open>qr_token.rs\<close>.

  Counters are \<open>u32\<close> and the limiter's times \<open>u64\<close>, with wrap-around addition; the window is a number
  of milliseconds, cut to 64 bits where the code casts it. The token store's times are \<open>i64\<close>, here
  \<open>int\<close> with the saturating subtraction written out. A call takes the clock's reading as its
  argument \<open>now\<close>; one access to the concurrent map is one step.
\<close>

section \<open>The limiter\<close>

datatype auth_error =
    InvalidCredentials | WeakPassword string | InvalidUsername string | TokenExpired
  | TokenInvalid string | TokenBlacklisted | RateLimited | HashError string

record rate_limit_entry =
  re_count :: u32
  re_reset_time_ms :: u64

record rate_limiter =
  rl_entries :: "(string, rate_limit_entry) table"
  rl_max_requests :: u32
  rl_window :: nat

definition new_limiter :: "u32 \<Rightarrow> nat \<Rightarrow> rate_limiter" where
  "new_limiter max_requests window = \<lparr>rl_entries = [], rl_max_requests = max_requests, rl_window = window\<rparr>"

definition auth_limiter :: rate_limiter where
  "auth_limiter = new_limiter 5 (15 * 60 * 1000)"

definition api_limiter :: rate_limiter where
  "api_limiter = new_limiter 60 (60 * 1000)"

definition authenticated_action_limiter :: rate_limiter where
  "authenticated_action_limiter = new_limiter 20 (60 * 1000)"

definition check_limit :: "rate_limiter \<Rightarrow> u64 \<Rightarrow> string \<Rightarrow> auth_error + unit" where
  "check_limit l now key =
     (case map_of (rl_entries l) key of
        None \<Rightarrow> Inr ()
      | Some entry \<Rightarrow>
          if now < re_reset_time_ms entry \<and> re_count entry \<ge> rl_max_requests l then Inl RateLimited else Inr ())"

text \<open>The entry after \<open>or_insert\<close> and the start of a new window, shared by the two counting calls.\<close>

definition current_entry :: "rate_limiter \<Rightarrow> u64 \<Rightarrow> string \<Rightarrow> rate_limit_entry" where
  "current_entry l now key =
     (let window_ms = word_of_nat (rl_window l) :: u64;
          fresh = \<lparr>re_count = 0, re_reset_time_ms = now + window_ms\<rparr>;
          entry = entry_or key fresh (rl_entries l)
      in if now \<ge> re_reset_time_ms entry then fresh else entry)"

definition check_and_increment :: "rate_limiter \<Rightarrow> u64 \<Rightarrow> string \<Rightarrow> (auth_error + unit) \<times> rate_limiter" where
  "check_and_increment l now key =
     (let entry = current_entry l now key
      in if re_count entry \<ge> rl_max_requests l
         then (Inl RateLimited, l\<lparr>rl_entries := AList.update key entry (rl_entries l)\<rparr>)
         else (Inr (), l\<lparr>rl_entries := AList.update key (entry\<lparr>re_count := re_count entry + 1\<rparr>) (rl_entries l)\<rparr>))"

definition record_attempt :: "rate_limiter \<Rightarrow> u64 \<Rightarrow> string \<Rightarrow> rate_limiter" where
  "record_attempt l now key =
     (let entry = current_entry l now key
      in l\<lparr>rl_entries := AList.update key (entry\<lparr>re_count := re_count entry + 1\<rparr>) (rl_entries l)\<rparr>)"

definition cleanup_limiter :: "rate_limiter \<Rightarrow> u64 \<Rightarrow> rate_limiter" where
  "cleanup_limiter l now = l\<lparr>rl_entries := filter (\<lambda>(_, entry). now < re_reset_time_ms entry) (rl_entries l)\<rparr>"

definition entry_count :: "rate_limiter \<Rightarrow> nat" where
  "entry_count l = length (rl_entries l)"

text \<open>
  The middlewares. The next handler is a parameter that gives the response; \<open>success\<close> tells whether
  its status is a success. Between the check and the record of a login attempt the handler runs, so
  the two halves are separate steps when requests overlap.
\<close>

definition auth_rate_limit_before :: "rate_limiter \<Rightarrow> u64 \<Rightarrow> string \<Rightarrow> auth_error + unit" where
  "auth_rate_limit_before l now ip = check_limit l now ip"

definition auth_rate_limit_after :: "rate_limiter \<Rightarrow> u64 \<Rightarrow> string \<Rightarrow> bool \<Rightarrow> rate_limiter" where
  "auth_rate_limit_after l now ip success = (if \<not> success then record_attempt l now ip else l)"

definition api_rate_limit_middleware ::
  "rate_limiter \<Rightarrow> u64 \<Rightarrow> string \<Rightarrow> (unit \<Rightarrow> 'r) \<Rightarrow> (auth_error + 'r) \<times> rate_limiter" where
  "api_rate_limit_middleware l now ip run =
     (case check_and_increment l now ip of
        (Inl e, l') \<Rightarrow> (Inl e, l')
      | (Inr _, l') \<Rightarrow> (Inr (run ()), l'))"

definition action_key :: "string option \<Rightarrow> string \<Rightarrow> string" where
  "action_key user ip = (case user of Some u \<Rightarrow> ''user:'' @ u | None \<Rightarrow> ''ip:'' @ ip)"

definition authenticated_action_rate_limit_middleware ::
  "rate_limiter \<Rightarrow> u64 \<Rightarrow> string option \<Rightarrow> string \<Rightarrow> (unit \<Rightarrow> 'r) \<Rightarrow> (auth_error + 'r) \<times> rate_limiter" where
  "authenticated_action_rate_limit_middleware l now user ip run =
     (case check_and_increment l now (action_key user ip) of
        (Inl e, l') \<Rightarrow> (Inl e, l')
      | (Inr _, l') \<Rightarrow> (Inr (run ()), l'))"

section \<open>Counting accepted requests\<close>

definition since :: "nat \<Rightarrow> nat list \<Rightarrow> nat" where
  "since s ts = length (filter (\<lambda>a. s \<le> a) ts)"

definition within :: "nat \<Rightarrow> nat \<Rightarrow> nat list \<Rightarrow> nat" where
  "within t u ts = length (filter (\<lambda>a. t \<le> a \<and> a < u) ts)"

text \<open>
  The invariant of one key: \<open>ts\<close> are the times of its accepted requests, \<open>s\<close> is the start of its
  last window, and the entry, if there is one, counts the requests accepted since then.
\<close>

definition window_at :: "nat \<Rightarrow> nat \<Rightarrow> nat list \<Rightarrow> nat \<Rightarrow> bool" where
  "window_at w m ts s \<longleftrightarrow> since s ts \<le> m \<and> length (filter (\<lambda>a. s \<le> a + w \<and> a < s) ts) \<le> m \<and> (\<forall>a \<in> set ts. a < s + w)"

definition key_inv :: "nat \<Rightarrow> nat \<Rightarrow> nat list \<Rightarrow> nat \<Rightarrow> (nat \<times> nat) option \<Rightarrow> bool" where
  "key_inv w m ts T entry \<longleftrightarrow> (\<forall>a \<in> set ts. a \<le> T) \<and> (\<forall>t. within t (t + w) ts \<le> 2 * m) \<and>
     (case entry of
        None \<Rightarrow> ts = [] \<or> (\<exists>s. window_at w m ts s \<and> s + w \<le> T)
      | Some (c, reset) \<Rightarrow> \<exists>s. window_at w m ts s \<and> reset = s + w \<and> c = since s ts \<and> s \<le> T)"

lemma length_filter_le_filter: "(\<And>a. a \<in> set ts \<Longrightarrow> P a \<Longrightarrow> Q a) \<Longrightarrow> length (filter P ts) \<le> length (filter Q ts)"
  by (induction ts) (auto simp: le_SucI)

text \<open>An interval as long as the window meets at most the current window and the one before.\<close>

lemma within_le:
  assumes "window_at w m ts s" "\<forall>a \<in> set ts. a < s + w"
  shows "s < t + w \<Longrightarrow> within t u ts \<le> 2 * m"
proof -
  assume t: "s < t + w"
  have "within t u ts = length (filter (\<lambda>a. t \<le> a \<and> a < u \<and> a < s) ts) + length (filter (\<lambda>a. t \<le> a \<and> a < u \<and> s \<le> a) ts)"
    unfolding within_def by (induction ts) auto
  also have "\<dots> \<le> length (filter (\<lambda>a. s \<le> a + w \<and> a < s) ts) + since s ts"
    unfolding since_def using t by (intro add_mono length_filter_le_filter) auto
  finally show ?thesis using assms(1) by (simp add: window_at_def)
qed

lemma key_inv_later: "key_inv w m ts T e \<Longrightarrow> T \<le> T' \<Longrightarrow> key_inv w m ts T' e"
  by (fastforce simp: key_inv_def split: option.splits)

lemma key_inv_expired:
  assumes "key_inv w m ts T (Some (c, reset))" "reset \<le> T" shows "key_inv w m ts T None"
  using assms by (auto simp: key_inv_def)

text \<open>A request that finds no entry, or one whose window is over, starts a window.\<close>

lemma key_inv_open:
  assumes inv: "key_inv w m ts T None" and "T \<le> now" "0 < w"
  shows "key_inv w m ts now (Some (0, now + w))"
proof -
  have old: "\<forall>a \<in> set ts. a < now" "length (filter (\<lambda>a. now \<le> a + w \<and> a < now) ts) \<le> m"
  proof -
    have "(\<forall>a \<in> set ts. a < now) \<and> length (filter (\<lambda>a. now \<le> a + w \<and> a < now) ts) \<le> m"
    proof (cases "ts = []")
      case False
      then obtain s where s: "window_at w m ts s" "s + w \<le> T" using inv by (auto simp: key_inv_def)
      have "length (filter (\<lambda>a. now \<le> a + w \<and> a < now) ts) \<le> since s ts"
        unfolding since_def using s assms(2) by (intro length_filter_le_filter) auto
      then show ?thesis using s assms(2) by (auto simp: window_at_def)
    qed simp
    then show "\<forall>a \<in> set ts. a < now" "length (filter (\<lambda>a. now \<le> a + w \<and> a < now) ts) \<le> m" by auto
  qed
  then have "since now ts = 0" by (auto simp: since_def filter_empty_conv not_le)
  then have "window_at w m ts now" using old by (auto simp: window_at_def intro: less_trans)
  with inv \<open>since now ts = 0\<close> old show ?thesis by (auto simp: key_inv_def intro: less_imp_le)
qed

text \<open>A request accepted within a window.\<close>

lemma key_inv_accept:
  assumes inv: "key_inv w m ts now (Some (c, reset))" and "c < m" "now < reset"
  shows "key_inv w m (ts @ [now]) now (Some (c + 1, reset))"
proof -
  obtain s where s: "window_at w m ts s" "reset = s + w" "c = since s ts" "s \<le> now" using inv by (auto simp: key_inv_def)
  then have one: "since s (ts @ [now]) = c + 1" by (simp add: since_def)
  then have win: "window_at w m (ts @ [now]) s" using s assms(2,3) by (auto simp: window_at_def)
  have "within t (t + w) (ts @ [now]) \<le> 2 * m" for t
  proof (cases "t \<le> now \<and> now < t + w")
    case True
    then show ?thesis using within_le [OF win, of t "t + w"] win s(4) by (auto simp: window_at_def)
  next
    case False
    then show ?thesis using inv by (auto simp: key_inv_def within_def)
  qed
  then show ?thesis using inv win one s(2,4) by (auto simp: key_inv_def)
qed

section \<open>Histories of a limiter\<close>

definition entry_view :: "rate_limit_entry \<Rightarrow> nat \<times> nat" where
  "entry_view e = (unat (re_count e), unat (re_reset_time_ms e))"

definition accepted_times :: "string \<Rightarrow> (string \<times> u64) list \<Rightarrow> nat list" where
  "accepted_times key log = map (unat \<circ> snd) (filter (\<lambda>p. fst p = key) log)"

definition limiter_inv :: "u32 \<Rightarrow> nat \<Rightarrow> rate_limiter \<Rightarrow> (string \<times> u64) list \<Rightarrow> u64 \<Rightarrow> bool" where
  "limiter_inv m w l log T \<longleftrightarrow> rl_max_requests l = m \<and> rl_window l = w \<and> distinct (map fst (rl_entries l)) \<and>
     (\<forall>key. key_inv w (unat m) (accepted_times key log) (unat T) (map_option entry_view (map_of (rl_entries l) key)))"

text \<open>
  A history of \<open>check_and_increment\<close> and cleanups on a clock that does not go back: the limiter, the
  accepted requests in order, and the time of the last call.
\<close>

inductive limiter_run :: "u32 \<Rightarrow> nat \<Rightarrow> rate_limiter \<Rightarrow> (string \<times> u64) list \<Rightarrow> u64 \<Rightarrow> bool" for m w where
  start: "limiter_run m w (new_limiter m w) [] 0"
| accept: "\<lbrakk>limiter_run m w l log T; T \<le> now; unat now + w < 2 ^ 64; check_and_increment l now key = (Inr (), l')\<rbrakk>
    \<Longrightarrow> limiter_run m w l' (log @ [(key, now)]) now"
| refuse: "\<lbrakk>limiter_run m w l log T; T \<le> now; unat now + w < 2 ^ 64; check_and_increment l now key = (Inl e, l')\<rbrakk>
    \<Longrightarrow> limiter_run m w l' log now"
| cleanup: "\<lbrakk>limiter_run m w l log T; T \<le> now\<rbrakk> \<Longrightarrow> limiter_run m w (cleanup_limiter l now) log now"

lemma unat_deadline: "unat (now :: u64) + w < 2 ^ 64 \<Longrightarrow> unat (now + word_of_nat w) = unat now + w"
  by (simp add: unat_word_ariths unat_of_nat)

lemma current_entry_inv:
  assumes inv: "limiter_inv m w l log T" and T: "T \<le> now" and now: "unat now + w < 2 ^ 64" and w: "0 < w"
  shows "key_inv w (unat m) (accepted_times key log) (unat now) (Some (entry_view (current_entry l now key)))
    \<and> unat now < unat (re_reset_time_ms (current_entry l now key))"
proof -
  let ?ts = "accepted_times key log" and ?fresh = "\<lparr>re_count = 0, re_reset_time_ms = now + word_of_nat w\<rparr>"
  have T': "unat T \<le> unat now" using T by (simp add: word_le_nat_alt)
  have fresh: "entry_view ?fresh = (0, unat now + w)" using unat_deadline [OF now] by (simp add: entry_view_def)
  have k: "key_inv w (unat m) ?ts (unat now) (map_option entry_view (map_of (rl_entries l) key))"
    using inv key_inv_later [OF _ T'] by (simp add: limiter_inv_def)
  have rl: "rl_window l = w" using inv by (simp add: limiter_inv_def)
  show ?thesis
  proof (cases "\<exists>e. map_of (rl_entries l) key = Some e \<and> now < re_reset_time_ms e")
    case True
    then obtain e where e: "map_of (rl_entries l) key = Some e" "now < re_reset_time_ms e" by blast
    then have "current_entry l now key = e" by (simp add: current_entry_def entry_or_def Let_def not_le)
    then show ?thesis using e k by (simp add: word_less_nat_alt)
  next
    case False
    then have cur: "current_entry l now key = ?fresh"
      by (auto simp: current_entry_def entry_or_def Let_def rl not_less split: option.split)
    have "key_inv w (unat m) ?ts (unat now) None"
    proof (cases "map_of (rl_entries l) key")
      case (Some e)
      then show ?thesis using False k key_inv_expired [of w "unat m" ?ts "unat now" "unat (re_count e)" "unat (re_reset_time_ms e)"]
        by (simp add: entry_view_def not_less word_le_nat_alt)
    qed (use k in simp)
    then show ?thesis using key_inv_open [of w "unat m" ?ts "unat now" "unat now"] w fresh unat_deadline [OF now] by (simp add: cur)
  qed
qed

lemma limiter_inv_other:
  assumes inv: "limiter_inv m w l log T" and T: "T \<le> now"
    and k: "key_inv w (unat m) (accepted_times key log') (unat now) (Some (entry_view e))"
    and log': "\<And>k. k \<noteq> key \<Longrightarrow> accepted_times k log' = accepted_times k log"
  shows "limiter_inv m w (l\<lparr>rl_entries := AList.update key e (rl_entries l)\<rparr>) log' now"
proof -
  have "key_inv w (unat m) (accepted_times k' log') (unat now)
      (map_option entry_view (map_of (AList.update key e (rl_entries l)) k'))" for k'
  proof (cases "k' = key")
    case True
    then show ?thesis using k by (simp add: update_conv)
  next
    case False
    then show ?thesis using inv T log' [OF False] key_inv_later [of w "unat m" "accepted_times k' log" "unat T" _ "unat now"]
      by (simp add: limiter_inv_def update_conv word_le_nat_alt)
  qed
  then show ?thesis using inv by (simp add: limiter_inv_def distinct_update)
qed

lemma retain_lookup:
  "distinct (map fst xs) \<Longrightarrow> map_of (filter (\<lambda>(_, e). P e) xs) k = (case map_of xs k of None \<Rightarrow> None | Some e \<Rightarrow> if P e then Some e else None)"
proof (induction xs)
  case (Cons x xs)
  then have "fst x \<notin> dom (map_of xs)" by (simp add: dom_map_of_conv_image_fst)
  with Cons show ?case by (cases x) (auto split: option.splits)
qed simp

lemma limiter_run_inv:
  assumes "limiter_run m w l log T" "0 < w" shows "limiter_inv m w l log T"
  using assms(1)
proof induction
  case start
  then show ?case by (simp add: limiter_inv_def new_limiter_def key_inv_def accepted_times_def within_def)
next
  case (accept l log T now key l')
  let ?e = "current_entry l now key"
  note cur = current_entry_inv [OF accept.IH accept.hyps(2,3) assms(2), of key]
  have m: "rl_max_requests l = m" using accept.IH by (simp add: limiter_inv_def)
  from accept.hyps(4) have lt: "re_count ?e < m" and l': "l' = l\<lparr>rl_entries := AList.update key (?e\<lparr>re_count := re_count ?e + 1\<rparr>) (rl_entries l)\<rparr>"
    by (auto simp: check_and_increment_def Let_def m split: if_splits)
  have "unat m < 2 ^ LENGTH(32)" by (rule unsigned_less)
  then have c: "unat (re_count ?e + 1) = unat (re_count ?e) + 1"
    using lt unat_add_lem [of "re_count ?e" 1] by (simp add: word_less_nat_alt)
  have "key_inv w (unat m) (accepted_times key log @ [unat now]) (unat now) (Some (unat (re_count ?e) + 1, unat (re_reset_time_ms ?e)))"
    using key_inv_accept [of w "unat m" "accepted_times key log" "unat now" "unat (re_count ?e)"] cur lt
    by (simp add: entry_view_def word_less_nat_alt)
  then show ?case unfolding l' by (intro limiter_inv_other [OF accept.IH accept.hyps(2)]) (simp_all add: entry_view_def accepted_times_def c)
next
  case (refuse l log T now key e l')
  from refuse.hyps(4) have "l' = l\<lparr>rl_entries := AList.update key (current_entry l now key) (rl_entries l)\<rparr>"
    by (auto simp: check_and_increment_def Let_def split: if_splits)
  then show ?case using limiter_inv_other [OF refuse.IH refuse.hyps(2)] current_entry_inv [OF refuse.IH refuse.hyps(2,3) assms(2), of key] by blast
next
  case (cleanup l log T now)
  have T': "unat T \<le> unat now" using cleanup.hyps(2) by (simp add: word_le_nat_alt)
  have d: "distinct (map fst (rl_entries l))" using cleanup.IH by (simp add: limiter_inv_def)
  have "key_inv w (unat m) (accepted_times key log) (unat now)
      (map_option entry_view (map_of (filter (\<lambda>(_, entry). now < re_reset_time_ms entry) (rl_entries l)) key))" for key
  proof -
    have k: "key_inv w (unat m) (accepted_times key log) (unat now) (map_option entry_view (map_of (rl_entries l) key))"
      using cleanup.IH key_inv_later [OF _ T'] by (simp add: limiter_inv_def)
    have "map_of (filter (\<lambda>(_, entry). now < re_reset_time_ms entry) (rl_entries l)) key
      = (case map_of (rl_entries l) key of None \<Rightarrow> None | Some e \<Rightarrow> if now < re_reset_time_ms e then Some e else None)"
      by (rule retain_lookup [OF d])
    then show ?thesis using k key_inv_expired [of w "unat m" "accepted_times key log" "unat now"]
      by (auto simp: entry_view_def not_less word_le_nat_alt split: option.splits)
  qed
  then show ?case using cleanup.IH by (simp add: limiter_inv_def cleanup_limiter_def distinct_map_filter)
qed

text \<open>
  C20. Over any history on a clock that does not go back, no interval as long as the window contains
  more than twice the limit of accepted requests of one key, and a request is refused only when at
  least the limit of its key's requests were accepted within the window before it. The counter of
  an entry never exceeds the limit, so its 32 bits do not overflow.
\<close>

theorem limiter_bounds_requests:
  assumes run: "limiter_run m w l log T" and w: "0 < w"
  shows "(\<forall>key t. within t (t + w) (accepted_times key log) \<le> 2 * unat m)
    \<and> (\<forall>key now. T \<le> now \<longrightarrow> unat now + w < 2 ^ 64 \<longrightarrow>
         length (filter (\<lambda>a. unat now < a + w) (accepted_times key log)) < unat m \<longrightarrow>
         fst (check_and_increment l now key) = Inr ())
    \<and> (\<forall>key entry. map_of (rl_entries l) key = Some entry \<longrightarrow> re_count entry \<le> m)"
proof (intro conjI allI impI)
  note inv = limiter_run_inv [OF run w]
  have k: "key_inv w (unat m) (accepted_times key log) (unat T) (map_option entry_view (map_of (rl_entries l) key))" for key
    using inv by (simp add: limiter_inv_def)
  have m: "rl_max_requests l = m" using inv by (simp add: limiter_inv_def)
  show "within t (t + w) (accepted_times key log) \<le> 2 * unat m" for key t using k by (simp add: key_inv_def)
  show "re_count entry \<le> m" if "map_of (rl_entries l) key = Some entry" for key entry
    using k [of key] that by (auto simp: key_inv_def entry_view_def window_at_def word_le_nat_alt)
  fix key now assume now: "T \<le> now" "unat now + w < 2 ^ 64"
    and few: "length (filter (\<lambda>a. unat now < a + w) (accepted_times key log)) < unat m"
  let ?e = "current_entry l now key"
  obtain s where s: "unat (re_reset_time_ms ?e) = s + w" "unat (re_count ?e) = since s (accepted_times key log)"
    "unat now < unat (re_reset_time_ms ?e)"
    using current_entry_inv [OF inv now w, of key] by (auto simp: key_inv_def entry_view_def)
  have "since s (accepted_times key log) \<le> length (filter (\<lambda>a. unat now < a + w) (accepted_times key log))"
    unfolding since_def using s by (intro length_filter_le_filter) auto
  then have "re_count ?e < m" using few s(2) by (simp add: word_less_nat_alt)
  then show "fst (check_and_increment l now key) = Inr ()" by (simp add: check_and_increment_def Let_def m)
qed

text \<open>Two requests a minute: the second is accepted, the third refused until the window is over.\<close>

definition two_requests :: rate_limiter where
  "two_requests = snd (check_and_increment (snd (check_and_increment (new_limiter 2 60000) 1000 ''ip'')) 1500 ''ip'')"

lemmas limiter_call_defs = check_and_increment_def current_entry_def entry_or_def new_limiter_def Let_def

theorem limiter_bounds_requests_witness:
  "limiter_run 2 60000 two_requests [(''ip'', 1000), (''ip'', 1500)] 1500
   \<and> within 1000 (1000 + 60000) (accepted_times ''ip'' [(''ip'', 1000), (''ip'', 1500)]) \<le> 2 * unat (2 :: u32)
   \<and> fst (check_and_increment two_requests 60999 ''ip'') = Inl RateLimited
   \<and> fst (check_and_increment two_requests 61000 ''ip'') = Inr ()
   \<and> fst (check_and_increment two_requests 1600 ''other'') = Inr ()"
proof -
  let ?l1 = "snd (check_and_increment (new_limiter 2 60000) 1000 ''ip'')"
  have a1: "check_and_increment (new_limiter 2 60000) 1000 ''ip'' = (Inr (), ?l1)"
    by (simp add: limiter_call_defs)
  have a2: "check_and_increment ?l1 1500 ''ip'' = (Inr (), two_requests)"
    by (simp add: limiter_call_defs two_requests_def word_le_nat_alt)
  have r1: "limiter_run 2 60000 ?l1 ([] @ [(''ip'', 1000)]) 1000"
    by (rule limiter_run.accept [OF limiter_run.start _ _ a1]) simp_all
  have "limiter_run 2 60000 two_requests (([] @ [(''ip'', 1000)]) @ [(''ip'', 1500)]) 1500"
    by (rule limiter_run.accept [OF r1 _ _ a2]) simp_all
  then have run: "limiter_run 2 60000 two_requests [(''ip'', 1000), (''ip'', 1500)] 1500" by simp
  note ok = limiter_bounds_requests [OF run]
  have "fst (check_and_increment two_requests 1600 ''other'') = Inr ()"
    using ok [THEN conjunct2, THEN conjunct1, rule_format, of 1600 "''other''"] by (simp add: accepted_times_def)
  moreover have "within 1000 (1000 + 60000) (accepted_times ''ip'' [(''ip'', 1000), (''ip'', 1500)]) \<le> 2 * unat (2 :: u32)"
    by (rule ok [THEN conjunct1, rule_format]) simp
  moreover have "fst (check_and_increment two_requests 60999 ''ip'') = Inl RateLimited"
    "fst (check_and_increment two_requests 61000 ''ip'') = Inr ()" by (simp_all add: limiter_call_defs two_requests_def word_le_nat_alt)
  ultimately show ?thesis using run by simp
qed

section \<open>QR login tokens\<close>

definition QR_TOKEN_TTL_MS :: int where
  "QR_TOKEN_TTL_MS = 5 * 60 * 1000"

record qr_token_data =
  qt_created_at_ms :: int
  qt_used :: bool

type_synonym qr_token_store = "(string, qr_token_data) table"

text \<open>\<open>saturating_sub\<close> of two \<open>i64\<close> values.\<close>

definition saturating_sub :: "int \<Rightarrow> int \<Rightarrow> int" where
  "saturating_sub a b = max (- (2 ^ 63)) (min (2 ^ 63 - 1) (a - b))"

definition hex_digit :: "nat \<Rightarrow> char" where
  "hex_digit n = ''0123456789abcdef'' ! n"

definition hex_token :: "nat list \<Rightarrow> string" where
  "hex_token bytes = concat (map (\<lambda>b. [hex_digit (b div 16), hex_digit (b mod 16)]) bytes)"

text \<open>The random bytes are an argument.\<close>

definition generate_with_expiry :: "int \<Rightarrow> nat list \<Rightarrow> qr_token_store \<Rightarrow> (string \<times> int) \<times> qr_token_store" where
  "generate_with_expiry now bytes tokens =
     (let token = hex_token bytes
      in ((token, now + QR_TOKEN_TTL_MS), AList.update token \<lparr>qt_created_at_ms = now, qt_used = False\<rparr> tokens))"

definition generate_token :: "int \<Rightarrow> nat list \<Rightarrow> qr_token_store \<Rightarrow> string \<times> qr_token_store" where
  "generate_token now bytes tokens = (case generate_with_expiry now bytes tokens of ((token, _), tokens') \<Rightarrow> (token, tokens'))"

definition validate_and_consume :: "int \<Rightarrow> string \<Rightarrow> qr_token_store \<Rightarrow> (auth_error + unit) \<times> qr_token_store" where
  "validate_and_consume now token tokens =
     (case map_of tokens token of
        None \<Rightarrow> (Inl (TokenInvalid ''Invalid QR token''), tokens)
      | Some entry \<Rightarrow>
          if qt_used entry then (Inl (TokenInvalid ''QR token already used''), tokens)
          else if saturating_sub now (qt_created_at_ms entry) > QR_TOKEN_TTL_MS
          then (Inl (TokenInvalid ''QR token expired''), tokens)
          else (Inr (), AList.update token (entry\<lparr>qt_used := True\<rparr>) tokens))"

definition cleanup_tokens :: "int \<Rightarrow> qr_token_store \<Rightarrow> qr_token_store" where
  "cleanup_tokens now tokens = filter (\<lambda>(_, d). saturating_sub now (qt_created_at_ms d) \<le> QR_TOKEN_TTL_MS) tokens"

definition token_count :: "qr_token_store \<Rightarrow> nat" where
  "token_count tokens = length tokens"

text \<open>
  Histories of a store: the tokens issued with their times, and the tokens that logged someone in,
  in order. The generator never returns a token twice.
\<close>

inductive qr_run :: "qr_token_store \<Rightarrow> (string \<times> int) list \<Rightarrow> (string \<times> int) list \<Rightarrow> bool" where
  start: "qr_run [] [] []"
| issue: "\<lbrakk>qr_run tokens issued logins; generate_with_expiry now bytes tokens = ((token, expiry), tokens');
    token \<notin> fst ` set issued\<rbrakk> \<Longrightarrow> qr_run tokens' (issued @ [(token, now)]) logins"
| login: "\<lbrakk>qr_run tokens issued logins; validate_and_consume now token tokens = (Inr (), tokens')\<rbrakk>
    \<Longrightarrow> qr_run tokens' issued (logins @ [(token, now)])"
| failed: "\<lbrakk>qr_run tokens issued logins; validate_and_consume now token tokens = (Inl e, tokens')\<rbrakk>
    \<Longrightarrow> qr_run tokens' issued logins"
| cleanup: "qr_run tokens issued logins \<Longrightarrow> qr_run (cleanup_tokens now tokens) issued logins"

definition qr_inv :: "qr_token_store \<Rightarrow> (string \<times> int) list \<Rightarrow> (string \<times> int) list \<Rightarrow> bool" where
  "qr_inv tokens issued logins \<longleftrightarrow> distinct (map fst tokens) \<and> distinct (map fst issued) \<and> distinct (map fst logins)
     \<and> fst ` set logins \<subseteq> fst ` set issued
     \<and> (\<forall>token d. map_of tokens token = Some d \<longrightarrow> (token, qt_created_at_ms d) \<in> set issued
          \<and> (qt_used d \<longleftrightarrow> token \<in> fst ` set logins))
     \<and> (\<forall>(token, at) \<in> set logins. \<exists>created. (token, created) \<in> set issued \<and> saturating_sub at created \<le> QR_TOKEN_TTL_MS)"

lemma qr_run_inv: "qr_run tokens issued logins \<Longrightarrow> qr_inv tokens issued logins"
proof (induction rule: qr_run.induct)
  case (issue tokens issued logins now bytes token expiry tokens')
  then have t: "token = hex_token bytes" "tokens' = AList.update token \<lparr>qt_created_at_ms = now, qt_used = False\<rparr> tokens"
    by (auto simp: generate_with_expiry_def Let_def)
  have "token \<notin> fst ` set logins" using issue.IH issue.hyps(3) by (auto simp: qr_inv_def)
  then show ?case using issue.IH issue.hyps(3) unfolding t(2)
    by (auto simp: qr_inv_def distinct_update update_conv)
next
  case (login tokens issued logins now token tokens')
  then obtain d where d: "map_of tokens token = Some d" "\<not> qt_used d" "saturating_sub now (qt_created_at_ms d) \<le> QR_TOKEN_TTL_MS"
    "tokens' = AList.update token (d\<lparr>qt_used := True\<rparr>) tokens"
    by (auto simp: validate_and_consume_def split: option.splits if_splits)
  then have "(token, qt_created_at_ms d) \<in> set issued" "token \<notin> fst ` set logins" using login.IH by (auto simp: qr_inv_def)
  moreover from this have "token \<in> fst ` set issued" by force
  ultimately show ?case using login.IH d(1,3) unfolding d(4)
    by (auto simp: qr_inv_def distinct_update update_conv)
next
  case (failed tokens issued logins now token e tokens')
  then have "tokens' = tokens" by (auto simp: validate_and_consume_def split: option.splits if_splits)
  then show ?case using failed.IH by simp
next
  case (cleanup tokens issued logins now)
  then have "distinct (map fst tokens)" by (simp add: qr_inv_def)
  from retain_lookup [OF this] cleanup.IH show ?case
    by (auto simp: qr_inv_def cleanup_tokens_def distinct_map_filter split: option.splits if_splits)
qed (simp add: qr_inv_def)

text \<open>
  C21. Over any history of a token store whose generator never repeats a token, a token logs in at
  most once, only after it was issued and no more than five minutes after its creation; and an
  unused token that was just issued can be used.
\<close>

theorem qr_token_used_once:
  assumes run: "qr_run tokens issued logins"
  shows "distinct (map fst logins)
    \<and> (\<forall>(token, at) \<in> set logins. \<exists>created. (token, created) \<in> set issued \<and> saturating_sub at created \<le> QR_TOKEN_TTL_MS)
    \<and> (\<forall>token at now. (token, at) \<in> set logins \<longrightarrow> fst (validate_and_consume now token tokens) \<noteq> Inr ())
    \<and> (\<forall>now bytes at. at - now \<le> QR_TOKEN_TTL_MS \<longrightarrow>
         fst (validate_and_consume at (fst (fst (generate_with_expiry now bytes tokens))) (snd (generate_with_expiry now bytes tokens))) = Inr ())"
proof -
  have inv: "qr_inv tokens issued logins" using qr_run_inv [OF run] .
  have "fst (validate_and_consume now token tokens) \<noteq> Inr ()" if "(token, at) \<in> set logins" for token at now
  proof (cases "map_of tokens token")
    case (Some d)
    then have "qt_used d" using inv that by (force simp: qr_inv_def)
    then show ?thesis using Some by (simp add: validate_and_consume_def)
  qed (simp add: validate_and_consume_def)
  moreover have "fst (validate_and_consume at (fst (fst (generate_with_expiry now bytes tokens))) (snd (generate_with_expiry now bytes tokens))) = Inr ()"
    if "at - now \<le> QR_TOKEN_TTL_MS" for now bytes at
    using that by (simp add: validate_and_consume_def generate_with_expiry_def Let_def update_conv saturating_sub_def QR_TOKEN_TTL_MS_def)
  ultimately show ?thesis using inv by (auto simp: qr_inv_def)
qed

theorem qr_token_used_once_witness:
  "\<exists>tokens. qr_run tokens [(''2a'', 0)] [(''2a'', 300000)]
   \<and> fst (validate_and_consume 300000 ''2a'' tokens) = Inl (TokenInvalid ''QR token already used'')
   \<and> fst (validate_and_consume 300000 ''2a'' tokens) \<noteq> Inr ()"
proof -
  let ?t1 = "snd (generate_with_expiry 0 [42] [])"
  have g: "generate_with_expiry 0 [42] [] = ((''2a'', 300000), ?t1)" by code_simp
  have r1: "qr_run ?t1 ([] @ [(''2a'', 0)]) []" by (rule qr_run.issue [OF qr_run.start g]) simp
  have c: "validate_and_consume 300000 ''2a'' ?t1 = (Inr (), snd (validate_and_consume 300000 ''2a'' ?t1))" by code_simp
  let ?t2 = "snd (validate_and_consume 300000 ''2a'' ?t1)"
  have run: "qr_run ?t2 [(''2a'', 0)] [(''2a'', 300000)]" using qr_run.login [OF r1 c] by simp
  have "fst (validate_and_consume 300000 ''2a'' ?t2) = Inl (TokenInvalid ''QR token already used'')" by code_simp
  moreover have "fst (validate_and_consume 300000 ''2a'' ?t2) \<noteq> Inr ()"
    using qr_token_used_once [OF run] by simp
  ultimately show ?thesis using run by blast
qed

end
