(* ===== verification/ChannelRepository.thy ===== *)
theory ChannelRepository
  imports RunRepository
begin

text \<open>
  The channel repository: the trait \<open>IChannelRepository\<close> of \<open>aionui-db/src/repository/channel.rs\<close> as a
  record of functions, and its SQLite implementation \<open>sqlite_channel.rs\<close> over the tables
  \<open>assistant_plugins\<close>, \<open>assistant_users\<close>, \<open>assistant_sessions\<close> and \<open>assistant_pairing_codes\<close>.

  A query is a function on the database; \<open>cd_faults\<close> lists, query by query, whether the connection
  fails, and a failed query changes no table. Primary keys, the \<open>UNIQUE\<close> pair, the \<open>CHECK\<close> on the
  pairing status, the two foreign keys and the cascade of a deleted user are those of the migrations
  \<open>001_initial_schema.sql\<close> and \<open>002_legacy_data_normalize.sql\<close>; the connection is opened with
  \<open>foreign_keys(true)\<close>. \<open>ch_conversations\<close> holds the ids of the conversations table, which this
  repository never writes. Rows that tie in an \<open>ORDER BY\<close> keep the order of the table.
  A function that reads the clock takes the reading as its argument \<open>now\<close>.
\<close>

section \<open>Rows\<close>

record channel_plugin_row =
  pl_id :: id
  pl_type :: string
  pl_name :: string
  pl_enabled :: bool
  pl_config :: string
  pl_status :: "string option"
  pl_last_connected :: "timestamp_ms option"
  pl_created_at :: timestamp_ms
  pl_updated_at :: timestamp_ms

record assistant_user_row =
  au_id :: id
  au_platform_user_id :: string
  au_platform_type :: string
  au_display_name :: "string option"
  au_authorized_at :: timestamp_ms
  au_last_active :: "timestamp_ms option"
  au_session_id :: "string option"

record assistant_session_row =
  as_id :: id
  as_user_id :: id
  as_agent_type :: string
  as_conversation_id :: "id option"
  as_workspace :: "string option"
  as_chat_id :: "string option"
  as_created_at :: timestamp_ms
  as_last_activity :: timestamp_ms

record pairing_code_row =
  pc_code :: string
  pc_platform_user_id :: string
  pc_platform_type :: string
  pc_display_name :: "string option"
  pc_requested_at :: timestamp_ms
  pc_expires_at :: timestamp_ms
  pc_status :: string

record update_plugin_status_params =
  ps_status :: "string option"
  ps_last_connected :: "timestamp_ms option"
  ps_enabled :: "bool option"

section \<open>The trait\<close>

record 'd channel_repository =
  cr_get_all_plugins :: "'d \<Rightarrow> (db_error + channel_plugin_row list) \<times> 'd"
  cr_get_plugin :: "id \<Rightarrow> 'd \<Rightarrow> (db_error + channel_plugin_row option) \<times> 'd"
  cr_upsert_plugin :: "channel_plugin_row \<Rightarrow> 'd \<Rightarrow> (db_error + unit) \<times> 'd"
  cr_update_plugin_status :: "timestamp_ms \<Rightarrow> id \<Rightarrow> update_plugin_status_params \<Rightarrow> 'd \<Rightarrow> (db_error + unit) \<times> 'd"
  cr_delete_plugin :: "id \<Rightarrow> 'd \<Rightarrow> (db_error + unit) \<times> 'd"
  cr_get_all_users :: "'d \<Rightarrow> (db_error + assistant_user_row list) \<times> 'd"
  cr_get_user_by_platform :: "string \<Rightarrow> string \<Rightarrow> 'd \<Rightarrow> (db_error + assistant_user_row option) \<times> 'd"
  cr_create_user :: "assistant_user_row \<Rightarrow> 'd \<Rightarrow> (db_error + unit) \<times> 'd"
  cr_update_user_last_active :: "id \<Rightarrow> timestamp_ms \<Rightarrow> 'd \<Rightarrow> (db_error + unit) \<times> 'd"
  cr_delete_user :: "id \<Rightarrow> 'd \<Rightarrow> (db_error + unit) \<times> 'd"
  cr_get_all_sessions :: "'d \<Rightarrow> (db_error + assistant_session_row list) \<times> 'd"
  cr_get_session :: "id \<Rightarrow> 'd \<Rightarrow> (db_error + assistant_session_row option) \<times> 'd"
  cr_get_or_create_session ::
    "timestamp_ms \<Rightarrow> id \<Rightarrow> string \<Rightarrow> assistant_session_row \<Rightarrow> 'd \<Rightarrow> (db_error + assistant_session_row) \<times> 'd"
  cr_update_session_activity :: "id \<Rightarrow> timestamp_ms \<Rightarrow> 'd \<Rightarrow> (db_error + unit) \<times> 'd"
  cr_update_session_conversation :: "timestamp_ms \<Rightarrow> id \<Rightarrow> id \<Rightarrow> 'd \<Rightarrow> (db_error + unit) \<times> 'd"
  cr_update_session_agent_type :: "timestamp_ms \<Rightarrow> id \<Rightarrow> string \<Rightarrow> 'd \<Rightarrow> (db_error + unit) \<times> 'd"
  cr_delete_sessions_by_user :: "id \<Rightarrow> 'd \<Rightarrow> (db_error + unit) \<times> 'd"
  cr_delete_session_by_user_chat :: "id \<Rightarrow> string \<Rightarrow> 'd \<Rightarrow> (db_error + unit) \<times> 'd"
  cr_create_pairing :: "pairing_code_row \<Rightarrow> 'd \<Rightarrow> (db_error + unit) \<times> 'd"
  cr_get_pending_pairings :: "'d \<Rightarrow> (db_error + pairing_code_row list) \<times> 'd"
  cr_get_pairing_by_code :: "string \<Rightarrow> 'd \<Rightarrow> (db_error + pairing_code_row option) \<times> 'd"
  cr_update_pairing_status :: "string \<Rightarrow> string \<Rightarrow> 'd \<Rightarrow> (db_error + unit) \<times> 'd"
  cr_cleanup_expired_pairings :: "timestamp_ms \<Rightarrow> 'd \<Rightarrow> (db_error + nat) \<times> 'd"

section \<open>SQLite\<close>

record channel_tables =
  ch_plugins :: "channel_plugin_row list"
  ch_users :: "assistant_user_row list"
  ch_sessions :: "assistant_session_row list"
  ch_pairings :: "pairing_code_row list"
  ch_conversations :: "id list"

record channel_db =
  cd_tables :: channel_tables
  cd_faults :: "bool list"

definition channel_pool ::
  "(channel_tables \<Rightarrow> (db_error + 'a) \<times> channel_tables) \<Rightarrow> channel_db \<Rightarrow> (db_error + 'a) \<times> channel_db" where
  "channel_pool q d =
     (if case cd_faults d of [] \<Rightarrow> False | f # _ \<Rightarrow> f
      then (Inl (DbQuery ''database error''), d\<lparr>cd_faults := tl (cd_faults d)\<rparr>)
      else (fst (q (cd_tables d)), \<lparr>cd_tables = snd (q (cd_tables d)), cd_faults = tl (cd_faults d)\<rparr>))"

text \<open>The text of an argument between single quotes, as the messages have it.\<close>

definition quoted :: "string \<Rightarrow> string" where
  "quoted s = [CHR 0x27] @ s @ [CHR 0x27]"

text \<open>An \<open>UPDATE ... WHERE key = ?\<close> on the rows of one table.\<close>

definition update_where :: "('r \<Rightarrow> 'k) \<Rightarrow> 'k \<Rightarrow> ('r \<Rightarrow> 'r) \<Rightarrow> 'r list \<Rightarrow> 'r list" where
  "update_where key k f rs = map (\<lambda>r. if key r = k then f r else r) rs"

subsection \<open>Plugins\<close>

definition sqlite_get_all_plugins :: "channel_db \<Rightarrow> (db_error + channel_plugin_row list) \<times> channel_db" where
  "sqlite_get_all_plugins = channel_pool (\<lambda>d. (Inr (sort_key pl_created_at (ch_plugins d)), d))"

definition sqlite_get_plugin :: "id \<Rightarrow> channel_db \<Rightarrow> (db_error + channel_plugin_row option) \<times> channel_db" where
  "sqlite_get_plugin i = channel_pool (\<lambda>d. (Inr (List.find (\<lambda>r. pl_id r = i) (ch_plugins d)), d))"

text \<open>\<open>ON CONFLICT(id) DO UPDATE\<close> sets every column but the key and \<open>created_at\<close>.\<close>

definition sqlite_upsert_plugin :: "channel_plugin_row \<Rightarrow> channel_db \<Rightarrow> (db_error + unit) \<times> channel_db" where
  "sqlite_upsert_plugin row = channel_pool (\<lambda>d.
     (Inr (), d\<lparr>ch_plugins :=
        (if pl_id row \<in> pl_id ` set (ch_plugins d)
         then update_where pl_id (pl_id row) (\<lambda>r. row\<lparr>pl_created_at := pl_created_at r\<rparr>) (ch_plugins d)
         else ch_plugins d @ [row])\<rparr>))"

definition plugin_status_row :: "timestamp_ms \<Rightarrow> update_plugin_status_params \<Rightarrow> channel_plugin_row \<Rightarrow> channel_plugin_row" where
  "plugin_status_row now p r =
     r\<lparr>pl_status := (if ps_status p = None then pl_status r else ps_status p),
       pl_last_connected := (if ps_last_connected p = None then pl_last_connected r else ps_last_connected p),
       pl_enabled := (case ps_enabled p of None \<Rightarrow> pl_enabled r | Some b \<Rightarrow> b),
       pl_updated_at := now\<rparr>"

definition sqlite_update_plugin_status ::
  "timestamp_ms \<Rightarrow> id \<Rightarrow> update_plugin_status_params \<Rightarrow> channel_db \<Rightarrow> (db_error + unit) \<times> channel_db" where
  "sqlite_update_plugin_status now i p d =
     (if ps_status p = None \<and> ps_last_connected p = None \<and> ps_enabled p = None then (Inr (), d)
      else channel_pool (\<lambda>d.
        if i \<notin> pl_id ` set (ch_plugins d) then (Inl (DbNotFound (''Plugin '' @ quoted i @ '' not found'')), d)
        else (Inr (), d\<lparr>ch_plugins := update_where pl_id i (plugin_status_row now p) (ch_plugins d)\<rparr>)) d)"

definition sqlite_delete_plugin :: "id \<Rightarrow> channel_db \<Rightarrow> (db_error + unit) \<times> channel_db" where
  "sqlite_delete_plugin i = channel_pool (\<lambda>d.
     if i \<notin> pl_id ` set (ch_plugins d) then (Inl (DbNotFound (''Plugin '' @ quoted i @ '' not found'')), d)
     else (Inr (), d\<lparr>ch_plugins := filter (\<lambda>r. pl_id r \<noteq> i) (ch_plugins d)\<rparr>))"

subsection \<open>Users\<close>

definition on_platform :: "string \<Rightarrow> string \<Rightarrow> assistant_user_row \<Rightarrow> bool" where
  "on_platform pu pt r \<longleftrightarrow> au_platform_user_id r = pu \<and> au_platform_type r = pt"

definition sqlite_get_all_users :: "channel_db \<Rightarrow> (db_error + assistant_user_row list) \<times> channel_db" where
  "sqlite_get_all_users = channel_pool (\<lambda>d. (Inr (sort_key (\<lambda>r. - au_authorized_at r) (ch_users d)), d))"

definition sqlite_get_user_by_platform ::
  "string \<Rightarrow> string \<Rightarrow> channel_db \<Rightarrow> (db_error + assistant_user_row option) \<times> channel_db" where
  "sqlite_get_user_by_platform pu pt = channel_pool (\<lambda>d. (Inr (List.find (on_platform pu pt) (ch_users d)), d))"

definition user_key_taken :: "assistant_user_row \<Rightarrow> assistant_user_row list \<Rightarrow> bool" where
  "user_key_taken row rs \<longleftrightarrow> au_id row \<in> au_id ` set rs
     \<or> list_ex (on_platform (au_platform_user_id row) (au_platform_type row)) rs"

definition sqlite_create_user :: "assistant_user_row \<Rightarrow> channel_db \<Rightarrow> (db_error + unit) \<times> channel_db" where
  "sqlite_create_user row = channel_pool (\<lambda>d.
     if user_key_taken row (ch_users d)
     then (Inl (DbConflict (''User '' @ quoted (au_platform_user_id row) @ '' on platform ''
                            @ quoted (au_platform_type row) @ '' already exists'')), d)
     else (Inr (), d\<lparr>ch_users := ch_users d @ [row]\<rparr>))"

definition user_not_found :: "id \<Rightarrow> db_error" where
  "user_not_found i = DbNotFound (''User '' @ quoted i @ '' not found'')"

definition sqlite_update_user_last_active :: "id \<Rightarrow> timestamp_ms \<Rightarrow> channel_db \<Rightarrow> (db_error + unit) \<times> channel_db" where
  "sqlite_update_user_last_active i t = channel_pool (\<lambda>d.
     if i \<notin> au_id ` set (ch_users d) then (Inl (user_not_found i), d)
     else (Inr (), d\<lparr>ch_users := update_where au_id i (\<lambda>r. r\<lparr>au_last_active := Some t\<rparr>) (ch_users d)\<rparr>))"

definition sqlite_delete_user :: "id \<Rightarrow> channel_db \<Rightarrow> (db_error + unit) \<times> channel_db" where
  "sqlite_delete_user i = channel_pool (\<lambda>d.
     if i \<notin> au_id ` set (ch_users d) then (Inl (user_not_found i), d)
     else (Inr (), d\<lparr>ch_users := filter (\<lambda>r. au_id r \<noteq> i) (ch_users d),
                     ch_sessions := filter (\<lambda>s. as_user_id s \<noteq> i) (ch_sessions d)\<rparr>))"

subsection \<open>Sessions\<close>

definition in_chat :: "id \<Rightarrow> string \<Rightarrow> assistant_session_row \<Rightarrow> bool" where
  "in_chat user chat s \<longleftrightarrow> as_user_id s = user \<and> as_chat_id s = Some chat"

definition sqlite_get_all_sessions :: "channel_db \<Rightarrow> (db_error + assistant_session_row list) \<times> channel_db" where
  "sqlite_get_all_sessions = channel_pool (\<lambda>d. (Inr (sort_key (\<lambda>s. - as_last_activity s) (ch_sessions d)), d))"

definition sqlite_get_session :: "id \<Rightarrow> channel_db \<Rightarrow> (db_error + assistant_session_row option) \<times> channel_db" where
  "sqlite_get_session i = channel_pool (\<lambda>d. (Inr (List.find (\<lambda>s. as_id s = i) (ch_sessions d)), d))"

text \<open>The three queries of \<open>get_or_create_session\<close>.\<close>

definition select_user_chat :: "id \<Rightarrow> string \<Rightarrow> channel_db \<Rightarrow> (db_error + assistant_session_row option) \<times> channel_db" where
  "select_user_chat user chat = channel_pool (\<lambda>d. (Inr (List.find (in_chat user chat) (ch_sessions d)), d))"

definition touch_session :: "timestamp_ms \<Rightarrow> id \<Rightarrow> channel_db \<Rightarrow> (db_error + unit) \<times> channel_db" where
  "touch_session now i = channel_pool (\<lambda>d.
     (Inr (), d\<lparr>ch_sessions := update_where as_id i (\<lambda>s. s\<lparr>as_last_activity := now\<rparr>) (ch_sessions d)\<rparr>))"

definition session_keys_ok :: "assistant_session_row \<Rightarrow> channel_tables \<Rightarrow> bool" where
  "session_keys_ok s d \<longleftrightarrow> as_user_id s \<in> au_id ` set (ch_users d)
     \<and> (case as_conversation_id s of None \<Rightarrow> True | Some c \<Rightarrow> c \<in> set (ch_conversations d))"

definition insert_session :: "assistant_session_row \<Rightarrow> channel_db \<Rightarrow> (db_error + unit) \<times> channel_db" where
  "insert_session row = channel_pool (\<lambda>d.
     if as_id row \<in> as_id ` set (ch_sessions d) then (Inl (DbQuery ''UNIQUE constraint failed''), d)
     else if \<not> session_keys_ok row d then (Inl (DbQuery ''FOREIGN KEY constraint failed''), d)
     else (Inr (), d\<lparr>ch_sessions := ch_sessions d @ [row]\<rparr>))"

definition sqlite_get_or_create_session ::
  "timestamp_ms \<Rightarrow> id \<Rightarrow> string \<Rightarrow> assistant_session_row \<Rightarrow> channel_db
   \<Rightarrow> (db_error + assistant_session_row) \<times> channel_db" where
  "sqlite_get_or_create_session now user chat new_row d =
     (case select_user_chat user chat d of
        (Inl e, d1) \<Rightarrow> (Inl e, d1)
      | (Inr (Some row), d1) \<Rightarrow> map_ok (\<lambda>_. row\<lparr>as_last_activity := now\<rparr>) (touch_session now (as_id row) d1)
      | (Inr None, d1) \<Rightarrow> map_ok (\<lambda>_. new_row) (insert_session new_row d1))"

definition session_not_found :: "id \<Rightarrow> db_error" where
  "session_not_found i = DbNotFound (''Session '' @ quoted i @ '' not found'')"

definition sqlite_update_session_activity :: "id \<Rightarrow> timestamp_ms \<Rightarrow> channel_db \<Rightarrow> (db_error + unit) \<times> channel_db" where
  "sqlite_update_session_activity i t = channel_pool (\<lambda>d.
     if i \<notin> as_id ` set (ch_sessions d) then (Inl (session_not_found i), d)
     else (Inr (), d\<lparr>ch_sessions := update_where as_id i (\<lambda>s. s\<lparr>as_last_activity := t\<rparr>) (ch_sessions d)\<rparr>))"

definition sqlite_update_session_conversation ::
  "timestamp_ms \<Rightarrow> id \<Rightarrow> id \<Rightarrow> channel_db \<Rightarrow> (db_error + unit) \<times> channel_db" where
  "sqlite_update_session_conversation now i conv = channel_pool (\<lambda>d.
     if i \<notin> as_id ` set (ch_sessions d) then (Inl (session_not_found i), d)
     else if conv \<notin> set (ch_conversations d) then (Inl (DbQuery ''FOREIGN KEY constraint failed''), d)
     else (Inr (), d\<lparr>ch_sessions := update_where as_id i
                       (\<lambda>s. s\<lparr>as_conversation_id := Some conv, as_last_activity := now\<rparr>) (ch_sessions d)\<rparr>))"

definition sqlite_update_session_agent_type ::
  "timestamp_ms \<Rightarrow> id \<Rightarrow> string \<Rightarrow> channel_db \<Rightarrow> (db_error + unit) \<times> channel_db" where
  "sqlite_update_session_agent_type now i agent = channel_pool (\<lambda>d.
     if i \<notin> as_id ` set (ch_sessions d) then (Inl (session_not_found i), d)
     else (Inr (), d\<lparr>ch_sessions := update_where as_id i
                       (\<lambda>s. s\<lparr>as_agent_type := agent, as_last_activity := now\<rparr>) (ch_sessions d)\<rparr>))"

definition sqlite_delete_sessions_by_user :: "id \<Rightarrow> channel_db \<Rightarrow> (db_error + unit) \<times> channel_db" where
  "sqlite_delete_sessions_by_user user = channel_pool (\<lambda>d.
     (Inr (), d\<lparr>ch_sessions := filter (\<lambda>s. as_user_id s \<noteq> user) (ch_sessions d)\<rparr>))"

definition sqlite_delete_session_by_user_chat :: "id \<Rightarrow> string \<Rightarrow> channel_db \<Rightarrow> (db_error + unit) \<times> channel_db" where
  "sqlite_delete_session_by_user_chat user chat = channel_pool (\<lambda>d.
     (Inr (), d\<lparr>ch_sessions := filter (\<lambda>s. \<not> in_chat user chat s) (ch_sessions d)\<rparr>))"

subsection \<open>Pairing codes\<close>

definition pairing_status_values :: "string list" where
  "pairing_status_values = [''pending'', ''approved'', ''rejected'', ''expired'']"

definition sqlite_create_pairing :: "pairing_code_row \<Rightarrow> channel_db \<Rightarrow> (db_error + unit) \<times> channel_db" where
  "sqlite_create_pairing row = channel_pool (\<lambda>d.
     if pc_status row \<notin> set pairing_status_values then (Inl (DbQuery ''CHECK constraint failed''), d)
     else if pc_code row \<in> pc_code ` set (ch_pairings d)
     then (Inl (DbConflict (''Pairing code '' @ quoted (pc_code row) @ '' already exists'')), d)
     else (Inr (), d\<lparr>ch_pairings := ch_pairings d @ [row]\<rparr>))"

definition sqlite_get_pending_pairings :: "channel_db \<Rightarrow> (db_error + pairing_code_row list) \<times> channel_db" where
  "sqlite_get_pending_pairings = channel_pool (\<lambda>d.
     (Inr (sort_key (\<lambda>r. - pc_requested_at r) (filter (\<lambda>r. pc_status r = ''pending'') (ch_pairings d))), d))"

definition sqlite_get_pairing_by_code :: "string \<Rightarrow> channel_db \<Rightarrow> (db_error + pairing_code_row option) \<times> channel_db" where
  "sqlite_get_pairing_by_code code = channel_pool (\<lambda>d. (Inr (List.find (\<lambda>r. pc_code r = code) (ch_pairings d)), d))"

definition sqlite_update_pairing_status :: "string \<Rightarrow> string \<Rightarrow> channel_db \<Rightarrow> (db_error + unit) \<times> channel_db" where
  "sqlite_update_pairing_status code status = channel_pool (\<lambda>d.
     if code \<notin> pc_code ` set (ch_pairings d) then (Inl (DbNotFound (''Pairing code '' @ quoted code @ '' not found'')), d)
     else if status \<notin> set pairing_status_values then (Inl (DbQuery ''CHECK constraint failed''), d)
     else (Inr (), d\<lparr>ch_pairings := update_where pc_code code (\<lambda>r. r\<lparr>pc_status := status\<rparr>) (ch_pairings d)\<rparr>))"

definition overdue :: "timestamp_ms \<Rightarrow> pairing_code_row \<Rightarrow> bool" where
  "overdue now r \<longleftrightarrow> pc_status r = ''pending'' \<and> pc_expires_at r \<le> now"

definition sqlite_cleanup_expired_pairings :: "timestamp_ms \<Rightarrow> channel_db \<Rightarrow> (db_error + nat) \<times> channel_db" where
  "sqlite_cleanup_expired_pairings now = channel_pool (\<lambda>d.
     (Inr (length (filter (overdue now) (ch_pairings d))),
      d\<lparr>ch_pairings := map (\<lambda>r. if overdue now r then r\<lparr>pc_status := ''expired''\<rparr> else r) (ch_pairings d)\<rparr>))"

definition sqlite_channel_repository :: "channel_db channel_repository" where
  "sqlite_channel_repository =
     \<lparr>cr_get_all_plugins = sqlite_get_all_plugins, cr_get_plugin = sqlite_get_plugin,
      cr_upsert_plugin = sqlite_upsert_plugin, cr_update_plugin_status = sqlite_update_plugin_status,
      cr_delete_plugin = sqlite_delete_plugin, cr_get_all_users = sqlite_get_all_users,
      cr_get_user_by_platform = sqlite_get_user_by_platform, cr_create_user = sqlite_create_user,
      cr_update_user_last_active = sqlite_update_user_last_active, cr_delete_user = sqlite_delete_user,
      cr_get_all_sessions = sqlite_get_all_sessions, cr_get_session = sqlite_get_session,
      cr_get_or_create_session = sqlite_get_or_create_session,
      cr_update_session_activity = sqlite_update_session_activity,
      cr_update_session_conversation = sqlite_update_session_conversation,
      cr_update_session_agent_type = sqlite_update_session_agent_type,
      cr_delete_sessions_by_user = sqlite_delete_sessions_by_user,
      cr_delete_session_by_user_chat = sqlite_delete_session_by_user_chat,
      cr_create_pairing = sqlite_create_pairing, cr_get_pending_pairings = sqlite_get_pending_pairings,
      cr_get_pairing_by_code = sqlite_get_pairing_by_code,
      cr_update_pairing_status = sqlite_update_pairing_status,
      cr_cleanup_expired_pairings = sqlite_cleanup_expired_pairings\<rparr>"

section \<open>What the services rely on\<close>

text \<open>
  The laws of the trait, on what the tables hold. A query that reads answers with the tables it finds,
  and fails only when the connection is not \<open>calm\<close>. A query that writes either succeeds, which needs its
  guard, and has its effect, or fails and changes nothing; a calm connection makes the guard decide.
\<close>

definition reads :: "('d \<Rightarrow> 't) \<Rightarrow> ('d \<Rightarrow> bool) \<Rightarrow> ('d \<Rightarrow> ('e + 'a) \<times> 'd) \<Rightarrow> ('t \<Rightarrow> 'a) \<Rightarrow> bool" where
  "reads view calm op f \<longleftrightarrow> (\<forall>d. view (snd (op d)) = view d \<and> (calm d \<longrightarrow> calm (snd (op d)))
     \<and> (case fst (op d) of Inl _ \<Rightarrow> \<not> calm d | Inr x \<Rightarrow> x = f (view d)))"

definition writes :: "('d \<Rightarrow> 't) \<Rightarrow> ('d \<Rightarrow> bool) \<Rightarrow> ('d \<Rightarrow> ('e + 'a) \<times> 'd) \<Rightarrow> ('t \<Rightarrow> bool) \<Rightarrow> ('t \<Rightarrow> 'a \<times> 't) \<Rightarrow> bool" where
  "writes view calm op guard eff \<longleftrightarrow> (\<forall>d. (calm d \<longrightarrow> calm (snd (op d)))
     \<and> (case fst (op d) of
          Inl _ \<Rightarrow> view (snd (op d)) = view d \<and> \<not> (calm d \<and> guard (view d))
        | Inr x \<Rightarrow> guard (view d) \<and> (x, view (snd (op d))) = eff (view d)))"

lemma readsE:
  assumes "reads view calm op f" "op d = (r, d')"
  obtains (failed) e where "r = Inl e" "view d' = view d" "\<not> calm d"
  | (read) "r = Inr (f (view d))" "view d' = view d" "calm d \<Longrightarrow> calm d'"
proof -
  have "view d' = view d" "calm d \<longrightarrow> calm d'" "case r of Inl _ \<Rightarrow> \<not> calm d | Inr x \<Rightarrow> x = f (view d)"
    using assms(1) [unfolded reads_def, THEN spec [of _ d]] assms(2) by simp_all
  then show ?thesis using that by (cases r) auto
qed

lemma writesE:
  assumes "writes view calm op guard eff" "op d = (r, d')"
  obtains (failed) e where "r = Inl e" "view d' = view d" "calm d \<Longrightarrow> calm d' \<and> \<not> guard (view d)"
  | (written) x where "r = Inr x" "guard (view d)" "eff (view d) = (x, view d')" "calm d \<Longrightarrow> calm d'"
proof -
  have "calm d \<longrightarrow> calm d'" "case r of Inl _ \<Rightarrow> view d' = view d \<and> \<not> (calm d \<and> guard (view d))
     | Inr x \<Rightarrow> guard (view d) \<and> (x, view d') = eff (view d)"
    using assms(1) [unfolded writes_def, THEN spec [of _ d]] assms(2) by (simp_all split: sum.splits)
  then show ?thesis using that by (cases r) auto
qed

definition channel_calm :: "channel_db \<Rightarrow> bool" where
  "channel_calm d \<longleftrightarrow> True \<notin> set (cd_faults d)"

lemma channel_calm_tl: "channel_calm d \<Longrightarrow> \<not> (case cd_faults d of [] \<Rightarrow> False | f # _ \<Rightarrow> f) \<and> True \<notin> set (tl (cd_faults d))"
  by (cases "cd_faults d") (auto simp: channel_calm_def)

lemma channel_pool_calm [simp]: "channel_calm d \<Longrightarrow> channel_calm (snd (channel_pool q d))"
  using channel_calm_tl [of d] by (simp add: channel_pool_def) (simp add: channel_calm_def)

lemma pool_reads [intro]: "reads cd_tables channel_calm (channel_pool (\<lambda>t. (Inr (f t), t))) f"
  unfolding reads_def using channel_calm_tl by (simp, simp add: channel_pool_def) blast

lemma pool_writes:
  assumes "\<And>t. guard t \<Longrightarrow> q t = map_prod Inr id (eff t)" "\<And>t. \<not> guard t \<Longrightarrow> \<exists>e. q t = (Inl e, t)"
  shows "writes cd_tables channel_calm (channel_pool q) guard eff"
  unfolding writes_def
proof (intro allI conjI impI)
  fix d assume "channel_calm d" then show "channel_calm (snd (channel_pool q d))" by simp
next
  fix d
  show "case fst (channel_pool q d) of
      Inl _ \<Rightarrow> cd_tables (snd (channel_pool q d)) = cd_tables d \<and> \<not> (channel_calm d \<and> guard (cd_tables d))
    | Inr x \<Rightarrow> guard (cd_tables d) \<and> (x, cd_tables (snd (channel_pool q d))) = eff (cd_tables d)"
    using assms(1) [of "cd_tables d"] assms(2) [of "cd_tables d"] channel_calm_tl [of d]
    by (cases "guard (cd_tables d)"; cases "eff (cd_tables d)") (auto simp: channel_pool_def)
qed

text \<open>The pairing part of the trait.\<close>

locale pairing_store =
  fixes repo :: "'d channel_repository" and tables :: "'d \<Rightarrow> channel_tables" and calm :: "'d \<Rightarrow> bool"
  assumes get_user: "\<And>pu pt. reads tables calm (cr_get_user_by_platform repo pu pt) (\<lambda>t. List.find (on_platform pu pt) (ch_users t))"
    and create_user: "\<And>row. writes tables calm (cr_create_user repo row) (\<lambda>t. \<not> user_key_taken row (ch_users t))
          (\<lambda>t. ((), t\<lparr>ch_users := ch_users t @ [row]\<rparr>))"
    and delete_user: "\<And>i. writes tables calm (cr_delete_user repo i) (\<lambda>t. i \<in> au_id ` set (ch_users t))
          (\<lambda>t. ((), t\<lparr>ch_users := filter (\<lambda>r. au_id r \<noteq> i) (ch_users t),
                     ch_sessions := filter (\<lambda>s. as_user_id s \<noteq> i) (ch_sessions t)\<rparr>))"
    and create_code: "\<And>row. pc_status row \<in> set pairing_status_values \<Longrightarrow>
          writes tables calm (cr_create_pairing repo row) (\<lambda>t. pc_code row \<notin> pc_code ` set (ch_pairings t))
          (\<lambda>t. ((), t\<lparr>ch_pairings := ch_pairings t @ [row]\<rparr>))"
    and pending_codes: "reads tables calm (cr_get_pending_pairings repo)
          (\<lambda>t. sort_key (\<lambda>r. - pc_requested_at r) (filter (\<lambda>r. pc_status r = ''pending'') (ch_pairings t)))"
    and get_code: "\<And>c. reads tables calm (cr_get_pairing_by_code repo c) (\<lambda>t. List.find (\<lambda>r. pc_code r = c) (ch_pairings t))"
    and set_status: "\<And>c st. st \<in> set pairing_status_values \<Longrightarrow>
          writes tables calm (cr_update_pairing_status repo c st) (\<lambda>t. c \<in> pc_code ` set (ch_pairings t))
          (\<lambda>t. ((), t\<lparr>ch_pairings := update_where pc_code c (\<lambda>r. r\<lparr>pc_status := st\<rparr>) (ch_pairings t)\<rparr>))"
    and cleanup: "\<And>now. writes tables calm (cr_cleanup_expired_pairings repo now) (\<lambda>_. True)
          (\<lambda>t. (length (filter (overdue now) (ch_pairings t)),
               t\<lparr>ch_pairings := map (\<lambda>r. if overdue now r then r\<lparr>pc_status := ''expired''\<rparr> else r) (ch_pairings t)\<rparr>))"

text \<open>The session part.\<close>

locale session_store =
  fixes repo :: "'d channel_repository" and tables :: "'d \<Rightarrow> channel_tables" and calm :: "'d \<Rightarrow> bool"
  assumes all_sessions: "reads tables calm (cr_get_all_sessions repo) (\<lambda>t. sort_key (\<lambda>s. - as_last_activity s) (ch_sessions t))"
    and get_session: "\<And>i. reads tables calm (cr_get_session repo i) (\<lambda>t. List.find (\<lambda>s. as_id s = i) (ch_sessions t))"
    and get_or_create: "\<And>now u c row. writes tables calm (cr_get_or_create_session repo now u c row)
          (\<lambda>t. list_ex (in_chat u c) (ch_sessions t) \<or> (as_id row \<notin> as_id ` set (ch_sessions t) \<and> session_keys_ok row t))
          (\<lambda>t. case List.find (in_chat u c) (ch_sessions t) of
                 Some s \<Rightarrow> (s\<lparr>as_last_activity := now\<rparr>,
                   t\<lparr>ch_sessions := update_where as_id (as_id s) (\<lambda>s. s\<lparr>as_last_activity := now\<rparr>) (ch_sessions t)\<rparr>)
               | None \<Rightarrow> (row, t\<lparr>ch_sessions := ch_sessions t @ [row]\<rparr>))"
    and set_conversation: "\<And>now i c. writes tables calm (cr_update_session_conversation repo now i c)
          (\<lambda>t. i \<in> as_id ` set (ch_sessions t) \<and> c \<in> set (ch_conversations t))
          (\<lambda>t. ((), t\<lparr>ch_sessions := update_where as_id i
              (\<lambda>s. s\<lparr>as_conversation_id := Some c, as_last_activity := now\<rparr>) (ch_sessions t)\<rparr>))"
    and set_agent_type: "\<And>now i a. writes tables calm (cr_update_session_agent_type repo now i a)
          (\<lambda>t. i \<in> as_id ` set (ch_sessions t))
          (\<lambda>t. ((), t\<lparr>ch_sessions := update_where as_id i
              (\<lambda>s. s\<lparr>as_agent_type := a, as_last_activity := now\<rparr>) (ch_sessions t)\<rparr>))"
    and delete_of_user: "\<And>u. writes tables calm (cr_delete_sessions_by_user repo u) (\<lambda>_. True)
          (\<lambda>t. ((), t\<lparr>ch_sessions := filter (\<lambda>s. as_user_id s \<noteq> u) (ch_sessions t)\<rparr>))"
    and delete_of_chat: "\<And>u c. writes tables calm (cr_delete_session_by_user_chat repo u c) (\<lambda>_. True)
          (\<lambda>t. ((), t\<lparr>ch_sessions := filter (\<lambda>s. \<not> in_chat u c s) (ch_sessions t)\<rparr>))"

lemma find_ex: "list_ex p xs \<longleftrightarrow> List.find p xs \<noteq> None"
  by (induction xs) auto

interpretation sqlite_pairing: pairing_store sqlite_channel_repository cd_tables channel_calm
  by unfold_locales
     (auto simp: sqlite_channel_repository_def sqlite_get_user_by_platform_def sqlite_create_user_def sqlite_delete_user_def
        sqlite_create_pairing_def sqlite_get_pending_pairings_def sqlite_get_pairing_by_code_def
        sqlite_update_pairing_status_def sqlite_cleanup_expired_pairings_def intro!: pool_writes)

text \<open>\<open>get_or_create_session\<close> is a read followed by one write, which the read decides.\<close>

lemma read_then_write:
  assumes "reads view calm op f" "\<And>x. writes view calm (cont x) (guard x) (eff x)"
  shows "writes view calm (\<lambda>d. case op d of (Inl e, d1) \<Rightarrow> (Inl e, d1) | (Inr x, d1) \<Rightarrow> cont x d1)
     (\<lambda>t. guard (f t) t) (\<lambda>t. eff (f t) t)"
  unfolding writes_def
proof
  fix d
  obtain r d1 where op: "op d = (r, d1)" by fastforce
  obtain r2 d2 where c: "cont (f (view d)) d1 = (r2, d2)" by fastforce
  from assms(1) op show "(calm d \<longrightarrow> calm (snd (case op d of (Inl e, d1) \<Rightarrow> (Inl e, d1) | (Inr x, d1) \<Rightarrow> cont x d1))) \<and>
     (case fst (case op d of (Inl e, d1) \<Rightarrow> (Inl e, d1) | (Inr x, d1) \<Rightarrow> cont x d1) of
        Inl _ \<Rightarrow> view (snd (case op d of (Inl e, d1) \<Rightarrow> (Inl e, d1) | (Inr x, d1) \<Rightarrow> cont x d1)) = view d \<and> \<not> (calm d \<and> guard (f (view d)) (view d))
      | Inr x \<Rightarrow> guard (f (view d)) (view d) \<and>
          (x, view (snd (case op d of (Inl e, d1) \<Rightarrow> (Inl e, d1) | (Inr x, d1) \<Rightarrow> cont x d1))) = eff (f (view d)) (view d))"
  proof (cases rule: readsE)
    case (failed e)
    then show ?thesis using op by simp
  next
    case read
    from assms(2) c show ?thesis by (cases rule: writesE) (use read op c in auto)
  qed
qed

lemma map_ok_writes:
  assumes "writes view calm op guard eff"
  shows "writes view calm (\<lambda>d. map_ok g (op d)) guard (\<lambda>t. (g (fst (eff t)), snd (eff t)))"
  unfolding writes_def
proof
  fix d
  obtain r d' where op: "op d = (r, d')" by fastforce
  from assms op show "(calm d \<longrightarrow> calm (snd (map_ok g (op d)))) \<and>
      (case fst (map_ok g (op d)) of
         Inl _ \<Rightarrow> view (snd (map_ok g (op d))) = view d \<and> \<not> (calm d \<and> guard (view d))
       | Inr x \<Rightarrow> guard (view d) \<and> (x, view (snd (map_ok g (op d)))) = (g (fst (eff (view d))), snd (eff (view d))))"
    by (cases rule: writesE) (simp_all add: op map_ok_def)
qed

lemma writes_cong:
  assumes "writes view calm op guard eff" "\<And>t. guard t = guard' t" "\<And>t. guard' t \<Longrightarrow> eff t = eff' t"
  shows "writes view calm op guard' eff'"
  unfolding writes_def
proof
  fix d
  show "(calm d \<longrightarrow> calm (snd (op d))) \<and> (case fst (op d) of
      Inl _ \<Rightarrow> view (snd (op d)) = view d \<and> \<not> (calm d \<and> guard' (view d))
    | Inr x \<Rightarrow> guard' (view d) \<and> (x, view (snd (op d))) = eff' (view d))"
    using assms(1) [unfolded writes_def, THEN spec [of _ d]] assms(2,3) [of "view d"] by (auto split: sum.splits)
qed

lemma sqlite_get_or_create_writes:
  "writes cd_tables channel_calm (sqlite_get_or_create_session now u c row)
     (\<lambda>t. list_ex (in_chat u c) (ch_sessions t) \<or> (as_id row \<notin> as_id ` set (ch_sessions t) \<and> session_keys_ok row t))
     (\<lambda>t. case List.find (in_chat u c) (ch_sessions t) of
        Some s \<Rightarrow> (s\<lparr>as_last_activity := now\<rparr>,
          t\<lparr>ch_sessions := update_where as_id (as_id s) (\<lambda>s. s\<lparr>as_last_activity := now\<rparr>) (ch_sessions t)\<rparr>)
      | None \<Rightarrow> (row, t\<lparr>ch_sessions := ch_sessions t @ [row]\<rparr>))" (is "writes _ _ _ ?guard ?eff")
proof -
  have touch: "writes cd_tables channel_calm (touch_session now i) (\<lambda>_. True)
      (\<lambda>t. ((), t\<lparr>ch_sessions := update_where as_id i (\<lambda>s. s\<lparr>as_last_activity := now\<rparr>) (ch_sessions t)\<rparr>))" for i
    unfolding touch_session_def by (rule pool_writes) auto
  have ins: "writes cd_tables channel_calm (insert_session row)
      (\<lambda>t. as_id row \<notin> as_id ` set (ch_sessions t) \<and> session_keys_ok row t) (\<lambda>t. ((), t\<lparr>ch_sessions := ch_sessions t @ [row]\<rparr>))"
    unfolding insert_session_def by (rule pool_writes) auto
  define cont where "cont x d = (case x of Some s \<Rightarrow> map_ok (\<lambda>_. s\<lparr>as_last_activity := now\<rparr>) (touch_session now (as_id s) d)
     | None \<Rightarrow> map_ok (\<lambda>_. row) (insert_session row d))" for x d
  define guard where "guard x t = (case x of Some _ \<Rightarrow> True
     | None \<Rightarrow> as_id row \<notin> as_id ` set (ch_sessions t) \<and> session_keys_ok row t)" for x :: "assistant_session_row option" and t
  define eff where "eff x t = (case x of
        Some s \<Rightarrow> (s\<lparr>as_last_activity := now\<rparr>,
          t\<lparr>ch_sessions := update_where as_id (as_id s) (\<lambda>s. s\<lparr>as_last_activity := now\<rparr>) (ch_sessions t)\<rparr>)
      | None \<Rightarrow> (row, t\<lparr>ch_sessions := ch_sessions t @ [row]\<rparr>))" for x and t :: channel_tables
  have step: "writes cd_tables channel_calm (cont x) (guard x) (eff x)" for x
    using map_ok_writes [OF ins, of "\<lambda>_. row"] map_ok_writes [OF touch, of "\<lambda>_. (the x)\<lparr>as_last_activity := now\<rparr>"]
    by (cases x) (simp_all add: cont_def [abs_def] guard_def [abs_def] eff_def [abs_def])
  have sel: "reads cd_tables channel_calm (select_user_chat u c) (\<lambda>t. List.find (in_chat u c) (ch_sessions t))"
    unfolding select_user_chat_def by (rule pool_reads)
  have op: "sqlite_get_or_create_session now u c row =
      (\<lambda>d. case select_user_chat u c d of (Inl e, d1) \<Rightarrow> (Inl e, d1) | (Inr x, d1) \<Rightarrow> cont x d1)"
    by (rule ext) (simp add: sqlite_get_or_create_session_def cont_def split: prod.split sum.split option.split)
  show ?thesis unfolding op
    by (rule writes_cong [OF read_then_write [where guard = guard and eff = eff, OF sel step]])
       (auto simp: guard_def eff_def find_ex split: option.splits)
qed

interpretation sqlite_sessions: session_store sqlite_channel_repository cd_tables channel_calm
  by unfold_locales
     (auto split: if_splits simp: sqlite_channel_repository_def sqlite_get_all_sessions_def sqlite_get_session_def sqlite_get_or_create_writes
        sqlite_update_session_conversation_def sqlite_update_session_agent_type_def sqlite_delete_sessions_by_user_def
        sqlite_delete_session_by_user_chat_def intro!: pool_writes)

end
