(* ===== verification/Decimal.thy ===== *)
theory Decimal
  imports Prelude
begin

text \<open>
  Decimal numbers as the Rust library prints and parses them: \<open>to_string\<close> of an integer and
  \<open>str::parse::<i64>\<close>, which takes an optional sign and at least one digit and fails outside 64 bits.
\<close>

section \<open>Printing and parsing\<close>

definition digit :: "nat \<Rightarrow> char" where
  "digit n = char_of (48 + n)"

fun decimal :: "nat \<Rightarrow> string" where
  "decimal n = (if n < 10 then [digit n] else decimal (n div 10) @ [digit (n mod 10)])"

declare decimal.simps [simp del]

definition decimal_int :: "int \<Rightarrow> string" where
  "decimal_int i = (if i < 0 then ''-'' @ decimal (nat (- i)) else decimal (nat i))"

text \<open>The number a string of digits stands for.\<close>

definition code_value :: "string \<Rightarrow> nat" where
  "code_value s = foldl (\<lambda>a c. a * 10 + (of_char c - 48)) 0 s"

definition is_digit :: "char \<Rightarrow> bool" where
  "is_digit c \<longleftrightarrow> 48 \<le> (of_char c :: nat) \<and> (of_char c :: nat) \<le> 57"

definition in_i64 :: "int \<Rightarrow> bool" where
  "in_i64 i \<longleftrightarrow> - (2 ^ 63) \<le> i \<and> i < 2 ^ 63"

definition parse_i64 :: "string \<Rightarrow> int option" where
  "parse_i64 s =
     (let (negative, digits) =
            (case s of
               [] \<Rightarrow> (False, s)
             | c # rest \<Rightarrow> if c = CHR ''-'' then (True, rest) else if c = CHR ''+'' then (False, rest) else (False, s));
          value = (if negative then - int (code_value digits) else int (code_value digits))
      in if digits \<noteq> [] \<and> list_all is_digit digits \<and> in_i64 value then Some value else None)"

section \<open>Lemmas\<close>

lemma digit_simps [simp]:
  "digit 0 = CHR ''0''" "digit (Suc 0) = CHR ''1''" "digit 1 = CHR ''1''" "digit 2 = CHR ''2''" "digit 3 = CHR ''3''"
  "digit 4 = CHR ''4''" "digit 5 = CHR ''5''" "digit 6 = CHR ''6''" "digit 7 = CHR ''7''" "digit 8 = CHR ''8''" "digit 9 = CHR ''9''"
  by code_simp+

lemma decimal_digits: "set (decimal n) \<subseteq> digit ` {..<10}"
proof (induction n rule: decimal.induct)
  case (1 n)
  then show ?case by (cases "n < 10") (auto simp: decimal.simps [of n])
qed

lemma length_decimal: "n < 10 ^ k \<Longrightarrow> 0 < k \<Longrightarrow> 0 < length (decimal n) \<and> length (decimal n) \<le> k"
proof (induction n arbitrary: k rule: decimal.induct)
  case (1 n)
  show ?case
  proof (cases "n < 10")
    case True
    then show ?thesis using 1(3) by (simp add: decimal.simps [of n])
  next
    case False
    obtain j where j: "k = Suc j" using 1(3) by (cases k) auto
    have "n div 10 < 10 ^ j" using 1(2) j by (simp add: less_mult_imp_div_less mult.commute)
    moreover have "0 < j" using 1(2) j False by (cases j) auto
    ultimately show ?thesis using 1(1) [OF False] False j by (simp add: decimal.simps [of n])
  qed
qed

lemma code_value_digit [simp]: "n < 10 \<Longrightarrow> code_value (s @ [digit n]) = code_value s * 10 + n"
  by (simp add: code_value_def digit_def)

lemma code_value_decimal: "code_value (decimal n) = n"
proof (induction n rule: decimal.induct)
  case (1 n)
  show ?case
  proof (cases "n < 10")
    case True
    then show ?thesis using code_value_digit [of n "[]"] by (simp add: decimal.simps [of n] code_value_def)
  next
    case False
    then show ?thesis using 1 by (simp add: decimal.simps [of n])
  qed
qed

lemma decimal_nonempty [simp]: "decimal n \<noteq> []"
  by (subst decimal.simps) simp

lemma decimal_all_digits: "list_all is_digit (decimal n)"
proof -
  have "is_digit (digit k)" if "k < 10" for k using that by (simp add: is_digit_def digit_def)
  then show ?thesis using decimal_digits [of n] by (auto simp: list_all_iff)
qed

lemma decimal_head: "decimal n = c # s \<Longrightarrow> c \<noteq> CHR ''-'' \<and> c \<noteq> CHR ''+''"
  using decimal_all_digits [of n] by (auto simp: is_digit_def)

lemma parse_decimal_int: "in_i64 i \<Longrightarrow> parse_i64 (decimal_int i) = Some i"
proof (cases "i < 0")
  case True
  moreover assume "in_i64 i"
  ultimately show ?thesis
    by (simp add: parse_i64_def decimal_int_def code_value_decimal decimal_all_digits)
next
  case False
  moreover assume "in_i64 i"
  moreover obtain c s where "decimal (nat i) = c # s" by (cases "decimal (nat i)") auto
  ultimately show ?thesis
    using code_value_decimal [of "nat i"] decimal_all_digits [of "nat i"] decimal_head [of "nat i"] by (simp add: parse_i64_def decimal_int_def)
qed

end
