(* ===== verification/ChannelPairing.thy ===== *)
theory ChannelPairing
  imports ChannelRepository Decimal
begin

unbundle bit_operations_syntax

text \<open>
  The pairing service of the channels, \<open>aionui-channel/src/pairing.rs\<close>: an unknown user of a chat
  platform is given a numeric code, an administrator approves or rejects it, and an approved user is
  a row of \<open>assistant_users\<close>.

  The service runs over any repository (the record \<open>channel_repository\<close>) and a list of broadcast
  events. The readings of the clock, the bytes of \<open>getrandom\<close> and the fresh ids are arguments.
  Serialising a payload to JSON does not fail for these payloads, which hold strings and an integer.
\<close>

section \<open>Types\<close>

datatype channel_error =
    PluginNotFound string
  | InvalidPluginType string
  | PluginAlreadyRunning string
  | InvalidConfig string
  | ConnectionFailed string
  | PairingNotFound string
  | PairingExpired string
  | PairingAlreadyProcessed string
  | UserNotFound string
  | UserNotAuthorized string
  | SessionNotFound string
  | EncryptionFailed string
  | DecryptionFailed string
  | PlatformApi string
  | MessageSendFailed string
  | ChannelDatabase db_error
  | ChannelJson string

datatype pairing_status = PairPending | PairApproved | PairRejected | PairExpired

fun pairing_status_display :: "pairing_status \<Rightarrow> string" where
  "pairing_status_display PairPending = ''pending''"
| "pairing_status_display PairApproved = ''approved''"
| "pairing_status_display PairRejected = ''rejected''"
| "pairing_status_display PairExpired = ''expired''"

definition pairing_status_from_str_opt :: "string \<Rightarrow> pairing_status option" where
  "pairing_status_from_str_opt s =
     (if s = ''pending'' then Some PairPending
      else if s = ''approved'' then Some PairApproved
      else if s = ''rejected'' then Some PairRejected
      else if s = ''expired'' then Some PairExpired
      else None)"

datatype channel_event =
    PairingRequested string string string "string option" timestamp_ms
  | UserAuthorized id string string "string option"

record 'd channel_world =
  cw_db :: 'd
  cw_events :: "channel_event list"

definition pairing_code_length :: nat where
  "pairing_code_length = 6"

definition pairing_code_ttl_ms :: timestamp_ms where
  "pairing_code_ttl_ms = 10 * 60 * 1000"

section \<open>Codes\<close>

text \<open>\<open>{num:0>width$}\<close>.\<close>

definition zero_padded :: "nat \<Rightarrow> string \<Rightarrow> string" where
  "zero_padded width s = replicate (width - length s) CHR ''0'' @ s"

definition from_le_bytes :: "8 word \<times> 8 word \<times> 8 word \<times> 8 word \<Rightarrow> u32" where
  "from_le_bytes = (\<lambda>(b0, b1, b2, b3).
     ucast b0 OR push_bit 8 (ucast b1) OR push_bit 16 (ucast b2) OR push_bit 24 (ucast b3))"

definition generate_pairing_code ::
  "string + 8 word \<times> 8 word \<times> 8 word \<times> 8 word \<Rightarrow> channel_error + string" where
  "generate_pairing_code rng =
     (case rng of
        Inl e \<Rightarrow> Inl (InvalidConfig (''RNG failure: '' @ e))
      | Inr bytes \<Rightarrow>
          let num = from_le_bytes bytes mod 10 ^ pairing_code_length
          in Inr (zero_padded pairing_code_length (decimal (unat num))))"

section \<open>The service\<close>

text \<open>A call of the repository followed by \<open>?\<close>, which turns its error into a channel error.\<close>

definition on_repo :: "('d \<Rightarrow> (db_error + 'a) \<times> 'd) \<Rightarrow> 'd channel_world \<Rightarrow> (channel_error + 'a) \<times> 'd channel_world" where
  "on_repo op w = (case op (cw_db w) of (r, d) \<Rightarrow> (map_sum ChannelDatabase id r, w\<lparr>cw_db := d\<rparr>))"

definition broadcast :: "channel_event \<Rightarrow> 'd channel_world \<Rightarrow> 'd channel_world" where
  "broadcast e w = w\<lparr>cw_events := cw_events w @ [e]\<rparr>"

definition get_valid_pending_pairing ::
  "'d channel_repository \<Rightarrow> timestamp_ms \<Rightarrow> string \<Rightarrow> 'd channel_world
   \<Rightarrow> (channel_error + pairing_code_row) \<times> 'd channel_world" where
  "get_valid_pending_pairing repo now code w =
     and_then (on_repo (cr_get_pairing_by_code repo code) w) (\<lambda>found w.
       case found of
         None \<Rightarrow> (Inl (PairingNotFound code), w)
       | Some row \<Rightarrow>
           if pc_status row \<noteq> pairing_status_display PairPending then (Inl (PairingAlreadyProcessed code), w)
           else if pc_expires_at row \<le> now then
             (Inl (PairingExpired code),
              snd (on_repo (cr_update_pairing_status repo code (pairing_status_display PairExpired)) w))
           else (Inr row, w))"

fun expire_each ::
  "'d channel_repository \<Rightarrow> string \<Rightarrow> string \<Rightarrow> pairing_code_row list \<Rightarrow> 'd channel_world
   \<Rightarrow> (channel_error + unit) \<times> 'd channel_world" where
  "expire_each repo pu pt [] w = (Inr (), w)"
| "expire_each repo pu pt (row # rest) w =
     (if pc_platform_user_id row = pu \<and> pc_platform_type row = pt then
        and_then (on_repo (cr_update_pairing_status repo (pc_code row) (pairing_status_display PairExpired)) w)
          (\<lambda>_. expire_each repo pu pt rest)
      else expire_each repo pu pt rest w)"

definition expire_user_pending_codes ::
  "'d channel_repository \<Rightarrow> string \<Rightarrow> string \<Rightarrow> 'd channel_world \<Rightarrow> (channel_error + unit) \<times> 'd channel_world" where
  "expire_user_pending_codes repo pu pt w =
     and_then (on_repo (cr_get_pending_pairings repo) w) (\<lambda>pending. expire_each repo pu pt pending)"

definition request_row :: "string \<Rightarrow> string \<Rightarrow> string \<Rightarrow> string option \<Rightarrow> timestamp_ms \<Rightarrow> pairing_code_row" where
  "request_row code pu pt name now =
     \<lparr>pc_code = code, pc_platform_user_id = pu, pc_platform_type = pt, pc_display_name = name,
      pc_requested_at = now, pc_expires_at = now + pairing_code_ttl_ms,
      pc_status = pairing_status_display PairPending\<rparr>"

definition request_pairing ::
  "'d channel_repository \<Rightarrow> string + 8 word \<times> 8 word \<times> 8 word \<times> 8 word \<Rightarrow> timestamp_ms
   \<Rightarrow> string \<Rightarrow> string \<Rightarrow> string option \<Rightarrow> 'd channel_world \<Rightarrow> (channel_error + string) \<times> 'd channel_world" where
  "request_pairing repo rng now pu pt name w =
     and_then (expire_user_pending_codes repo pu pt w) (\<lambda>_ w.
     and_then (generate_pairing_code rng, w) (\<lambda>code w.
     and_then (on_repo (cr_create_pairing repo (request_row code pu pt name now)) w) (\<lambda>_ w.
       (Inr code, broadcast (PairingRequested code pu pt name (now + pairing_code_ttl_ms)) w))))"

definition approved_user :: "id \<Rightarrow> timestamp_ms \<Rightarrow> pairing_code_row \<Rightarrow> assistant_user_row" where
  "approved_user user_id now row =
     \<lparr>au_id = user_id, au_platform_user_id = pc_platform_user_id row, au_platform_type = pc_platform_type row,
      au_display_name = pc_display_name row, au_authorized_at = now, au_last_active = None, au_session_id = None\<rparr>"

text \<open>\<open>now_check\<close> is the reading inside \<open>get_valid_pending_pairing\<close>, \<open>now\<close> the one after it.\<close>

definition approve_pairing ::
  "'d channel_repository \<Rightarrow> timestamp_ms \<Rightarrow> timestamp_ms \<Rightarrow> id \<Rightarrow> string \<Rightarrow> 'd channel_world
   \<Rightarrow> (channel_error + unit) \<times> 'd channel_world" where
  "approve_pairing repo now_check now user_id code w =
     and_then (get_valid_pending_pairing repo now_check code w) (\<lambda>row w.
     and_then (on_repo (cr_create_user repo (approved_user user_id now row)) w) (\<lambda>_ w.
     and_then (on_repo (cr_update_pairing_status repo code (pairing_status_display PairApproved)) w) (\<lambda>_ w.
       (Inr (), broadcast (UserAuthorized user_id (pc_platform_user_id row) (pc_platform_type row) (pc_display_name row)) w))))"

definition reject_pairing ::
  "'d channel_repository \<Rightarrow> timestamp_ms \<Rightarrow> string \<Rightarrow> 'd channel_world \<Rightarrow> (channel_error + unit) \<times> 'd channel_world" where
  "reject_pairing repo now code w =
     and_then (get_valid_pending_pairing repo now code w) (\<lambda>_ w.
       on_repo (cr_update_pairing_status repo code (pairing_status_display PairRejected)) w)"

definition get_pending_pairings ::
  "'d channel_repository \<Rightarrow> timestamp_ms \<Rightarrow> 'd channel_world \<Rightarrow> (channel_error + pairing_code_row list) \<times> 'd channel_world" where
  "get_pending_pairings repo now w =
     and_then (on_repo (cr_get_pending_pairings repo) w) (\<lambda>rows w. (Inr (filter (\<lambda>r. pc_expires_at r > now) rows), w))"

definition is_user_authorized ::
  "'d channel_repository \<Rightarrow> string \<Rightarrow> string \<Rightarrow> 'd channel_world \<Rightarrow> (channel_error + bool) \<times> 'd channel_world" where
  "is_user_authorized repo pu pt w =
     and_then (on_repo (cr_get_user_by_platform repo pu pt) w) (\<lambda>user w. (Inr (user \<noteq> None), w))"

definition get_internal_user_id ::
  "'d channel_repository \<Rightarrow> string \<Rightarrow> string \<Rightarrow> 'd channel_world \<Rightarrow> (channel_error + id option) \<times> 'd channel_world" where
  "get_internal_user_id repo pu pt w =
     and_then (on_repo (cr_get_user_by_platform repo pu pt) w) (\<lambda>user w. (Inr (map_option au_id user), w))"

text \<open>One tick of the clean-up task; its outcome is only logged.\<close>

definition cleanup_tick :: "'d channel_repository \<Rightarrow> timestamp_ms \<Rightarrow> 'd channel_world \<Rightarrow> 'd channel_world" where
  "cleanup_tick repo now w = snd (on_repo (cr_cleanup_expired_pairings repo now) w)"

section \<open>Codes are six digits\<close>

lemma code_value_padded: "code_value (zero_padded k s) = code_value s"
proof -
  have "foldl (\<lambda>a c. a * 10 + (of_char c - 48)) 0 (replicate n CHR ''0'') = (0 :: nat)" for n by (induction n) auto
  then show ?thesis by (simp add: code_value_def zero_padded_def)
qed

lemma pairing_code_shape:
  assumes "generate_pairing_code (Inr bytes) = Inr code"
  shows "length code = 6 \<and> set code \<subseteq> digit ` {..<10} \<and> code_value code = unat (from_le_bytes bytes) mod 1000000"
proof -
  define n where "n = unat (from_le_bytes bytes mod 10 ^ pairing_code_length)"
  have n: "n = unat (from_le_bytes bytes) mod 1000000" by (simp add: n_def pairing_code_length_def unat_mod)
  then have len: "0 < length (decimal n) \<and> length (decimal n) \<le> 6" by (intro length_decimal) simp_all
  have code: "code = zero_padded 6 (decimal n)" using assms by (simp add: generate_pairing_code_def n_def pairing_code_length_def Let_def)
  have "CHR ''0'' \<in> digit ` {..<10}" by (rule image_eqI [of _ _ 0]) simp_all
  then have "set code \<subseteq> digit ` {..<10}" using decimal_digits [of n] by (auto simp: code zero_padded_def)
  moreover have "length code = 6" using len by (simp add: code zero_padded_def)
  ultimately show ?thesis using n by (simp add: code code_value_padded code_value_decimal)
qed

lemma pairing_status_round_trip: "pairing_status_from_str_opt (pairing_status_display s) = Some s"
  by (cases s) (simp_all add: pairing_status_from_str_opt_def)

section \<open>How the calls change the tables\<close>

text \<open>
  The life of a code: it is created pending and may be decided once. \<open>settles\<close> relates the table of
  codes to a later one in which some pending codes have been decided and nothing else has changed.
\<close>

definition settled :: "pairing_code_row \<Rightarrow> pairing_code_row \<Rightarrow> bool" where
  "settled r r' \<longleftrightarrow> r' = r \<or> (pc_status r = ''pending'' \<and> (\<exists>s \<in> {''approved'', ''rejected'', ''expired''}. r' = r\<lparr>pc_status := s\<rparr>))"

definition settles :: "pairing_code_row list \<Rightarrow> pairing_code_row list \<Rightarrow> bool" where
  "settles = list_all2 settled"

lemma settled_trans: "settled a b \<Longrightarrow> settled b c \<Longrightarrow> settled a c"
  unfolding settled_def by (cases a; cases b; cases c) auto

lemma settles_refl [simp, intro]: "settles ps ps"
  by (simp add: settles_def list.rel_refl settled_def)

lemma settles_trans [trans]: "settles a b \<Longrightarrow> settles b c \<Longrightarrow> settles a c"
  unfolding settles_def by (rule list_all2_trans [OF settled_trans])

lemma settled_same:
  assumes "settled r r'"
  shows "pc_code r' = pc_code r \<and> pc_platform_user_id r' = pc_platform_user_id r \<and> pc_platform_type r' = pc_platform_type r
    \<and> pc_display_name r' = pc_display_name r \<and> pc_requested_at r' = pc_requested_at r \<and> pc_expires_at r' = pc_expires_at r
    \<and> (pc_status r' = ''pending'' \<longrightarrow> r' = r)"
  using assms by (auto simp: settled_def)

lemma settles_codes: "settles ps ps' \<Longrightarrow> map pc_code ps' = map pc_code ps"
  unfolding settles_def by (induction rule: list_all2_induct) (auto dest: settled_same)

lemma settles_later: "settles ps ps' \<Longrightarrow> r' \<in> set ps' \<Longrightarrow> \<exists>r \<in> set ps. settled r r'"
  unfolding settles_def by (metis in_set_conv_nth list_all2_conv_all_nth)

lemma settles_earlier: "settles ps ps' \<Longrightarrow> r \<in> set ps \<Longrightarrow> \<exists>r' \<in> set ps'. settled r r'"
  unfolding settles_def by (metis in_set_conv_nth list_all2_conv_all_nth)

lemma settles_pending: "settles ps ps' \<Longrightarrow> r \<in> set ps' \<Longrightarrow> pc_status r = ''pending'' \<Longrightarrow> r \<in> set ps"
  by (metis settled_same settles_later)

lemma settles_map: "(\<And>r. r \<in> set ps \<Longrightarrow> settled r (f r)) \<Longrightarrow> settles ps (map f ps)"
  by (simp add: settles_def list_all2_map2 list_all2_same)

text \<open>Setting the status of one code that is still pending, or setting \<open>expired\<close> twice.\<close>

lemma settles_update:
  assumes "distinct (map pc_code ps)" "r \<in> set ps" "pc_code r = c"
    and "pc_status r = ''pending'' \<and> st \<in> {''approved'', ''rejected'', ''expired''} \<or> pc_status r = st"
  shows "settles ps (update_where pc_code c (\<lambda>r. r\<lparr>pc_status := st\<rparr>) ps)"
  unfolding update_where_def
proof (rule settles_map)
  fix x assume "x \<in> set ps"
  then have "pc_code x = c \<Longrightarrow> x = r" using assms(1-3) by (auto simp: distinct_map dest: inj_onD)
  then show "settled x (if pc_code x = c then x\<lparr>pc_status := st\<rparr> else x)" using assms(4) by (auto simp: settled_def)
qed

definition same_identity :: "pairing_code_row \<Rightarrow> pairing_code_row \<Rightarrow> bool" where
  "same_identity r r' \<longleftrightarrow> pc_platform_user_id r = pc_platform_user_id r' \<and> pc_platform_type r = pc_platform_type r'"

text \<open>The invariant of the pairing tables.\<close>

definition pairing_ok :: "channel_tables \<Rightarrow> bool" where
  "pairing_ok t \<longleftrightarrow> distinct (map pc_code (ch_pairings t))
     \<and> (\<forall>r \<in> set (ch_pairings t). pc_status r \<in> set pairing_status_values \<and> pc_expires_at r = pc_requested_at r + pairing_code_ttl_ms)
     \<and> (\<forall>r \<in> set (ch_pairings t). \<forall>r' \<in> set (ch_pairings t).
          pc_status r = ''pending'' \<and> pc_status r' = ''pending'' \<and> same_identity r r' \<longrightarrow> r = r')
     \<and> distinct (map au_id (ch_users t))
     \<and> distinct (map (\<lambda>u. (au_platform_user_id u, au_platform_type u)) (ch_users t))"

lemma pairing_ok_settles:
  assumes "pairing_ok t" "settles (ch_pairings t) ps"
  shows "pairing_ok (t\<lparr>ch_pairings := ps\<rparr>)"
proof -
  have "pc_status r' \<in> set pairing_status_values \<and> pc_expires_at r' = pc_requested_at r' + pairing_code_ttl_ms" if r': "r' \<in> set ps" for r'
  proof -
    obtain r where r: "r \<in> set (ch_pairings t)" "settled r r'" using settles_later [OF assms(2) r'] by blast
    then show ?thesis using assms(1) settled_same [OF r(2)] by (auto simp: pairing_ok_def settled_def pairing_status_values_def)
  qed
  then show ?thesis using assms settles_codes [OF assms(2)] settles_pending [OF assms(2)] by (auto simp: pairing_ok_def)
qed

lemma on_repo_cases:
  assumes "on_repo op w = (r, w')"
  obtains r0 d' where "op (cw_db w) = (r0, d')" "r = map_sum ChannelDatabase id r0" "w' = w\<lparr>cw_db := d'\<rparr>"
  using assms that by (cases "op (cw_db w)") (auto simp: on_repo_def)

lemma on_repo_reads:
  assumes "reads tables calm op f" "on_repo op w = (r, w')"
  shows "tables (cw_db w') = tables (cw_db w) \<and> cw_events w' = cw_events w \<and> (calm (cw_db w) \<longrightarrow> calm (cw_db w'))
    \<and> (case r of Inl e \<Rightarrow> \<not> calm (cw_db w) \<and> (\<exists>d. e = ChannelDatabase d) | Inr x \<Rightarrow> x = f (tables (cw_db w)))"
  using assms(2)
proof (cases rule: on_repo_cases)
  case (1 r0 d')
  from assms(1) 1(1) show ?thesis by (cases rule: readsE) (auto simp: 1)
qed

lemma on_repo_writes:
  assumes "writes tables calm op guard eff" "on_repo op w = (r, w')"
  shows "cw_events w' = cw_events w \<and> (calm (cw_db w) \<longrightarrow> calm (cw_db w'))
    \<and> (case r of Inl e \<Rightarrow> tables (cw_db w') = tables (cw_db w) \<and> \<not> (calm (cw_db w) \<and> guard (tables (cw_db w))) \<and> (\<exists>d. e = ChannelDatabase d)
       | Inr x \<Rightarrow> guard (tables (cw_db w)) \<and> eff (tables (cw_db w)) = (x, tables (cw_db w')))"
  using assms(2)
proof (cases rule: on_repo_cases)
  case (1 r0 d')
  from assms(1) 1(1) show ?thesis by (cases rule: writesE) (auto simp: 1)
qed

text \<open>A step that only decides pending codes.\<close>

definition decides :: "channel_tables \<Rightarrow> channel_tables \<Rightarrow> bool" where
  "decides t t' \<longleftrightarrow> t' = t\<lparr>ch_pairings := ch_pairings t'\<rparr> \<and> settles (ch_pairings t) (ch_pairings t')"

lemma decides_refl [simp, intro]: "decides t t"
  by (simp add: decides_def)

lemma decides_trans [trans]: "decides a b \<Longrightarrow> decides b c \<Longrightarrow> decides a c"
  unfolding decides_def by (metis channel_tables.update_convs(4) channel_tables.surjective settles_trans)

lemma decides_update: "settles (ch_pairings t) ps \<Longrightarrow> decides t (t\<lparr>ch_pairings := ps\<rparr>)"
  by (simp add: decides_def)

lemma decides_ok: "decides t t' \<Longrightarrow> pairing_ok t \<Longrightarrow> pairing_ok t'"
  unfolding decides_def by (metis pairing_ok_settles)

lemma decides_codes: "decides t t' \<Longrightarrow> pc_code ` set (ch_pairings t') = pc_code ` set (ch_pairings t)"
  unfolding decides_def by (metis set_map settles_codes)

lemma decides_users: "decides t t' \<Longrightarrow> ch_users t' = ch_users t \<and> ch_sessions t' = ch_sessions t"
  unfolding decides_def by (cases t; cases t') simp

lemma status_values [simp]: "pairing_status_display s \<in> set pairing_status_values"
  by (cases s) (simp_all add: pairing_status_values_def)

lemma find_code: "List.find (\<lambda>r. pc_code r = c) ps = Some r \<Longrightarrow> r \<in> set ps \<and> pc_code r = c"
  by (auto simp: find_Some_iff)

definition of_user :: "string \<Rightarrow> string \<Rightarrow> pairing_code_row \<Rightarrow> bool" where
  "of_user pu pt r \<longleftrightarrow> pc_platform_user_id r = pu \<and> pc_platform_type r = pt"

definition expire_codes :: "string set \<Rightarrow> pairing_code_row list \<Rightarrow> pairing_code_row list" where
  "expire_codes C ps = map (\<lambda>r. if pc_code r \<in> C then r\<lparr>pc_status := ''expired''\<rparr> else r) ps"

lemma expire_codes_none [simp]: "expire_codes {} ps = ps"
  by (simp add: expire_codes_def)

lemma codes_expire_codes [simp]: "map pc_code (expire_codes C ps) = map pc_code ps"
  by (simp add: expire_codes_def)

lemma expire_codes_again: "expire_codes C (expire_codes {c} ps) = expire_codes (insert c C) ps"
  by (auto simp: expire_codes_def)

lemma update_where_expire: "update_where pc_code c (\<lambda>r. r\<lparr>pc_status := ''expired''\<rparr>) ps = expire_codes {c} ps"
  by (simp add: update_where_def expire_codes_def)

context pairing_store
begin

lemma set_status_effect:
  assumes "on_repo (cr_update_pairing_status repo c (pairing_status_display st)) w = (r, w')"
    and "distinct (map pc_code (ch_pairings (tables (cw_db w))))"
    and "row \<in> set (ch_pairings (tables (cw_db w)))" "pc_code row = c"
    and "pc_status row = ''pending'' \<and> st \<noteq> PairPending \<or> pc_status row = pairing_status_display st"
  shows "decides (tables (cw_db w)) (tables (cw_db w')) \<and> cw_events w' = cw_events w \<and> (calm (cw_db w) \<longrightarrow> calm (cw_db w') \<and> r = Inr ())
    \<and> (is_ok r \<longrightarrow> row\<lparr>pc_status := pairing_status_display st\<rparr> \<in> set (ch_pairings (tables (cw_db w'))))"
proof -
  have st: "st \<noteq> PairPending \<Longrightarrow> pairing_status_display st \<in> {''approved'', ''rejected'', ''expired''}" by (cases st) auto
  have "settles (ch_pairings (tables (cw_db w)))
      (update_where pc_code c (\<lambda>r. r\<lparr>pc_status := pairing_status_display st\<rparr>) (ch_pairings (tables (cw_db w))))"
    by (rule settles_update [OF assms(2-4)]) (use assms(5) st in blast)
  moreover have "row\<lparr>pc_status := pairing_status_display st\<rparr>
      \<in> set (update_where pc_code c (\<lambda>r. r\<lparr>pc_status := pairing_status_display st\<rparr>) (ch_pairings (tables (cw_db w))))"
    using assms(3,4) by (force simp: update_where_def)
  moreover have "c \<in> pc_code ` set (ch_pairings (tables (cw_db w)))" using assms(3,4) by auto
  ultimately show ?thesis using on_repo_writes [OF set_status [OF status_values] assms(1)]
    by (cases r) (auto dest!: sym [of _ "tables (cw_db w')"] intro: decides_update)
qed

lemma get_valid_effect:
  assumes "get_valid_pending_pairing repo now c w = (r, w')" and "distinct (map pc_code (ch_pairings (tables (cw_db w))))"
  shows "decides (tables (cw_db w)) (tables (cw_db w')) \<and> cw_events w' = cw_events w
    \<and> (case r of Inl _ \<Rightarrow> True
       | Inr row \<Rightarrow> tables (cw_db w') = tables (cw_db w) \<and> row \<in> set (ch_pairings (tables (cw_db w))) \<and> pc_code row = c
           \<and> pc_status row = ''pending'' \<and> now < pc_expires_at row)
    \<and> (calm (cw_db w) \<longrightarrow> calm (cw_db w') \<and> r =
        (case List.find (\<lambda>r. pc_code r = c) (ch_pairings (tables (cw_db w))) of
           None \<Rightarrow> Inl (PairingNotFound c)
         | Some row \<Rightarrow> if pc_status row \<noteq> ''pending'' then Inl (PairingAlreadyProcessed c)
             else if pc_expires_at row \<le> now then Inl (PairingExpired c) else Inr row))"
proof -
  obtain x w1 where q: "on_repo (cr_get_pairing_by_code repo c) w = (x, w1)" by fastforce
  note rd = on_repo_reads [OF get_code q]
  show ?thesis
  proof (cases x)
    case (Inl e)
    then show ?thesis using assms(1) q rd by (auto simp: get_valid_pending_pairing_def and_then_def)
  next
    case (Inr found)
    then have f: "found = List.find (\<lambda>r. pc_code r = c) (ch_pairings (tables (cw_db w)))" using rd by simp
    note r0 = assms(1) [unfolded get_valid_pending_pairing_def q Inr and_then_def, simplified]
    show ?thesis
    proof (cases found)
      case None
      then show ?thesis using r0 rd f by auto
    next
      case (Some row)
      then have row: "row \<in> set (ch_pairings (tables (cw_db w)))" "pc_code row = c" using f find_code by metis+
      have fnd: "List.find (\<lambda>r. pc_code r = c) (ch_pairings (tables (cw_db w))) = Some row" using f Some by simp
      note r1 = r0 [unfolded Some option.case]
      show ?thesis
      proof (cases "pc_status row = ''pending'' \<and> pc_expires_at row \<le> now")
        case False
        then show ?thesis using r1 rd row unfolding fnd by (auto split: if_splits)
      next
        case True
        obtain y w2 where u: "on_repo (cr_update_pairing_status repo c (pairing_status_display PairExpired)) w1 = (y, w2)" by fastforce
        have "decides (tables (cw_db w1)) (tables (cw_db w2)) \<and> cw_events w2 = cw_events w1 \<and> (calm (cw_db w1) \<longrightarrow> calm (cw_db w2) \<and> y = Inr ())"
          using set_status_effect [OF u, of row] assms(2) rd row True by simp
        then show ?thesis using r1 rd True u unfolding fnd by auto
      qed
    qed
  qed
qed

lemma expire_each_effect:
  assumes "expire_each repo pu pt rows w = (r, w')" and "pc_code ` set rows \<subseteq> pc_code ` set (ch_pairings (tables (cw_db w)))"
  shows "\<exists>C. C \<subseteq> pc_code ` set (filter (of_user pu pt) rows) \<and> (is_ok r \<longrightarrow> C = pc_code ` set (filter (of_user pu pt) rows))
    \<and> tables (cw_db w') = (tables (cw_db w))\<lparr>ch_pairings := expire_codes C (ch_pairings (tables (cw_db w)))\<rparr>
    \<and> cw_events w' = cw_events w \<and> (calm (cw_db w) \<longrightarrow> calm (cw_db w') \<and> r = Inr ())"
  using assms
proof (induction rows arbitrary: w)
  case Nil
  then show ?case by auto
next
  case (Cons row rows)
  show ?case
  proof (cases "of_user pu pt row")
    case False
    then have "expire_each repo pu pt rows w = (r, w')" using Cons.prems(1) by (auto simp: of_user_def)
    moreover have "pc_code ` set rows \<subseteq> pc_code ` set (ch_pairings (tables (cw_db w)))" using Cons.prems(2) by simp
    ultimately show ?thesis using Cons.IH False by (simp only: filter.simps if_False)
  next
    case True
    obtain y w1 where u: "on_repo (cr_update_pairing_status repo (pc_code row) (pairing_status_display PairExpired)) w = (y, w1)" by fastforce
    note wr = on_repo_writes [OF set_status [OF status_values] u]
    have run: "and_then (y, w1) (\<lambda>_. expire_each repo pu pt rows) = (r, w')"
      using Cons.prems(1) True unfolding u [symmetric] by (simp add: of_user_def)
    show ?thesis
    proof (cases y)
      case (Inl err)
      then show ?thesis using run wr Cons.prems(2) by (intro exI [of _ "{}"]) (auto simp: and_then_def)
    next
      case (Inr z)
      then have w1: "tables (cw_db w1) = (tables (cw_db w))\<lparr>ch_pairings := expire_codes {pc_code row} (ch_pairings (tables (cw_db w)))\<rparr>"
        using wr by (auto simp: update_where_expire)
      then have sub: "pc_code ` set rows \<subseteq> pc_code ` set (ch_pairings (tables (cw_db w1)))" using Cons.prems(2) by (simp flip: set_map)
      have rest: "expire_each repo pu pt rows w1 = (r, w')" using run Inr by (simp add: and_then_def)
      from Cons.IH [OF rest sub] obtain C where C: "C \<subseteq> pc_code ` set (filter (of_user pu pt) rows)"
        "is_ok r \<longrightarrow> C = pc_code ` set (filter (of_user pu pt) rows)"
        "tables (cw_db w') = (tables (cw_db w1))\<lparr>ch_pairings := expire_codes C (ch_pairings (tables (cw_db w1)))\<rparr>"
        "cw_events w' = cw_events w1" "calm (cw_db w1) \<longrightarrow> calm (cw_db w') \<and> r = Inr ()"
        by (elim exE conjE)
      have "tables (cw_db w') = (tables (cw_db w))\<lparr>ch_pairings := expire_codes (insert (pc_code row) C) (ch_pairings (tables (cw_db w)))\<rparr>"
        using C(3) w1 by (simp add: expire_codes_again)
      moreover have "insert (pc_code row) C \<subseteq> pc_code ` set (filter (of_user pu pt) (row # rows))"
        "is_ok r \<longrightarrow> insert (pc_code row) C = pc_code ` set (filter (of_user pu pt) (row # rows))" using C(1,2) True by auto
      moreover have "cw_events w' = cw_events w" "calm (cw_db w) \<longrightarrow> calm (cw_db w') \<and> r = Inr ()" using C(4,5) wr by simp_all
      ultimately show ?thesis by blast
    qed
  qed
qed

lemma expire_user_effect:
  assumes "expire_user_pending_codes repo pu pt w = (r, w')" and "distinct (map pc_code (ch_pairings (tables (cw_db w))))"
  shows "decides (tables (cw_db w)) (tables (cw_db w')) \<and> cw_events w' = cw_events w \<and> (calm (cw_db w) \<longrightarrow> calm (cw_db w') \<and> r = Inr ())
    \<and> (is_ok r \<longrightarrow> (\<forall>x \<in> set (ch_pairings (tables (cw_db w'))). of_user pu pt x \<longrightarrow> pc_status x \<noteq> ''pending''))"
proof -
  let ?ps = "ch_pairings (tables (cw_db w))"
  obtain x w1 where q: "on_repo (cr_get_pending_pairings repo) w = (x, w1)" by fastforce
  note rd = on_repo_reads [OF pending_codes q]
  show ?thesis
  proof (cases x)
    case (Inl e)
    then show ?thesis using assms(1) q rd by (auto simp: expire_user_pending_codes_def and_then_def)
  next
    case (Inr rows)
    then have rows: "set rows = {r \<in> set ?ps. pc_status r = ''pending''}" using rd by simp
    have "expire_each repo pu pt rows w1 = (r, w')" using assms(1) q Inr by (simp add: expire_user_pending_codes_def and_then_def)
    then obtain C where C: "C \<subseteq> pc_code ` set (filter (of_user pu pt) rows)"
      "is_ok r \<longrightarrow> C = pc_code ` set (filter (of_user pu pt) rows)"
      "tables (cw_db w') = (tables (cw_db w))\<lparr>ch_pairings := expire_codes C ?ps\<rparr>"
      "cw_events w' = cw_events w1" "calm (cw_db w1) \<longrightarrow> calm (cw_db w') \<and> r = Inr ()"
      using expire_each_effect [of pu pt rows w1 r w'] rd rows by auto
    have pend: "pc_status r = ''pending''" if "r \<in> set ?ps" "pc_code r \<in> C" for r
      using that C(1) rows assms(2) by (auto simp: distinct_map dest: inj_onD)
    then have "settles ?ps (expire_codes C ?ps)" unfolding expire_codes_def by (intro settles_map) (auto simp: settled_def)
    moreover have "pc_status x \<noteq> ''pending''" if "is_ok r" "x \<in> set (expire_codes C ?ps)" "of_user pu pt x" for x
      using that C(2) rows by (auto simp: expire_codes_def of_user_def split: if_splits)
    ultimately show ?thesis using C rd by (auto intro: decides_update)
  qed
qed

lemma request_effect:
  assumes "request_pairing repo rng now pu pt name w = (r, w')" and ok: "pairing_ok (tables (cw_db w))"
  shows "\<exists>t. decides (tables (cw_db w)) t
    \<and> (case r of
         Inl _ \<Rightarrow> tables (cw_db w') = t \<and> cw_events w' = cw_events w
       | Inr code \<Rightarrow> generate_pairing_code rng = Inr code \<and> code \<notin> pc_code ` set (ch_pairings t)
           \<and> (\<forall>x \<in> set (ch_pairings t). of_user pu pt x \<longrightarrow> pc_status x \<noteq> ''pending'')
           \<and> tables (cw_db w') = t\<lparr>ch_pairings := ch_pairings t @ [request_row code pu pt name now]\<rparr>
           \<and> cw_events w' = cw_events w @ [PairingRequested code pu pt name (now + pairing_code_ttl_ms)])
    \<and> (calm (cw_db w) \<longrightarrow> calm (cw_db w') \<and>
         (case generate_pairing_code rng of
            Inl e \<Rightarrow> r = Inl e
          | Inr code \<Rightarrow> if code \<in> pc_code ` set (ch_pairings (tables (cw_db w))) then (\<exists>d. r = Inl (ChannelDatabase d)) else r = Inr code))"
proof -
  have dist: "distinct (map pc_code (ch_pairings (tables (cw_db w))))" using ok by (simp add: pairing_ok_def)
  obtain x w1 where q: "expire_user_pending_codes repo pu pt w = (x, w1)" by fastforce
  note ex = expire_user_effect [OF q dist]
  have codes: "pc_code ` set (ch_pairings (tables (cw_db w1))) = pc_code ` set (ch_pairings (tables (cw_db w)))"
    using ex decides_codes by blast
  note run = assms(1) [unfolded request_pairing_def q]
  show ?thesis
  proof (cases x)
    case (Inl e)
    then show ?thesis using run ex by (intro exI [of _ "tables (cw_db w1)"]) (auto simp: and_then_def)
  next
    case (Inr u)
    show ?thesis
    proof (cases "generate_pairing_code rng")
      case gen: (Inl e)
      then have "r = Inl e" "w' = w1" using run Inr by (simp_all add: and_then_def)
      then show ?thesis using ex gen by (intro exI [of _ "tables (cw_db w1)"]) simp
    next
      case gen: (Inr code)
      obtain y w2 where c: "on_repo (cr_create_pairing repo (request_row code pu pt name now)) w1 = (y, w2)" by fastforce
      have "writes tables calm (cr_create_pairing repo (request_row code pu pt name now)) (\<lambda>t. code \<notin> pc_code ` set (ch_pairings t))
          (\<lambda>t. ((), t\<lparr>ch_pairings := ch_pairings t @ [request_row code pu pt name now]\<rparr>))"
        using create_code [of "request_row code pu pt name now"] status_values [of PairPending] by (simp add: request_row_def)
      note wr = on_repo_writes [OF this c]
      have run2: "and_then (y, w2) (\<lambda>_ w. (Inr code, broadcast (PairingRequested code pu pt name (now + pairing_code_ttl_ms)) w)) = (r, w')"
        using run Inr gen c by (simp add: and_then_def)
      show ?thesis
      proof (cases y)
        case (Inl e)
        then have "r = Inl e" "w' = w2" using run2 by (simp_all add: and_then_def)
        then show ?thesis using ex wr codes gen Inl by (intro exI [of _ "tables (cw_db w1)"]) auto
      next
        case y: (Inr v)
        then have "r = Inr code" "w' = broadcast (PairingRequested code pu pt name (now + pairing_code_ttl_ms)) w2"
          using run2 by (simp_all add: and_then_def)
        then show ?thesis using ex wr codes gen y Inr by (intro exI [of _ "tables (cw_db w1)"]) (simp add: broadcast_def)
      qed
    qed
  qed
qed

text \<open>
  An approval either creates no user and at most marks the code expired, or creates the user of a
  pending code that has not expired; then the code is approved unless the database fails there.
\<close>

lemma approve_effect:
  assumes "approve_pairing repo nc now uid code w = (r, w')" and ok: "pairing_ok (tables (cw_db w))"
  obtains (refused) e where "r = Inl e" "decides (tables (cw_db w)) (tables (cw_db w'))" "cw_events w' = cw_events w"
  | (created) row where "row \<in> set (ch_pairings (tables (cw_db w)))" "pc_code row = code" "pc_status row = ''pending''"
      "nc < pc_expires_at row" "\<not> user_key_taken (approved_user uid now row) (ch_users (tables (cw_db w)))"
      "decides ((tables (cw_db w))\<lparr>ch_users := ch_users (tables (cw_db w)) @ [approved_user uid now row]\<rparr>) (tables (cw_db w'))"
      "is_ok r \<Longrightarrow> row\<lparr>pc_status := ''approved''\<rparr> \<in> set (ch_pairings (tables (cw_db w')))
         \<and> cw_events w' = cw_events w @ [UserAuthorized uid (pc_platform_user_id row) (pc_platform_type row) (pc_display_name row)]"
      "calm (cw_db w) \<Longrightarrow> r = Inr ()"
proof -
  have dist: "distinct (map pc_code (ch_pairings (tables (cw_db w))))" using ok by (simp add: pairing_ok_def)
  obtain x w1 where q: "get_valid_pending_pairing repo nc code w = (x, w1)" by fastforce
  note gv = get_valid_effect [OF q dist]
  note run = assms(1) [unfolded approve_pairing_def q]
  show ?thesis
  proof (cases x)
    case (Inl e)
    then show ?thesis using run gv refused by (auto simp: and_then_def)
  next
    case (Inr row)
    then have row: "tables (cw_db w1) = tables (cw_db w)" "row \<in> set (ch_pairings (tables (cw_db w)))" "pc_code row = code"
      "pc_status row = ''pending''" "nc < pc_expires_at row" "cw_events w1 = cw_events w" "calm (cw_db w) \<longrightarrow> calm (cw_db w1)" using gv by auto
    obtain y w2 where c: "on_repo (cr_create_user repo (approved_user uid now row)) w1 = (y, w2)" by fastforce
    note wr = on_repo_writes [OF create_user c]
    show ?thesis
    proof (cases y)
      case (Inl e)
      then show ?thesis using run Inr c wr row refused by (auto simp: and_then_def)
    next
      case y: (Inr u)
      have t2: "tables (cw_db w2) = (tables (cw_db w))\<lparr>ch_users := ch_users (tables (cw_db w)) @ [approved_user uid now row]\<rparr>"
        using wr row(1) y by auto
      obtain z w3 where s: "on_repo (cr_update_pairing_status repo code (pairing_status_display PairApproved)) w2 = (z, w3)" by fastforce
      have st: "decides (tables (cw_db w2)) (tables (cw_db w3))" "cw_events w3 = cw_events w2" "calm (cw_db w2) \<longrightarrow> z = Inr ()"
        "is_ok z \<longrightarrow> row\<lparr>pc_status := ''approved''\<rparr> \<in> set (ch_pairings (tables (cw_db w3)))"
        using set_status_effect [OF s, of row] t2 dist row by auto
      have run2: "and_then (z, w3) (\<lambda>_ w. (Inr (), broadcast (UserAuthorized uid (pc_platform_user_id row) (pc_platform_type row) (pc_display_name row)) w)) = (r, w')"
        using run Inr c y s by (simp add: and_then_def)
      have "\<not> user_key_taken (approved_user uid now row) (ch_users (tables (cw_db w)))" using wr row(1) y by simp
      from created [OF row(2-5) this] show ?thesis using st run2 t2 wr row by (cases z) (auto simp: and_then_def broadcast_def)
    qed
  qed
qed

lemma reject_effect:
  assumes "reject_pairing repo now code w = (r, w')" and ok: "pairing_ok (tables (cw_db w))"
  shows "decides (tables (cw_db w)) (tables (cw_db w')) \<and> cw_events w' = cw_events w"
proof -
  have dist: "distinct (map pc_code (ch_pairings (tables (cw_db w))))" using ok by (simp add: pairing_ok_def)
  obtain x w1 where q: "get_valid_pending_pairing repo now code w = (x, w1)" by fastforce
  note gv = get_valid_effect [OF q dist]
  show ?thesis
  proof (cases x)
    case (Inl e)
    then show ?thesis using assms(1) q gv by (auto simp: reject_pairing_def and_then_def)
  next
    case (Inr row)
    then have "on_repo (cr_update_pairing_status repo code (pairing_status_display PairRejected)) w1 = (r, w')"
      using assms(1) q by (simp add: reject_pairing_def and_then_def)
    then show ?thesis using set_status_effect [of code PairRejected w1 r w' row] gv Inr dist by auto
  qed
qed

lemma cleanup_effect: "decides (tables (cw_db w)) (tables (cw_db (cleanup_tick repo now w)))"
proof -
  obtain x w1 where q: "on_repo (cr_cleanup_expired_pairings repo now) w = (x, w1)" by fastforce
  have "settles ps (map (\<lambda>r. if overdue now r then r\<lparr>pc_status := ''expired''\<rparr> else r) ps)" for ps
    by (rule settles_map) (auto simp: overdue_def settled_def)
  from decides_update [OF this] show ?thesis using on_repo_writes [OF cleanup q]
    by (cases x) (auto simp: cleanup_tick_def q dest!: sym [of _ "tables (cw_db w1)"])
qed

end

end
