(* ===== verification/ChannelSession.thy ===== *)
theory ChannelSession
  imports ChannelPairing
begin

text \<open>
  The session manager of the channels, \<open>aionui-channel/src/session.rs\<close>: every pair of an authorised
  user and a chat has its own session. The manager runs over any repository; its lemmas rest on the
  laws of \<open>session_store\<close>, and its table refines a map from user and chat to the session.
\<close>

section \<open>Operations\<close>

definition new_session_row :: "id \<Rightarrow> timestamp_ms \<Rightarrow> id \<Rightarrow> string \<Rightarrow> string \<Rightarrow> string option \<Rightarrow> assistant_session_row" where
  "new_session_row new_id now user chat agent ws =
     \<lparr>as_id = new_id, as_user_id = user, as_agent_type = agent, as_conversation_id = None, as_workspace = ws,
      as_chat_id = Some chat, as_created_at = now, as_last_activity = now\<rparr>"

text \<open>\<open>now\<close> is the reading of the manager, \<open>now_touch\<close> the one of the repository when it finds a session.\<close>

definition get_or_create_session ::
  "'d channel_repository \<Rightarrow> id \<Rightarrow> timestamp_ms \<Rightarrow> timestamp_ms \<Rightarrow> id \<Rightarrow> string \<Rightarrow> string \<Rightarrow> string option
   \<Rightarrow> 'd channel_world \<Rightarrow> (channel_error + assistant_session_row) \<times> 'd channel_world" where
  "get_or_create_session repo new_id now now_touch user chat agent ws =
     on_repo (cr_get_or_create_session repo now_touch user chat (new_session_row new_id now user chat agent ws))"

definition get_active_sessions ::
  "'d channel_repository \<Rightarrow> 'd channel_world \<Rightarrow> (channel_error + assistant_session_row list) \<times> 'd channel_world" where
  "get_active_sessions repo = on_repo (cr_get_all_sessions repo)"

definition reset_session ::
  "'d channel_repository \<Rightarrow> id \<Rightarrow> timestamp_ms \<Rightarrow> timestamp_ms \<Rightarrow> id \<Rightarrow> string \<Rightarrow> string \<Rightarrow> string option
   \<Rightarrow> 'd channel_world \<Rightarrow> (channel_error + assistant_session_row) \<times> 'd channel_world" where
  "reset_session repo new_id now now_touch user chat agent ws w =
     and_then (on_repo (cr_delete_session_by_user_chat repo user chat) w) (\<lambda>_.
       on_repo (cr_get_or_create_session repo now_touch user chat (new_session_row new_id now user chat agent ws)))"

definition update_agent_type ::
  "'d channel_repository \<Rightarrow> timestamp_ms \<Rightarrow> id \<Rightarrow> string \<Rightarrow> 'd channel_world \<Rightarrow> (channel_error + unit) \<times> 'd channel_world" where
  "update_agent_type repo now session agent = on_repo (cr_update_session_agent_type repo now session agent)"

definition cleanup_user_sessions ::
  "'d channel_repository \<Rightarrow> id \<Rightarrow> 'd channel_world \<Rightarrow> (channel_error + unit) \<times> 'd channel_world" where
  "cleanup_user_sessions repo user = on_repo (cr_delete_sessions_by_user repo user)"

text \<open>The loop of \<open>clear_all_sessions\<close>; \<open>cleared\<close> is the hash set of users already cleared.\<close>

fun clear_users ::
  "'d channel_repository \<Rightarrow> id list \<Rightarrow> assistant_session_row list \<Rightarrow> 'd channel_world
   \<Rightarrow> (channel_error + unit) \<times> 'd channel_world" where
  "clear_users repo cleared [] w = (Inr (), w)"
| "clear_users repo cleared (s # rest) w =
     (if as_user_id s \<in> set cleared then clear_users repo cleared rest w
      else and_then (on_repo (cr_delete_sessions_by_user repo (as_user_id s)) w)
             (\<lambda>_. clear_users repo (as_user_id s # cleared) rest))"

definition clear_all_sessions ::
  "'d channel_repository \<Rightarrow> 'd channel_world \<Rightarrow> (channel_error + unit) \<times> 'd channel_world" where
  "clear_all_sessions repo w = and_then (on_repo (cr_get_all_sessions repo) w) (clear_users repo [])"

definition get_session_by_id ::
  "'d channel_repository \<Rightarrow> id \<Rightarrow> 'd channel_world \<Rightarrow> (channel_error + assistant_session_row option) \<times> 'd channel_world" where
  "get_session_by_id repo session = on_repo (cr_get_session repo session)"

definition bind_conversation ::
  "'d channel_repository \<Rightarrow> timestamp_ms \<Rightarrow> id \<Rightarrow> id \<Rightarrow> 'd channel_world \<Rightarrow> (channel_error + unit) \<times> 'd channel_world" where
  "bind_conversation repo now session conv = on_repo (cr_update_session_conversation repo now session conv)"

section \<open>The table as a map\<close>

definition session_of :: "channel_tables \<Rightarrow> id \<times> string \<Rightarrow> assistant_session_row option" where
  "session_of t k = List.find (in_chat (fst k) (snd k)) (ch_sessions t)"

definition one_per_chat :: "assistant_session_row list \<Rightarrow> bool" where
  "one_per_chat ss \<longleftrightarrow> (\<forall>u c. \<forall>s \<in> set ss. \<forall>s' \<in> set ss. in_chat u c s \<longrightarrow> in_chat u c s' \<longrightarrow> s = s')"

definition sessions_ok :: "channel_tables \<Rightarrow> bool" where
  "sessions_ok t \<longleftrightarrow> distinct (map as_id (ch_sessions t))
     \<and> as_user_id ` set (ch_sessions t) \<subseteq> au_id ` set (ch_users t)
     \<and> one_per_chat (ch_sessions t)"

lemma one_per_chatD: "one_per_chat ss \<Longrightarrow> s \<in> set ss \<Longrightarrow> s' \<in> set ss \<Longrightarrow> in_chat u c s \<Longrightarrow> in_chat u c s' \<Longrightarrow> s = s'"
  by (auto simp: one_per_chat_def)

lemma one_per_chat_map:
  assumes "one_per_chat ss" "\<And>x. x \<in> set ss \<Longrightarrow> as_user_id (g x) = as_user_id x \<and> as_chat_id (g x) = as_chat_id x"
  shows "one_per_chat (map g ss)"
  unfolding one_per_chat_def
proof (intro allI ballI impI)
  fix u c y y' assume "y \<in> set (map g ss)" "y' \<in> set (map g ss)" and c: "in_chat u c y" "in_chat u c y'"
  then obtain x x' where x: "x \<in> set ss" "y = g x" "x' \<in> set ss" "y' = g x'" by auto
  then have "in_chat u c x" "in_chat u c x'" using assms(2) c by (simp_all add: in_chat_def)
  then show "y = y'" using one_per_chatD [OF assms(1)] x by blast
qed

lemma one_per_chat_filter: "one_per_chat ss \<Longrightarrow> one_per_chat (filter q ss)"
  by (auto simp: one_per_chat_def)

lemma one_per_chat_snoc:
  "one_per_chat ss \<Longrightarrow> in_chat u c s \<Longrightarrow> \<forall>x \<in> set ss. \<not> in_chat u c x \<Longrightarrow> one_per_chat (ss @ [s])"
  by (auto simp: one_per_chat_def in_chat_def)

lemma find_filter: "List.find p (filter q xs) = List.find (\<lambda>x. q x \<and> p x) xs"
  by (induction xs) auto

lemma find_append: "List.find p (xs @ ys) = or_else (List.find p xs) (List.find p ys)"
  by (induction xs) (auto simp: or_else_def)

lemma find_update:
  assumes "\<And>x. x \<in> set xs \<Longrightarrow> p (f x) = p x"
  shows "List.find p (map f xs) = map_option f (List.find p xs)"
  using assms by (induction xs) auto

lemma session_of_iff:
  assumes "sessions_ok t"
  shows "session_of t (u, c) = Some s \<longleftrightarrow> s \<in> set (ch_sessions t) \<and> in_chat u c s"
proof
  assume s: "s \<in> set (ch_sessions t) \<and> in_chat u c s"
  then obtain s' where s': "List.find (in_chat u c) (ch_sessions t) = Some s'"
    by (cases "List.find (in_chat u c) (ch_sessions t)") (auto simp: find_None_iff)
  have "s' = s" using assms s find_in_set [OF s'] one_per_chatD unfolding sessions_ok_def by blast
  then show "session_of t (u, c) = Some s" using s' by (simp add: session_of_def)
qed (auto simp: session_of_def dest: find_in_set)

lemma session_of_in: "session_of t k = Some s \<Longrightarrow> s \<in> set (ch_sessions t) \<and> in_chat (fst k) (snd k) s"
  by (auto simp: session_of_def dest: find_in_set)

lemma in_chat_unique: "in_chat u c s \<Longrightarrow> in_chat (fst k) (snd k) s \<longleftrightarrow> k = (u, c)"
  by (cases k) (auto simp: in_chat_def)

lemma length_le_one: "distinct xs \<Longrightarrow> (\<And>x y. x \<in> set xs \<Longrightarrow> y \<in> set xs \<Longrightarrow> x = y) \<Longrightarrow> length xs \<le> 1"
proof (cases xs)
  case (Cons a ys)
  assume "distinct xs" and eq: "\<And>x y. x \<in> set xs \<Longrightarrow> y \<in> set xs \<Longrightarrow> x = y"
  have "x = a" if "x \<in> set ys" for x using eq [of x a] that Cons by simp
  then have "ys = []" using \<open>distinct xs\<close> Cons by (cases ys) auto
  then show ?thesis using Cons by simp
qed simp

lemma sessions_of_chat:
  assumes "sessions_ok t" shows "length (filter (in_chat u c) (ch_sessions t)) \<le> 1"
proof (rule length_le_one)
  show "distinct (filter (in_chat u c) (ch_sessions t))" using assms by (auto simp: sessions_ok_def distinct_map)
  show "x = y" if "x \<in> set (filter (in_chat u c) (ch_sessions t))" "y \<in> set (filter (in_chat u c) (ch_sessions t))" for x y
    using that assms one_per_chatD by (auto simp: sessions_ok_def)
qed

lemma session_of_filtered:
  assumes "sessions_ok t" "session_of t (u, c) = Some s"
  shows "filter (in_chat u c) (ch_sessions t) = [s]"
proof -
  have "s \<in> set (filter (in_chat u c) (ch_sessions t))" using session_of_in [OF assms(2)] by simp
  then show ?thesis using sessions_of_chat [OF assms(1), of u c] by (cases "filter (in_chat u c) (ch_sessions t)") auto
qed

text \<open>An update by id of the session of one chat changes that entry of the map only.\<close>

lemma session_of_update:
  assumes ok: "sessions_ok t" and s: "s \<in> set (ch_sessions t)"
    and f: "as_id (f s) = as_id s \<and> as_user_id (f s) = as_user_id s \<and> as_chat_id (f s) = as_chat_id s"
  defines "t' \<equiv> t\<lparr>ch_sessions := update_where as_id (as_id s) f (ch_sessions t)\<rparr>"
  shows "sessions_ok t'"
    and "session_of t' k = (if in_chat (fst k) (snd k) s then Some (f s) else session_of t k)"
proof -
  define g where "g x = (if as_id x = as_id s then f x else x)" for x
  have one: "x = s" if "x \<in> set (ch_sessions t)" "as_id x = as_id s" for x
    using that s ok by (auto simp: sessions_ok_def distinct_map dest: inj_onD)
  have same: "as_id (g x) = as_id x \<and> as_user_id (g x) = as_user_id x \<and> as_chat_id (g x) = as_chat_id x" if "x \<in> set (ch_sessions t)" for x
    using that f one by (auto simp: g_def)
  have t': "ch_sessions t' = map g (ch_sessions t)" "ch_users t' = ch_users t" by (simp_all add: t'_def update_where_def g_def)
  have ids: "map as_id (ch_sessions t') = map as_id (ch_sessions t)" using same by (simp add: t')
  have fk: "as_user_id ` set (ch_sessions t') = as_user_id ` set (ch_sessions t)" by (simp add: t'(1) image_image same)
  show "sessions_ok t'" unfolding sessions_ok_def ids fk t'(2) using ok one_per_chat_map [of "ch_sessions t" g] same
    by (simp add: sessions_ok_def t'(1))
  have "session_of t' k = map_option g (session_of t k)" unfolding session_of_def t'(1)
    by (rule find_update) (simp add: in_chat_def same)
  moreover have "map_option g (session_of t k) = (if in_chat (fst k) (snd k) s then Some (f s) else session_of t k)"
  proof (cases "session_of t k")
    case None
    then have "\<not> in_chat (fst k) (snd k) s" using session_of_iff [OF ok, of "fst k" "snd k" s] s by auto
    then show ?thesis using None by simp
  next
    case (Some x)
    then have x: "x \<in> set (ch_sessions t)" "in_chat (fst k) (snd k) x" using session_of_iff [OF ok, of "fst k" "snd k" x] by auto
    show ?thesis
    proof (cases "x = s")
      case True
      then show ?thesis using Some x by (simp add: g_def)
    next
      case False
      then have "\<not> in_chat (fst k) (snd k) s" "g x = x" using x s one one_per_chatD ok by (auto simp: g_def sessions_ok_def)
      then show ?thesis using Some by simp
    qed
  qed
  ultimately show "session_of t' k = (if in_chat (fst k) (snd k) s then Some (f s) else session_of t k)" by simp
qed

lemma session_of_filter:
  assumes "sessions_ok t"
  shows "sessions_ok (t\<lparr>ch_sessions := filter q (ch_sessions t)\<rparr>)"
    and "session_of (t\<lparr>ch_sessions := filter q (ch_sessions t)\<rparr>) k = (case session_of t k of Some s \<Rightarrow> if q s then Some s else None | None \<Rightarrow> None)"
proof -
  show ok': "sessions_ok (t\<lparr>ch_sessions := filter q (ch_sessions t)\<rparr>)" using assms
    by (auto simp: sessions_ok_def one_per_chat_filter distinct_map_filter)
  show "session_of (t\<lparr>ch_sessions := filter q (ch_sessions t)\<rparr>) k = (case session_of t k of Some s \<Rightarrow> if q s then Some s else None | None \<Rightarrow> None)"
    (is "?new = _")
  proof (cases ?new)
    case None
    then show ?thesis using session_of_iff [OF assms, of "fst k" "snd k"]
      by (auto simp: session_of_def [of "_\<lparr>ch_sessions := _\<rparr>"] find_None_iff split: option.split)
  next
    case (Some s)
    then have "s \<in> set (ch_sessions t) \<and> in_chat (fst k) (snd k) s \<and> q s" using session_of_iff [OF ok', of "fst k" "snd k"] by auto
    then show ?thesis using session_of_iff [OF assms, of "fst k" "snd k" s] Some by auto
  qed
qed

lemma session_of_insert:
  assumes "sessions_ok t" "session_of t (u, c) = None" "in_chat u c s" "as_id s \<notin> as_id ` set (ch_sessions t)"
    "as_user_id s \<in> au_id ` set (ch_users t)"
  shows "sessions_ok (t\<lparr>ch_sessions := ch_sessions t @ [s]\<rparr>)"
    and "session_of (t\<lparr>ch_sessions := ch_sessions t @ [s]\<rparr>) k = (if k = (u, c) then Some s else session_of t k)"
proof -
  have none: "\<not> in_chat u c x" if "x \<in> set (ch_sessions t)" for x using assms(2) that by (auto simp: session_of_def find_None_iff)
  show "sessions_ok (t\<lparr>ch_sessions := ch_sessions t @ [s]\<rparr>)" using assms none one_per_chat_snoc [of "ch_sessions t" u c s]
    by (simp add: sessions_ok_def)
  show "session_of (t\<lparr>ch_sessions := ch_sessions t @ [s]\<rparr>) k = (if k = (u, c) then Some s else session_of t k)"
  proof (cases "k = (u, c)")
    case True
    then show ?thesis using assms(2,3) by (simp add: session_of_def find_append or_else_def)
  next
    case False
    then have "\<not> in_chat (fst k) (snd k) s" using assms(3) by (cases k) (auto simp: in_chat_def)
    then show ?thesis using False by (simp add: session_of_def find_append or_else_def split: option.split)
  qed
qed

section \<open>The operations on the map\<close>

context session_store
begin

text \<open>Finding or creating a session sets the entry of its chat and no other.\<close>

lemma get_or_create_effect:
  assumes "on_repo (cr_get_or_create_session repo nt u c (new_session_row i now u c agent ws)) w = (r, w')"
    and ok: "sessions_ok (tables (cw_db w))"
  shows "sessions_ok (tables (cw_db w')) \<and> ch_users (tables (cw_db w')) = ch_users (tables (cw_db w))
     \<and> ch_pairings (tables (cw_db w')) = ch_pairings (tables (cw_db w)) \<and> cw_events w' = cw_events w
     \<and> (case r of
          Inl _ \<Rightarrow> tables (cw_db w') = tables (cw_db w)
        | Inr s \<Rightarrow> s = (case session_of (tables (cw_db w)) (u, c) of
                        Some old \<Rightarrow> old\<lparr>as_last_activity := nt\<rparr> | None \<Rightarrow> new_session_row i now u c agent ws)
            \<and> session_of (tables (cw_db w')) = (session_of (tables (cw_db w)))((u, c) \<mapsto> s))"
proof -
  let ?t = "tables (cw_db w)" and ?new = "new_session_row i now u c agent ws"
  note wr = on_repo_writes [OF get_or_create assms(1)]
  show ?thesis
  proof (cases r)
    case (Inl e)
    then show ?thesis using wr ok by simp
  next
    case (Inr s)
    show ?thesis
    proof (cases "List.find (in_chat u c) (ch_sessions ?t)")
      case None
      then have "as_id ?new \<notin> as_id ` set (ch_sessions ?t)" "session_keys_ok ?new ?t" and t': "s = ?new" "tables (cw_db w') = ?t\<lparr>ch_sessions := ch_sessions ?t @ [?new]\<rparr>"
        using wr Inr by (auto simp: find_ex)
      moreover have "in_chat u c ?new" by (simp add: in_chat_def new_session_row_def)
      ultimately have "sessions_ok (tables (cw_db w'))" "session_of (tables (cw_db w')) = (session_of ?t)((u, c) \<mapsto> s)"
        using session_of_insert [OF ok, of u c ?new] None by (auto simp: session_of_def session_keys_ok_def fun_eq_iff)
      then show ?thesis using wr Inr t' None by (simp add: session_of_def)
    next
      case (Some old)
      let ?f = "\<lambda>s. s\<lparr>as_last_activity := nt\<rparr>"
      have t': "s = ?f old" "tables (cw_db w') = ?t\<lparr>ch_sessions := update_where as_id (as_id old) ?f (ch_sessions ?t)\<rparr>"
        using wr Inr Some by auto
      have old: "old \<in> set (ch_sessions ?t)" "in_chat u c old" using find_in_set [OF Some] by auto
      note in_chat_unique [OF old(2)]
      then have "sessions_ok (tables (cw_db w'))" "session_of (tables (cw_db w')) = (session_of ?t)((u, c) \<mapsto> s)"
        using session_of_update [OF ok old(1), of ?f] t' by (auto simp: fun_eq_iff)
      then show ?thesis using wr Inr t' Some by (simp add: session_of_def)
    qed
  qed
qed

lemma get_or_create_calm:
  assumes "on_repo (cr_get_or_create_session repo nt u c (new_session_row i now u c agent ws)) w = (r, w')"
    and "calm (cw_db w)" "i \<notin> as_id ` set (ch_sessions (tables (cw_db w)))" "u \<in> au_id ` set (ch_users (tables (cw_db w)))"
  shows "is_ok r \<and> calm (cw_db w')"
  using on_repo_writes [OF get_or_create assms(1)] assms(2-4)
  by (cases r) (auto simp: new_session_row_def session_keys_ok_def)

lemma delete_chat_effect:
  assumes "on_repo (cr_delete_session_by_user_chat repo u c) w = (r, w')" and ok: "sessions_ok (tables (cw_db w))"
  shows "sessions_ok (tables (cw_db w')) \<and> ch_users (tables (cw_db w')) = ch_users (tables (cw_db w))
     \<and> ch_pairings (tables (cw_db w')) = ch_pairings (tables (cw_db w)) \<and> cw_events w' = cw_events w
     \<and> set (ch_sessions (tables (cw_db w'))) \<subseteq> set (ch_sessions (tables (cw_db w)))
     \<and> (calm (cw_db w) \<longrightarrow> calm (cw_db w') \<and> is_ok r)
     \<and> (case r of Inl _ \<Rightarrow> tables (cw_db w') = tables (cw_db w)
        | Inr _ \<Rightarrow> session_of (tables (cw_db w')) = (session_of (tables (cw_db w)))((u, c) := None))"
proof -
  let ?t = "tables (cw_db w)"
  note wr = on_repo_writes [OF delete_of_chat assms(1)]
  show ?thesis
  proof (cases r)
    case (Inl e)
    then show ?thesis using wr ok by simp
  next
    case (Inr x)
    have w': "tables (cw_db w') = ?t\<lparr>ch_sessions := filter (\<lambda>s. \<not> in_chat u c s) (ch_sessions ?t)\<rparr>" using wr Inr by simp
    have "session_of (tables (cw_db w')) k = (if k = (u, c) then None else session_of ?t k)" for k
    proof (cases "session_of ?t k")
      case None
      then show ?thesis using session_of_filter(2) [OF ok, of _ k] by (simp add: w')
    next
      case (Some s)
      then have "in_chat u c s \<longleftrightarrow> k = (u, c)" using session_of_in [OF Some] in_chat_unique by (metis fst_conv snd_conv)
      then show ?thesis using session_of_filter(2) [OF ok, of _ k] Some by (simp add: w')
    qed
    then show ?thesis using wr Inr session_of_filter(1) [OF ok] w' by (auto simp: fun_eq_iff)
  qed
qed

lemma clear_users_effect:
  assumes "clear_users repo cleared ss w = (r, w')" "is_ok r"
    and "\<forall>s \<in> set (ch_sessions (tables (cw_db w))). s \<in> set ss \<and> as_user_id s \<notin> set cleared"
  shows "ch_sessions (tables (cw_db w')) = []"
  using assms
proof (induction ss arbitrary: cleared w)
  case Nil
  then have "set (ch_sessions (tables (cw_db w))) \<subseteq> set []" by blast
  then show ?case using Nil.prems(1) by simp
next
  case (Cons s ss)
  show ?case
  proof (cases "as_user_id s \<in> set cleared")
    case True
    then show ?thesis using Cons.prems by (intro Cons.IH [of cleared w]) auto
  next
    case False
    obtain x w1 where q: "on_repo (cr_delete_sessions_by_user repo (as_user_id s)) w = (x, w1)" by fastforce
    have run: "and_then (x, w1) (\<lambda>_. clear_users repo (as_user_id s # cleared) ss) = (r, w')"
      using Cons.prems(1) False unfolding q [symmetric] by simp
    then obtain y where x: "x = Inr y" using Cons.prems(2) by (cases x) (auto simp: and_then_def)
    have "clear_users repo (as_user_id s # cleared) ss w1 = (r, w')" using run x by (simp add: and_then_def)
    moreover have "\<forall>s' \<in> set (ch_sessions (tables (cw_db w1))). s' \<in> set ss \<and> as_user_id s' \<notin> set (as_user_id s # cleared)"
      using on_repo_writes [OF delete_of_user q] x Cons.prems(3) by (auto dest!: sym [of _ "tables (cw_db w1)"])
    ultimately show ?thesis using Cons.IH Cons.prems(2) by blast
  qed
qed

lemma clear_all_effect:
  assumes "clear_all_sessions repo w = (r, w')" "is_ok r"
  shows "ch_sessions (tables (cw_db w')) = []"
proof -
  obtain x w1 where q: "on_repo (cr_get_all_sessions repo) w = (x, w1)" by fastforce
  note rd = on_repo_reads [OF all_sessions q]
  show ?thesis
  proof (cases x)
    case (Inl e)
    then show ?thesis using assms q by (auto simp: clear_all_sessions_def and_then_def)
  next
    case (Inr ss)
    then show ?thesis using assms q rd by (intro clear_users_effect [of "[]" ss w1 r w']) (auto simp: clear_all_sessions_def and_then_def)
  qed
qed

end

end
