(* ===== verification/ChannelAction.thy ===== *)
theory ChannelAction
  imports ChannelSession
begin

text \<open>
  The message entry point of the channels: the action executor \<open>aionui-channel/src/action.rs\<close>, with the
  message types of \<open>types.rs\<close> and the delivery of a response in \<open>orchestrator.rs\<close>. It composes the pairing
  service and the session manager: a message of an unknown user starts a pairing, a button is routed to
  its handler, a text resolves the session it is dispatched to.

  Strings are their UTF-8 bytes. \<open>agent_config\<close> stands for the answer of
  \<open>ChannelSettingsService::get_agent_config\<close>, which reads other tables and changes none of the four
  channel tables. A slice \<open>&s[..8]\<close> that Rust refuses is the failure \<open>SlicePanic\<close>.
\<close>

section \<open>Messages\<close>

datatype plugin_type = Telegram | Lark | Dingtalk | Weixin | Slack | Discord

fun plugin_type_display :: "plugin_type \<Rightarrow> string" where
  "plugin_type_display Telegram = ''telegram''"
| "plugin_type_display Lark = ''lark''"
| "plugin_type_display Dingtalk = ''dingtalk''"
| "plugin_type_display Weixin = ''weixin''"
| "plugin_type_display Slack = ''slack''"
| "plugin_type_display Discord = ''discord''"

definition plugin_type_from_str_opt :: "string \<Rightarrow> plugin_type option" where
  "plugin_type_from_str_opt s =
     (if s = ''telegram'' then Some Telegram
      else if s = ''lark'' then Some Lark
      else if s = ''dingtalk'' then Some Dingtalk
      else if s = ''weixin'' then Some Weixin
      else if s = ''slack'' then Some Slack
      else if s = ''discord'' then Some Discord
      else None)"

datatype message_content_type =
  ContentText | ContentPhoto | ContentDocument | ContentVoice | ContentAudio | ContentVideo
  | ContentSticker | ContentAction | ContentCommand

record unified_user =
  uu_id :: string
  uu_username :: "string option"
  uu_display_name :: string
  uu_avatar_url :: "string option"

record unified_attachment =
  ut_file_id :: "string option"
  ut_file_name :: "string option"
  ut_mime_type :: "string option"
  ut_file_size :: "u64 option"
  ut_url :: "string option"

record unified_message_content =
  uc_content_type :: message_content_type
  uc_text :: string
  uc_attachments :: "unified_attachment list option"

datatype action_category = PlatformAction | SystemAction | ChatAction

record action_context =
  ac_platform :: plugin_type
  ac_user_id :: string
  ac_chat_id :: string
  ac_message_id :: "string option"
  ac_session_id :: "string option"

record unified_action =
  ua_action :: string
  ua_category :: action_category
  ua_params :: "(string, string) table option"
  ua_context :: action_context

record 'j unified_incoming_message =
  um_id :: string
  um_platform :: plugin_type
  um_chat_id :: string
  um_user :: unified_user
  um_content :: unified_message_content
  um_timestamp :: int
  um_reply_to_message_id :: "string option"
  um_action :: "unified_action option"
  um_raw :: "'j option"

datatype parse_mode = HTML | MarkdownV2 | Markdown

datatype action_behavior = Send | Edit | Answer

record action_button =
  ab_label :: string
  ab_action :: string
  ab_params :: "(string, string) table option"

record action_response =
  rs_text :: "string option"
  rs_parse_mode :: "parse_mode option"
  rs_buttons :: "action_button list list option"
  rs_keyboard :: "action_button list list option"
  rs_behavior :: action_behavior
  rs_toast :: "string option"
  rs_edit_message_id :: "string option"

datatype message_result =
    Action action_response
  | Dispatched id "id option"
  | AlreadyProcessing

record resolved_agent_config =
  rc_agent_type :: string
  rc_backend :: "string option"

datatype action_failure = Failed channel_error | SlicePanic

section \<open>Texts\<close>

definition newline :: string where
  "newline = [CHR 0x0A]"

definition arrow :: string where
  "arrow = [CHR 0xE2, CHR 0x86, CHR 0x92]"

definition bullet :: string where
  "bullet = [CHR 0xE2, CHR 0x80, CHR 0xA2]"

definition apostrophe :: string where
  "apostrophe = [CHR 0x27]"

text \<open>\<open>&s[..n]\<close>: the index must be the end of the string or the first byte of a character.\<close>

definition str_prefix :: "nat \<Rightarrow> string \<Rightarrow> string option" where
  "str_prefix n s =
     (if n = length s \<or> (n < length s \<and> (of_char (s ! n) < (128 :: nat) \<or> 192 \<le> (of_char (s ! n) :: nat)))
      then Some (take n s) else None)"

definition button :: "string \<Rightarrow> string \<Rightarrow> action_button" where
  "button label act = \<lparr>ab_label = label, ab_action = act, ab_params = None\<rparr>"

definition text_response :: "string \<Rightarrow> action_button list list option \<Rightarrow> action_response" where
  "text_response txt btns =
     \<lparr>rs_text = Some txt, rs_parse_mode = None, rs_buttons = btns, rs_keyboard = None,
      rs_behavior = Send, rs_toast = None, rs_edit_message_id = None\<rparr>"

definition toast_response :: "action_behavior \<Rightarrow> string \<Rightarrow> action_response" where
  "toast_response b toast =
     \<lparr>rs_text = None, rs_parse_mode = None, rs_buttons = None, rs_keyboard = None,
      rs_behavior = b, rs_toast = Some toast, rs_edit_message_id = None\<rparr>"

definition build_pairing_response :: "string \<Rightarrow> action_response" where
  "build_pairing_response code =
     text_response
       (''Welcome! To use this bot, you need authorization.'' @ newline @ newline
        @ ''Your pairing code: *'' @ code @ ''*'' @ newline @ newline
        @ ''Share this code with the admin, who can approve it in Settings '' @ arrow @ '' Channel '' @ arrow
        @ '' Pairing Requests.'' @ newline @ ''The code expires in 10 minutes.'')
       (Some [[button ''Refresh Code'' ''pairing.refresh'', button ''Check Status'' ''pairing.check'',
               button ''Help'' ''pairing.help'']])"

definition build_help_response :: action_response where
  "build_help_response =
     text_response (''How can I help?'' @ newline @ ''Choose an option below or just send me a message.'')
       (Some [[button ''New Session'' ''session.new'', button ''Session Status'' ''session.status''],
              [button ''Features'' ''help.features'', button ''Tips'' ''help.tips'']])"

definition build_unknown_action_response :: "string \<Rightarrow> action_response" where
  "build_unknown_action_response act = text_response (''Unknown action: '' @ act) None"

section \<open>Handlers\<close>

text \<open>What one handler draws from its environment: random bytes, clock readings, a fresh session id.\<close>

record channel_draws =
  dr_rng :: "string + 8 word \<times> 8 word \<times> 8 word \<times> 8 word"
  dr_now_request :: timestamp_ms
  dr_session_id :: id
  dr_now_session :: timestamp_ms
  dr_now_touch :: timestamp_ms

text \<open>A call of a service followed by \<open>?\<close>.\<close>

definition on_service :: "(channel_error + 'a) \<times> 'w \<Rightarrow> (action_failure + 'a) \<times> 'w" where
  "on_service x = (map_sum Failed id (fst x), snd x)"

definition handle_unauthorized ::
  "'d channel_repository \<Rightarrow> channel_draws \<Rightarrow> string \<Rightarrow> string \<Rightarrow> string \<Rightarrow> 'd channel_world
   \<Rightarrow> (action_failure + action_response) \<times> 'd channel_world" where
  "handle_unauthorized repo dr pu pt name w =
     and_then (on_service (request_pairing repo (dr_rng dr) (dr_now_request dr) pu pt (Some name) w))
       (\<lambda>code w. (Inr (build_pairing_response code), w))"

definition handle_platform_action ::
  "'d channel_repository \<Rightarrow> channel_draws \<Rightarrow> unified_action \<Rightarrow> 'd channel_world
   \<Rightarrow> (action_failure + action_response) \<times> 'd channel_world" where
  "handle_platform_action repo dr a w =
     (let user = ac_user_id (ua_context a); platform = plugin_type_display (ac_platform (ua_context a)) in
      if ua_action a = ''pairing.show'' \<or> ua_action a = ''pairing.refresh'' then
        and_then (on_service (request_pairing repo (dr_rng dr) (dr_now_request dr) user platform None w))
          (\<lambda>code w. (Inr (build_pairing_response code), w))
      else if ua_action a = ''pairing.check'' then
        and_then (on_service (is_user_authorized repo user platform w)) (\<lambda>authorized w.
          (Inr (if authorized then text_response ''You are authorized! Send a message to start chatting.'' None
                else text_response
                  (''Still waiting for approval. Ask the admin to check Settings '' @ arrow @ '' Channel.'')
                  (Some [[button ''Refresh'' ''pairing.refresh'', button ''Check Again'' ''pairing.check'']])), w))
      else if ua_action a = ''pairing.help'' then
        (Inr (text_response
           (''To use this bot, you need authorization:'' @ newline
            @ ''1. Send any message to get a 6-digit pairing code'' @ newline
            @ ''2. Share this code with the admin'' @ newline
            @ ''3. Admin approves in Settings '' @ arrow @ '' Channel'' @ newline
            @ ''4. You'' @ apostrophe @ ''re ready to chat!'') None), w)
      else (Inr (build_unknown_action_response (ua_action a)), w))"

definition new_session_response :: "assistant_session_row \<Rightarrow> action_failure + action_response" where
  "new_session_response s =
     (case str_prefix 8 (as_id s) of
        None \<Rightarrow> Inl SlicePanic
      | Some short \<Rightarrow>
          Inr (text_response (''New session created.'' @ newline @ ''Agent: '' @ as_agent_type s @ newline @ ''Session: '' @ short)
                 (Some [[button ''Help'' ''help.show'']])))"

definition session_status_response :: "assistant_session_row \<Rightarrow> action_failure + action_response" where
  "session_status_response s =
     (case str_prefix 8 (as_id s) of
        None \<Rightarrow> Inl SlicePanic
      | Some short \<Rightarrow>
          Inr (text_response (''Session: '' @ short @ newline @ ''Agent: '' @ as_agent_type s @ newline
                  @ ''Created: '' @ decimal_int (as_created_at s) @ newline
                  @ ''Last active: '' @ decimal_int (as_last_activity s))
                 (Some [[button ''New Session'' ''session.new'']])))"

definition handle_system_action ::
  "'d channel_repository \<Rightarrow> (plugin_type \<Rightarrow> channel_error + resolved_agent_config) \<Rightarrow> channel_draws
   \<Rightarrow> unified_action \<Rightarrow> id \<Rightarrow> 'd channel_world \<Rightarrow> (action_failure + action_response) \<times> 'd channel_world" where
  "handle_system_action repo agent_config dr a user w =
     (let chat = ac_chat_id (ua_context a) in
      if ua_action a = ''session.new'' then
        and_then (on_service (agent_config (ac_platform (ua_context a)), w)) (\<lambda>cfg w.
        and_then (on_service (reset_session repo (dr_session_id dr) (dr_now_session dr) (dr_now_touch dr)
                    user chat (rc_agent_type cfg) None w))
          (\<lambda>s w. (new_session_response s, w)))
      else if ua_action a = ''session.status'' then
        and_then (on_service (agent_config (ac_platform (ua_context a)), w)) (\<lambda>cfg w.
        and_then (on_service (get_or_create_session repo (dr_session_id dr) (dr_now_session dr) (dr_now_touch dr)
                    user chat (rc_agent_type cfg) None w))
          (\<lambda>s w. (session_status_response s, w)))
      else if ua_action a = ''help.show'' then (Inr build_help_response, w)
      else if ua_action a = ''help.features'' then
        (Inr (text_response
           (''Features:'' @ newline @ bullet @ '' AI chat through your configured assistant'' @ newline
            @ bullet @ '' Tool execution with auto-approval'' @ newline @ bullet @ '' Session isolation per chat'') None), w)
      else if ua_action a = ''help.pairing'' then
        (Inr (text_response
           (''Pairing:'' @ newline @ ''Send any message '' @ arrow @ '' get a 6-digit code '' @ arrow
            @ '' admin approves '' @ arrow @ '' you'' @ apostrophe @ ''re in!'') None), w)
      else if ua_action a = ''help.tips'' then
        (Inr (text_response
           (''Tips:'' @ newline @ bullet @ '' Start a new session to clear context'' @ newline
            @ bullet @ '' Use /help to see available commands'' @ newline
            @ bullet @ '' In group chats, @mention the bot'') None), w)
      else if ua_action a = ''settings.show'' then
        (Inr (text_response
           (''Settings are managed in the desktop app.'' @ newline
            @ ''Go to Settings '' @ arrow @ '' Channel to configure plugins and manage users.'') None), w)
      else (Inr (build_unknown_action_response (ua_action a)), w))"

text \<open>The parameters of \<open>system.confirm\<close> are only logged.\<close>

definition handle_chat_action :: "unified_action \<Rightarrow> action_response" where
  "handle_chat_action a =
     (if ua_action a \<in> {''chat.send'', ''chat.regenerate'', ''chat.continue''} then toast_response Send ''Processing...''
      else if ua_action a = ''action.copy'' then toast_response Answer ''Copied to clipboard''
      else if ua_action a = ''system.confirm'' then toast_response Answer ''Confirmed''
      else build_unknown_action_response (ua_action a))"

definition route_action ::
  "'d channel_repository \<Rightarrow> (plugin_type \<Rightarrow> channel_error + resolved_agent_config) \<Rightarrow> channel_draws
   \<Rightarrow> unified_action \<Rightarrow> id \<Rightarrow> 'd channel_world \<Rightarrow> (action_failure + action_response) \<times> 'd channel_world" where
  "route_action repo agent_config dr a user w =
     (case ua_category a of
        PlatformAction \<Rightarrow> handle_platform_action repo dr a w
      | SystemAction \<Rightarrow> handle_system_action repo agent_config dr a user w
      | ChatAction \<Rightarrow> (Inr (handle_chat_action a), w))"

definition handle_incoming_message ::
  "'d channel_repository \<Rightarrow> (plugin_type \<Rightarrow> channel_error + resolved_agent_config) \<Rightarrow> channel_draws
   \<Rightarrow> 'j unified_incoming_message \<Rightarrow> 'd channel_world \<Rightarrow> (action_failure + message_result) \<times> 'd channel_world" where
  "handle_incoming_message repo agent_config dr msg w =
     (let platform_type = plugin_type_display (um_platform msg); user_id = uu_id (um_user msg) in
      and_then (on_service (get_internal_user_id repo user_id platform_type w)) (\<lambda>internal w.
        case internal of
          None \<Rightarrow>
            and_then (handle_unauthorized repo dr user_id platform_type (uu_display_name (um_user msg)) w)
              (\<lambda>response w. (Inr (Action response), w))
        | Some user \<Rightarrow>
            (case um_action msg of
               Some a \<Rightarrow>
                 and_then (route_action repo agent_config dr a user w) (\<lambda>response w. (Inr (Action response), w))
             | None \<Rightarrow>
                 and_then (on_service (agent_config (um_platform msg), w)) (\<lambda>cfg w.
                 and_then (on_service (get_or_create_session repo (dr_session_id dr) (dr_now_session dr) (dr_now_touch dr)
                             user (um_chat_id msg) (rc_agent_type cfg) None w))
                   (\<lambda>s w. (Inr (Dispatched (as_id s) (as_conversation_id s)), w))))))"

section \<open>Delivering a response\<close>

datatype outgoing_message_type = OutText | OutImage | OutFile | OutButtons

record channel_media_action =
  ma_url :: string
  ma_label :: "string option"

record unified_outgoing_message =
  uo_message_type :: outgoing_message_type
  uo_text :: "string option"
  uo_parse_mode :: "parse_mode option"
  uo_buttons :: "action_button list list option"
  uo_keyboard :: "action_button list list option"
  uo_image_url :: "string option"
  uo_file_url :: "string option"
  uo_file_name :: "string option"
  uo_media_actions :: "channel_media_action list option"
  uo_reply_to_message_id :: "string option"
  uo_silent :: "bool option"

datatype delivery =
    SendMessage string string unified_outgoing_message
  | EditMessage string string string unified_outgoing_message

definition text_outgoing ::
  "string \<Rightarrow> parse_mode option \<Rightarrow> action_button list list option \<Rightarrow> action_button list list option \<Rightarrow> unified_outgoing_message" where
  "text_outgoing txt mode btns keys =
     \<lparr>uo_message_type = OutText, uo_text = Some txt, uo_parse_mode = mode, uo_buttons = btns, uo_keyboard = keys,
      uo_image_url = None, uo_file_url = None, uo_file_name = None, uo_media_actions = None,
      uo_reply_to_message_id = None, uo_silent = None\<rparr>"

text \<open>The call of the sender that \<open>send_action_response\<close> makes; its outcome is ignored.\<close>

definition send_action_response :: "string \<Rightarrow> string \<Rightarrow> action_response \<Rightarrow> delivery option" where
  "send_action_response plugin chat response =
     (case rs_text response of
        None \<Rightarrow> None
      | Some txt \<Rightarrow>
          let outgoing = text_outgoing txt (rs_parse_mode response) (rs_buttons response) (rs_keyboard response) in
          (case rs_behavior response of
             Edit \<Rightarrow> map_option (\<lambda>edit_id. EditMessage plugin chat edit_id outgoing) (rs_edit_message_id response)
           | _ \<Rightarrow> Some (SendMessage plugin chat outgoing)))"

section \<open>Revoking a user\<close>

definition revoke_user :: "'d channel_repository \<Rightarrow> id \<Rightarrow> 'd channel_world \<Rightarrow> (channel_error + unit) \<times> 'd channel_world" where
  "revoke_user repo user w =
     and_then (cleanup_user_sessions repo user w) (\<lambda>_. on_repo (cr_delete_user repo user))"

lemma plugin_type_round_trip:
  "plugin_type_from_str_opt (plugin_type_display p) = Some p"
  "plugin_type_from_str_opt s = Some p \<Longrightarrow> plugin_type_display p = s"
  by (cases p; simp add: plugin_type_from_str_opt_def)
     (auto simp: plugin_type_from_str_opt_def split: if_splits)

end
