(* ===== verification/ChannelAccess.thy ===== *)
theory ChannelAccess
  imports ChannelAction
begin

text \<open>
  Access to the channels: what the message entry point, the pairing service and the session manager
  guarantee together. The lemmas hold for every repository that keeps the laws of \<open>channel_store\<close>;
  the properties are stated for the SQLite repository, over histories of calls in any order, with any
  readings of the clock, any random bytes and any failures of the database.
\<close>

section \<open>Histories of calls\<close>

datatype 'j channel_call =
    Incoming "'j unified_incoming_message" channel_draws
  | Approve string timestamp_ms timestamp_ms id
  | Reject string timestamp_ms
  | Cleanup timestamp_ms
  | Revoke id

fun serve ::
  "'d channel_repository \<Rightarrow> (plugin_type \<Rightarrow> channel_error + resolved_agent_config) \<Rightarrow> 'j channel_call
   \<Rightarrow> 'd channel_world \<Rightarrow> 'd channel_world" where
  "serve repo cfg (Incoming msg dr) w = snd (handle_incoming_message repo cfg dr msg w)"
| "serve repo cfg (Approve code now_check now user_id) w = snd (approve_pairing repo now_check now user_id code w)"
| "serve repo cfg (Reject code now) w = snd (reject_pairing repo now code w)"
| "serve repo cfg (Cleanup now) w = cleanup_tick repo now w"
| "serve repo cfg (Revoke user) w = snd (revoke_user repo user w)"

text \<open>
  The newest call stands first. The system starts with no user, session or code; the plugins, the
  conversations and the failures to come are arbitrary.
\<close>

inductive channel_run ::
  "(plugin_type \<Rightarrow> channel_error + resolved_agent_config) \<Rightarrow> 'j channel_call list \<Rightarrow> channel_db channel_world \<Rightarrow> bool"
  for cfg where
  start: "ch_users t = [] \<Longrightarrow> ch_sessions t = [] \<Longrightarrow> ch_pairings t = [] \<Longrightarrow>
     channel_run cfg [] \<lparr>cw_db = \<lparr>cd_tables = t, cd_faults = fs\<rparr>, cw_events = []\<rparr>"
| step: "channel_run cfg h w \<Longrightarrow> channel_run cfg (c # h) (serve sqlite_channel_repository cfg c w)"

text \<open>The identities a message may ask a code for: its sender, and the one a pairing button names.\<close>

definition requesters :: "'j unified_incoming_message \<Rightarrow> (string \<times> string) set" where
  "requesters msg = insert (uu_id (um_user msg), plugin_type_display (um_platform msg))
     (case um_action msg of
        Some a \<Rightarrow> if ua_category a = PlatformAction \<and> ua_action a \<in> {''pairing.show'', ''pairing.refresh''}
                  then {(ac_user_id (ua_context a), plugin_type_display (ac_platform (ua_context a)))} else {}
      | None \<Rightarrow> {})"

lemma on_service_simps [simp]: "on_service (Inl e, w) = (Inl (Failed e), w)" "on_service (Inr x, w) = (Inr x, w)"
  by (simp_all add: on_service_def)

section \<open>What a call may do to the codes\<close>

definition evolves :: "(pairing_code_row \<Rightarrow> bool) \<Rightarrow> channel_tables \<Rightarrow> channel_tables \<Rightarrow> bool" where
  "evolves new t t' \<longleftrightarrow>
     (\<forall>r' \<in> set (ch_pairings t'). new r' \<or> (\<exists>r \<in> set (ch_pairings t). settled r r')) \<and>
     (\<forall>r \<in> set (ch_pairings t). \<exists>r' \<in> set (ch_pairings t'). settled r r')"

lemma tables_evolve_same: "ch_pairings t' = ch_pairings t \<Longrightarrow> evolves new t t'"
  by (auto simp: evolves_def settled_def)

lemma evolves_decides: "decides t t' \<Longrightarrow> evolves new t t'"
  by (auto simp: evolves_def decides_def dest: settles_later settles_earlier)

lemma evolves_request:
  "decides t t1 \<Longrightarrow> ch_pairings t' = ch_pairings t1 @ [row] \<Longrightarrow> new row \<Longrightarrow> evolves new t t'"
  using evolves_decides [of t t1 new] by (auto simp: evolves_def)

lemma evolves_mono: "evolves new t t' \<Longrightarrow> (\<And>r. new r \<Longrightarrow> new' r) \<Longrightarrow> evolves new' t t'"
  by (auto simp: evolves_def)

definition issued_by :: "(string \<times> string) set \<Rightarrow> channel_draws \<Rightarrow> pairing_code_row \<Rightarrow> bool" where
  "issued_by ids dr r \<longleftrightarrow> generate_pairing_code (dr_rng dr) = Inr (pc_code r)
     \<and> (pc_platform_user_id r, pc_platform_type r) \<in> ids \<and> pc_requested_at r = dr_now_request dr"

text \<open>The invariant of all four tables.\<close>

definition access_ok :: "channel_tables \<Rightarrow> bool" where
  "access_ok t \<longleftrightarrow> pairing_ok t \<and> sessions_ok t"

lemma pairing_ok_request:
  assumes "pairing_ok t" "code \<notin> pc_code ` set (ch_pairings t)"
    "\<forall>x \<in> set (ch_pairings t). of_user pu pt x \<longrightarrow> pc_status x \<noteq> ''pending''"
  shows "pairing_ok (t\<lparr>ch_pairings := ch_pairings t @ [request_row code pu pt name now]\<rparr>)"
  using assms by (auto simp: pairing_ok_def request_row_def same_identity_def of_user_def pairing_status_values_def)

lemma pairing_ok_sessions [simp]: "pairing_ok (t\<lparr>ch_sessions := ss\<rparr>) = pairing_ok t"
  by (simp add: pairing_ok_def)

lemma sessions_ok_pairings [simp]: "sessions_ok (t\<lparr>ch_pairings := ps\<rparr>) = sessions_ok t"
  by (simp add: sessions_ok_def)

lemma sessions_ok_tables: "ch_sessions t' = ch_sessions t \<Longrightarrow> au_id ` set (ch_users t) \<subseteq> au_id ` set (ch_users t') \<Longrightarrow> sessions_ok t \<Longrightarrow> sessions_ok t'"
  unfolding sessions_ok_def by (metis subset_trans)

lemma pairing_ok_tables: "ch_users t' = ch_users t \<Longrightarrow> ch_pairings t' = ch_pairings t \<Longrightarrow> pairing_ok t \<Longrightarrow> pairing_ok t'"
  by (simp add: pairing_ok_def)

lemma access_ok_decides: "decides t t' \<Longrightarrow> access_ok t \<Longrightarrow> access_ok t'"
  unfolding access_ok_def using decides_ok [of t t'] decides_users [of t t'] sessions_ok_tables [of t' t] by auto

lemma access_ok_user:
  assumes "access_ok t" "\<not> user_key_taken u (ch_users t)"
  shows "access_ok (t\<lparr>ch_users := ch_users t @ [u]\<rparr>)"
proof -
  have "sessions_ok (t\<lparr>ch_users := ch_users t @ [u]\<rparr>)" using assms(1) by (auto simp: access_ok_def intro: sessions_ok_tables [of _ t])
  moreover have "pairing_ok (t\<lparr>ch_users := ch_users t @ [u]\<rparr>)" using assms
    by (auto simp: access_ok_def pairing_ok_def user_key_taken_def on_platform_def list_ex_iff)
  ultimately show ?thesis by (simp add: access_ok_def)
qed

section \<open>The calls over any repository\<close>

locale channel_store = pairing_store + session_store
begin

lemma request_evolves:
  assumes "request_pairing repo (dr_rng dr) (dr_now_request dr) pu pt name w = (r, w')" and ok: "access_ok (tables (cw_db w))"
  shows "evolves (issued_by {(pu, pt)} dr) (tables (cw_db w)) (tables (cw_db w')) \<and> access_ok (tables (cw_db w'))
    \<and> ch_users (tables (cw_db w')) = ch_users (tables (cw_db w)) \<and> ch_sessions (tables (cw_db w')) = ch_sessions (tables (cw_db w))"
proof -
  have pok: "pairing_ok (tables (cw_db w))" using ok by (simp add: access_ok_def)
  obtain t where t: "decides (tables (cw_db w)) t" and r: "case r of
         Inl _ \<Rightarrow> tables (cw_db w') = t \<and> cw_events w' = cw_events w
       | Inr code \<Rightarrow> generate_pairing_code (dr_rng dr) = Inr code \<and> code \<notin> pc_code ` set (ch_pairings t)
           \<and> (\<forall>x \<in> set (ch_pairings t). of_user pu pt x \<longrightarrow> pc_status x \<noteq> ''pending'')
           \<and> tables (cw_db w') = t\<lparr>ch_pairings := ch_pairings t @ [request_row code pu pt name (dr_now_request dr)]\<rparr>
           \<and> cw_events w' = cw_events w @ [PairingRequested code pu pt name (dr_now_request dr + pairing_code_ttl_ms)]"
    using request_effect [OF assms(1) pok] by (elim exE conjE)
  have okt: "access_ok t" using access_ok_decides [OF t ok] .
  show ?thesis
  proof (cases r)
    case (Inl e)
    then show ?thesis using r t okt decides_users [OF t] by (simp add: evolves_decides)
  next
    case (Inr code)
    let ?row = "request_row code pu pt name (dr_now_request dr)"
    have w': "tables (cw_db w') = t\<lparr>ch_pairings := ch_pairings t @ [?row]\<rparr>" using r Inr by simp
    have "access_ok (tables (cw_db w'))" using pairing_ok_request r Inr okt w' by (simp add: access_ok_def)
    moreover have "evolves (issued_by {(pu, pt)} dr) (tables (cw_db w)) (tables (cw_db w'))"
      using r Inr w' by (intro evolves_request [OF t]) (auto simp: issued_by_def request_row_def)
    ultimately show ?thesis using w' decides_users [OF t] by simp
  qed
qed

lemma get_or_create_keeps:
  assumes "get_or_create_session repo i now nt u c agent ws w = (r, w')" and ok: "access_ok (tables (cw_db w))"
  shows "access_ok (tables (cw_db w')) \<and> ch_users (tables (cw_db w')) = ch_users (tables (cw_db w))
    \<and> ch_pairings (tables (cw_db w')) = ch_pairings (tables (cw_db w))"
  using get_or_create_effect [OF assms(1) [unfolded get_or_create_session_def]] ok pairing_ok_tables [of "tables (cw_db w')" "tables (cw_db w)"]
  by (simp add: access_ok_def)

lemma reset_keeps:
  assumes "reset_session repo i now nt u c agent ws w = (r, w')" and ok: "access_ok (tables (cw_db w))"
  shows "access_ok (tables (cw_db w')) \<and> ch_users (tables (cw_db w')) = ch_users (tables (cw_db w))
    \<and> ch_pairings (tables (cw_db w')) = ch_pairings (tables (cw_db w))"
proof -
  obtain x w1 where q: "on_repo (cr_delete_session_by_user_chat repo u c) w = (x, w1)" by fastforce
  have sok: "sessions_ok (tables (cw_db w))" using ok by (simp add: access_ok_def)
  note del = delete_chat_effect [OF q sok]
  have ok1: "access_ok (tables (cw_db w1))" using del ok pairing_ok_tables [of "tables (cw_db w1)" "tables (cw_db w)"] by (simp add: access_ok_def)
  show ?thesis
  proof (cases x)
    case (Inl e)
    then have "w' = w1" using assms(1) q by (simp add: reset_session_def and_then_def)
    then show ?thesis using ok1 del by simp
  next
    case (Inr y)
    then have "get_or_create_session repo i now nt u c agent ws w1 = (r, w')"
      using assms(1) q by (simp add: reset_session_def and_then_def get_or_create_session_def)
    then show ?thesis using get_or_create_keeps [OF _ ok1] del by simp
  qed
qed

text \<open>What a message may do: ask a code for one of the identities \<open>ids\<close>, and change sessions.\<close>

definition keeps :: "(string \<times> string) set \<Rightarrow> channel_draws \<Rightarrow> 'a channel_world \<Rightarrow> 'a channel_world \<Rightarrow> bool" where
  "keeps ids dr w w' \<longleftrightarrow> evolves (issued_by ids dr) (tables (cw_db w)) (tables (cw_db w')) \<and> access_ok (tables (cw_db w'))
     \<and> ch_users (tables (cw_db w')) = ch_users (tables (cw_db w))"

lemma keeps_refl [simp]: "access_ok (tables (cw_db w)) \<Longrightarrow> keeps ids dr w w"
  by (simp add: keeps_def tables_evolve_same)

lemma keeps_mono: "keeps ids dr w w' \<Longrightarrow> ids \<subseteq> ids' \<Longrightarrow> keeps ids' dr w w'"
  unfolding keeps_def by (metis (no_types, lifting) evolves_mono issued_by_def subsetD)

lemma user_id_reads:
  assumes "get_internal_user_id repo pu pt w = (r, w')"
  shows "tables (cw_db w') = tables (cw_db w) \<and> cw_events w' = cw_events w \<and> (calm (cw_db w) \<longrightarrow> calm (cw_db w') \<and> is_ok r)
    \<and> (is_ok r \<longrightarrow> r = Inr (map_option au_id (List.find (on_platform pu pt) (ch_users (tables (cw_db w))))))"
proof -
  obtain x w1 where q: "on_repo (cr_get_user_by_platform repo pu pt) w = (x, w1)" by fastforce
  show ?thesis using on_repo_reads [OF get_user q] assms q by (cases x) (auto simp: get_internal_user_id_def and_then_def)
qed

lemma authorized_reads:
  assumes "is_user_authorized repo pu pt w = (r, w')" shows "tables (cw_db w') = tables (cw_db w)"
proof -
  obtain x w1 where q: "on_repo (cr_get_user_by_platform repo pu pt) w = (x, w1)" by fastforce
  show ?thesis using on_repo_reads [OF get_user q] assms q by (cases x) (auto simp: is_user_authorized_def and_then_def)
qed

lemma snd_on_service [simp]: "snd (on_service x) = snd x"
  by (simp add: on_service_def)

lemma request_keeps:
  assumes "access_ok (tables (cw_db w))"
  shows "keeps {(pu, pt)} dr w (snd (request_pairing repo (dr_rng dr) (dr_now_request dr) pu pt name w))"
  using request_evolves [OF prod.collapse [symmetric] assms] by (simp add: keeps_def)

lemma platform_action_keeps:
  assumes "access_ok (tables (cw_db w))" "um_action msg = Some a" "ua_category a = PlatformAction"
  shows "keeps (requesters msg) dr w (snd (handle_platform_action repo dr a w))"
proof -
  let ?u = "ac_user_id (ua_context a)" and ?p = "plugin_type_display (ac_platform (ua_context a))"
  consider (ask) "ua_action a = ''pairing.show'' \<or> ua_action a = ''pairing.refresh''"
    | (check) "ua_action a = ''pairing.check''" | (other) "ua_action a \<notin> {''pairing.show'', ''pairing.refresh'', ''pairing.check''}" by blast
  then show ?thesis
  proof cases
    case ask
    then have "snd (handle_platform_action repo dr a w) = snd (request_pairing repo (dr_rng dr) (dr_now_request dr) ?u ?p None w)"
      by (simp add: handle_platform_action_def snd_and_then_pure)
    moreover have "{(?u, ?p)} \<subseteq> requesters msg" using ask assms(2,3) by (auto simp: requesters_def)
    ultimately show ?thesis using keeps_mono [OF request_keeps [OF assms(1)]] by metis
  next
    case check
    obtain x w1 where q: "is_user_authorized repo ?u ?p w = (x, w1)" by fastforce
    have "snd (handle_platform_action repo dr a w) = w1" using check q by (simp add: handle_platform_action_def snd_and_then_pure)
    then show ?thesis using authorized_reads [OF q] assms(1) by (simp add: keeps_def tables_evolve_same)
  next
    case other
    then show ?thesis using assms(1) by (simp add: handle_platform_action_def)
  qed
qed

lemma keeps_sessions:
  "access_ok (tables (cw_db w')) \<and> ch_users (tables (cw_db w')) = ch_users (tables (cw_db w))
     \<and> ch_pairings (tables (cw_db w')) = ch_pairings (tables (cw_db w)) \<Longrightarrow> keeps ids dr w w'"
  by (simp add: keeps_def tables_evolve_same)

lemma get_or_create_keeps_snd:
  "access_ok (tables (cw_db w)) \<Longrightarrow> keeps ids dr w (snd (get_or_create_session repo i now nt u c agent ws w))"
  by (rule keeps_sessions, rule get_or_create_keeps) (auto intro: prod.collapse [symmetric])

lemma reset_keeps_snd:
  "access_ok (tables (cw_db w)) \<Longrightarrow> keeps ids dr w (snd (reset_session repo i now nt u c agent ws w))"
  by (rule keeps_sessions, rule reset_keeps) (auto intro: prod.collapse [symmetric])

text \<open>The configuration is read first and changes nothing.\<close>

lemma config_then_keeps:
  assumes "access_ok (tables (cw_db w))" "\<And>c. keeps ids dr w (snd (k c w))"
  shows "keeps ids dr w (snd (and_then (on_service (cfg, w)) k))"
  using assms by (cases cfg) (auto simp: and_then_def on_service_def)

lemma system_action_keeps:
  assumes "access_ok (tables (cw_db w))"
  shows "keeps ids dr w (snd (handle_system_action repo cfg dr a user w))"
  unfolding handle_system_action_def Let_def using assms
  by (auto intro!: config_then_keeps simp: snd_and_then_pure get_or_create_keeps_snd reset_keeps_snd)

lemma route_action_keeps:
  assumes "access_ok (tables (cw_db w))" "um_action msg = Some a"
  shows "keeps (requesters msg) dr w (snd (route_action repo cfg dr a user w))"
  using assms platform_action_keeps [OF assms] system_action_keeps [OF assms(1)]
  by (cases "ua_category a") (simp_all add: route_action_def)

lemma incoming_keeps:
  assumes "access_ok (tables (cw_db w))"
  shows "keeps (requesters msg) dr w (snd (handle_incoming_message repo cfg dr msg w))"
proof -
  let ?pu = "uu_id (um_user msg)" and ?pt = "plugin_type_display (um_platform msg)"
  obtain x w1 where q: "get_internal_user_id repo ?pu ?pt w = (x, w1)" by fastforce
  have same: "tables (cw_db w1) = tables (cw_db w)" using user_id_reads [OF q] by simp
  then have ok1: "access_ok (tables (cw_db w1))" using assms by simp
  have "keeps (requesters msg) dr w1 (snd (handle_incoming_message repo cfg dr msg w))"
  proof (cases x)
    case (Inl e)
    then show ?thesis using ok1 q by (simp add: handle_incoming_message_def)
  next
    case (Inr found)
    show ?thesis
    proof (cases found)
      case None
      then have "snd (handle_incoming_message repo cfg dr msg w) = snd (request_pairing repo (dr_rng dr) (dr_now_request dr) ?pu ?pt (Some (uu_display_name (um_user msg))) w1)"
        using q Inr by (simp add: handle_incoming_message_def snd_and_then_pure handle_unauthorized_def)
      moreover have "{(?pu, ?pt)} \<subseteq> requesters msg" by (simp add: requesters_def)
      ultimately show ?thesis using keeps_mono [OF request_keeps [OF ok1]] by metis
    next
      case (Some user)
      then show ?thesis using q Inr route_action_keeps [OF ok1, of msg]
        by (cases "um_action msg")
           (auto simp: handle_incoming_message_def snd_and_then_pure
              intro!: config_then_keeps [OF ok1] get_or_create_keeps_snd [OF ok1])
    qed
  qed
  then show ?thesis using same by (simp add: keeps_def)
qed

text \<open>A message is dispatched only for an authorised sender, to the session of that user and chat.\<close>

lemma dispatch_authorised:
  assumes "handle_incoming_message repo cfg dr msg w = (Inr (Dispatched sid conv), w')" and ok: "access_ok (tables (cw_db w))"
  shows "\<exists>u s. u \<in> set (ch_users (tables (cw_db w))) \<and> on_platform (uu_id (um_user msg)) (plugin_type_display (um_platform msg)) u
    \<and> session_of (tables (cw_db w')) (au_id u, um_chat_id msg) = Some s \<and> as_id s = sid \<and> as_conversation_id s = conv"
proof -
  let ?pu = "uu_id (um_user msg)" and ?pt = "plugin_type_display (um_platform msg)"
  obtain x w1 where q: "get_internal_user_id repo ?pu ?pt w = (x, w1)" by fastforce
  note rd = user_id_reads [OF q]
  note run = assms(1) [unfolded handle_incoming_message_def Let_def q]
  obtain user where x: "x = Inr (Some user)"
  proof (cases x)
    case (Inl e)
    then show ?thesis using run by simp
  next
    case (Inr found)
    obtain y w2 where h: "handle_unauthorized repo dr ?pu ?pt (uu_display_name (um_user msg)) w1 = (y, w2)" by fastforce
    show ?thesis
    proof (cases found)
      case None
      then show ?thesis using run Inr h by (cases y) simp_all
    qed (use that Inr in simp)
  qed
  have "map_option au_id (List.find (on_platform ?pu ?pt) (ch_users (tables (cw_db w)))) = Some user" using rd x by simp
  then obtain u where fu: "List.find (on_platform ?pu ?pt) (ch_users (tables (cw_db w))) = Some u" and us: "user = au_id u" by auto
  have u: "u \<in> set (ch_users (tables (cw_db w)))" "on_platform ?pu ?pt u" "user = au_id u" using find_in_set [OF fu] us by simp_all
  have act: "um_action msg = None"
  proof (cases "um_action msg")
    case (Some a)
    obtain y w2 where "route_action repo cfg dr a user w1 = (y, w2)" by fastforce
    then show ?thesis using run x Some by (cases y) auto
  qed
  obtain c where c: "cfg (um_platform msg) = Inr c" using run x act by (cases "cfg (um_platform msg)") auto
  obtain y w2 where g: "get_or_create_session repo (dr_session_id dr) (dr_now_session dr) (dr_now_touch dr) user (um_chat_id msg) (rc_agent_type c) None w1 = (y, w2)"
    by fastforce
  obtain s where s: "y = Inr s" "as_id s = sid" "as_conversation_id s = conv" "w' = w2" using run x act c g by (cases y) auto
  have "sessions_ok (tables (cw_db w1))" using rd ok by (simp add: access_ok_def)
  from get_or_create_effect [OF g [unfolded get_or_create_session_def] this] s u show ?thesis by auto
qed

lemma revoke_keeps:
  assumes "revoke_user repo i w = (r, w')" and ok: "access_ok (tables (cw_db w))"
  shows "access_ok (tables (cw_db w')) \<and> ch_pairings (tables (cw_db w')) = ch_pairings (tables (cw_db w))
    \<and> set (ch_users (tables (cw_db w'))) \<subseteq> set (ch_users (tables (cw_db w)))
    \<and> (is_ok r \<longrightarrow> i \<notin> au_id ` set (ch_users (tables (cw_db w'))) \<and> i \<notin> as_user_id ` set (ch_sessions (tables (cw_db w'))))"
proof -
  obtain x w1 where q: "on_repo (cr_delete_sessions_by_user repo i) w = (x, w1)" by fastforce
  obtain y w2 where d: "on_repo (cr_delete_user repo i) w1 = (y, w2)" by fastforce
  have run: "and_then (x, w1) (\<lambda>_. on_repo (cr_delete_user repo i)) = (r, w')" using assms(1) q by (simp add: revoke_user_def cleanup_user_sessions_def)
  define t1 where "t1 = tables (cw_db w1)"
  have t1: "t1 = tables (cw_db w) \<or> t1 = (tables (cw_db w))\<lparr>ch_sessions := filter (\<lambda>s. as_user_id s \<noteq> i) (ch_sessions (tables (cw_db w)))\<rparr>"
    using on_repo_writes [OF delete_of_user q] by (cases x) (auto simp: t1_def)
  then have ok1: "access_ok t1" "ch_pairings t1 = ch_pairings (tables (cw_db w))" "ch_users t1 = ch_users (tables (cw_db w))"
    using ok session_of_filter(1) [of "tables (cw_db w)"] by (auto simp: access_ok_def)
  show ?thesis
  proof (cases x)
    case (Inl e)
    then show ?thesis using run ok1 by (auto simp: t1_def)
  next
    case (Inr z)
    then have e: "y = r" "w2 = w'" using run d by simp_all
    note wr = on_repo_writes [OF delete_user d, folded t1_def, unfolded e]
    show ?thesis
    proof (cases r)
      case (Inl e)
      then show ?thesis using wr ok1 by auto
    next
      case (Inr v)
      then have t2: "tables (cw_db w') = t1\<lparr>ch_users := filter (\<lambda>r. au_id r \<noteq> i) (ch_users t1), ch_sessions := filter (\<lambda>s. as_user_id s \<noteq> i) (ch_sessions t1)\<rparr>"
        using wr by simp
      have "pairing_ok (tables (cw_db w'))" using ok1(1) by (simp add: t2 access_ok_def pairing_ok_def distinct_map_filter)
      moreover have "sessions_ok (tables (cw_db w'))" using ok1(1)
        by (auto simp: t2 access_ok_def sessions_ok_def one_per_chat_filter distinct_map_filter image_subset_iff)
      ultimately show ?thesis using ok1 t2 by (auto simp: access_ok_def)
    qed
  qed
qed

end

interpretation sqlite_channel: channel_store sqlite_channel_repository cd_tables channel_calm
  by unfold_locales

section \<open>Histories\<close>

text \<open>The code \<open>r\<close> was issued by a message of the history; \<open>u\<close> was created by an approval of an issued code.\<close>

definition requested_in :: "'j channel_call list \<Rightarrow> pairing_code_row \<Rightarrow> bool" where
  "requested_in h r \<longleftrightarrow> (\<exists>msg dr. Incoming msg dr \<in> set h \<and> issued_by (requesters msg) dr r)"

definition authorised_in :: "'j channel_call list \<Rightarrow> assistant_user_row \<Rightarrow> bool" where
  "authorised_in h u \<longleftrightarrow> (\<exists>h1 h2 code now_check msg dr.
     h = h1 @ Approve code now_check (au_authorized_at u) (au_id u) # h2 \<and> Incoming msg dr \<in> set h2
     \<and> generate_pairing_code (dr_rng dr) = Inr code
     \<and> (au_platform_user_id u, au_platform_type u) \<in> requesters msg
     \<and> now_check < dr_now_request dr + pairing_code_ttl_ms)"

lemma requested_Cons: "requested_in h r \<Longrightarrow> requested_in (c # h) r"
  by (auto simp: requested_in_def)

lemma authorised_Cons: "authorised_in h u \<Longrightarrow> authorised_in (c # h) u"
  unfolding authorised_in_def by (metis append_Cons)

lemma settled_requested: "settled r r' \<Longrightarrow> requested_in h r \<Longrightarrow> requested_in h r'"
  using settled_same [of r r'] by (auto simp: requested_in_def issued_by_def)

lemma evolves_requested:
  assumes "evolves new t t'" "\<And>r. r \<in> set (ch_pairings t) \<Longrightarrow> requested_in h r" "\<And>r. new r \<Longrightarrow> requested_in (c # h) r"
    and "r' \<in> set (ch_pairings t')"
  shows "requested_in (c # h) r'"
  using assms unfolding evolves_def by (metis requested_Cons settled_requested)

lemma approved_authorised:
  assumes "row \<in> set (ch_pairings t)" "pairing_ok t" "requested_in h row" "nc < pc_expires_at row" "pc_code row = code"
  shows "authorised_in (Approve code nc now uid # h) (approved_user uid now row)"
proof -
  have exp: "pc_expires_at row = pc_requested_at row + pairing_code_ttl_ms" using assms(1,2) by (simp add: pairing_ok_def)
  obtain msg dr where msg: "Incoming msg dr \<in> set h" "issued_by (requesters msg) dr row" using assms(3) by (auto simp: requested_in_def)
  show ?thesis unfolding authorised_in_def
    by (intro exI [of _ "[]"] exI [of _ h] exI [of _ code] exI [of _ nc] exI [of _ msg] exI [of _ dr])
       (use msg exp assms(4,5) in \<open>simp add: issued_by_def approved_user_def\<close>)
qed

text \<open>One call, on the tables: what it may add to the codes and to the users.\<close>

lemma serve_effect:
  assumes ok: "access_ok (cd_tables (cw_db w))"
    and req: "\<And>r. r \<in> set (ch_pairings (cd_tables (cw_db w))) \<Longrightarrow> requested_in h r"
    and w': "w' = serve sqlite_channel_repository cfg c w"
  shows "access_ok (cd_tables (cw_db w'))
    \<and> evolves (\<lambda>r. requested_in (c # h) r) (cd_tables (cw_db w)) (cd_tables (cw_db w'))
    \<and> (\<forall>u \<in> set (ch_users (cd_tables (cw_db w'))). u \<in> set (ch_users (cd_tables (cw_db w))) \<or> authorised_in (c # h) u)"
proof (cases c)
  case (Incoming msg dr)
  have "issued_by (requesters msg) dr r \<Longrightarrow> requested_in (c # h) r" for r using Incoming by (auto simp: requested_in_def)
  then show ?thesis using sqlite_channel.incoming_keeps [OF ok, of msg dr cfg] Incoming w'
    by (auto simp: sqlite_channel.keeps_def elim: evolves_mono)
next
  case (Approve code nc now uid)
  have pok: "pairing_ok (cd_tables (cw_db w))" using ok by (simp add: access_ok_def)
  obtain r where q: "approve_pairing sqlite_channel_repository nc now uid code w = (r, w')" using w' Approve by (simp add: prod_eq_iff)
  from q pok show ?thesis
  proof (cases rule: sqlite_pairing.approve_effect)
    case (refused e)
    then show ?thesis using access_ok_decides ok decides_users by (auto simp: evolves_decides)
  next
    case (created row)
    let ?u = "approved_user uid now row" and ?t = "cd_tables (cw_db w)"
    have "evolves (\<lambda>r. requested_in (c # h) r) ?t (cd_tables (cw_db w'))"
      using evolves_decides [OF created(6)] by (simp add: evolves_def)
    moreover have "authorised_in (c # h) ?u" using approved_authorised [OF created(1) pok req [OF created(1)] created(4,2)] Approve by simp
    ultimately show ?thesis using access_ok_decides [OF created(6) access_ok_user [OF ok created(5)]] decides_users [OF created(6)] by auto
  qed
next
  case (Reject code now)
  obtain r where q: "reject_pairing sqlite_channel_repository now code w = (r, w')" using w' Reject by (simp add: prod_eq_iff)
  have "decides (cd_tables (cw_db w)) (cd_tables (cw_db w'))" using sqlite_pairing.reject_effect [OF q] ok by (simp add: access_ok_def)
  then show ?thesis using access_ok_decides ok decides_users by (auto simp: evolves_decides)
next
  case (Cleanup now)
  have "decides (cd_tables (cw_db w)) (cd_tables (cw_db w'))" using sqlite_pairing.cleanup_effect w' Cleanup by simp
  then show ?thesis using access_ok_decides ok decides_users by (auto simp: evolves_decides)
next
  case (Revoke i)
  obtain r where q: "revoke_user sqlite_channel_repository i w = (r, w')" using w' Revoke by (simp add: prod_eq_iff)
  show ?thesis using sqlite_channel.revoke_keeps [OF q ok] by (auto simp: tables_evolve_same)
qed

lemma run_invariant:
  assumes "channel_run cfg h w"
  shows "access_ok (cd_tables (cw_db w)) \<and> (\<forall>r \<in> set (ch_pairings (cd_tables (cw_db w))). requested_in h r)
    \<and> (\<forall>u \<in> set (ch_users (cd_tables (cw_db w))). authorised_in h u)"
  using assms
proof induction
  case (start t fs)
  then show ?case by (simp add: access_ok_def pairing_ok_def sessions_ok_def one_per_chat_def)
next
  case (step h w c)
  note e = serve_effect [OF conjunct1 [OF step.IH] _ refl, of h cfg c]
  show ?case using e step.IH evolves_requested [of "requested_in (c # h)" _ _ h c] authorised_Cons by blast
qed

lemma decided_stays:
  assumes "channel_run cfg h w" "r \<in> set (ch_pairings (cd_tables (cw_db w)))" "pc_status r \<noteq> ''pending''"
  shows "channel_run cfg (rev cs @ h) (fold (serve sqlite_channel_repository cfg) cs w)"
    and "r \<in> set (ch_pairings (cd_tables (cw_db (fold (serve sqlite_channel_repository cfg) cs w))))"
proof (induction cs rule: rev_induct)
  case Nil
  case 1 then show ?case using assms by simp
  case 2 then show ?case using assms by simp
next
  case (snoc c cs)
  let ?w = "fold (serve sqlite_channel_repository cfg) cs w"
  have "evolves (requested_in (c # rev cs @ h)) (cd_tables (cw_db ?w)) (cd_tables (cw_db (serve sqlite_channel_repository cfg c ?w)))"
    using serve_effect [OF _ _ refl, of ?w "rev cs @ h" cfg c] run_invariant [OF snoc(1)] by blast
  then obtain r' where "r' \<in> set (ch_pairings (cd_tables (cw_db (serve sqlite_channel_repository cfg c ?w))))" "settled r r'"
    using snoc(2) by (auto simp: evolves_def)
  moreover have "r' = r" using \<open>settled r r'\<close> assms(3) by (auto simp: settled_def)
  moreover case 1
  ultimately show ?case using channel_run.step [OF snoc(1), of c] by simp
  case 2
  then show ?case using \<open>r' \<in> _\<close> \<open>r' = r\<close> by simp
qed

section \<open>Properties\<close>

text \<open>A concrete message, its draws and a session, on which the properties are tried.\<close>

definition demo_msg :: "string \<Rightarrow> unified_action option \<Rightarrow> unit unified_incoming_message" where
  "demo_msg user act =
     \<lparr>um_id = ''m1'', um_platform = Telegram, um_chat_id = ''chat'',
      um_user = \<lparr>uu_id = user, uu_username = None, uu_display_name = ''Ann'', uu_avatar_url = None\<rparr>,
      um_content = \<lparr>uc_content_type = ContentText, uc_text = ''hello'', uc_attachments = None\<rparr>,
      um_timestamp = 0, um_reply_to_message_id = None, um_action = act, um_raw = None\<rparr>"

definition demo_draws :: channel_draws where
  "demo_draws = \<lparr>dr_rng = Inr (64, 226, 1, 0), dr_now_request = 1000, dr_session_id = ''session-1'',
     dr_now_session = 2000, dr_now_touch = 2001\<rparr>"

definition demo_start :: "channel_db channel_world" where
  "demo_start = \<lparr>cw_db = \<lparr>cd_tables = \<lparr>ch_plugins = [], ch_users = [], ch_sessions = [], ch_pairings = [], ch_conversations = []\<rparr>,
     cd_faults = []\<rparr>, cw_events = []\<rparr>"

definition demo_config :: "plugin_type \<Rightarrow> channel_error + resolved_agent_config" where
  "demo_config _ = Inr \<lparr>rc_agent_type = ''aionrs'', rc_backend = None\<rparr>"

abbreviation demo_asked :: "channel_db channel_world" where
  "demo_asked \<equiv> serve sqlite_channel_repository demo_config (Incoming (demo_msg ''42'' None) demo_draws) demo_start"

abbreviation demo_approved :: "channel_db channel_world" where
  "demo_approved \<equiv> serve sqlite_channel_repository demo_config (Approve ''123456'' 5000 5001 ''user-1'' :: unit channel_call) demo_asked"

lemma demo_code: "generate_pairing_code (Inr (64, 226, 1, 0)) = Inr ''123456''"
  by (simp add: generate_pairing_code_def from_le_bytes_def pairing_code_length_def zero_padded_def decimal.simps)

lemmas sqlite_channel_eval = sqlite_channel_repository_def channel_pool_def sqlite_get_user_by_platform_def
  sqlite_get_pending_pairings_def sqlite_create_pairing_def sqlite_get_pairing_by_code_def sqlite_create_user_def
  sqlite_update_pairing_status_def update_where_def user_key_taken_def on_platform_def pairing_status_values_def

lemmas channel_eval = handle_incoming_message_def handle_unauthorized_def request_pairing_def expire_user_pending_codes_def
  get_internal_user_id_def on_repo_def request_row_def broadcast_def approve_pairing_def get_valid_pending_pairing_def
  approved_user_def pairing_code_ttl_ms_def Let_def

lemma demo_asked: "demo_asked =
   \<lparr>cw_db = \<lparr>cd_tables = \<lparr>ch_plugins = [], ch_users = [], ch_sessions = [],
       ch_pairings = [request_row ''123456'' ''42'' ''telegram'' (Some ''Ann'') 1000], ch_conversations = []\<rparr>, cd_faults = []\<rparr>,
    cw_events = [PairingRequested ''123456'' ''42'' ''telegram'' (Some ''Ann'') 601000]\<rparr>"
  by (simp add: demo_msg_def demo_draws_def demo_start_def channel_eval sqlite_channel_eval demo_code)

lemma demo_users: "ch_users (cd_tables (cw_db demo_approved)) =
   [\<lparr>au_id = ''user-1'', au_platform_user_id = ''42'', au_platform_type = ''telegram'', au_display_name = Some ''Ann'',
     au_authorized_at = 5001, au_last_active = None, au_session_id = None\<rparr>]"
  unfolding demo_asked by (simp add: channel_eval sqlite_channel_eval)

lemma demo_run: "channel_run demo_config [] demo_start"
  "channel_run demo_config [Incoming (demo_msg ''42'' None) demo_draws] demo_asked"
  "channel_run demo_config [Approve ''123456'' 5000 5001 ''user-1'', Incoming (demo_msg ''42'' None) demo_draws] demo_approved"
proof -
  show start: "channel_run demo_config [] demo_start" unfolding demo_start_def by (rule channel_run.start) simp_all
  show asked: "channel_run demo_config [Incoming (demo_msg ''42'' None) demo_draws] demo_asked" by (rule channel_run.step [OF start])
  show "channel_run demo_config [Approve ''123456'' 5000 5001 ''user-1'', Incoming (demo_msg ''42'' None) demo_draws] demo_approved"
    by (rule channel_run.step [OF asked])
qed

text \<open>
  C22. Access is granted only by approval. In every state that any history of messages, approvals,
  rejections, clean-ups and revocations leads to, whatever fails on the way, a user of the table was
  created by an approval of the history, of a code that an earlier message had asked for that same
  platform identity, less than ten minutes before the approval was checked.
\<close>

theorem access_granted_by_approval:
  assumes "channel_run cfg h w" "u \<in> set (ch_users (cd_tables (cw_db w)))"
  shows "\<exists>later earlier code now_check msg dr.
     h = later @ Approve code now_check (au_authorized_at u) (au_id u) # earlier \<and> Incoming msg dr \<in> set earlier
     \<and> generate_pairing_code (dr_rng dr) = Inr code
     \<and> (au_platform_user_id u, au_platform_type u) \<in> requesters msg
     \<and> now_check < dr_now_request dr + 600000"
  using run_invariant [OF assms(1)] assms(2) by (auto simp: authorised_in_def pairing_code_ttl_ms_def)

theorem access_granted_by_approval_witness:
  "\<exists>later earlier code now_check msg dr.
     [Approve ''123456'' 5000 5001 ''user-1'', Incoming (demo_msg ''42'' None) demo_draws]
       = later @ Approve code now_check 5001 ''user-1'' # earlier \<and> Incoming msg dr \<in> set earlier
     \<and> generate_pairing_code (dr_rng dr) = Inr code \<and> (''42'', ''telegram'') \<in> requesters msg
     \<and> now_check < dr_now_request dr + 600000"
  using access_granted_by_approval [OF demo_run(3), of "hd (ch_users (cd_tables (cw_db demo_approved)))"] by (simp add: demo_users del: serve.simps)



text \<open>
  A decision is final. A code that is approved, rejected or expired keeps that status through every
  later history, and approving it creates no user and never succeeds.
\<close>

theorem decided_code_is_final:
  fixes h calls :: "'j channel_call list"
  assumes "channel_run cfg h w" "r \<in> set (ch_pairings (cd_tables (cw_db w)))" "pc_status r \<noteq> ''pending''"
    and "w' = fold (serve sqlite_channel_repository cfg) calls w"
    and "approve_pairing sqlite_channel_repository now_check now user_id (pc_code r) w' = (res, w'')"
  shows "r \<in> set (ch_pairings (cd_tables (cw_db w'))) \<and> \<not> is_ok res
     \<and> ch_users (cd_tables (cw_db w'')) = ch_users (cd_tables (cw_db w'))"
proof -
  note h' = decided_stays [OF assms(1-3), of calls, folded assms(4)]
  have pok: "pairing_ok (cd_tables (cw_db w'))" using run_invariant [OF h'(1)] by (simp add: access_ok_def)
  from assms(5) pok show ?thesis
  proof (cases rule: sqlite_pairing.approve_effect)
    case (refused e)
    then show ?thesis using h'(2) decides_users by simp
  next
    case (created row)
    then have "row = r" using h'(2) pok by (auto simp: pairing_ok_def distinct_map dest: inj_onD)
    then show ?thesis using created(3) assms(3) by simp
  qed
qed

theorem decided_code_is_final_witness:
  "\<not> is_ok (fst (approve_pairing sqlite_channel_repository 6000 6001 ''user-2'' ''123456''
       (fold (serve sqlite_channel_repository demo_config) [Revoke ''user-1'' :: unit channel_call] demo_approved)))"
proof -
  let ?w = "fold (serve sqlite_channel_repository demo_config) [Revoke ''user-1'' :: unit channel_call] demo_approved"
  let ?r = "(request_row ''123456'' ''42'' ''telegram'' (Some ''Ann'') 1000)\<lparr>pc_status := ''approved''\<rparr>"
  have "ch_pairings (cd_tables (cw_db demo_approved)) = [?r]" unfolding demo_asked by (simp add: channel_eval sqlite_channel_eval)
  then have r: "?r \<in> set (ch_pairings (cd_tables (cw_db demo_approved)))" by simp
  obtain res w'' where res: "approve_pairing sqlite_channel_repository 6000 6001 ''user-2'' (pc_code ?r) ?w = (res, w'')" by fastforce
  show ?thesis using decided_code_is_final [OF demo_run(3) r _ refl res] res by (simp add: request_row_def)
qed

end
