(* ===== verification/ChannelFlow.thy ===== *)
theory ChannelFlow
  imports ChannelAccess
begin

text \<open>
  The flows through the channels: from an unknown user's first message over the approval to the
  dispatch of a message, the sessions as a map from user and chat, and three behaviours of the code
  that its documentation does not promise.
\<close>

section \<open>A flow that nothing disturbs\<close>

context channel_store
begin

lemma unauthorised_asks:
  assumes "handle_incoming_message repo cfg dr msg w = (r, w')"
    and calm: "calm (cw_db w)" and ok: "access_ok (tables (cw_db w))"
    and none: "\<forall>u \<in> set (ch_users (tables (cw_db w))). \<not> on_platform (uu_id (um_user msg)) (plugin_type_display (um_platform msg)) u"
    and code: "generate_pairing_code (dr_rng dr) = Inr code" "code \<notin> pc_code ` set (ch_pairings (tables (cw_db w)))"
  shows "r = Inr (Action (build_pairing_response code)) \<and> calm (cw_db w')
    \<and> request_row code (uu_id (um_user msg)) (plugin_type_display (um_platform msg)) (Some (uu_display_name (um_user msg))) (dr_now_request dr)
        \<in> set (ch_pairings (tables (cw_db w')))
    \<and> (\<forall>x \<in> set (ch_pairings (tables (cw_db w'))). of_user (uu_id (um_user msg)) (plugin_type_display (um_platform msg)) x
         \<and> pc_status x = ''pending'' \<longrightarrow> pc_code x = code)
    \<and> ch_users (tables (cw_db w')) = ch_users (tables (cw_db w)) \<and> ch_sessions (tables (cw_db w')) = ch_sessions (tables (cw_db w))"
proof -
  let ?pu = "uu_id (um_user msg)" and ?pt = "plugin_type_display (um_platform msg)" and ?nm = "Some (uu_display_name (um_user msg))"
  obtain x w1 where q: "get_internal_user_id repo ?pu ?pt w = (x, w1)" by fastforce
  have "List.find (on_platform ?pu ?pt) (ch_users (tables (cw_db w))) = None" using none by (auto simp: find_None_iff)
  then have x: "x = Inr None" and w1: "tables (cw_db w1) = tables (cw_db w)" "calm (cw_db w1)" using user_id_reads [OF q] calm by auto
  obtain y w2 where rq: "request_pairing repo (dr_rng dr) (dr_now_request dr) ?pu ?pt ?nm w1 = (y, w2)" by fastforce
  have run: "r = map_sum Failed (\<lambda>c. Action (build_pairing_response c)) y" "w' = w2"
    using assms(1) q x rq by (cases y; simp add: handle_incoming_message_def Let_def handle_unauthorized_def)+
  have pok: "pairing_ok (tables (cw_db w1))" using ok w1 by (simp add: access_ok_def)
  note e = request_effect [OF rq pok]
  have y: "y = Inr code" "calm (cw_db w2)" using e w1 code by auto
  then obtain t where t: "decides (tables (cw_db w1)) t" "\<forall>x \<in> set (ch_pairings t). of_user ?pu ?pt x \<longrightarrow> pc_status x \<noteq> ''pending''"
    "tables (cw_db w2) = t\<lparr>ch_pairings := ch_pairings t @ [request_row code ?pu ?pt ?nm (dr_now_request dr)]\<rparr>" using e by auto
  show ?thesis using run y t w1 decides_users [OF t(1)] by (auto simp: request_row_def)
qed

lemma approve_calm:
  assumes "approve_pairing repo nc now uid code w = (r, w')" "calm (cw_db w)" and pok: "pairing_ok (tables (cw_db w))"
    and row: "row \<in> set (ch_pairings (tables (cw_db w)))" "pc_code row = code" "pc_status row = ''pending''" "nc < pc_expires_at row"
    and free: "\<not> user_key_taken (approved_user uid now row) (ch_users (tables (cw_db w)))"
  shows "r = Inr () \<and> calm (cw_db w') \<and> ch_users (tables (cw_db w')) = ch_users (tables (cw_db w)) @ [approved_user uid now row]
    \<and> ch_sessions (tables (cw_db w')) = ch_sessions (tables (cw_db w))"
proof -
  have dist: "distinct (map pc_code (ch_pairings (tables (cw_db w))))" using pok by (simp add: pairing_ok_def)
  obtain x w1 where q: "get_valid_pending_pairing repo nc code w = (x, w1)" by fastforce
  have "List.find (\<lambda>r. pc_code r = code) (ch_pairings (tables (cw_db w))) = Some row"
  proof (cases "List.find (\<lambda>r. pc_code r = code) (ch_pairings (tables (cw_db w)))")
    case None
    then show ?thesis using row by (auto simp: find_None_iff)
  next
    case (Some r')
    then show ?thesis using find_code [OF Some] row dist by (auto simp: distinct_map dest: inj_onD)
  qed
  then have x: "x = Inr row" "calm (cw_db w1)" "tables (cw_db w1) = tables (cw_db w)" using get_valid_effect [OF q dist] assms(2) row by auto
  obtain y w2 where c: "on_repo (cr_create_user repo (approved_user uid now row)) w1 = (y, w2)" by fastforce
  have y: "y = Inr ()" "calm (cw_db w2)" "tables (cw_db w2) = (tables (cw_db w))\<lparr>ch_users := ch_users (tables (cw_db w)) @ [approved_user uid now row]\<rparr>"
    using on_repo_writes [OF create_user c] x free by (cases y; simp)+
  obtain z w3 where s: "on_repo (cr_update_pairing_status repo code (pairing_status_display PairApproved)) w2 = (z, w3)" by fastforce
  have st: "decides (tables (cw_db w2)) (tables (cw_db w3))" "calm (cw_db w3)" "z = Inr ()"
    using set_status_effect [OF s, of row] y dist row by auto
  have "r = Inr ()" "cw_db w' = cw_db w3" using assms(1) q x c y s st(3) by (auto simp: approve_pairing_def broadcast_def)
  then show ?thesis using st y decides_users [OF st(1)] by simp
qed

lemma authorised_dispatch:
  assumes "handle_incoming_message repo cfg dr msg w = (r, w')" "calm (cw_db w)" "access_ok (tables (cw_db w))"
    and u: "u \<in> set (ch_users (tables (cw_db w)))" "on_platform (uu_id (um_user msg)) (plugin_type_display (um_platform msg)) u"
    and "um_action msg = None" "cfg (um_platform msg) = Inr c" "dr_session_id dr \<notin> as_id ` set (ch_sessions (tables (cw_db w)))"
  shows "case session_of (tables (cw_db w)) (au_id u, um_chat_id msg) of
      Some s \<Rightarrow> r = Inr (Dispatched (as_id s) (as_conversation_id s)) | None \<Rightarrow> r = Inr (Dispatched (dr_session_id dr) None)"
proof -
  let ?pu = "uu_id (um_user msg)" and ?pt = "plugin_type_display (um_platform msg)"
  obtain x w1 where q: "get_internal_user_id repo ?pu ?pt w = (x, w1)" by fastforce
  have dist: "distinct (map (\<lambda>u. (au_platform_user_id u, au_platform_type u)) (ch_users (tables (cw_db w))))"
    using assms(3) by (simp add: access_ok_def pairing_ok_def)
  have "List.find (on_platform ?pu ?pt) (ch_users (tables (cw_db w))) = Some u"
  proof (cases "List.find (on_platform ?pu ?pt) (ch_users (tables (cw_db w)))")
    case None
    then show ?thesis using u by (auto simp: find_None_iff)
  next
    case (Some v)
    have "inj_on (\<lambda>u. (au_platform_user_id u, au_platform_type u)) (set (ch_users (tables (cw_db w))))" using dist by (simp add: distinct_map)
    from inj_onD [OF this, of v u] show ?thesis using find_in_set [OF Some] u Some by (simp add: on_platform_def)
  qed
  then have x: "x = Inr (Some (au_id u))" and w1: "tables (cw_db w1) = tables (cw_db w)" "calm (cw_db w1)" using user_id_reads [OF q] assms(2) by auto
  obtain y w2 where g: "get_or_create_session repo (dr_session_id dr) (dr_now_session dr) (dr_now_touch dr) (au_id u) (um_chat_id msg) (rc_agent_type c) None w1 = (y, w2)"
    by fastforce
  have "is_ok y" using get_or_create_calm [OF g [unfolded get_or_create_session_def]] w1 assms(8) u by simp
  then obtain s where s: "y = Inr s" by (cases y) auto
  have sok: "sessions_ok (tables (cw_db w1))" using w1 assms(3) by (simp add: access_ok_def)
  have "r = Inr (Dispatched (as_id s) (as_conversation_id s))"
    using assms(1,6,7) q x g s by (simp add: handle_incoming_message_def Let_def)
  then show ?thesis using get_or_create_effect [OF g [unfolded get_or_create_session_def] sok] s w1
    by (auto simp: new_session_row_def split: option.split)
qed

end

section \<open>Properties\<close>

text \<open>
  C24. Only authorised users reach an agent. In every state any history leads to, a message is
  dispatched only when its sender has a row in the users table, and then to the one session of that
  user in the chat of the message.
\<close>

theorem dispatched_sender_is_authorised:
  assumes "channel_run cfg h w" "handle_incoming_message sqlite_channel_repository cfg' dr msg w = (Inr (Dispatched session conv), w')"
  shows "\<exists>u s. u \<in> set (ch_users (cd_tables (cw_db w)))
     \<and> au_platform_user_id u = uu_id (um_user msg) \<and> au_platform_type u = plugin_type_display (um_platform msg)
     \<and> filter (in_chat (au_id u) (um_chat_id msg)) (ch_sessions (cd_tables (cw_db w'))) = [s]
     \<and> as_id s = session \<and> as_conversation_id s = conv"
proof -
  have ok: "access_ok (cd_tables (cw_db w))" using run_invariant [OF assms(1)] by simp
  obtain u s where us: "u \<in> set (ch_users (cd_tables (cw_db w)))" "on_platform (uu_id (um_user msg)) (plugin_type_display (um_platform msg)) u"
    "session_of (cd_tables (cw_db w')) (au_id u, um_chat_id msg) = Some s" "as_id s = session" "as_conversation_id s = conv"
    using sqlite_channel.dispatch_authorised [OF assms(2) ok] by blast
  have sok: "sessions_ok (cd_tables (cw_db w'))"
    using sqlite_channel.incoming_keeps [OF ok, of msg dr cfg'] assms(2) by (simp add: sqlite_channel.keeps_def access_ok_def)
  have "filter (in_chat (au_id u) (um_chat_id msg)) (ch_sessions (cd_tables (cw_db w'))) = [s]"
    using session_of_filtered [OF sok us(3)] by simp
  then show ?thesis using us by (auto simp: on_platform_def)
qed

text \<open>
  C25. Pairing leads to access. When the database answers and the code drawn is not in the table, the
  first message of an unknown user is answered with that code; approving it within ten minutes
  succeeds; and a message the user then sends is dispatched to a new session.
\<close>

theorem pairing_leads_to_access:
  fixes h :: "'j channel_call list" and msg msg' :: "'j unified_incoming_message"
  assumes run: "channel_run cfg h w" and calm: "channel_calm (cw_db w)"
    and stranger: "\<forall>u \<in> set (ch_users (cd_tables (cw_db w))). \<not> on_platform (uu_id (um_user msg)) (plugin_type_display (um_platform msg)) u"
    and code: "generate_pairing_code (dr_rng dr) = Inr code" "code \<notin> pc_code ` set (ch_pairings (cd_tables (cw_db w)))"
    and fresh: "user_id \<notin> au_id ` set (ch_users (cd_tables (cw_db w)))" "dr_session_id dr' \<notin> as_id ` set (ch_sessions (cd_tables (cw_db w)))"
    and time: "now_check < dr_now_request dr + 600000"
    and follow: "um_user msg' = um_user msg" "um_platform msg' = um_platform msg" "um_action msg' = None" "cfg (um_platform msg) = Inr c"
    and calls: "handle_incoming_message sqlite_channel_repository cfg dr msg w = (r1, w1)"
      "approve_pairing sqlite_channel_repository now_check now user_id code w1 = (r2, w2)"
      "handle_incoming_message sqlite_channel_repository cfg dr' msg' w2 = (r3, w3)"
  shows "r1 = Inr (Action (build_pairing_response code)) \<and> r2 = Inr () \<and> r3 = Inr (Dispatched (dr_session_id dr') None)"
proof -
  let ?pu = "uu_id (um_user msg)" and ?pt = "plugin_type_display (um_platform msg)"
  let ?row = "request_row code ?pu ?pt (Some (uu_display_name (um_user msg))) (dr_now_request dr)"
  let ?u = "approved_user user_id now ?row"
  have ok: "access_ok (cd_tables (cw_db w))" using run_invariant [OF run] by simp
  note ask = sqlite_channel.unauthorised_asks [OF calls(1) calm ok stranger code]
  have ok1: "access_ok (cd_tables (cw_db w1))" using sqlite_channel.incoming_keeps [OF ok, of msg dr cfg] calls(1) by (simp add: sqlite_channel.keeps_def)
  have free: "\<not> user_key_taken ?u (ch_users (cd_tables (cw_db w1)))"
    using ask stranger fresh(1) by (auto simp: user_key_taken_def approved_user_def request_row_def list_ex_iff)
  have ap: "r2 = Inr ()" "channel_calm (cw_db w2)" "ch_users (cd_tables (cw_db w2)) = ch_users (cd_tables (cw_db w)) @ [?u]"
    "ch_sessions (cd_tables (cw_db w2)) = ch_sessions (cd_tables (cw_db w))"
    using sqlite_channel.approve_calm [OF calls(2) _ _ _ _ _ _ free] ask ok1 time
    by (auto simp: access_ok_def request_row_def pairing_code_ttl_ms_def)
  have ok2: "access_ok (cd_tables (cw_db w2))"
    using run_invariant [OF channel_run.step [OF channel_run.step [OF run, of "Incoming msg dr"], of "Approve code now_check now user_id"]]
      calls(1,2) by simp
  have "session_of (cd_tables (cw_db w2)) (user_id, um_chat_id msg') = None"
    using ok fresh(1) by (auto simp: session_of_def ap(4) find_None_iff in_chat_def access_ok_def sessions_ok_def)
  then have "r3 = Inr (Dispatched (dr_session_id dr') None)"
    using sqlite_channel.authorised_dispatch [OF calls(3) ap(2) ok2, of ?u c] ap follow fresh(2)
    by (simp add: approved_user_def request_row_def on_platform_def)
  then show ?thesis using ask ap by simp
qed

lemma demo_config_ok: "demo_config p = Inr \<lparr>rc_agent_type = ''aionrs'', rc_backend = None\<rparr>"
  by (simp add: demo_config_def)

theorem pairing_leads_to_access_witness:
  "\<exists>w1 w2 w3. handle_incoming_message sqlite_channel_repository demo_config demo_draws (demo_msg ''42'' None) demo_start
       = (Inr (Action (build_pairing_response ''123456'')), w1)
     \<and> approve_pairing sqlite_channel_repository 5000 5001 ''user-1'' ''123456'' w1 = (Inr (), w2)
     \<and> handle_incoming_message sqlite_channel_repository demo_config demo_draws (demo_msg ''42'' None) w2
       = (Inr (Dispatched ''session-1'' None), w3)"
proof -
  obtain r1 w1 where c1: "handle_incoming_message sqlite_channel_repository demo_config demo_draws (demo_msg ''42'' None) demo_start = (r1, w1)"
    by fastforce
  obtain r2 w2 where c2: "approve_pairing sqlite_channel_repository 5000 5001 ''user-1'' ''123456'' w1 = (r2, w2)" by fastforce
  obtain r3 w3 where c3: "handle_incoming_message sqlite_channel_repository demo_config demo_draws (demo_msg ''42'' None) w2 = (r3, w3)" by fastforce
  have code: "generate_pairing_code (dr_rng demo_draws) = Inr ''123456''" by (simp add: demo_draws_def demo_code)
  have "r1 = Inr (Action (build_pairing_response ''123456'')) \<and> r2 = Inr () \<and> r3 = Inr (Dispatched (dr_session_id demo_draws) None)"
    by (rule pairing_leads_to_access [OF demo_run(1) _ _ code _ _ _ _ refl refl _ demo_config_ok c1 c2 c3])
       (simp_all add: demo_start_def demo_draws_def demo_msg_def channel_calm_def)
  then show ?thesis using c1 c2 c3 by (auto simp: demo_draws_def)
qed

theorem dispatched_sender_is_authorised_witness:
  "\<exists>u. u \<in> set (ch_users (cd_tables (cw_db demo_approved))) \<and> au_platform_user_id u = ''42''"
proof -
  obtain r w' where h: "handle_incoming_message sqlite_channel_repository demo_config demo_draws (demo_msg ''42'' None) demo_approved = (r, w')"
    by fastforce
  then have "r = Inr (Dispatched ''session-1'' None)" unfolding demo_asked
    by (simp add: channel_eval sqlite_channel_eval demo_msg_def demo_draws_def demo_config_def get_or_create_session_def
        sqlite_get_or_create_session_def select_user_chat_def insert_session_def session_keys_ok_def new_session_row_def map_ok_def del: serve.simps(1))
  then show ?thesis using dispatched_sender_is_authorised [OF demo_run(3)] h by (force simp: demo_msg_def)
qed

lemma session_operations:
  assumes run: "channel_run cfg h w"
  defines "m \<equiv> session_of (cd_tables (cw_db w))"
  shows
    "\<And>r w'. get_or_create_session sqlite_channel_repository i now touch u c agent ws w = (r, w') \<Longrightarrow>
       session_of (cd_tables (cw_db w')) = (case r of Inl _ \<Rightarrow> m
         | Inr s \<Rightarrow> m((u, c) \<mapsto> (case m (u, c) of Some old \<Rightarrow> old\<lparr>as_last_activity := touch\<rparr> | None \<Rightarrow> new_session_row i now u c agent ws)))"
    "\<And>r w'. reset_session sqlite_channel_repository i now touch u c agent ws w = (r, w') \<Longrightarrow>
       (case r of Inl _ \<Rightarrow> session_of (cd_tables (cw_db w')) \<in> {m, m((u, c) := None)}
        | Inr s \<Rightarrow> s = new_session_row i now u c agent ws \<and> session_of (cd_tables (cw_db w')) = m((u, c) \<mapsto> s))"
    "\<And>w'. clear_all_sessions sqlite_channel_repository w = (Inr (), w') \<Longrightarrow> session_of (cd_tables (cw_db w')) = Map.empty"
proof -
  have sok: "sessions_ok (cd_tables (cw_db w))" using run_invariant [OF run] by (simp add: access_ok_def)
  show "session_of (cd_tables (cw_db w')) = (case r of Inl _ \<Rightarrow> m
         | Inr s \<Rightarrow> m((u, c) \<mapsto> (case m (u, c) of Some old \<Rightarrow> old\<lparr>as_last_activity := touch\<rparr> | None \<Rightarrow> new_session_row i now u c agent ws)))"
    if "get_or_create_session sqlite_channel_repository i now touch u c agent ws w = (r, w')" for r w'
    using sqlite_sessions.get_or_create_effect [OF that [unfolded get_or_create_session_def] sok] by (cases r) (auto simp: m_def)
  show "case r of Inl _ \<Rightarrow> session_of (cd_tables (cw_db w')) \<in> {m, m((u, c) := None)}
        | Inr s \<Rightarrow> s = new_session_row i now u c agent ws \<and> session_of (cd_tables (cw_db w')) = m((u, c) \<mapsto> s)"
    if reset: "reset_session sqlite_channel_repository i now touch u c agent ws w = (r, w')" for r w'
  proof -
    obtain x w1 where q: "on_repo (cr_delete_session_by_user_chat sqlite_channel_repository u c) w = (x, w1)" by fastforce
    note del = sqlite_sessions.delete_chat_effect [OF q sok]
    show ?thesis
    proof (cases x)
      case (Inl e)
      then show ?thesis using reset q del by (auto simp: reset_session_def m_def)
    next
      case (Inr z)
      then have g: "on_repo (cr_get_or_create_session sqlite_channel_repository touch u c (new_session_row i now u c agent ws)) w1 = (r, w')"
        using reset q by (simp add: reset_session_def)
      have m1: "session_of (cd_tables (cw_db w1)) = m((u, c) := None)" using del Inr by (simp add: m_def)
      show ?thesis using sqlite_sessions.get_or_create_effect [OF g conjunct1 [OF del]] by (cases r) (auto simp: m1)
    qed
  qed
  show "session_of (cd_tables (cw_db w')) = Map.empty" if "clear_all_sessions sqlite_channel_repository w = (Inr (), w')" for w'
    using sqlite_sessions.clear_all_effect [OF that] by (auto simp: session_of_def)
qed



section \<open>What the code does and its documentation does not say\<close>

text \<open>
  A user who waits for approval and presses \<open>Check Status\<close> is answered with a new code, and the code
  shown before is no longer pending: the authorisation check precedes the routing of buttons, so the
  branch of \<open>pairing.check\<close> for a user who is not authorised is never taken for the sender.
\<close>

lemma check_button_replaces_code:
  assumes "channel_run cfg h w" "channel_calm (cw_db w)"
    and "\<forall>u \<in> set (ch_users (cd_tables (cw_db w))). \<not> on_platform (uu_id (um_user msg)) (plugin_type_display (um_platform msg)) u"
    and "generate_pairing_code (dr_rng dr) = Inr code" "code \<notin> pc_code ` set (ch_pairings (cd_tables (cw_db w)))"
    and "um_action msg = Some a" "ua_action a = ''pairing.check''"
    and "handle_incoming_message sqlite_channel_repository cfg dr msg w = (r, w')"
  shows "r = Inr (Action (build_pairing_response code))
     \<and> (\<forall>x \<in> set (ch_pairings (cd_tables (cw_db w'))).
          of_user (uu_id (um_user msg)) (plugin_type_display (um_platform msg)) x \<and> pc_status x = ''pending'' \<longrightarrow> pc_code x = code)"
  using sqlite_channel.unauthorised_asks [OF assms(8,2) _ assms(3-5)] run_invariant [OF assms(1)] by blast

text \<open>
  An approval is not atomic: when the database fails between the creation of the user and the update
  of the code, the caller gets an error, the user is authorised and the code is still pending.
\<close>

lemma interrupted_approval_authorises:
  "let w = demo_asked\<lparr>cw_db := (cw_db demo_asked)\<lparr>cd_faults := [False, False, True]\<rparr>\<rparr>;
       (r, w') = approve_pairing sqlite_channel_repository 5000 5001 ''user-1'' ''123456'' w
   in \<not> is_ok r \<and> map au_platform_user_id (ch_users (cd_tables (cw_db w'))) = [''42'']
      \<and> map pc_status (ch_pairings (cd_tables (cw_db w'))) = [''pending'']"
  unfolding demo_asked by (simp add: channel_eval sqlite_channel_eval)

text \<open>
  The sessions of a chat are found and created in two queries. Two messages of one chat that are
  handled at the same time can both look before either inserts, and then both insert: the table has no
  unique key on user and chat, and the chat has two sessions.
\<close>

lemma concurrent_messages_split_session:
  assumes calm: "cd_faults d = []" and none: "\<not> list_ex (in_chat u c) (ch_sessions (cd_tables d))"
    and ids: "i \<noteq> j" "i \<notin> as_id ` set (ch_sessions (cd_tables d))" "j \<notin> as_id ` set (ch_sessions (cd_tables d))"
    and user: "u \<in> au_id ` set (ch_users (cd_tables d))"
    and "select_user_chat u c d = (a1, d1)" "select_user_chat u c d1 = (a2, d2)"
      "insert_session (new_session_row i now u c agent ws) d2 = (b1, d3)"
      "insert_session (new_session_row j now' u c agent ws) d3 = (b2, d4)"
  shows "a1 = Inr None \<and> a2 = Inr None \<and> b1 = Inr () \<and> b2 = Inr () \<and> length (filter (in_chat u c) (ch_sessions (cd_tables d4))) = 2"
proof -
  have find: "List.find (in_chat u c) (ch_sessions (cd_tables d)) = None" using none by (simp add: find_ex)
  have d: "\<lparr>cd_tables = cd_tables d, cd_faults = []\<rparr> = d" using calm by (cases d) simp
  have sel: "select_user_chat u c d = (Inr None, d)" using find d by (simp add: select_user_chat_def channel_pool_def calm)
  then have s: "a1 = Inr None" "a2 = Inr None" "d2 = d" using assms(7,8) by auto
  have empty: "filter (in_chat u c) (ch_sessions (cd_tables d)) = []" using none by (auto simp: list_ex_iff filter_empty_conv)
  have i1: "b1 = Inr ()" "d3 = \<lparr>cd_tables = (cd_tables d)\<lparr>ch_sessions := ch_sessions (cd_tables d) @ [new_session_row i now u c agent ws]\<rparr>, cd_faults = []\<rparr>"
    using assms(9) s(3) ids(2) user by (auto simp: insert_session_def channel_pool_def calm session_keys_ok_def new_session_row_def)
  have "b2 = Inr ()" "ch_sessions (cd_tables d4) = ch_sessions (cd_tables d) @ [new_session_row i now u c agent ws, new_session_row j now' u c agent ws]"
    using assms(10) ids user unfolding i1 by (auto simp: insert_session_def channel_pool_def session_keys_ok_def new_session_row_def)
  then show ?thesis using s i1 empty by (simp add: in_chat_def new_session_row_def)
qed

text \<open>A response that carries a toast and no text is not delivered at all.\<close>

lemma toasts_are_dropped:
  "ua_action a \<in> {''chat.send'', ''chat.regenerate'', ''chat.continue'', ''action.copy'', ''system.confirm''} \<Longrightarrow>
   rs_toast (handle_chat_action a) \<noteq> None \<and> send_action_response plugin chat (handle_chat_action a) = None"
  by (auto simp: handle_chat_action_def toast_response_def send_action_response_def)

end
