(* ===== verification/Realtime.thy ===== *)
theory Realtime
  imports Json
begin

text \<open>
  The realtime layer: the connection manager \<open>aionui-realtime/src/manager.rs\<close> with its types
  (\<open>types.rs\<close>), the broadcast trait and its adapter (\<open>broadcaster.rs\<close>), the router trait (\<open>router.rs\<close>)
  and the handling of a socket and its text messages (\<open>handler.rs\<close>).

  A connection holds the sending end of a bounded channel; the channels are a store of their own, keyed
  by a number, so that what reaches a connection is the content of its queue. A queue is closed when
  its receiver is gone. Instants are nanoseconds and strings are their UTF-8 bytes. The concurrent map
  is read in the order of the table; no result depends on it. \<open>serde_json\<close> is the record \<open>ws_json\<close>:
  writing a message, which can fail, and reading one. The token validator and the router are arguments.
\<close>

section \<open>Types\<close>

record web_socket_message =
  wm_name :: string
  wm_data :: json

record ws_json =
  wj_to_string :: "web_socket_message \<Rightarrow> string option"
  wj_from_str :: "string \<Rightarrow> web_socket_message option"

datatype web_socket_close_code = NormalClosure | PolicyViolation

fun close_code_as_u16 :: "web_socket_close_code \<Rightarrow> 16 word" where
  "close_code_as_u16 NormalClosure = 1000"
| "close_code_as_u16 PolicyViolation = 1008"

datatype ws_outbound =
    OutText string
  | OutClose web_socket_close_code string
  | OutTextThenClose string web_socket_close_code string

record realtime_identity =
  ri_user_id :: id
  ri_is_admin :: bool

datatype event_audience = Global | ToUser id | Admin

record realtime_event =
  re_audience :: event_audience
  re_message :: web_socket_message

definition global_event :: "web_socket_message \<Rightarrow> realtime_event" where
  "global_event msg = \<lparr>re_audience = Global, re_message = msg\<rparr>"

datatype realtime_error =
  AuthMissing | AuthExpired | InvalidMessage | UnsupportedMessage | HeartbeatTimeout | Backpressure | SendFailed | InternalError

fun realtime_error_code :: "realtime_error \<Rightarrow> string" where
  "realtime_error_code AuthMissing = ''REALTIME_AUTH_MISSING''"
| "realtime_error_code AuthExpired = ''REALTIME_AUTH_EXPIRED''"
| "realtime_error_code InvalidMessage = ''REALTIME_INVALID_MESSAGE''"
| "realtime_error_code UnsupportedMessage = ''REALTIME_UNSUPPORTED_MESSAGE''"
| "realtime_error_code HeartbeatTimeout = ''REALTIME_HEARTBEAT_TIMEOUT''"
| "realtime_error_code Backpressure = ''REALTIME_BACKPRESSURE''"
| "realtime_error_code SendFailed = ''REALTIME_SEND_FAILED''"
| "realtime_error_code InternalError = ''REALTIME_INTERNAL_ERROR''"

fun realtime_error_message :: "realtime_error \<Rightarrow> string" where
  "realtime_error_message AuthMissing = ''Authentication is required.''"
| "realtime_error_message AuthExpired = ''Authentication has expired.''"
| "realtime_error_message InvalidMessage = ''Message must use the standard realtime envelope.''"
| "realtime_error_message UnsupportedMessage = ''Realtime message is not supported.''"
| "realtime_error_message HeartbeatTimeout = ''Realtime connection heartbeat timed out.''"
| "realtime_error_message Backpressure = ''Realtime connection is temporarily overloaded.''"
| "realtime_error_message SendFailed = ''Realtime message could not be delivered.''"
| "realtime_error_message InternalError = ''Realtime service encountered an internal error.''"

fun recoverable :: "realtime_error \<Rightarrow> bool" where
  "recoverable AuthMissing = False"
| "recoverable AuthExpired = False"
| "recoverable InvalidMessage = True"
| "recoverable UnsupportedMessage = True"
| "recoverable HeartbeatTimeout = False"
| "recoverable Backpressure = True"
| "recoverable SendFailed = False"
| "recoverable InternalError = False"

definition realtime_error_details :: "realtime_error \<Rightarrow> json" where
  \<open>realtime_error_details e =
     (if e = InvalidMessage
      then JObject [(''expected'', JString ''{ "name": "event-name", "data": {...} }'')]
      else JObject [])\<close>

definition into_event :: "realtime_error \<Rightarrow> web_socket_message" where
  "into_event e =
     \<lparr>wm_name = ''realtime.error'',
      wm_data = JObject [(''code'', JString (realtime_error_code e)), (''message'', JString (realtime_error_message e)),
                         (''recoverable'', JBool (recoverable e)), (''details'', realtime_error_details e)]\<rparr>"

text \<open>\<open>tokio::sync::mpsc\<close>: a bounded queue whose receiver may be gone.\<close>

record ws_channel =
  wc_queue :: "ws_outbound list"
  wc_capacity :: nat
  wc_closed :: bool

record client_info =
  ci_token :: string
  ci_last_ping :: int
  ci_tx :: nat
  ci_user_id :: id
  ci_is_admin :: bool

record web_socket_manager =
  ws_connections :: "(u64, client_info) table"
  ws_next_id :: u64
  ws_channels :: "(nat, ws_channel) table"

definition heartbeat_timeout :: int where
  "heartbeat_timeout = 60 * 1000000000"

definition per_connection_buffer :: nat where
  "per_connection_buffer = 64"

datatype try_send_result = SendOk | SendFull | SendClosed

definition try_send :: "nat \<Rightarrow> ws_outbound \<Rightarrow> (nat, ws_channel) table \<Rightarrow> try_send_result \<times> (nat, ws_channel) table" where
  "try_send tx out chans =
     (case map_of chans tx of
        None \<Rightarrow> (SendClosed, chans)
      | Some ch \<Rightarrow>
          if wc_closed ch then (SendClosed, chans)
          else if wc_capacity ch \<le> length (wc_queue ch) then (SendFull, chans)
          else (SendOk, AList.update tx (ch\<lparr>wc_queue := wc_queue ch @ [out]\<rparr>) chans))"

section \<open>The manager\<close>

definition new_socket_manager :: "(nat, ws_channel) table \<Rightarrow> web_socket_manager" where
  "new_socket_manager chans = \<lparr>ws_connections = [], ws_next_id = 1, ws_channels = chans\<rparr>"

definition add_client_with_identity ::
  "int \<Rightarrow> string \<Rightarrow> realtime_identity \<Rightarrow> nat \<Rightarrow> web_socket_manager \<Rightarrow> u64 \<times> web_socket_manager" where
  "add_client_with_identity now token who tx m =
     (let info = \<lparr>ci_token = token, ci_last_ping = now, ci_tx = tx, ci_user_id = ri_user_id who, ci_is_admin = ri_is_admin who\<rparr>
      in (ws_next_id m,
          m\<lparr>ws_next_id := ws_next_id m + 1, ws_connections := AList.update (ws_next_id m) info (ws_connections m)\<rparr>))"

definition add_client :: "int \<Rightarrow> string \<Rightarrow> nat \<Rightarrow> web_socket_manager \<Rightarrow> u64 \<times> web_socket_manager" where
  "add_client now token tx =
     add_client_with_identity now token \<lparr>ri_user_id = ''system_default_user'', ri_is_admin = True\<rparr> tx"

definition remove_client :: "u64 \<Rightarrow> web_socket_manager \<Rightarrow> web_socket_manager" where
  "remove_client c m = m\<lparr>ws_connections := AList.delete c (ws_connections m)\<rparr>"

definition terminal_realtime_error :: "ws_json \<Rightarrow> realtime_error \<Rightarrow> string \<Rightarrow> ws_outbound" where
  "terminal_realtime_error js e reason =
     (case wj_to_string js (into_event e) of
        Some text \<Rightarrow> OutTextThenClose text PolicyViolation reason
      | None \<Rightarrow> OutClose PolicyViolation reason)"

definition close_revoked :: "ws_json \<Rightarrow> u64 \<Rightarrow> web_socket_manager \<Rightarrow> web_socket_manager" where
  "close_revoked js c m =
     remove_client c
       (case map_of (ws_connections m) c of
          None \<Rightarrow> m
        | Some client \<Rightarrow>
            m\<lparr>ws_channels := snd (try_send (ci_tx client) (terminal_realtime_error js AuthExpired ''credential revoked'') (ws_channels m))\<rparr>)"

definition disconnect_matching_tokens ::
  "ws_json \<Rightarrow> (string \<Rightarrow> bool) \<Rightarrow> web_socket_manager \<Rightarrow> nat \<times> web_socket_manager" where
  "disconnect_matching_tokens js matches m =
     (let ids = map fst (filter (\<lambda>(c, client). matches (ci_token client)) (ws_connections m))
      in (length ids, fold (close_revoked js) ids m))"

definition update_last_ping :: "int \<Rightarrow> u64 \<Rightarrow> web_socket_manager \<Rightarrow> web_socket_manager" where
  "update_last_ping now c m =
     m\<lparr>ws_connections := AList.map_entry c (\<lambda>client. client\<lparr>ci_last_ping := now\<rparr>) (ws_connections m)\<rparr>"

definition client_count :: "web_socket_manager \<Rightarrow> nat" where
  "client_count m = length (ws_connections m)"

definition permitted :: "event_audience \<Rightarrow> client_info \<Rightarrow> bool" where
  "permitted audience client =
     (case audience of Global \<Rightarrow> True | ToUser user \<Rightarrow> ci_user_id client = user | Admin \<Rightarrow> ci_is_admin client)"

text \<open>The loop over the connections: the channels, and the connections found closed.\<close>

fun broadcast_loop ::
  "event_audience \<Rightarrow> ws_outbound \<Rightarrow> (u64 \<times> client_info) list \<Rightarrow> (nat, ws_channel) table \<Rightarrow> u64 list
   \<Rightarrow> (nat, ws_channel) table \<times> u64 list" where
  "broadcast_loop audience out [] chans disconnected = (chans, disconnected)"
| "broadcast_loop audience out ((c, client) # rest) chans disconnected =
     (if \<not> permitted audience client then broadcast_loop audience out rest chans disconnected
      else case try_send (ci_tx client) out chans of
          (SendClosed, chans') \<Rightarrow> broadcast_loop audience out rest chans' (disconnected @ [c])
        | (_, chans') \<Rightarrow> broadcast_loop audience out rest chans' disconnected)"

definition broadcast_event :: "ws_json \<Rightarrow> realtime_event \<Rightarrow> web_socket_manager \<Rightarrow> web_socket_manager" where
  "broadcast_event js ev m =
     (case wj_to_string js (re_message ev) of
        None \<Rightarrow> m
      | Some text \<Rightarrow>
          (case broadcast_loop (re_audience ev) (OutText text) (ws_connections m) (ws_channels m) [] of
             (chans, disconnected) \<Rightarrow> fold remove_client disconnected (m\<lparr>ws_channels := chans\<rparr>)))"

definition broadcast_all :: "ws_json \<Rightarrow> web_socket_message \<Rightarrow> web_socket_manager \<Rightarrow> web_socket_manager" where
  "broadcast_all js msg = broadcast_event js (global_event msg)"

definition broadcast_to_user :: "ws_json \<Rightarrow> id \<Rightarrow> web_socket_message \<Rightarrow> web_socket_manager \<Rightarrow> web_socket_manager" where
  "broadcast_to_user js user msg = broadcast_event js \<lparr>re_audience = ToUser user, re_message = msg\<rparr>"

definition broadcast_to_admins :: "ws_json \<Rightarrow> web_socket_message \<Rightarrow> web_socket_manager \<Rightarrow> web_socket_manager" where
  "broadcast_to_admins js msg = broadcast_event js \<lparr>re_audience = Admin, re_message = msg\<rparr>"

definition send_raw_to :: "u64 \<Rightarrow> ws_outbound \<Rightarrow> web_socket_manager \<Rightarrow> web_socket_manager" where
  "send_raw_to c out m =
     (case map_of (ws_connections m) c of
        None \<Rightarrow> m
      | Some client \<Rightarrow>
          (case try_send (ci_tx client) out (ws_channels m) of
             (SendClosed, chans) \<Rightarrow> remove_client c (m\<lparr>ws_channels := chans\<rparr>)
           | (_, chans) \<Rightarrow> m\<lparr>ws_channels := chans\<rparr>))"

definition send_to :: "ws_json \<Rightarrow> u64 \<Rightarrow> web_socket_message \<Rightarrow> web_socket_manager \<Rightarrow> web_socket_manager" where
  "send_to js c msg m =
     (case wj_to_string js msg of None \<Rightarrow> m | Some text \<Rightarrow> send_raw_to c (OutText text) m)"

text \<open>One tick of the heartbeat; \<open>timestamp\<close> is the wall clock that the ping carries.\<close>

definition ping_message :: "int \<Rightarrow> web_socket_message" where
  "ping_message timestamp = \<lparr>wm_name = ''ping'', wm_data = JObject [(''timestamp'', JNumber timestamp)]\<rparr>"

fun heartbeat_loop ::
  "ws_json \<Rightarrow> (string \<Rightarrow> bool) \<Rightarrow> int \<Rightarrow> int \<Rightarrow> (u64 \<times> client_info) list \<Rightarrow> (nat, ws_channel) table \<Rightarrow> u64 list
   \<Rightarrow> (nat, ws_channel) table \<times> u64 list" where
  "heartbeat_loop js valid now timestamp [] chans to_remove = (chans, to_remove)"
| "heartbeat_loop js valid now timestamp ((c, client) # rest) chans to_remove =
     (if max 0 (now - ci_last_ping client) > heartbeat_timeout then
        heartbeat_loop js valid now timestamp rest
          (snd (try_send (ci_tx client) (terminal_realtime_error js HeartbeatTimeout ''heartbeat timeout'') chans)) (to_remove @ [c])
      else if \<not> valid (ci_token client) then
        heartbeat_loop js valid now timestamp rest
          (snd (try_send (ci_tx client) (terminal_realtime_error js AuthExpired ''token expired'') chans)) (to_remove @ [c])
      else
        (case wj_to_string js (ping_message timestamp) of
           None \<Rightarrow> heartbeat_loop js valid now timestamp rest chans to_remove
         | Some text \<Rightarrow>
             (case try_send (ci_tx client) (OutText text) chans of
                (SendClosed, chans') \<Rightarrow> heartbeat_loop js valid now timestamp rest chans' (to_remove @ [c])
              | (_, chans') \<Rightarrow> heartbeat_loop js valid now timestamp rest chans' to_remove)))"

definition heartbeat_tick :: "ws_json \<Rightarrow> (string \<Rightarrow> bool) \<Rightarrow> int \<Rightarrow> int \<Rightarrow> web_socket_manager \<Rightarrow> web_socket_manager" where
  "heartbeat_tick js valid now timestamp m =
     (case heartbeat_loop js valid now timestamp (ws_connections m) (ws_channels m) [] of
        (chans, to_remove) \<Rightarrow> fold remove_client to_remove (m\<lparr>ws_channels := chans\<rparr>))"

section \<open>The broadcast trait\<close>

record 's event_broadcaster =
  eb_broadcast :: "web_socket_message \<Rightarrow> 's \<Rightarrow> 's"
  eb_broadcast_to_user :: "id \<Rightarrow> web_socket_message \<Rightarrow> 's \<Rightarrow> 's"
  eb_broadcast_to_admins :: "web_socket_message \<Rightarrow> 's \<Rightarrow> 's"

definition manager_broadcaster :: "ws_json \<Rightarrow> web_socket_manager event_broadcaster" where
  "manager_broadcaster js =
     \<lparr>eb_broadcast = broadcast_all js, eb_broadcast_to_user = broadcast_to_user js,
      eb_broadcast_to_admins = broadcast_to_admins js\<rparr>"

text \<open>The adapter \<open>UserEventBroadcaster\<close> turns every plain broadcast into one for its user.\<close>

definition user_event_broadcaster :: "'s event_broadcaster \<Rightarrow> id \<Rightarrow> 's event_broadcaster" where
  "user_event_broadcaster inner user =
     \<lparr>eb_broadcast = eb_broadcast_to_user inner user, eb_broadcast_to_user = eb_broadcast_to_user inner,
      eb_broadcast_to_admins = eb_broadcast_to_admins inner\<rparr>"

section \<open>Sockets\<close>

text \<open>
  \<open>handle_socket\<close> up to the registration: what a socket is sent before it is closed, or the id of the
  registered connection, whose channel \<open>tx\<close> is new.
\<close>

definition open_channel :: "nat \<Rightarrow> web_socket_manager \<Rightarrow> web_socket_manager" where
  "open_channel tx m =
     m\<lparr>ws_channels := AList.update tx \<lparr>wc_queue = [], wc_capacity = per_connection_buffer, wc_closed = False\<rparr> (ws_channels m)\<rparr>"

datatype socket_outcome = Refused realtime_error string | Registered u64

definition handle_socket ::
  "(string \<Rightarrow> bool) \<Rightarrow> int \<Rightarrow> nat \<Rightarrow> string option \<Rightarrow> realtime_identity option \<Rightarrow> web_socket_manager
   \<Rightarrow> socket_outcome \<times> web_socket_manager" where
  "handle_socket valid now tx token who m =
     (case token of
        None \<Rightarrow> (Refused AuthMissing ''authentication required'', m)
      | Some token \<Rightarrow>
          if \<not> valid token then (Refused AuthExpired ''authentication failed'', m)
          else case who of
              None \<Rightarrow> (Refused AuthExpired ''identity validation failed'', m)
            | Some who \<Rightarrow>
                (case add_client_with_identity now token who tx (open_channel tx m) of (c, m') \<Rightarrow> (Registered c, m')))"

definition show_open_request :: "json \<Rightarrow> web_socket_message" where
  "show_open_request data =
     (let call_id = (case Option.bind (json_get ''id'' data) as_str of None \<Rightarrow> [] | Some s \<Rightarrow> s);
          inner = (case json_get ''data'' data of None \<Rightarrow> JNull | Some v \<Rightarrow> v);
          properties = (case Option.bind (json_get ''properties'' inner) as_array of None \<Rightarrow> [] | Some vs \<Rightarrow> vs);
          has_open_file = list_ex (\<lambda>v. as_str v = Some ''openFile'') properties;
          has_open_directory = list_ex (\<lambda>v. as_str v = Some ''openDirectory'') properties
      in \<lparr>wm_name = ''show-open-request'',
          wm_data = JObject [(''id'', JString call_id), (''properties'', JArray properties),
                             (''isFileMode'', JBool (has_open_file \<and> \<not> has_open_directory))]\<rparr>)"

definition handle_text_message ::
  "ws_json \<Rightarrow> (u64 \<Rightarrow> string \<Rightarrow> json \<Rightarrow> bool) \<Rightarrow> int \<Rightarrow> u64 \<Rightarrow> string \<Rightarrow> web_socket_manager \<Rightarrow> web_socket_manager" where
  "handle_text_message js route now c text m =
     (case wj_from_str js text of
        None \<Rightarrow> send_to js c (into_event InvalidMessage) m
      | Some msg \<Rightarrow>
          if blank (wm_name msg) then send_to js c (into_event InvalidMessage) m
          else if wm_name msg = ''pong'' then update_last_ping now c m
          else if wm_name msg = ''subscribe-show-open'' then send_to js c (show_open_request (wm_data msg)) m
          else if \<not> route c (wm_name msg) (wm_data msg) then send_to js c (into_event UnsupportedMessage) m
          else m)"

definition noop_route :: "u64 \<Rightarrow> string \<Rightarrow> json \<Rightarrow> bool" where
  "noop_route c name data = False"

end
