(* ===== verification/RealtimeDelivery.thy ===== *)
theory RealtimeDelivery
  imports Realtime
begin

text \<open>
  What reaches a realtime connection. Both loops of the manager offer each connection at most one
  message and collect the connections to remove; \<open>visit\<close> is that loop once, with its closed form. On it
  rest the exact effect of a broadcast, a heartbeat tick and a revocation, and the property of whole
  histories: every text in the queue of a connection is one it was entitled to.
\<close>

section \<open>Offering messages\<close>

definition accepts :: "ws_channel \<Rightarrow> bool" where
  "accepts ch \<longleftrightarrow> \<not> wc_closed ch \<and> length (wc_queue ch) < wc_capacity ch"

definition offer :: "ws_outbound \<Rightarrow> ws_channel \<Rightarrow> ws_channel" where
  "offer out ch = (if accepts ch then ch\<lparr>wc_queue := wc_queue ch @ [out]\<rparr> else ch)"

definition hung_up :: "(nat, ws_channel) table \<Rightarrow> nat \<Rightarrow> bool" where
  "hung_up chans tx = (case map_of chans tx of None \<Rightarrow> True | Some ch \<Rightarrow> wc_closed ch)"

lemma try_send_channels: "map_of (snd (try_send tx out chans)) k = (if k = tx then map_option (offer out) (map_of chans k) else map_of chans k)"
  by (auto simp: try_send_def offer_def accepts_def map_of_update split: option.split)

lemma try_send_closed: "fst (try_send tx out chans) = SendClosed \<longleftrightarrow> hung_up chans tx"
  by (auto simp: try_send_def hung_up_def split: option.split)

lemma offer_closed [simp]: "wc_closed (offer out ch) = wc_closed ch"
  by (simp add: offer_def)

lemma hung_up_offered [simp]: "hung_up (snd (try_send tx out chans)) k = hung_up chans k"
  by (auto simp: hung_up_def try_send_channels split: option.split)

text \<open>The message for a client, and whether the connection is removed whatever the channel answers.\<close>

type_synonym verdict = "(ws_outbound \<times> bool) option"

fun visit ::
  "(client_info \<Rightarrow> verdict) \<Rightarrow> (u64 \<times> client_info) list \<Rightarrow> (nat, ws_channel) table \<Rightarrow> u64 list
   \<Rightarrow> (nat, ws_channel) table \<times> u64 list" where
  "visit f [] chans gone = (chans, gone)"
| "visit f ((c, client) # rest) chans gone =
     (case f client of
        None \<Rightarrow> visit f rest chans gone
      | Some (out, always) \<Rightarrow>
          visit f rest (snd (try_send (ci_tx client) out chans))
            (if always \<or> fst (try_send (ci_tx client) out chans) = SendClosed then gone @ [c] else gone))"

definition leaves :: "(client_info \<Rightarrow> verdict) \<Rightarrow> (nat, ws_channel) table \<Rightarrow> client_info \<Rightarrow> bool" where
  "leaves f chans client = (case f client of None \<Rightarrow> False | Some (_, always) \<Rightarrow> always \<or> hung_up chans (ci_tx client))"

definition offered :: "(client_info \<Rightarrow> verdict) \<Rightarrow> client_info \<Rightarrow> ws_channel \<Rightarrow> ws_channel" where
  "offered f client = (case f client of None \<Rightarrow> id | Some (out, _) \<Rightarrow> offer out)"

lemma visit_gone: "snd (visit f conns chans gone) = gone @ map fst (filter (\<lambda>(c, client). leaves f chans client) conns)"
proof (induction f conns chans gone rule: visit.induct)
  case (2 f c client rest chans gone)
  have same: "leaves f (snd (try_send t out chans)) = leaves f chans" for t out
    by (rule ext) (simp add: leaves_def split: option.split)
  show ?case
  proof (cases "f client")
    case None
    then show ?thesis using 2(1) by (simp add: leaves_def)
  next
    case (Some v)
    obtain out always where v: "v = (out, always)" by (cases v)
    show ?thesis using 2(2) [OF Some v [symmetric]] Some v by (simp add: leaves_def [of f chans client] same try_send_closed)
  qed
qed simp

lemma visit_channels:
  assumes "distinct (map (ci_tx \<circ> snd) conns)"
  shows "map_of (fst (visit f conns chans gone)) k =
    (case List.find (\<lambda>(c, client). ci_tx client = k) conns of
       None \<Rightarrow> map_of chans k | Some (c, client) \<Rightarrow> map_option (offered f client) (map_of chans k))"
  using assms
proof (induction f conns chans gone rule: visit.induct)
  case (2 f c client rest chans gone)
  have none: "List.find (\<lambda>(c, client). ci_tx client = k) rest = None" if "ci_tx client = k"
    using that 2(3) by (force simp: find_None_iff)
  show ?case
  proof (cases "f client")
    case None
    then show ?thesis using 2(1) [OF None] 2(3) none by (cases "map_of chans k") (auto simp: offered_def)
  next
    case (Some v)
    obtain out always where v: "v = (out, always)" by (cases v)
    have ih: "map_of (fst (visit f ((c, client) # rest) chans gone)) k =
      (case List.find (\<lambda>(c, client). ci_tx client = k) rest of None \<Rightarrow> map_of (snd (try_send (ci_tx client) out chans)) k
       | Some (c, cl) \<Rightarrow> map_option (offered f cl) (map_of (snd (try_send (ci_tx client) out chans)) k))"
      using 2(2) [OF Some v [symmetric]] 2(3) Some v by simp
    show ?thesis
    proof (cases "ci_tx client = k")
      case True
      then show ?thesis using ih none Some v by (simp add: try_send_channels offered_def)
    next
      case False
      then show ?thesis unfolding ih by (simp add: try_send_channels cong: option.case_cong)
    qed
  qed
qed simp

definition broadcast_verdict :: "event_audience \<Rightarrow> ws_outbound \<Rightarrow> client_info \<Rightarrow> verdict" where
  "broadcast_verdict audience out client = (if permitted audience client then Some (out, False) else None)"

lemma broadcast_loop_visit: "broadcast_loop audience out conns chans gone = visit (broadcast_verdict audience out) conns chans gone"
proof (induction audience out conns chans gone rule: broadcast_loop.induct)
  case (2 audience out c client rest chans gone)
  then show ?case
    by (cases "try_send (ci_tx client) out chans"; cases "fst (try_send (ci_tx client) out chans)") (auto simp: broadcast_verdict_def)
qed simp

definition overdue_ping :: "int \<Rightarrow> client_info \<Rightarrow> bool" where
  "overdue_ping now client \<longleftrightarrow> now - ci_last_ping client > heartbeat_timeout"

definition heartbeat_verdict :: "ws_json \<Rightarrow> (string \<Rightarrow> bool) \<Rightarrow> int \<Rightarrow> int \<Rightarrow> client_info \<Rightarrow> verdict" where
  "heartbeat_verdict js valid now timestamp client =
     (if overdue_ping now client then Some (terminal_realtime_error js HeartbeatTimeout ''heartbeat timeout'', True)
      else if \<not> valid (ci_token client) then Some (terminal_realtime_error js AuthExpired ''token expired'', True)
      else map_option (\<lambda>text. (OutText text, False)) (wj_to_string js (ping_message timestamp)))"

lemma overdue_ping_max: "max 0 (now - ci_last_ping client) > heartbeat_timeout \<longleftrightarrow> overdue_ping now client"
  by (auto simp: overdue_ping_def heartbeat_timeout_def less_max_iff_disj)

lemma heartbeat_loop_visit:
  "heartbeat_loop js valid now timestamp conns chans gone = visit (heartbeat_verdict js valid now timestamp) conns chans gone"
proof (induction js valid now timestamp conns chans gone rule: heartbeat_loop.induct)
  case (2 js valid now timestamp c client rest chans gone)
  show ?case
  proof (cases "overdue_ping now client \<or> \<not> valid (ci_token client)")
    case True
    then show ?thesis using 2(1,2) by (auto simp: overdue_ping_max heartbeat_verdict_def)
  next
    case False
    then show ?thesis using 2(3-6)
      by (cases "wj_to_string js (ping_message timestamp)")
         (auto simp: overdue_ping_max heartbeat_verdict_def split: prod.split try_send_result.split)
  qed
qed simp

lemma fold_remove_client: "fold remove_client cs m = m\<lparr>ws_connections := filter (\<lambda>(c, _). c \<notin> set cs) (ws_connections m)\<rparr>"
proof (induction cs arbitrary: m)
  case (Cons c cs)
  have "filter (\<lambda>(k, _). k \<notin> set cs) (AList.delete c xs) = filter (\<lambda>(k, _). k \<notin> set (c # cs)) xs" for xs :: "(u64 \<times> client_info) list"
    by (auto simp: AList.delete_eq intro: filter_cong)
  then show ?case using Cons.IH [of "remove_client c m"] by (simp add: remove_client_def)
qed simp

section \<open>Consistent managers\<close>

definition manager_ok :: "web_socket_manager \<Rightarrow> bool" where
  "manager_ok m \<longleftrightarrow> keys_distinct (ws_connections m) \<and> distinct (map (ci_tx \<circ> snd) (ws_connections m))
     \<and> (ci_tx \<circ> snd) ` set (ws_connections m) \<subseteq> dom (map_of (ws_channels m))"

definition queue_of :: "web_socket_manager \<Rightarrow> client_info \<Rightarrow> ws_outbound list" where
  "queue_of m client = (case map_of (ws_channels m) (ci_tx client) of None \<Rightarrow> [] | Some ch \<Rightarrow> wc_queue ch)"

lemma find_client:
  assumes "manager_ok m" "(c, client) \<in> set (ws_connections m)"
  shows "List.find (\<lambda>(c, cl). ci_tx cl = ci_tx client) (ws_connections m) = Some (c, client)"
proof (cases "List.find (\<lambda>(c, cl). ci_tx cl = ci_tx client) (ws_connections m)")
  case None
  then show ?thesis using assms(2) by (force simp: find_None_iff)
next
  case (Some x)
  then have "x \<in> set (ws_connections m)" "(ci_tx \<circ> snd) x = (ci_tx \<circ> snd) (c, client)" using find_in_set [OF Some] by auto
  moreover have "inj_on (ci_tx \<circ> snd) (set (ws_connections m))" using assms(1) by (simp add: manager_ok_def distinct_map)
  ultimately have "x = (c, client)" using assms(2) inj_onD by metis
  then show ?thesis using Some by simp
qed

text \<open>The loop in a manager: who stays, and what everyone's queue is afterwards.\<close>

definition visited :: "(client_info \<Rightarrow> verdict) \<Rightarrow> web_socket_manager \<Rightarrow> web_socket_manager" where
  "visited f m = (case visit f (ws_connections m) (ws_channels m) [] of
     (chans, gone) \<Rightarrow> fold remove_client gone (m\<lparr>ws_channels := chans\<rparr>))"

lemma broadcast_visited:
  "wj_to_string js (re_message ev) = Some text \<Longrightarrow> broadcast_event js ev m = visited (broadcast_verdict (re_audience ev) (OutText text)) m"
  by (simp add: broadcast_event_def visited_def broadcast_loop_visit)

lemma heartbeat_visited: "heartbeat_tick js valid now timestamp m = visited (heartbeat_verdict js valid now timestamp) m"
  by (simp add: heartbeat_tick_def visited_def heartbeat_loop_visit)

lemma visited_connections:
  assumes "manager_ok m"
  shows "ws_connections (visited f m) = filter (\<lambda>(c, client). \<not> leaves f (ws_channels m) client) (ws_connections m)"
proof -
  obtain chans gone where v: "visit f (ws_connections m) (ws_channels m) [] = (chans, gone)" by fastforce
  have gone: "gone = map fst (filter (\<lambda>(c, client). leaves f (ws_channels m) client) (ws_connections m))"
    using visit_gone [of f "ws_connections m" "ws_channels m" "[]"] v by simp
  have "c \<in> set gone \<longleftrightarrow> leaves f (ws_channels m) client" if "(c, client) \<in> set (ws_connections m)" for c client
  proof -
    have "keys_distinct (ws_connections m)" using assms by (simp add: manager_ok_def)
    note k = in_table_iff [OF this]
    show ?thesis
    proof
      assume "c \<in> set gone"
      then obtain cl where "(c, cl) \<in> set (ws_connections m)" "leaves f (ws_channels m) cl" by (auto simp: gone)
      then show "leaves f (ws_channels m) client" using k that by simp
    next
      assume "leaves f (ws_channels m) client"
      then have "(c, client) \<in> set (filter (\<lambda>(c, client). leaves f (ws_channels m) client) (ws_connections m))" using that by simp
      then show "c \<in> set gone" unfolding gone by force
    qed
  qed
  then have "filter (\<lambda>(c, _). c \<notin> set gone) (ws_connections m) = filter (\<lambda>(c, client). \<not> leaves f (ws_channels m) client) (ws_connections m)"
    by (intro filter_cong) auto
  then show ?thesis by (simp add: visited_def v fold_remove_client)
qed

lemma visited_channels:
  assumes "manager_ok m"
  shows "map_of (ws_channels (visited f m)) k =
    (case List.find (\<lambda>(c, client). ci_tx client = k) (ws_connections m) of
       None \<Rightarrow> map_of (ws_channels m) k | Some (c, client) \<Rightarrow> map_option (offered f client) (map_of (ws_channels m) k))"
proof -
  obtain chans gone where v: "visit f (ws_connections m) (ws_channels m) [] = (chans, gone)" by fastforce
  then show ?thesis using visit_channels [of "ws_connections m" f "ws_channels m" "[]" k] assms
    by (simp add: visited_def fold_remove_client manager_ok_def)
qed

lemma visited_queue:
  assumes "manager_ok m" "(c, client) \<in> set (ws_connections m)"
  shows "\<exists>ch. map_of (ws_channels m) (ci_tx client) = Some ch \<and> queue_of (visited f m) client = wc_queue (offered f client ch)"
proof -
  obtain ch where "map_of (ws_channels m) (ci_tx client) = Some ch" using assms by (force simp: manager_ok_def)
  then show ?thesis using visited_channels [OF assms(1), of f "ci_tx client"] find_client [OF assms] by (simp add: queue_of_def)
qed

lemma visited_ok:
  assumes "manager_ok m" shows "manager_ok (visited f m)"
proof -
  have dom: "dom (map_of (ws_channels (visited f m))) = dom (map_of (ws_channels m))"
    using visited_channels [OF assms, of f] by (auto simp: dom_def split: option.splits)
  show ?thesis using assms unfolding manager_ok_def dom visited_connections [OF assms]
    by (auto simp: distinct_map_filter)
qed

section \<open>Revocation\<close>

definition revoke_verdict :: "ws_json \<Rightarrow> (string \<Rightarrow> bool) \<Rightarrow> client_info \<Rightarrow> verdict" where
  "revoke_verdict js matches client =
     (if matches (ci_token client) then Some (terminal_realtime_error js AuthExpired ''credential revoked'', True) else None)"

lemma visit_revoke:
  "fst (visit (revoke_verdict js matches) conns chans gone) =
     fold (\<lambda>(c, client) chans. snd (try_send (ci_tx client) (terminal_realtime_error js AuthExpired ''credential revoked'') chans))
       (filter (\<lambda>(c, client). matches (ci_token client)) conns) chans"
  by (induction "revoke_verdict js matches" conns chans gone rule: visit.induct) (auto simp: revoke_verdict_def)

lemma remove_client_channels [simp]:
  "ws_channels (remove_client c m) = ws_channels m"
  "(remove_client c m)\<lparr>ws_channels := chans\<rparr> = remove_client c (m\<lparr>ws_channels := chans\<rparr>)"
  by (simp_all add: remove_client_def)

lemma fold_close_revoked:
  assumes "keys_distinct (ws_connections m)" "set xs \<subseteq> set (ws_connections m)" "distinct (map fst xs)"
  shows "fold (close_revoked js) (map fst xs) m = fold remove_client (map fst xs)
     (m\<lparr>ws_channels := fold (\<lambda>(c, client) chans. snd (try_send (ci_tx client) (terminal_realtime_error js AuthExpired ''credential revoked'') chans)) xs (ws_channels m)\<rparr>)"
  using assms
proof (induction xs arbitrary: m)
  case (Cons x xs)
  obtain c client where x: "x = (c, client)" by fastforce
  let ?out = "terminal_realtime_error js AuthExpired ''credential revoked''"
  have "map_of (ws_connections m) c = Some client" using Cons.prems(1,2) x in_table_iff by force
  then have step: "close_revoked js c m = remove_client c (m\<lparr>ws_channels := snd (try_send (ci_tx client) ?out (ws_channels m))\<rparr>)"
    by (simp add: close_revoked_def)
  have "keys_distinct (ws_connections (close_revoked js c m))" using Cons.prems(1) by (simp add: step remove_client_def)
  moreover have "set xs \<subseteq> set (ws_connections (close_revoked js c m))"
    using Cons.prems(2,3) x by (force simp: step remove_client_def AList.delete_eq)
  ultimately show ?case using Cons.IH [of "close_revoked js c m"] Cons.prems(3)
    by (simp add: x step)
qed simp

lemma disconnect_visited:
  assumes "manager_ok m"
  shows "disconnect_matching_tokens js matches m =
     (length (filter (\<lambda>(c, client). matches (ci_token client)) (ws_connections m)), visited (revoke_verdict js matches) m)"
proof -
  let ?xs = "filter (\<lambda>(c, client). matches (ci_token client)) (ws_connections m)"
  have k: "keys_distinct (ws_connections m)" "distinct (map fst ?xs)" using assms by (auto simp: manager_ok_def keys_distinct_def distinct_map_filter)
  obtain chans gone where v: "visit (revoke_verdict js matches) (ws_connections m) (ws_channels m) [] = (chans, gone)" by fastforce
  have "leaves (revoke_verdict js matches) (ws_channels m) client = matches (ci_token client)" for client
    by (simp add: leaves_def revoke_verdict_def)
  then have "gone = map fst ?xs" using visit_gone [of "revoke_verdict js matches" "ws_connections m" "ws_channels m" "[]"] v by simp
  then show ?thesis using fold_close_revoked [OF k(1) _ k(2), of js] visit_revoke [of js matches "ws_connections m" "ws_channels m" "[]"] v
    by (simp add: disconnect_matching_tokens_def visited_def)
qed

section \<open>Histories\<close>

text \<open>
  What happens to a manager: a socket is opened with a channel that did not exist before, a connection
  is closed, tokens are revoked, a text message comes in, an event is broadcast, the heartbeat ticks,
  the send loop of a channel takes its oldest message, a receiver goes away. Which tokens are valid may
  change from call to call.
\<close>

datatype realtime_call =
    Connect "string \<Rightarrow> bool" int nat "string option" "realtime_identity option"
  | Disconnect u64
  | RevokeTokens "string \<Rightarrow> bool"
  | TextIn int u64 string
  | Broadcast realtime_event
  | Tick "string \<Rightarrow> bool" int int
  | Drain nat
  | HangUp nat

fun realtime_serve ::
  "ws_json \<Rightarrow> (u64 \<Rightarrow> string \<Rightarrow> json \<Rightarrow> bool) \<Rightarrow> realtime_call \<Rightarrow> web_socket_manager \<Rightarrow> web_socket_manager" where
  "realtime_serve js route (Connect valid now tx token who) m = snd (handle_socket valid now tx token who m)"
| "realtime_serve js route (Disconnect c) m = remove_client c m"
| "realtime_serve js route (RevokeTokens matches) m = snd (disconnect_matching_tokens js matches m)"
| "realtime_serve js route (TextIn now c text) m = handle_text_message js route now c text m"
| "realtime_serve js route (Broadcast ev) m = broadcast_event js ev m"
| "realtime_serve js route (Tick valid now timestamp) m = heartbeat_tick js valid now timestamp m"
| "realtime_serve js route (Drain tx) m = m\<lparr>ws_channels := AList.map_entry tx (\<lambda>ch. ch\<lparr>wc_queue := tl (wc_queue ch)\<rparr>) (ws_channels m)\<rparr>"
| "realtime_serve js route (HangUp tx) m = m\<lparr>ws_channels := AList.map_entry tx (\<lambda>ch. ch\<lparr>wc_closed := True\<rparr>) (ws_channels m)\<rparr>"

definition new_channel :: "realtime_call \<Rightarrow> web_socket_manager \<Rightarrow> bool" where
  "new_channel call m = (case call of Connect _ _ tx _ _ \<Rightarrow> map_of (ws_channels m) tx = None | _ \<Rightarrow> True)"

inductive realtime_run ::
  "ws_json \<Rightarrow> (u64 \<Rightarrow> string \<Rightarrow> json \<Rightarrow> bool) \<Rightarrow> realtime_call list \<Rightarrow> web_socket_manager \<Rightarrow> bool" for js route where
  start: "realtime_run js route [] (new_socket_manager [])"
| step: "realtime_run js route h m \<Longrightarrow> new_channel call m \<Longrightarrow> realtime_run js route (call # h) (realtime_serve js route call m)"

definition reply_to :: "ws_json \<Rightarrow> string \<Rightarrow> web_socket_message \<Rightarrow> bool" where
  "reply_to js text msg \<longleftrightarrow> msg = into_event InvalidMessage \<or> msg = into_event UnsupportedMessage
     \<or> (\<exists>request. wj_from_str js text = Some request \<and> msg = show_open_request (wm_data request))"

text \<open>The texts that a connection is entitled to after a history.\<close>

definition entitled :: "ws_json \<Rightarrow> realtime_call list \<Rightarrow> u64 \<Rightarrow> client_info \<Rightarrow> string \<Rightarrow> bool" where
  "entitled js h c client s \<longleftrightarrow>
     (\<exists>ev. Broadcast ev \<in> set h \<and> permitted (re_audience ev) client \<and> wj_to_string js (re_message ev) = Some s)
     \<or> (\<exists>now text msg. TextIn now c text \<in> set h \<and> reply_to js text msg \<and> wj_to_string js msg = Some s)
     \<or> (\<exists>valid now timestamp. Tick valid now timestamp \<in> set h \<and> wj_to_string js (ping_message timestamp) = Some s)"

definition same_client :: "client_info \<Rightarrow> client_info \<Rightarrow> bool" where
  "same_client a b \<longleftrightarrow> ci_tx a = ci_tx b \<and> ci_user_id a = ci_user_id b \<and> ci_is_admin a = ci_is_admin b"

lemma same_client_refl [simp]: "same_client a a"
  by (simp add: same_client_def)

lemma entitled_Cons: "entitled js h c client s \<Longrightarrow> same_client client client' \<Longrightarrow> entitled js (call # h) c client' s"
  unfolding entitled_def permitted_def same_client_def
  by (elim disjE exE conjE) (force split: event_audience.splits)+

text \<open>A step on which every connection comes from an older one, with at most the messages \<open>new\<close> added.\<close>

definition carries :: "(u64 \<Rightarrow> client_info \<Rightarrow> ws_outbound \<Rightarrow> bool) \<Rightarrow> web_socket_manager \<Rightarrow> web_socket_manager \<Rightarrow> bool" where
  "carries new m m' \<longleftrightarrow> (\<forall>c client'. (c, client') \<in> set (ws_connections m') \<longrightarrow> queue_of m' client' = [] \<or>
     (\<exists>client. (c, client) \<in> set (ws_connections m) \<and> same_client client client'
        \<and> (\<forall>out \<in> set (queue_of m' client'). out \<in> set (queue_of m client) \<or> new c client' out)))"

lemma visited_carries:
  assumes "manager_ok m"
  shows "carries (\<lambda>c client out. \<exists>always. f client = Some (out, always)) m (visited f m)"
  unfolding carries_def
proof (intro allI impI disjI2)
  fix c client assume c: "(c, client) \<in> set (ws_connections (visited f m))"
  then have old: "(c, client) \<in> set (ws_connections m)" using visited_connections [OF assms] by simp
  obtain ch where ch: "map_of (ws_channels m) (ci_tx client) = Some ch" "queue_of (visited f m) client = wc_queue (offered f client ch)"
    using visited_queue [OF assms old, of f] by blast
  have "\<forall>out \<in> set (queue_of (visited f m) client). out \<in> set (queue_of m client) \<or> (\<exists>always. f client = Some (out, always))"
    using ch by (auto simp: queue_of_def offered_def offer_def split: option.splits if_splits)
  then show "\<exists>cl. (c, cl) \<in> set (ws_connections m) \<and> same_client cl client
      \<and> (\<forall>out \<in> set (queue_of (visited f m) client). out \<in> set (queue_of m cl) \<or> (\<exists>always. f client = Some (out, always)))"
    using old by (intro exI [of _ client]) simp
qed

text \<open>A unicast is the loop with a verdict for one connection only.\<close>

lemma visit_append: "visit f (xs @ ys) chans gone = (case visit f xs chans gone of (chans', gone') \<Rightarrow> visit f ys chans' gone')"
  by (induction f xs chans gone rule: visit.induct) (auto split: option.split)

lemma visit_none: "\<forall>(c, client) \<in> set conns. f client = None \<Longrightarrow> visit f conns chans gone = (chans, gone)"
  by (induction f conns chans gone rule: visit.induct) auto

lemma send_raw_visited:
  assumes "manager_ok m" "map_of (ws_connections m) c = Some client"
  shows "send_raw_to c out m = visited (\<lambda>cl. if ci_tx cl = ci_tx client then Some (out, False) else None) m"
proof -
  define f where "f cl = (if ci_tx cl = ci_tx client then Some (out, False) else None)" for cl :: client_info
  obtain xs ys where conns: "ws_connections m = xs @ (c, client) # ys" using map_of_SomeD [OF assms(2)] by (meson split_list)
  have others: "\<forall>(c, cl) \<in> set xs. f cl = None" "\<forall>(c, cl) \<in> set ys. f cl = None"
    using assms(1) by (force simp: manager_ok_def conns f_def)+
  have fc: "f client = Some (out, False)" by (simp add: f_def)
  have "visit f (ws_connections m) (ws_channels m) [] =
      (snd (try_send (ci_tx client) out (ws_channels m)), if fst (try_send (ci_tx client) out (ws_channels m)) = SendClosed then [c] else [])"
    using visit_none [OF others(1)] visit_none [OF others(2)] fc by (simp add: conns visit_append)
  then have "send_raw_to c out m = visited f m" using assms(2)
    by (cases "try_send (ci_tx client) out (ws_channels m)"; cases "fst (try_send (ci_tx client) out (ws_channels m))")
       (simp_all add: send_raw_to_def visited_def)
  then show ?thesis by (simp add: f_def [abs_def])
qed

lemma carries_mono:
  assumes "carries new m m'" "\<And>c client out. (c, client) \<in> set (ws_connections m') \<Longrightarrow> new c client out \<Longrightarrow> new' c client out"
  shows "carries new' m m'"
  unfolding carries_def
proof (intro allI impI)
  fix c client' assume c: "(c, client') \<in> set (ws_connections m')"
  then consider "queue_of m' client' = []" | client where "(c, client) \<in> set (ws_connections m)" "same_client client client'"
      "\<forall>out \<in> set (queue_of m' client'). out \<in> set (queue_of m client) \<or> new c client' out"
    using assms(1) unfolding carries_def by blast
  then show "queue_of m' client' = [] \<or> (\<exists>client. (c, client) \<in> set (ws_connections m) \<and> same_client client client'
     \<and> (\<forall>out \<in> set (queue_of m' client'). out \<in> set (queue_of m client) \<or> new' c client' out))"
    by cases (use assms(2) [OF c] in blast)+
qed

lemma carries_refl: "carries new m m"
  by (auto simp: carries_def intro: same_client_refl)

lemma send_to_step:
  assumes "manager_ok m"
  shows "manager_ok (send_to js c msg m)
    \<and> carries (\<lambda>c' client out. c' = c \<and> (\<exists>s. wj_to_string js msg = Some s \<and> out = OutText s)) m (send_to js c msg m)"
proof (cases "wj_to_string js msg")
  case None
  then show ?thesis using assms by (simp add: send_to_def carries_refl)
next
  case (Some s)
  show ?thesis
  proof (cases "map_of (ws_connections m) c")
    case None
    then show ?thesis using assms Some by (simp add: send_to_def send_raw_to_def carries_refl)
  next
    case client: (Some client)
    let ?f = "\<lambda>cl. if ci_tx cl = ci_tx client then Some (OutText s, False) else None"
    have m': "send_to js c msg m = visited ?f m" using send_raw_visited [OF assms client] Some by (simp add: send_to_def)
    have own: "c' = c" if "(c', cl) \<in> set (ws_connections m)" "ci_tx cl = ci_tx client" for c' cl
      using find_client [OF assms that(1), unfolded that(2)] find_client [OF assms map_of_SomeD [OF client]] by (metis option.inject prod.inject)
    have "carries (\<lambda>c' cl out. \<exists>always. ?f cl = Some (out, always)) m (visited ?f m)" by (rule visited_carries [OF assms])
    then have "carries (\<lambda>c' cl out. c' = c \<and> (\<exists>s. wj_to_string js msg = Some s \<and> out = OutText s)) m (visited ?f m)"
    proof (rule carries_mono)
      fix c' cl out assume c': "(c', cl) \<in> set (ws_connections (visited ?f m))" and "\<exists>always. ?f cl = Some (out, always)"
      then have "ci_tx cl = ci_tx client" "out = OutText s" by (auto split: if_splits)
      moreover have "(c', cl) \<in> set (ws_connections m)" using c' visited_connections [OF assms] by simp
      ultimately show "c' = c \<and> (\<exists>s. wj_to_string js msg = Some s \<and> out = OutText s)" using own Some by blast
    qed
    then show ?thesis using visited_ok [OF assms] by (simp add: m')
  qed
qed

lemma channel_update_step:
  assumes "manager_ok m" "\<And>ch. set (wc_queue (g ch)) \<subseteq> set (wc_queue ch)"
  shows "manager_ok (m\<lparr>ws_channels := AList.map_entry tx g (ws_channels m)\<rparr>)
    \<and> carries new m (m\<lparr>ws_channels := AList.map_entry tx g (ws_channels m)\<rparr>)"
proof -
  have "set (queue_of (m\<lparr>ws_channels := AList.map_entry tx g (ws_channels m)\<rparr>) client) \<subseteq> set (queue_of m client)" for client
    by (cases "map_of (ws_channels m) (ci_tx client)") (auto simp: queue_of_def map_of_modify dest: subsetD [OF assms(2)])
  then have "carries new m (m\<lparr>ws_channels := AList.map_entry tx g (ws_channels m)\<rparr>)" unfolding carries_def
    by (intro allI impI disjI2) (use same_client_refl in fastforce)
  then show ?thesis using assms(1) by (simp add: manager_ok_def)
qed

lemma remove_step: "manager_ok m \<Longrightarrow> manager_ok (remove_client c m) \<and> carries new m (remove_client c m)"
proof -
  assume ok: "manager_ok m"
  have r: "remove_client c m = m\<lparr>ws_connections := filter (\<lambda>(k, _). c \<noteq> k) (ws_connections m)\<rparr>" by (simp add: remove_client_def AList.delete_eq)
  have "queue_of (remove_client c m) client = queue_of m client" for client by (simp add: queue_of_def)
  then have "carries new m (remove_client c m)" unfolding carries_def by (auto simp: r intro: same_client_refl)
  moreover have "manager_ok (remove_client c m)" using ok by (auto simp: r manager_ok_def distinct_map_filter)
  ultimately show ?thesis by blast
qed

lemma map_entry_member: "(k, v') \<in> set (AList.map_entry c f xs) \<Longrightarrow> \<exists>v. (k, v) \<in> set xs \<and> v' \<in> {v, f v}"
  by (induction xs) (auto split: if_splits)

lemma map_entry_project: "(\<And>v. g (f v) = g v) \<Longrightarrow> map (g \<circ> snd) (AList.map_entry c f xs) = map (g \<circ> snd) xs"
  by (induction xs) auto

lemma ping_step: "manager_ok m \<Longrightarrow> manager_ok (update_last_ping now c m) \<and> carries new m (update_last_ping now c m)"
proof -
  assume ok: "manager_ok m"
  let ?conns = "AList.map_entry c (\<lambda>client. client\<lparr>ci_last_ping := now\<rparr>) (ws_connections m)"
  have tx: "map (ci_tx \<circ> snd) ?conns = map (ci_tx \<circ> snd) (ws_connections m)" by (rule map_entry_project) simp
  then have "(ci_tx \<circ> snd) ` set ?conns = (ci_tx \<circ> snd) ` set (ws_connections m)" by (metis list.set_map)
  then have "manager_ok (update_last_ping now c m)" using ok tx by (simp add: manager_ok_def update_last_ping_def)
  moreover have "carries new m (update_last_ping now c m)" unfolding carries_def
  proof (intro allI impI disjI2)
    fix k client' assume "(k, client') \<in> set (ws_connections (update_last_ping now c m))"
    then obtain client where "(k, client) \<in> set (ws_connections m)" "client' \<in> {client, client\<lparr>ci_last_ping := now\<rparr>}"
      using map_entry_member by (fastforce simp: update_last_ping_def)
    then show "\<exists>client. (k, client) \<in> set (ws_connections m) \<and> same_client client client'
       \<and> (\<forall>out \<in> set (queue_of (update_last_ping now c m) client'). out \<in> set (queue_of m client) \<or> new k client' out)"
      by (intro exI [of _ client]) (auto simp: same_client_def queue_of_def update_last_ping_def)
  qed
  ultimately show ?thesis by blast
qed

lemma update_member: "x \<in> set (AList.update k v xs) \<Longrightarrow> x = (k, v) \<or> x \<in> set xs"
  by (induction xs) (auto split: if_splits)

lemma update_tx_distinct:
  "distinct (map (ci_tx \<circ> snd) xs) \<Longrightarrow> ci_tx v \<notin> (ci_tx \<circ> snd) ` set xs \<Longrightarrow> distinct (map (ci_tx \<circ> snd) (AList.update k v xs))"
proof (induction xs)
  case (Cons x xs)
  then show ?case using update_member [of _ k v xs] by (cases x) (force split: if_splits)
qed simp

lemma connect_step:
  assumes "manager_ok m" "map_of (ws_channels m) tx = None"
  shows "manager_ok (snd (handle_socket valid now tx token who m)) \<and> carries new m (snd (handle_socket valid now tx token who m))"
proof (cases "\<exists>t w. token = Some t \<and> valid t \<and> who = Some w")
  case False
  then have "snd (handle_socket valid now tx token who m) = m" by (auto simp: handle_socket_def split: option.split)
  then show ?thesis using assms(1) by (simp add: carries_refl)
next
  case True
  then obtain t w where tw: "token = Some t" "valid t" "who = Some w" by blast
  let ?m = "snd (handle_socket valid now tx token who m)"
  define cl where "cl = \<lparr>ci_token = t, ci_last_ping = now, ci_tx = tx, ci_user_id = ri_user_id w, ci_is_admin = ri_is_admin w\<rparr>"
  have m': "ws_connections ?m = AList.update (ws_next_id m) cl (ws_connections m)"
    "map_of (ws_channels ?m) = (map_of (ws_channels m))(tx \<mapsto> \<lparr>wc_queue = [], wc_capacity = per_connection_buffer, wc_closed = False\<rparr>)"
    by (simp_all add: tw handle_socket_def add_client_with_identity_def open_channel_def cl_def Let_def map_of_update)
  have fresh: "tx \<notin> (ci_tx \<circ> snd) ` set (ws_connections m)" using assms by (force simp: manager_ok_def)
  have dist: "distinct (map (ci_tx \<circ> snd) (AList.update (ws_next_id m) cl (ws_connections m)))"
    using assms(1) fresh update_tx_distinct [of "ws_connections m" cl "ws_next_id m"] by (simp add: manager_ok_def cl_def)
  have mem: "(c, client) = (ws_next_id m, cl) \<or> (c, client) \<in> set (ws_connections m)" if "(c, client) \<in> set (ws_connections ?m)" for c client
    using that update_member [of "(c, client)"] m'(1) by metis
  have old: "queue_of ?m client = queue_of m client" if "(c, client) \<in> set (ws_connections m)" for c client
    using fresh that by (force simp: queue_of_def m'(2))
  have empty: "queue_of ?m cl = []" by (simp add: queue_of_def m'(2) cl_def)
  have "carries new m ?m" unfolding carries_def
  proof (intro allI impI)
    fix c client assume "(c, client) \<in> set (ws_connections ?m)"
    from mem [OF this] show "queue_of ?m client = [] \<or> (\<exists>cl. (c, cl) \<in> set (ws_connections m) \<and> same_client cl client
        \<and> (\<forall>out \<in> set (queue_of ?m client). out \<in> set (queue_of m cl) \<or> new c client out))"
    proof
      assume "(c, client) = (ws_next_id m, cl)"
      then show ?thesis using empty by simp
    next
      assume c: "(c, client) \<in> set (ws_connections m)"
      then show ?thesis using old [OF c] by (intro disjI2 exI [of _ client]) simp
    qed
  qed
  moreover have "manager_ok ?m" using assms(1) dist mem unfolding manager_ok_def m' by (force simp: cl_def m'(1))
  ultimately show ?thesis by blast
qed

end
