(* ===== verification/RealtimePrivacy.thy ===== *)
theory RealtimePrivacy
  imports RealtimeDelivery
begin

text \<open>
  The properties of the realtime layer: what a connection may be sent over a whole history, whom a
  broadcast reaches, what a heartbeat tick and a revocation leave, and that ids are not reused.
\<close>

section \<open>Steps\<close>

definition justified :: "ws_json \<Rightarrow> realtime_call list \<Rightarrow> u64 \<Rightarrow> client_info \<Rightarrow> ws_outbound \<Rightarrow> bool" where
  "justified js h c client out \<longleftrightarrow> (\<forall>s. out = OutText s \<longrightarrow> entitled js h c client s)"

lemma entitled_ping: "Tick valid now timestamp \<in> set h \<Longrightarrow> wj_to_string js (ping_message timestamp) = Some s \<Longrightarrow> entitled js h c client s"
  unfolding entitled_def by blast

lemma terminal_not_text: "terminal_realtime_error js e reason \<noteq> OutText s"
  by (simp add: terminal_realtime_error_def split: option.split)

lemma text_message_step:
  assumes "manager_ok m"
  shows "manager_ok (handle_text_message js route now c text m)
    \<and> carries (justified js (TextIn now c text # h)) m (handle_text_message js route now c text m)"
proof -
  have reply: "manager_ok (send_to js c msg m) \<and> carries (justified js (TextIn now c text # h)) m (send_to js c msg m)"
    if "reply_to js text msg" for msg
  proof
    show "carries (justified js (TextIn now c text # h)) m (send_to js c msg m)"
      by (rule carries_mono [OF conjunct2 [OF send_to_step [OF assms]]]) (use that in \<open>force simp: justified_def entitled_def\<close>)
  qed (use send_to_step [OF assms] in blast)
  have pong: "manager_ok (update_last_ping now c m) \<and> carries (justified js (TextIn now c text # h)) m (update_last_ping now c m)"
    by (rule ping_step [OF assms])
  show ?thesis
  proof (cases "wj_from_str js text")
    case None
    then show ?thesis using reply [of "into_event InvalidMessage"] by (simp add: handle_text_message_def reply_to_def)
  next
    case (Some msg)
    then show ?thesis
      using reply [of "into_event InvalidMessage"] reply [of "into_event UnsupportedMessage"] reply [of "show_open_request (wm_data msg)"]
        pong assms carries_refl [of "justified js (TextIn now c text # h)" m]
      by (simp add: handle_text_message_def reply_to_def)
  qed
qed

lemma serve_step:
  assumes ok: "manager_ok m" and new: "new_channel call m"
  shows "manager_ok (realtime_serve js route call m) \<and> carries (justified js (call # h)) m (realtime_serve js route call m)"
proof (cases call)
  case (Connect valid now tx token who)
  then show ?thesis using connect_step [OF ok, of tx] new by (simp add: new_channel_def)
next
  case (Disconnect c)
  then show ?thesis using remove_step [OF ok] by simp
next
  case (RevokeTokens p)
  have "carries (justified js (call # h)) m (visited (revoke_verdict js p) m)"
    by (rule carries_mono [OF visited_carries [OF ok]]) (auto simp: revoke_verdict_def justified_def terminal_not_text split: if_splits)
  then show ?thesis using RevokeTokens disconnect_visited [OF ok] visited_ok [OF ok] by simp
next
  case (TextIn now c s)
  then show ?thesis using text_message_step [OF ok] by simp
next
  case (Broadcast ev)
  show ?thesis
  proof (cases "wj_to_string js (re_message ev)")
    case None
    then show ?thesis using Broadcast ok by (simp add: broadcast_event_def carries_refl)
  next
    case (Some s)
    have "carries (justified js (call # h)) m (visited (broadcast_verdict (re_audience ev) (OutText s)) m)"
      by (rule carries_mono [OF visited_carries [OF ok]])
         (use Broadcast Some in \<open>auto simp: broadcast_verdict_def justified_def entitled_def split: if_splits\<close>)
    then show ?thesis using Broadcast broadcast_visited [OF Some] visited_ok [OF ok] by simp
  qed
next
  case (Tick valid now timestamp)
  have "carries (justified js (call # h)) m (visited (heartbeat_verdict js valid now timestamp) m)"
    by (rule carries_mono [OF visited_carries [OF ok]])
       (use Tick in \<open>auto simp: heartbeat_verdict_def justified_def terminal_not_text split: if_splits intro: entitled_ping [of valid now timestamp]\<close>)
  then show ?thesis using Tick visited_ok [OF ok] by (simp add: heartbeat_visited)
next
  case (Drain tx)
  have "set (tl q) \<subseteq> set q" for q :: "ws_outbound list" by (cases q) auto
  then show ?thesis using Drain channel_update_step [OF ok, of "\<lambda>ch. ch\<lparr>wc_queue := tl (wc_queue ch)\<rparr>" tx] by simp
next
  case (HangUp tx)
  then show ?thesis using channel_update_step [OF ok, of "\<lambda>ch. ch\<lparr>wc_closed := True\<rparr>" tx] by simp
qed

lemma realtime_invariant:
  assumes "realtime_run js route h m"
  shows "manager_ok m \<and> (\<forall>(c, client) \<in> set (ws_connections m). \<forall>out \<in> set (queue_of m client). justified js h c client out)"
  using assms
proof induction
  case start
  then show ?case by (simp add: new_socket_manager_def manager_ok_def)
next
  case (step h m call)
  let ?m = "realtime_serve js route call m"
  have ok: "manager_ok m" using step.IH by simp
  note s = serve_step [OF ok step.hyps(2), of js route h]
  have "justified js (call # h) c client' out" if c: "(c, client') \<in> set (ws_connections ?m)" and out: "out \<in> set (queue_of ?m client')" for c client' out
  proof -
    obtain client where cl: "(c, client) \<in> set (ws_connections m)" "same_client client client'"
      "out \<in> set (queue_of m client) \<or> justified js (call # h) c client' out"
      using s c out unfolding carries_def by fastforce
    then show ?thesis using step.IH entitled_Cons [OF _ cl(2)] by (fastforce simp: justified_def)
  qed
  then show ?case using s by blast
qed

section \<open>Properties\<close>

text \<open>A history of two users: an event for one of them is broadcast. Its JSON is the name of the message.\<close>

definition demo_json :: ws_json where
  "demo_json = \<lparr>wj_to_string = (\<lambda>msg. Some (wm_name msg)), wj_from_str = (\<lambda>s. Some \<lparr>wm_name = s, wm_data = JNull\<rparr>)\<rparr>"

definition demo_event :: realtime_event where
  "demo_event = \<lparr>re_audience = ToUser ''ann'', re_message = \<lparr>wm_name = ''turn.delta'', wm_data = JNull\<rparr>\<rparr>"

definition demo_calls :: "realtime_call list" where
  "demo_calls =
     [Connect (\<lambda>_. True) 0 7 (Some ''token-a'') (Some \<lparr>ri_user_id = ''ann'', ri_is_admin = False\<rparr>),
      Connect (\<lambda>_. True) 5 8 (Some ''token-b'') (Some \<lparr>ri_user_id = ''bob'', ri_is_admin = True\<rparr>),
      Broadcast demo_event]"

definition demo_client :: "id \<Rightarrow> client_info" where
  "demo_client user = (if user = ''ann''
     then \<lparr>ci_token = ''token-a'', ci_last_ping = 0, ci_tx = 7, ci_user_id = ''ann'', ci_is_admin = False\<rparr>
     else \<lparr>ci_token = ''token-b'', ci_last_ping = 5, ci_tx = 8, ci_user_id = ''bob'', ci_is_admin = True\<rparr>)"

definition demo_manager :: "ws_outbound list \<Rightarrow> web_socket_manager" where
  "demo_manager q = \<lparr>ws_connections = [(1, demo_client ''ann''), (2, demo_client ''bob'')], ws_next_id = 3,
     ws_channels = [(7, \<lparr>wc_queue = q, wc_capacity = 64, wc_closed = False\<rparr>), (8, \<lparr>wc_queue = [], wc_capacity = 64, wc_closed = False\<rparr>)]\<rparr>"

lemma demo_history:
  "realtime_run demo_json noop_route (rev (take 2 demo_calls)) (demo_manager [])"
  "realtime_run demo_json noop_route (rev demo_calls) (demo_manager [OutText ''turn.delta''])"
proof -
  note demo = demo_calls_def demo_manager_def demo_client_def new_channel_def new_socket_manager_def handle_socket_def
    add_client_with_identity_def open_channel_def per_connection_buffer_def
  have r0: "realtime_run demo_json noop_route [] (new_socket_manager [])" by (rule realtime_run.start)
  have r1: "realtime_run demo_json noop_route [demo_calls ! 0] (realtime_serve demo_json noop_route (demo_calls ! 0) (new_socket_manager []))"
    by (rule realtime_run.step [OF r0]) (simp add: demo)
  have r2: "realtime_run demo_json noop_route [demo_calls ! 1, demo_calls ! 0]
      (realtime_serve demo_json noop_route (demo_calls ! 1) (realtime_serve demo_json noop_route (demo_calls ! 0) (new_socket_manager [])))"
    by (rule realtime_run.step [OF r1]) (simp add: demo)
  have m2: "realtime_serve demo_json noop_route (demo_calls ! 1) (realtime_serve demo_json noop_route (demo_calls ! 0) (new_socket_manager [])) = demo_manager []"
    by (simp add: demo)
  show two: "realtime_run demo_json noop_route (rev (take 2 demo_calls)) (demo_manager [])" using r2 unfolding m2 by (simp add: demo_calls_def)
  have m3: "realtime_serve demo_json noop_route (Broadcast demo_event) (demo_manager []) = demo_manager [OutText ''turn.delta'']"
    by (simp add: demo_manager_def demo_client_def demo_event_def demo_json_def broadcast_event_def permitted_def try_send_def)
  have "realtime_run demo_json noop_route (Broadcast demo_event # rev (take 2 demo_calls)) (demo_manager [OutText ''turn.delta''])"
    unfolding m3 [symmetric] by (rule realtime_run.step [OF two]) (simp add: new_channel_def)
  then show "realtime_run demo_json noop_route (rev demo_calls) (demo_manager [OutText ''turn.delta''])" by (simp add: demo_calls_def)
qed

text \<open>
  C27. Nothing reaches a connection that it is not entitled to. Over every history, each text in the
  queue of a connection is an event that was broadcast to an audience the connection belongs to (all,
  its own user, or the administrators when it is one), a reply to a message that came in on the same
  connection, or a ping.
\<close>

theorem queued_text_is_entitled:
  assumes "realtime_run js route h m" "(c, client) \<in> set (ws_connections m)" "OutText s \<in> set (queue_of m client)"
  shows "(\<exists>ev. Broadcast ev \<in> set h \<and> permitted (re_audience ev) client \<and> wj_to_string js (re_message ev) = Some s)
     \<or> (\<exists>now text msg. TextIn now c text \<in> set h \<and> reply_to js text msg \<and> wj_to_string js msg = Some s)
     \<or> (\<exists>valid now timestamp. Tick valid now timestamp \<in> set h \<and> wj_to_string js (ping_message timestamp) = Some s)"
  using realtime_invariant [OF assms(1)] assms(2,3) by (fastforce simp: justified_def entitled_def)

theorem queued_text_is_entitled_witness:
  "\<exists>ev. Broadcast ev \<in> set (rev demo_calls) \<and> permitted (re_audience ev) (demo_client ''ann'')"
proof -
  have "OutText ''turn.delta'' \<in> set (queue_of (demo_manager [OutText ''turn.delta'']) (demo_client ''ann''))"
    by (simp add: demo_manager_def demo_client_def queue_of_def)
  then show ?thesis using queued_text_is_entitled [OF demo_history(2), of 1 "demo_client ''ann''" "''turn.delta''"]
    by (auto simp: demo_manager_def demo_calls_def)
qed

text \<open>
  A broadcast reaches exactly its audience. In every state a history leads to, an event that can
  be written is appended to the queue of every connection of its audience that is open and has room,
  and to no other queue; a connection of the audience whose receiver is gone is removed, and no other
  connection is.
\<close>

theorem broadcast_reaches_audience:
  assumes "realtime_run js route h m" "wj_to_string js (re_message ev) = Some text"
  shows "ws_connections (broadcast_event js ev m)
      = filter (\<lambda>(c, client). \<not> (permitted (re_audience ev) client \<and> hung_up (ws_channels m) (ci_tx client))) (ws_connections m)
     \<and> (\<forall>(c, client) \<in> set (ws_connections m). \<exists>ch. map_of (ws_channels m) (ci_tx client) = Some ch \<and>
          queue_of (broadcast_event js ev m) client =
            queue_of m client @ (if permitted (re_audience ev) client \<and> accepts ch then [OutText text] else []))"
proof -
  have ok: "manager_ok m" using realtime_invariant [OF assms(1)] by simp
  let ?f = "broadcast_verdict (re_audience ev) (OutText text)"
  have leave: "leaves ?f (ws_channels m) client = (permitted (re_audience ev) client \<and> hung_up (ws_channels m) (ci_tx client))" for client
    by (simp add: leaves_def broadcast_verdict_def)
  have "\<exists>ch. map_of (ws_channels m) (ci_tx client) = Some ch \<and> queue_of (visited ?f m) client =
      queue_of m client @ (if permitted (re_audience ev) client \<and> accepts ch then [OutText text] else [])"
    if "(c, client) \<in> set (ws_connections m)" for c client
    using visited_queue [OF ok that, of ?f] by (auto simp: queue_of_def [of m] offered_def broadcast_verdict_def offer_def)
  then show ?thesis unfolding broadcast_visited [OF assms(2)] visited_connections [OF ok] leave by blast
qed

theorem broadcast_reaches_audience_witness:
  "queue_of (broadcast_event demo_json demo_event (demo_manager [])) (demo_client ''bob'') = []
   \<and> queue_of (broadcast_event demo_json demo_event (demo_manager [])) (demo_client ''ann'') = [OutText ''turn.delta'']"
  using broadcast_reaches_audience [OF demo_history(1), of demo_event "''turn.delta''"]
  by (simp add: demo_json_def demo_event_def demo_manager_def demo_client_def queue_of_def permitted_def accepts_def)

text \<open>
  A heartbeat tick keeps exactly the live connections: those whose last sign of life is at most
  sixty seconds old, whose token is still valid and, when the ping can be written, whose receiver is
  there. A connection that is closed for its age or its token is sent the reason if its queue has room.
\<close>

theorem heartbeat_keeps_live_connections:
  assumes "realtime_run js route h m"
  shows "set (ws_connections (heartbeat_tick js valid now timestamp m))
      = {(c, client) \<in> set (ws_connections m). now - ci_last_ping client \<le> 60000000000 \<and> valid (ci_token client)
           \<and> (wj_to_string js (ping_message timestamp) = None \<or> \<not> hung_up (ws_channels m) (ci_tx client))}
     \<and> (\<forall>(c, client) \<in> set (ws_connections m). \<forall>ch. map_of (ws_channels m) (ci_tx client) = Some ch \<and> accepts ch \<longrightarrow>
          queue_of (heartbeat_tick js valid now timestamp m) client = queue_of m client @
            (if now - ci_last_ping client > 60000000000 then [terminal_realtime_error js HeartbeatTimeout ''heartbeat timeout'']
             else if \<not> valid (ci_token client) then [terminal_realtime_error js AuthExpired ''token expired'']
             else case wj_to_string js (ping_message timestamp) of Some text \<Rightarrow> [OutText text] | None \<Rightarrow> []))"
proof -
  have ok: "manager_ok m" using realtime_invariant [OF assms(1)] by simp
  let ?f = "heartbeat_verdict js valid now timestamp"
  have leave: "leaves ?f (ws_channels m) client \<longleftrightarrow> \<not> (now - ci_last_ping client \<le> 60000000000 \<and> valid (ci_token client)
      \<and> (wj_to_string js (ping_message timestamp) = None \<or> \<not> hung_up (ws_channels m) (ci_tx client)))" for client
    by (cases "wj_to_string js (ping_message timestamp)") (auto simp: leaves_def heartbeat_verdict_def overdue_ping_def heartbeat_timeout_def)
  have "queue_of (visited ?f m) client = queue_of m client @
      (if now - ci_last_ping client > 60000000000 then [terminal_realtime_error js HeartbeatTimeout ''heartbeat timeout'']
       else if \<not> valid (ci_token client) then [terminal_realtime_error js AuthExpired ''token expired'']
       else case wj_to_string js (ping_message timestamp) of Some text \<Rightarrow> [OutText text] | None \<Rightarrow> [])"
    if "(c, client) \<in> set (ws_connections m)" "map_of (ws_channels m) (ci_tx client) = Some ch" "accepts ch" for c client ch
    using visited_queue [OF ok that(1), of ?f] that(2,3)
    by (cases "wj_to_string js (ping_message timestamp)")
       (auto simp: queue_of_def [of m] offered_def offer_def heartbeat_verdict_def overdue_ping_def heartbeat_timeout_def)
  moreover have "set (ws_connections (visited ?f m)) = {(c, client) \<in> set (ws_connections m). now - ci_last_ping client \<le> 60000000000
      \<and> valid (ci_token client) \<and> (wj_to_string js (ping_message timestamp) = None \<or> \<not> hung_up (ws_channels m) (ci_tx client))}"
    unfolding visited_connections [OF ok] leave by auto
  ultimately show ?thesis unfolding heartbeat_visited by blast
qed

theorem heartbeat_keeps_live_connections_witness:
  "set (ws_connections (heartbeat_tick demo_json (\<lambda>t. t = ''token-a'') 100 1 (demo_manager []))) = {(1, demo_client ''ann'')}"
proof -
  have "hung_up (ws_channels (demo_manager [])) (ci_tx (demo_client ''ann'')) = False" by (simp add: demo_manager_def demo_client_def hung_up_def)
  then show ?thesis
    unfolding conjunct1 [OF heartbeat_keeps_live_connections [OF demo_history(1), of "\<lambda>t. t = ''token-a''" 100 1]]
    by (auto simp: demo_manager_def) (simp_all add: demo_client_def)
qed

text \<open>
  Revoking tokens closes exactly the connections that use them: the number returned is how many
  there were, none of them is left, and no other connection or queue changes.
\<close>

theorem revoked_tokens_are_disconnected:
  assumes "realtime_run js route h m" "disconnect_matching_tokens js matches m = (n, m')"
  shows "n = length (filter (\<lambda>(c, client). matches (ci_token client)) (ws_connections m))
     \<and> ws_connections m' = filter (\<lambda>(c, client). \<not> matches (ci_token client)) (ws_connections m)
     \<and> (\<forall>(c, client) \<in> set (ws_connections m'). queue_of m' client = queue_of m client)"
proof -
  have ok: "manager_ok m" using realtime_invariant [OF assms(1)] by simp
  let ?f = "revoke_verdict js matches"
  have leave: "leaves ?f (ws_channels m) client = matches (ci_token client)" for client by (simp add: leaves_def revoke_verdict_def)
  have "queue_of (visited ?f m) client = queue_of m client" if "(c, client) \<in> set (ws_connections m)" "\<not> matches (ci_token client)" for c client
    using visited_queue [OF ok that(1), of ?f] that(2) by (auto simp: queue_of_def [of m] offered_def revoke_verdict_def)
  then show ?thesis using assms(2) unfolding disconnect_visited [OF ok] using visited_connections [OF ok, of ?f] leave by auto
qed

theorem revoked_tokens_are_disconnected_witness:
  "fst (disconnect_matching_tokens demo_json (\<lambda>t. t = ''token-a'') (demo_manager [])) = 1
   \<and> ws_connections (snd (disconnect_matching_tokens demo_json (\<lambda>t. t = ''token-a'') (demo_manager []))) = [(2, demo_client ''bob'')]"
  using revoked_tokens_are_disconnected [OF demo_history(1) prod.collapse [symmetric], of "\<lambda>t. t = ''token-a''"]
  by (simp add: demo_manager_def demo_client_def)

section \<open>The adapter and the sockets\<close>

text \<open>Behind the adapter every plain broadcast is one for its user.\<close>

lemma adapter_scopes_to_user:
  "eb_broadcast (user_event_broadcaster (manager_broadcaster js) user) msg = broadcast_event js \<lparr>re_audience = ToUser user, re_message = msg\<rparr>"
  by (simp add: user_event_broadcaster_def manager_broadcaster_def broadcast_to_user_def fun_eq_iff)

text \<open>A socket is registered exactly when it brings a valid token and an identity.\<close>

lemma socket_registered_iff:
  "(\<exists>c. fst (handle_socket valid now tx token who m) = Registered c) \<longleftrightarrow> (\<exists>t w. token = Some t \<and> valid t \<and> who = Some w)"
  by (auto simp: handle_socket_def split: option.split prod.split)

end
