(* ===== verification/ConversationRuntime.thy ===== *)
theory ConversationRuntime
  imports Prelude
begin

text \<open>
  The conversation runtime state, \<open>aionui-conversation/src/runtime_state.rs\<close>: which turn of a
  conversation holds the runtime, which one waits, which conversations are being deleted or
  cancelled, and the claim object that releases the runtime when it is dropped.

  The service is a record of the mutex's poison flag and the state behind it. A claim holds
  a weak reference to the service; releasing it takes the service as an option, \<open>None\<close> when
  the service is gone. Log calls are left out, and so are the waiters of \<open>release_notify\<close>.
\<close>

section \<open>State\<close>

datatype conversation_error =
    ConvNotFound id
  | MessageNotFound id
  | ArtifactNotFound id
  | ActiveAgentNotFound id
  | Archived id string
  | BadRequest string
  | Busy string
  | Capacity string string
  | ConvForbidden string
  | NotFoundReason string
  | Unauthorized string
  | RateLimited
  | BadGateway string
  | TimeoutError string
  | ConfigConfirmationTimeout id id string "string option"
  | ConfigUpdateInProgress id id string
  | TeamRuntimeRequired id id
  | Unprocessable string
  | Internal string
  | ConvWorkspacePathUnavailable string
  | ConvWorkspacePathRuntimeUnavailable string
  | OpenClawGatewayUnreachable string
  | Acp string \<comment> \<open>an error of the ACP layer, as its text\<close>

datatype conversation_status = StPending | StRunning | StFinished

datatype runtime_state_kind =
    KindIdle | KindQueued | KindStarting | KindRunning | KindCancelling | KindWaitingConfirmation

datatype runtime_lifecycle_state = LcActive | LcDeleting | LcCancelling | LcShuttingDown

record queued_turn =
  qt_turn_id :: id
  qt_queued_at :: timestamp_ms

record conversation_runtime_state =
  rt_active_turns :: "(id, id) table"
  rt_queued_turns :: "(id, queued_turn) table"
  rt_deleting_conversations :: "id set"
  rt_cancelling_conversations :: "id set"
  rt_shutting_down :: bool

record runtime_state_service =
  rv_poisoned :: bool
  rv_state :: conversation_runtime_state

record turn_claim =
  tc_conversation_id :: id
  tc_turn_id :: id
  tc_released :: bool

record conversation_runtime_summary =
  sm_state :: runtime_state_kind
  sm_can_send_message :: bool
  sm_has_task :: bool
  sm_task_status :: "conversation_status option"
  sm_is_processing :: bool
  sm_pending_confirmations :: nat
  sm_turn_id :: "id option"
  sm_queue_position :: "u32 option"
  sm_estimated_wait_ms :: "u64 option"
  sm_queued_at :: "timestamp_ms option"
  sm_effective_model :: "string option"
  sm_fallback_used :: "bool option"

definition new_service :: runtime_state_service where
  "new_service = \<lparr>rv_poisoned = False, rv_state =
     \<lparr>rt_active_turns = [], rt_queued_turns = [], rt_deleting_conversations = {},
      rt_cancelling_conversations = {}, rt_shutting_down = False\<rparr>\<rparr>"

section \<open>Operations\<close>

definition lock_poisoned :: conversation_error where
  "lock_poisoned = Internal ''conversation runtime state lock poisoned''"

definition queued_as :: "id \<Rightarrow> id \<Rightarrow> conversation_runtime_state \<Rightarrow> bool" where
  "queued_as conv turn st =
     (case map_of (rt_queued_turns st) conv of None \<Rightarrow> False | Some q \<Rightarrow> qt_turn_id q = turn)"

definition try_claim_turn ::
  "id \<Rightarrow> id \<Rightarrow> runtime_state_service \<Rightarrow> (conversation_error + turn_claim) \<times> runtime_state_service" where
  "try_claim_turn conv turn s =
     (let st = rv_state s in
      if rv_poisoned s then (Inl lock_poisoned, s)
      else if rt_shutting_down st then (Inl (Busy ''conversation runtime is shutting down''), s)
      else if conv \<in> rt_deleting_conversations st
      then (Inl (Busy (''conversation '' @ conv @ '' is being deleted'')), s)
      else if map_of (rt_active_turns st) conv \<noteq> None
      then (Inl (Busy (''conversation '' @ conv @ '' is already running'')), s)
      else
        let st1 = st\<lparr>rt_active_turns := AList.update conv turn (rt_active_turns st)\<rparr>;
            st2 = (if queued_as conv turn st1
                   then st1\<lparr>rt_queued_turns := AList.delete conv (rt_queued_turns st1)\<rparr> else st1)
        in (Inr \<lparr>tc_conversation_id = conv, tc_turn_id = turn, tc_released = False\<rparr>,
            s\<lparr>rv_state := st2\<rparr>))"

definition is_claimed :: "id \<Rightarrow> runtime_state_service \<Rightarrow> bool" where
  "is_claimed conv s \<longleftrightarrow> \<not> rv_poisoned s \<and> map_of (rt_active_turns (rv_state s)) conv \<noteq> None"

definition mark_queued ::
  "id \<Rightarrow> id \<Rightarrow> timestamp_ms \<Rightarrow> runtime_state_service
     \<Rightarrow> (conversation_error + unit) \<times> runtime_state_service" where
  "mark_queued conv turn queued_at s =
     (let st = rv_state s in
      if rv_poisoned s then (Inl lock_poisoned, s)
      else if rt_shutting_down st \<or> conv \<in> rt_deleting_conversations st
      then (Inl (Busy ''conversation runtime is unavailable''), s)
      else if map_of (rt_active_turns st) conv \<noteq> None \<or> map_of (rt_queued_turns st) conv \<noteq> None
      then (Inl (Busy (''conversation '' @ conv @ '' already has a turn'')), s)
      else (Inr (), s\<lparr>rv_state := st\<lparr>rt_queued_turns :=
             AList.update conv \<lparr>qt_turn_id = turn, qt_queued_at = queued_at\<rparr> (rt_queued_turns st)\<rparr>\<rparr>))"

definition clear_queued :: "id \<Rightarrow> id \<Rightarrow> runtime_state_service \<Rightarrow> bool \<times> runtime_state_service" where
  "clear_queued conv turn s =
     (let st = rv_state s in
      if \<not> rv_poisoned s \<and> queued_as conv turn st
      then (True, s\<lparr>rv_state := st\<lparr>rt_queued_turns := AList.delete conv (rt_queued_turns st)\<rparr>\<rparr>)
      else (False, s))"

definition queued_turn_for :: "id \<Rightarrow> runtime_state_service \<Rightarrow> (id \<times> timestamp_ms) option" where
  "queued_turn_for conv s =
     (if rv_poisoned s then None
      else map_option (\<lambda>q. (qt_turn_id q, qt_queued_at q)) (map_of (rt_queued_turns (rv_state s)) conv))"

definition active_turn_id_for :: "id \<Rightarrow> runtime_state_service \<Rightarrow> id option" where
  "active_turn_id_for conv s =
     (if rv_poisoned s then None else map_of (rt_active_turns (rv_state s)) conv)"

definition mark_deleting :: "id \<Rightarrow> runtime_state_service \<Rightarrow> bool \<times> runtime_state_service" where
  "mark_deleting conv s =
     (if rv_poisoned s then (False, s)
      else (map_of (rt_active_turns (rv_state s)) conv \<noteq> None,
            s\<lparr>rv_state := (rv_state s)\<lparr>rt_deleting_conversations :=
              insert conv (rt_deleting_conversations (rv_state s))\<rparr>\<rparr>))"

definition clear_deleting :: "id \<Rightarrow> runtime_state_service \<Rightarrow> runtime_state_service" where
  "clear_deleting conv s =
     (if rv_poisoned s then s
      else s\<lparr>rv_state := (rv_state s)\<lparr>rt_deleting_conversations :=
             rt_deleting_conversations (rv_state s) - {conv}\<rparr>\<rparr>)"

definition is_deleting :: "id \<Rightarrow> runtime_state_service \<Rightarrow> bool" where
  "is_deleting conv s \<longleftrightarrow> \<not> rv_poisoned s \<and> conv \<in> rt_deleting_conversations (rv_state s)"

definition mark_cancelling :: "id \<Rightarrow> runtime_state_service \<Rightarrow> runtime_state_service" where
  "mark_cancelling conv s =
     (if rv_poisoned s then s
      else s\<lparr>rv_state := (rv_state s)\<lparr>rt_cancelling_conversations :=
             insert conv (rt_cancelling_conversations (rv_state s))\<rparr>\<rparr>)"

definition clear_cancelling :: "id \<Rightarrow> runtime_state_service \<Rightarrow> runtime_state_service" where
  "clear_cancelling conv s =
     (if rv_poisoned s then s
      else s\<lparr>rv_state := (rv_state s)\<lparr>rt_cancelling_conversations :=
             rt_cancelling_conversations (rv_state s) - {conv}\<rparr>\<rparr>)"

definition is_cancelling :: "id \<Rightarrow> runtime_state_service \<Rightarrow> bool" where
  "is_cancelling conv s \<longleftrightarrow> \<not> rv_poisoned s \<and> conv \<in> rt_cancelling_conversations (rv_state s)"

definition mark_shutting_down :: "runtime_state_service \<Rightarrow> nat \<times> runtime_state_service" where
  "mark_shutting_down s =
     (if rv_poisoned s then (0, s)
      else (length (rt_active_turns (rv_state s)),
            s\<lparr>rv_state := (rv_state s)\<lparr>rt_shutting_down := True\<rparr>\<rparr>))"

definition is_shutting_down :: "runtime_state_service \<Rightarrow> bool" where
  "is_shutting_down s \<longleftrightarrow> rv_poisoned s \<or> rt_shutting_down (rv_state s)"

definition lifecycle_for :: "id \<Rightarrow> runtime_state_service \<Rightarrow> runtime_lifecycle_state" where
  "lifecycle_for conv s =
     (let st = rv_state s in
      if rv_poisoned s then LcShuttingDown
      else if rt_shutting_down st then LcShuttingDown
      else if conv \<in> rt_deleting_conversations st then LcDeleting
      else if conv \<in> rt_cancelling_conversations st then LcCancelling
      else LcActive)"

definition summary_from_parts ::
  "id \<Rightarrow> conversation_status option \<Rightarrow> bool \<Rightarrow> nat \<Rightarrow> runtime_state_service
     \<Rightarrow> conversation_runtime_summary" where
  "summary_from_parts conv task_status has_task pending s =
     (let st = rv_state s;
          active = (if rv_poisoned s then None else map_of (rt_active_turns st) conv);
          queued = (if rv_poisoned s then None else map_of (rt_queued_turns st) conv);
          cancelling = (\<not> rv_poisoned s \<and> conv \<in> rt_cancelling_conversations st);
          claimed = (active \<noteq> None);
          kind = (if active = None \<and> queued \<noteq> None then KindQueued
                  else if pending > 0 then KindWaitingConfirmation
                  else if cancelling then KindCancelling
                  else if claimed \<and> task_status \<noteq> Some StRunning then KindStarting
                  else if claimed \<or> task_status = Some StRunning then KindRunning
                  else KindIdle);
          processing = (kind \<noteq> KindIdle)
      in \<lparr>sm_state = kind, sm_can_send_message = (\<not> processing), sm_has_task = has_task,
          sm_task_status = task_status, sm_is_processing = processing,
          sm_pending_confirmations = pending,
          sm_turn_id = or_else active (map_option qt_turn_id queued),
          sm_queue_position = None, sm_estimated_wait_ms = None,
          sm_queued_at = map_option qt_queued_at queued,
          sm_effective_model = None, sm_fallback_used = None\<rparr>)"

definition service_release :: "id \<Rightarrow> id \<Rightarrow> runtime_state_service \<Rightarrow> bool \<times> runtime_state_service" where
  "service_release conv turn s =
     (let st = rv_state s in
      if rv_poisoned s then (False, s)
      else if map_of (rt_active_turns st) conv = Some turn
      then (conv \<in> rt_deleting_conversations st,
            s\<lparr>rv_state := st\<lparr>rt_active_turns := AList.delete conv (rt_active_turns st),
               rt_deleting_conversations := rt_deleting_conversations st - {conv},
               rt_cancelling_conversations := rt_cancelling_conversations st - {conv}\<rparr>\<rparr>)
      else (False, s))"

definition release_inner ::
  "turn_claim \<Rightarrow> runtime_state_service option \<Rightarrow> bool \<times> turn_claim \<times> runtime_state_service option" where
  "release_inner c so =
     (if tc_released c then (False, c, so)
      else case so of
        None \<Rightarrow> (False, c\<lparr>tc_released := True\<rparr>, None)
      | Some s \<Rightarrow>
          let (was_deleting, s') = service_release (tc_conversation_id c) (tc_turn_id c) s
          in (was_deleting, c\<lparr>tc_released := True\<rparr>, Some s'))"

definition release_for_turn ::
  "id \<Rightarrow> turn_claim \<Rightarrow> runtime_state_service option \<Rightarrow> bool \<times> turn_claim \<times> runtime_state_service option" where
  "release_for_turn turn c so = (if tc_turn_id c \<noteq> turn then (False, c, so) else release_inner c so)"

definition drop_claim ::
  "turn_claim \<Rightarrow> runtime_state_service option \<Rightarrow> runtime_state_service option" where
  "drop_claim c so = snd (snd (release_inner c so))"

section \<open>The runtime with its claims\<close>

text \<open>
  The service and the claim objects that exist, as a state machine. Claims come from
  \<open>try_claim_turn\<close> only; a claim is released explicitly, released for a turn, or dropped.
\<close>

type_synonym runtime = "runtime_state_service \<times> turn_claim list"

inductive runtime_step :: "runtime \<Rightarrow> runtime \<Rightarrow> bool" where
  claim: "try_claim_turn conv turn s = (Inr c, s') \<Longrightarrow> runtime_step (s, cs) (s', c # cs)"
| claim_refused: "try_claim_turn conv turn s = (Inl e, s') \<Longrightarrow> runtime_step (s, cs) (s', cs)"
| queue_mark: "runtime_step (s, cs) (snd (mark_queued conv turn at_ms s), cs)"
| queue_clear: "runtime_step (s, cs) (snd (clear_queued conv turn s), cs)"
| deleting_mark: "runtime_step (s, cs) (snd (mark_deleting conv s), cs)"
| deleting_clear: "runtime_step (s, cs) (clear_deleting conv s, cs)"
| cancelling_mark: "runtime_step (s, cs) (mark_cancelling conv s, cs)"
| cancelling_clear: "runtime_step (s, cs) (clear_cancelling conv s, cs)"
| shutdown: "runtime_step (s, cs) (snd (mark_shutting_down s), cs)"
| release: "i < length cs \<Longrightarrow> release_inner (cs ! i) (Some s) = (b, c, Some s') \<Longrightarrow>
    runtime_step (s, cs) (s', cs[i := c])"
| release_turn: "i < length cs \<Longrightarrow> release_for_turn turn (cs ! i) (Some s) = (b, c, Some s') \<Longrightarrow>
    runtime_step (s, cs) (s', cs[i := c])"
| dropped: "i < length cs \<Longrightarrow> drop_claim (cs ! i) (Some s) = Some s' \<Longrightarrow>
    runtime_step (s, cs) (s', take i cs @ drop (Suc i) cs)"

definition runtime_reachable :: "runtime \<Rightarrow> bool" where
  "runtime_reachable = runtime_step\<^sup>*\<^sup>* (new_service, [])"

definition live_claims :: "turn_claim list \<Rightarrow> (id \<times> id) multiset" where
  "live_claims cs = image_mset (\<lambda>c. (tc_conversation_id c, tc_turn_id c))
     (filter_mset (\<lambda>c. \<not> tc_released c) (mset cs))"

definition runtime_inv :: "runtime \<Rightarrow> bool" where
  "runtime_inv r \<longleftrightarrow> \<not> rv_poisoned (fst r) \<and> keys_distinct (rt_active_turns (rv_state (fst r)))
     \<and> mset (rt_active_turns (rv_state (fst r))) = live_claims (snd r)"

lemma live_claims_Cons:
  "live_claims (c # cs) = (if tc_released c then live_claims cs
     else add_mset (tc_conversation_id c, tc_turn_id c) (live_claims cs))"
  by (simp add: live_claims_def)

lemma live_claims_remove:
  assumes "i < length cs"
  shows "live_claims (take i cs @ drop (Suc i) cs) = (if tc_released (cs ! i) then live_claims cs
    else live_claims cs - {#(tc_conversation_id (cs ! i), tc_turn_id (cs ! i))#})"
  by (subst (2 3) id_take_nth_drop [OF assms]) (simp add: live_claims_def)

lemma live_claims_update:
  assumes "i < length cs" "tc_released c"
  shows "live_claims (cs[i := c]) = (if tc_released (cs ! i) then live_claims cs
    else live_claims cs - {#(tc_conversation_id (cs ! i), tc_turn_id (cs ! i))#})"
proof -
  have "live_claims (cs[i := c]) = live_claims (take i cs @ drop (Suc i) cs)"
    using assms by (simp add: upd_conv_take_nth_drop live_claims_def)
  then show ?thesis by (simp add: live_claims_remove [OF assms(1)])
qed

lemma live_claim_active:
  assumes "runtime_inv (s, cs)" "i < length cs" "\<not> tc_released (cs ! i)"
  shows "map_of (rt_active_turns (rv_state s)) (tc_conversation_id (cs ! i)) = Some (tc_turn_id (cs ! i))"
proof -
  have "cs ! i \<in># filter_mset (\<lambda>c. \<not> tc_released c) (mset cs)" using assms(2,3) by simp
  then have "(tc_conversation_id (cs ! i), tc_turn_id (cs ! i)) \<in># live_claims cs"
    unfolding live_claims_def by (auto simp: image_iff)
  then have "(tc_conversation_id (cs ! i), tc_turn_id (cs ! i)) \<in> set (rt_active_turns (rv_state s))"
    using assms(1) by (metis fst_conv runtime_inv_def set_mset_mset snd_conv)
  then show ?thesis using assms(1) by (simp add: runtime_inv_def in_table_iff)
qed

lemma service_release_live:
  assumes "\<not> rv_poisoned s" "map_of (rt_active_turns (rv_state s)) conv = Some turn"
  shows "\<not> rv_poisoned (snd (service_release conv turn s))"
    "rt_active_turns (rv_state (snd (service_release conv turn s))) = AList.delete conv (rt_active_turns (rv_state s))"
    "rt_shutting_down (rv_state (snd (service_release conv turn s))) = rt_shutting_down (rv_state s)"
  using assms by (simp_all add: service_release_def Let_def)

lemma release_inner_cases:
  assumes "release_inner c (Some s) = (b, c', Some s')"
  shows "tc_released c'" "tc_released c \<Longrightarrow> s' = s"
    "\<not> tc_released c \<Longrightarrow> s' = snd (service_release (tc_conversation_id c) (tc_turn_id c) s)"
  using assms by (auto simp: release_inner_def split: if_splits prod.splits)

lemma release_inv:
  assumes inv: "runtime_inv (s, cs)" and i: "i < length cs"
    and s': "tc_released (cs ! i) \<Longrightarrow> s' = s"
      "\<not> tc_released (cs ! i) \<Longrightarrow> s' = snd (service_release (tc_conversation_id (cs ! i)) (tc_turn_id (cs ! i)) s)"
    and cs': "live_claims cs' = (if tc_released (cs ! i) then live_claims cs
      else live_claims cs - {#(tc_conversation_id (cs ! i), tc_turn_id (cs ! i))#})"
  shows "runtime_inv (s', cs')"
proof (cases "tc_released (cs ! i)")
  case True
  with inv s' cs' show ?thesis by (simp add: runtime_inv_def)
next
  case False
  note act = live_claim_active [OF inv i False]
  have "\<not> rv_poisoned s" "keys_distinct (rt_active_turns (rv_state s))" using inv by (simp_all add: runtime_inv_def)
  with service_release_live [OF _ act] mset_delete [OF _ act] inv s'(2) [OF False] cs' False show ?thesis
    by (simp add: runtime_inv_def)
qed

lemma runtime_step_inv: "runtime_step r r' \<Longrightarrow> runtime_inv r \<Longrightarrow> runtime_inv r'"
proof (induction rule: runtime_step.induct)
  case (claim conv turn s c s' cs)
  then have "map_of (rt_active_turns (rv_state s)) conv = None" "c = \<lparr>tc_conversation_id = conv, tc_turn_id = turn, tc_released = False\<rparr>"
    "rt_active_turns (rv_state s') = AList.update conv turn (rt_active_turns (rv_state s))" "\<not> rv_poisoned s'"
    by (auto simp: try_claim_turn_def Let_def split: if_splits)
  with claim.prems show ?case by (simp add: runtime_inv_def live_claims_Cons mset_update_absent)
next
  case (claim_refused conv turn s e s' cs)
  then show ?case by (auto simp: try_claim_turn_def Let_def split: if_splits)
next
  case (release i cs s b c s')
  note r = release_inner_cases [OF release.hyps(2)]
  show ?case by (rule release_inv [OF release.prems release.hyps(1) r(2,3)])
      (simp_all add: live_claims_update [OF release.hyps(1) r(1)])
next
  case (release_turn i cs turn s b c s')
  show ?case
  proof (cases "tc_turn_id (cs ! i) = turn")
    case True
    then have "release_inner (cs ! i) (Some s) = (b, c, Some s')" using release_turn.hyps(2) by (simp add: release_for_turn_def)
    note r = release_inner_cases [OF this]
    show ?thesis by (rule release_inv [OF release_turn.prems release_turn.hyps(1) r(2,3)])
        (simp_all add: live_claims_update [OF release_turn.hyps(1) r(1)])
  next
    case False
    with release_turn show ?thesis by (auto simp: release_for_turn_def)
  qed
next
  case (dropped i cs s s')
  then obtain b c where "release_inner (cs ! i) (Some s) = (b, c, Some s')"
    by (auto simp: drop_claim_def) (metis prod.collapse)
  note r = release_inner_cases [OF this]
  show ?case by (rule release_inv [OF dropped.prems dropped.hyps(1) r(2,3)])
      (simp_all add: live_claims_remove [OF dropped.hyps(1)])
qed (auto simp: runtime_inv_def mark_queued_def clear_queued_def mark_deleting_def clear_deleting_def
    mark_cancelling_def clear_cancelling_def mark_shutting_down_def Let_def)

lemma runtime_reachable_inv: "runtime_reachable r \<Longrightarrow> runtime_inv r"
  unfolding runtime_reachable_def
proof (induction rule: rtranclp_induct)
  case base
  show ?case by (simp add: runtime_inv_def new_service_def live_claims_def)
qed (rule runtime_step_inv)

section \<open>Properties\<close>

text \<open>
  C9. Turn claims are exclusive. In every reachable state two unreleased claims never belong
  to the same conversation, and the runtime records a turn as active exactly when an
  unreleased claim for it exists.
\<close>

theorem turn_claims_are_exclusive:
  assumes "runtime_reachable (s, cs)"
  shows "distinct (map tc_conversation_id (filter (\<lambda>c. \<not> tc_released c) cs))
    \<and> (map_of (rt_active_turns (rv_state s)) conv = Some turn \<longleftrightarrow>
         (\<exists>c \<in> set cs. \<not> tc_released c \<and> tc_conversation_id c = conv \<and> tc_turn_id c = turn))"
proof
  have inv: "keys_distinct (rt_active_turns (rv_state s))" "mset (rt_active_turns (rv_state s)) = live_claims cs"
    using runtime_reachable_inv [OF assms] by (simp_all add: runtime_inv_def)
  let ?live = "map (\<lambda>c. (tc_conversation_id c, tc_turn_id c)) (filter (\<lambda>c. \<not> tc_released c) cs)"
  have "mset (rt_active_turns (rv_state s)) = mset ?live" by (simp add: inv(2) live_claims_def)
  then have "mset (map fst (rt_active_turns (rv_state s))) = mset (map fst ?live)" by (metis mset_map)
  then have "distinct (map fst (rt_active_turns (rv_state s))) = distinct (map fst ?live)"
    by (rule mset_eq_imp_distinct_iff)
  with inv(1) show "distinct (map tc_conversation_id (filter (\<lambda>c. \<not> tc_released c) cs))"
    by (simp add: keys_distinct_def comp_def)
  have "set (rt_active_turns (rv_state s)) = set ?live"
    using \<open>mset _ = mset ?live\<close> by (rule mset_eq_setD)
  then show "map_of (rt_active_turns (rv_state s)) conv = Some turn \<longleftrightarrow>
      (\<exists>c \<in> set cs. \<not> tc_released c \<and> tc_conversation_id c = conv \<and> tc_turn_id c = turn)"
    unfolding in_table_iff [OF inv(1), symmetric] by auto
qed

definition demo_claim :: turn_claim where
  "demo_claim = \<lparr>tc_conversation_id = ''c1'', tc_turn_id = ''t1'', tc_released = False\<rparr>"

lemma demo_claimed:
  "try_claim_turn ''c1'' ''t1'' new_service = (Inr demo_claim, snd (try_claim_turn ''c1'' ''t1'' new_service))"
  by (rule prod_eqI) (simp_all add: try_claim_turn_def new_service_def demo_claim_def Let_def queued_as_def)

lemma demo_claim_reachable:
  "runtime_reachable (snd (try_claim_turn ''c1'' ''t1'' new_service), [demo_claim])"
  unfolding runtime_reachable_def by (rule r_into_rtranclp) (rule runtime_step.claim [OF demo_claimed])

theorem turn_claims_are_exclusive_witness:
  "map_of (rt_active_turns (rv_state (snd (try_claim_turn ''c1'' ''t1'' new_service)))) ''c1'' = Some ''t1''"
  using turn_claims_are_exclusive [OF demo_claim_reachable, of "''c1''" "''t1''"] by (simp add: demo_claim_def)

text \<open>
  Shutting down drains the runtime: from a reachable state that is shutting down, no
  step starts a turn or ends the shutdown, and every claim attempt is refused as busy.
\<close>

theorem shutdown_only_drains:
  assumes "runtime_reachable (s, cs)" "rt_shutting_down (rv_state s)" "runtime_step (s, cs) (s', cs')"
  shows "rt_shutting_down (rv_state s')
    \<and> (\<forall>conv turn. map_of (rt_active_turns (rv_state s')) conv = Some turn \<longrightarrow>
         map_of (rt_active_turns (rv_state s)) conv = Some turn)
    \<and> try_claim_turn conv0 turn0 s' = (Inl (Busy ''conversation runtime is shutting down''), s')"
proof -
  have inv: "runtime_inv (s, cs)" "runtime_inv (s', cs')"
    using runtime_reachable_inv [OF assms(1)] runtime_step_inv [OF assms(3)] by auto
  have rel: "rt_shutting_down (rv_state (snd (service_release conv turn s)))
      \<and> (\<forall>c t. map_of (rt_active_turns (rv_state (snd (service_release conv turn s)))) c = Some t \<longrightarrow>
           map_of (rt_active_turns (rv_state s)) c = Some t)" for conv turn
    using assms(2) by (auto simp: service_release_def Let_def table_simps split: if_splits)
  have "rt_shutting_down (rv_state s') \<and> (\<forall>conv turn. map_of (rt_active_turns (rv_state s')) conv = Some turn \<longrightarrow>
         map_of (rt_active_turns (rv_state s)) conv = Some turn)"
    using assms(3)
  proof (cases rule: runtime_step.cases)
    case (release i b c)
    with release_inner_cases [OF release(3)] rel assms(2) show ?thesis by (cases "tc_released (cs ! i)") auto
  next
    case (release_turn i turn b c)
    then show ?thesis using rel assms(2) release_inner_cases [of "cs ! i" s b c s']
      by (cases "tc_released (cs ! i)") (auto simp: release_for_turn_def split: if_splits)
  next
    case (dropped i)
    then show ?thesis using rel assms(2)
      by (auto simp: drop_claim_def release_inner_def split: if_splits prod.splits) (metis snd_conv)+
  qed (use assms(2) in \<open>auto simp: try_claim_turn_def mark_queued_def clear_queued_def mark_deleting_def
      clear_deleting_def mark_cancelling_def clear_cancelling_def mark_shutting_down_def Let_def split: if_splits\<close>)
  then show ?thesis using inv(2) by (auto simp: try_claim_turn_def runtime_inv_def)
qed

theorem shutdown_only_drains_witness:
  "let s = snd (mark_shutting_down (snd (try_claim_turn ''c1'' ''t1'' new_service)));
       s' = the (drop_claim demo_claim (Some s))
   in rt_shutting_down (rv_state s')
      \<and> try_claim_turn ''c2'' ''t2'' s' = (Inl (Busy ''conversation runtime is shutting down''), s')"
proof -
  let ?s0 = "snd (try_claim_turn ''c1'' ''t1'' new_service)"
  let ?s = "snd (mark_shutting_down ?s0)" and ?s' = "the (drop_claim demo_claim (Some (snd (mark_shutting_down ?s0))))"
  have r: "runtime_reachable (?s, [demo_claim])"
    using demo_claim_reachable runtime_step.shutdown unfolding runtime_reachable_def by (rule rtranclp.rtrancl_into_rtrancl)
  have down: "rt_shutting_down (rv_state ?s)"
    by (simp add: mark_shutting_down_def try_claim_turn_def new_service_def Let_def queued_as_def)
  have "drop_claim demo_claim (Some ?s) = Some ?s'"
    by (simp add: drop_claim_def release_inner_def demo_claim_def split: prod.splits)
  then have "runtime_step (?s, [demo_claim]) (?s', take 0 [demo_claim] @ drop (Suc 0) [demo_claim])"
    by (intro runtime_step.dropped) simp_all
  from shutdown_only_drains [OF r down this, of "''c2''" "''t2''"] show ?thesis by (simp add: Let_def)
qed

text \<open>
  Claiming a turn and releasing the claim leaves the active turns as they were, and a
  second release or a drop of the same claim does nothing.
\<close>

theorem claim_release_restores:
  assumes "try_claim_turn conv turn s = (Inr c, s1)"
  shows "\<exists>c' s2. release_inner c (Some s1) = (False, c', Some s2)
    \<and> map_of (rt_active_turns (rv_state s2)) = map_of (rt_active_turns (rv_state s))
    \<and> release_inner c' (Some s2) = (False, c', Some s2) \<and> drop_claim c' (Some s2) = Some s2"
proof -
  from assms have a: "\<not> rv_poisoned s" "\<not> rv_poisoned s1" "map_of (rt_active_turns (rv_state s)) conv = None"
    "conv \<notin> rt_deleting_conversations (rv_state s1)"
    "rt_active_turns (rv_state s1) = AList.update conv turn (rt_active_turns (rv_state s))"
    "c = \<lparr>tc_conversation_id = conv, tc_turn_id = turn, tc_released = False\<rparr>"
    by (auto simp: try_claim_turn_def Let_def split: if_splits)
  let ?s2 = "snd (service_release conv turn s1)" and ?c' = "c\<lparr>tc_released := True\<rparr>"
  have "release_inner c (Some s1) = (False, ?c', Some ?s2)"
    using a by (simp add: release_inner_def service_release_def Let_def table_simps)
  moreover have "map_of (rt_active_turns (rv_state ?s2)) = map_of (rt_active_turns (rv_state s))"
    using a by (simp add: service_release_def Let_def table_simps fun_upd_idem)
  moreover have "release_inner ?c' (Some ?s2) = (False, ?c', Some ?s2)" "drop_claim ?c' (Some ?s2) = Some ?s2"
    by (simp_all add: release_inner_def drop_claim_def)
  ultimately show ?thesis by blast
qed

theorem claim_release_restores_witness:
  "\<exists>c' s2. release_inner demo_claim (Some (snd (try_claim_turn ''c1'' ''t1'' new_service))) = (False, c', Some s2)
     \<and> map_of (rt_active_turns (rv_state s2)) = map_of []"
  using claim_release_restores [OF demo_claimed] by (auto simp: new_service_def)

text \<open>
  The summary shown to the user agrees with the runtime: a message can be sent exactly
  when the state is idle, and then a claim for the conversation succeeds unless the runtime
  is shutting down or the conversation is being deleted; a queued turn or an active claim
  always shows as processing, with its turn.
\<close>

theorem summary_agrees_with_claims:
  assumes "\<not> rv_poisoned s"
  shows "let sm = summary_from_parts conv task_status has_task pending s in
     (sm_can_send_message sm \<longleftrightarrow> sm_state sm = KindIdle) \<and> (sm_is_processing sm \<longleftrightarrow> \<not> sm_can_send_message sm)
   \<and> (sm_can_send_message sm \<and> lifecycle_for conv s \<notin> {LcShuttingDown, LcDeleting} \<longrightarrow>
        (\<exists>c s'. try_claim_turn conv turn s = (Inr c, s') \<and> active_turn_id_for conv s' = Some turn))
   \<and> (is_claimed conv s \<or> queued_turn_for conv s \<noteq> None \<longrightarrow> sm_is_processing sm \<and> sm_turn_id sm \<noteq> None)"
  using assms
  by (auto simp: summary_from_parts_def lifecycle_for_def try_claim_turn_def active_turn_id_for_def is_claimed_def
      queued_turn_for_def or_else_def Let_def table_simps split: if_splits option.splits)

theorem summary_agrees_with_claims_witness:
  "\<exists>c s'. try_claim_turn ''c1'' ''t9'' new_service = (Inr c, s') \<and> active_turn_id_for ''c1'' s' = Some ''t9''"
proof -
  have "\<not> rv_poisoned new_service" by (simp add: new_service_def)
  from summary_agrees_with_claims [OF this, of "''c1''" None False 0 "''t9''"] show ?thesis
    by (simp add: summary_from_parts_def lifecycle_for_def new_service_def Let_def)
qed

end
