(* ===== verification/TurnOrchestrator.thy ===== *)
theory TurnOrchestrator
  imports TurnPolicy
begin

text \<open>
  A conversation turn, \<open>aionui-conversation/src/turn_orchestrator.rs\<close>: an attempt builds the agent's task,
  applies the knowledge policy, sends the message and then the system's responses (\<open>run_attempt\<close>); the
  turn replays a clean retryable failure once, evicts the agent, reports the outcome and releases the
  claim (\<open>run_user_turn\<close>), with \<open>evict_acp_task_after_terminal_error\<close> of \<open>acp_error_recovery.rs\<close> and
  \<open>complete_released_turn\<close> and \<open>agent_error_top_level_code\<close> of \<open>service.rs\<close>.

  What the turn awaits is a record of ports, each a function on the runtime state and the rest of the
  process: the task manager, the agent, the stream relay with the send task it consumes, the
  persistence and the notifications of the service. A port may change the runtime state, as other tasks
  run while the turn waits. The world also logs what the turn does, in order. \<open>ports_send_error\<close> is the
  classification of an agent error for a backend, \<open>ports_describe\<close> the code, the text and the send error
  of a conversation error.
\<close>

section \<open>Types\<close>

datatype agent_error =
    AgBadRequest string | AgUnauthorized string | AgForbidden string | AgNotFound string | AgConflict string
  | AgBadGateway string | AgTimeout string | AgRateLimited | AgConversationArchived string
  | AgWorkspacePathRuntimeUnavailable string | AgInternal string
  | AgAcp string \<comment> \<open>an error of the ACP layer, as its text\<close>

fun agent_error_text :: "agent_error \<Rightarrow> string" where
  "agent_error_text (AgBadRequest m) = ''Bad request: '' @ m"
| "agent_error_text (AgUnauthorized m) = ''Unauthorized: '' @ m"
| "agent_error_text (AgForbidden m) = ''Forbidden: '' @ m"
| "agent_error_text (AgNotFound m) = ''Not found: '' @ m"
| "agent_error_text (AgConflict m) = ''Conflict: '' @ m"
| "agent_error_text (AgBadGateway m) = ''Bad gateway: '' @ m"
| "agent_error_text (AgTimeout m) = ''Timeout: '' @ m"
| "agent_error_text AgRateLimited = ''Rate limited''"
| "agent_error_text (AgConversationArchived m) = ''Conversation archived: '' @ m"
| "agent_error_text (AgWorkspacePathRuntimeUnavailable m) = ''Workspace path is unavailable during execution: '' @ m"
| "agent_error_text (AgInternal m) = ''Internal error: '' @ m"
| "agent_error_text (AgAcp m) = m"

fun agent_error_top_level_code :: "agent_error \<Rightarrow> string" where
  "agent_error_top_level_code (AgBadRequest _) = ''BAD_REQUEST''"
| "agent_error_top_level_code (AgUnauthorized _) = ''UNAUTHORIZED''"
| "agent_error_top_level_code (AgForbidden _) = ''FORBIDDEN''"
| "agent_error_top_level_code (AgNotFound _) = ''NOT_FOUND''"
| "agent_error_top_level_code (AgConflict _) = ''CONFLICT''"
| "agent_error_top_level_code (AgBadGateway _) = ''BAD_GATEWAY''"
| "agent_error_top_level_code (AgAcp _) = ''BAD_GATEWAY''"
| "agent_error_top_level_code (AgTimeout _) = ''TIMEOUT''"
| "agent_error_top_level_code AgRateLimited = ''RATE_LIMITED''"
| "agent_error_top_level_code (AgConversationArchived _) = ''CONVERSATION_ARCHIVED''"
| "agent_error_top_level_code (AgWorkspacePathRuntimeUnavailable _) = ''WORKSPACE_PATH_RUNTIME_UNAVAILABLE''"
| "agent_error_top_level_code (AgInternal _) = ''INTERNAL_ERROR''"

text \<open>The parts of the build options that the turn reads: the kind of session, the backend and agent id of an ACP one, and the skills.\<close>

datatype agent_session_kind =
    AcpSession "string option" "string option"
  | AionrsSession

record build_task_options =
  bo_kind :: agent_session_kind
  bo_skills :: "string list"

record send_message_data =
  sd_content :: string
  sd_msg_id :: id
  sd_turn_id :: "id option"
  sd_files :: "string list"
  sd_inject_skills :: "string list"

record 'h turn_start_input =
  ts_user_id :: id
  ts_conversation_id :: id
  ts_content :: string
  ts_files :: "string list"
  ts_inject_skills :: "string list"
  ts_retrieval :: "'h retrieval_bundle option"
  ts_knowledge :: "knowledge_mode option"
  ts_required_runtime_mode :: "string option"
  ts_build_options :: build_task_options
  ts_stored_workspace :: string
  ts_turn_id :: id
  ts_turn_claim :: turn_claim

datatype conversation_turn_status = TurnCompleted | TurnFailed

record conversation_turn_result =
  tr_status :: conversation_turn_status
  tr_error_message :: "string option"

record 'h turn_attempt_input =
  ti_conv_id :: id
  ti_turn_id :: id
  ti_user_id :: id
  ti_build_options :: build_task_options
  ti_stored_workspace :: string
  ti_send :: send_message_data
  ti_retrieval :: "'h retrieval_bundle option"
  ti_knowledge_mode :: "knowledge_mode option"
  ti_msg_id :: id
  ti_allowed_skill_names :: "string list"
  ti_required_runtime_mode :: "string option"
  ti_continuation_count :: nat
  ti_defer_clean_terminal_errors :: bool

record turn_attempt_result =
  ar_outcome :: relay_outcome
  ar_summary :: turn_attempt_summary
  ar_agent_type :: agent_type
  ar_backend :: "string option"

text \<open>The arguments of a \<open>StreamRelay\<close> that differ between relays.\<close>

record stream_relay =
  sr_conversation_id :: id
  sr_msg_id :: id
  sr_turn_id :: id
  sr_user_id :: id
  sr_allowed_skill_names :: "string list"
  sr_defer_clean_terminal_errors :: bool

section \<open>Ports and the world\<close>

datatype turn_action =
    ActBuild
  | ActSend send_message_data
  | ActOutcome relay_outcome
  | ActTip agent_stream_error_data "string option"
  | ActKill
  | ActFailure string
  | ActSuccess
  | ActRelease bool
  | ActComplete

type_synonym ('e, 'r) port = "runtime_state_service \<times> 'e \<Rightarrow> 'r \<times> runtime_state_service \<times> 'e"

record ('a, 'e, 'h) turn_ports =
  ports_get_or_build_task :: "id \<Rightarrow> build_task_options \<Rightarrow> ('e, agent_error + 'a) port"
  ports_agent_type :: "'a \<Rightarrow> agent_type"
  ports_model_egress_snapshot :: "'a \<Rightarrow> model_egress_snapshot"
  ports_workspace :: "'a \<Rightarrow> string"
  ports_set_config_option :: "'a \<Rightarrow> string \<Rightarrow> string \<Rightarrow> ('e, agent_error + unit) port"
  ports_relay :: "'a \<Rightarrow> stream_relay \<Rightarrow> send_message_data \<Rightarrow> ('e, relay_outcome) port"
  ports_get_session_key :: "'a \<Rightarrow> ('e, string option) port"
  ports_save_session_key :: "id \<Rightarrow> string \<Rightarrow> ('e, unit) port"
  ports_save_workspace :: "id \<Rightarrow> string \<Rightarrow> ('e, conversation_error + unit) port"
  ports_mint_msg_id :: "('e, id) port"
  ports_send_failure_tip :: "id \<Rightarrow> id \<Rightarrow> agent_stream_error_data \<Rightarrow> string option \<Rightarrow> ('e, unit) port"
  ports_kill_and_wait :: "id \<Rightarrow> agent_kill_reason option \<Rightarrow> ('e, unit) port"
  ports_clear_persisted_acp_model :: "id \<Rightarrow> ('e, unit) port"
  ports_clear_conversation_model_seed :: "id \<Rightarrow> ('e, unit) port"
  ports_feedback :: bool
  ports_record_session_failure :: "id \<Rightarrow> string \<Rightarrow> string \<Rightarrow> ('e, unit) port"
  ports_record_session_success :: "id \<Rightarrow> ('e, unit) port"
  ports_complete_turn :: "id \<Rightarrow> id \<Rightarrow> ('e, unit) port"
  ports_send_error :: "agent_error \<Rightarrow> string option \<Rightarrow> agent_stream_error_data"
  ports_describe :: "conversation_error \<Rightarrow> string \<times> string \<times> agent_stream_error_data"
  ports_bundle_json :: "'h retrieval_bundle \<Rightarrow> string option"

record 'e turn_world =
  ow_runtime :: runtime_state_service
  ow_env :: 'e
  ow_log :: "turn_action list"

definition act :: "turn_action list \<Rightarrow> ('e, 'r) port \<Rightarrow> 'e turn_world \<Rightarrow> 'r \<times> 'e turn_world" where
  "act acts f w =
     (case f (ow_runtime w, ow_env w) of (r, rt, e) \<Rightarrow> (r, \<lparr>ow_runtime = rt, ow_env = e, ow_log = ow_log w @ acts\<rparr>))"

definition note_action :: "turn_action \<Rightarrow> 'e turn_world \<Rightarrow> 'e turn_world" where
  "note_action a w = w\<lparr>ow_log := ow_log w @ [a]\<rparr>"

section \<open>Helpers\<close>

definition acp_backend_from_build_options :: "build_task_options \<Rightarrow> string option" where
  "acp_backend_from_build_options bo = (case bo_kind bo of AcpSession backend _ \<Rightarrow> backend | AionrsSession \<Rightarrow> None)"

definition availability_agent_id :: "build_task_options \<Rightarrow> id option" where
  "availability_agent_id bo =
     (case bo_kind bo of
        AcpSession _ (Some agent_id) \<Rightarrow> if agent_id = [] then None else Some agent_id
      | _ \<Rightarrow> None)"

definition apply_required_runtime_mode ::
  "('a, 'e, 'h) turn_ports \<Rightarrow> 'a \<Rightarrow> string \<Rightarrow> 'e turn_world \<Rightarrow> (agent_error + unit) \<times> 'e turn_world" where
  "apply_required_runtime_mode P agent mode = act [] (ports_set_config_option P agent ''mode'' mode)"

definition send_error_display_message :: "agent_stream_error_data \<Rightarrow> string" where
  "send_error_display_message e = (case es_detail e of Some detail \<Rightarrow> detail | None \<Rightarrow> es_message e)"

definition turn_attempt_error_message :: "turn_attempt_summary \<Rightarrow> string option" where
  "turn_attempt_error_message summary =
     map_option (\<lambda>e. case es_detail e of
          Some detail \<Rightarrow> if blank detail then es_message e else detail
        | None \<Rightarrow> es_message e) (ta_terminal_error summary)"

definition record_agent_session_failure ::
  "('a, 'e, 'h) turn_ports \<Rightarrow> id option \<Rightarrow> string \<Rightarrow> string \<Rightarrow> 'e turn_world \<Rightarrow> 'e turn_world" where
  "record_agent_session_failure P agent_id code message w =
     (case agent_id of
        None \<Rightarrow> w
      | Some agent_id \<Rightarrow>
          if ports_feedback P then snd (act [ActFailure code] (ports_record_session_failure P agent_id code message) w) else w)"

definition record_agent_session_success ::
  "('a, 'e, 'h) turn_ports \<Rightarrow> id option \<Rightarrow> 'e turn_world \<Rightarrow> 'e turn_world" where
  "record_agent_session_success P agent_id w =
     (case agent_id of
        None \<Rightarrow> w
      | Some agent_id \<Rightarrow>
          if ports_feedback P then snd (act [ActSuccess] (ports_record_session_success P agent_id) w) else w)"

definition send_failure_tip ::
  "('a, 'e, 'h) turn_ports \<Rightarrow> id \<Rightarrow> id \<Rightarrow> agent_stream_error_data \<Rightarrow> string option \<Rightarrow> 'e turn_world \<Rightarrow> 'e turn_world" where
  "send_failure_tip P conv turn err code w = snd (act [ActTip err code] (ports_send_failure_tip P conv turn err code) w)"

definition is_openclaw_gateway_unreachable :: "agent_stream_error_data \<Rightarrow> bool" where
  "is_openclaw_gateway_unreachable e \<longleftrightarrow> es_code e = Some UserAgentOpenClawGatewayUnreachable"

definition failed_with :: "string option \<Rightarrow> conversation_turn_result" where
  "failed_with m = \<lparr>tr_status = TurnFailed, tr_error_message = m\<rparr>"

section \<open>One attempt\<close>

definition max_system_response_continuations_per_turn :: nat where
  "max_system_response_continuations_per_turn = 4"

text \<open>The required runtime mode, applied before every message of the attempt.\<close>

definition confirm_runtime_mode ::
  "('a, 'e, 'h) turn_ports \<Rightarrow> 'a \<Rightarrow> 'h turn_attempt_input \<Rightarrow> 'e turn_world
   \<Rightarrow> (conversation_turn_result + unit) \<times> 'e turn_world" where
  "confirm_runtime_mode P agent inp w =
     (case map_option trim (ti_required_runtime_mode inp) of
        None \<Rightarrow> (Inr (), w)
      | Some mode \<Rightarrow>
          if mode = [] then (Inr (), w)
          else case apply_required_runtime_mode P agent mode w of
              (Inr _, w1) \<Rightarrow> (Inr (), w1)
            | (Inl err, w1) \<Rightarrow>
                (Inl (failed_with (Some (agent_error_text err))),
                 send_failure_tip P (ti_conv_id inp) (ti_turn_id inp) (ports_send_error P err None)
                   (Some (agent_error_top_level_code err)) w1))"

definition exchange ::
  "('a, 'e, 'h) turn_ports \<Rightarrow> 'a \<Rightarrow> stream_relay \<Rightarrow> send_message_data \<Rightarrow> 'e turn_world \<Rightarrow> relay_outcome \<times> 'e turn_world" where
  "exchange P agent relay send w =
     (case act [ActSend send] (ports_relay P agent relay send) w of
        (outcome, w1) \<Rightarrow> (outcome, note_action (ActOutcome outcome) w1))"

definition persist_session_key ::
  "('a, 'e, 'h) turn_ports \<Rightarrow> id \<Rightarrow> string \<Rightarrow> 'e turn_world \<Rightarrow> 'e turn_world" where
  "persist_session_key P conv key w =
     (if allows conv SessionKey (ow_runtime w) then snd (act [] (ports_save_session_key P conv key) w) else w)"

definition maybe_persist_workspace ::
  "('a, 'e, 'h) turn_ports \<Rightarrow> id \<Rightarrow> string \<Rightarrow> string \<Rightarrow> 'e turn_world \<Rightarrow> (conversation_error + unit) \<times> 'e turn_world" where
  "maybe_persist_workspace P conv stored resolved w =
     (if resolved = [] \<or> resolved = stored then (Inr (), w)
      else if \<not> allows conv ResolvedWorkspace (ow_runtime w) then (Inr (), w)
      else act [] (ports_save_workspace P conv resolved) w)"

definition keep_session_key ::
  "('a, 'e, 'h) turn_ports \<Rightarrow> 'a \<Rightarrow> id \<Rightarrow> 'e turn_world \<Rightarrow> 'e turn_world" where
  "keep_session_key P agent conv w =
     (case act [] (ports_get_session_key P agent) w of
        (None, w1) \<Rightarrow> w1
      | (Some key, w1) \<Rightarrow> persist_session_key P conv key w1)"

definition defers ::
  "('a, 'e, 'h) turn_ports \<Rightarrow> 'a \<Rightarrow> 'h turn_attempt_input \<Rightarrow> runtime_lifecycle_state \<Rightarrow> turn_attempt_summary \<Rightarrow> bool" where
  "defers P agent inp lifecycle summary \<longleftrightarrow>
     ti_defer_clean_terminal_errors inp \<and> ports_agent_type P agent = AtAcp \<and> lifecycle = LcActive \<and> safe_to_auto_replay summary"

definition attempt_relay :: "'h turn_attempt_input \<Rightarrow> id \<Rightarrow> bool \<Rightarrow> stream_relay" where
  "attempt_relay inp msg_id deferred =
     \<lparr>sr_conversation_id = ti_conv_id inp, sr_msg_id = msg_id, sr_turn_id = ti_turn_id inp, sr_user_id = ti_user_id inp,
      sr_allowed_skill_names = ti_allowed_skill_names inp, sr_defer_clean_terminal_errors = deferred\<rparr>"

function attempt_loop ::
  "('a, 'e, 'h) turn_ports \<Rightarrow> 'a \<Rightarrow> 'h turn_attempt_input \<Rightarrow> send_message_data \<Rightarrow> id \<Rightarrow> nat \<Rightarrow> turn_attempt_summary
   \<Rightarrow> 'e turn_world \<Rightarrow> (conversation_turn_result + relay_outcome \<times> turn_attempt_summary) \<times> 'e turn_world" where
  "attempt_loop P agent inp current_send msg_id continuation_count summary w =
     (let lifecycle = lifecycle_for (ti_conv_id inp) (ow_runtime w);
          relay = attempt_relay inp msg_id (defers P agent inp lifecycle summary)
      in case confirm_runtime_mode P agent inp w of
          (Inl failed, w1) \<Rightarrow> (Inl failed, w1)
        | (Inr _, w1) \<Rightarrow>
            (case exchange P agent relay current_send w1 of (outcome, w2) \<Rightarrow>
               let summary' = merge_summary summary (ro_attempt outcome);
                   w3 = keep_session_key P agent (ti_conv_id inp) w2
               in case decide_continuation max_system_response_continuations_per_turn continuation_count outcome lifecycle of
                   Stop _ \<Rightarrow> (Inr (outcome, summary'), w3)
                 | Continue content next_count \<Rightarrow>
                     (case act [] (ports_mint_msg_id P) w3 of (next_msg_id, w4) \<Rightarrow>
                        attempt_loop P agent inp
                          \<lparr>sd_content = content, sd_msg_id = next_msg_id, sd_turn_id = Some (ti_turn_id inp), sd_files = [],
                           sd_inject_skills = []\<rparr> next_msg_id next_count summary' w4)))"
  by pat_completeness auto
termination
  by (relation "measure (\<lambda>(P, agent, inp, send, msg_id, n, summary, w). max_system_response_continuations_per_turn - n)")
    (auto simp: decide_continuation_def split: if_splits)

declare attempt_loop.simps [simp del]

definition run_attempt ::
  "('a, 'e, 'h) turn_ports \<Rightarrow> 'h turn_attempt_input \<Rightarrow> 'e turn_world
   \<Rightarrow> (conversation_turn_result + turn_attempt_result) \<times> 'e turn_world" where
  "run_attempt P inp w =
     (let agent_id = availability_agent_id (ti_build_options inp);
          backend = acp_backend_from_build_options (ti_build_options inp);
          conv = ti_conv_id inp; turn = ti_turn_id inp
      in case act [ActBuild] (ports_get_or_build_task P conv (ti_build_options inp)) w of
          (Inl err, w1) \<Rightarrow>
            let send_error = ports_send_error P err backend;
                code = (if is_openclaw_gateway_unreachable send_error then ''USER_AGENT_OPENCLAW_GATEWAY_UNREACHABLE''
                        else agent_error_top_level_code err);
                message = send_error_display_message send_error
            in (Inl (failed_with (Some message)),
                send_failure_tip P conv turn send_error (Some code)
                  (record_agent_session_failure P agent_id ''session_build_failed'' message w1))
        | (Inr agent, w1) \<Rightarrow>
            (case knowledge_content_for_attempt (ports_bundle_json P) (sd_content (ti_send inp)) (ti_retrieval inp)
                    (ti_knowledge_mode inp) (ports_model_egress_snapshot P agent) of
               Inl blocked \<Rightarrow>
                 (Inl (failed_with (Some (dispatch_error_message blocked))),
                  send_failure_tip P conv turn (ports_send_error P (AgForbidden (dispatch_error_message blocked)) None)
                    (Some (dispatch_error_code blocked)) w1)
             | Inr dispatch \<Rightarrow>
                 (case maybe_persist_workspace P conv (ti_stored_workspace inp) (ports_workspace P agent) w1 of
                    (Inl err, w2) \<Rightarrow>
                      (case ports_describe P err of (code, message, send_error) \<Rightarrow>
                         (Inl (failed_with (Some message)), send_failure_tip P conv turn send_error (Some code) w2))
                  | (Inr _, w2) \<Rightarrow>
                      (case attempt_loop P agent inp ((ti_send inp)\<lparr>sd_content := kd_content dispatch\<rparr>) (ti_msg_id inp)
                              (ti_continuation_count inp) default_summary w2 of
                         (Inl failed, w3) \<Rightarrow> (Inl failed, w3)
                       | (Inr (outcome, summary), w3) \<Rightarrow>
                           (Inr \<lparr>ar_outcome = outcome, ar_summary = summary, ar_agent_type = ports_agent_type P agent,
                                 ar_backend = backend\<rparr>, w3)))))"

section \<open>The turn\<close>

text \<open>The guards that both clean-ups begin with.\<close>

definition after_model_not_found :: "id \<Rightarrow> agent_error_code option \<Rightarrow> ('e, unit) port \<Rightarrow> 'e turn_world \<Rightarrow> 'e turn_world" where
  "after_model_not_found conv error_code clear w =
     (if error_code \<noteq> Some UserLlmProviderModelNotFound then w
      else if \<not> allows conv AcpRecoveryCleanup (ow_runtime w) then w
      else snd (act [] clear w))"

definition evict_acp_task_after_terminal_error ::
  "('a, 'e, 'h) turn_ports \<Rightarrow> id \<Rightarrow> agent_type \<Rightarrow> relay_outcome \<Rightarrow> 'e turn_world \<Rightarrow> bool \<times> 'e turn_world" where
  "evict_acp_task_after_terminal_error P conv agent_type outcome w =
     (if agent_type \<noteq> AtAcp \<or> \<not> is_error (ro_terminal outcome) then (False, w)
      else
        let error_code = terminal_code (ro_terminal outcome);
            w1 = snd (act [ActKill] (ports_kill_and_wait P conv (Some AgentErrorRecovery)) w);
            w2 = after_model_not_found conv error_code (ports_clear_persisted_acp_model P conv) w1;
            w3 = after_model_not_found conv error_code (ports_clear_conversation_model_seed P conv) w2
        in (True, w3))"

definition attempt_input :: "'h turn_start_input \<Rightarrow> send_message_data \<Rightarrow> bool \<Rightarrow> 'h turn_attempt_input" where
  "attempt_input input initial_send replayed =
     \<lparr>ti_conv_id = ts_conversation_id input, ti_turn_id = ts_turn_id input, ti_user_id = ts_user_id input,
      ti_build_options = ts_build_options input, ti_stored_workspace = ts_stored_workspace input, ti_send = initial_send,
      ti_retrieval = ts_retrieval input, ti_knowledge_mode = ts_knowledge input, ti_msg_id = sd_msg_id initial_send,
      ti_allowed_skill_names = bo_skills (ts_build_options input),
      ti_required_runtime_mode = ts_required_runtime_mode input, ti_continuation_count = 0,
      ti_defer_clean_terminal_errors = (\<not> replayed)\<rparr>"

text \<open>The end of a turn whose last attempt failed and is not replayed.\<close>

definition settle_failure ::
  "('a, 'e, 'h) turn_ports \<Rightarrow> 'h turn_start_input \<Rightarrow> turn_attempt_result \<Rightarrow> runtime_lifecycle_state \<Rightarrow> 'e turn_world
   \<Rightarrow> 'e turn_world" where
  "settle_failure P input r lifecycle w =
     (let attempt = ro_attempt (ar_outcome r);
          w1 = (if ta_terminal_error_deferred attempt then
                  (case ta_terminal_error attempt of
                     Some data \<Rightarrow> send_failure_tip P (ts_conversation_id input) (ts_turn_id input) data None w
                   | None \<Rightarrow> w)
                else w)
      in case decide_health (ar_agent_type r) (ar_outcome r) lifecycle of
          Keep \<Rightarrow> w1
        | EvictAcpTask _ _ _ \<Rightarrow>
            snd (evict_acp_task_after_terminal_error P (ts_conversation_id input) (ar_agent_type r) (ar_outcome r) w1))"

function turn_loop ::
  "('a, 'e, 'h) turn_ports \<Rightarrow> 'h turn_start_input \<Rightarrow> send_message_data \<Rightarrow> bool \<Rightarrow> 'e turn_world
   \<Rightarrow> (bool \<times> string option) \<times> 'e turn_world" where
  "turn_loop P input initial_send replayed w =
     (case run_attempt P (attempt_input input initial_send replayed) w of
        (Inl result, w1) \<Rightarrow> ((tr_status result = TurnFailed, tr_error_message result), w1)
      | (Inr r, w1) \<Rightarrow>
          let lifecycle = lifecycle_for (ts_conversation_id input) (ow_runtime w1)
          in if \<not> is_error (ro_terminal (ar_outcome r)) then ((False, None), w1)
             else
               let message = turn_attempt_error_message (ar_summary r)
               in case decide_recovery (ar_agent_type r) ((ar_outcome r)\<lparr>ro_attempt := ar_summary r\<rparr>) lifecycle replayed of
                   AutoReplayOnce reason safe signal \<Rightarrow>
                     turn_loop P input initial_send True
                       (snd (evict_acp_task_after_terminal_error P (ts_conversation_id input) (ar_agent_type r) (ar_outcome r) w1))
                 | NoRecovery \<Rightarrow> ((True, message), settle_failure P input r lifecycle w1))"
  by pat_completeness auto
termination
  by (relation "measure (\<lambda>(P, input, send, replayed, w). if replayed then 0 else 1)")
    (auto simp: decide_recovery_def Let_def split: if_splits)

declare turn_loop.simps [simp del]

definition release_claim ::
  "'h turn_start_input \<Rightarrow> 'e turn_world \<Rightarrow> bool \<times> turn_claim \<times> 'e turn_world" where
  "release_claim input w =
     (case release_for_turn (ts_turn_id input) (ts_turn_claim input) (Some (ow_runtime w)) of
        (was_deleting, claim, so) \<Rightarrow>
          (was_deleting, claim,
           note_action (ActRelease was_deleting)
             (case so of None \<Rightarrow> w | Some s \<Rightarrow> w\<lparr>ow_runtime := s\<rparr>)))"

definition complete_released_turn ::
  "('a, 'e, 'h) turn_ports \<Rightarrow> id \<Rightarrow> id \<Rightarrow> bool \<Rightarrow> 'e turn_world \<Rightarrow> 'e turn_world" where
  "complete_released_turn P conv turn was_deleting w =
     (if was_deleting then w else snd (act [ActComplete] (ports_complete_turn P conv turn) w))"

definition initial_message :: "'h turn_start_input \<Rightarrow> id \<Rightarrow> send_message_data" where
  "initial_message input msg_id =
     \<lparr>sd_content = ts_content input, sd_msg_id = msg_id, sd_turn_id = Some (ts_turn_id input), sd_files = ts_files input,
      sd_inject_skills = ts_inject_skills input\<rparr>"

text \<open>The claim is dropped when the turn returns.\<close>

definition run_user_turn ::
  "('a, 'e, 'h) turn_ports \<Rightarrow> 'h turn_start_input \<Rightarrow> 'e turn_world \<Rightarrow> conversation_turn_result \<times> 'e turn_world" where
  "run_user_turn P input w =
     (case act [] (ports_mint_msg_id P) w of (first_msg_id, w1) \<Rightarrow>
      case turn_loop P input (initial_message input first_msg_id) False w1 of ((final_failed, message), w2) \<Rightarrow>
        let w3 = (if final_failed then w2
                  else record_agent_session_success P (availability_agent_id (ts_build_options input)) w2)
        in case release_claim input w3 of (was_deleting, claim, w4) \<Rightarrow>
             let w5 = complete_released_turn P (ts_conversation_id input) (ts_turn_id input) was_deleting w4;
                 w6 = (case drop_claim claim (Some (ow_runtime w5)) of None \<Rightarrow> w5 | Some s \<Rightarrow> w5\<lparr>ow_runtime := s\<rparr>)
             in (\<lparr>tr_status = (if final_failed then TurnFailed else TurnCompleted),
                  tr_error_message = (if final_failed then message else None)\<rparr>, w6))"

end
