(* ===== verification/TurnSafety.thy ===== *)
theory TurnSafety
  imports TurnOrchestrator
begin

text \<open>
  What a turn does, for any behaviour of the agent, the database and the other tasks: it does a bounded
  amount of work and releases its claim (\<open>turn_work_bounded\<close>), it replays only an attempt that left no
  trace (\<open>replay_follows_clean_failure\<close>), it reports how it ended (\<open>turn_outcome_is_reported\<close>), and
  knowledge that may not leave has no influence on anything it does (\<open>withheld_evidence_has_no_effect\<close>).
\<close>

section \<open>Reading the log\<close>

fun sent_of :: "turn_action \<Rightarrow> send_message_data option" where
  "sent_of (ActSend s) = Some s"
| "sent_of _ = None"

fun outcome_of :: "turn_action \<Rightarrow> relay_outcome option" where
  "outcome_of (ActOutcome o') = Some o'"
| "outcome_of _ = None"

definition sends :: "turn_action list \<Rightarrow> send_message_data list" where
  "sends = List.map_filter sent_of"

definition outcomes :: "turn_action list \<Rightarrow> relay_outcome list" where
  "outcomes = List.map_filter outcome_of"

definition tips :: "turn_action list \<Rightarrow> (agent_stream_error_data \<times> string option) list" where
  "tips = List.map_filter (\<lambda>a. case a of ActTip e c \<Rightarrow> Some (e, c) | _ \<Rightarrow> None)"

definition times :: "turn_action \<Rightarrow> turn_action list \<Rightarrow> nat" where
  "times a acts = length (filter (\<lambda>b. b = a) acts)"

lemma log_read [simp]:
  "sends [] = []" "outcomes [] = []" "tips [] = []" "times a [] = 0"
  "sends (x # xs) = (case sent_of x of None \<Rightarrow> sends xs | Some s \<Rightarrow> s # sends xs)"
  "outcomes (x # xs) = (case outcome_of x of None \<Rightarrow> outcomes xs | Some s \<Rightarrow> s # outcomes xs)"
  "tips (x # xs) = (case x of ActTip e c \<Rightarrow> (e, c) # tips xs | _ \<Rightarrow> tips xs)"
  "times a (x # xs) = (if x = a then Suc (times a xs) else times a xs)"
  by (auto simp: sends_def outcomes_def tips_def times_def List.map_filter_simps split: turn_action.splits option.splits)

lemma log_append [simp]:
  "sends (xs @ ys) = sends xs @ sends ys" "outcomes (xs @ ys) = outcomes xs @ outcomes ys"
  "tips (xs @ ys) = tips xs @ tips ys" "times a (xs @ ys) = times a xs + times a ys"
  by (simp_all add: sends_def outcomes_def tips_def times_def List.map_filter_def)

text \<open>\<open>stage w acts w'\<close>: from \<open>w\<close> to \<open>w'\<close> the log grows by \<open>acts\<close>.\<close>

definition stage :: "'e turn_world \<Rightarrow> turn_action list \<Rightarrow> 'e turn_world \<Rightarrow> bool" where
  "stage w acts w' \<longleftrightarrow> ow_log w' = ow_log w @ acts"

lemma stage_refl [simp]: "stage w [] w" and stage_trans: "stage w as w1 \<Longrightarrow> stage w1 bs w2 \<Longrightarrow> stage w (as @ bs) w2"
  by (simp_all add: stage_def)

lemma stage_snd_act [simp]: "stage w acts (snd (act acts f w))"
  by (simp add: stage_def act_def split: prod.split)

lemma stage_act: "act acts f w = (r, w') \<Longrightarrow> stage w acts w'"
  using stage_snd_act [of w acts f] by simp

lemma stage_tip [simp]: "stage w [ActTip e c] (send_failure_tip P conv turn e c w)"
  by (simp add: send_failure_tip_def)

lemma stage_tip_after: "stage w acts w1 \<Longrightarrow> \<exists>e' c'. stage w (acts @ [ActTip e' c']) (send_failure_tip P conv turn e c w1)"
  using stage_trans [OF _ stage_tip] by blast

lemma stage_record_failure:
  "\<exists>acts. stage w acts (record_agent_session_failure P agent_id code message w) \<and> set acts \<subseteq> {ActFailure code}"
  by (intro exI [of _ "case agent_id of None \<Rightarrow> [] | Some _ \<Rightarrow> if ports_feedback P then [ActFailure code] else []"])
    (auto simp: record_agent_session_failure_def split: option.split)

lemma stage_record_success:
  "\<exists>acts. stage w acts (record_agent_session_success P agent_id w) \<and> set acts \<subseteq> {ActSuccess}"
  by (intro exI [of _ "case agent_id of None \<Rightarrow> [] | Some _ \<Rightarrow> if ports_feedback P then [ActSuccess] else []"])
    (auto simp: record_agent_session_success_def split: option.split)

lemma quiet_log:
  assumes "set acts \<subseteq> {ActFailure code, ActSuccess}"
  shows "sends acts = []" "outcomes acts = []" "tips acts = []" "times ActBuild acts = 0" "times ActKill acts = 0"
    "times (ActRelease b) acts = 0" "times ActComplete acts = 0"
  using assms by (induction acts) auto

lemma stage_confirm:
  assumes "confirm_runtime_mode P agent inp w = (r, w')"
  shows "(r = Inr () \<and> stage w [] w') \<or> (\<exists>m e c. r = Inl (failed_with m) \<and> stage w [ActTip e c] w')"
  using assms stage_trans [OF stage_act stage_tip, of "[]"] stage_act
  by (fastforce simp: confirm_runtime_mode_def apply_required_runtime_mode_def split: option.splits if_splits prod.splits sum.splits)

lemma stage_exchange: "exchange P agent relay send w = (outcome, w') \<Longrightarrow> stage w [ActSend send, ActOutcome outcome] w'"
  by (auto simp: exchange_def stage_def note_action_def act_def split: prod.splits)

lemma stage_persist_workspace: "maybe_persist_workspace P conv stored resolved w = (r, w') \<Longrightarrow> stage w [] w'"
  by (auto simp: maybe_persist_workspace_def split: if_splits intro: stage_act)

lemma stage_keep_key [simp]: "stage w [] (keep_session_key P agent conv w)"
  by (auto simp: keep_session_key_def persist_session_key_def stage_def act_def split: prod.splits option.splits)

section \<open>One attempt\<close>

definition merged :: "turn_attempt_summary \<Rightarrow> relay_outcome list \<Rightarrow> turn_attempt_summary" where
  "merged s os = fold (\<lambda>o' s. merge_summary s (ro_attempt o')) os s"

lemma merged_simps [simp]: "merged s [] = s" "merged s (o' # os) = merged (merge_summary s (ro_attempt o')) os"
  by (simp_all add: merged_def)

lemma safe_merge: "safe_to_auto_replay (merge_summary s t) \<longleftrightarrow> safe_to_auto_replay s \<and> safe_to_auto_replay t"
  by (auto simp: safe_to_auto_replay_def merge_summary_def)

lemma safe_merged: "safe_to_auto_replay (merged s os) \<longleftrightarrow> safe_to_auto_replay s \<and> (\<forall>o'\<in>set os. safe_to_auto_replay (ro_attempt o'))"
  by (induction os arbitrary: s) (auto simp: safe_merge)

text \<open>The log of the messages of an attempt that allows \<open>n\<close> of them.\<close>

definition exchanges ::
  "nat \<Rightarrow> turn_attempt_summary \<Rightarrow> turn_action list \<Rightarrow> conversation_turn_result + relay_outcome \<times> turn_attempt_summary \<Rightarrow> bool" where
  "exchanges n s acts res \<longleftrightarrow>
     length (sends acts) \<le> n \<and> times ActBuild acts = 0 \<and> times ActKill acts = 0 \<and> times ActComplete acts = 0
     \<and> (\<forall>b. times (ActRelease b) acts = 0)
     \<and> (case res of
          Inl r \<Rightarrow> tr_status r = TurnFailed \<and> tips acts \<noteq> []
        | Inr (outcome, s') \<Rightarrow> outcomes acts \<noteq> [] \<and> outcome = last (outcomes acts) \<and> s' = merged s (outcomes acts))"

lemma exchanges_tip: "exchanges n s [ActTip e c] (Inl (failed_with m))"
  by (simp add: exchanges_def failed_with_def)

lemma exchanges_stop: "exchanges (Suc n) s [ActSend send, ActOutcome outcome] (Inr (outcome, merge_summary s (ro_attempt outcome)))"
  by (simp add: exchanges_def)

lemma exchanges_step:
  "exchanges n (merge_summary s (ro_attempt outcome)) acts res \<Longrightarrow> exchanges (Suc n) s (ActSend send # ActOutcome outcome # acts) res"
  by (auto simp: exchanges_def split: sum.splits)

lemma attempt_loop_exchanges:
  assumes "attempt_loop P agent inp send msg_id n s w = (res, w')"
  shows "\<exists>acts. stage w acts w' \<and> exchanges (Suc (max_system_response_continuations_per_turn - n)) s acts res"
  using assms
proof (induction P agent inp send msg_id n s w arbitrary: res w' rule: attempt_loop.induct)
  case (1 P agent inp send msg_id n s w)
  let ?lc = "lifecycle_for (ti_conv_id inp) (ow_runtime w)"
  let ?relay = "attempt_relay inp msg_id (defers P agent inp ?lc s)"
  obtain r w1 where c: "confirm_runtime_mode P agent inp w = (r, w1)" by fastforce
  obtain outcome w2 where x: "exchange P agent ?relay send w1 = (outcome, w2)" by fastforce
  define w3 where "w3 = keep_session_key P agent (ti_conv_id inp) w2"
  from stage_confirm [OF c] consider (mode) "r = Inr ()" "stage w [] w1" | (failed) m e co where "r = Inl (failed_with m)" "stage w [ActTip e co] w1"
    by blast
  then show ?case
  proof cases
    case failed
    then show ?thesis using 1(2) c exchanges_tip by (auto simp: attempt_loop.simps)
  next
    case mode
    have sent: "stage w [ActSend send, ActOutcome outcome] w3"
      using stage_trans [OF mode(2) stage_trans [OF stage_exchange [OF x] stage_keep_key]] by (simp add: w3_def)
    show ?thesis
    proof (cases "decide_continuation max_system_response_continuations_per_turn n outcome ?lc")
      case (Stop reason)
      then have "res = Inr (outcome, merge_summary s (ro_attempt outcome))" "w' = w3"
        using 1(2) c mode(1) x by (auto simp: attempt_loop.simps w3_def)
      then show ?thesis using sent exchanges_stop by blast
    next
      case (Continue content m)
      then have m: "m = Suc n" "n < max_system_response_continuations_per_turn"
        by (auto simp: decide_continuation_def split: if_splits)
      obtain mid w4 where a: "act [] (ports_mint_msg_id P) w3 = (mid, w4)" by fastforce
      obtain acts where acts: "stage w4 acts w'"
        "exchanges (Suc (max_system_response_continuations_per_turn - m)) (merge_summary s (ro_attempt outcome)) acts res"
        using 1(1) [OF refl refl c [symmetric] mode(1) x [symmetric] refl refl Continue a [unfolded w3_def, symmetric], of res w'] 1(2) c mode(1) x Continue a
        by (auto simp: attempt_loop.simps w3_def)
      have "stage w (ActSend send # ActOutcome outcome # acts) w'"
        using stage_trans [OF sent stage_trans [OF stage_act [OF a] acts(1)]] by simp
      moreover have "exchanges (Suc (max_system_response_continuations_per_turn - n)) s (ActSend send # ActOutcome outcome # acts) res"
        using exchanges_step [OF acts(2)] m by (simp add: Suc_diff_Suc)
      ultimately show ?thesis by blast
    qed
  qed
qed

text \<open>The log of an attempt: one build, then its messages.\<close>

definition attempted :: "turn_action list \<Rightarrow> conversation_turn_result + turn_attempt_result \<Rightarrow> bool" where
  "attempted acts res \<longleftrightarrow>
     times ActBuild acts = 1 \<and> times ActKill acts = 0 \<and> times ActComplete acts = 0 \<and> (\<forall>b. times (ActRelease b) acts = 0)
     \<and> length (sends acts) \<le> 5
     \<and> (case res of
          Inl r \<Rightarrow> tr_status r = TurnFailed \<and> tips acts \<noteq> []
        | Inr r \<Rightarrow> outcomes acts \<noteq> [] \<and> ar_outcome r = last (outcomes acts) \<and> ar_summary r = merged default_summary (outcomes acts))"

lemma attempted_failed:
  assumes "set acts \<subseteq> {ActFailure code, ActSuccess}"
  shows "attempted (ActBuild # acts @ [ActTip e c]) (Inl (failed_with m))"
  using quiet_log [OF assms] by (simp add: attempted_def failed_with_def)

lemma attempted_exchanges:
  "exchanges 5 default_summary acts (Inl r) \<Longrightarrow> attempted (ActBuild # acts) (Inl r)"
  "exchanges 5 default_summary acts (Inr (outcome, s)) \<Longrightarrow>
     attempted (ActBuild # acts) (Inr \<lparr>ar_outcome = outcome, ar_summary = s, ar_agent_type = t, ar_backend = b\<rparr>)"
  by (simp_all add: attempted_def exchanges_def)

lemma run_attempt_attempted:
  assumes "run_attempt P inp w = (res, w')" "ti_continuation_count inp = 0"
  shows "\<exists>acts. stage w acts w' \<and> attempted acts res"
proof -
  let ?bo = "ti_build_options inp" and ?tip = "send_failure_tip P (ti_conv_id inp) (ti_turn_id inp)"
  obtain r w1 where a: "act [ActBuild] (ports_get_or_build_task P (ti_conv_id inp) ?bo) w = (r, w1)" by fastforce
  note built = stage_act [OF a]
  show ?thesis
  proof (cases r)
    case (Inl err)
    let ?se = "ports_send_error P err (acp_backend_from_build_options ?bo)"
    obtain quiet where q: "stage w1 quiet (record_agent_session_failure P (availability_agent_id ?bo) ''session_build_failed'' (send_error_display_message ?se) w1)"
        "set quiet \<subseteq> {ActFailure ''session_build_failed''}"
      using stage_record_failure by blast
    have sent: "stage w (ActBuild # quiet @ [ActTip e c]) (send_failure_tip P conv turn e c
        (record_agent_session_failure P (availability_agent_id ?bo) ''session_build_failed'' (send_error_display_message ?se) w1))" for conv turn e c
      using stage_trans [OF built stage_trans [OF q(1) stage_tip]] by simp
    have "\<exists>code. stage w (ActBuild # quiet @ [ActTip ?se code]) w'" "\<exists>m. res = Inl (failed_with m)"
      using assms(1) a Inl by (auto simp: run_attempt_def Let_def intro: sent)
    then show ?thesis using attempted_failed [of quiet "''session_build_failed''"] q(2) by blast
  next
    case (Inr agent)
    show ?thesis
    proof (cases "knowledge_content_for_attempt (ports_bundle_json P) (sd_content (ti_send inp)) (ti_retrieval inp)
        (ti_knowledge_mode inp) (ports_model_egress_snapshot P agent)")
      case (Inl blocked)
      then have "\<exists>e c. stage w ([ActBuild] @ [ActTip e c]) w'" "\<exists>m. res = Inl (failed_with m)"
        using assms(1) a Inr by (auto simp: run_attempt_def Let_def intro: stage_tip_after [OF built, simplified])
      then show ?thesis using attempted_failed [of "[]"] by fastforce
    next
      case (Inr dispatch)
      note agent = \<open>r = Inr agent\<close>
      obtain r2 w2 where b: "maybe_persist_workspace P (ti_conv_id inp) (ti_stored_workspace inp) (ports_workspace P agent) w1 = (r2, w2)"
        by fastforce
      have ready: "stage w [ActBuild] w2" using stage_trans [OF built stage_persist_workspace [OF b]] by simp
      show ?thesis
      proof (cases r2)
        case (Inl err)
        then have "\<exists>e c. stage w ([ActBuild] @ [ActTip e c]) w'" "\<exists>m. res = Inl (failed_with m)"
          using assms(1) a b Inr agent by (auto simp: run_attempt_def Let_def intro: stage_tip_after [OF ready, simplified] split: prod.splits)
        then show ?thesis using attempted_failed [of "[]"] by fastforce
      next
        case (Inr u)
        obtain res' w3 where l: "attempt_loop P agent inp ((ti_send inp)\<lparr>sd_content := kd_content dispatch\<rparr>) (ti_msg_id inp) 0 default_summary w2 = (res', w3)"
          by fastforce
        obtain acts where acts: "stage w2 acts w3" "exchanges 5 default_summary acts res'"
          using attempt_loop_exchanges [OF l] by (auto simp: max_system_response_continuations_per_turn_def numeral_eq_Suc)
        have "w' = w3" "attempted (ActBuild # acts) res"
          using assms a b l Inr agent \<open>knowledge_content_for_attempt _ _ _ _ _ = Inr dispatch\<close> acts(2) attempted_exchanges
          by (auto simp: run_attempt_def Let_def split: sum.splits)
        then show ?thesis using stage_trans [OF ready acts(1)] by auto
      qed
    qed
  qed
qed

section \<open>The turn\<close>

lemma stage_evict:
  "stage w (if t = AtAcp \<and> is_error (ro_terminal outcome) then [ActKill] else []) (snd (evict_acp_task_after_terminal_error P conv t outcome w))"
  by (auto simp: evict_acp_task_after_terminal_error_def after_model_not_found_def Let_def stage_def act_def split: prod.split)

definition shown_by_relay :: "relay_outcome \<Rightarrow> bool" where
  "shown_by_relay outcome \<longleftrightarrow>
     is_error (ro_terminal outcome) \<and> \<not> (ta_terminal_error_deferred (ro_attempt outcome) \<and> ta_terminal_error (ro_attempt outcome) \<noteq> None)"

lemma stage_settle:
  assumes "is_error (ro_terminal (ar_outcome r))"
  shows "\<exists>acts. stage w acts (settle_failure P input r lifecycle w) \<and> sends acts = [] \<and> outcomes acts = [] \<and> times ActBuild acts = 0
     \<and> times ActKill acts \<le> 1 \<and> times ActComplete acts = 0 \<and> (\<forall>b. times (ActRelease b) acts = 0)
     \<and> (tips acts \<noteq> [] \<or> shown_by_relay (ar_outcome r))"
proof -
  let ?att = "ro_attempt (ar_outcome r)"
  define w1 where "w1 = (if ta_terminal_error_deferred ?att then
      (case ta_terminal_error ?att of
         Some data \<Rightarrow> send_failure_tip P (ts_conversation_id input) (ts_turn_id input) data None w
       | None \<Rightarrow> w) else w)"
  have tip: "\<exists>tip. stage w tip w1 \<and> (tip = [] \<and> shown_by_relay (ar_outcome r) \<or> (\<exists>e c. tip = [ActTip e c]))"
    using assms by (auto simp: w1_def shown_by_relay_def intro: stage_refl stage_tip split: option.splits)
  have settle: "settle_failure P input r lifecycle w = (case decide_health (ar_agent_type r) (ar_outcome r) lifecycle of
      Keep \<Rightarrow> w1
    | EvictAcpTask _ _ _ \<Rightarrow>
        snd (evict_acp_task_after_terminal_error P (ts_conversation_id input) (ar_agent_type r) (ar_outcome r) w1))"
    unfolding settle_failure_def Let_def w1_def ..
  have "stage w1 [] (settle_failure P input r lifecycle w) \<or> stage w1 [ActKill] (settle_failure P input r lifecycle w)"
    using stage_evict [of w1 "ar_agent_type r" "ar_outcome r" P "ts_conversation_id input"]
    unfolding settle by (cases "decide_health (ar_agent_type r) (ar_outcome r) lifecycle") (auto split: if_splits)
  then obtain tip kill where "stage w (tip @ kill) (settle_failure P input r lifecycle w)"
    "tip = [] \<and> shown_by_relay (ar_outcome r) \<or> (\<exists>e c. tip = [ActTip e c])" "kill \<in> {[], [ActKill]}"
    using tip stage_trans by blast
  then show ?thesis by (intro exI [of _ "tip @ kill"]) auto
qed

text \<open>The log of the last attempt of a turn, and that of an attempt that is replayed.\<close>

definition closing :: "turn_action list \<Rightarrow> bool \<Rightarrow> bool" where
  "closing acts failed \<longleftrightarrow>
     times ActBuild acts = 1 \<and> times ActKill acts \<le> 1 \<and> times ActComplete acts = 0 \<and> (\<forall>b. times (ActRelease b) acts = 0)
     \<and> length (sends acts) \<le> 5
     \<and> (if failed then tips acts \<noteq> [] \<or> (outcomes acts \<noteq> [] \<and> shown_by_relay (last (outcomes acts)))
        else outcomes acts \<noteq> [] \<and> \<not> is_error (ro_terminal (last (outcomes acts))))"

definition clean_failure :: "turn_action list \<Rightarrow> bool" where
  "clean_failure acts \<longleftrightarrow>
     times ActBuild acts = 1 \<and> times ActKill acts = 0 \<and> times ActComplete acts = 0 \<and> (\<forall>b. times (ActRelease b) acts = 0)
     \<and> length (sends acts) \<le> 5 \<and> outcomes acts \<noteq> [] \<and> terminal_retryable (ro_terminal (last (outcomes acts))) = Some True
     \<and> list_all (\<lambda>o'. safe_to_auto_replay (ro_attempt o')) (outcomes acts)"

lemma turn_loop_shape:
  assumes "turn_loop P input send replayed w = ((failed, m), w')"
  shows "\<exists>acts. stage w acts w' \<and> (closing acts failed
     \<or> (\<not> replayed \<and> (\<exists>first rest. acts = first @ ActKill # rest \<and> clean_failure first \<and> closing rest failed)))"
  using assms
proof (induction P input send replayed w rule: turn_loop.induct)
  case (1 P input send replayed w)
  obtain res w1 where a: "run_attempt P (attempt_input input send replayed) w = (res, w1)" by fastforce
  obtain acts where acts: "stage w acts w1" "attempted acts res"
    using run_attempt_attempted [OF a] by (auto simp: attempt_input_def)
  show ?case
  proof (cases res)
    case (Inl r)
    then have "w' = w1" "failed" "closing acts True" using 1(2) a acts(2) by (auto simp: turn_loop.simps attempted_def closing_def)
    then show ?thesis using acts(1) by auto
  next
    case (Inr r)
    let ?lc = "lifecycle_for (ts_conversation_id input) (ow_runtime w1)"
    let ?d = "decide_recovery (ar_agent_type r) ((ar_outcome r)\<lparr>ro_attempt := ar_summary r\<rparr>) ?lc replayed"
    show ?thesis
    proof (cases "is_error (ro_terminal (ar_outcome r))")
      case False
      then have "w' = w1" "\<not> failed" "closing acts False" using 1(2) a acts(2) Inr by (auto simp: turn_loop.simps attempted_def closing_def)
      then show ?thesis using acts(1) by auto
    next
      case err: True
      show ?thesis
      proof (cases ?d)
        case NoRecovery
        then have w': "w' = settle_failure P input r ?lc w1" "failed" using 1(2) a Inr err by (auto simp: turn_loop.simps Let_def)
        obtain more where more: "stage w1 more w'" "sends more = []" "outcomes more = []" "times ActBuild more = 0" "times ActKill more \<le> 1"
          "times ActComplete more = 0" "\<forall>b. times (ActRelease b) more = 0" "tips more \<noteq> [] \<or> shown_by_relay (ar_outcome r)"
          using stage_settle [OF err] w'(1) by blast
        have "closing (acts @ more) True" using acts(2) more Inr by (auto simp: attempted_def closing_def)
        then show ?thesis using stage_trans [OF acts(1) more(1)] w'(2) by auto
      next
        case (AutoReplayOnce reason safe signal)
        then have d: "\<not> replayed" "ar_agent_type r = AtAcp" "terminal_retryable (ro_terminal (ar_outcome r)) = Some True" "safe_to_auto_replay (ar_summary r)"
          by (auto simp: decide_recovery_def Let_def split: if_splits)
        define w2 where "w2 = snd (evict_acp_task_after_terminal_error P (ts_conversation_id input) (ar_agent_type r) (ar_outcome r) w1)"
        have kill: "stage w1 [ActKill] w2" using stage_evict [of w1 "ar_agent_type r" "ar_outcome r" P] d(2) err by (simp add: w2_def)
        obtain rest where rest: "stage w2 rest w'" "closing rest failed"
          using 1(1) [OF a [symmetric] Inr refl _ refl AutoReplayOnce] 1(2) a Inr err AutoReplayOnce by (auto simp: turn_loop.simps Let_def w2_def)
        have "clean_failure acts" using acts(2) Inr d by (auto simp: attempted_def clean_failure_def safe_merged list_all_iff)
        then show ?thesis using stage_trans [OF acts(1) stage_trans [OF kill rest(1)]] rest(2) d(1) by auto
      qed
    qed
  qed
qed

lemma release_claim_stage: "\<exists>b c w1. release_claim input w = (b, c, w1) \<and> stage w [ActRelease b] w1"
  by (auto simp: release_claim_def stage_def note_action_def split: prod.split option.split)

lemma run_user_turn_shape:
  assumes "run_user_turn P input w = (res, w')"
  shows "\<exists>acts quiet b. stage w (acts @ quiet @ ActRelease b # (if b then [] else [ActComplete])) w' \<and> set quiet \<subseteq> {ActSuccess}
     \<and> (closing acts (tr_status res = TurnFailed)
        \<or> (\<exists>first rest. acts = first @ ActKill # rest \<and> clean_failure first \<and> closing rest (tr_status res = TurnFailed)))"
proof -
  obtain mid w1 where m: "act [] (ports_mint_msg_id P) w = (mid, w1)" by fastforce
  obtain failed msg w2 where t: "turn_loop P input (initial_message input mid) False w1 = ((failed, msg), w2)"
    by (metis surj_pair)
  obtain acts where acts: "stage w1 acts w2"
    "closing acts failed \<or> (\<exists>first rest. acts = first @ ActKill # rest \<and> clean_failure first \<and> closing rest failed)"
    using turn_loop_shape [OF t] by auto
  define w3 where "w3 = (if failed then w2 else record_agent_session_success P (availability_agent_id (ts_build_options input)) w2)"
  obtain quiet where q: "stage w2 quiet w3" "set quiet \<subseteq> {ActSuccess}"
    unfolding w3_def using stage_record_success stage_refl by (metis empty_subsetI list.set(1))
  obtain b c w4 where r: "release_claim input w3 = (b, c, w4)" "stage w3 [ActRelease b] w4" using release_claim_stage by blast
  have comp: "stage w4 (if b then [] else [ActComplete]) (complete_released_turn P (ts_conversation_id input) (ts_turn_id input) b w4)"
    by (simp add: complete_released_turn_def)
  have res: "(tr_status res = TurnFailed) = failed"
    "ow_log w' = ow_log (complete_released_turn P (ts_conversation_id input) (ts_turn_id input) b w4)"
    using assms m t r(1) by (auto simp: run_user_turn_def Let_def w3_def split: option.splits if_splits)
  have "stage w (acts @ quiet @ [ActRelease b] @ (if b then [] else [ActComplete])) (complete_released_turn P (ts_conversation_id input) (ts_turn_id input) b w4)"
    using stage_trans [OF stage_act [OF m] stage_trans [OF acts(1) stage_trans [OF q(1) stage_trans [OF r(2) comp]]]] by simp
  then have "stage w (acts @ quiet @ ActRelease b # (if b then [] else [ActComplete])) w'" using res(2) by (simp add: stage_def)
  then show ?thesis using acts(2) q(2) unfolding res(1) by blast
qed

section \<open>Evidence that is withheld\<close>

lemma loop_ignores_retrieval:
  "attempt_loop P agent (inp\<lparr>ti_retrieval := b\<rparr>) send msg_id n s w = attempt_loop P agent inp send msg_id n s w"
proof (induction P agent inp send msg_id n s w rule: attempt_loop.induct)
  case (1 P agent inp send msg_id n s w)
  have same: "confirm_runtime_mode P agent (inp\<lparr>ti_retrieval := b\<rparr>) v = confirm_runtime_mode P agent inp v"
    "attempt_relay (inp\<lparr>ti_retrieval := b\<rparr>) = attempt_relay inp" "defers P agent (inp\<lparr>ti_retrieval := b\<rparr>) = defers P agent inp" for v
    by (simp_all add: confirm_runtime_mode_def attempt_relay_def defers_def fun_eq_iff split: option.split prod.split sum.split)
  show ?case
    by (rule trans [OF attempt_loop.simps trans [OF _ attempt_loop.simps [symmetric]]])
      (auto simp: same Let_def 1 split: prod.split sum.split continuation_decision.split)
qed

definition withheld :: "('a, 'e, 'h) turn_ports \<Rightarrow> 'h retrieval_bundle \<Rightarrow> bool" where
  "withheld P b \<longleftrightarrow> rb_hits b \<noteq> [] \<and> \<not> rb_cloud_authorized b \<and> (\<forall>a. eg_location (ports_model_egress_snapshot P a) \<noteq> LocalModel)"

lemma attempt_without_evidence:
  assumes "withheld P b" "ti_knowledge_mode inp \<noteq> Some KnowledgeRequired"
  shows "run_attempt P (inp\<lparr>ti_retrieval := Some b\<rparr>) w = run_attempt P (inp\<lparr>ti_retrieval := None\<rparr>) w"
  using assms
  by (auto simp: run_attempt_def Let_def loop_ignores_retrieval withheld_def knowledge_content_for_attempt_def plain_content_def
      split: prod.split sum.split)

lemma turn_without_evidence:
  assumes "withheld P b" "ts_knowledge input \<noteq> Some KnowledgeRequired"
  shows "turn_loop P (input\<lparr>ts_retrieval := Some b\<rparr>) send replayed w = turn_loop P (input\<lparr>ts_retrieval := None\<rparr>) send replayed w"
proof -
  have inputs: "attempt_input (input\<lparr>ts_retrieval := r\<rparr>) send replayed = (attempt_input input send replayed)\<lparr>ti_retrieval := r\<rparr>" for r replayed
    by (simp add: attempt_input_def)
  have "ti_knowledge_mode (attempt_input input send replayed) \<noteq> Some KnowledgeRequired" for replayed
    using assms(2) by (simp add: attempt_input_def)
  note same = attempt_without_evidence [OF assms(1) this]
  have settle: "settle_failure P (input\<lparr>ts_retrieval := r\<rparr>) a lc v = settle_failure P input a lc v" for r a lc v
    by (simp add: settle_failure_def Let_def split: agent_health_action.split option.split)
  have once: "decide_recovery t o' lc True = NoRecovery" for t o' lc by (simp add: decide_recovery_def Let_def)
  have last: "turn_loop P (input\<lparr>ts_retrieval := Some b\<rparr>) send True w = turn_loop P (input\<lparr>ts_retrieval := None\<rparr>) send True w" for w
    by (rule trans [OF turn_loop.simps trans [OF _ turn_loop.simps [symmetric]]])
      (simp add: Let_def inputs same settle once split: prod.split sum.split)
  show ?thesis
    by (cases replayed, simp add: last, rule trans [OF turn_loop.simps trans [OF _ turn_loop.simps [symmetric]]])
      (auto simp: Let_def inputs same settle last split: prod.split sum.split turn_recovery_decision.split)
qed

lemma required_attempt_blocked:
  assumes "withheld P b" "ti_knowledge_mode inp = Some KnowledgeRequired" "ti_retrieval inp = Some b"
  shows "\<exists>m. fst (run_attempt P inp w) = Inl (failed_with m)" "sends (drop (length (ow_log w)) (ow_log (snd (run_attempt P inp w)))) = []"
  using assms
  by (auto simp: run_attempt_def Let_def withheld_def knowledge_content_for_attempt_def send_failure_tip_def act_def
      record_agent_session_failure_def split: prod.split sum.split option.split)

end
