(* ===== verification/TurnDelivery.thy ===== *)
theory TurnDelivery
  imports TurnSafety
begin

text \<open>
  The properties of a conversation turn (\<open>turn_work_bounded\<close>, \<open>replay_follows_clean_failure\<close>,
  \<open>turn_outcome_is_reported\<close>, \<open>withheld_evidence_has_no_effect\<close>), on a scripted agent for the
  witnesses, and a message that is sent after a cancellation (\<open>cancelled_turn_still_sends\<close>).
\<close>

section \<open>A scripted agent\<close>

text \<open>Each relay ends with the next outcome of the script, after the runtime state went through \<open>during\<close>.\<close>

definition scripted ::
  "(runtime_state_service \<Rightarrow> runtime_state_service) \<Rightarrow> (unit, relay_outcome list, string) turn_ports" where
  "scripted during =
     \<lparr>ports_get_or_build_task = \<lambda>conv bo e. (Inr (), e), ports_agent_type = \<lambda>a. AtAcp,
      ports_model_egress_snapshot = \<lambda>a. \<lparr>eg_provider_id = Some ''p'', eg_location = ExternalModel\<rparr>, ports_workspace = \<lambda>a. [],
      ports_set_config_option = \<lambda>a k v e. (Inr (), e),
      ports_relay = \<lambda>a r s (rt, e). (case e of [] \<Rightarrow> default_outcome | o' # _ \<Rightarrow> o', during rt, tl e),
      ports_get_session_key = \<lambda>a e. (None, e), ports_save_session_key = \<lambda>c k e. ((), e), ports_save_workspace = \<lambda>c v e. (Inr (), e),
      ports_mint_msg_id = \<lambda>e. (''m'', e), ports_send_failure_tip = \<lambda>c t d code e. ((), e), ports_kill_and_wait = \<lambda>c r e. ((), e),
      ports_clear_persisted_acp_model = \<lambda>c e. ((), e), ports_clear_conversation_model_seed = \<lambda>c e. ((), e), ports_feedback = False,
      ports_record_session_failure = \<lambda>i c m e. ((), e), ports_record_session_success = \<lambda>i e. ((), e), ports_complete_turn = \<lambda>c t e. ((), e),
      ports_send_error = \<lambda>e b. \<lparr>es_message = agent_error_text e, es_code = None, es_detail = None, es_retryable = None\<rparr>,
      ports_describe = \<lambda>e. ([], [], \<lparr>es_message = [], es_code = None, es_detail = None, es_retryable = None\<rparr>),
      ports_bundle_json = \<lambda>b. Some ''[]''\<rparr>"

definition demo_input :: "string turn_start_input" where
  "demo_input =
     \<lparr>ts_user_id = ''u'', ts_conversation_id = ''c'', ts_content = ''hi'', ts_files = [], ts_inject_skills = [], ts_retrieval = None,
      ts_knowledge = None, ts_required_runtime_mode = None, ts_build_options = \<lparr>bo_kind = AcpSession None None, bo_skills = []\<rparr>,
      ts_stored_workspace = [], ts_turn_id = ''t'',
      ts_turn_claim = \<lparr>tc_conversation_id = ''c'', tc_turn_id = ''t'', tc_released = False\<rparr>\<rparr>"

definition demo_world :: "relay_outcome list \<Rightarrow> relay_outcome list turn_world" where
  "demo_world script = \<lparr>ow_runtime = snd (try_claim_turn ''c'' ''t'' new_service), ow_env = script, ow_log = []\<rparr>"

definition retryable_failure :: relay_outcome where
  "retryable_failure = default_outcome\<lparr>ro_terminal := RelayError (Some UserAgentDisconnected) (Some True)\<rparr>"

definition demo_bundle :: "string retrieval_bundle" where
  "demo_bundle = \<lparr>rb_query = ''q'', rb_hits = [''secret''], rb_token_budget = 100, rb_cloud_authorized = False, rb_space_ids = [''s'']\<rparr>"

definition demo_message :: send_message_data where
  "demo_message = \<lparr>sd_content = ''hi'', sd_msg_id = ''m'', sd_turn_id = Some ''t'', sd_files = [], sd_inject_skills = []\<rparr>"

lemmas turn_defs = run_user_turn_def turn_loop.simps run_attempt_def attempt_loop.simps act_def note_action_def exchange_def confirm_runtime_mode_def
  knowledge_content_for_attempt_def maybe_persist_workspace_def keep_session_key_def decide_continuation_def decide_recovery_def
  evict_acp_task_after_terminal_error_def after_model_not_found_def release_claim_def complete_released_turn_def drop_claim_def release_for_turn_def
  release_inner_def service_release_def lifecycle_for_def try_claim_turn_def new_service_def merge_summary_def safe_to_auto_replay_def default_summary_def
  default_outcome_def initial_message_def attempt_input_def settle_failure_def record_agent_session_success_def availability_agent_id_def
  max_system_response_continuations_per_turn_def queued_as_def plain_content_def defers_def
lemmas demo_defs = scripted_def demo_input_def demo_world_def retryable_failure_def demo_bundle_def demo_message_def

lemma replayed_log:
  "ow_log (snd (run_user_turn (scripted id) demo_input (demo_world [retryable_failure, default_outcome])))
     = [ActBuild, ActSend demo_message, ActOutcome retryable_failure, ActKill, ActBuild, ActSend demo_message, ActOutcome default_outcome,
        ActRelease False, ActComplete]"
  by (simp add: demo_defs turn_defs Let_def)

section \<open>Properties\<close>

text \<open>
  C28. A turn does a bounded amount of work and ends with its claim released, whatever the agent and the
  rest of the process do: it builds the agent's task once or twice, sends at most five messages per
  build (the user's, then at most four continuations), evicts the agent at most once per build, and then
  releases its claim once, and announces the end of the turn exactly if the conversation was not being
  deleted.
\<close>

theorem turn_work_bounded:
  "\<exists>acts b. ow_log (snd (run_user_turn P input w)) = ow_log w @ acts @ ActRelease b # (if b then [] else [ActComplete])
     \<and> times ActBuild acts \<in> {1, 2} \<and> length (sends acts) \<le> 5 * times ActBuild acts \<and> times ActKill acts \<le> times ActBuild acts
     \<and> (\<forall>b'. times (ActRelease b') acts = 0) \<and> times ActComplete acts = 0"
proof -
  obtain res w' where "run_user_turn P input w = (res, w')" by fastforce
  from run_user_turn_shape [OF this] obtain acts quiet b where
    log: "stage w (acts @ quiet @ ActRelease b # (if b then [] else [ActComplete])) w'" and quiet: "set quiet \<subseteq> {ActSuccess}" and
    acts: "closing acts (tr_status res = TurnFailed)
      \<or> (\<exists>first rest. acts = first @ ActKill # rest \<and> clean_failure first \<and> closing rest (tr_status res = TurnFailed))"
    by blast
  have q: "times ActBuild quiet = 0" "times ActKill quiet = 0" "times ActComplete quiet = 0" "sends quiet = []" "times (ActRelease b') quiet = 0" for b'
    using quiet_log [of quiet "[]"] quiet by auto
  show ?thesis
    using log acts \<open>run_user_turn P input w = (res, w')\<close>
    by (intro exI [of _ "acts @ quiet"] exI [of _ b]) (auto simp: stage_def q closing_def clean_failure_def)
qed

text \<open>
  C29. A turn is replayed only after an attempt that left no trace: when the agent's task is built a second
  time, every relay of the first attempt showed no output, ran no tool and stored no answer, the last one
  ended in an error marked retryable, and the agent was evicted before the second build. So no output
  the user has seen and no side effect is repeated.
\<close>

theorem replay_follows_clean_failure:
  assumes "ow_log (snd (run_user_turn P input w)) = ow_log w @ acts" "times ActBuild acts = 2"
  shows "\<exists>first rest. acts = first @ ActKill # rest \<and> times ActBuild first = 1 \<and> times ActBuild rest = 1 \<and> outcomes first \<noteq> []
    \<and> terminal_retryable (ro_terminal (last (outcomes first))) = Some True
    \<and> (\<forall>o'\<in>set (outcomes first). safe_to_auto_replay (ro_attempt o'))"
proof -
  obtain res w' where r: "run_user_turn P input w = (res, w')" by fastforce
  from run_user_turn_shape [OF r] obtain body quiet b where
    log: "stage w (body @ quiet @ ActRelease b # (if b then [] else [ActComplete])) w'" and quiet: "set quiet \<subseteq> {ActSuccess}" and
    body: "closing body (tr_status res = TurnFailed)
      \<or> (\<exists>first rest. body = first @ ActKill # rest \<and> clean_failure first \<and> closing rest (tr_status res = TurnFailed))"
    by blast
  have q: "times ActBuild quiet = 0" using quiet_log [of quiet "[]"] quiet by auto
  have acts: "acts = body @ quiet @ ActRelease b # (if b then [] else [ActComplete])" using log r assms(1) by (simp add: stage_def)
  then have "times ActBuild body = 2" using assms(2) q by (simp split: if_splits)
  with body obtain first rest where "body = first @ ActKill # rest" "clean_failure first" "times ActBuild rest = 1"
    by (auto simp: closing_def)
  then show ?thesis
    using acts q by (intro exI [of _ first] exI [of _ "rest @ quiet @ ActRelease b # (if b then [] else [ActComplete])"])
      (auto simp: clean_failure_def list_all_iff)
qed

theorem replay_follows_clean_failure_witness:
  "\<exists>first rest. [ActBuild, ActSend demo_message, ActOutcome retryable_failure, ActKill, ActBuild, ActSend demo_message, ActOutcome default_outcome,
        ActRelease False, ActComplete] = first @ ActKill # rest \<and> times ActBuild first = 1 \<and> times ActBuild rest = 1 \<and> outcomes first \<noteq> []
    \<and> terminal_retryable (ro_terminal (last (outcomes first))) = Some True
    \<and> (\<forall>o'\<in>set (outcomes first). safe_to_auto_replay (ro_attempt o'))"
  by (rule replay_follows_clean_failure [where P = "scripted id" and input = demo_input and w = "demo_world [retryable_failure, default_outcome]"])
    (simp_all add: replayed_log, simp_all add: demo_world_def)



text \<open>
  C31. Knowledge that may not leave has no influence. When the retrieved evidence is not authorised for
  cloud models and no agent runs on a local model, a turn that does not require evidence does exactly
  what it does without it, towards the agent, the database and the user; a turn that requires it fails
  and sends nothing.
\<close>

theorem withheld_evidence_has_no_effect:
  fixes P :: "('a, 'b, 'h) turn_ports"
  assumes "rb_hits b \<noteq> []" "\<not> rb_cloud_authorized b" "\<forall>a. eg_location (ports_model_egress_snapshot P a) \<noteq> LocalModel"
  shows "if ts_knowledge input = Some KnowledgeRequired
    then tr_status (fst (run_user_turn P (input\<lparr>ts_retrieval := Some b\<rparr>) w)) = TurnFailed
      \<and> sends (drop (length (ow_log w)) (ow_log (snd (run_user_turn P (input\<lparr>ts_retrieval := Some b\<rparr>) w)))) = []
    else run_user_turn P (input\<lparr>ts_retrieval := Some b\<rparr>) w = run_user_turn P (input\<lparr>ts_retrieval := None\<rparr>) w"
proof (cases "ts_knowledge input = Some KnowledgeRequired")
  case False
  have held: "withheld P b" using assms by (simp add: withheld_def)
  have "initial_message (input\<lparr>ts_retrieval := r\<rparr>) = initial_message input" "release_claim (input\<lparr>ts_retrieval := r\<rparr>) v = release_claim input v"
    for r and v :: "'b turn_world"
    by (simp_all add: initial_message_def release_claim_def fun_eq_iff)
  then show ?thesis
    using False by (simp add: run_user_turn_def turn_without_evidence [OF held] Let_def split: prod.split)
next
  case True
  have held: "withheld P b" using assms by (simp add: withheld_def)
  let ?in = "input\<lparr>ts_retrieval := Some b\<rparr>"
  obtain mid w1 where m: "act [] (ports_mint_msg_id P) w = (mid, w1)" by fastforce
  let ?att = "attempt_input ?in (initial_message ?in mid) False"
  have att: "ti_knowledge_mode ?att = Some KnowledgeRequired" "ti_retrieval ?att = Some b" using True by (simp_all add: attempt_input_def)
  obtain msg where f: "fst (run_attempt P ?att w1) = Inl (failed_with msg)" using required_attempt_blocked(1) [OF held att] by blast
  obtain w2 where a: "run_attempt P ?att w1 = (Inl (failed_with msg), w2)" using f by (cases "run_attempt P ?att w1") auto
  have none: "sends (drop (length (ow_log w1)) (ow_log w2)) = []" using required_attempt_blocked(2) [OF held att, of w1] a by simp
  obtain acts where "stage w1 acts w2" using run_attempt_attempted [OF a] by (auto simp: attempt_input_def)
  then have "ow_log w2 = ow_log w @ acts" "sends acts = []" using none stage_act [OF m] by (simp_all add: stage_def)
  moreover have "run_user_turn P ?in w = (let (was_deleting, claim, w4) = release_claim ?in w2;
      w5 = complete_released_turn P (ts_conversation_id ?in) (ts_turn_id ?in) was_deleting w4
    in (failed_with msg, case drop_claim claim (Some (ow_runtime w5)) of None \<Rightarrow> w5 | Some s \<Rightarrow> w5\<lparr>ow_runtime := s\<rparr>))"
    by (simp add: run_user_turn_def m turn_loop.simps a failed_with_def Let_def)
  ultimately show ?thesis
    using True release_claim_stage [of ?in w2]
    by (auto simp: Let_def failed_with_def complete_released_turn_def stage_def act_def split: option.split prod.split)
qed

theorem withheld_evidence_has_no_effect_witness:
  "run_user_turn (scripted id) (demo_input\<lparr>ts_retrieval := Some demo_bundle\<rparr>) (demo_world [])
     = run_user_turn (scripted id) (demo_input\<lparr>ts_retrieval := None\<rparr>) (demo_world [])"
  using withheld_evidence_has_no_effect [of demo_bundle "scripted id" demo_input "demo_world []"] by (simp add: demo_defs)

section \<open>A message after a cancellation\<close>

text \<open>
  The continuation is decided with the lifecycle read before the relay. When the conversation is
  cancelled while the agent answers, the system's responses to that answer are still sent to the agent.
\<close>

lemma cancelled_turn_still_sends:
  fixes answer :: relay_outcome
  defines "answer \<equiv> default_outcome\<lparr>ro_system_responses := [''done'']\<rparr>"
  shows "map sd_content (sends (ow_log (snd (run_user_turn (scripted (mark_cancelling ''c'')) demo_input (demo_world [answer, default_outcome])))))
    = [''hi'', ''done'']"
  by (simp add: answer_def demo_defs turn_defs Let_def mark_cancelling_def)

end
