(* ===== verification/CronRepository.thy ===== *)
theory CronRepository
  imports RunRepository
begin

text \<open>
  The repository of scheduled jobs, \<open>aionui-db/src/repository/cron.rs\<close> and \<open>sqlite_cron.rs\<close>: the trait
  as a record of functions, and SQLite over the table \<open>cron_jobs\<close> with the key and the checks of
  migration 013 and a list of the queries that fail. A 64-bit column is an integer.
\<close>

section \<open>Rows and parameters\<close>

record cron_job_row =
  kr_id :: id
  kr_name :: string
  kr_enabled :: bool
  kr_schedule_kind :: string
  kr_schedule_value :: string
  kr_schedule_tz :: "string option"
  kr_schedule_description :: "string option"
  kr_payload_message :: string
  kr_execution_mode :: string
  kr_agent_config :: "string option"
  kr_conversation_id :: id
  kr_conversation_title :: "string option"
  kr_created_by :: string
  kr_skill_content :: "string option"
  kr_description :: "string option"
  kr_created_at :: timestamp_ms
  kr_updated_at :: timestamp_ms
  kr_next_run_at :: "timestamp_ms option"
  kr_last_run_at :: "timestamp_ms option"
  kr_last_status :: "string option"
  kr_last_error :: "string option"
  kr_run_count :: int
  kr_retry_count :: int
  kr_max_retries :: int

record update_cron_job_params =
  ku_name :: "string option"
  ku_enabled :: "bool option"
  ku_schedule_kind :: "string option"
  ku_schedule_value :: "string option"
  ku_schedule_tz :: "string option option"
  ku_schedule_description :: "string option option"
  ku_payload_message :: "string option"
  ku_execution_mode :: "string option"
  ku_agent_config :: "string option option"
  ku_conversation_id :: "id option"
  ku_conversation_title :: "string option option"
  ku_skill_content :: "string option option"
  ku_description :: "string option option"
  ku_next_run_at :: "timestamp_ms option option"
  ku_last_run_at :: "timestamp_ms option option"
  ku_last_status :: "string option option"
  ku_last_error :: "string option option"
  ku_run_count :: "int option"
  ku_retry_count :: "int option"

definition default_params :: update_cron_job_params where
  "default_params =
     \<lparr>ku_name = None, ku_enabled = None, ku_schedule_kind = None, ku_schedule_value = None, ku_schedule_tz = None,
      ku_schedule_description = None, ku_payload_message = None, ku_execution_mode = None, ku_agent_config = None,
      ku_conversation_id = None, ku_conversation_title = None, ku_skill_content = None, ku_description = None,
      ku_next_run_at = None, ku_last_run_at = None, ku_last_status = None, ku_last_error = None, ku_run_count = None,
      ku_retry_count = None\<rparr>"

section \<open>The trait\<close>

text \<open>\<open>update\<close> reads the clock for the column \<open>updated_at\<close>.\<close>

record 'd cron_repository =
  kq_insert :: "cron_job_row \<Rightarrow> 'd \<Rightarrow> (db_error + unit) \<times> 'd"
  kq_update :: "timestamp_ms \<Rightarrow> id \<Rightarrow> update_cron_job_params \<Rightarrow> 'd \<Rightarrow> (db_error + unit) \<times> 'd"
  kq_delete :: "id \<Rightarrow> 'd \<Rightarrow> (db_error + unit) \<times> 'd"
  kq_get_by_id :: "id \<Rightarrow> 'd \<Rightarrow> (db_error + cron_job_row option) \<times> 'd"
  kq_list_all :: "'d \<Rightarrow> (db_error + cron_job_row list) \<times> 'd"
  kq_list_enabled :: "'d \<Rightarrow> (db_error + cron_job_row list) \<times> 'd"
  kq_list_by_conversation :: "id \<Rightarrow> 'd \<Rightarrow> (db_error + cron_job_row list) \<times> 'd"
  kq_delete_by_conversation :: "id \<Rightarrow> 'd \<Rightarrow> (db_error + nat) \<times> 'd"

section \<open>SQLite\<close>

record cron_db =
  cj_rows :: "cron_job_row list"
  cj_faults :: "bool list"

definition cron_pool ::
  "(cron_job_row list \<Rightarrow> (db_error + 'a) \<times> cron_job_row list) \<Rightarrow> cron_db \<Rightarrow> (db_error + 'a) \<times> cron_db" where
  "cron_pool q d =
     (if case cj_faults d of [] \<Rightarrow> False | f # _ \<Rightarrow> f
      then (Inl (DbQuery ''database error''), d\<lparr>cj_faults := tl (cj_faults d)\<rparr>)
      else (fst (q (cj_rows d)), \<lparr>cj_rows = snd (q (cj_rows d)), cj_faults = tl (cj_faults d)\<rparr>))"

definition row_checks :: "cron_job_row \<Rightarrow> bool" where
  "row_checks r \<longleftrightarrow>
     kr_schedule_kind r \<in> {''at'', ''every'', ''cron''} \<and> kr_execution_mode r \<in> {''existing'', ''new_conversation''}
     \<and> kr_created_by r \<in> {''user'', ''agent''}
     \<and> (case kr_last_status r of None \<Rightarrow> True | Some s \<Rightarrow> s \<in> {''ok'', ''error'', ''skipped'', ''missed''})"

definition check_failed :: db_error where
  "check_failed = DbQuery ''CHECK constraint failed: cron_jobs''"

definition job_missing :: "id \<Rightarrow> db_error" where
  "job_missing i = DbNotFound (''cron job '' @ [CHR 0x27] @ i @ [CHR 0x27])"

definition sqlite_insert_job :: "cron_job_row \<Rightarrow> cron_db \<Rightarrow> (db_error + unit) \<times> cron_db" where
  "sqlite_insert_job row = cron_pool (\<lambda>rs.
     if kr_id row \<in> kr_id ` set rs then (Inl (DbQuery ''UNIQUE constraint failed: cron_jobs.id''), rs)
     else if \<not> row_checks row then (Inl check_failed, rs)
     else (Inr (), rs @ [row]))"

text \<open>The row that the \<open>SET\<close> clauses leave: a given field replaces the column.\<close>

definition set_field :: "'a option \<Rightarrow> 'a \<Rightarrow> 'a" where
  "set_field v old = (case v of None \<Rightarrow> old | Some x \<Rightarrow> x)"

definition updated_job :: "timestamp_ms \<Rightarrow> update_cron_job_params \<Rightarrow> cron_job_row \<Rightarrow> cron_job_row" where
  "updated_job now p r =
     \<lparr>kr_id = kr_id r, kr_name = set_field (ku_name p) (kr_name r), kr_enabled = set_field (ku_enabled p) (kr_enabled r),
      kr_schedule_kind = set_field (ku_schedule_kind p) (kr_schedule_kind r),
      kr_schedule_value = set_field (ku_schedule_value p) (kr_schedule_value r),
      kr_schedule_tz = set_field (ku_schedule_tz p) (kr_schedule_tz r),
      kr_schedule_description = set_field (ku_schedule_description p) (kr_schedule_description r),
      kr_payload_message = set_field (ku_payload_message p) (kr_payload_message r),
      kr_execution_mode = set_field (ku_execution_mode p) (kr_execution_mode r),
      kr_agent_config = set_field (ku_agent_config p) (kr_agent_config r),
      kr_conversation_id = set_field (ku_conversation_id p) (kr_conversation_id r),
      kr_conversation_title = set_field (ku_conversation_title p) (kr_conversation_title r),
      kr_created_by = kr_created_by r, kr_skill_content = set_field (ku_skill_content p) (kr_skill_content r),
      kr_description = set_field (ku_description p) (kr_description r), kr_created_at = kr_created_at r, kr_updated_at = now,
      kr_next_run_at = set_field (ku_next_run_at p) (kr_next_run_at r), kr_last_run_at = set_field (ku_last_run_at p) (kr_last_run_at r),
      kr_last_status = set_field (ku_last_status p) (kr_last_status r), kr_last_error = set_field (ku_last_error p) (kr_last_error r),
      kr_run_count = set_field (ku_run_count p) (kr_run_count r), kr_retry_count = set_field (ku_retry_count p) (kr_retry_count r),
      kr_max_retries = kr_max_retries r\<rparr>"

definition change_row :: "id \<Rightarrow> (cron_job_row \<Rightarrow> cron_job_row) \<Rightarrow> cron_job_row list \<Rightarrow> cron_job_row list" where
  "change_row i f rs = map (\<lambda>r. if kr_id r = i then f r else r) rs"

text \<open>Without a field to set no query is sent.\<close>

definition sqlite_update_job :: "timestamp_ms \<Rightarrow> id \<Rightarrow> update_cron_job_params \<Rightarrow> cron_db \<Rightarrow> (db_error + unit) \<times> cron_db" where
  "sqlite_update_job now i p d =
     (if p = default_params then (Inr (), d)
      else cron_pool (\<lambda>rs.
        if i \<notin> kr_id ` set rs then (Inl (job_missing i), rs)
        else if \<exists>r \<in> set rs. kr_id r = i \<and> \<not> row_checks (updated_job now p r) then (Inl check_failed, rs)
        else (Inr (), change_row i (updated_job now p) rs)) d)"

definition sqlite_delete_job :: "id \<Rightarrow> cron_db \<Rightarrow> (db_error + unit) \<times> cron_db" where
  "sqlite_delete_job i = cron_pool (\<lambda>rs.
     if i \<notin> kr_id ` set rs then (Inl (job_missing i), rs) else (Inr (), filter (\<lambda>r. kr_id r \<noteq> i) rs))"

definition sqlite_get_job :: "id \<Rightarrow> cron_db \<Rightarrow> (db_error + cron_job_row option) \<times> cron_db" where
  "sqlite_get_job i = cron_pool (\<lambda>rs. (Inr (List.find (\<lambda>r. kr_id r = i) rs), rs))"

definition sqlite_list_jobs :: "cron_db \<Rightarrow> (db_error + cron_job_row list) \<times> cron_db" where
  "sqlite_list_jobs = cron_pool (\<lambda>rs. (Inr (sort_key kr_created_at rs), rs))"

definition sqlite_list_enabled_jobs :: "cron_db \<Rightarrow> (db_error + cron_job_row list) \<times> cron_db" where
  "sqlite_list_enabled_jobs = cron_pool (\<lambda>rs. (Inr (sort_key kr_created_at (filter kr_enabled rs)), rs))"

definition sqlite_list_jobs_by_conversation :: "id \<Rightarrow> cron_db \<Rightarrow> (db_error + cron_job_row list) \<times> cron_db" where
  "sqlite_list_jobs_by_conversation c = cron_pool (\<lambda>rs. (Inr (sort_key kr_created_at (filter (\<lambda>r. kr_conversation_id r = c) rs)), rs))"

definition sqlite_delete_jobs_by_conversation :: "id \<Rightarrow> cron_db \<Rightarrow> (db_error + nat) \<times> cron_db" where
  "sqlite_delete_jobs_by_conversation c = cron_pool (\<lambda>rs.
     (Inr (length (filter (\<lambda>r. kr_conversation_id r = c) rs)), filter (\<lambda>r. kr_conversation_id r \<noteq> c) rs))"

definition sqlite_cron_repository :: "cron_db cron_repository" where
  "sqlite_cron_repository =
     \<lparr>kq_insert = sqlite_insert_job, kq_update = sqlite_update_job, kq_delete = sqlite_delete_job, kq_get_by_id = sqlite_get_job,
      kq_list_all = sqlite_list_jobs, kq_list_enabled = sqlite_list_enabled_jobs,
      kq_list_by_conversation = sqlite_list_jobs_by_conversation, kq_delete_by_conversation = sqlite_delete_jobs_by_conversation\<rparr>"

section \<open>What the service relies on\<close>

text \<open>
  The laws of the trait over the rows a repository holds. A query that reads leaves the rows alone; a
  query that writes succeeds with its effect or fails without one. A calm connection does not fail, and
  stays calm.
\<close>

locale cron_store =
  fixes repo :: "'d cron_repository" and rows :: "'d \<Rightarrow> cron_job_row list" and calm :: "'d \<Rightarrow> bool"
  assumes get: "kq_get_by_id repo i d = (found, d') \<Longrightarrow>
      rows d' = rows d \<and> (found = Inr (List.find (\<lambda>x. kr_id x = i) (rows d)) \<or> (\<exists>e. found = Inl e) \<and> \<not> calm d)"
    and list_enabled: "kq_list_enabled repo d = (jobs, d') \<Longrightarrow>
      rows d' = rows d \<and> (jobs = Inr (sort_key kr_created_at (filter kr_enabled (rows d))) \<or> (\<exists>e. jobs = Inl e) \<and> \<not> calm d)"
    and list_all: "kq_list_all repo d = (jobs, d') \<Longrightarrow>
      rows d' = rows d \<and> (jobs = Inr (sort_key kr_created_at (rows d)) \<or> (\<exists>e. jobs = Inl e) \<and> \<not> calm d)"
    and list_by_conversation: "kq_list_by_conversation repo c d = (jobs, d') \<Longrightarrow> rows d' = rows d"
    and insert_job: "kq_insert repo row d = (ok, d') \<Longrightarrow>
      (case ok of Inl _ \<Rightarrow> rows d' = rows d
       | Inr _ \<Rightarrow> rows d' = rows d @ [row] \<and> kr_id row \<notin> kr_id ` set (rows d) \<and> row_checks row)"
    and update: "kq_update repo now i p d = (ok, d') \<Longrightarrow>
      (case ok of Inl _ \<Rightarrow> rows d' = rows d
       | Inr _ \<Rightarrow> if p = default_params then rows d' = rows d
                  else rows d' = change_row i (updated_job now p) (rows d) \<and> i \<in> kr_id ` set (rows d)
                    \<and> (\<forall>x \<in> set (rows d). kr_id x = i \<longrightarrow> row_checks (updated_job now p x)))"
    and update_calm: "calm d \<Longrightarrow> i \<in> kr_id ` set (rows d) \<Longrightarrow> \<forall>x \<in> set (rows d). kr_id x = i \<longrightarrow> row_checks (updated_job now p x) \<Longrightarrow>
      fst (kq_update repo now i p d) = Inr ()"
    and delete: "kq_delete repo i d = (ok, d') \<Longrightarrow>
      (case ok of Inl _ \<Rightarrow> rows d' = rows d | Inr _ \<Rightarrow> rows d' = filter (\<lambda>x. kr_id x \<noteq> i) (rows d))"
    and stays_calm: "calm d \<Longrightarrow> calm (snd (kq_get_by_id repo i d))" "calm d \<Longrightarrow> calm (snd (kq_list_enabled repo d))"
      "calm d \<Longrightarrow> calm (snd (kq_update repo now i p d))" "calm d \<Longrightarrow> calm (snd (kq_insert repo row d))"
      "calm d \<Longrightarrow> calm (snd (kq_delete repo i d))"

definition cron_calm :: "cron_db \<Rightarrow> bool" where
  "cron_calm d \<longleftrightarrow> True \<notin> set (cj_faults d)"

lemma tl_calm: "cron_calm d \<Longrightarrow> True \<notin> set (tl (cj_faults d))"
  by (cases "cj_faults d") (auto simp: cron_calm_def)

lemma cron_calm_pool: "cron_calm d \<Longrightarrow> cron_calm (snd (cron_pool q d))"
  by (cases "cj_faults d") (auto simp: cron_calm_def cron_pool_def)

lemma calm_pool_result: "cron_calm d \<Longrightarrow> fst (cron_pool q d) = fst (q (cj_rows d))"
  by (cases "cj_faults d") (auto simp: cron_calm_def cron_pool_def)

interpretation sqlite_cron: cron_store sqlite_cron_repository cj_rows cron_calm
proof unfold_locales
  fix d :: cron_db and i :: id and p and now :: timestamp_ms
  assume "cron_calm d" "i \<in> kr_id ` set (cj_rows d)" "\<forall>x \<in> set (cj_rows d). kr_id x = i \<longrightarrow> row_checks (updated_job now p x)"
  then show "fst (kq_update sqlite_cron_repository now i p d) = Inr ()"
    by (auto simp: sqlite_cron_repository_def sqlite_update_job_def calm_pool_result)
qed (auto simp: sqlite_cron_repository_def sqlite_insert_job_def sqlite_update_job_def sqlite_delete_job_def sqlite_get_job_def sqlite_list_jobs_def
    sqlite_list_enabled_jobs_def sqlite_list_jobs_by_conversation_def cron_calm_pool cron_pool_def cron_calm_def
    dest: tl_calm [unfolded cron_calm_def] split: if_splits list.splits)

end
