(* ===== verification/CronJobs.thy ===== *)
theory CronJobs
  imports CronRepository Decimal
begin

text \<open>
  Scheduled jobs: the domain types of \<open>aionui-cron/src/types.rs\<close> with their conversion from and to rows
  and to responses, and the schedules and the timer table of \<open>scheduler.rs\<close>.

  The \<open>cron\<close> and \<open>chrono\<close> crates are the record \<open>cron_lib\<close>: parsing of an expression (or the text of
  the error) and of a time zone, and the next time of a schedule after an instant. JSON printing and
  parsing of an agent configuration is the record \<open>config_json\<close>, an error being its text. Sums of 64-bit times wrap, as in a
  release build.
\<close>

section \<open>Domain types\<close>

datatype cron_error =
    JobNotFound string | InvalidSchedule string | InvalidCronExpression string | InvalidExecutionMode string
  | InvalidCreatedBy string | InvalidJobStatus string | InvalidTimezone string | InvalidSkillContent string
  | InvalidAgentConfig string | SchedulerError string | CronWorkspacePathUnavailable string
  | CronWorkspacePathRuntimeUnavailable string
  | ConversationFailed string \<comment> \<open>an error of the conversation service, as its text\<close>
  | CronDatabase db_error
  | CronJson string

datatype cron_schedule =
    At timestamp_ms "string option"
  | Every int "string option"
  | Cron string "string option" "string option"

datatype execution_mode = Existing | NewConversation

fun execution_mode_str :: "execution_mode \<Rightarrow> string" where
  "execution_mode_str Existing = ''existing''"
| "execution_mode_str NewConversation = ''new_conversation''"

definition execution_mode_from_str :: "string \<Rightarrow> cron_error + execution_mode" where
  "execution_mode_from_str s =
     (if s = ''existing'' then Inr Existing else if s = ''new_conversation'' then Inr NewConversation else Inl (InvalidExecutionMode s))"

datatype created_by = CreatedByUser | CreatedByAgent

fun created_by_str :: "created_by \<Rightarrow> string" where
  "created_by_str CreatedByUser = ''user''"
| "created_by_str CreatedByAgent = ''agent''"

definition created_by_from_str :: "string \<Rightarrow> cron_error + created_by" where
  "created_by_from_str s =
     (if s = ''user'' then Inr CreatedByUser else if s = ''agent'' then Inr CreatedByAgent else Inl (InvalidCreatedBy s))"

datatype job_status = StatusOk | StatusError | StatusSkipped | StatusMissed

fun job_status_str :: "job_status \<Rightarrow> string" where
  "job_status_str StatusOk = ''ok''"
| "job_status_str StatusError = ''error''"
| "job_status_str StatusSkipped = ''skipped''"
| "job_status_str StatusMissed = ''missed''"

definition job_status_from_str :: "string \<Rightarrow> cron_error + job_status" where
  "job_status_from_str s =
     (if s = ''ok'' then Inr StatusOk else if s = ''error'' then Inr StatusError else if s = ''skipped'' then Inr StatusSkipped
      else if s = ''missed'' then Inr StatusMissed else Inl (InvalidJobStatus s))"

record provider_with_model =
  pm_provider_id :: string
  pm_model :: string
  pm_use_model :: "string option"

record cron_agent_config =
  kg_name :: string
  kg_cli_path :: "string option"
  kg_is_preset :: "bool option"
  kg_assistant_id :: "string option"
  kg_custom_agent_id :: "string option"
  kg_mode :: "string option"
  kg_model_id :: "string option"
  kg_model :: "provider_with_model option"
  kg_config_options :: "(string, string) table option"
  kg_workspace :: "string option"

record cron_job =
  jb_id :: id
  jb_name :: string
  jb_enabled :: bool
  jb_schedule :: cron_schedule
  jb_message :: string
  jb_execution_mode :: execution_mode
  jb_agent_config :: "cron_agent_config option"
  jb_conversation_id :: id
  jb_conversation_title :: "string option"
  jb_agent_type :: string
  jb_created_by :: created_by
  jb_skill_content :: "string option"
  jb_description :: "string option"
  jb_created_at :: timestamp_ms
  jb_updated_at :: timestamp_ms
  jb_next_run_at :: "timestamp_ms option"
  jb_last_run_at :: "timestamp_ms option"
  jb_last_status :: "job_status option"
  jb_last_error :: "string option"
  jb_run_count :: int
  jb_retry_count :: int
  jb_max_retries :: int

section \<open>Conversions\<close>

record config_json =
  js_config_to_string :: "cron_agent_config \<Rightarrow> string + string"
  js_config_from_str :: "string \<Rightarrow> string + cron_agent_config"

text \<open>\<open>map(f).transpose()\<close>.\<close>

definition transpose_opt :: "('a \<Rightarrow> 'e + 'b) \<Rightarrow> 'a option \<Rightarrow> 'e + 'b option" where
  "transpose_opt f x = (case x of None \<Rightarrow> Inr None | Some a \<Rightarrow> (case f a of Inl e \<Rightarrow> Inl e | Inr b \<Rightarrow> Inr (Some b)))"

text \<open>The rest of the \<open>?\<close> operator.\<close>

definition bind_ok :: "'e + 'a \<Rightarrow> ('a \<Rightarrow> 'e + 'b) \<Rightarrow> 'e + 'b" where
  "bind_ok x f = (case x of Inl e \<Rightarrow> Inl e | Inr a \<Rightarrow> f a)"

text \<open>The text of a \<open>ParseIntError\<close>: the digits are read from the left, and the first problem is reported.\<close>

fun digits_error :: "bool \<Rightarrow> int \<Rightarrow> string \<Rightarrow> string" where
  "digits_error negative n [] = []"
| "digits_error negative n (c # s) =
     (if \<not> is_digit c then ''invalid digit found in string''
      else let d = int (of_char c) - 48;
               next_n = (if negative then n * 10 - d else n * 10 + d)
           in if \<not> in_i64 (n * 10) \<or> \<not> in_i64 next_n
              then (if negative then ''number too small to fit in target type'' else ''number too large to fit in target type'')
              else digits_error negative next_n s)"

definition parse_int_error :: "string \<Rightarrow> string" where
  "parse_int_error s =
     (case s of
        [] \<Rightarrow> ''cannot parse integer from empty string''
      | c # t \<Rightarrow>
          if (c = CHR ''-'' \<or> c = CHR ''+'') \<and> t = [] then ''invalid digit found in string''
          else if c = CHR ''-'' then digits_error True 0 t
          else if c = CHR ''+'' then digits_error False 0 t
          else digits_error False 0 s)"

definition parse_number :: "string \<Rightarrow> string \<Rightarrow> cron_error + int" where
  "parse_number field value =
     (case parse_i64 value of
        Some n \<Rightarrow> Inr n
      | None \<Rightarrow> Inl (InvalidSchedule (''invalid '' @ field @ '' '' @ [CHR 0x27] @ value @ [CHR 0x27] @ '': '' @ parse_int_error value)))"

definition parse_schedule :: "string \<Rightarrow> string \<Rightarrow> string option \<Rightarrow> string option \<Rightarrow> cron_error + cron_schedule" where
  "parse_schedule kind value tz description =
     (if kind = ''at'' then bind_ok (parse_number ''at_ms'' value) (\<lambda>at_ms. Inr (At at_ms description))
      else if kind = ''every'' then bind_ok (parse_number ''every_ms'' value) (\<lambda>every_ms. Inr (Every every_ms description))
      else if kind = ''cron'' then Inr (Cron value tz description)
      else Inl (InvalidSchedule (''unknown schedule kind: '' @ kind)))"

definition config_from_str :: "config_json \<Rightarrow> string \<Rightarrow> cron_error + cron_agent_config" where
  "config_from_str js s = map_sum CronJson id (js_config_from_str js s)"

definition config_to_string :: "config_json \<Rightarrow> cron_agent_config \<Rightarrow> cron_error + string" where
  "config_to_string js c = map_sum CronJson id (js_config_to_string js c)"

definition cron_job_from_row :: "config_json \<Rightarrow> cron_job_row \<Rightarrow> cron_error + cron_job" where
  "cron_job_from_row js row =
     bind_ok (parse_schedule (kr_schedule_kind row) (kr_schedule_value row) (kr_schedule_tz row) (kr_schedule_description row)) (\<lambda>schedule.
     bind_ok (execution_mode_from_str (kr_execution_mode row)) (\<lambda>mode.
     bind_ok (created_by_from_str (kr_created_by row)) (\<lambda>creator.
     bind_ok (transpose_opt (config_from_str js) (kr_agent_config row)) (\<lambda>config.
     bind_ok (transpose_opt job_status_from_str (kr_last_status row)) (\<lambda>status.
       Inr \<lparr>jb_id = kr_id row, jb_name = kr_name row, jb_enabled = kr_enabled row, jb_schedule = schedule,
            jb_message = kr_payload_message row, jb_execution_mode = mode, jb_agent_config = config,
            jb_conversation_id = kr_conversation_id row, jb_conversation_title = kr_conversation_title row, jb_agent_type = [],
            jb_created_by = creator, jb_skill_content = kr_skill_content row, jb_description = kr_description row,
            jb_created_at = kr_created_at row, jb_updated_at = kr_updated_at row, jb_next_run_at = kr_next_run_at row,
            jb_last_run_at = kr_last_run_at row, jb_last_status = status, jb_last_error = kr_last_error row,
            jb_run_count = kr_run_count row, jb_retry_count = kr_retry_count row, jb_max_retries = kr_max_retries row\<rparr>)))))"

fun schedule_to_row_fields :: "cron_schedule \<Rightarrow> string \<times> string \<times> string option \<times> string option" where
  "schedule_to_row_fields (At at_ms description) = (''at'', decimal_int at_ms, None, description)"
| "schedule_to_row_fields (Every every_ms description) = (''every'', decimal_int every_ms, None, description)"
| "schedule_to_row_fields (Cron expr tz description) = (''cron'', expr, tz, description)"

definition cron_job_to_row :: "config_json \<Rightarrow> cron_job \<Rightarrow> cron_error + cron_job_row" where
  "cron_job_to_row js job =
     (case schedule_to_row_fields (jb_schedule job) of (kind, value, tz, description) \<Rightarrow>
      bind_ok (transpose_opt (config_to_string js) (jb_agent_config job)) (\<lambda>config.
       Inr \<lparr>kr_id = jb_id job, kr_name = jb_name job, kr_enabled = jb_enabled job, kr_schedule_kind = kind, kr_schedule_value = value,
            kr_schedule_tz = tz, kr_schedule_description = description, kr_payload_message = jb_message job,
            kr_execution_mode = execution_mode_str (jb_execution_mode job), kr_agent_config = config,
            kr_conversation_id = jb_conversation_id job, kr_conversation_title = jb_conversation_title job,
            kr_created_by = created_by_str (jb_created_by job), kr_skill_content = jb_skill_content job, kr_description = jb_description job,
            kr_created_at = jb_created_at job, kr_updated_at = jb_updated_at job, kr_next_run_at = jb_next_run_at job,
            kr_last_run_at = jb_last_run_at job, kr_last_status = map_option job_status_str (jb_last_status job),
            kr_last_error = jb_last_error job, kr_run_count = jb_run_count job, kr_retry_count = jb_retry_count job,
            kr_max_retries = jb_max_retries job\<rparr>))"

record cron_job_response =
  rj_id :: id
  rj_name :: string
  rj_description :: "string option"
  rj_enabled :: bool
  rj_schedule :: cron_schedule
  rj_message :: string
  rj_execution_mode :: "string option"
  rj_conversation_id :: id
  rj_conversation_title :: "string option"
  rj_agent_type :: string
  rj_created_by :: string
  rj_created_at :: timestamp_ms
  rj_updated_at :: timestamp_ms
  rj_agent_config :: "cron_agent_config option"
  rj_next_run_at_ms :: "timestamp_ms option"
  rj_last_run_at_ms :: "timestamp_ms option"
  rj_last_status :: "string option"
  rj_last_error :: "string option"
  rj_run_count :: int
  rj_retry_count :: int
  rj_max_retries :: int

definition config_read_dto :: "cron_agent_config \<Rightarrow> cron_agent_config" where
  "config_read_dto c =
     (let canonical = or_else (kg_assistant_id c) (kg_custom_agent_id c);
          assistant_backed = (canonical \<noteq> None)
      in c\<lparr>kg_cli_path := if assistant_backed then None else kg_cli_path c,
           kg_is_preset := if assistant_backed then None else kg_is_preset c,
           kg_assistant_id := canonical,
           kg_custom_agent_id := if assistant_backed then None else kg_custom_agent_id c\<rparr>)"

text \<open>The nested target, metadata and state of the response are flattened; a read DTO has the fields of a configuration.\<close>

definition cron_job_to_response :: "cron_job \<Rightarrow> cron_job_response" where
  "cron_job_to_response job =
     \<lparr>rj_id = jb_id job, rj_name = jb_name job, rj_description = jb_description job, rj_enabled = jb_enabled job,
      rj_schedule = jb_schedule job, rj_message = jb_message job,
      rj_execution_mode = Some (execution_mode_str (jb_execution_mode job)), rj_conversation_id = jb_conversation_id job,
      rj_conversation_title = jb_conversation_title job, rj_agent_type = jb_agent_type job,
      rj_created_by = created_by_str (jb_created_by job), rj_created_at = jb_created_at job, rj_updated_at = jb_updated_at job,
      rj_agent_config = map_option config_read_dto (jb_agent_config job), rj_next_run_at_ms = jb_next_run_at job,
      rj_last_run_at_ms = jb_last_run_at job, rj_last_status = map_option job_status_str (jb_last_status job),
      rj_last_error = jb_last_error job, rj_run_count = jb_run_count job, rj_retry_count = jb_retry_count job,
      rj_max_retries = jb_max_retries job\<rparr>"

section \<open>Schedules\<close>

record ('s, 'z) cron_lib =
  lib_schedule :: "string \<Rightarrow> string + 's"
  lib_timezone :: "string \<Rightarrow> 'z option"
  lib_next_after :: "'s \<Rightarrow> 'z option \<Rightarrow> timestamp_ms \<Rightarrow> timestamp_ms option"

text \<open>\<open>split_whitespace().count()\<close>: the number of maximal runs of other characters; \<open>inside\<close> tells whether one is being read.\<close>

function count_fields :: "bool \<Rightarrow> string \<Rightarrow> nat" where
  "count_fields inside s =
     (if s = [] then 0
      else if white_prefix s \<noteq> 0 then count_fields False (drop (white_prefix s) s)
      else (if inside then 0 else 1) + count_fields True (tl s))"
  by auto
termination by (relation "measure (\<lambda>(inside, s). length s)") auto

declare count_fields.simps [simp del]

definition normalize_cron_expr :: "string \<Rightarrow> string" where
  "normalize_cron_expr expr = (let trimmed = trim expr in if count_fields False trimmed = 5 then ''0 '' @ trimmed else trimmed)"

definition validate_cron_expression :: "('s, 'z) cron_lib \<Rightarrow> string \<Rightarrow> cron_error + 's" where
  "validate_cron_expression lib expr =
     (case lib_schedule lib (normalize_cron_expr expr) of
        Inl e \<Rightarrow> Inl (InvalidCronExpression (expr @ '': '' @ e))
      | Inr s \<Rightarrow> Inr s)"

definition validate_timezone :: "('s, 'z) cron_lib \<Rightarrow> string \<Rightarrow> cron_error + 'z" where
  "validate_timezone lib tz = (case lib_timezone lib tz of None \<Rightarrow> Inl (InvalidTimezone tz) | Some z \<Rightarrow> Inr z)"

definition wrap_i64 :: "int \<Rightarrow> int" where
  "wrap_i64 i = (i + 2 ^ 63) mod 2 ^ 64 - 2 ^ 63"

definition compute_cron_next_run :: "('s, 'z) cron_lib \<Rightarrow> string \<Rightarrow> string option \<Rightarrow> timestamp_ms \<Rightarrow> timestamp_ms option" where
  "compute_cron_next_run lib expr tz now =
     (case lib_schedule lib (normalize_cron_expr expr) of
        Inl _ \<Rightarrow> None
      | Inr schedule \<Rightarrow>
          (case tz of
             Some tz_str \<Rightarrow>
               (case lib_timezone lib tz_str of None \<Rightarrow> None | Some z \<Rightarrow> lib_next_after lib schedule (Some z) now)
           | None \<Rightarrow> lib_next_after lib schedule None now))"

fun compute_next_run :: "('s, 'z) cron_lib \<Rightarrow> cron_schedule \<Rightarrow> timestamp_ms \<Rightarrow> timestamp_ms option" where
  "compute_next_run lib (At at_ms _) now = Some at_ms"
| "compute_next_run lib (Every every_ms _) now = (if every_ms \<le> 0 then None else Some (wrap_i64 (now + every_ms)))"
| "compute_next_run lib (Cron expr tz _) now = compute_cron_next_run lib expr tz now"

fun validate_schedule :: "('s, 'z) cron_lib \<Rightarrow> cron_schedule \<Rightarrow> cron_error + unit" where
  "validate_schedule lib (At _ _) = Inr ()"
| "validate_schedule lib (Every every_ms _) = (if every_ms \<le> 0 then Inl (InvalidSchedule ''every_ms must be positive'') else Inr ())"
| "validate_schedule lib (Cron expr tz _) =
     (if blank expr then Inr ()
      else bind_ok (validate_cron_expression lib expr) (\<lambda>_.
        case tz of None \<Rightarrow> Inr () | Some tz_str \<Rightarrow> bind_ok (validate_timezone lib tz_str) (\<lambda>_. Inr ())))"

section \<open>Timers\<close>

text \<open>
  The table of spawned timers. A timer holds its schedule and when it fires next; \<open>None\<close> when its
  task has ended, which leaves its handle in the table.
\<close>

record cron_timer =
  kt_schedule :: cron_schedule
  kt_due :: "timestamp_ms option"

type_synonym timers = "(id, cron_timer) table"

definition cancel_job :: "id \<Rightarrow> timers \<Rightarrow> timers" where
  "cancel_job i ts = AList.delete i ts"

definition schedule_job :: "cron_job \<Rightarrow> timers \<Rightarrow> timers" where
  "schedule_job job ts =
     (let ts1 = cancel_job (jb_id job) ts
      in if \<not> jb_enabled job then ts1
         else case jb_next_run_at job of
             None \<Rightarrow> ts1
           | Some next_run_at \<Rightarrow> AList.update (jb_id job) \<lparr>kt_schedule = jb_schedule job, kt_due = Some next_run_at\<rparr> ts1)"

definition reschedule_job :: "cron_job \<Rightarrow> timers \<Rightarrow> timers" where
  "reschedule_job = schedule_job"

definition cancel_all :: "timers \<Rightarrow> timers" where
  "cancel_all ts = []"

definition active_timers :: "timers \<Rightarrow> nat" where
  "active_timers ts = length ts"

definition is_scheduled :: "id \<Rightarrow> timers \<Rightarrow> bool" where
  "is_scheduled i ts \<longleftrightarrow> map_of ts i \<noteq> None"

text \<open>The timer tasks after they have called the callback at \<open>now\<close>.\<close>

fun timer_next :: "('s, 'z) cron_lib \<Rightarrow> timestamp_ms \<Rightarrow> cron_schedule \<Rightarrow> timestamp_ms option" where
  "timer_next lib now (At _ _) = None"
| "timer_next lib now (Every every_ms _) = Some (now + every_ms)"
| "timer_next lib now (Cron expr tz _) = compute_cron_next_run lib expr tz now"

definition fire_timer :: "('s, 'z) cron_lib \<Rightarrow> timestamp_ms \<Rightarrow> id \<Rightarrow> timers \<Rightarrow> timers option" where
  "fire_timer lib now i ts =
     (case map_of ts i of
        Some tm \<Rightarrow>
          (case kt_due tm of
             Some due \<Rightarrow>
               if due \<le> now then Some (AList.update i (tm\<lparr>kt_due := timer_next lib now (kt_schedule tm)\<rparr>) ts) else None
           | None \<Rightarrow> None)
      | None \<Rightarrow> None)"

section \<open>Round trips\<close>

lemma bind_ok_simps [simp]: "bind_ok (Inr a) f = f a" "bind_ok (Inl e) f = Inl e"
  by (simp_all add: bind_ok_def)

lemma bind_ok_Inr: "bind_ok x f = Inr b \<longleftrightarrow> (\<exists>a. x = Inr a \<and> f a = Inr b)"
  by (cases x) (auto simp: bind_ok_def)

lemma transpose_simps [simp]: "transpose_opt f None = Inr None" "transpose_opt f (Some a) = bind_ok (f a) (\<lambda>b. Inr (Some b))"
  by (simp_all add: transpose_opt_def bind_ok_def)

lemma enum_round_trips [simp]:
  "execution_mode_from_str (execution_mode_str m) = Inr m" "created_by_from_str (created_by_str c) = Inr c"
  "job_status_from_str (job_status_str s) = Inr s"
  subgoal by (cases m) (simp_all add: execution_mode_from_str_def)
  subgoal by (cases c) (simp_all add: created_by_from_str_def)
  subgoal by (cases s) (simp_all add: job_status_from_str_def)
  done

lemma enums_parse:
  "(\<exists>m. execution_mode_from_str x = Inr m) \<longleftrightarrow> x \<in> {''existing'', ''new_conversation''}"
  "(\<exists>c. created_by_from_str x = Inr c) \<longleftrightarrow> x \<in> {''user'', ''agent''}"
  "(\<exists>s. job_status_from_str x = Inr s) \<longleftrightarrow> x \<in> {''ok'', ''error'', ''skipped'', ''missed''}"
  by (auto simp: execution_mode_from_str_def created_by_from_str_def job_status_from_str_def)

text \<open>The 64-bit values of a schedule are in range.\<close>

fun schedule_in_range :: "cron_schedule \<Rightarrow> bool" where
  "schedule_in_range (At at_ms _) = in_i64 at_ms"
| "schedule_in_range (Every every_ms _) = in_i64 every_ms"
| "schedule_in_range (Cron _ _ _) = True"

lemma schedule_round_trip:
  assumes "schedule_in_range s" "schedule_to_row_fields s = (kind, value, tz, description)"
  shows "parse_schedule kind value tz description = Inr s" "kind \<in> {''at'', ''every'', ''cron''}"
  using assms by (cases s; auto simp: parse_schedule_def parse_number_def parse_decimal_int)+

lemma parsed_schedule_in_range: "parse_schedule kind value tz description = Inr s \<Longrightarrow> schedule_in_range s"
  by (auto simp: parse_schedule_def parse_number_def parse_i64_def bind_ok_Inr Let_def split: if_splits option.splits prod.splits)

end
