(* ===== verification/CronExecutor.thy ===== *)
theory CronExecutor
  imports CronJobs TurnPolicy Json
begin

text \<open>
  The executor of scheduled jobs, \<open>aionui-cron/src/executor.rs\<close> with the prompts of \<open>prompt.rs\<close>: which
  conversation a job runs in, its workspace and skill, the busy check, the turn and the result; the
  binding of a job in the \<open>extra\<close> document of a conversation.

  What the executor calls outside the crate is the record \<open>cron_ports\<close>, over the rest of the process
  \<open>'w\<close>: the clock, the conversation repository and service, the claims of the runtime, the skill files,
  the file system, the agent registry, and for the service the assistants. A failure of the conversation
  service keeps the variants that cron tells apart.
\<close>

section \<open>Types and ports\<close>

datatype execution_result =
    ExecutionSuccess id
  | ExecutionRetrying int
  | ExecutionSkipped
  | ExecutionError string

record saved_skill_context =
  ss_name :: string
  ss_raw_content :: string

record prepared_execution =
  pe_conversation_id :: id
  pe_saved_skill :: "saved_skill_context option"

datatype prepared_run_now = RunReady prepared_execution | RunAlreadyRunning id

datatype conversation_purpose = NewConversationExecution | ExistingReplacement

datatype conversation_failure =
    ConversationBusy string
  | ConversationWorkspace string
  | ConversationWorkspaceRuntime string
  | ConversationOther string \<comment> \<open>any other error, as its text\<close>

fun conversation_failure_text :: "conversation_failure \<Rightarrow> string" where
  "conversation_failure_text (ConversationBusy reason) = ''Conversation is busy: '' @ reason"
| "conversation_failure_text (ConversationWorkspace path) = ''Workspace path is unavailable: '' @ path"
| "conversation_failure_text (ConversationWorkspaceRuntime path) = ''Workspace path is unavailable during execution: '' @ path"
| "conversation_failure_text (ConversationOther m) = m"

record cron_conversation_row =
  cv_user_id :: id
  cv_name :: string
  cv_type :: string
  cv_extra :: string

record create_conversation_request =
  cc_type :: "agent_type option"
  cc_name :: string
  cc_model :: "provider_with_model option"
  cc_assistant :: "id option"
  cc_extra :: json

record agent_turn_request =
  tq_user_id :: id
  tq_conversation_id :: id
  tq_content :: string
  tq_inject_skills :: "string list"
  tq_required_runtime_mode :: "string option"
  tq_trigger :: cron_job \<comment> \<open>the job whose trigger artifact is stored when the turn starts\<close>

record agent_turn_outcome =
  to_turn_id :: id
  to_failed :: bool
  to_error_message :: "string option"

record cron_agent_config_write =
  wd_name :: string
  wd_cli_path :: "string option"
  wd_assistant_id :: "id option"
  wd_mode :: "string option"
  wd_model_id :: "string option"
  wd_model :: "provider_with_model option"
  wd_config_options :: "(string, string) table option"
  wd_workspace :: "string option"

record 'w cron_ports =
  cp_now :: "'w \<Rightarrow> timestamp_ms \<times> 'w"
  cp_parse :: "string \<Rightarrow> string + json"
  cp_print :: "json \<Rightarrow> string"
  cp_conversation :: "id \<Rightarrow> 'w \<Rightarrow> (db_error + cron_conversation_row option) \<times> 'w"
  cp_update_extra :: "id \<Rightarrow> string \<Rightarrow> timestamp_ms \<Rightarrow> 'w \<Rightarrow> (db_error + unit) \<times> 'w"
  cp_insert_tips :: "id \<Rightarrow> string \<Rightarrow> timestamp_ms \<Rightarrow> 'w \<Rightarrow> (db_error + unit) \<times> 'w"
  cp_mark_suggest_saved :: "id \<Rightarrow> 'w \<Rightarrow> (cron_error + unit) \<times> 'w"
  cp_claimed :: "id \<Rightarrow> 'w \<Rightarrow> bool"
  cp_create_conversation :: "id \<Rightarrow> create_conversation_request \<Rightarrow> 'w \<Rightarrow> (conversation_failure + id \<times> json) \<times> 'w"
  cp_run_turn :: "agent_turn_request \<Rightarrow> 'w \<Rightarrow> (conversation_failure + agent_turn_outcome) \<times> 'w"
  cp_latest_error :: "id \<Rightarrow> 'w \<Rightarrow> (conversation_failure + string option) \<times> 'w"
  cp_save_mode :: "id \<Rightarrow> string \<Rightarrow> 'w \<Rightarrow> (conversation_failure + unit) \<times> 'w"
  cp_auto_workspace :: "cron_conversation_row \<Rightarrow> id \<Rightarrow> 'w \<Rightarrow> string option"
  cp_same_path :: "string \<Rightarrow> string \<Rightarrow> 'w \<Rightarrow> bool"
  cp_workspace_error :: "string \<Rightarrow> 'w \<Rightarrow> string option"
  cp_fallback_workspace :: "agent_type \<Rightarrow> id \<Rightarrow> 'w \<Rightarrow> (string + string) \<times> 'w"
  cp_read_skill :: "id \<Rightarrow> 'w \<Rightarrow> (cron_error + string option) \<times> 'w"
  cp_write_raw_skill :: "id \<Rightarrow> string \<Rightarrow> 'w \<Rightarrow> (cron_error + unit) \<times> 'w"
  cp_write_skill :: "id \<Rightarrow> string \<Rightarrow> string \<Rightarrow> string \<Rightarrow> string option \<Rightarrow> 'w \<Rightarrow> (cron_error + unit) \<times> 'w"
  cp_delete_skill :: "id \<Rightarrow> 'w \<Rightarrow> (cron_error + unit) \<times> 'w"
  cp_has_skill :: "id \<Rightarrow> 'w \<Rightarrow> (cron_error + bool) \<times> 'w"
  cp_schedule_check :: "id \<Rightarrow> id \<Rightarrow> string \<Rightarrow> 'w \<Rightarrow> 'w"
  cp_builtin_backend :: "string \<Rightarrow> 'w \<Rightarrow> (id \<times> string option) option"
  cp_definition :: "id \<Rightarrow> 'w \<Rightarrow> (db_error + (id \<times> id) option) \<times> 'w"
  cp_overlay :: "id \<Rightarrow> 'w \<Rightarrow> (db_error + id option) \<times> 'w"
  cp_backend :: "id \<Rightarrow> 'w \<Rightarrow> (db_error + string) \<times> 'w"
  cp_full_auto_mode :: "string \<Rightarrow> string \<Rightarrow> string \<Rightarrow> 'w \<Rightarrow> (cron_error + string) \<times> 'w"
  cp_new_id :: "'w \<Rightarrow> id \<times> 'w"
  cp_conversation_config :: "id \<Rightarrow> cron_conversation_row \<Rightarrow> 'w \<Rightarrow> (string \<times> cron_agent_config_write option) \<times> 'w"

text \<open>
  \<open>cp_workspace_error\<close> is the path that \<open>validate_workspace_path_availability\<close> rejects, nothing for an empty
  or usable one; \<open>cp_fallback_workspace\<close> creates the directory of a conversation and returns it;
  \<open>cp_definition\<close> gives the key and the agent of an assistant, \<open>cp_overlay\<close> its override of the agent;
  \<open>cp_full_auto_mode\<close> is \<open>resolve_cron_full_auto_mode\<close> and \<open>cp_conversation_config\<close> is \<open>build_agent_config_from_conversation\<close>,
  which read the agent metadata.
\<close>

section \<open>Errors\<close>

fun db_error_text :: "db_error \<Rightarrow> string" where
  "db_error_text (DbQuery m) = ''Database query failed: '' @ m"
| "db_error_text (DbMigration m) = ''Migration failed: '' @ m"
| "db_error_text (DbNotFound m) = ''Record not found: '' @ m"
| "db_error_text (DbConflict m) = ''Duplicate record: '' @ m"
| "db_error_text (DbInit m) = ''Database initialization failed: '' @ m"

fun cron_error_text :: "cron_error \<Rightarrow> string" where
  "cron_error_text (JobNotFound m) = ''Cron job not found: '' @ m"
| "cron_error_text (InvalidSchedule m) = ''Invalid schedule: '' @ m"
| "cron_error_text (InvalidCronExpression m) = ''Invalid cron expression: '' @ m"
| "cron_error_text (InvalidExecutionMode m) = ''Invalid execution mode: '' @ m"
| "cron_error_text (InvalidCreatedBy m) = ''Invalid created-by value: '' @ m"
| "cron_error_text (InvalidJobStatus m) = ''Invalid job status: '' @ m"
| "cron_error_text (InvalidTimezone m) = ''Invalid timezone: '' @ m"
| "cron_error_text (InvalidSkillContent m) = ''Invalid skill content: '' @ m"
| "cron_error_text (InvalidAgentConfig m) = ''Invalid agent config: '' @ m"
| "cron_error_text (SchedulerError m) = ''Scheduler error: '' @ m"
| "cron_error_text (CronWorkspacePathUnavailable m) = ''Workspace path is unavailable: '' @ m"
| "cron_error_text (CronWorkspacePathRuntimeUnavailable m) = ''Workspace path is unavailable during execution: '' @ m"
| "cron_error_text (ConversationFailed m) = m"
| "cron_error_text (CronDatabase e) = db_error_text e"
| "cron_error_text (CronJson m) = ''JSON error: '' @ m"

fun from_conversation_create :: "conversation_failure \<Rightarrow> cron_error" where
  "from_conversation_create (ConversationWorkspace path) = CronWorkspacePathUnavailable path"
| "from_conversation_create (ConversationWorkspaceRuntime path) = CronWorkspacePathRuntimeUnavailable path"
| "from_conversation_create other = SchedulerError (''create conversation: '' @ conversation_failure_text other)"

definition on_error :: "('e \<Rightarrow> 'f) \<Rightarrow> ('e + 'a) \<times> 'w \<Rightarrow> ('f + 'a) \<times> 'w" where
  "on_error f r = (map_sum f id (fst r), snd r)"

definition from_conversation :: "conversation_failure \<Rightarrow> cron_error" where
  "from_conversation e = ConversationFailed (conversation_failure_text e)"

section \<open>Prompts\<close>

definition newline_str :: string where
  "newline_str = [CHR 0x0A]"

definition em_dash :: string where
  "em_dash = [CHR 0xE2, CHR 0x80, CHR 0x94]"

definition build_existing_conversation_prompt :: "string \<Rightarrow> string \<Rightarrow> string \<Rightarrow> string" where
  "build_existing_conversation_prompt task_name schedule_desc user_prompt =
     ''[Scheduled Task Execution]'' @ newline_str @ ''Task: '' @ task_name @ newline_str @ ''Schedule: '' @ schedule_desc @
     newline_str @ newline_str @ ''This message is NOT a conversation from the user '' @ em_dash @
     '' it is a scheduled task triggered automatically.'' @ newline_str @
     ''The text below is a TASK INSTRUCTION that you must execute, not something the user is saying to you.'' @ newline_str @
     newline_str @ ''Rules:'' @ newline_str @
     ''1. Treat the instruction as a command to perform, not as a chat message to respond to.'' @ newline_str @
     ''2. Execute it directly '' @ em_dash @ '' do NOT ask clarifying questions.'' @ newline_str @
     ''3. If the task requires external data (news, weather, etc.), search for the latest information.'' @ newline_str @ newline_str @
     ''Task instruction:'' @ newline_str @ user_prompt"

definition build_new_conversation_with_skill_prompt :: "string \<Rightarrow> string \<Rightarrow> string" where
  "build_new_conversation_with_skill_prompt task_name user_prompt =
     ''[Scheduled Task Context]'' @ newline_str @ ''Task: '' @ task_name @ newline_str @ newline_str @
     ''This is a scheduled task execution. A skill file with detailed instructions has been loaded'' @ newline_str @
     ''into your workspace. You MUST read and follow the skill instructions precisely.'' @ newline_str @ newline_str @ ''Rules:'' @
     newline_str @ ''1. Execute the task directly '' @ em_dash @ '' do NOT ask clarifying questions.'' @ newline_str @
     ''2. Follow the output format, tone, sources, and steps defined in the skill.'' @ newline_str @
     ''3. If the task requires external data (news, weather, etc.), search for the latest information.'' @ newline_str @
     ''[/Scheduled Task Context]'' @ newline_str @ newline_str @ user_prompt"

definition build_new_conversation_prompt_with_skill_suggest :: "string \<Rightarrow> string \<Rightarrow> string \<Rightarrow> string" where
  "build_new_conversation_prompt_with_skill_suggest task_name schedule_desc user_prompt =
     ''[Scheduled Task Context]'' @ newline_str @ ''Task: '' @ task_name @ newline_str @ ''Schedule: '' @ schedule_desc @
     newline_str @ newline_str @ ''Rules:'' @ newline_str @ ''1. Execute the task directly '' @ em_dash @
     '' do NOT ask clarifying questions.'' @ newline_str @ ''2. Focus on producing useful, actionable output.'' @ newline_str @
     ''3. If the task requires external data (news, weather, etc.), search for the latest information.'' @ newline_str @
     ''4. After completing the task above, create a file named '' @ [CHR 0x22] @ ''SKILL_SUGGEST.md'' @ [CHR 0x22] @
     '' in the current working directory (see instructions at the end).'' @ newline_str @ ''[/Scheduled Task Context]'' @
     newline_str @ newline_str @ user_prompt @ newline_str @ newline_str @ ''---'' @ newline_str @ newline_str @
     ''[Post-Task] After you have fully completed the task above, create a file named '' @ [CHR 0x22] @ ''SKILL_SUGGEST.md'' @
     [CHR 0x22] @ '' in the current working directory to help future runs stay consistent. The file should follow this format:'' @
     newline_str @ newline_str @ ''```markdown'' @ newline_str @ ''---'' @ newline_str @
     ''name: <short kebab-case name, e.g. daily-greeting>'' @ newline_str @
     ''description: <one-line description of what this task does>'' @ newline_str @ ''---'' @ newline_str @ newline_str @
     ''<Instructions capturing the pattern you used: output format, tone, sources checked, steps taken, quality criteria. Use concrete details from this execution, not placeholders.>'' @
     newline_str @ ''```'' @ newline_str @ newline_str @
     ''If you think the task is too simple or one-off to benefit from a skill file, you can skip this step.''"

fun schedule_description_text :: "cron_schedule \<Rightarrow> string" where
  "schedule_description_text (At at_ms description) =
     (case description of Some d \<Rightarrow> d | None \<Rightarrow> ''At '' @ decimal_int at_ms)"
| "schedule_description_text (Every every_ms description) =
     (case description of Some d \<Rightarrow> d | None \<Rightarrow> ''Every '' @ decimal_int every_ms @ '' ms'')"
| "schedule_description_text (Cron expr tz description) =
     (case description of Some d \<Rightarrow> d
      | None \<Rightarrow> (case tz of Some z \<Rightarrow> expr @ '' ('' @ z @ '')'' | None \<Rightarrow> expr))"

definition build_prompt :: "cron_job \<Rightarrow> saved_skill_context option \<Rightarrow> string" where
  "build_prompt job saved_skill =
     (case jb_execution_mode job of
        Existing \<Rightarrow> build_existing_conversation_prompt (jb_name job) (schedule_description_text (jb_schedule job)) (jb_message job)
      | NewConversation \<Rightarrow>
          if saved_skill \<noteq> None then build_new_conversation_with_skill_prompt (jb_name job) (jb_message job)
          else build_new_conversation_prompt_with_skill_suggest (jb_name job) (schedule_description_text (jb_schedule job)) (jb_message job))"

section \<open>Conversations\<close>

definition get_conversation_row :: "'w cron_ports \<Rightarrow> id \<Rightarrow> 'w \<Rightarrow> (cron_error + cron_conversation_row option) \<times> 'w" where
  "get_conversation_row p c w = on_error CronDatabase (cp_conversation p c w)"

definition conversation_exists :: "'w cron_ports \<Rightarrow> id \<Rightarrow> 'w \<Rightarrow> (cron_error + bool) \<times> 'w" where
  "conversation_exists p c w = and_then (get_conversation_row p c w) (\<lambda>row w. (Inr (row \<noteq> None), w))"

definition auto_workspace_to_delete_for_conversation :: "'w cron_ports \<Rightarrow> id \<Rightarrow> 'w \<Rightarrow> (cron_error + string option) \<times> 'w" where
  "auto_workspace_to_delete_for_conversation p c w =
     and_then (get_conversation_row p c w) (\<lambda>row w.
       (Inr (case row of None \<Rightarrow> None | Some r \<Rightarrow> cp_auto_workspace p r c w), w))"

text \<open>The \<open>extra\<close> document of a row, with a default where it does not parse.\<close>

definition extra_or :: "'w cron_ports \<Rightarrow> json \<Rightarrow> cron_conversation_row \<Rightarrow> json" where
  "extra_or p d row = (case cp_parse p (cv_extra row) of Inl _ \<Rightarrow> d | Inr j \<Rightarrow> j)"

definition update_extra :: "'w cron_ports \<Rightarrow> id \<Rightarrow> (string \<times> json) list \<Rightarrow> 'w \<Rightarrow> (cron_error + unit) \<times> 'w" where
  "update_extra p c obj w =
     (case cp_now p w of (now, w) \<Rightarrow> on_error CronDatabase (cp_update_extra p c (cp_print p (JObject obj)) now w))"

definition trimmed_some :: "string option \<Rightarrow> string option" where
  "trimmed_some v = (case v of None \<Rightarrow> None | Some s \<Rightarrow> if trim s = [] then None else Some (trim s))"

definition non_blank :: "string option \<Rightarrow> string option" where
  "non_blank v = (case v of None \<Rightarrow> None | Some s \<Rightarrow> if blank s then None else Some s)"

fun serde_name :: "agent_type \<Rightarrow> string" where
  "serde_name AtAcp = ''acp''"
| "serde_name AtOpenclawGateway = ''openclaw-gateway''"
| "serde_name AtNanobot = ''nanobot''"
| "serde_name AtRemote = ''remote''"
| "serde_name AtAionrs = ''aionrs''"
| "serde_name AtGemini = ''gemini''"
| "serde_name AtCodex = ''codex''"

definition supports_new_conversation :: "agent_type \<Rightarrow> bool" where
  "supports_new_conversation a \<longleftrightarrow> a = AtAcp \<or> a = AtAionrs"

definition is_deprecated_runtime :: "agent_type \<Rightarrow> bool" where
  "is_deprecated_runtime a \<longleftrightarrow> \<not> supports_new_conversation a"

definition bound_job :: "json \<Rightarrow> id option" where
  "bound_job extra = or_else (get_str ''cron_job_id'' extra) (get_str ''cronJobId'' extra)"

definition bind_cron_job_to_conversation ::
  "'w cron_ports \<Rightarrow> id \<Rightarrow> id \<Rightarrow> string option \<Rightarrow> 'w \<Rightarrow> (cron_error + unit) \<times> 'w" where
  "bind_cron_job_to_conversation p c job_id session_mode w =
     and_then (get_conversation_row p c w) (\<lambda>row w.
       case row of
         None \<Rightarrow> (Inr (), w)
       | Some r \<Rightarrow>
           let obj = (case as_object (extra_or p (JObject []) r) of Some m \<Rightarrow> m | None \<Rightarrow> [])
           in and_then
               (if bound_job (JObject obj) \<noteq> Some job_id
                then update_extra p c (AList.update ''cronJobId'' (JString job_id) (AList.update ''cron_job_id'' (JString job_id) obj)) w
                else (Inr (), w))
               (\<lambda>_ w. case trimmed_some session_mode of
                        Some mode \<Rightarrow> if cv_type r = serde_name AtAcp then on_error from_conversation (cp_save_mode p c mode w) else (Inr (), w)
                      | None \<Rightarrow> (Inr (), w)))"

definition unbind_cron_job_from_conversation :: "'w cron_ports \<Rightarrow> id \<Rightarrow> id \<Rightarrow> 'w \<Rightarrow> (cron_error + unit) \<times> 'w" where
  "unbind_cron_job_from_conversation p c job_id w =
     and_then (get_conversation_row p c w) (\<lambda>row w.
       case row of
         None \<Rightarrow> (Inr (), w)
       | Some r \<Rightarrow>
           (case as_object (extra_or p (JObject []) r) of
              None \<Rightarrow> (Inr (), w)
            | Some obj \<Rightarrow>
                let snake_matches = (get_str ''cron_job_id'' (JObject obj) = Some job_id);
                    camel_matches = (get_str ''cronJobId'' (JObject obj) = Some job_id);
                    obj1 = (if snake_matches then AList.delete ''cron_job_id'' obj else obj);
                    obj2 = (if camel_matches then AList.delete ''cronJobId'' obj1 else obj1)
                in if \<not> snake_matches \<and> \<not> camel_matches then (Inr (), w) else update_extra p c obj2 w))"

definition persist_workspace_if_missing :: "'w cron_ports \<Rightarrow> id \<Rightarrow> string \<Rightarrow> 'w \<Rightarrow> (cron_error + unit) \<times> 'w" where
  "persist_workspace_if_missing p c resolved w =
     (let workspace = trim resolved
      in if workspace = [] then (Inr (), w)
         else and_then (get_conversation_row p c w) (\<lambda>row w.
           case row of
             None \<Rightarrow> (Inr (), w)
           | Some r \<Rightarrow>
               (case as_object (extra_or p (JObject []) r) of
                  None \<Rightarrow> update_extra p c [(''workspace'', JString workspace)] w
                | Some obj \<Rightarrow>
                    if trimmed_some (get_str ''workspace'' (JObject obj)) \<noteq> None then (Inr (), w)
                    else update_extra p c (AList.update ''workspace'' (JString workspace) obj) w)))"

definition insert_tips_message :: "'w cron_ports \<Rightarrow> id \<Rightarrow> string \<Rightarrow> 'w \<Rightarrow> (cron_error + unit) \<times> 'w" where
  "insert_tips_message p c content w =
     (case cp_now p w of (now, w) \<Rightarrow> on_error CronDatabase (cp_insert_tips p c content now w))"

section \<open>Workspaces and skills\<close>

definition resolve_execution_workspace_raw :: "'w cron_ports \<Rightarrow> cron_job \<Rightarrow> id \<Rightarrow> 'w \<Rightarrow> (cron_error + string) \<times> 'w" where
  "resolve_execution_workspace_raw p job c w =
     (case Option.bind (jb_agent_config job) kg_workspace of
        Some workspace \<Rightarrow> (Inr workspace, w)
      | None \<Rightarrow>
          and_then (get_conversation_row p c w) (\<lambda>row w.
            (Inr (case row of
                    None \<Rightarrow> []
                  | Some r \<Rightarrow> (case get_str ''workspace'' (extra_or p JNull r) of Some s \<Rightarrow> s | None \<Rightarrow> [])), w)))"

definition resolve_execution_workspace :: "'w cron_ports \<Rightarrow> cron_job \<Rightarrow> id \<Rightarrow> 'w \<Rightarrow> (cron_error + string) \<times> 'w" where
  "resolve_execution_workspace p job c w =
     and_then (resolve_execution_workspace_raw p job c w) (\<lambda>workspace w. (Inr (trim workspace), w))"

definition resolve_job_workspace_raw :: "'w cron_ports \<Rightarrow> cron_job \<Rightarrow> 'w \<Rightarrow> (cron_error + string) \<times> 'w" where
  "resolve_job_workspace_raw p job = resolve_execution_workspace_raw p job (jb_conversation_id job)"

definition validate_runtime_job_workspace :: "'w cron_ports \<Rightarrow> cron_job \<Rightarrow> 'w \<Rightarrow> (cron_error + unit) \<times> 'w" where
  "validate_runtime_job_workspace p job w =
     and_then (resolve_job_workspace_raw p job w) (\<lambda>workspace w.
       (case cp_workspace_error p workspace w of None \<Rightarrow> Inr () | Some path \<Rightarrow> Inl (CronWorkspacePathRuntimeUnavailable path), w))"

fun contains_dots :: "string \<Rightarrow> bool" where
  "contains_dots (a # b # s) \<longleftrightarrow> a = CHR ''.'' \<and> b = CHR ''.'' \<or> contains_dots (b # s)"
| "contains_dots _ \<longleftrightarrow> False"

definition validate_job_id :: "id \<Rightarrow> cron_error + unit" where
  "validate_job_id job_id =
     (if job_id = [] \<or> CHR ''/'' \<in> set job_id \<or> CHR 0x5C \<in> set job_id \<or> contains_dots job_id
      then Inl (InvalidSkillContent (''invalid cron job id: '' @ job_id)) else Inr ())"

definition cron_skill_name :: "id \<Rightarrow> cron_error + string" where
  "cron_skill_name job_id = bind_ok (validate_job_id job_id) (\<lambda>_. Inr (''cron-'' @ job_id))"

fun schedule_description_ref :: "cron_schedule \<Rightarrow> string option" where
  "schedule_description_ref (At _ description) = description"
| "schedule_description_ref (Every _ description) = description"
| "schedule_description_ref (Cron _ _ description) = description"

text \<open>\<open>persist_legacy_skill_file\<close> here is \<open>persist_skill_file\<close> of the service too.\<close>

definition persist_legacy_skill_file :: "'w cron_ports \<Rightarrow> cron_job \<Rightarrow> string \<Rightarrow> 'w \<Rightarrow> (cron_error + unit) \<times> 'w" where
  "persist_legacy_skill_file p job raw_content w =
     (case cp_write_raw_skill p (jb_id job) raw_content w of
        (Inl (InvalidSkillContent _), w) \<Rightarrow>
          cp_write_skill p (jb_id job) (jb_name job)
            (case jb_description job of Some d \<Rightarrow> d | None \<Rightarrow> ''Saved cron skill for '' @ jb_name job)
            (trim raw_content) (schedule_description_ref (jb_schedule job)) w
      | r \<Rightarrow> r)"

definition prepare_saved_skill :: "'w cron_ports \<Rightarrow> cron_job \<Rightarrow> 'w \<Rightarrow> (cron_error + saved_skill_context option) \<times> 'w" where
  "prepare_saved_skill p job w =
     (let context = (\<lambda>raw. bind_ok (cron_skill_name (jb_id job)) (\<lambda>name. Inr (Some \<lparr>ss_name = name, ss_raw_content = raw\<rparr>)))
      in and_then (cp_read_skill p (jb_id job) w) (\<lambda>stored w.
           case non_blank stored of
             Some raw \<Rightarrow> (context raw, w)
           | None \<Rightarrow>
               (case trimmed_some (jb_skill_content job) of
                  None \<Rightarrow> (Inr None, w)
                | Some legacy \<Rightarrow>
                    and_then (persist_legacy_skill_file p job legacy w) (\<lambda>_ w.
                    and_then (cp_read_skill p (jb_id job) w) (\<lambda>written w.
                      (context (case written of Some raw \<Rightarrow> raw | None \<Rightarrow> legacy), w))))))"

definition load_conversation_skill_names :: "'w cron_ports \<Rightarrow> id \<Rightarrow> 'w \<Rightarrow> (cron_error + string list) \<times> 'w" where
  "load_conversation_skill_names p c w =
     and_then (get_conversation_row p c w) (\<lambda>row w.
       (Inr (case row of
               None \<Rightarrow> []
             | Some r \<Rightarrow>
                 (case json_get ''skills'' (extra_or p JNull r) of
                    Some (JArray items) \<Rightarrow> List.map_filter as_str items
                  | _ \<Rightarrow> [])), w))"

definition resolve_task_skill_names ::
  "'w cron_ports \<Rightarrow> cron_job \<Rightarrow> id \<Rightarrow> saved_skill_context option \<Rightarrow> 'w \<Rightarrow> (cron_error + string list) \<times> 'w" where
  "resolve_task_skill_names p job c saved_skill w =
     (case jb_execution_mode job of
        Existing \<Rightarrow> load_conversation_skill_names p c w
      | NewConversation \<Rightarrow> (Inr (case saved_skill of Some s \<Rightarrow> [ss_name s] | None \<Rightarrow> []), w))"

section \<open>The conversation of a job\<close>

definition agent_type_from_serde :: "string \<Rightarrow> agent_type option" where
  "agent_type_from_serde s =
     List.find (\<lambda>a. serde_name a = s) [AtAcp, AtOpenclawGateway, AtNanobot, AtRemote, AtAionrs, AtGemini, AtCodex]"

definition parse_agent_type :: "string \<Rightarrow> cron_error + agent_type" where
  "parse_agent_type s =
     (case agent_type_from_serde s of
        Some a \<Rightarrow>
          if is_deprecated_runtime a
          then Inl (InvalidAgentConfig ''This agent type is no longer supported for new conversations.'') else Inr a
      | None \<Rightarrow> Inr AtAcp)"

definition resolve_model :: "cron_job \<Rightarrow> provider_with_model option" where
  "resolve_model job = (if jb_agent_type job \<noteq> ''aionrs'' then None else Option.bind (jb_agent_config job) kg_model)"

definition build_assistant_request :: "cron_job \<Rightarrow> id option" where
  "build_assistant_request job =
     Option.bind (jb_agent_config job) (\<lambda>c. or_else (non_blank (kg_assistant_id c)) (non_blank (kg_custom_agent_id c)))"

definition inject_agent_identity :: "'w cron_ports \<Rightarrow> cron_job \<Rightarrow> 'w \<Rightarrow> (string \<times> json) list \<Rightarrow> (string \<times> json) list" where
  "inject_agent_identity p job w extra =
     (let label = trim (jb_agent_type job)
      in if label = [] then extra
         else case cp_builtin_backend p label w of
             None \<Rightarrow> extra
           | Some (agent_id, backend) \<Rightarrow>
               (let extra1 = AList.update ''agent_id'' (JString agent_id) extra
                in case backend of None \<Rightarrow> extra1 | Some b \<Rightarrow> AList.update ''backend'' (JString b) extra1))"

definition put_str :: "string \<Rightarrow> string option \<Rightarrow> (string \<times> json) list \<Rightarrow> (string \<times> json) list" where
  "put_str k v m = (case v of None \<Rightarrow> m | Some s \<Rightarrow> AList.update k (JString s) m)"

definition build_conversation_extra ::
  "'w cron_ports \<Rightarrow> cron_job \<Rightarrow> saved_skill_context option \<Rightarrow> conversation_purpose \<Rightarrow> 'w \<Rightarrow> json" where
  "build_conversation_extra p job saved_skill purpose w =
     (let assistant_backed = (build_assistant_request job \<noteq> None);
          extra0 = [(''cron_job_id'', JString (jb_id job)), (''cronJobId'', JString (jb_id job))];
          extra1 = (if purpose = NewConversationExecution
                    then AList.update ''exclude_auto_inject_skills'' (JArray [JString ''cron'']) extra0 else extra0);
          extra2 = (case saved_skill of None \<Rightarrow> extra1
                    | Some s \<Rightarrow> AList.update ''preset_enabled_skills'' (JArray [JString (ss_name s)]) extra1);
          extra3 = (if assistant_backed then extra2 else inject_agent_identity p job w extra2)
      in JObject (case jb_agent_config job of
           None \<Rightarrow> extra3
         | Some config \<Rightarrow>
             put_str ''workspace'' (non_blank (kg_workspace config))
               (put_str ''session_mode'' (kg_mode config)
                 (put_str ''agent_name'' (if \<not> assistant_backed \<and> kg_name config \<noteq> [] then Some (kg_name config) else None)
                   (put_str ''cli_path'' (kg_cli_path config) extra3)))))"

definition system_default_user_id :: id where
  "system_default_user_id = ''system_default_user''"

definition resolve_conversation_owner_user_id :: "'w cron_ports \<Rightarrow> cron_job \<Rightarrow> 'w \<Rightarrow> (cron_error + id) \<times> 'w" where
  "resolve_conversation_owner_user_id p job w =
     (if blank (jb_conversation_id job) then (Inr system_default_user_id, w)
      else and_then (get_conversation_row p (jb_conversation_id job) w) (\<lambda>row w.
        (Inr (case row of
                Some r \<Rightarrow> if blank (cv_user_id r) then system_default_user_id else cv_user_id r
              | None \<Rightarrow> system_default_user_id), w)))"

definition create_new_conversation ::
  "'w cron_ports \<Rightarrow> cron_job \<Rightarrow> saved_skill_context option \<Rightarrow> conversation_purpose \<Rightarrow> 'w \<Rightarrow> (cron_error + id) \<times> 'w" where
  "create_new_conversation p job saved_skill purpose w =
     and_then (parse_agent_type (jb_agent_type job), w) (\<lambda>agent_type w.
     and_then (resolve_conversation_owner_user_id p job w) (\<lambda>user_id w.
     let assistant = build_assistant_request job;
         req = \<lparr>cc_type = if assistant \<noteq> None then None else Some agent_type, cc_name = jb_name job, cc_model = resolve_model job,
                cc_assistant = assistant, cc_extra = build_conversation_extra p job saved_skill purpose w\<rparr>
     in and_then (on_error from_conversation_create (cp_create_conversation p user_id req w)) (\<lambda>created w.
          case created of (c, extra) \<Rightarrow>
            if trimmed_some (get_str ''workspace'' extra) \<noteq> None then (Inr c, w)
            else and_then (on_error (\<lambda>m. SchedulerError (''create fallback cron workspace '' @ m)) (cp_fallback_workspace p agent_type c w))
                   (\<lambda>workspace w. and_then (persist_workspace_if_missing p c workspace w) (\<lambda>_ w. (Inr c, w))))))"

definition resolve_conversation :: "'w cron_ports \<Rightarrow> cron_job \<Rightarrow> saved_skill_context option \<Rightarrow> 'w \<Rightarrow> (cron_error + id) \<times> 'w" where
  "resolve_conversation p job saved_skill w =
     (case jb_execution_mode job of
        Existing \<Rightarrow>
          (let c = trim (jb_conversation_id job)
           in if c = [] then create_new_conversation p job saved_skill ExistingReplacement w
              else and_then (conversation_exists p c w) (\<lambda>there w.
                if \<not> there then create_new_conversation p job saved_skill ExistingReplacement w
                else (Inr (jb_conversation_id job), w)))
      | NewConversation \<Rightarrow> create_new_conversation p job saved_skill NewConversationExecution w)"

section \<open>Preparation and execution\<close>

definition handle_busy :: "cron_job \<Rightarrow> execution_result" where
  "handle_busy job =
     (if jb_max_retries job \<le> jb_retry_count job then ExecutionSkipped else ExecutionRetrying (jb_retry_count job + 1))"

text \<open>\<open>prepare_scheduled\<close> returns the result of the execution where there is nothing to execute.\<close>

definition prepare_scheduled :: "'w cron_ports \<Rightarrow> cron_job \<Rightarrow> 'w \<Rightarrow> (execution_result + prepared_execution) \<times> 'w" where
  "prepare_scheduled p job w =
     (let failed = (\<lambda>e. ExecutionError (cron_error_text e))
      in and_then (on_error failed (prepare_saved_skill p job w)) (\<lambda>saved_skill w.
         and_then (on_error failed (validate_runtime_job_workspace p job w)) (\<lambda>_ w.
         and_then (on_error failed (resolve_conversation p job saved_skill w)) (\<lambda>c w.
           (if cp_claimed p c w then Inl (handle_busy job)
            else Inr \<lparr>pe_conversation_id = c, pe_saved_skill = saved_skill\<rparr>, w)))))"

definition prepare_run_now :: "'w cron_ports \<Rightarrow> cron_job \<Rightarrow> 'w \<Rightarrow> (cron_error + prepared_run_now) \<times> 'w" where
  "prepare_run_now p job w =
     and_then (prepare_saved_skill p job w) (\<lambda>saved_skill w.
     and_then (validate_runtime_job_workspace p job w) (\<lambda>_ w.
     and_then (resolve_conversation p job saved_skill w) (\<lambda>c w.
       (Inr (if cp_claimed p c w then RunAlreadyRunning c
             else RunReady \<lparr>pe_conversation_id = c, pe_saved_skill = saved_skill\<rparr>), w))))"

definition resolve_target_conversation_user_id :: "'w cron_ports \<Rightarrow> id \<Rightarrow> 'w \<Rightarrow> (cron_error + id) \<times> 'w" where
  "resolve_target_conversation_user_id p c w =
     and_then (get_conversation_row p c w) (\<lambda>row w.
       (case row of
          None \<Rightarrow> Inl (SchedulerError (''conversation '' @ c @ '' not found''))
        | Some r \<Rightarrow> Inr (if blank (cv_user_id r) then system_default_user_id else cv_user_id r), w))"

definition cron_job_runtime_mode :: "cron_job \<Rightarrow> string option" where
  "cron_job_runtime_mode job = trimmed_some (Option.bind (jb_agent_config job) kg_mode)"

definition conversation_turn_failed_message :: "'w cron_ports \<Rightarrow> id \<Rightarrow> agent_turn_outcome \<Rightarrow> 'w \<Rightarrow> string \<times> 'w" where
  "conversation_turn_failed_message p c outcome w =
     (case trimmed_some (to_error_message outcome) of
        Some message \<Rightarrow> (message, w)
      | None \<Rightarrow>
          (case cp_latest_error p c w of
             (Inr (Some message), w) \<Rightarrow> (message, w)
           | (_, w) \<Rightarrow> (''Conversation turn '' @ to_turn_id outcome @ '' failed without agent error details'', w)))"

text \<open>The turn of a prepared execution; the requests of cron store a hidden user message and carry no files.\<close>

definition cron_turn_request :: "cron_job \<Rightarrow> id \<Rightarrow> saved_skill_context option \<Rightarrow> string list \<Rightarrow> id \<Rightarrow> agent_turn_request" where
  "cron_turn_request job c saved_skill skill_names user_id =
     \<lparr>tq_user_id = user_id, tq_conversation_id = c, tq_content = build_prompt job saved_skill, tq_inject_skills = skill_names,
      tq_required_runtime_mode = cron_job_runtime_mode job, tq_trigger = job\<rparr>"

definition turn_finished ::
  "'w cron_ports \<Rightarrow> cron_job \<Rightarrow> id \<Rightarrow> saved_skill_context option \<Rightarrow> bool \<Rightarrow> (conversation_failure + agent_turn_outcome) \<Rightarrow> 'w
   \<Rightarrow> execution_result \<times> 'w" where
  "turn_finished p job c saved_skill retry_on_busy result w =
     (case result of
        Inr outcome \<Rightarrow>
          if to_failed outcome then (case conversation_turn_failed_message p c outcome w of (m, w) \<Rightarrow> (ExecutionError m, w))
          else if saved_skill = None \<and> jb_execution_mode job = NewConversation then
            (case resolve_execution_workspace p job c w of (workspace, w) \<Rightarrow>
               (ExecutionSuccess c,
                cp_schedule_check p c (jb_id job) (case workspace of Inr s \<Rightarrow> s | Inl _ \<Rightarrow> []) w))
          else (ExecutionSuccess c, w)
      | Inl failure \<Rightarrow>
          (case failure of
             ConversationBusy reason \<Rightarrow>
               (if retry_on_busy then handle_busy job else ExecutionError (conversation_failure_text failure), w)
           | _ \<Rightarrow> (ExecutionError (conversation_failure_text failure), w)))"

definition execute_inner_with_busy_retry ::
  "'w cron_ports \<Rightarrow> cron_job \<Rightarrow> id \<Rightarrow> saved_skill_context option \<Rightarrow> bool \<Rightarrow> 'w \<Rightarrow> execution_result \<times> 'w" where
  "execute_inner_with_busy_retry p job c saved_skill retry_on_busy w =
     (case get_conversation_row p c w of
        (Inl e, w) \<Rightarrow> (ExecutionError (cron_error_text e), w)
      | (Inr None, w) \<Rightarrow> (ExecutionError (''conversation '' @ c @ '' not found''), w)
      | (Inr (Some _), w) \<Rightarrow>
          (case resolve_task_skill_names p job c saved_skill w of
             (Inl e, w) \<Rightarrow> (ExecutionError (cron_error_text e), w)
           | (Inr skill_names, w) \<Rightarrow>
               (case resolve_target_conversation_user_id p c w of
                  (Inl e, w) \<Rightarrow> (ExecutionError (cron_error_text e), w)
                | (Inr user_id, w) \<Rightarrow>
                    (case cp_run_turn p (cron_turn_request job c saved_skill skill_names user_id) w of
                       (result, w) \<Rightarrow> turn_finished p job c saved_skill retry_on_busy result w))))"

definition execute_prepared :: "'w cron_ports \<Rightarrow> cron_job \<Rightarrow> prepared_execution \<Rightarrow> 'w \<Rightarrow> execution_result \<times> 'w" where
  "execute_prepared p job prepared = execute_inner_with_busy_retry p job (pe_conversation_id prepared) (pe_saved_skill prepared) False"

definition execute_prepared_scheduled :: "'w cron_ports \<Rightarrow> cron_job \<Rightarrow> prepared_execution \<Rightarrow> 'w \<Rightarrow> execution_result \<times> 'w" where
  "execute_prepared_scheduled p job prepared =
     execute_inner_with_busy_retry p job (pe_conversation_id prepared) (pe_saved_skill prepared) True"

definition execute :: "'w cron_ports \<Rightarrow> cron_job \<Rightarrow> 'w \<Rightarrow> execution_result \<times> 'w" where
  "execute p job w =
     (case prepare_scheduled p job w of
        (Inl result, w) \<Rightarrow> (result, w)
      | (Inr prepared, w) \<Rightarrow> execute_prepared_scheduled p job prepared w)"

end
