(* ===== verification/CronService.thy ===== *)
theory CronService
  imports CronExecutor
begin

text \<open>
  The service of scheduled jobs, \<open>aionui-cron/src/service.rs\<close> with the events of \<open>events.rs\<close>: creation,
  change and removal of jobs, the start of the process, a tick of a timer, a manual run, the resumption
  after a suspension, the saved skill of a job, and what a deleted conversation leaves behind.

  The state is the repository, the timers, the events sent and the rest of the process. An execution is
  asynchronous: \<open>tick_begin\<close> and \<open>run_now\<close> return what they start, \<open>tick_end\<close> and \<open>run_now_end\<close> store the
  result, and other operations may run in between. A schedule of a request has the constructors of a stored one.
\<close>

section \<open>State\<close>

datatype cron_event =
    CronJobCreated cron_job_response
  | CronJobUpdated cron_job_response
  | CronJobRemoved id
  | CronJobExecuted id string "string option"
  | CronConversationTips id string string

record ('d, 'w) cron_world =
  kw_db :: 'd
  kw_timers :: timers
  kw_events :: "cron_event list"
  kw_env :: 'w

record ('d, 'w, 's, 'z) cron_service =
  ks_repo :: "'d cron_repository"
  ks_json :: config_json
  ks_lib :: "('s, 'z) cron_lib"
  ks_ports :: "'w cron_ports"

definition on_cron_repo :: "('d \<Rightarrow> (db_error + 'a) \<times> 'd) \<Rightarrow> ('d, 'w) cron_world \<Rightarrow> (cron_error + 'a) \<times> ('d, 'w) cron_world" where
  "on_cron_repo op w = (case op (kw_db w) of (r, d) \<Rightarrow> (map_sum CronDatabase id r, w\<lparr>kw_db := d\<rparr>))"

definition on_env :: "('w \<Rightarrow> 'a \<times> 'w) \<Rightarrow> ('d, 'w) cron_world \<Rightarrow> 'a \<times> ('d, 'w) cron_world" where
  "on_env op w = (case op (kw_env w) of (r, e) \<Rightarrow> (r, w\<lparr>kw_env := e\<rparr>))"

definition on_timers :: "(timers \<Rightarrow> timers) \<Rightarrow> ('d, 'w) cron_world \<Rightarrow> ('d, 'w) cron_world" where
  "on_timers f w = w\<lparr>kw_timers := f (kw_timers w)\<rparr>"

definition emit :: "cron_event \<Rightarrow> ('d, 'w) cron_world \<Rightarrow> ('d, 'w) cron_world" where
  "emit e w = w\<lparr>kw_events := kw_events w @ [e]\<rparr>"

definition cron_now :: "('d, 'w, 's, 'z) cron_service \<Rightarrow> ('d, 'w) cron_world \<Rightarrow> timestamp_ms \<times> ('d, 'w) cron_world" where
  "cron_now sv = on_env (cp_now (ks_ports sv))"

text \<open>\<open>repo.update\<close>, which reads the clock.\<close>

definition update_row ::
  "('d, 'w, 's, 'z) cron_service \<Rightarrow> id \<Rightarrow> update_cron_job_params \<Rightarrow> ('d, 'w) cron_world \<Rightarrow> (cron_error + unit) \<times> ('d, 'w) cron_world" where
  "update_row sv i params w = (case cron_now sv w of (now, w) \<Rightarrow> on_cron_repo (kq_update (ks_repo sv) now i params) w)"

section \<open>Assistants\<close>

definition effective_agent_id :: "'w cron_ports \<Rightarrow> id \<times> id \<Rightarrow> 'w \<Rightarrow> (cron_error + id) \<times> 'w" where
  "effective_agent_id p assistant w =
     and_then (on_error CronDatabase (cp_overlay p (fst assistant) w)) (\<lambda>overlay w.
       (Inr (case overlay of Some agent_id \<Rightarrow> agent_id | None \<Rightarrow> snd assistant), w))"

definition runtime_agent_type_for_backend :: "string \<Rightarrow> string" where
  "runtime_agent_type_for_backend backend = (if backend = ''aionrs'' then ''aionrs'' else ''acp'')"

definition resolve_agent_type_for_assistant_id :: "'w cron_ports \<Rightarrow> id \<Rightarrow> 'w \<Rightarrow> (cron_error + string) \<times> 'w" where
  "resolve_agent_type_for_assistant_id p assistant_id w =
     and_then (on_error CronDatabase (cp_definition p assistant_id w)) (\<lambda>found w.
       case found of
         None \<Rightarrow> (Inl (InvalidAgentConfig (''assistant '' @ [CHR 0x27] @ assistant_id @ [CHR 0x27] @ '' not found'')), w)
       | Some assistant \<Rightarrow>
           and_then (effective_agent_id p assistant w) (\<lambda>agent_id w.
           and_then (on_error CronDatabase (cp_backend p agent_id w)) (\<lambda>backend w.
             (Inr (runtime_agent_type_for_backend backend), w))))"

definition resolve_assistant_backend :: "'w cron_ports \<Rightarrow> id option \<Rightarrow> 'w \<Rightarrow> (cron_error + string option) \<times> 'w" where
  "resolve_assistant_backend p assistant_id w =
     (case assistant_id of
        None \<Rightarrow> (Inr None, w)
      | Some a \<Rightarrow>
          if a = [] then (Inr None, w)
          else and_then (on_error CronDatabase (cp_definition p a w)) (\<lambda>found w.
            case found of
              None \<Rightarrow> (Inr None, w)
            | Some assistant \<Rightarrow>
                and_then (effective_agent_id p assistant w) (\<lambda>agent_id w.
                and_then (on_error CronDatabase (cp_backend p agent_id w)) (\<lambda>backend w. (Inr (Some backend), w)))))"

section \<open>Requests\<close>

record create_cron_job_request =
  cq_name :: string
  cq_description :: "string option"
  cq_schedule :: cron_schedule
  cq_prompt :: "string option"
  cq_message :: "string option"
  cq_conversation_id :: id
  cq_conversation_title :: "string option"
  cq_created_by :: string
  cq_execution_mode :: "string option"
  cq_agent_config :: "cron_agent_config_write option"

record update_cron_job_request =
  uq_name :: "string option"
  uq_description :: "string option"
  uq_enabled :: "bool option"
  uq_schedule :: "cron_schedule option"
  uq_message :: "string option"
  uq_execution_mode :: "string option"
  uq_agent_config :: "cron_agent_config_write option"
  uq_conversation_title :: "string option"
  uq_max_retries :: "int option"

definition parse_execution_mode :: "string option \<Rightarrow> cron_error + execution_mode" where
  "parse_execution_mode mode =
     (case mode of
        None \<Rightarrow> Inr Existing
      | Some s \<Rightarrow> if s = ''existing'' then Inr Existing else execution_mode_from_str s)"

definition model_required :: cron_error where
  "model_required = InvalidAgentConfig ''aionrs cron jobs require agent_config.model.provider_id and agent_config.model.model''"

definition validate_aionrs_agent_config :: "string \<Rightarrow> cron_agent_config_write option \<Rightarrow> cron_error + unit" where
  "validate_aionrs_agent_config agent_type config =
     (if agent_type \<noteq> ''aionrs'' then Inr ()
      else case Option.bind config wd_model of
          Some m \<Rightarrow> if \<not> blank (pm_provider_id m) \<and> \<not> blank (pm_model m) then Inr () else Inl model_required
        | None \<Rightarrow> Inl model_required)"

definition normalize_model :: "provider_with_model option \<Rightarrow> string \<Rightarrow> cron_error + provider_with_model option" where
  "normalize_model model agent_type =
     (case model of
        None \<Rightarrow> Inr None
      | Some m0 \<Rightarrow>
          (let m = \<lparr>pm_provider_id = trim (pm_provider_id m0), pm_model = trim (pm_model m0), pm_use_model = trimmed_some (pm_use_model m0)\<rparr>
           in if agent_type = ''aionrs'' \<and> (pm_provider_id m = [] \<or> pm_model m = []) then Inl model_required
              else if pm_provider_id m = [] \<or> pm_model m = [] then Inr None else Inr (Some m)))"

definition sanitize_agent_config_dto :: "cron_agent_config_write \<Rightarrow> cron_agent_config_write" where
  "sanitize_agent_config_dto config = config\<lparr>wd_assistant_id := trimmed_some (wd_assistant_id config)\<rparr>"

definition resolve_new_job_agent_type :: "'w cron_ports \<Rightarrow> cron_agent_config_write option \<Rightarrow> 'w \<Rightarrow> (cron_error + string) \<times> 'w" where
  "resolve_new_job_agent_type p config w =
     (case Option.bind config wd_assistant_id of
        None \<Rightarrow> (Inl (InvalidAgentConfig ''assistant_id is required for new cron jobs''), w)
      | Some assistant_id \<Rightarrow> resolve_agent_type_for_assistant_id p assistant_id w)"

definition resolve_job_agent_type :: "'w cron_ports \<Rightarrow> cron_job \<Rightarrow> 'w \<Rightarrow> (cron_error + string) \<times> 'w" where
  "resolve_job_agent_type p job w =
     (if \<not> blank (jb_agent_type job) then (Inr (jb_agent_type job), w)
      else case non_blank (Option.bind (jb_agent_config job) (\<lambda>c. or_else (kg_assistant_id c) (kg_custom_agent_id c))) of
          None \<Rightarrow> (Inl (InvalidAgentConfig ''assistant_id is required for cron jobs''), w)
        | Some assistant_id \<Rightarrow> resolve_agent_type_for_assistant_id p assistant_id w)"

definition build_cron_agent_config :: "'w cron_ports \<Rightarrow> string \<Rightarrow> cron_agent_config_write \<Rightarrow> 'w \<Rightarrow> (cron_error + cron_agent_config) \<times> 'w" where
  "build_cron_agent_config p agent_type config w =
     (case non_blank (wd_assistant_id config) of
        None \<Rightarrow> (Inl (InvalidAgentConfig ''assistant_id is required for cron jobs''), w)
      | Some assistant_id \<Rightarrow>
          and_then (resolve_assistant_backend p (Some assistant_id) w) (\<lambda>found w.
            case found of
              None \<Rightarrow> (Inl (InvalidAgentConfig (''assistant '' @ [CHR 0x27] @ assistant_id @ [CHR 0x27] @ '' could not resolve a runtime backend'')), w)
            | Some backend \<Rightarrow>
                and_then (cp_full_auto_mode p agent_type assistant_id backend w) (\<lambda>mode w.
                and_then (normalize_model (wd_model config) agent_type, w) (\<lambda>model w.
                  (Inr \<lparr>kg_name = wd_name config, kg_cli_path = wd_cli_path config, kg_is_preset = None,
                        kg_assistant_id = wd_assistant_id config, kg_custom_agent_id = None, kg_mode = Some mode,
                        kg_model_id = wd_model_id config, kg_model = model, kg_config_options = wd_config_options config,
                        kg_workspace = wd_workspace config\<rparr>, w)))))"

definition schedule_from_dto_with_existing_timezone :: "cron_schedule \<Rightarrow> cron_schedule \<Rightarrow> cron_schedule" where
  "schedule_from_dto_with_existing_timezone dto existing =
     (case dto of
        Cron expr tz description \<Rightarrow>
          Cron expr (or_else tz (case existing of Cron _ tz0 _ \<Rightarrow> tz0 | _ \<Rightarrow> None)) description
      | _ \<Rightarrow> dto)"

section \<open>Helpers\<close>

definition validate_job_workspace :: "'w cron_ports \<Rightarrow> cron_job \<Rightarrow> 'w \<Rightarrow> (cron_error + unit) \<times> 'w" where
  "validate_job_workspace p job w =
     and_then (resolve_job_workspace_raw p job w) (\<lambda>workspace w.
       (case cp_workspace_error p workspace w of None \<Rightarrow> Inr () | Some path \<Rightarrow> Inl (CronWorkspacePathUnavailable path), w))"

definition config_mode :: "cron_job \<Rightarrow> string option" where
  "config_mode job = Option.bind (jb_agent_config job) kg_mode"

definition is_team_conversation_job :: "'w cron_ports \<Rightarrow> cron_job \<Rightarrow> 'w \<Rightarrow> (cron_error + bool) \<times> 'w" where
  "is_team_conversation_job p job w =
     (let c = trim (jb_conversation_id job)
      in if c = [] then (Inr False, w)
         else and_then (get_conversation_row p c w) (\<lambda>row w.
           case row of
             None \<Rightarrow> (Inr False, w)
           | Some r \<Rightarrow>
               (case cp_parse p (cv_extra r) of
                  Inl m \<Rightarrow> (Inl (CronJson m), w)
                | Inr extra \<Rightarrow>
                    (Inr (non_blank (Option.bind (or_else (json_get ''team_id'' extra) (json_get ''teamId'' extra)) as_str) \<noteq> None), w))))"

definition bind_existing_conversation_if_needed ::
  "('d, 'w, 's, 'z) cron_service \<Rightarrow> cron_job \<Rightarrow> ('d, 'w) cron_world \<Rightarrow> ('d, 'w) cron_world" where
  "bind_existing_conversation_if_needed sv job w =
     (if jb_execution_mode job \<noteq> Existing \<or> blank (jb_conversation_id job) then w
      else snd (on_env (bind_cron_job_to_conversation (ks_ports sv) (jb_conversation_id job) (jb_id job) (config_mode job)) w))"

definition bind_materialized_existing_conversation_if_needed ::
  "('d, 'w, 's, 'z) cron_service \<Rightarrow> cron_job \<Rightarrow> id \<Rightarrow> ('d, 'w) cron_world \<Rightarrow> (cron_error + cron_job) \<times> ('d, 'w) cron_world" where
  "bind_materialized_existing_conversation_if_needed sv job conversation_id w =
     (let c = trim conversation_id
      in if jb_execution_mode job \<noteq> Existing \<or> c = [] \<or> trim (jb_conversation_id job) = c then (Inr job, w)
         else and_then (update_row sv (jb_id job) (default_params\<lparr>ku_conversation_id := Some c\<rparr>) w) (\<lambda>_ w.
              and_then (on_env (bind_cron_job_to_conversation (ks_ports sv) c (jb_id job) (config_mode job)) w) (\<lambda>_ w.
                (Inr (job\<lparr>jb_conversation_id := c\<rparr>), w))))"

definition clear_auto_workspace_from_job_config :: "'w cron_ports \<Rightarrow> cron_job \<Rightarrow> id \<Rightarrow> 'w \<Rightarrow> (cron_job \<times> bool) \<times> 'w" where
  "clear_auto_workspace_from_job_config p job conversation_id w =
     (case jb_agent_config job of
        None \<Rightarrow> ((job, False), w)
      | Some config \<Rightarrow>
          (case kg_workspace config of
             None \<Rightarrow> ((job, False), w)
           | Some workspace \<Rightarrow>
               (case auto_workspace_to_delete_for_conversation p conversation_id w of
                  (Inr (Some path), w) \<Rightarrow>
                    (if cp_same_path p workspace path w
                     then (job\<lparr>jb_agent_config := Some (config\<lparr>kg_workspace := None\<rparr>)\<rparr>, True) else (job, False), w)
                | (_, w) \<Rightarrow> ((job, False), w))))"

section \<open>Jobs\<close>

definition load_job :: "('d, 'w, 's, 'z) cron_service \<Rightarrow> id \<Rightarrow> ('d, 'w) cron_world \<Rightarrow> (cron_error + cron_job) \<times> ('d, 'w) cron_world" where
  "load_job sv job_id w =
     and_then (on_cron_repo (kq_get_by_id (ks_repo sv) job_id) w) (\<lambda>row w.
       case row of
         None \<Rightarrow> (Inl (JobNotFound job_id), w)
       | Some r \<Rightarrow>
           and_then (cron_job_from_row (ks_json sv) r, w) (\<lambda>job w.
           and_then (on_env (resolve_job_agent_type (ks_ports sv) job) w) (\<lambda>agent_type w.
             (Inr (job\<lparr>jb_agent_type := agent_type\<rparr>), w))))"

definition get_job :: "('d, 'w, 's, 'z) cron_service \<Rightarrow> id \<Rightarrow> ('d, 'w) cron_world \<Rightarrow> (cron_error + cron_job) \<times> ('d, 'w) cron_world" where
  "get_job = load_job"

fun read_jobs ::
  "('d, 'w, 's, 'z) cron_service \<Rightarrow> cron_job_row list \<Rightarrow> ('d, 'w) cron_world \<Rightarrow> (cron_error + cron_job list) \<times> ('d, 'w) cron_world" where
  "read_jobs sv [] w = (Inr [], w)"
| "read_jobs sv (r # rs) w =
     and_then (cron_job_from_row (ks_json sv) r, w) (\<lambda>job w.
     and_then (on_env (resolve_job_agent_type (ks_ports sv) job) w) (\<lambda>agent_type w.
     and_then (read_jobs sv rs w) (\<lambda>jobs w. (Inr (job\<lparr>jb_agent_type := agent_type\<rparr> # jobs), w))))"

definition list_jobs ::
  "('d, 'w, 's, 'z) cron_service \<Rightarrow> id option \<Rightarrow> ('d, 'w) cron_world \<Rightarrow> (cron_error + cron_job list) \<times> ('d, 'w) cron_world" where
  "list_jobs sv conversation w =
     and_then (on_cron_repo (case conversation of Some c \<Rightarrow> kq_list_by_conversation (ks_repo sv) c | None \<Rightarrow> kq_list_all (ks_repo sv)) w)
       (read_jobs sv)"

definition new_cron_job ::
  "('s, 'z) cron_lib \<Rightarrow> create_cron_job_request \<Rightarrow> string \<Rightarrow> execution_mode \<Rightarrow> created_by \<Rightarrow> cron_agent_config option
   \<Rightarrow> timestamp_ms \<Rightarrow> id \<Rightarrow> cron_job" where
  "new_cron_job lib req agent_type mode creator config now job_id =
     \<lparr>jb_id = job_id, jb_name = cq_name req, jb_enabled = True, jb_schedule = cq_schedule req,
      jb_message = (case or_else (cq_message req) (cq_prompt req) of Some m \<Rightarrow> m | None \<Rightarrow> []),
      jb_execution_mode = mode, jb_agent_config = config, jb_conversation_id = cq_conversation_id req,
      jb_conversation_title = cq_conversation_title req, jb_agent_type = agent_type, jb_created_by = creator,
      jb_skill_content = None, jb_description = cq_description req, jb_created_at = now, jb_updated_at = now,
      jb_next_run_at = compute_next_run lib (cq_schedule req) now, jb_last_run_at = None, jb_last_status = None,
      jb_last_error = None, jb_run_count = 0, jb_retry_count = 0, jb_max_retries = 3\<rparr>"

definition store_new_job ::
  "('d, 'w, 's, 'z) cron_service \<Rightarrow> cron_job \<Rightarrow> ('d, 'w) cron_world \<Rightarrow> (cron_error + cron_job) \<times> ('d, 'w) cron_world" where
  "store_new_job sv job w =
     and_then (on_env (validate_job_workspace (ks_ports sv) job) w) (\<lambda>_ w.
     and_then (cron_job_to_row (ks_json sv) job, w) (\<lambda>row w.
     and_then (on_cron_repo (kq_insert (ks_repo sv) row) w) (\<lambda>_ w.
       (Inr job, emit (CronJobCreated (cron_job_to_response job))
                   (on_timers (schedule_job job) (bind_existing_conversation_if_needed sv job w))))))"

definition new_job_config ::
  "('d, 'w, 's, 'z) cron_service \<Rightarrow> string \<Rightarrow> cron_agent_config_write option \<Rightarrow> ('d, 'w) cron_world
   \<Rightarrow> (cron_error + cron_agent_config option) \<times> ('d, 'w) cron_world" where
  "new_job_config sv agent_type dto w =
     (case dto of
        None \<Rightarrow> (Inr None, w)
      | Some c \<Rightarrow>
          and_then (on_env (build_cron_agent_config (ks_ports sv) agent_type (sanitize_agent_config_dto c)) w) (\<lambda>config w. (Inr (Some config), w)))"

definition add_job_internal ::
  "('d, 'w, 's, 'z) cron_service \<Rightarrow> create_cron_job_request \<Rightarrow> string option \<Rightarrow> ('d, 'w) cron_world
   \<Rightarrow> (cron_error + cron_job) \<times> ('d, 'w) cron_world" where
  "add_job_internal sv req runtime_agent_type w =
     and_then (validate_schedule (ks_lib sv) (cq_schedule req), w) (\<lambda>_ w.
     and_then (case runtime_agent_type of Some t \<Rightarrow> (Inr t, w)
               | None \<Rightarrow> on_env (resolve_new_job_agent_type (ks_ports sv) (cq_agent_config req)) w) (\<lambda>agent_type w.
     and_then (validate_aionrs_agent_config agent_type (cq_agent_config req), w) (\<lambda>_ w.
     and_then (parse_execution_mode (cq_execution_mode req), w) (\<lambda>mode w.
     and_then (created_by_from_str (cq_created_by req), w) (\<lambda>creator w.
     and_then (new_job_config sv agent_type (cq_agent_config req) w) (\<lambda>config w.
     case cron_now sv w of (now, w) \<Rightarrow>
     case on_env (cp_new_id (ks_ports sv)) w of (job_id, w) \<Rightarrow>
       store_new_job sv (new_cron_job (ks_lib sv) req agent_type mode creator config now job_id) w))))))"

definition add_job ::
  "('d, 'w, 's, 'z) cron_service \<Rightarrow> create_cron_job_request \<Rightarrow> ('d, 'w) cron_world \<Rightarrow> (cron_error + cron_job) \<times> ('d, 'w) cron_world" where
  "add_job sv req = add_job_internal sv req None"

definition remove_job ::
  "('d, 'w, 's, 'z) cron_service \<Rightarrow> id \<Rightarrow> ('d, 'w) cron_world \<Rightarrow> (cron_error + unit) \<times> ('d, 'w) cron_world" where
  "remove_job sv job_id w =
     (let w1 = on_timers (cancel_job job_id) w;
          w2 = snd (on_env (cp_delete_skill (ks_ports sv) job_id) w1)
      in and_then (on_cron_repo (kq_delete (ks_repo sv) job_id) w2) (\<lambda>_ w. (Inr (), emit (CronJobRemoved job_id) w)))"

section \<open>Changes of a job\<close>

text \<open>
  The steps of \<open>update_job\<close> on the job: \<open>update_plain\<close> are the fields without a check, the mode may
  clear the binding to a conversation, the configuration may not change for a job of an ongoing
  conversation.
\<close>

definition update_plain :: "update_cron_job_request \<Rightarrow> cron_job \<Rightarrow> cron_job" where
  "update_plain req job =
     job\<lparr>jb_name := set_field (uq_name req) (jb_name job), jb_description := or_else (uq_description req) (jb_description job),
         jb_enabled := set_field (uq_enabled req) (jb_enabled job)\<rparr>"

definition update_schedule :: "('s, 'z) cron_lib \<Rightarrow> update_cron_job_request \<Rightarrow> cron_job \<Rightarrow> cron_error + cron_job" where
  "update_schedule lib req job =
     (case uq_schedule req of
        None \<Rightarrow> Inr job
      | Some dto \<Rightarrow>
          (let schedule = schedule_from_dto_with_existing_timezone dto (jb_schedule job)
           in bind_ok (validate_schedule lib schedule) (\<lambda>_. Inr (job\<lparr>jb_schedule := schedule\<rparr>))))"

definition update_mode ::
  "('d, 'w, 's, 'z) cron_service \<Rightarrow> update_cron_job_request \<Rightarrow> cron_job \<Rightarrow> ('d, 'w) cron_world
   \<Rightarrow> (cron_error + cron_job \<times> bool) \<times> ('d, 'w) cron_world" where
  "update_mode sv req job w =
     (case uq_execution_mode req of
        None \<Rightarrow> (Inr (job, False), w)
      | Some s \<Rightarrow>
          and_then (parse_execution_mode (Some s), w) (\<lambda>mode w.
            if mode = jb_execution_mode job then (Inr (job, False), w)
            else and_then (on_env (is_team_conversation_job (ks_ports sv) job) w) (\<lambda>team w.
              if team then (Inl (InvalidExecutionMode ''Team cron jobs must keep running in their owning Team conversation''), w)
              else if mode = NewConversation
              then (Inr (job\<lparr>jb_execution_mode := mode, jb_conversation_id := [], jb_conversation_title := None\<rparr>,
                         \<not> blank (jb_conversation_id job)), w)
              else (Inr (job\<lparr>jb_execution_mode := mode\<rparr>, False), w))))"

definition update_config ::
  "('d, 'w, 's, 'z) cron_service \<Rightarrow> update_cron_job_request \<Rightarrow> execution_mode \<Rightarrow> cron_job \<Rightarrow> ('d, 'w) cron_world
   \<Rightarrow> (cron_error + cron_job) \<times> ('d, 'w) cron_world" where
  "update_config sv req original job w =
     (case uq_agent_config req of
        None \<Rightarrow> (Inr job, w)
      | Some dto0 \<Rightarrow>
          if original = Existing \<or> jb_execution_mode job = Existing
          then (Inl (InvalidAgentConfig ''ongoing conversation jobs must keep their original assistant''), w)
          else let dto = sanitize_agent_config_dto dto0
               in and_then (on_env (resolve_new_job_agent_type (ks_ports sv) (Some dto)) w) (\<lambda>agent_type w.
                  and_then (validate_aionrs_agent_config agent_type (Some dto), w) (\<lambda>_ w.
                  and_then (on_env (build_cron_agent_config (ks_ports sv) agent_type dto) w) (\<lambda>config w.
                    (Inr (job\<lparr>jb_agent_type := agent_type, jb_agent_config := Some config\<rparr>), w)))))"

definition build_update_params :: "config_json \<Rightarrow> cron_job \<Rightarrow> update_cron_job_request \<Rightarrow> update_cron_job_params" where
  "build_update_params js job req =
     (case schedule_to_row_fields (jb_schedule job) of (kind, value, tz, description) \<Rightarrow>
      let given = (uq_schedule req \<noteq> None)
      in \<lparr>ku_name = uq_name req, ku_enabled = uq_enabled req, ku_schedule_kind = (if given then Some kind else None),
          ku_schedule_value = (if given then Some value else None), ku_schedule_tz = (if given then Some tz else None),
          ku_schedule_description = (if given then Some description else None), ku_payload_message = uq_message req,
          ku_execution_mode = uq_execution_mode req,
          ku_agent_config = (if uq_agent_config req = None then None
                             else map_option (\<lambda>c. Some (case js_config_to_string js c of Inr s \<Rightarrow> s | Inl _ \<Rightarrow> [])) (jb_agent_config job)),
          ku_conversation_id = None, ku_conversation_title = map_option Some (uq_conversation_title req), ku_skill_content = None,
          ku_description = map_option Some (uq_description req),
          ku_next_run_at = (if given \<or> uq_enabled req \<noteq> None then Some (jb_next_run_at job) else None),
          ku_last_run_at = None, ku_last_status = None, ku_last_error = None, ku_run_count = None, ku_retry_count = None\<rparr>)"

definition refresh_next_run ::
  "('d, 'w, 's, 'z) cron_service \<Rightarrow> update_cron_job_request \<Rightarrow> cron_job \<Rightarrow> ('d, 'w) cron_world \<Rightarrow> cron_job \<times> ('d, 'w) cron_world" where
  "refresh_next_run sv req job w =
     (if uq_schedule req \<noteq> None \<or> uq_enabled req \<noteq> None
      then case cron_now sv w of (now, w) \<Rightarrow> (job\<lparr>jb_next_run_at := compute_next_run (ks_lib sv) (jb_schedule job) now\<rparr>, w)
      else (job, w))"

definition update_title_and_retries :: "update_cron_job_request \<Rightarrow> bool \<Rightarrow> cron_job \<Rightarrow> cron_job" where
  "update_title_and_retries req clear job =
     job\<lparr>jb_conversation_title := if clear then jb_conversation_title job else or_else (uq_conversation_title req) (jb_conversation_title job),
         jb_max_retries := set_field (uq_max_retries req) (jb_max_retries job)\<rparr>"

definition clear_workspace_if ::
  "('d, 'w, 's, 'z) cron_service \<Rightarrow> bool \<Rightarrow> cron_job \<Rightarrow> id \<Rightarrow> ('d, 'w) cron_world \<Rightarrow> (cron_job \<times> bool) \<times> ('d, 'w) cron_world" where
  "clear_workspace_if sv clear job conversation_id w =
     (if clear then on_env (clear_auto_workspace_from_job_config (ks_ports sv) job conversation_id) w else ((job, False), w))"

text \<open>The job that \<open>update_job\<close> stores, with whether the binding is cleared and the configuration changed.\<close>

definition updated_cron_job ::
  "('d, 'w, 's, 'z) cron_service \<Rightarrow> update_cron_job_request \<Rightarrow> cron_job \<Rightarrow> ('d, 'w) cron_world
   \<Rightarrow> (cron_error + cron_job \<times> bool \<times> bool) \<times> ('d, 'w) cron_world" where
  "updated_cron_job sv req old w =
     and_then (update_schedule (ks_lib sv) req (update_plain req old), w) (\<lambda>job w.
     and_then (update_mode sv req (job\<lparr>jb_message := set_field (uq_message req) (jb_message job)\<rparr>) w) (\<lambda>moved w.
     case moved of (job, clear) \<Rightarrow>
     and_then (update_config sv req (jb_execution_mode old) job w) (\<lambda>job w.
     case refresh_next_run sv req (update_title_and_retries req clear job) w of (job, w) \<Rightarrow>
     case clear_workspace_if sv clear job (jb_conversation_id old) w of ((job, config_changed), w) \<Rightarrow>
     case cron_now sv w of (now, w) \<Rightarrow>
       (Inr (job\<lparr>jb_updated_at := now\<rparr>, clear, config_changed), w))))"

definition final_update_params ::
  "config_json \<Rightarrow> cron_job \<Rightarrow> update_cron_job_request \<Rightarrow> bool \<Rightarrow> bool \<Rightarrow> cron_error + update_cron_job_params" where
  "final_update_params js job req clear config_changed =
     (let params = build_update_params js job req;
          params1 = (if clear then params\<lparr>ku_conversation_id := Some [], ku_conversation_title := Some None\<rparr> else params)
      in if config_changed
         then bind_ok (transpose_opt (config_to_string js) (jb_agent_config job)) (\<lambda>config. Inr (params1\<lparr>ku_agent_config := Some config\<rparr>))
         else Inr params1)"

definition update_job ::
  "('d, 'w, 's, 'z) cron_service \<Rightarrow> id \<Rightarrow> update_cron_job_request \<Rightarrow> ('d, 'w) cron_world
   \<Rightarrow> (cron_error + cron_job) \<times> ('d, 'w) cron_world" where
  "update_job sv job_id req w =
     and_then (load_job sv job_id w) (\<lambda>old w.
     and_then (updated_cron_job sv req old w) (\<lambda>changed w.
     case changed of (job, clear, config_changed) \<Rightarrow>
     and_then (on_env (validate_job_workspace (ks_ports sv) job) w) (\<lambda>_ w.
     and_then (final_update_params (ks_json sv) job req clear config_changed, w) (\<lambda>params w.
     and_then (update_row sv job_id params w) (\<lambda>_ w.
       let w1 = (if clear then snd (on_env (unbind_cron_job_from_conversation (ks_ports sv) (jb_conversation_id old) (jb_id job)) w) else w)
       in (Inr job, emit (CronJobUpdated (cron_job_to_response job))
                      (on_timers (reschedule_job job) (bind_existing_conversation_if_needed sv job w1))))))))"

section \<open>Results\<close>

definition should_bind_success_conversation :: "string \<Rightarrow> id \<Rightarrow> id \<Rightarrow> bool" where
  "should_bind_success_conversation mode existing success \<longleftrightarrow>
     mode = execution_mode_str Existing \<and> trim success \<noteq> [] \<and> trim existing \<noteq> trim success"

definition update_job_after_success ::
  "('d, 'w, 's, 'z) cron_service \<Rightarrow> id \<Rightarrow> id \<Rightarrow> ('d, 'w) cron_world \<Rightarrow> ('d, 'w) cron_world" where
  "update_job_after_success sv job_id conversation_id w =
     (case on_cron_repo (kq_get_by_id (ks_repo sv) job_id) w of
        (Inr (Some row), w) \<Rightarrow>
          (case cron_now sv w of (now, w) \<Rightarrow>
             let binds = should_bind_success_conversation (kr_execution_mode row) (kr_conversation_id row) conversation_id
             in case update_row sv job_id (default_params\<lparr>ku_last_run_at := Some (Some now), ku_last_status := Some (Some ''ok''),
                       ku_last_error := Some None, ku_retry_count := Some 0, ku_run_count := Some (wrap_i64 (kr_run_count row + 1)),
                       ku_conversation_id := if binds then Some conversation_id else None\<rparr>) w of
                  (Inl _, w) \<Rightarrow> w
                | (Inr _, w) \<Rightarrow>
                    if binds then snd (on_env (bind_cron_job_to_conversation (ks_ports sv) conversation_id job_id None) w) else w)
      | (_, w) \<Rightarrow> w)"

definition update_job_after_error ::
  "('d, 'w, 's, 'z) cron_service \<Rightarrow> id \<Rightarrow> string \<Rightarrow> ('d, 'w) cron_world \<Rightarrow> ('d, 'w) cron_world" where
  "update_job_after_error sv job_id message w =
     (case on_cron_repo (kq_get_by_id (ks_repo sv) job_id) w of
        (Inr (Some row), w) \<Rightarrow>
          (case cron_now sv w of (now, w) \<Rightarrow>
             snd (update_row sv job_id (default_params\<lparr>ku_last_run_at := Some (Some now), ku_last_status := Some (Some ''error''),
                    ku_last_error := Some (Some message), ku_retry_count := Some 0, ku_run_count := Some (wrap_i64 (kr_run_count row + 1))\<rparr>) w))
      | (_, w) \<Rightarrow> w)"

fun is_at :: "cron_schedule \<Rightarrow> bool" where
  "is_at (At _ _) = True"
| "is_at _ = False"

definition disable_params :: update_cron_job_params where
  "disable_params = default_params\<lparr>ku_enabled := Some False, ku_next_run_at := Some None\<rparr>"

definition reschedule_after_execution ::
  "('d, 'w, 's, 'z) cron_service \<Rightarrow> cron_job \<Rightarrow> ('d, 'w) cron_world \<Rightarrow> ('d, 'w) cron_world" where
  "reschedule_after_execution sv job w =
     (if is_at (jb_schedule job)
      then let w1 = snd (update_row sv (jb_id job) disable_params w)
           in emit (CronJobUpdated (cron_job_to_response (job\<lparr>jb_enabled := False, jb_next_run_at := None\<rparr>)))
                (on_timers (cancel_job (jb_id job)) w1)
      else case cron_now sv w of (now, w) \<Rightarrow>
        let next_run = compute_next_run (ks_lib sv) (jb_schedule job) now;
            w1 = snd (update_row sv (jb_id job) (default_params\<lparr>ku_next_run_at := Some next_run\<rparr>) w)
        in on_timers (reschedule_job (job\<lparr>jb_next_run_at := next_run\<rparr>)) w1)"

definition retry_interval_ms :: int where
  "retry_interval_ms = 30000"

definition schedule_retry :: "('d, 'w, 's, 'z) cron_service \<Rightarrow> id \<Rightarrow> ('d, 'w) cron_world \<Rightarrow> ('d, 'w) cron_world" where
  "schedule_retry sv job_id w =
     (case cron_now sv w of (now, w) \<Rightarrow>
        let next_run = wrap_i64 (now + retry_interval_ms)
        in on_timers (schedule_job
             \<lparr>jb_id = job_id, jb_name = [], jb_enabled = True, jb_schedule = At next_run None, jb_message = [], jb_execution_mode = Existing,
              jb_agent_config = None, jb_conversation_id = [], jb_conversation_title = None, jb_agent_type = [], jb_created_by = CreatedByUser,
              jb_skill_content = None, jb_description = None, jb_created_at = 0, jb_updated_at = 0, jb_next_run_at = Some next_run,
              jb_last_run_at = None, jb_last_status = None, jb_last_error = None, jb_run_count = 0, jb_retry_count = 0, jb_max_retries = 0\<rparr>) w)"

definition skipped_params :: update_cron_job_params where
  "skipped_params = default_params\<lparr>ku_last_status := Some (Some ''skipped''), ku_retry_count := Some 0\<rparr>"

definition handle_execution_result ::
  "('d, 'w, 's, 'z) cron_service \<Rightarrow> cron_job \<Rightarrow> execution_result \<Rightarrow> ('d, 'w) cron_world \<Rightarrow> ('d, 'w) cron_world" where
  "handle_execution_result sv job result w =
     (case result of
        ExecutionSuccess conversation_id \<Rightarrow>
          emit (CronJobExecuted (jb_id job) ''ok'' None)
            (reschedule_after_execution sv job (update_job_after_success sv (jb_id job) conversation_id w))
      | ExecutionRetrying attempt \<Rightarrow>
          schedule_retry sv (jb_id job) (snd (update_row sv (jb_id job) (default_params\<lparr>ku_retry_count := Some attempt\<rparr>) w))
      | ExecutionSkipped \<Rightarrow>
          emit (CronJobExecuted (jb_id job) ''skipped'' None)
            (reschedule_after_execution sv job (snd (update_row sv (jb_id job) skipped_params w)))
      | ExecutionError message \<Rightarrow>
          emit (CronJobExecuted (jb_id job) ''error'' (Some message))
            (reschedule_after_execution sv job (update_job_after_error sv (jb_id job) message w)))"

definition handle_run_now_result ::
  "('d, 'w, 's, 'z) cron_service \<Rightarrow> id \<Rightarrow> execution_result \<Rightarrow> ('d, 'w) cron_world \<Rightarrow> ('d, 'w) cron_world" where
  "handle_run_now_result sv job_id result w =
     (case result of
        ExecutionSuccess conversation_id \<Rightarrow>
          emit (CronJobExecuted job_id ''ok'' None) (update_job_after_success sv job_id conversation_id w)
      | ExecutionError message \<Rightarrow>
          emit (CronJobExecuted job_id ''error'' (Some message)) (update_job_after_error sv job_id message w)
      | ExecutionRetrying attempt \<Rightarrow> snd (update_row sv job_id (default_params\<lparr>ku_retry_count := Some attempt\<rparr>) w)
      | ExecutionSkipped \<Rightarrow>
          emit (CronJobExecuted job_id ''skipped'' None) (snd (update_row sv job_id skipped_params w)))"

section \<open>Start, tick, resumption and manual run\<close>

fun schedule_rows :: "('d, 'w, 's, 'z) cron_service \<Rightarrow> cron_job_row list \<Rightarrow> ('d, 'w) cron_world \<Rightarrow> ('d, 'w) cron_world" where
  "schedule_rows sv [] w = w"
| "schedule_rows sv (r # rs) w =
     schedule_rows sv rs (case cron_job_from_row (ks_json sv) r of Inl _ \<Rightarrow> w | Inr job \<Rightarrow> on_timers (schedule_job job) w)"

definition init :: "('d, 'w, 's, 'z) cron_service \<Rightarrow> ('d, 'w) cron_world \<Rightarrow> ('d, 'w) cron_world" where
  "init sv w =
     (case on_cron_repo (kq_list_enabled (ks_repo sv)) w of
        (Inl _, w) \<Rightarrow> w
      | (Inr rows, w) \<Rightarrow> schedule_rows sv rows w)"

definition tick_begin ::
  "('d, 'w, 's, 'z) cron_service \<Rightarrow> id \<Rightarrow> ('d, 'w) cron_world \<Rightarrow> (cron_job \<times> prepared_execution) option \<times> ('d, 'w) cron_world" where
  "tick_begin sv job_id w =
     (case on_cron_repo (kq_get_by_id (ks_repo sv) job_id) w of
        (Inl _, w) \<Rightarrow> (None, w)
      | (Inr None, w) \<Rightarrow> (None, on_timers (cancel_job job_id) w)
      | (Inr (Some row), w) \<Rightarrow>
          (case cron_job_from_row (ks_json sv) row of
             Inl _ \<Rightarrow> (None, w)
           | Inr job0 \<Rightarrow>
               (case on_env (resolve_job_agent_type (ks_ports sv) job0) w of
                  (Inl _, w) \<Rightarrow> (None, w)
                | (Inr agent_type, w) \<Rightarrow>
                    let job = job0\<lparr>jb_agent_type := agent_type\<rparr>
                    in if \<not> jb_enabled job then (None, w)
                       else case on_env (prepare_scheduled (ks_ports sv) job) w of
                           (Inl result, w) \<Rightarrow> (None, handle_execution_result sv job result w)
                         | (Inr prepared, w) \<Rightarrow>
                             (case bind_materialized_existing_conversation_if_needed sv job (pe_conversation_id prepared) w of
                                (Inl e, w) \<Rightarrow> (None, handle_execution_result sv job (ExecutionError (cron_error_text e)) w)
                              | (Inr execution_job, w) \<Rightarrow> (Some (execution_job, prepared), w)))))"

definition tick_end ::
  "('d, 'w, 's, 'z) cron_service \<Rightarrow> cron_job \<Rightarrow> execution_result \<Rightarrow> ('d, 'w) cron_world \<Rightarrow> ('d, 'w) cron_world" where
  "tick_end = handle_execution_result"

definition tick :: "('d, 'w, 's, 'z) cron_service \<Rightarrow> id \<Rightarrow> ('d, 'w) cron_world \<Rightarrow> ('d, 'w) cron_world" where
  "tick sv job_id w =
     (case tick_begin sv job_id w of
        (None, w) \<Rightarrow> w
      | (Some (job, prepared), w) \<Rightarrow>
          (case on_env (execute_prepared_scheduled (ks_ports sv) job prepared) w of (result, w) \<Rightarrow> tick_end sv job result w))"

definition record_missed_execution :: "('d, 'w, 's, 'z) cron_service \<Rightarrow> cron_job \<Rightarrow> ('d, 'w) cron_world \<Rightarrow> ('d, 'w) cron_world" where
  "record_missed_execution sv job w =
     snd (update_row sv (jb_id job)
       (default_params\<lparr>ku_last_status := Some (Some ''missed''), ku_last_error := Some None, ku_retry_count := Some 0\<rparr>) w)"

definition missed_text :: "cron_job \<Rightarrow> string" where
  "missed_text job =
     ''Scheduled task '' @ [CHR 0x22] @ jb_name job @ [CHR 0x22] @ '' was missed while the system was unavailable. It was not run automatically.''"

definition insert_missed_job_tips :: "('d, 'w, 's, 'z) cron_service \<Rightarrow> cron_job \<Rightarrow> ('d, 'w) cron_world \<Rightarrow> ('d, 'w) cron_world" where
  "insert_missed_job_tips sv job w =
     (if blank (jb_conversation_id job) then w
      else case on_env (insert_tips_message (ks_ports sv) (jb_conversation_id job) (missed_text job)) w of
          (Inl _, w) \<Rightarrow> w
        | (Inr _, w) \<Rightarrow> emit (CronConversationTips (jb_conversation_id job) (missed_text job) ''warning'') w)"

definition reschedule_after_missed :: "('d, 'w, 's, 'z) cron_service \<Rightarrow> cron_job \<Rightarrow> ('d, 'w) cron_world \<Rightarrow> ('d, 'w) cron_world" where
  "reschedule_after_missed sv job w =
     (if is_at (jb_schedule job)
      then on_timers (cancel_job (jb_id job)) (snd (update_row sv (jb_id job) disable_params w))
      else case cron_now sv w of (now, w) \<Rightarrow>
        let next_run = compute_next_run (ks_lib sv) (jb_schedule job) now
        in case update_row sv (jb_id job) (default_params\<lparr>ku_next_run_at := Some next_run\<rparr>) w of
             (Inl _, w) \<Rightarrow> w
           | (Inr _, w) \<Rightarrow> on_timers (reschedule_job (job\<lparr>jb_next_run_at := next_run\<rparr>)) w)"

definition resume_job :: "('d, 'w, 's, 'z) cron_service \<Rightarrow> timestamp_ms \<Rightarrow> cron_job \<Rightarrow> ('d, 'w) cron_world \<Rightarrow> ('d, 'w) cron_world" where
  "resume_job sv now job w =
     (if case jb_next_run_at job of None \<Rightarrow> False | Some next_run \<Rightarrow> next_run < now
      then emit (CronJobExecuted (jb_id job) ''missed'' None)
             (reschedule_after_missed sv job (insert_missed_job_tips sv job (record_missed_execution sv job w)))
      else on_timers (reschedule_job job) w)"

fun resume_rows :: "('d, 'w, 's, 'z) cron_service \<Rightarrow> timestamp_ms \<Rightarrow> cron_job_row list \<Rightarrow> ('d, 'w) cron_world \<Rightarrow> ('d, 'w) cron_world" where
  "resume_rows sv now [] w = w"
| "resume_rows sv now (r # rs) w =
     resume_rows sv now rs (case cron_job_from_row (ks_json sv) r of Inl _ \<Rightarrow> w | Inr job \<Rightarrow> resume_job sv now job w)"

definition handle_system_resume :: "('d, 'w, 's, 'z) cron_service \<Rightarrow> ('d, 'w) cron_world \<Rightarrow> ('d, 'w) cron_world" where
  "handle_system_resume sv w =
     (case on_cron_repo (kq_list_enabled (ks_repo sv)) w of
        (Inl _, w) \<Rightarrow> w
      | (Inr rows, w) \<Rightarrow> (case cron_now sv w of (now, w) \<Rightarrow> resume_rows sv now rows w))"

text \<open>A manual run returns its conversation, and the execution it spawns unless the conversation is busy.\<close>

definition run_now ::
  "('d, 'w, 's, 'z) cron_service \<Rightarrow> id \<Rightarrow> ('d, 'w) cron_world
   \<Rightarrow> (cron_error + id \<times> (cron_job \<times> prepared_execution) option) \<times> ('d, 'w) cron_world" where
  "run_now sv job_id w =
     and_then (load_job sv job_id w) (\<lambda>job w.
     and_then (on_env (prepare_run_now (ks_ports sv) job) w) (\<lambda>prepared w.
       case prepared of
         RunAlreadyRunning c \<Rightarrow> (Inr (c, None), w)
       | RunReady pe \<Rightarrow>
           and_then (bind_materialized_existing_conversation_if_needed sv job (pe_conversation_id pe) w) (\<lambda>job w.
             (Inr (pe_conversation_id pe, Some (job, pe)), w))))"

definition run_now_end ::
  "('d, 'w, 's, 'z) cron_service \<Rightarrow> cron_job \<Rightarrow> execution_result \<Rightarrow> ('d, 'w) cron_world \<Rightarrow> ('d, 'w) cron_world" where
  "run_now_end sv job = handle_run_now_result sv (jb_id job)"

section \<open>Saved skills\<close>

definition lower_char :: "char \<Rightarrow> char" where
  "lower_char c = (if 65 \<le> (of_char c :: nat) \<and> (of_char c :: nat) \<le> 90 then char_of ((of_char c :: nat) + 32) else c)"

definition placeholder_patterns :: "string list" where
  "placeholder_patterns =
     [''todo:'', ''todo '', ''fill in'', ''placeholder'', ''replace this'', ''your '', ''insert '', ''add your'', ''write your'', ''put your'']"

text \<open>No letter outside ASCII has a lower case that is a part of a pattern, so ASCII letters are enough.\<close>

definition validate_skill_body_content :: "string \<Rightarrow> cron_error + unit" where
  "validate_skill_body_content content =
     (let trimmed = trim content
      in if trimmed = [] then Inl (InvalidSkillContent ''content must not be empty'')
         else if \<exists>pattern \<in> set placeholder_patterns. take (length pattern) (map lower_char trimmed) = pattern
         then Inl (InvalidSkillContent ''content appears to be placeholder text'')
         else Inr ())"

definition require_row ::
  "('d, 'w, 's, 'z) cron_service \<Rightarrow> id \<Rightarrow> ('d, 'w) cron_world \<Rightarrow> (cron_error + cron_job_row) \<times> ('d, 'w) cron_world" where
  "require_row sv job_id w =
     and_then (on_cron_repo (kq_get_by_id (ks_repo sv) job_id) w) (\<lambda>row w.
       (case row of None \<Rightarrow> Inl (JobNotFound job_id) | Some r \<Rightarrow> Inr r, w))"

definition save_skill ::
  "('d, 'w, 's, 'z) cron_service \<Rightarrow> id \<Rightarrow> string \<Rightarrow> ('d, 'w) cron_world \<Rightarrow> (cron_error + unit) \<times> ('d, 'w) cron_world" where
  "save_skill sv job_id content w =
     and_then (require_row sv job_id w) (\<lambda>row w.
     and_then (validate_skill_body_content content, w) (\<lambda>_ w.
     and_then (cron_job_from_row (ks_json sv) row, w) (\<lambda>job w.
     and_then (on_env (persist_legacy_skill_file (ks_ports sv) job content) w) (\<lambda>_ w.
     and_then (update_row sv job_id (default_params\<lparr>ku_skill_content := Some (Some content)\<rparr>) w) (\<lambda>_ w.
       on_env (cp_mark_suggest_saved (ks_ports sv) job_id) w)))))"

definition has_skill ::
  "('d, 'w, 's, 'z) cron_service \<Rightarrow> id \<Rightarrow> ('d, 'w) cron_world \<Rightarrow> (cron_error + bool) \<times> ('d, 'w) cron_world" where
  "has_skill sv job_id w =
     and_then (require_row sv job_id w) (\<lambda>row w.
     and_then (on_env (cp_has_skill (ks_ports sv) job_id) w) (\<lambda>file w.
       (Inr (file \<or> non_blank (kr_skill_content row) \<noteq> None), w)))"

definition delete_skill ::
  "('d, 'w, 's, 'z) cron_service \<Rightarrow> id \<Rightarrow> ('d, 'w) cron_world \<Rightarrow> (cron_error + unit) \<times> ('d, 'w) cron_world" where
  "delete_skill sv job_id w =
     and_then (require_row sv job_id w) (\<lambda>_ w.
     and_then (on_env (cp_delete_skill (ks_ports sv) job_id) w) (\<lambda>_ w.
       update_row sv job_id (default_params\<lparr>ku_skill_content := Some None\<rparr>) w))"

section \<open>Deleted conversations\<close>

text \<open>A job whose configuration names the deleted workspace gets one without it.\<close>

definition clear_row_workspace ::
  "('d, 'w, 's, 'z) cron_service \<Rightarrow> string \<Rightarrow> cron_job_row \<Rightarrow> ('d, 'w) cron_world \<Rightarrow> ('d, 'w) cron_world" where
  "clear_row_workspace sv path row w =
     (case kr_agent_config row of
        None \<Rightarrow> w
      | Some text \<Rightarrow>
          (case config_from_str (ks_json sv) text of
             Inl _ \<Rightarrow> w
           | Inr config \<Rightarrow>
               (case kg_workspace config of
                  None \<Rightarrow> w
                | Some workspace \<Rightarrow>
                    if \<not> cp_same_path (ks_ports sv) workspace path (kw_env w) then w
                    else case config_to_string (ks_json sv) (config\<lparr>kg_workspace := None\<rparr>) of
                        Inl _ \<Rightarrow> w
                      | Inr s \<Rightarrow> snd (update_row sv (kr_id row) (default_params\<lparr>ku_agent_config := Some (Some s)\<rparr>) w))))"

definition clear_deleted_workspace_from_jobs ::
  "('d, 'w, 's, 'z) cron_service \<Rightarrow> id \<Rightarrow> string \<Rightarrow> ('d, 'w) cron_world \<Rightarrow> ('d, 'w) cron_world" where
  "clear_deleted_workspace_from_jobs sv conversation_id path w =
     (case on_cron_repo (kq_list_by_conversation (ks_repo sv) conversation_id) w of
        (Inl _, w) \<Rightarrow> w
      | (Inr rows, w) \<Rightarrow> fold (clear_row_workspace sv path) rows w)"

definition delete_jobs_by_conversation ::
  "('d, 'w, 's, 'z) cron_service \<Rightarrow> id \<Rightarrow> ('d, 'w) cron_world \<Rightarrow> ('d, 'w) cron_world" where
  "delete_jobs_by_conversation sv conversation_id w =
     (case on_env (auto_workspace_to_delete_for_conversation (ks_ports sv) conversation_id) w of
        (Inr (Some path), w) \<Rightarrow> clear_deleted_workspace_from_jobs sv conversation_id path w
      | (_, w) \<Rightarrow> w)"

section \<open>Jobs managed from a conversation\<close>

definition verify_conversation_helper_context ::
  "'w cron_ports \<Rightarrow> id \<Rightarrow> id \<Rightarrow> 'w \<Rightarrow> (cron_error + cron_conversation_row) \<times> 'w" where
  "verify_conversation_helper_context p user_id conversation_id w =
     (if \<not> cp_claimed p conversation_id w
      then (Inl (InvalidAgentConfig ''cron helper can only manage jobs during an active conversation turn''), w)
      else and_then (get_conversation_row p conversation_id w) (\<lambda>row w.
        (case row of
           Some r \<Rightarrow> if cv_user_id r = user_id then Inr r else Inl (ConversationFailed (''Conversation not found: '' @ conversation_id))
         | None \<Rightarrow> Inl (ConversationFailed (''Conversation not found: '' @ conversation_id)), w)))"

record conversation_cron_request =
  hq_name :: string
  hq_schedule :: string
  hq_schedule_description :: string
  hq_message :: string

definition create_for_conversation_helper ::
  "('d, 'w, 's, 'z) cron_service \<Rightarrow> id \<Rightarrow> id \<Rightarrow> conversation_cron_request \<Rightarrow> ('d, 'w) cron_world
   \<Rightarrow> (cron_error + id \<times> string) \<times> ('d, 'w) cron_world" where
  "create_for_conversation_helper sv user_id conversation_id req w =
     and_then (on_env (verify_conversation_helper_context (ks_ports sv) user_id conversation_id) w) (\<lambda>row w.
     case on_env (cp_conversation_config (ks_ports sv) conversation_id row) w of ((agent_type, config), w) \<Rightarrow>
     and_then (add_job_internal sv
         \<lparr>cq_name = hq_name req, cq_description = None, cq_schedule = Cron (hq_schedule req) None (Some (hq_schedule_description req)),
          cq_prompt = None, cq_message = Some (hq_message req), cq_conversation_id = conversation_id,
          cq_conversation_title = Some (cv_name row), cq_created_by = ''agent'', cq_execution_mode = Some ''existing'',
          cq_agent_config = config\<rparr> (Some agent_type) w) (\<lambda>job w.
       case on_env (bind_cron_job_to_conversation (ks_ports sv) conversation_id (jb_id job) (config_mode job)) w of
         (Inl e, w) \<Rightarrow> (Inl e, snd (remove_job sv (jb_id job) w))
       | (Inr _, w) \<Rightarrow>
           (Inr (jb_id job, ''Created cron job '' @ [CHR 0x27] @ jb_name job @ [CHR 0x27] @ '' ('' @ jb_id job @ '')''), w)))"

definition list_for_conversation_helper ::
  "('d, 'w, 's, 'z) cron_service \<Rightarrow> id \<Rightarrow> id \<Rightarrow> ('d, 'w) cron_world \<Rightarrow> (cron_error + cron_job list) \<times> ('d, 'w) cron_world" where
  "list_for_conversation_helper sv user_id conversation_id w =
     and_then (on_env (verify_conversation_helper_context (ks_ports sv) user_id conversation_id) w) (\<lambda>_ w.
       list_jobs sv (Some conversation_id) w)"

definition update_for_conversation_helper ::
  "('d, 'w, 's, 'z) cron_service \<Rightarrow> id \<Rightarrow> id \<Rightarrow> id \<Rightarrow> conversation_cron_request \<Rightarrow> ('d, 'w) cron_world
   \<Rightarrow> (cron_error + cron_job) \<times> ('d, 'w) cron_world" where
  "update_for_conversation_helper sv user_id conversation_id job_id req w =
     and_then (on_env (verify_conversation_helper_context (ks_ports sv) user_id conversation_id) w) (\<lambda>_ w.
     and_then (get_job sv job_id w) (\<lambda>existing w.
       if jb_conversation_id existing \<noteq> conversation_id then (Inl (JobNotFound job_id), w)
       else and_then (update_job sv job_id
              \<lparr>uq_name = Some (hq_name req), uq_description = None, uq_enabled = None,
               uq_schedule = Some (Cron (hq_schedule req) None (Some (hq_schedule_description req))), uq_message = Some (hq_message req),
               uq_execution_mode = None, uq_agent_config = None, uq_conversation_title = None, uq_max_retries = None\<rparr> w) (\<lambda>job w.
            and_then (on_env (bind_cron_job_to_conversation (ks_ports sv) conversation_id (jb_id job) (config_mode job)) w) (\<lambda>_ w.
              (Inr job, w)))))"

end
