(* ===== verification/CronHistory.thy ===== *)
theory CronHistory
  imports CronService
begin

text \<open>
  Every history of the cron service: the interleavings of its operations, of the timers and of running
  executions as a step relation, and the type of the stored rows. Every row of a reachable state parses
  and has a schedule that validates, so that no job is lost by the operations that skip a row they
  cannot read.
\<close>

section \<open>Rows that load\<close>

definition row_loads :: "('d, 'w, 's, 'z) cron_service \<Rightarrow> cron_job_row \<Rightarrow> bool" where
  "row_loads sv r \<longleftrightarrow>
     (case cron_job_from_row (ks_json sv) r of Inl _ \<Rightarrow> False | Inr job \<Rightarrow> validate_schedule (ks_lib sv) (jb_schedule job) = Inr ())"

text \<open>JSON printing of a configuration never fails, and parsing inverts it.\<close>

definition json_faithful :: "config_json \<Rightarrow> bool" where
  "json_faithful js \<longleftrightarrow> (\<forall>c. \<exists>s. js_config_to_string js c = Inr s \<and> js_config_from_str js s = Inr c)"

definition text_loads :: "config_json \<Rightarrow> string option \<Rightarrow> bool" where
  "text_loads js t \<longleftrightarrow> (case t of None \<Rightarrow> True | Some s \<Rightarrow> \<exists>c. config_from_str js s = Inr c)"

definition status_loads :: "string option \<Rightarrow> bool" where
  "status_loads t \<longleftrightarrow> (case t of None \<Rightarrow> True | Some s \<Rightarrow> s \<in> {''ok'', ''error'', ''skipped'', ''missed''})"

definition schedule_loads :: "('s, 'z) cron_lib \<Rightarrow> string \<Rightarrow> string \<Rightarrow> string option \<Rightarrow> string option \<Rightarrow> bool" where
  "schedule_loads lib kind value tz description \<longleftrightarrow>
     (\<exists>s. parse_schedule kind value tz description = Inr s \<and> validate_schedule lib s = Inr ())"

lemma transpose_loads: "(\<exists>b. transpose_opt f x = Inr b) \<longleftrightarrow> (case x of None \<Rightarrow> True | Some a \<Rightarrow> \<exists>b. f a = Inr b)"
  by (auto simp: bind_ok_Inr split: option.splits)

lemma row_loads_iff:
  "row_loads sv r \<longleftrightarrow>
     schedule_loads (ks_lib sv) (kr_schedule_kind r) (kr_schedule_value r) (kr_schedule_tz r) (kr_schedule_description r)
     \<and> kr_execution_mode r \<in> {''existing'', ''new_conversation''} \<and> kr_created_by r \<in> {''user'', ''agent''}
     \<and> text_loads (ks_json sv) (kr_agent_config r) \<and> status_loads (kr_last_status r)"
proof -
  have "row_loads sv r \<longleftrightarrow> (\<exists>job. cron_job_from_row (ks_json sv) r = Inr job \<and> validate_schedule (ks_lib sv) (jb_schedule job) = Inr ())"
    by (auto simp: row_loads_def split: sum.splits)
  also have "\<dots> \<longleftrightarrow> schedule_loads (ks_lib sv) (kr_schedule_kind r) (kr_schedule_value r) (kr_schedule_tz r) (kr_schedule_description r)
     \<and> (\<exists>m. execution_mode_from_str (kr_execution_mode r) = Inr m) \<and> (\<exists>c. created_by_from_str (kr_created_by r) = Inr c)
     \<and> (\<exists>c. transpose_opt (config_from_str (ks_json sv)) (kr_agent_config r) = Inr c)
     \<and> (\<exists>s. transpose_opt job_status_from_str (kr_last_status r) = Inr s)"
    by (auto simp: cron_job_from_row_def bind_ok_Inr schedule_loads_def)
  finally show ?thesis
    by (simp only: enums_parse transpose_loads text_loads_def status_loads_def)
qed

lemma row_loads_checks: "row_loads sv r \<Longrightarrow> row_checks r"
  by (auto simp: row_loads_iff row_checks_def schedule_loads_def parse_schedule_def status_loads_def split: if_splits option.splits)

section \<open>Updates that keep a row loadable\<close>

definition schedule_params :: "('s, 'z) cron_lib \<Rightarrow> update_cron_job_params \<Rightarrow> bool" where
  "schedule_params lib p \<longleftrightarrow>
     ku_schedule_kind p = None \<and> ku_schedule_value p = None \<and> ku_schedule_tz p = None \<and> ku_schedule_description p = None
     \<or> (\<exists>kind value tz description. ku_schedule_kind p = Some kind \<and> ku_schedule_value p = Some value \<and> ku_schedule_tz p = Some tz
          \<and> ku_schedule_description p = Some description \<and> schedule_loads lib kind value tz description)"

definition params_load :: "('d, 'w, 's, 'z) cron_service \<Rightarrow> update_cron_job_params \<Rightarrow> bool" where
  "params_load sv p \<longleftrightarrow>
     schedule_params (ks_lib sv) p \<and> (case ku_execution_mode p of None \<Rightarrow> True | Some m \<Rightarrow> m \<in> {''existing'', ''new_conversation''})
     \<and> (case ku_agent_config p of None \<Rightarrow> True | Some t \<Rightarrow> text_loads (ks_json sv) t)
     \<and> (case ku_last_status p of None \<Rightarrow> True | Some t \<Rightarrow> status_loads t)"

lemma set_field_simps [simp]: "set_field None x = x" "set_field (Some y) x = y"
  by (simp_all add: set_field_def)

lemma updated_row_loads: "params_load sv p \<Longrightarrow> row_loads sv r \<Longrightarrow> row_loads sv (updated_job now p r)"
proof -
  assume p: "params_load sv p" and r: "row_loads sv r"
  have "schedule_loads (ks_lib sv) (set_field (ku_schedule_kind p) (kr_schedule_kind r)) (set_field (ku_schedule_value p) (kr_schedule_value r))
      (set_field (ku_schedule_tz p) (kr_schedule_tz r)) (set_field (ku_schedule_description p) (kr_schedule_description r))"
    using p r unfolding params_load_def schedule_params_def row_loads_iff by (elim conjE disjE exE) (simp_all only: set_field_simps)
  moreover have "set_field (ku_execution_mode p) (kr_execution_mode r) \<in> {''existing'', ''new_conversation''}"
    "text_loads (ks_json sv) (set_field (ku_agent_config p) (kr_agent_config r))" "status_loads (set_field (ku_last_status p) (kr_last_status r))"
    using p r unfolding params_load_def row_loads_iff by (simp_all only: set_field_def split: option.splits) blast+
  ultimately show ?thesis
    using r by (simp only: row_loads_iff updated_job_def cron_job_row.select_convs)
qed

lemma plain_params_load [simp]:
  "ku_schedule_kind p = None \<Longrightarrow> ku_schedule_value p = None \<Longrightarrow> ku_schedule_tz p = None \<Longrightarrow> ku_schedule_description p = None \<Longrightarrow>
   ku_execution_mode p = None \<Longrightarrow> ku_agent_config p = None \<Longrightarrow>
   (case ku_last_status p of None \<Rightarrow> True | Some t \<Rightarrow> status_loads t) \<Longrightarrow> params_load sv p"
  by (simp add: params_load_def schedule_params_def)

lemma status_loads_simps [simp]:
  "status_loads None" "status_loads (Some ''ok'')" "status_loads (Some ''error'')" "status_loads (Some ''skipped'')" "status_loads (Some ''missed'')"
  by (simp_all add: status_loads_def)

lemma default_params_simps [simp]:
  "ku_schedule_kind default_params = None" "ku_schedule_value default_params = None" "ku_schedule_tz default_params = None"
  "ku_schedule_description default_params = None" "ku_execution_mode default_params = None" "ku_agent_config default_params = None"
  "ku_last_status default_params = None"
  by (simp_all add: default_params_def)

lemma fixed_params_load [simp]: "params_load sv disable_params" "params_load sv skipped_params"
  by (simp_all add: disable_params_def skipped_params_def)

lemma schedule_fields_load:
  assumes "schedule_in_range s" "validate_schedule lib s = Inr ()" "schedule_to_row_fields s = (kind, value, tz, description)"
  shows "schedule_loads lib kind value tz description"
  using schedule_round_trip(1) [OF assms(1,3)] assms(2) by (auto simp: schedule_loads_def)

lemma json_text_loads:
  assumes "json_faithful js" "transpose_opt (config_to_string js) c = Inr t"
  shows "text_loads js t"
proof (cases c)
  case (Some config)
  obtain s where "js_config_to_string js config = Inr s" "js_config_from_str js s = Inr config"
    using assms(1) by (auto simp: json_faithful_def)
  then show ?thesis using assms(2) Some by (auto simp: config_to_string_def config_from_str_def text_loads_def)
qed (use assms(2) in \<open>simp add: text_loads_def\<close>)

section \<open>Operations\<close>

definition rows_load :: "('d \<Rightarrow> cron_job_row list) \<Rightarrow> ('d, 'w, 's, 'z) cron_service \<Rightarrow> ('d, 'w) cron_world \<Rightarrow> bool" where
  "rows_load rows sv w \<longleftrightarrow> (\<forall>r \<in> set (rows (kw_db w)). row_loads sv r)"

lemma kw_db_simps [simp]:
  "kw_db (snd (on_env op w)) = kw_db w" "kw_db (on_timers f w) = kw_db w" "kw_db (emit e w) = kw_db w" "kw_db (snd (cron_now sv w)) = kw_db w"
  by (simp_all add: on_env_def on_timers_def emit_def cron_now_def split: prod.splits)

lemma kw_db_cases: "on_env op w = (x, w') \<Longrightarrow> kw_db w' = kw_db w" "cron_now sv w = (now, w') \<Longrightarrow> kw_db w' = kw_db w"
  by (auto simp: on_env_def cron_now_def split: prod.splits)

lemma bind_keeps_db: "kw_db (bind_existing_conversation_if_needed sv job w) = kw_db w"
  by (simp add: bind_existing_conversation_if_needed_def)

lemma rows_load_cong [intro]: "rows_load rows sv w \<Longrightarrow> kw_db w' = kw_db w \<Longrightarrow> rows_load rows sv w'"
  by (simp add: rows_load_def)

lemma rows_load_simps [simp]:
  "rows_load rows sv (snd (on_env op w)) = rows_load rows sv w" "rows_load rows sv (on_timers f w) = rows_load rows sv w"
  "rows_load rows sv (emit e w) = rows_load rows sv w" "rows_load rows sv (snd (cron_now sv' w)) = rows_load rows sv w"
  "rows_load rows sv (bind_existing_conversation_if_needed sv' job w) = rows_load rows sv w"
  by (simp_all add: rows_load_def bind_keeps_db)

lemmas rows_and_then = and_then_keeps [where P = "rows_load rows sv" for rows sv]

context cron_store
begin

lemma update_keeps:
  assumes "ks_repo sv = repo" "params_load sv p" "rows_load rows sv w"
  shows "rows_load rows sv (snd (update_row sv i p w))"
proof -
  obtain now w1 where c: "cron_now sv w = (now, w1)" by fastforce
  obtain x d where u: "kq_update repo now i p (kw_db w1) = (x, d)" by fastforce
  have "kw_db w1 = kw_db w" using kw_db_cases(2) [OF c] .
  then have "\<forall>r \<in> set (rows d). row_loads sv r"
    using update [OF u] assms(2,3) by (auto simp: rows_load_def change_row_def updated_row_loads split: sum.splits if_splits)
  then show ?thesis using assms(1) c u by (simp add: update_row_def on_cron_repo_def rows_load_def)
qed

lemma query_keeps:
  assumes "\<And>x d'. op (kw_db w) = (x, d') \<Longrightarrow> rows d' = rows (kw_db w)"
  shows "rows (kw_db (snd (on_cron_repo op w))) = rows (kw_db w)"
  using assms by (cases "op (kw_db w)") (simp add: on_cron_repo_def)

lemma get_keeps: "rows (kw_db (snd (on_cron_repo (kq_get_by_id repo i) w))) = rows (kw_db w)"
  by (rule query_keeps) (use get in blast)

lemma list_keeps:
  "rows (kw_db (snd (on_cron_repo (kq_list_enabled repo) w))) = rows (kw_db w)"
  "rows (kw_db (snd (on_cron_repo (kq_list_all repo) w))) = rows (kw_db w)"
  "rows (kw_db (snd (on_cron_repo (kq_list_by_conversation repo c) w))) = rows (kw_db w)"
  by (rule query_keeps, use list_enabled list_all list_by_conversation in blast)+

lemma found_row:
  assumes "fst (on_cron_repo (kq_get_by_id repo i) w) = Inr (Some r)"
  shows "r \<in> set (rows (kw_db w))" "kr_id r = i"
proof -
  obtain x d where g: "kq_get_by_id repo i (kw_db w) = (x, d)" by fastforce
  have "List.find (\<lambda>x. kr_id x = i) (rows (kw_db w)) = Some r"
    using get [OF g] assms g by (auto simp: on_cron_repo_def)
  then show "r \<in> set (rows (kw_db w))" "kr_id r = i" by (auto simp: find_Some_iff)
qed

lemma load_keeps:
  assumes [simp]: "ks_repo sv = repo"
  shows "rows (kw_db (snd (load_job sv i w))) = rows (kw_db w)"
  unfolding load_job_def
  by (rule and_then_keeps [where P = "\<lambda>w'. rows (kw_db w') = rows (kw_db w)"])
     (auto simp: get_keeps snd_and_then_pure intro!: and_then_keeps [where P = "\<lambda>w'. rows (kw_db w') = rows (kw_db w)"] split: option.splits)

lemma loaded_job:
  assumes "ks_repo sv = repo" "rows_load rows sv w" "fst (load_job sv i w) = Inr job"
  shows "validate_schedule (ks_lib sv) (jb_schedule job) = Inr ()" "schedule_in_range (jb_schedule job)" "jb_id job = i"
proof -
  obtain q w1 where g: "on_cron_repo (kq_get_by_id repo i) w = (q, w1)" by fastforce
  obtain r job0 where r: "q = Inr (Some r)" "cron_job_from_row (ks_json sv) r = Inr job0" "jb_schedule job = jb_schedule job0" "jb_id job = jb_id job0"
    using assms(1,3) g by (auto simp: load_job_def and_then_def split: prod.splits sum.splits option.splits)
  have "r \<in> set (rows (kw_db w))" "kr_id r = i" using found_row [of i w r] g r(1) by simp_all
  then show "validate_schedule (ks_lib sv) (jb_schedule job) = Inr ()" "schedule_in_range (jb_schedule job)" "jb_id job = i"
    using assms(2) r by (auto simp: rows_load_def row_loads_def cron_job_from_row_def bind_ok_Inr dest: parsed_schedule_in_range)
qed

lemma after_success_keeps:
  assumes [simp]: "ks_repo sv = repo" and "rows_load rows sv w"
  shows "rows_load rows sv (update_job_after_success sv i c w)"
proof -
  obtain q w1 where g: "on_cron_repo (kq_get_by_id repo i) w = (q, w1)" by fastforce
  have w1: "rows_load rows sv w1" using assms(2) get_keeps [of i w] g by (simp add: rows_load_def)
  show ?thesis
  proof (cases "\<exists>r. q = Inr (Some r)")
    case True
    then obtain r where r: "q = Inr (Some r)" by blast
    obtain now w2 where c: "cron_now sv w1 = (now, w2)" by fastforce
    have w2: "rows_load rows sv w2" using w1 kw_db_cases(2) [OF c] by blast
    let ?binds = "should_bind_success_conversation (kr_execution_mode r) (kr_conversation_id r) c"
    let ?p = "default_params\<lparr>ku_last_run_at := Some (Some now), ku_last_status := Some (Some ''ok''), ku_last_error := Some None,
        ku_retry_count := Some 0, ku_run_count := Some (wrap_i64 (kr_run_count r + 1)), ku_conversation_id := if ?binds then Some c else None\<rparr>"
    obtain x w3 where u: "update_row sv i ?p w2 = (x, w3)" by fastforce
    have "rows_load rows sv w3" using update_keeps [OF assms(1) _ w2, of ?p i] u by simp
    then show ?thesis using g r c u by (auto simp: update_job_after_success_def Let_def split: sum.splits)
  qed (use g w1 in \<open>auto simp: update_job_after_success_def split: sum.splits option.splits\<close>)
qed

lemma after_error_keeps:
  assumes [simp]: "ks_repo sv = repo" and "rows_load rows sv w"
  shows "rows_load rows sv (update_job_after_error sv i m w)"
proof -
  obtain q w1 where g: "on_cron_repo (kq_get_by_id repo i) w = (q, w1)" by fastforce
  have w1: "rows_load rows sv w1" using assms(2) get_keeps [of i w] g by (simp add: rows_load_def)
  obtain now w2 where c: "cron_now sv w1 = (now, w2)" by fastforce
  have w2: "rows_load rows sv w2" using w1 kw_db_cases(2) [OF c] by blast
  show ?thesis using g w1 w2 c by (auto simp: update_job_after_error_def intro!: update_keeps split: sum.splits option.splits)
qed

lemma reschedule_keeps:
  assumes "ks_repo sv = repo" "rows_load rows sv w"
  shows "rows_load rows sv (reschedule_after_execution sv job w)" "rows_load rows sv (reschedule_after_missed sv job w)"
proof -
  obtain now w1 where c: "cron_now sv w = (now, w1)" by fastforce
  have w1: "rows_load rows sv w1" using assms(2) kw_db_cases(2) [OF c] by blast
  let ?p = "default_params\<lparr>ku_next_run_at := Some (compute_next_run (ks_lib sv) (jb_schedule job) now)\<rparr>"
  have u: "rows_load rows sv (snd (update_row sv (jb_id job) ?p w1))" "rows_load rows sv (snd (update_row sv (jb_id job) disable_params w))"
    by (rule update_keeps [OF assms(1) _ w1], simp) (rule update_keeps [OF assms(1) _ assms(2)], simp)
  then show "rows_load rows sv (reschedule_after_execution sv job w)"
    using c by (auto simp: reschedule_after_execution_def Let_def)
  show "rows_load rows sv (reschedule_after_missed sv job w)"
    using c u by (auto simp: reschedule_after_missed_def Let_def split: sum.splits prod.splits)
qed

lemma retry_keeps: "rows_load rows sv w \<Longrightarrow> rows_load rows sv (schedule_retry sv i w)"
  by (auto simp: schedule_retry_def Let_def rows_load_def split: prod.splits dest: kw_db_cases)

lemma result_keeps:
  assumes "ks_repo sv = repo" "rows_load rows sv w"
  shows "rows_load rows sv (handle_execution_result sv job x w)" "rows_load rows sv (handle_run_now_result sv i x w)"
proof -
  note k = after_success_keeps [OF assms(1)] after_error_keeps [OF assms(1)] reschedule_keeps(1) [OF assms(1)] retry_keeps
    update_keeps [OF assms(1)] assms(2)
  show "rows_load rows sv (handle_execution_result sv job x w)"
    unfolding handle_execution_result_def by (cases x) (simp_all add: k)
  show "rows_load rows sv (handle_run_now_result sv i x w)"
    unfolding handle_run_now_result_def by (cases x) (simp_all add: k)
qed

lemma bind_materialized_keeps:
  assumes "ks_repo sv = repo" "rows_load rows sv w"
  shows "rows_load rows sv (snd (bind_materialized_existing_conversation_if_needed sv job c w))"
  unfolding bind_materialized_existing_conversation_if_needed_def Let_def
  using assms by (auto intro!: rows_and_then update_keeps)

lemma tick_job_keeps:
  assumes "ks_repo sv = repo" "rows_load rows sv w"
  shows "rows_load rows sv (snd (case on_env (prepare_scheduled (ks_ports sv) job) w of
      (Inl result, w) \<Rightarrow> (None, handle_execution_result sv job result w)
    | (Inr prepared, w) \<Rightarrow>
        (case bind_materialized_existing_conversation_if_needed sv job (pe_conversation_id prepared) w of
           (Inl e, w) \<Rightarrow> (None, handle_execution_result sv job (ExecutionError (cron_error_text e)) w)
         | (Inr execution_job, w) \<Rightarrow> (Some (execution_job, prepared), w))))"
proof -
  obtain x w1 where e: "on_env (prepare_scheduled (ks_ports sv) job) w = (x, w1)" by fastforce
  have w1: "rows_load rows sv w1" using assms(2) rows_load_simps(1) [of rows sv "prepare_scheduled (ks_ports sv) job" w] e by simp
  show ?thesis
  proof (cases x)
    case (Inr pe)
    obtain y w2 where b: "bind_materialized_existing_conversation_if_needed sv job (pe_conversation_id pe) w1 = (y, w2)" by fastforce
    have "rows_load rows sv w2" using bind_materialized_keeps [OF assms(1) w1, of job "pe_conversation_id pe"] b by simp
    then show ?thesis using e b Inr result_keeps(1) [OF assms(1)] by (cases y) auto
  qed (use e w1 result_keeps(1) [OF assms(1)] in auto)
qed

lemma tick_keeps:
  assumes [simp]: "ks_repo sv = repo" and "rows_load rows sv w"
  shows "rows_load rows sv (snd (tick_begin sv i w))"
proof -
  obtain q w1 where g: "on_cron_repo (kq_get_by_id repo i) w = (q, w1)" by fastforce
  have w1: "rows_load rows sv w1" using assms(2) get_keeps [of i w] g by (simp add: rows_load_def)
  show ?thesis
  proof (cases "\<exists>r job0. q = Inr (Some r) \<and> cron_job_from_row (ks_json sv) r = Inr job0")
    case True
    then obtain r job0 where r: "q = Inr (Some r)" "cron_job_from_row (ks_json sv) r = Inr job0" by blast
    obtain x w2 where e: "on_env (resolve_job_agent_type (ks_ports sv) job0) w1 = (x, w2)" by fastforce
    have w2: "rows_load rows sv w2"
      using w1 rows_load_simps(1) [of rows sv "resolve_job_agent_type (ks_ports sv) job0" w1] e by simp
    show ?thesis
      using g r e w2 tick_job_keeps [OF assms(1) w2] by (cases x) (simp_all add: tick_begin_def Let_def)
  qed (use g w1 in \<open>auto simp: tick_begin_def split: sum.splits option.splits\<close>)
qed

end

section \<open>New and changed jobs\<close>

lemma job_status_loads: "status_loads (Some (job_status_str s))"
  by (cases s) simp_all

lemma job_to_row_loads:
  assumes "json_faithful (ks_json sv)" "schedule_in_range (jb_schedule job)" "validate_schedule (ks_lib sv) (jb_schedule job) = Inr ()"
    and "cron_job_to_row (ks_json sv) job = Inr row"
  shows "row_loads sv row"
proof -
  obtain kind val tz description where f: "schedule_to_row_fields (jb_schedule job) = (kind, val, tz, description)"
    by (cases "schedule_to_row_fields (jb_schedule job)") auto
  obtain t where t: "transpose_opt (config_to_string (ks_json sv)) (jb_agent_config job) = Inr t"
    using assms(4) f by (auto simp: cron_job_to_row_def bind_ok_Inr)
  have row: "kr_schedule_kind row = kind" "kr_schedule_value row = val" "kr_schedule_tz row = tz" "kr_schedule_description row = description"
    "kr_execution_mode row = execution_mode_str (jb_execution_mode job)" "kr_created_by row = created_by_str (jb_created_by job)"
    "kr_agent_config row = t" "kr_last_status row = map_option job_status_str (jb_last_status job)"
    using assms(4) f t by (auto simp: cron_job_to_row_def)
  have "status_loads (map_option job_status_str (jb_last_status job))"
    by (cases "jb_last_status job") (simp_all add: job_status_loads)
  moreover have "execution_mode_str (jb_execution_mode job) \<in> {''existing'', ''new_conversation''}" "created_by_str (jb_created_by job) \<in> {''user'', ''agent''}"
    by (cases "jb_execution_mode job"; simp) (cases "jb_created_by job"; simp)
  ultimately show ?thesis
    unfolding row_loads_iff row using schedule_fields_load [OF assms(2,3) f] json_text_loads [OF assms(1) t] by blast
qed

definition request_in_range :: "update_cron_job_request \<Rightarrow> bool" where
  "request_in_range req \<longleftrightarrow> (case uq_schedule req of None \<Rightarrow> True | Some s \<Rightarrow> schedule_in_range s)"

definition job_valid :: "('d, 'w, 's, 'z) cron_service \<Rightarrow> cron_job \<Rightarrow> bool" where
  "job_valid sv job \<longleftrightarrow> schedule_in_range (jb_schedule job) \<and> validate_schedule (ks_lib sv) (jb_schedule job) = Inr ()"

lemma job_valid_schedule: "jb_schedule job = jb_schedule job' \<Longrightarrow> job_valid sv job' \<Longrightarrow> job_valid sv job"
  by (simp add: job_valid_def)

lemma update_schedule_valid:
  assumes "request_in_range req" "job_valid sv job" "update_schedule (ks_lib sv) req job = Inr job'"
  shows "job_valid sv job'"
proof (cases "uq_schedule req")
  case (Some dto)
  then have "schedule_in_range (schedule_from_dto_with_existing_timezone dto (jb_schedule job))"
    using assms(1) by (cases dto) (auto simp: request_in_range_def schedule_from_dto_with_existing_timezone_def)
  then show ?thesis using assms(3) Some by (auto simp: update_schedule_def bind_ok_Inr job_valid_def Let_def)
qed (use assms(2,3) in \<open>simp add: update_schedule_def\<close>)

lemma update_mode_schedule:
  assumes "fst (update_mode sv req job w) = Inr (job', clear)"
  shows "jb_schedule job' = jb_schedule job" "\<And>s. uq_execution_mode req = Some s \<Longrightarrow> s \<in> {''existing'', ''new_conversation''}"
proof -
  have "s \<in> {''existing'', ''new_conversation''}" if q: "uq_execution_mode req = Some s" for s
  proof -
    obtain m where "parse_execution_mode (Some s) = Inr m"
      using assms q by (cases "parse_execution_mode (Some s)") (simp_all add: update_mode_def)
    then show ?thesis by (simp add: parse_execution_mode_def execution_mode_from_str_def split: if_splits)
  qed
  then show "\<And>s. uq_execution_mode req = Some s \<Longrightarrow> s \<in> {''existing'', ''new_conversation''}" .
  show "jb_schedule job' = jb_schedule job"
    using assms by (auto simp: update_mode_def and_then_def split: option.splits sum.splits if_splits prod.splits)
qed

lemma update_config_schedule: "fst (update_config sv req m job w) = Inr job' \<Longrightarrow> jb_schedule job' = jb_schedule job"
  by (auto simp: update_config_def and_then_def Let_def split: option.splits sum.splits if_splits prod.splits)

lemma clear_workspace_schedule: "jb_schedule (fst (fst (clear_auto_workspace_from_job_config p job c w))) = jb_schedule job"
  by (auto simp: clear_auto_workspace_from_job_config_def split: option.splits prod.splits sum.splits)

lemma refresh_schedule: "jb_schedule (fst (refresh_next_run sv req job w)) = jb_schedule job"
  by (simp add: refresh_next_run_def split_beta)

lemma clear_if_schedule: "jb_schedule (fst (fst (clear_workspace_if sv clear job c w))) = jb_schedule job"
  using clear_workspace_schedule [of "ks_ports sv" job c "kw_env w"] by (simp add: clear_workspace_if_def on_env_def split_beta)

lemma updated_job_valid:
  assumes "request_in_range req" "job_valid sv old" "fst (updated_cron_job sv req old w) = Inr (job, clear, config_changed)"
  shows "job_valid sv job" "\<And>s. uq_execution_mode req = Some s \<Longrightarrow> s \<in> {''existing'', ''new_conversation''}"
proof -
  obtain job1 where job1: "update_schedule (ks_lib sv) req (update_plain req old) = Inr job1"
    using assms(3) unfolding updated_cron_job_def by (elim and_then_Inr) simp
  have v1: "job_valid sv job1"
    by (rule update_schedule_valid [OF assms(1) _ job1]) (rule job_valid_schedule [OF _ assms(2)], simp add: update_plain_def)
  let ?job1 = "job1\<lparr>jb_message := set_field (uq_message req) (jb_message job1)\<rparr>"
  obtain job2 clear2 w2 where m: "update_mode sv req ?job1 w = (Inr (job2, clear2), w2)"
    using assms(3) job1 unfolding updated_cron_job_def by (cases "update_mode sv req ?job1 w") (auto elim!: and_then_Inr)
  note mode = update_mode_schedule [of sv req ?job1 w job2 clear2, unfolded m, simplified]
  obtain job3 w3 where c: "update_config sv req (jb_execution_mode old) job2 w2 = (Inr job3, w3)"
    using assms(3) job1 m unfolding updated_cron_job_def
    by (cases "update_config sv req (jb_execution_mode old) job2 w2") (auto elim!: and_then_Inr)
  have "jb_schedule job3 = jb_schedule job2" using update_config_schedule [of sv req "jb_execution_mode old" job2 w2 job3] c by simp
  moreover have "jb_schedule job = jb_schedule job3"
    using assms(3) job1 m c by (auto simp: updated_cron_job_def split_beta refresh_schedule clear_if_schedule update_title_and_retries_def)
  ultimately show "job_valid sv job" using v1 mode(1) by (auto intro: job_valid_schedule)
  show "\<And>s. uq_execution_mode req = Some s \<Longrightarrow> s \<in> {''existing'', ''new_conversation''}" using mode(2) by simp
qed

lemma final_params_load:
  assumes "json_faithful (ks_json sv)" "job_valid sv job" "\<And>s. uq_execution_mode req = Some s \<Longrightarrow> s \<in> {''existing'', ''new_conversation''}"
    and "final_update_params (ks_json sv) job req clear config_changed = Inr params"
  shows "params_load sv params"
proof -
  let ?p = "build_update_params (ks_json sv) job req"
  obtain kind val tz description where f: "schedule_to_row_fields (jb_schedule job) = (kind, val, tz, description)"
    by (cases "schedule_to_row_fields (jb_schedule job)") auto
  have loads: "schedule_loads (ks_lib sv) kind val tz description"
    by (rule schedule_fields_load [OF _ _ f]) (use assms(2) in \<open>simp_all add: job_valid_def\<close>)
  have printed: "text_loads (ks_json sv) (Some (case js_config_to_string (ks_json sv) c of Inr s \<Rightarrow> s | Inl _ \<Rightarrow> []))" for c
  proof -
    obtain s where "js_config_to_string (ks_json sv) c = Inr s" "js_config_from_str (ks_json sv) s = Inr c"
      using assms(1) by (auto simp: json_faithful_def)
    then show ?thesis by (simp add: text_loads_def config_from_str_def)
  qed
  have "schedule_params (ks_lib sv) ?p" using loads f by (auto simp: schedule_params_def build_update_params_def Let_def)
  moreover have "ku_last_status ?p = None" "ku_execution_mode ?p = uq_execution_mode req"
    "case ku_agent_config ?p of None \<Rightarrow> True | Some t \<Rightarrow> text_loads (ks_json sv) t"
    using printed f by (auto simp: build_update_params_def Let_def split: option.splits)
  moreover have "text_loads (ks_json sv) t" if "transpose_opt (config_to_string (ks_json sv)) (jb_agent_config job) = Inr t" for t
    using json_text_loads [OF assms(1) that] .
  ultimately show ?thesis
    using assms(3,4) unfolding final_update_params_def Let_def
    by (cases "uq_execution_mode req"; cases config_changed; cases clear) (auto simp: params_load_def schedule_params_def bind_ok_Inr)
qed

context cron_store
begin

lemma insert_keeps:
  assumes "ks_repo sv = repo" "rows_load rows sv w" "row_loads sv row"
  shows "rows_load rows sv (snd (on_cron_repo (kq_insert (ks_repo sv) row) w))"
proof -
  obtain x d where i: "kq_insert repo row (kw_db w) = (x, d)" by fastforce
  then show ?thesis using insert_job [OF i] assms by (auto simp: on_cron_repo_def rows_load_def split: sum.splits)
qed

lemma store_keeps:
  assumes "ks_repo sv = repo" "json_faithful (ks_json sv)" "rows_load rows sv w" "job_valid sv job"
  shows "rows_load rows sv (snd (store_new_job sv job w))"
proof -
  have "row_loads sv row" if "cron_job_to_row (ks_json sv) job = Inr row" for row
    using job_to_row_loads [OF assms(2) _ _ that] assms(4) by (simp add: job_valid_def)
  then show ?thesis
    unfolding store_new_job_def using assms(3) insert_keeps [OF assms(1)]
    by (intro rows_and_then) simp_all
qed

lemma add_keeps:
  assumes "ks_repo sv = repo" "json_faithful (ks_json sv)" "schedule_in_range (cq_schedule req)" "rows_load rows sv w"
  shows "rows_load rows sv (snd (add_job_internal sv req t w))"
proof (cases "validate_schedule (ks_lib sv) (cq_schedule req)")
  case (Inr u)
  have "job_valid sv (new_cron_job (ks_lib sv) req a m c g n i)" for a m c g n i
    using assms(3) Inr by (simp add: job_valid_def new_cron_job_def)
  note stored = store_keeps [OF assms(1,2) _ this]
  have config: "rows_load rows sv (snd (new_job_config sv a dto w'))" if "rows_load rows sv w'" for a dto w'
    using that by (cases dto) (simp_all add: new_job_config_def snd_and_then_pure)
  have typed: "rows_load rows sv (snd (case t of Some a \<Rightarrow> (Inr a, w) | None \<Rightarrow> on_env op w))" for op
    using assms(4) by (cases t) simp_all
  show ?thesis
    unfolding add_job_internal_def Inr and_then_simps split_beta
    by (intro rows_and_then typed config stored) (simp_all add: assms(4))
qed (use assms(4) in \<open>simp add: add_job_internal_def\<close>)

lemma update_parts_keep:
  assumes "rows_load rows sv w"
  shows "rows_load rows sv (snd (update_mode sv req job w))" "rows_load rows sv (snd (update_config sv req m job w))"
    "rows_load rows sv (snd (refresh_next_run sv req job w))" "rows_load rows sv (snd (clear_workspace_if sv clear job c w))"
proof -
  show "rows_load rows sv (snd (update_mode sv req job w))"
    unfolding update_mode_def using assms by (cases "uq_execution_mode req") (auto intro!: rows_and_then)
  show "rows_load rows sv (snd (update_config sv req m job w))"
    unfolding update_config_def Let_def using assms by (cases "uq_agent_config req") (auto intro!: rows_and_then)
  show "rows_load rows sv (snd (refresh_next_run sv req job w))" "rows_load rows sv (snd (clear_workspace_if sv clear job c w))"
    using assms by (simp_all add: refresh_next_run_def clear_workspace_if_def split_beta)
qed

lemma updated_keeps: "rows_load rows sv w \<Longrightarrow> rows_load rows sv (snd (updated_cron_job sv req old w))"
  unfolding updated_cron_job_def split_beta by (intro rows_and_then) (simp_all add: update_parts_keep)

lemma update_job_keeps:
  assumes "ks_repo sv = repo" "json_faithful (ks_json sv)" "request_in_range req" "rows_load rows sv w"
  shows "rows_load rows sv (snd (update_job sv i req w))"
  unfolding update_job_def
proof (rule rows_and_then)
  show loaded: "rows_load rows sv (snd (load_job sv i w))" using load_keeps [OF assms(1)] assms(4) by (simp add: rows_load_def)
  fix old
  assume old: "fst (load_job sv i w) = Inr old"
  have valid: "job_valid sv old" using loaded_job [OF assms(1,4) old] by (simp add: job_valid_def)
  let ?w = "snd (load_job sv i w)"
  have params: "params_load sv params" if "fst (updated_cron_job sv req old ?w) = Inr x" "final_update_params (ks_json sv) (fst x) req (fst (snd x)) (snd (snd x)) = Inr params"
    for x params
    using final_params_load [OF assms(2) updated_job_valid [OF assms(3) valid, of ?w "fst x" "fst (snd x)" "snd (snd x)"]] that by simp
  show "rows_load rows sv (snd (and_then (updated_cron_job sv req old ?w) (\<lambda>changed w. case changed of (job, clear, config_changed) \<Rightarrow>
     and_then (on_env (validate_job_workspace (ks_ports sv) job) w) (\<lambda>_ w.
     and_then (final_update_params (ks_json sv) job req clear config_changed, w) (\<lambda>params w.
     and_then (update_row sv i params w) (\<lambda>_ w.
       let w1 = (if clear then snd (on_env (unbind_cron_job_from_conversation (ks_ports sv) (jb_conversation_id old) (jb_id job)) w) else w)
       in (Inr job, emit (CronJobUpdated (cron_job_to_response job))
                      (on_timers (reschedule_job job) (bind_existing_conversation_if_needed sv job w1)))))))))"
    unfolding split_beta Let_def
    by (intro rows_and_then update_keeps [OF assms(1)]) (auto simp: updated_keeps loaded intro: params)
qed

lemma remove_keeps:
  assumes "ks_repo sv = repo" "rows_load rows sv w"
  shows "rows_load rows sv (snd (remove_job sv i w))"
proof -
  have "rows_load rows sv (snd (on_cron_repo (kq_delete (ks_repo sv) i) w'))" if "rows_load rows sv w'" for w'
  proof -
    obtain x d where q: "kq_delete repo i (kw_db w') = (x, d)" by fastforce
    then show ?thesis using delete [OF q] assms(1) that by (auto simp: on_cron_repo_def rows_load_def split: sum.splits)
  qed
  then show ?thesis using assms(2) unfolding remove_job_def Let_def by (intro rows_and_then) simp_all
qed

lemma run_now_keeps:
  assumes "ks_repo sv = repo" "rows_load rows sv w"
  shows "rows_load rows sv (snd (run_now sv i w))"
proof -
  have "rows_load rows sv (snd (load_job sv i w))" using load_keeps [OF assms(1)] assms(2) by (simp add: rows_load_def)
  then show ?thesis
    unfolding run_now_def
    by (intro rows_and_then) (auto intro!: rows_and_then bind_materialized_keeps [OF assms(1)] split: prepared_run_now.splits)
qed

lemma require_keeps: "ks_repo sv = repo \<Longrightarrow> rows_load rows sv w \<Longrightarrow> rows_load rows sv (snd (require_row sv i w))"
  by (simp add: require_row_def snd_and_then_pure rows_load_def get_keeps)

lemma skill_keeps:
  assumes "ks_repo sv = repo" "rows_load rows sv w"
  shows "rows_load rows sv (snd (save_skill sv i content w))" "rows_load rows sv (snd (delete_skill sv i w))"
proof -
  note r = require_keeps [OF assms]
  show "rows_load rows sv (snd (save_skill sv i content w))"
    unfolding save_skill_def by (intro rows_and_then update_keeps [OF assms(1)]) (simp_all add: r)
  show "rows_load rows sv (snd (delete_skill sv i w))"
    unfolding delete_skill_def by (intro rows_and_then update_keeps [OF assms(1)]) (simp_all add: r)
qed

lemma schedule_rows_db: "kw_db (schedule_rows sv rs w) = kw_db w"
  by (induction rs arbitrary: w) (auto split: sum.splits)

lemma init_keeps: "ks_repo sv = repo \<Longrightarrow> rows_load rows sv w \<Longrightarrow> rows_load rows sv (init sv w)"
  using list_keeps(1) [of w] by (cases "on_cron_repo (kq_list_enabled repo) w") (auto simp: init_def rows_load_def schedule_rows_db split: sum.splits)

lemma resume_job_keeps:
  assumes "ks_repo sv = repo" "rows_load rows sv w"
  shows "rows_load rows sv (resume_job sv now job w)"
proof -
  have tips: "rows_load rows sv (insert_missed_job_tips sv job w')" if "rows_load rows sv w'" for w'
    using that unfolding insert_missed_job_tips_def rows_load_def by (auto split: prod.splits sum.splits dest: kw_db_cases(1))
  have "rows_load rows sv (record_missed_execution sv job w)"
    unfolding record_missed_execution_def by (rule update_keeps [OF assms(1)]) (simp_all add: assms(2))
  then show ?thesis using assms by (simp add: resume_job_def tips reschedule_keeps(2))
qed

lemma resume_keeps:
  assumes "ks_repo sv = repo" "rows_load rows sv w"
  shows "rows_load rows sv (handle_system_resume sv w)"
proof -
  have loop: "rows_load rows sv (resume_rows sv now rs w')" if "rows_load rows sv w'" for now rs w'
    using that by (induction rs arbitrary: w') (auto simp: resume_job_keeps [OF assms(1)] split: sum.splits)
  obtain x w1 where l: "on_cron_repo (kq_list_enabled repo) w = (x, w1)" by fastforce
  have w1: "rows_load rows sv w1" using list_keeps(1) [of w] l assms(2) by (simp add: rows_load_def)
  obtain now w2 where c: "cron_now sv w1 = (now, w2)" by fastforce
  have "rows_load rows sv w2" using w1 kw_db_cases(2) [OF c] by blast
  then show ?thesis using assms(1) l w1 c loop by (auto simp: handle_system_resume_def split: sum.splits)
qed

lemma deleted_conversation_keeps:
  assumes "ks_repo sv = repo" "json_faithful (ks_json sv)" "rows_load rows sv w"
  shows "rows_load rows sv (delete_jobs_by_conversation sv c w)"
proof -
  have row: "rows_load rows sv (clear_row_workspace sv path r w')" if "rows_load rows sv w'" for path r w'
  proof -
    have "params_load sv (default_params\<lparr>ku_agent_config := Some (Some s)\<rparr>)" if "config_to_string (ks_json sv) config = Inr s" for config s
      using json_text_loads [OF assms(2), of "Some config" "Some s"] that by (simp add: params_load_def schedule_params_def)
    then show ?thesis
      using that unfolding clear_row_workspace_def
      by (auto intro!: update_keeps [OF assms(1)] split: option.splits sum.splits)
  qed
  have loop: "rows_load rows sv (fold (clear_row_workspace sv path) rs w')" if "rows_load rows sv w'" for path rs w'
    using that by (induction rs arbitrary: w') (simp_all add: row)
  have jobs: "rows_load rows sv (clear_deleted_workspace_from_jobs sv c path w')" if "rows_load rows sv w'" for path w'
  proof -
    obtain x w1 where l: "on_cron_repo (kq_list_by_conversation repo c) w' = (x, w1)" by fastforce
    have "rows_load rows sv w1" using that list_keeps(3) [of c w'] l by (simp add: rows_load_def)
    then show ?thesis using l loop assms(1) by (auto simp: clear_deleted_workspace_from_jobs_def split: sum.splits)
  qed
  obtain x w1 where e: "on_env (auto_workspace_to_delete_for_conversation (ks_ports sv) c) w = (x, w1)" by fastforce
  have "rows_load rows sv w1" using assms(3) kw_db_cases(1) [OF e] by blast
  then show ?thesis using e jobs by (auto simp: delete_jobs_by_conversation_def split: sum.splits option.splits)
qed

lemma helper_keeps:
  assumes "ks_repo sv = repo" "json_faithful (ks_json sv)" "rows_load rows sv w"
  shows "rows_load rows sv (snd (create_for_conversation_helper sv u c req w))"
    "rows_load rows sv (snd (update_for_conversation_helper sv u c i req w))"
proof -
  have load: "rows_load rows sv (snd (get_job sv i w'))" if "rows_load rows sv w'" for w'
    using that load_keeps [OF assms(1)] by (simp add: get_job_def rows_load_def)
  show "rows_load rows sv (snd (update_for_conversation_helper sv u c i req w))"
    unfolding update_for_conversation_helper_def
    by (intro rows_and_then) (auto simp: assms load request_in_range_def intro!: rows_and_then update_job_keeps)
  have added: "rows_load rows sv (snd (case on_env op w' of (Inl e, w) \<Rightarrow> (Inl e, snd (remove_job sv j w)) | (Inr _, w) \<Rightarrow> (Inr x, w)))"
    if "rows_load rows sv w'" for op w' j x
  proof -
    obtain y w1 where e: "on_env op w' = (y, w1)" by fastforce
    have "rows_load rows sv w1" using that kw_db_cases(1) [OF e] by blast
    then show ?thesis using e remove_keeps [OF assms(1)] by (cases y) auto
  qed
  show "rows_load rows sv (snd (create_for_conversation_helper sv u c req w))"
    unfolding create_for_conversation_helper_def split_beta
    by (intro rows_and_then added [unfolded split_beta]) (auto simp: assms intro!: add_keeps)
qed

end

section \<open>Histories\<close>

text \<open>
  The cron service of a process: its state and the executions under way, each with whether a timer
  started it. The rest of the process may change between any two steps. A restart loses the timers and the executions.
\<close>

record ('d, 'w) cron_system =
  sy_world :: "('d, 'w) cron_world"
  sy_running :: "(bool \<times> cron_job \<times> prepared_execution) list"

definition in_world :: "(('d, 'w) cron_world \<Rightarrow> ('d, 'w) cron_world) \<Rightarrow> ('d, 'w) cron_system \<Rightarrow> ('d, 'w) cron_system" where
  "in_world f s = s\<lparr>sy_world := f (sy_world s)\<rparr>"

definition started :: "bool \<Rightarrow> (cron_job \<times> prepared_execution) option \<Rightarrow> ('d, 'w) cron_world \<Rightarrow> ('d, 'w) cron_system \<Rightarrow> ('d, 'w) cron_system" where
  "started timer x w s = \<lparr>sy_world = w, sy_running = sy_running s @ map (Pair timer) (option_list x)\<rparr>"

inductive cron_step :: "('d, 'w, 's, 'z) cron_service \<Rightarrow> ('d, 'w) cron_system \<Rightarrow> ('d, 'w) cron_system \<Rightarrow> bool"
  for sv :: "('d, 'w, 's, 'z) cron_service" where
  step_environment: "cron_step sv s (in_world (\<lambda>w. w\<lparr>kw_env := e\<rparr>) s)"
| step_add: "schedule_in_range (cq_schedule req) \<Longrightarrow> cron_step sv s (in_world (\<lambda>w. snd (add_job sv req w)) s)"
| step_update: "request_in_range req \<Longrightarrow> cron_step sv s (in_world (\<lambda>w. snd (update_job sv i req w)) s)"
| step_remove: "cron_step sv s (in_world (\<lambda>w. snd (remove_job sv i w)) s)"
| step_save_skill: "cron_step sv s (in_world (\<lambda>w. snd (save_skill sv i content w)) s)"
| step_delete_skill: "cron_step sv s (in_world (\<lambda>w. snd (delete_skill sv i w)) s)"
| step_conversation_deleted: "cron_step sv s (in_world (delete_jobs_by_conversation sv c) s)"
| step_create_helper: "cron_step sv s (in_world (\<lambda>w. snd (create_for_conversation_helper sv u c hreq w)) s)"
| step_update_helper: "cron_step sv s (in_world (\<lambda>w. snd (update_for_conversation_helper sv u c i hreq w)) s)"
| step_resume: "cron_step sv s (in_world (handle_system_resume sv) s)"
| step_timer: "fire_timer (ks_lib sv) now i (kw_timers (sy_world s)) = Some ts \<Longrightarrow>
    tick_begin sv i ((sy_world s)\<lparr>kw_timers := ts\<rparr>) = (x, w) \<Longrightarrow> cron_step sv s (started True x w s)"
| step_run_now: "run_now sv i (sy_world s) = (Inr (c, x), w) \<Longrightarrow> cron_step sv s (started False x w s)"
| step_run_now_fails: "run_now sv i (sy_world s) = (Inl e, w) \<Longrightarrow> cron_step sv s (s\<lparr>sy_world := w\<rparr>)"
| step_executed: "sy_running s = xs @ (timer, job, pe) # ys \<Longrightarrow>
    on_env ((if timer then execute_prepared_scheduled else execute_prepared) (ks_ports sv) job pe) (sy_world s) = (result, w) \<Longrightarrow>
    cron_step sv s \<lparr>sy_world = (if timer then tick_end else run_now_end) sv job result w, sy_running = xs @ ys\<rparr>"
| step_restart: "cron_step sv s \<lparr>sy_world = init sv ((sy_world s)\<lparr>kw_timers := []\<rparr>), sy_running = []\<rparr>"

inductive_cases cron_stepE: "cron_step sv s s'"

context cron_store
begin

lemma step_keeps:
  assumes "ks_repo sv = repo" "json_faithful (ks_json sv)" "cron_step sv s s'" "rows_load rows sv (sy_world s)"
  shows "rows_load rows sv (sy_world s')"
  using assms(3)
proof cases
  case (step_timer now i ts x w)
  have "rows_load rows sv ((sy_world s)\<lparr>kw_timers := ts\<rparr>)" using assms(4) by (simp add: rows_load_def)
  then show ?thesis using tick_keeps [OF assms(1), of _ i] step_timer by (metis cron_system.select_convs(1) snd_conv started_def)
next
  case (step_executed xs timer job pe ys result w)
  have "rows_load rows sv w" using assms(4) kw_db_cases(1) [OF step_executed(3)] by (simp add: rows_load_def)
  then show ?thesis using step_executed(1) result_keeps [OF assms(1)] by (simp add: tick_end_def run_now_end_def)
next
  case step_restart
  have "rows_load rows sv ((sy_world s)\<lparr>kw_timers := []\<rparr>)" using assms(4) by (simp add: rows_load_def)
  then show ?thesis using step_restart init_keeps [OF assms(1)] by simp
next
  case (step_run_now i c x w)
  then show ?thesis using run_now_keeps [OF assms(1,4), of i] by (simp add: started_def)
next
  case (step_run_now_fails i e w)
  then show ?thesis using run_now_keeps [OF assms(1,4), of i] by simp
next
  case (step_environment e)
  then show ?thesis using assms(4) by (simp add: in_world_def rows_load_def)
qed (use assms(4) add_keeps [OF assms(1,2)] update_job_keeps [OF assms(1,2)] remove_keeps [OF assms(1)] skill_keeps [OF assms(1)]
      deleted_conversation_keeps [OF assms(1,2)] helper_keeps [OF assms(1,2)] resume_keeps [OF assms(1)]
    in \<open>simp_all add: in_world_def add_job_def\<close>)

lemma history_keeps:
  assumes "(cron_step sv)\<^sup>*\<^sup>* s s'" "ks_repo sv = repo" "json_faithful (ks_json sv)" "rows_load rows sv (sy_world s)"
  shows "rows_load rows sv (sy_world s')"
  using assms(1,4) by (induction rule: rtranclp_induct) (auto intro: step_keeps [OF assms(2,3)])

end

end
