(* ===== verification/CronFlow.thy ===== *)
theory CronFlow
  imports CronHistory
begin

text \<open>
  What the cron service does with a job: jobs survive storage, busy jobs are retried a bounded number of
  times and then skipped, one-shot jobs run once, and a resumption marks missed jobs without running
  them. The laws of the repository carry the proofs; the statements are about SQLite.
\<close>

section \<open>Calm queries\<close>

definition job_row :: "cron_job_row list \<Rightarrow> id \<Rightarrow> cron_job_row option" where
  "job_row rs i = List.find (\<lambda>r. kr_id r = i) rs"

text \<open>The parameters of the updates after an execution, which leave the checked columns legal.\<close>

definition keeps_checks :: "update_cron_job_params \<Rightarrow> bool" where
  "keeps_checks p \<longleftrightarrow> ku_schedule_kind p = None \<and> ku_execution_mode p = None
     \<and> (case ku_last_status p of None \<Rightarrow> True | Some t \<Rightarrow> status_loads t)"

lemma kept_checks: "keeps_checks p \<Longrightarrow> row_checks r \<Longrightarrow> row_checks (updated_job now p r)"
  by (auto simp: keeps_checks_def row_checks_def updated_job_def status_loads_def split: option.splits)

lemma updated_job_id [simp]: "kr_id (updated_job now p r) = kr_id r"
  by (simp add: updated_job_def)

lemma job_row_change: "(\<And>r. kr_id (f r) = kr_id r) \<Longrightarrow> job_row (change_row i f rs) j = (if i = j then map_option f (job_row rs j) else job_row rs j)"
  by (induction rs) (auto simp: job_row_def change_row_def)

lemma job_row_in: "job_row rs i = Some r \<Longrightarrow> r \<in> set rs \<and> kr_id r = i"
  by (auto simp: job_row_def find_Some_iff)

lemma change_row_checks: "keeps_checks p \<Longrightarrow> \<forall>r \<in> set rs. row_checks r \<Longrightarrow> \<forall>r \<in> set (change_row i (updated_job now p) rs). row_checks r"
  by (auto simp: change_row_def kept_checks)

text \<open>A world whose connection is calm and whose table satisfies the checks.\<close>

definition quiet :: "('d \<Rightarrow> cron_job_row list) \<Rightarrow> ('d \<Rightarrow> bool) \<Rightarrow> ('d, 'w) cron_world \<Rightarrow> bool" where
  "quiet rows calm w \<longleftrightarrow> calm (kw_db w) \<and> (\<forall>r \<in> set (rows (kw_db w)). row_checks r)"

lemma quiet_simps [simp]:
  "quiet rows calm (snd (on_env op w)) = quiet rows calm w" "quiet rows calm (on_timers f w) = quiet rows calm w"
  "quiet rows calm (emit e w) = quiet rows calm w"
  by (simp_all add: quiet_def)

lemma quiet_cong: "kw_db w' = kw_db w \<Longrightarrow> quiet rows calm w' = quiet rows calm w"
  by (simp add: quiet_def)

context cron_store
begin

lemma calm_get:
  assumes "quiet rows calm w"
  obtains w' where "on_cron_repo (kq_get_by_id repo i) w = (Inr (job_row (rows (kw_db w)) i), w')" "rows (kw_db w') = rows (kw_db w)"
    "quiet rows calm w'" "kw_timers w' = kw_timers w"
proof -
  obtain x d where g: "kq_get_by_id repo i (kw_db w) = (x, d)" by fastforce
  have "x = Inr (job_row (rows (kw_db w)) i)" "rows d = rows (kw_db w)" "calm d"
    using get [OF g] stays_calm(1) [of "kw_db w" i] assms g by (auto simp: job_row_def quiet_def)
  then show ?thesis using that [of "w\<lparr>kw_db := d\<rparr>"] g assms by (simp add: on_cron_repo_def quiet_def)
qed

lemma quiet_update:
  assumes "quiet rows calm w" "ks_repo sv = repo" "job_row (rows (kw_db w)) i \<noteq> None" "keeps_checks p" "p \<noteq> default_params"
  obtains w' where "update_row sv i p w = (Inr (), w')" "quiet rows calm w'" "kw_timers w' = kw_timers w"
    "rows (kw_db w') = change_row i (updated_job (fst (cron_now sv w)) p) (rows (kw_db w))"
proof -
  obtain now w1 where c: "cron_now sv w = (now, w1)" by fastforce
  have db: "kw_db w1 = kw_db w" "kw_timers w1 = kw_timers w"
    using c by (auto simp: cron_now_def on_env_def split: prod.splits)
  obtain x d where u: "kq_update repo now i p (kw_db w) = (x, d)" by fastforce
  have here: "i \<in> kr_id ` set (rows (kw_db w))" using assms(3) job_row_in by fastforce
  have "fst (kq_update repo now i p (kw_db w)) = Inr ()"
    by (rule update_calm) (use assms(1,4) here in \<open>auto simp: quiet_def kept_checks\<close>)
  then have ok: "x = Inr ()" using u by simp
  then have rows: "rows d = change_row i (updated_job now p) (rows (kw_db w))" using update [OF u] assms(5) by simp
  moreover have "calm d" using stays_calm(3) [of "kw_db w" now i p] assms(1) u by (simp add: quiet_def)
  moreover have "\<forall>r \<in> set (change_row i (updated_job now p) (rows (kw_db w))). row_checks r"
    using change_row_checks [OF assms(4)] assms(1) unfolding quiet_def by blast
  ultimately have "quiet rows calm (w1\<lparr>kw_db := d\<rparr>)" by (simp add: quiet_def)
  moreover have "update_row sv i p w = (Inr (), w1\<lparr>kw_db := d\<rparr>)" using c db u ok assms(2) by (simp add: update_row_def on_cron_repo_def)
  ultimately show ?thesis using that rows db c by simp
qed

end

section \<open>Busy conversations\<close>

text \<open>The agent of a job resolves and its conversation is busy, whatever its retry count and the state of the process.\<close>

definition busy_target :: "'w cron_ports \<Rightarrow> cron_job \<Rightarrow> bool" where
  "busy_target p job \<longleftrightarrow>
     (\<forall>u n e. \<exists>t. fst (resolve_job_agent_type p (job\<lparr>jb_updated_at := u, jb_retry_count := n\<rparr>) e) = Inr t
        \<and> (\<forall>e'. fst (prepare_scheduled p (job\<lparr>jb_updated_at := u, jb_retry_count := n, jb_agent_type := t\<rparr>) e') =
             Inl (handle_busy (job\<lparr>jb_updated_at := u, jb_retry_count := n, jb_agent_type := t\<rparr>))))"

lemma busy_target_again: "busy_target p job \<Longrightarrow> busy_target p (job\<lparr>jb_updated_at := u, jb_retry_count := n\<rparr>)"
  by (simp add: busy_target_def)

definition retry_params :: "int \<Rightarrow> update_cron_job_params" where
  "retry_params n = default_params\<lparr>ku_retry_count := Some n\<rparr>"

lemma params_facts [simp]:
  "keeps_checks (retry_params n)" "keeps_checks skipped_params" "keeps_checks disable_params" "keeps_checks (default_params\<lparr>ku_next_run_at := x\<rparr>)"
  "retry_params n \<noteq> default_params" "skipped_params \<noteq> default_params" "disable_params \<noteq> default_params"
  "default_params\<lparr>ku_next_run_at := Some y\<rparr> \<noteq> default_params"
  by (simp_all add: keeps_checks_def retry_params_def skipped_params_def disable_params_def default_params_def)

lemma retried_row_parses:
  "cron_job_from_row js r = Inr job \<Longrightarrow>
   cron_job_from_row js (updated_job u (retry_params n) r) = Inr (job\<lparr>jb_updated_at := u, jb_retry_count := n\<rparr>)"
  by (auto simp: cron_job_from_row_def bind_ok_Inr updated_job_def retry_params_def default_params_def)

lemma parsed_fields:
  assumes "cron_job_from_row js r = Inr job"
  shows "jb_id job = kr_id r" "jb_enabled job = kr_enabled r" "jb_retry_count job = kr_retry_count r" "jb_max_retries job = kr_max_retries r"
    "jb_next_run_at job = kr_next_run_at r" "jb_agent_type job = []" "jb_conversation_id job = kr_conversation_id r"
  using assms by (auto simp: cron_job_from_row_def bind_ok_Inr)

lemma retry_timer:
  "map_of (kw_timers (schedule_retry sv i w)) i =
     Some \<lparr>kt_schedule = At (wrap_i64 (fst (cron_now sv w) + 30000)) None, kt_due = Some (wrap_i64 (fst (cron_now sv w) + 30000))\<rparr>"
  "kw_db (schedule_retry sv i w) = kw_db w"
  by (simp_all add: schedule_retry_def retry_interval_ms_def split_beta Let_def on_timers_def schedule_job_def map_of_update)

context cron_store
begin

lemma rescheduled_row:
  assumes "ks_repo sv = repo" "quiet rows calm w" "job_row (rows (kw_db w)) i = Some r"
  shows "jb_id job = i \<Longrightarrow> \<exists>r'. job_row (rows (kw_db (reschedule_after_execution sv job w))) i = Some r' \<and> kr_last_status r' = kr_last_status r
      \<and> kr_retry_count r' = kr_retry_count r \<and> kr_run_count r' = kr_run_count r \<and> quiet rows calm (reschedule_after_execution sv job w)
      \<and> (is_at (jb_schedule job) \<longrightarrow> \<not> kr_enabled r' \<and> kr_next_run_at r' = None
          \<and> \<not> is_scheduled i (kw_timers (reschedule_after_execution sv job w)))"
proof (cases "is_at (jb_schedule job)")
  case True
  assume id: "jb_id job = i"
  obtain w' where u: "update_row sv i disable_params w = (Inr (), w')" "quiet rows calm w'"
    "rows (kw_db w') = change_row i (updated_job (fst (cron_now sv w)) disable_params) (rows (kw_db w))"
    using quiet_update [OF assms(2,1), of i disable_params] assms(3) by (metis option.distinct(1) params_facts(3,7))
  have "job_row (rows (kw_db w')) i = Some (updated_job (fst (cron_now sv w)) disable_params r)" using u(3) assms(3) by (simp add: job_row_change)
  then show ?thesis
    using True u(1,2) id
    by (auto simp: reschedule_after_execution_def Let_def updated_job_def disable_params_def default_params_def is_scheduled_def on_timers_def
        emit_def cancel_job_def map_of_delete quiet_def)
next
  case False
  assume id: "jb_id job = i"
  obtain now w1 where c: "cron_now sv w = (now, w1)" by fastforce
  have db: "kw_db w1 = kw_db w" using kw_db_cases(2) [OF c] .
  let ?p = "default_params\<lparr>ku_next_run_at := Some (compute_next_run (ks_lib sv) (jb_schedule job) now)\<rparr>"
  have q: "quiet rows calm w1" using assms(2) quiet_cong [OF db] by simp
  obtain w' where u: "update_row sv i ?p w1 = (Inr (), w')" "quiet rows calm w'"
    "rows (kw_db w') = change_row i (updated_job (fst (cron_now sv w1)) ?p) (rows (kw_db w))"
    using quiet_update [OF q assms(1), of i ?p] assms(3) db by (metis option.distinct(1) params_facts(4,8))
  have "job_row (rows (kw_db w')) i = Some (updated_job (fst (cron_now sv w1)) ?p r)" using u(3) assms(3) by (simp add: job_row_change)
  then show ?thesis
    using False u(1,2) id c by (auto simp: reschedule_after_execution_def Let_def updated_job_def default_params_def)
qed

lemma busy_tick:
  assumes "ks_repo sv = repo" "quiet rows calm w" "job_row (rows (kw_db w)) i = Some r" "cron_job_from_row (ks_json sv) r = Inr job"
    and "jb_enabled job" "busy_target (ks_ports sv) job"
  obtains t w' where "tick sv i w = handle_execution_result sv (job\<lparr>jb_agent_type := t\<rparr>) (handle_busy job) w'"
    "rows (kw_db w') = rows (kw_db w)" "quiet rows calm w'"
proof -
  obtain w1 where g: "on_cron_repo (kq_get_by_id repo i) w = (Inr (Some r), w1)" "rows (kw_db w1) = rows (kw_db w)" "quiet rows calm w1"
    using calm_get [OF assms(2), of i] assms(3) by metis
  obtain t where t: "fst (resolve_job_agent_type (ks_ports sv) job (kw_env w1)) = Inr t"
    "\<And>e'. fst (prepare_scheduled (ks_ports sv) (job\<lparr>jb_agent_type := t\<rparr>) e') = Inl (handle_busy (job\<lparr>jb_agent_type := t\<rparr>))"
    using assms(6) unfolding busy_target_def
    by (drule_tac x = "jb_updated_at job" in spec, drule_tac x = "jb_retry_count job" in spec, drule_tac x = "kw_env w1" in spec) auto
  obtain w2 where r: "on_env (resolve_job_agent_type (ks_ports sv) job) w1 = (Inr t, w2)"
    using t(1) by (auto simp: on_env_def split_beta)
  obtain w3 where p: "on_env (prepare_scheduled (ks_ports sv) (job\<lparr>jb_agent_type := t\<rparr>)) w2 = (Inl (handle_busy (job\<lparr>jb_agent_type := t\<rparr>)), w3)"
    using t(2) [of "kw_env w2"] by (auto simp: on_env_def split_beta)
  have db: "kw_db w3 = kw_db w1" using kw_db_cases(1) [OF r] kw_db_cases(1) [OF p] by simp
  have "handle_busy (job\<lparr>jb_agent_type := t\<rparr>) = handle_busy job" by (simp add: handle_busy_def)
  then have "tick sv i w = handle_execution_result sv (job\<lparr>jb_agent_type := t\<rparr>) (handle_busy job) w3"
    using g(1) r p assms(1,4,5) by (simp add: tick_def tick_begin_def Let_def)
  then show ?thesis using that g(2,3) db quiet_cong [OF db] by simp
qed

lemma busy_tick_retries:
  assumes "ks_repo sv = repo" "quiet rows calm w" "job_row (rows (kw_db w)) i = Some r" "cron_job_from_row (ks_json sv) r = Inr job"
    and "jb_enabled job" "busy_target (ks_ports sv) job" "jb_retry_count job < jb_max_retries job"
  obtains u at_ms where "quiet rows calm (tick sv i w)"
    "job_row (rows (kw_db (tick sv i w))) i = Some (updated_job u (retry_params (jb_retry_count job + 1)) r)"
    "map_of (kw_timers (tick sv i w)) i = Some \<lparr>kt_schedule = At at_ms None, kt_due = Some at_ms\<rparr>"
proof -
  obtain t w1 where k: "tick sv i w = handle_execution_result sv (job\<lparr>jb_agent_type := t\<rparr>) (handle_busy job) w1"
    and w1: "rows (kw_db w1) = rows (kw_db w)" "quiet rows calm w1"
    using busy_tick [OF assms(1-6)] by blast
  have id: "jb_id job = i" using parsed_fields(1) [OF assms(4)] job_row_in [OF assms(3)] by simp
  obtain w2 where u: "update_row sv i (retry_params (jb_retry_count job + 1)) w1 = (Inr (), w2)" "quiet rows calm w2"
    "rows (kw_db w2) = change_row i (updated_job (fst (cron_now sv w1)) (retry_params (jb_retry_count job + 1))) (rows (kw_db w))"
    using quiet_update [OF w1(2) assms(1), of i "retry_params (jb_retry_count job + 1)"] assms(3) w1(1)
    by (metis option.distinct(1) params_facts(1,5))
  have "tick sv i w = schedule_retry sv i w2"
    using k u(1) id assms(7) by (simp add: handle_execution_result_def handle_busy_def retry_params_def)
  moreover have "quiet rows calm (schedule_retry sv i w2)" using u(2) by (simp add: quiet_def retry_timer(2))
  ultimately show ?thesis
    using that [of "fst (cron_now sv w1)" "wrap_i64 (fst (cron_now sv w2) + 30000)"] retry_timer [of sv i w2] u(3) assms(3)
    by (simp add: job_row_change)
qed

lemma busy_ticks:
  assumes "ks_repo sv = repo" "quiet rows calm w" "job_row (rows (kw_db w)) i = Some r" "cron_job_from_row (ks_json sv) r = Inr job"
    and "jb_enabled job" "busy_target (ks_ports sv) job" "jb_retry_count job + int n \<le> jb_max_retries job"
  shows "\<exists>r' u. quiet rows calm ((tick sv i ^^ n) w) \<and> job_row (rows (kw_db ((tick sv i ^^ n) w))) i = Some r'
      \<and> cron_job_from_row (ks_json sv) r' = Inr (job\<lparr>jb_updated_at := u, jb_retry_count := jb_retry_count job + int n\<rparr>)
      \<and> kr_run_count r' = kr_run_count r \<and> kr_last_status r' = kr_last_status r \<and> kr_retry_count r' = jb_retry_count job + int n
      \<and> (n > 0 \<longrightarrow> (\<exists>t. map_of (kw_timers ((tick sv i ^^ n) w)) i = Some \<lparr>kt_schedule = At t None, kt_due = Some t\<rparr>))"
  using assms(7)
proof (induction n)
  case 0
  have "job\<lparr>jb_updated_at := jb_updated_at job, jb_retry_count := jb_retry_count job\<rparr> = job" by simp
  then show ?case
    using assms(2-4) parsed_fields(3) [OF assms(4)] by (intro exI [of _ r] exI [of _ "jb_updated_at job"]) simp
next
  case (Suc n)
  let ?w = "(tick sv i ^^ n) w"
  let ?n = "jb_retry_count job + int n"
  obtain r' u where i: "quiet rows calm ?w" "job_row (rows (kw_db ?w)) i = Some r'"
      "cron_job_from_row (ks_json sv) r' = Inr (job\<lparr>jb_updated_at := u, jb_retry_count := ?n\<rparr>)"
      "kr_run_count r' = kr_run_count r" "kr_last_status r' = kr_last_status r"
    using Suc by auto
  have busy: "busy_target (ks_ports sv) (job\<lparr>jb_updated_at := u, jb_retry_count := ?n\<rparr>)" by (rule busy_target_again [OF assms(6)])
  obtain u' t where k: "quiet rows calm (tick sv i ?w)" "job_row (rows (kw_db (tick sv i ?w))) i = Some (updated_job u' (retry_params (?n + 1)) r')"
      "map_of (kw_timers (tick sv i ?w)) i = Some \<lparr>kt_schedule = At t None, kt_due = Some t\<rparr>"
    using busy_tick_retries [OF assms(1) i(1-3) _ busy] assms(5) Suc.prems by (auto simp: algebra_simps)
  have "kr_run_count (updated_job u' (retry_params (?n + 1)) r') = kr_run_count r'"
    "kr_last_status (updated_job u' (retry_params (?n + 1)) r') = kr_last_status r'"
    "kr_retry_count (updated_job u' (retry_params (?n + 1)) r') = ?n + 1"
    by (simp_all add: updated_job_def retry_params_def default_params_def)
  moreover have "cron_job_from_row (ks_json sv) (updated_job u' (retry_params (?n + 1)) r') = Inr (job\<lparr>jb_updated_at := u', jb_retry_count := ?n + 1\<rparr>)"
    using retried_row_parses [OF i(3), of u' "?n + 1"] by simp
  ultimately show ?case
    using k i(4,5) by (intro exI [of _ "updated_job u' (retry_params (?n + 1)) r'"] exI [of _ u']) (auto simp: algebra_simps)
qed

lemma busy_tick_skips:
  assumes "ks_repo sv = repo" "quiet rows calm w" "job_row (rows (kw_db w)) i = Some r" "cron_job_from_row (ks_json sv) r = Inr job"
    and "jb_enabled job" "busy_target (ks_ports sv) job" "jb_max_retries job \<le> jb_retry_count job"
  shows "\<exists>r'. job_row (rows (kw_db (tick sv i w))) i = Some r' \<and> kr_last_status r' = Some ''skipped'' \<and> kr_retry_count r' = 0
      \<and> kr_run_count r' = kr_run_count r"
proof -
  obtain t w1 where k: "tick sv i w = handle_execution_result sv (job\<lparr>jb_agent_type := t\<rparr>) (handle_busy job) w1"
    and w1: "rows (kw_db w1) = rows (kw_db w)" "quiet rows calm w1"
    using busy_tick [OF assms(1-6)] by blast
  have id: "jb_id job = i" using parsed_fields(1) [OF assms(4)] job_row_in [OF assms(3)] by simp
  let ?u = "fst (cron_now sv w1)"
  obtain w2 where u: "update_row sv i skipped_params w1 = (Inr (), w2)" "quiet rows calm w2"
    "rows (kw_db w2) = change_row i (updated_job ?u skipped_params) (rows (kw_db w))"
    using quiet_update [OF w1(2) assms(1), of i skipped_params] assms(3) w1(1) by (metis option.distinct(1) params_facts(2,6))
  have r2: "job_row (rows (kw_db w2)) i = Some (updated_job ?u skipped_params r)" using u(3) assms(3) by (simp add: job_row_change)
  have fields: "kr_last_status (updated_job ?u skipped_params r) = Some ''skipped''" "kr_retry_count (updated_job ?u skipped_params r) = 0"
    "kr_run_count (updated_job ?u skipped_params r) = kr_run_count r"
    by (simp_all add: updated_job_def skipped_params_def default_params_def)
  have "kw_db (tick sv i w) = kw_db (reschedule_after_execution sv (job\<lparr>jb_agent_type := t\<rparr>) w2)"
    using k u(1) id assms(7) by (simp add: handle_execution_result_def handle_busy_def)
  then show ?thesis using rescheduled_row [OF assms(1) u(2) r2, of "job\<lparr>jb_agent_type := t\<rparr>"] id fields by auto
qed

lemma after_run_row:
  assumes "ks_repo sv = repo" "quiet rows calm w" "job_row (rows (kw_db w)) i = Some r"
  shows "quiet rows calm (update_job_after_success sv i c w) \<and> (\<exists>r'. job_row (rows (kw_db (update_job_after_success sv i c w))) i = Some r')"
    "quiet rows calm (update_job_after_error sv i m w) \<and> (\<exists>r'. job_row (rows (kw_db (update_job_after_error sv i m w))) i = Some r')"
proof -
  obtain w1 where g: "on_cron_repo (kq_get_by_id repo i) w = (Inr (Some r), w1)" "rows (kw_db w1) = rows (kw_db w)" "quiet rows calm w1"
    using calm_get [OF assms(2), of i] assms(3) by metis
  obtain now w2 where c: "cron_now sv w1 = (now, w2)" by fastforce
  have db: "kw_db w2 = kw_db w1" using kw_db_cases(2) [OF c] .
  have q: "quiet rows calm w2" "job_row (rows (kw_db w2)) i \<noteq> None" using g(2,3) db quiet_cong [OF db] assms(3) by simp_all
  have step: "\<exists>w3. update_row sv i p w2 = (Inr (), w3) \<and> quiet rows calm w3 \<and> (\<exists>r'. job_row (rows (kw_db w3)) i = Some r')"
    if "keeps_checks p" "p \<noteq> default_params" for p
    using quiet_update [OF q(1) assms(1) q(2) that] g(2) db assms(3) by (metis job_row_change option.simps(9) updated_job_id)
  show "quiet rows calm (update_job_after_success sv i c w) \<and> (\<exists>r'. job_row (rows (kw_db (update_job_after_success sv i c w))) i = Some r')"
  proof -
    let ?binds = "should_bind_success_conversation (kr_execution_mode r) (kr_conversation_id r) c"
    let ?p = "default_params\<lparr>ku_last_run_at := Some (Some now), ku_last_status := Some (Some ''ok''), ku_last_error := Some None,
        ku_retry_count := Some 0, ku_run_count := Some (wrap_i64 (kr_run_count r + 1)), ku_conversation_id := if ?binds then Some c else None\<rparr>"
    have "keeps_checks ?p" "?p \<noteq> default_params" by (simp_all add: keeps_checks_def default_params_def)
    then obtain w3 where "update_row sv i ?p w2 = (Inr (), w3)" "quiet rows calm w3" "\<exists>r'. job_row (rows (kw_db w3)) i = Some r'"
      using step by blast
    then show ?thesis using g(1) c assms(1) by (simp add: update_job_after_success_def Let_def)
  qed
  show "quiet rows calm (update_job_after_error sv i m w) \<and> (\<exists>r'. job_row (rows (kw_db (update_job_after_error sv i m w))) i = Some r')"
  proof -
    let ?p = "default_params\<lparr>ku_last_run_at := Some (Some now), ku_last_status := Some (Some ''error''), ku_last_error := Some (Some m),
        ku_retry_count := Some 0, ku_run_count := Some (wrap_i64 (kr_run_count r + 1))\<rparr>"
    have "keeps_checks ?p" "?p \<noteq> default_params" by (simp_all add: keeps_checks_def default_params_def)
    then obtain w3 where "update_row sv i ?p w2 = (Inr (), w3)" "quiet rows calm w3" "\<exists>r'. job_row (rows (kw_db w3)) i = Some r'"
      using step by blast
    then show ?thesis using g(1) c assms(1) by (simp add: update_job_after_error_def)
  qed
qed

lemma executed_one_shot:
  assumes "ks_repo sv = repo" "quiet rows calm w" "job_row (rows (kw_db w)) (jb_id job) = Some r" "is_at (jb_schedule job)"
    and "\<And>n. result \<noteq> ExecutionRetrying n"
  shows "\<exists>r'. job_row (rows (kw_db (tick_end sv job result w))) (jb_id job) = Some r' \<and> \<not> kr_enabled r' \<and> kr_next_run_at r' = None
      \<and> \<not> is_scheduled (jb_id job) (kw_timers (tick_end sv job result w)) \<and> quiet rows calm (tick_end sv job result w)"
proof -
  have ended: "\<exists>r'. job_row (rows (kw_db (emit e (reschedule_after_execution sv job w')))) (jb_id job) = Some r' \<and> \<not> kr_enabled r'
      \<and> kr_next_run_at r' = None \<and> \<not> is_scheduled (jb_id job) (kw_timers (emit e (reschedule_after_execution sv job w')))
      \<and> quiet rows calm (emit e (reschedule_after_execution sv job w'))"
    if w': "quiet rows calm w'" "job_row (rows (kw_db w')) (jb_id job) = Some r'" for e w' r'
    using rescheduled_row [OF assms(1) that, of job] assms(4) by (auto simp: emit_def quiet_def)
  show ?thesis
  proof (cases result)
    case (ExecutionSuccess c)
    then show ?thesis using after_run_row(1) [OF assms(1-3), of c] ended by (auto simp: tick_end_def handle_execution_result_def)
  next
    case (ExecutionError m)
    then show ?thesis using after_run_row(2) [OF assms(1-3), of m] ended by (auto simp: tick_end_def handle_execution_result_def)
  next
    case ExecutionSkipped
    obtain w' where "update_row sv (jb_id job) skipped_params w = (Inr (), w')" "quiet rows calm w'"
      "rows (kw_db w') = change_row (jb_id job) (updated_job (fst (cron_now sv w)) skipped_params) (rows (kw_db w))"
      using quiet_update [OF assms(2,1), of "jb_id job" skipped_params] assms(3) by (metis option.distinct(1) params_facts(2,6))
    then show ?thesis using ExecutionSkipped assms(3) ended [of w'] by (simp add: tick_end_def handle_execution_result_def job_row_change)
  qed (use assms(5) in blast)
qed

lemma disabled_tick:
  assumes "ks_repo sv = repo" "calm (kw_db w)" "job_row (rows (kw_db w)) i = Some r" "\<not> kr_enabled r"
  shows "fst (tick_begin sv i w) = None"
proof -
  obtain x d where g: "kq_get_by_id repo i (kw_db w) = (x, d)" by fastforce
  have "x = Inr (Some r)" using get [OF g] assms(2,3) by (auto simp: job_row_def)
  then show ?thesis
    using g assms(1,4) parsed_fields(2)
    by (auto simp: tick_begin_def on_cron_repo_def Let_def split: sum.splits prod.splits)
qed

end

section \<open>Resumption\<close>

definition past_due :: "timestamp_ms \<Rightarrow> cron_job \<Rightarrow> bool" where
  "past_due now job \<longleftrightarrow> (case jb_next_run_at job of None \<Rightarrow> False | Some next_run \<Rightarrow> next_run < now)"

definition missed_params :: update_cron_job_params where
  "missed_params = default_params\<lparr>ku_last_status := Some (Some ''missed''), ku_last_error := Some None, ku_retry_count := Some 0\<rparr>"

definition next_params :: "('s, 'z) cron_lib \<Rightarrow> timestamp_ms \<Rightarrow> cron_job \<Rightarrow> update_cron_job_params" where
  "next_params lib now job =
     (if is_at (jb_schedule job) then disable_params else default_params\<lparr>ku_next_run_at := Some (compute_next_run lib (jb_schedule job) now)\<rparr>)"

definition resumed_row :: "('d, 'w, 's, 'z) cron_service \<Rightarrow> timestamp_ms \<Rightarrow> cron_job_row \<Rightarrow> cron_job_row \<Rightarrow> cron_job_row" where
  "resumed_row sv now x r =
     (case cron_job_from_row (ks_json sv) x of
        Inl _ \<Rightarrow> r
      | Inr job \<Rightarrow> if past_due now job then updated_job now (next_params (ks_lib sv) now job) (updated_job now missed_params r) else r)"

lemma resumed_row_id [simp]: "kr_id (resumed_row sv now x r) = kr_id r"
  by (simp add: resumed_row_def split: sum.splits)

lemma missed_params_facts [simp]: "keeps_checks missed_params" "missed_params \<noteq> default_params"
  "keeps_checks (next_params lib now job)" "next_params lib now job \<noteq> default_params"
  by (simp_all add: missed_params_def next_params_def) (simp_all add: keeps_checks_def default_params_def)

lemma resumed_row_cases:
  "cron_job_from_row (ks_json sv) x = Inl e \<Longrightarrow> resumed_row sv now x = (\<lambda>r. r)"
  "cron_job_from_row (ks_json sv) x = Inr job \<Longrightarrow>
   resumed_row sv now x = (if past_due now job then (\<lambda>r. updated_job now (next_params (ks_lib sv) now job) (updated_job now missed_params r)) else (\<lambda>r. r))"
  by (auto simp: fun_eq_iff resumed_row_def)

text \<open>A clock that stands still.\<close>

definition clock_at :: "timestamp_ms \<Rightarrow> 'w cron_ports \<Rightarrow> bool" where
  "clock_at now p \<longleftrightarrow> (\<forall>e. fst (cp_now p e) = now)"

lemma clock_now: "clock_at now (ks_ports sv) \<Longrightarrow> fst (cron_now sv w) = now"
  by (simp add: clock_at_def cron_now_def on_env_def split_beta)

lemma tips_db: "kw_db (insert_missed_job_tips sv job w) = kw_db w"
  by (auto simp: insert_missed_job_tips_def split: prod.splits sum.splits dest: kw_db_cases)

context cron_store
begin

lemma missed_rows:
  assumes "ks_repo sv = repo" "clock_at now (ks_ports sv)" "quiet rows calm w" "job_row (rows (kw_db w)) (jb_id job) \<noteq> None"
  shows "quiet rows calm (reschedule_after_missed sv job w)
    \<and> rows (kw_db (reschedule_after_missed sv job w)) = change_row (jb_id job) (updated_job now (next_params (ks_lib sv) now job)) (rows (kw_db w))"
proof (cases "is_at (jb_schedule job)")
  case True
  obtain w2 where "update_row sv (jb_id job) disable_params w = (Inr (), w2)" "quiet rows calm w2"
    "rows (kw_db w2) = change_row (jb_id job) (updated_job now disable_params) (rows (kw_db w))"
    using quiet_update [OF assms(3,1,4), of disable_params] clock_now [OF assms(2)] by (metis params_facts(3,7))
  then show ?thesis using True by (simp add: reschedule_after_missed_def next_params_def)
next
  case False
  obtain w1 where c: "cron_now sv w = (now, w1)" using clock_now [OF assms(2), of w] by (cases "cron_now sv w") simp
  have db: "kw_db w1 = kw_db w" using kw_db_cases(2) [OF c] .
  let ?p = "default_params\<lparr>ku_next_run_at := Some (compute_next_run (ks_lib sv) (jb_schedule job) now)\<rparr>"
  have "quiet rows calm w1" "job_row (rows (kw_db w1)) (jb_id job) \<noteq> None" using assms(3,4) db quiet_cong [OF db] by simp_all
  then obtain w2 where "update_row sv (jb_id job) ?p w1 = (Inr (), w2)" "quiet rows calm w2"
    "rows (kw_db w2) = change_row (jb_id job) (updated_job now ?p) (rows (kw_db w))"
    using quiet_update [OF _ assms(1), of w1 "jb_id job" ?p] clock_now [OF assms(2)] db by (metis params_facts(4,8))
  then show ?thesis using False c by (simp add: reschedule_after_missed_def next_params_def Let_def)
qed

lemma resumed_job:
  assumes "ks_repo sv = repo" "clock_at now (ks_ports sv)" "quiet rows calm w" "job_row (rows (kw_db w)) (jb_id job) \<noteq> None"
  shows "quiet rows calm (resume_job sv now job w)
    \<and> rows (kw_db (resume_job sv now job w)) =
        (if past_due now job
         then change_row (jb_id job) (\<lambda>r. updated_job now (next_params (ks_lib sv) now job) (updated_job now missed_params r)) (rows (kw_db w))
         else rows (kw_db w))"
proof (cases "past_due now job")
  case True
  obtain w1 where m: "record_missed_execution sv job w = w1" "quiet rows calm w1"
    "rows (kw_db w1) = change_row (jb_id job) (updated_job now missed_params) (rows (kw_db w))"
    using quiet_update [OF assms(3,1,4), of missed_params] clock_now [OF assms(2)]
    by (metis missed_params_def missed_params_facts(1,2) record_missed_execution_def snd_conv)
  let ?w2 = "insert_missed_job_tips sv job w1"
  have "quiet rows calm ?w2" "job_row (rows (kw_db ?w2)) (jb_id job) \<noteq> None"
    using m(2,3) assms(4) by (simp_all add: quiet_cong [OF tips_db] tips_db job_row_change)
  note k = missed_rows [OF assms(1,2) this]
  have "change_row (jb_id job) f (change_row (jb_id job) (updated_job now missed_params) rs) = change_row (jb_id job) (\<lambda>r. f (updated_job now missed_params r)) rs"
    for f and rs :: "cron_job_row list"
    by (simp add: change_row_def)
  then show ?thesis
    using True k m by (simp add: resume_job_def tips_db past_due_def)
qed (use assms(3) in \<open>simp add: resume_job_def past_due_def\<close>)

lemma resumed_rows:
  assumes "ks_repo sv = repo" "clock_at now (ks_ports sv)" "quiet rows calm w" "distinct (map kr_id rs)"
    and "\<forall>x \<in> set rs. job_row (rows (kw_db w)) (kr_id x) \<noteq> None"
  shows "job_row (rows (kw_db (resume_rows sv now rs w))) i =
    map_option (case job_row rs i of None \<Rightarrow> id | Some x \<Rightarrow> resumed_row sv now x) (job_row (rows (kw_db w)) i)"
  using assms(3-5)
proof (induction rs arbitrary: w)
  case Nil
  then show ?case by (simp add: job_row_def option.map_ident)
next
  case (Cons x rs)
  let ?w = "case cron_job_from_row (ks_json sv) x of Inl _ \<Rightarrow> w | Inr job \<Rightarrow> resume_job sv now job w"
  have step: "quiet rows calm ?w \<and> (\<forall>j. job_row (rows (kw_db ?w)) j =
      (if j = kr_id x then map_option (resumed_row sv now x) (job_row (rows (kw_db w)) j) else job_row (rows (kw_db w)) j))"
  proof (cases "cron_job_from_row (ks_json sv) x")
    case (Inr job)
    have "jb_id job = kr_id x" by (rule parsed_fields(1) [OF Inr])
    then show ?thesis
      using Inr resumed_job [OF assms(1,2) Cons.prems(1), of job] Cons.prems(3)
      by (simp add: job_row_change resumed_row_cases(2) option.map_ident)
  qed (use Cons.prems(1) in \<open>simp add: resumed_row_cases(1) option.map_ident\<close>)
  have rest: "distinct (map kr_id rs)" "\<forall>y \<in> set rs. job_row (rows (kw_db ?w)) (kr_id y) \<noteq> None"
    using Cons.prems(2,3) step by auto
  have new: "job_row rs (kr_id x) = None" using Cons.prems(2) by (auto simp: job_row_def find_None_iff) (metis imageI)
  have "job_row (x # rs) i = (if kr_id x = i then Some x else job_row rs i)" by (simp add: job_row_def)
  then show ?case
    using Cons.IH [OF conjunct1 [OF step] rest] step new by (cases "kr_id x = i") (auto simp: option.map_id option.map_ident)
qed

end

lemma job_row_distinct: "distinct (map kr_id rs) \<Longrightarrow> r \<in> set rs \<Longrightarrow> job_row rs (kr_id r) = Some r"
  by (induction rs) (auto simp: job_row_def)

lemma enabled_job_row:
  assumes "distinct (map kr_id rs)" "job_row rs i = Some r"
  shows "job_row (sort_key kr_created_at (filter kr_enabled rs)) i = (if kr_enabled r then Some r else None)"
proof -
  let ?es = "sort_key kr_created_at (filter kr_enabled rs)"
  have "distinct (map kr_id (filter kr_enabled rs))" using assms(1) by (simp add: distinct_map_filter)
  then have d: "distinct (map kr_id ?es)" by (metis distinct_map distinct_sort set_sort)
  have r: "r \<in> set rs" "kr_id r = i" using job_row_in [OF assms(2)] by auto
  show ?thesis
  proof (cases "kr_enabled r")
    case True
    then show ?thesis using job_row_distinct [OF d, of r] r by simp
  next
    case False
    have "x \<notin> set ?es" if "kr_id x = i" for x
      using that False r job_row_distinct [OF assms(1), of x] assms(2) by auto
    then show ?thesis using False by (auto simp: job_row_def find_None_iff)
  qed
qed

context cron_store
begin

lemma resumed:
  assumes "ks_repo sv = repo" "clock_at now (ks_ports sv)" "quiet rows calm w" "distinct (map kr_id (rows (kw_db w)))"
    and "job_row (rows (kw_db w)) i = Some r"
  shows "job_row (rows (kw_db (handle_system_resume sv w))) i = Some (if kr_enabled r then resumed_row sv now r r else r)"
proof -
  let ?es = "sort_key kr_created_at (filter kr_enabled (rows (kw_db w)))"
  obtain x d where l: "kq_list_enabled repo (kw_db w) = (x, d)" by fastforce
  have x: "x = Inr ?es" "rows d = rows (kw_db w)" "calm d"
    using list_enabled [OF l] stays_calm(2) [of "kw_db w"] l assms(3) by (auto simp: quiet_def)
  obtain w2 where c: "cron_now sv (w\<lparr>kw_db := d\<rparr>) = (now, w2)"
    using clock_now [OF assms(2), of "w\<lparr>kw_db := d\<rparr>"] by (cases "cron_now sv (w\<lparr>kw_db := d\<rparr>)") simp
  have db: "kw_db w2 = d" using kw_db_cases(2) [OF c] by simp
  have q: "quiet rows calm w2" using assms(3) x db by (simp add: quiet_def)
  have "distinct (map kr_id ?es)" using assms(4) by (metis distinct_map distinct_map_filter distinct_sort set_sort)
  moreover have "\<forall>y \<in> set ?es. job_row (rows (kw_db w2)) (kr_id y) \<noteq> None"
    using job_row_distinct [OF assms(4)] db x(2) by simp
  ultimately have "job_row (rows (kw_db (resume_rows sv now ?es w2))) i =
      map_option (case job_row ?es i of None \<Rightarrow> id | Some y \<Rightarrow> resumed_row sv now y) (job_row (rows (kw_db w2)) i)"
    by (rule resumed_rows [OF assms(1,2) q])
  moreover have "handle_system_resume sv w = resume_rows sv now ?es w2"
    using assms(1) l x(1) c by (simp add: handle_system_resume_def on_cron_repo_def)
  ultimately show ?thesis
    using enabled_job_row [OF assms(4,5)] assms(5) db x(2) by (simp add: option.map_id)
qed

end

end
