(* ===== verification/CronGuarantees.thy ===== *)
theory CronGuarantees
  imports CronFlow
begin

text \<open>
  The guarantees of the cron service over SQLite, and a concrete service that shows their hypotheses can hold:
  a faithful text format for configurations, and ports whose conversation exists and is busy.
\<close>

section \<open>A service for examples\<close>

text \<open>A list of strings as one string: every character is marked, and every string is closed.\<close>

definition pack_string :: "string \<Rightarrow> string" where
  "pack_string s = concat (map (\<lambda>c. [CHR ''c'', c]) s) @ [CHR ''e'']"

definition pack :: "string list \<Rightarrow> string" where
  "pack xs = concat (map pack_string xs)"

fun unpack :: "string \<Rightarrow> string \<Rightarrow> string list" where
  "unpack s (m # c # t) = (if m = CHR ''c'' then unpack (s @ [c]) t else s # unpack [] (c # t))"
| "unpack s [m] = [s]"
| "unpack s [] = []"

lemma unpack_marked: "unpack s (concat (map (\<lambda>c. [CHR ''c'', c]) x) @ CHR ''e'' # t) = (s @ x) # unpack [] t"
  by (induction x arbitrary: s) (cases t; simp)+

lemma unpack_pack [simp]: "unpack [] (pack xs) = xs"
  by (induction xs) (simp_all add: pack_def pack_string_def unpack_marked)

fun pack_opt :: "string option \<Rightarrow> string" where
  "pack_opt None = []"
| "pack_opt (Some s) = CHR ''s'' # s"

fun unpack_opt :: "string \<Rightarrow> string option" where
  "unpack_opt [] = None"
| "unpack_opt (_ # s) = Some s"

lemma unpack_pack_opt [simp]: "unpack_opt (pack_opt x) = x"
  by (cases x) simp_all

fun pairs :: "string list \<Rightarrow> (string \<times> string) list" where
  "pairs (a # b # xs) = (a, b) # pairs xs"
| "pairs _ = []"

lemma pairs_concat [simp]: "pairs (concat (map (\<lambda>(a, b). [a, b]) xs)) = xs"
  by (induction xs) auto

definition pack_model :: "provider_with_model \<Rightarrow> string" where
  "pack_model m = pack [pm_provider_id m, pm_model m, pack_opt (pm_use_model m)]"

definition unpack_model :: "string \<Rightarrow> provider_with_model" where
  "unpack_model s = (let xs = unpack [] s in \<lparr>pm_provider_id = xs ! 0, pm_model = xs ! 1, pm_use_model = unpack_opt (xs ! 2)\<rparr>)"

definition pack_config :: "cron_agent_config \<Rightarrow> string" where
  "pack_config c =
     pack [kg_name c, pack_opt (kg_cli_path c), pack_opt (map_option (\<lambda>b. if b then ''t'' else ''f'') (kg_is_preset c)),
       pack_opt (kg_assistant_id c), pack_opt (kg_custom_agent_id c), pack_opt (kg_mode c), pack_opt (kg_model_id c),
       pack_opt (map_option pack_model (kg_model c)),
       pack_opt (map_option (\<lambda>t. pack (concat (map (\<lambda>(a, b). [a, b]) t))) (kg_config_options c)), pack_opt (kg_workspace c)]"

definition unpack_config :: "string \<Rightarrow> cron_agent_config" where
  "unpack_config s =
     (let xs = unpack [] s
      in \<lparr>kg_name = xs ! 0, kg_cli_path = unpack_opt (xs ! 1), kg_is_preset = map_option (\<lambda>b. b = ''t'') (unpack_opt (xs ! 2)),
          kg_assistant_id = unpack_opt (xs ! 3), kg_custom_agent_id = unpack_opt (xs ! 4), kg_mode = unpack_opt (xs ! 5),
          kg_model_id = unpack_opt (xs ! 6), kg_model = map_option unpack_model (unpack_opt (xs ! 7)),
          kg_config_options = map_option (\<lambda>t. pairs (unpack [] t)) (unpack_opt (xs ! 8)), kg_workspace = unpack_opt (xs ! 9)\<rparr>)"

lemma unpack_pack_model: "unpack_model (pack_model m) = m"
  by (simp add: unpack_model_def pack_model_def Let_def)

lemma unpack_pack_config: "unpack_config (pack_config c) = c"
  by (simp add: unpack_config_def pack_config_def Let_def option.map_comp comp_def unpack_pack_model option.map_ident)

definition sample_json :: config_json where
  "sample_json = \<lparr>js_config_to_string = \<lambda>c. Inr (pack_config c), js_config_from_str = \<lambda>s. Inr (unpack_config s)\<rparr>"

lemma sample_json_faithful: "json_faithful sample_json"
  by (simp add: json_faithful_def sample_json_def unpack_pack_config)

definition sample_config :: cron_agent_config where
  "sample_config = \<lparr>kg_name = ''a'', kg_cli_path = None, kg_is_preset = None, kg_assistant_id = Some ''assistant'', kg_custom_agent_id = None,
     kg_mode = None, kg_model_id = None, kg_model = None, kg_config_options = None, kg_workspace = None\<rparr>"

definition sample_job :: "cron_schedule \<Rightarrow> cron_job" where
  "sample_job schedule = \<lparr>jb_id = ''job'', jb_name = ''n'', jb_enabled = True, jb_schedule = schedule, jb_message = ''m'', jb_execution_mode = Existing,
     jb_agent_config = Some sample_config, jb_conversation_id = ''c'', jb_conversation_title = None, jb_agent_type = [],
     jb_created_by = CreatedByUser, jb_skill_content = None, jb_description = None, jb_created_at = 1, jb_updated_at = 1,
     jb_next_run_at = Some 100, jb_last_run_at = None, jb_last_status = None, jb_last_error = None, jb_run_count = 0, jb_retry_count = 0,
     jb_max_retries = 3\<rparr>"

definition sample_row :: "cron_schedule \<Rightarrow> cron_job_row" where
  "sample_row schedule = (case cron_job_to_row sample_json (sample_job schedule) of Inr r \<Rightarrow> r)"

definition sample_conversation :: cron_conversation_row where
  "sample_conversation = \<lparr>cv_user_id = ''u'', cv_name = ''c'', cv_type = ''acp'', cv_extra = []\<rparr>"

text \<open>Every conversation exists and is busy, every assistant resolves, no skill is saved, and the clock stands at 1000.\<close>

definition sample_ports :: "unit cron_ports" where
  "sample_ports =
     \<lparr>cp_now = \<lambda>e. (1000, e), cp_parse = \<lambda>s. Inr JNull, cp_print = \<lambda>j. [], cp_conversation = \<lambda>c e. (Inr (Some sample_conversation), e),
      cp_update_extra = \<lambda>c x t e. (Inr (), e), cp_insert_tips = \<lambda>c x t e. (Inr (), e), cp_mark_suggest_saved = \<lambda>i e. (Inr (), e),
      cp_claimed = \<lambda>c e. True, cp_create_conversation = \<lambda>u r e. (Inl (ConversationOther ''closed''), e),
      cp_run_turn = \<lambda>r e. (Inl (ConversationBusy ''busy''), e), cp_latest_error = \<lambda>c e. (Inr None, e), cp_save_mode = \<lambda>c m e. (Inr (), e),
      cp_auto_workspace = \<lambda>r c e. None, cp_same_path = \<lambda>a b e. a = b, cp_workspace_error = \<lambda>s e. None,
      cp_fallback_workspace = \<lambda>a c e. (Inr ''w'', e), cp_read_skill = \<lambda>i e. (Inr None, e), cp_write_raw_skill = \<lambda>i s e. (Inr (), e),
      cp_write_skill = \<lambda>i n d s x e. (Inr (), e), cp_delete_skill = \<lambda>i e. (Inr (), e), cp_has_skill = \<lambda>i e. (Inr False, e),
      cp_schedule_check = \<lambda>c i s e. e, cp_builtin_backend = \<lambda>s e. None, cp_definition = \<lambda>a e. (Inr (Some (''d'', ''agent'')), e),
      cp_overlay = \<lambda>d e. (Inr None, e), cp_backend = \<lambda>a e. (Inr ''claude'', e), cp_full_auto_mode = \<lambda>t a b e. (Inr ''yolo'', e),
      cp_new_id = \<lambda>e. (''new'', e), cp_conversation_config = \<lambda>c r e. ((''acp'', None), e)\<rparr>"

definition sample_service :: "(cron_db, unit, unit, unit) cron_service" where
  "sample_service =
     \<lparr>ks_repo = sqlite_cron_repository, ks_json = sample_json,
      ks_lib = \<lparr>lib_schedule = \<lambda>s. Inl ''none'', lib_timezone = \<lambda>s. None, lib_next_after = \<lambda>s z t. None\<rparr>, ks_ports = sample_ports\<rparr>"

definition sample_world :: "cron_schedule \<Rightarrow> (cron_db, unit) cron_world" where
  "sample_world schedule = \<lparr>kw_db = \<lparr>cj_rows = [sample_row schedule], cj_faults = []\<rparr>, kw_timers = [], kw_events = [], kw_env = ()\<rparr>"

lemma sample_row_parses:
  assumes "schedule_in_range schedule"
  shows "cron_job_from_row sample_json (sample_row schedule) = Inr (sample_job schedule)"
proof -
  obtain kind val tz description where f: "schedule_to_row_fields schedule = (kind, val, tz, description)"
    by (cases "schedule_to_row_fields schedule") auto
  show ?thesis
    using f schedule_round_trip(1) [OF assms f] unpack_pack_config [of sample_config]
    by (simp add: sample_row_def sample_job_def cron_job_to_row_def cron_job_from_row_def sample_json_def config_to_string_def config_from_str_def
        execution_mode_from_str_def created_by_from_str_def)
qed

lemma sample_service_simps [simp]:
  "ks_repo sample_service = sqlite_cron_repository" "ks_json sample_service = sample_json" "ks_ports sample_service = sample_ports"
  by (simp_all add: sample_service_def)

lemma sample_row_simps [simp]: "kr_id (sample_row schedule) = ''job''" "kr_enabled (sample_row schedule)"
  by (simp_all add: sample_row_def sample_job_def cron_job_to_row_def sample_json_def config_to_string_def split_beta)

lemma sample_world_simps [simp]: "cj_rows (kw_db (sample_world schedule)) = [sample_row schedule]" "cron_calm (kw_db (sample_world schedule))"
  by (simp_all add: sample_world_def cron_calm_def)

lemma sample_world_row: "job_row (cj_rows (kw_db (sample_world schedule))) ''job'' = Some (sample_row schedule)"
  by (simp add: job_row_def)

lemma sample_loads:
  assumes "schedule_in_range schedule" "validate_schedule (ks_lib sample_service) schedule = Inr ()"
  shows "row_loads sample_service (sample_row schedule)"
  using sample_row_parses [OF assms(1)] assms(2) by (simp add: row_loads_def sample_job_def)

lemma sample_quiet:
  assumes "schedule_in_range schedule" "validate_schedule (ks_lib sample_service) schedule = Inr ()"
  shows "quiet cj_rows cron_calm (sample_world schedule)"
  using row_loads_checks [OF sample_loads [OF assms]] by (simp add: quiet_def)

lemma sample_busy: "busy_target sample_ports (sample_job schedule)"
proof -
  have b: "trim ''c'' = ''c''" "\<not> blank ''assistant''" "blank []" by code_simp+
  show ?thesis
    unfolding busy_target_def
    by (simp add: resolve_job_agent_type_def sample_job_def sample_config_def b non_blank_def or_else_def resolve_agent_type_for_assistant_id_def
        sample_ports_def on_error_def effective_agent_id_def runtime_agent_type_for_backend_def prepare_scheduled_def prepare_saved_skill_def
        trimmed_some_def validate_runtime_job_workspace_def resolve_job_workspace_raw_def resolve_execution_workspace_raw_def
        get_conversation_row_def resolve_conversation_def conversation_exists_def Let_def)
qed

section \<open>Guarantees\<close>

text \<open>
  C32. A job survives its storage: writing it as a row succeeds, and reading the row gives the job back,
  with the agent type cleared, which is resolved again whenever a job is loaded. The JSON format of the
  configuration is faithful and the times of the schedule fit in 64 bits.
\<close>

theorem cron_job_survives_storage:
  assumes "json_faithful js" "schedule_in_range (jb_schedule job)"
  shows "\<exists>row. cron_job_to_row js job = Inr row \<and> cron_job_from_row js row = Inr (job\<lparr>jb_agent_type := []\<rparr>)"
proof -
  obtain kind val tz description where f: "schedule_to_row_fields (jb_schedule job) = (kind, val, tz, description)"
    by (cases "schedule_to_row_fields (jb_schedule job)") auto
  have config: "\<exists>t. transpose_opt (config_to_string js) c = Inr t \<and> transpose_opt (config_from_str js) t = Inr c" for c
  proof (cases c)
    case (Some x)
    obtain s where "js_config_to_string js x = Inr s" "js_config_from_str js s = Inr x" using assms(1) by (auto simp: json_faithful_def)
    then show ?thesis using Some by (simp add: config_to_string_def config_from_str_def)
  qed simp
  have status: "transpose_opt job_status_from_str (map_option job_status_str x) = Inr x" for x by (cases x) simp_all
  obtain t where t: "transpose_opt (config_to_string js) (jb_agent_config job) = Inr t"
      "transpose_opt (config_from_str js) t = Inr (jb_agent_config job)" using config by blast
  show ?thesis
    using f t status schedule_round_trip(1) [OF assms(2) f] by (simp add: cron_job_to_row_def cron_job_from_row_def)
qed

theorem cron_job_survives_storage_witness:
  "\<exists>row. cron_job_to_row sample_json (sample_job (Every 60000 None)) = Inr row
     \<and> cron_job_from_row sample_json row = Inr (sample_job (Every 60000 None)\<lparr>jb_agent_type := []\<rparr>)"
  by (rule cron_job_survives_storage [OF sample_json_faithful]) (simp add: sample_job_def in_i64_def)

text \<open>
  C33. In every history of the cron service, with its operations, timers, executions and restarts
  interleaved in any way and queries failing at any time, every stored row can be read back as a job with
  a schedule that validates, if the rows could be at the start.
\<close>

theorem stored_jobs_always_load:
  assumes "ks_repo sv = sqlite_cron_repository" "json_faithful (ks_json sv)" "\<forall>r \<in> set (cj_rows (kw_db (sy_world s))). row_loads sv r"
    and "(cron_step sv)\<^sup>*\<^sup>* s s'" "r \<in> set (cj_rows (kw_db (sy_world s')))"
  shows "\<exists>job. cron_job_from_row (ks_json sv) r = Inr job \<and> validate_schedule (ks_lib sv) (jb_schedule job) = Inr ()"
proof -
  have "row_loads sv r" using sqlite_cron.history_keeps [OF assms(4,1,2)] assms(3,5) unfolding rows_load_def by blast
  then show ?thesis by (simp add: row_loads_def split: sum.splits)
qed

theorem stored_jobs_always_load_witness:
  "\<exists>job. cron_job_from_row sample_json (sample_row (Every 60000 None)) = Inr job \<and> validate_schedule (ks_lib sample_service) (jb_schedule job) = Inr ()"
proof -
  let ?s = "\<lparr>sy_world = sample_world (Every 60000 None), sy_running = []\<rparr>"
  have loads: "row_loads sample_service (sample_row (Every 60000 None))" by (rule sample_loads) (simp_all add: in_i64_def)
  let ?s' = "\<lparr>sy_world = init sample_service ((sample_world (Every 60000 None))\<lparr>kw_timers := []\<rparr>), sy_running = []\<rparr>"
  have "(cron_step sample_service)\<^sup>*\<^sup>* ?s ?s'" using step_restart [of sample_service ?s] by simp
  moreover have "sample_row (Every 60000 None) \<in> set (cj_rows (kw_db (sy_world ?s')))"
    by (simp add: init_def on_cron_repo_def sqlite_cron_repository_def sqlite_list_enabled_jobs_def cron_pool_def sample_world_def sqlite_cron.schedule_rows_db
        split: sum.splits)
  ultimately show ?thesis
    using stored_jobs_always_load [of sample_service ?s ?s' "sample_row (Every 60000 None)"] loads sample_json_faithful by simp
qed





text \<open>
  C36. After a suspension nothing is run late: an enabled job whose time has passed is marked missed,
  with its error and retries cleared and no run counted; a one-shot job among them is disabled, a
  recurring one gets the next time after the resumption; every other stored job is unchanged. The clock
  stands still during the resumption and no query fails.
\<close>

theorem resume_marks_missed_jobs:
  assumes "ks_repo sv = sqlite_cron_repository" "clock_at now (ks_ports sv)" "quiet cj_rows cron_calm w"
    and "distinct (map kr_id (cj_rows (kw_db w)))" "job_row (cj_rows (kw_db w)) i = Some r" "cron_job_from_row (ks_json sv) r = Inr job"
  shows "\<exists>r'. job_row (cj_rows (kw_db (handle_system_resume sv w))) i = Some r' \<and> kr_run_count r' = kr_run_count r \<and> kr_last_run_at r' = kr_last_run_at r
    \<and> (if kr_enabled r \<and> past_due now job
       then kr_last_status r' = Some ''missed'' \<and> kr_last_error r' = None \<and> kr_retry_count r' = 0
         \<and> kr_enabled r' = (\<not> is_at (jb_schedule job))
         \<and> kr_next_run_at r' = (if is_at (jb_schedule job) then None else compute_next_run (ks_lib sv) (jb_schedule job) now)
       else r' = r)"
proof -
  have "job_row (cj_rows (kw_db (handle_system_resume sv w))) i = Some (if kr_enabled r then resumed_row sv now r r else r)"
    by (rule sqlite_cron.resumed [OF assms(1-5)])
  then show ?thesis
    using assms(6)
    by (auto simp: resumed_row_cases(2) [OF assms(6)] updated_job_def next_params_def missed_params_def disable_params_def default_params_def)
qed

theorem resume_marks_missed_jobs_witness:
  "\<exists>r'. job_row (cj_rows (kw_db (handle_system_resume sample_service (sample_world (Every 60000 None))))) ''job'' = Some r'
     \<and> kr_last_status r' = Some ''missed'' \<and> kr_next_run_at r' = Some 61000"
proof -
  have q: "quiet cj_rows cron_calm (sample_world (Every 60000 None))" by (rule sample_quiet) (simp_all add: in_i64_def)
  have c: "clock_at 1000 (ks_ports sample_service)" by (simp add: clock_at_def sample_ports_def)
  have p: "cron_job_from_row (ks_json sample_service) (sample_row (Every 60000 None)) = Inr (sample_job (Every 60000 None))"
    by (simp add: sample_row_parses in_i64_def)
  have "past_due 1000 (sample_job (Every 60000 None))" "wrap_i64 61000 = 61000" by (simp_all add: past_due_def sample_job_def wrap_i64_def)
  then show ?thesis
    using resume_marks_missed_jobs [OF _ c q _ sample_world_row p] by (auto simp: sample_job_def)
qed

section \<open>What an execution overwrites\<close>

text \<open>
  The end of an execution stores the schedule decision of the job as it was loaded. Whatever schedule the
  stored job has by then, a one-shot snapshot disables it.
\<close>

lemma stale_one_shot_disables:
  assumes "ks_repo sv = sqlite_cron_repository" "quiet cj_rows cron_calm w" "job_row (cj_rows (kw_db w)) (jb_id job) = Some r"
    and "kr_schedule_kind r = ''every''" "is_at (jb_schedule job)"
  shows "\<exists>r'. job_row (cj_rows (kw_db (tick_end sv job (ExecutionSuccess c) w))) (jb_id job) = Some r' \<and> \<not> kr_enabled r'"
  using sqlite_cron.executed_one_shot [OF assms(1-3,5), of "ExecutionSuccess c"] by auto

text \<open>The retry limit of a request is in the job that is returned, and in no stored parameter.\<close>

lemma max_retries_not_stored: "kr_max_retries (updated_job now p r) = kr_max_retries r"
  by (simp add: updated_job_def)

end
