(* ===== verification/TaskManager.thy ===== *)
theory TaskManager
  imports TurnOrchestrator Complex_Main
begin

text \<open>
  The table of agent tasks, \<open>aionui-ai-agent/src/task_manager.rs\<close>, with the foreground leases of
  \<open>active_lease.rs\<close> and a pass of \<open>idle_scanner.rs\<close>.

  A conversation has a slot, a shared \<open>OnceCell\<close> that stays alive while a caller holds it, also when
  the table has dropped it; so slots are numbers into a store of cells. Agents are references into a
  store of what the manager reads of them and of whether \<open>kill\<close> was called. \<open>get_or_build_task\<close> is cut
  where it awaits: \<open>acquire_slot\<close>, \<open>claim_cell\<close> (the permit of an empty cell), \<open>reserve_build\<close> (under
  the capacity lock), and when the factory returns \<open>build_failed\<close>, or \<open>build_returned\<close> and then
  \<open>fill_cell\<close>: the reservation is dropped at the end of the initialiser, before the cell is filled. The reading of the
  memory pressure and the clock are arguments.
\<close>

section \<open>Foreground leases\<close>

definition sat_i64 :: "int \<Rightarrow> int" where
  "sat_i64 i = max (- (2 ^ 63)) (min (2 ^ 63 - 1) i)"

record active_lease_registry =
  al_leases :: "(id, timestamp_ms) table"
  al_ttl_ms :: timestamp_ms

definition active_lease_ttl_ms :: timestamp_ms where
  "active_lease_ttl_ms = 90000"

definition new_lease_registry :: "timestamp_ms \<Rightarrow> active_lease_registry" where
  "new_lease_registry ttl = \<lparr>al_leases = [], al_ttl_ms = ttl\<rparr>"

definition renew :: "timestamp_ms \<Rightarrow> id \<Rightarrow> active_lease_registry \<Rightarrow> timestamp_ms \<times> active_lease_registry" where
  "renew now c reg =
     (let expires_at = sat_i64 (now + al_ttl_ms reg)
      in (expires_at, reg\<lparr>al_leases := AList.update c expires_at (al_leases reg)\<rparr>))"

definition renew_many :: "timestamp_ms \<Rightarrow> id list \<Rightarrow> active_lease_registry \<Rightarrow> (nat \<times> timestamp_ms) \<times> active_lease_registry" where
  "renew_many now cs reg =
     (let expires_at = sat_i64 (now + al_ttl_ms reg)
      in ((length cs, expires_at), reg\<lparr>al_leases := fold (\<lambda>c. AList.update c expires_at) cs (al_leases reg)\<rparr>))"

definition active_until :: "timestamp_ms \<Rightarrow> id \<Rightarrow> active_lease_registry \<Rightarrow> timestamp_ms option \<times> active_lease_registry" where
  "active_until now c reg =
     (case map_of (al_leases reg) c of
        None \<Rightarrow> (None, reg)
      | Some expires_at \<Rightarrow>
          if now < expires_at then (Some expires_at, reg) else (None, reg\<lparr>al_leases := AList.delete c (al_leases reg)\<rparr>))"

definition is_active :: "timestamp_ms \<Rightarrow> id \<Rightarrow> active_lease_registry \<Rightarrow> bool \<times> active_lease_registry" where
  "is_active now c reg = (case active_until now c reg of (x, reg) \<Rightarrow> (x \<noteq> None, reg))"

section \<open>The manager\<close>

type_synonym runtime_capabilities = "u32 option" \<comment> \<open>\<open>conversation_runtime_context_version\<close>\<close>

definition satisfies :: "runtime_capabilities \<Rightarrow> runtime_capabilities \<Rightarrow> bool" where
  "satisfies actual requested =
     (case requested of
        Some version \<Rightarrow> (case actual of Some v \<Rightarrow> version \<le> v | None \<Rightarrow> False)
      | None \<Rightarrow> True)"

text \<open>What the manager reads of an agent, the error its \<open>kill\<close> returns, and whether \<open>kill\<close> was called.\<close>

record agent_info =
  ag_type :: agent_type
  ag_status :: "conversation_status option"
  ag_last_activity :: timestamp_ms
  ag_kill_error :: "agent_error option"
  ag_killed :: bool

record managed_agent_task =
  ma_agent :: nat
  ma_capabilities :: runtime_capabilities

datatype task_cell = CellEmpty | CellInit | CellReady managed_agent_task

record worker_task_manager =
  tm_tasks :: "(id, nat) table"
  tm_cells :: "(nat, task_cell) table"
  tm_next_slot :: nat
  tm_agents :: "(nat, agent_info) table"
  tm_leases :: active_lease_registry
  tm_building_count :: nat
  tm_resident_task_limit :: nat
  tm_resident_idle_timeout_ms :: timestamp_ms

definition new_worker_task_manager :: worker_task_manager where
  "new_worker_task_manager =
     \<lparr>tm_tasks = [], tm_cells = [], tm_next_slot = 0, tm_agents = [], tm_leases = new_lease_registry active_lease_ttl_ms,
      tm_building_count = 0, tm_resident_task_limit = 6, tm_resident_idle_timeout_ms = 180000\<rparr>"

definition cell_ready :: "nat \<Rightarrow> worker_task_manager \<Rightarrow> managed_agent_task option" where
  "cell_ready slot m = (case map_of (tm_cells m) slot of Some (CellReady t) \<Rightarrow> Some t | _ \<Rightarrow> None)"

definition set_cell :: "nat \<Rightarrow> task_cell \<Rightarrow> worker_task_manager \<Rightarrow> worker_task_manager" where
  "set_cell slot c m = m\<lparr>tm_cells := AList.update slot c (tm_cells m)\<rparr>"

definition initialised_managed_task :: "id \<Rightarrow> worker_task_manager \<Rightarrow> managed_agent_task option" where
  "initialised_managed_task c m = Option.bind (map_of (tm_tasks m) c) (\<lambda>slot. cell_ready slot m)"

definition get_task :: "id \<Rightarrow> worker_task_manager \<Rightarrow> nat option" where
  "get_task c m = map_option ma_agent (initialised_managed_task c m)"

definition active_tasks :: "worker_task_manager \<Rightarrow> nat" where
  "active_tasks m = length (filter (\<lambda>(c, slot). cell_ready slot m \<noteq> None) (tm_tasks m))"

definition configure_resident_policy :: "nat \<Rightarrow> timestamp_ms \<Rightarrow> worker_task_manager \<Rightarrow> worker_task_manager" where
  "configure_resident_policy limit idle m = m\<lparr>tm_resident_task_limit := max limit 1, tm_resident_idle_timeout_ms := max idle 1000\<rparr>"

definition kill_agent :: "nat \<Rightarrow> worker_task_manager \<Rightarrow> (agent_error + unit) \<times> worker_task_manager" where
  "kill_agent a m =
     (case Option.bind (map_of (tm_agents m) a) ag_kill_error of None \<Rightarrow> Inr () | Some e \<Rightarrow> Inl e,
      m\<lparr>tm_agents := AList.map_entry a (\<lambda>g. g\<lparr>ag_killed := True\<rparr>) (tm_agents m)\<rparr>)"

definition kill :: "id \<Rightarrow> worker_task_manager \<Rightarrow> (agent_error + unit) \<times> worker_task_manager" where
  "kill c m =
     (case map_of (tm_tasks m) c of
        None \<Rightarrow> (Inr (), m)
      | Some slot \<Rightarrow>
          (let m1 = m\<lparr>tm_tasks := AList.delete c (tm_tasks m)\<rparr>
           in case cell_ready slot m of None \<Rightarrow> (Inr (), m1) | Some t \<Rightarrow> kill_agent (ma_agent t) m1))"

text \<open>A slot that was removed before its cell was filled, and is awaited, is returned.\<close>

definition kill_and_wait :: "id \<Rightarrow> worker_task_manager \<Rightarrow> nat option \<times> worker_task_manager" where
  "kill_and_wait c m =
     (case map_of (tm_tasks m) c of
        None \<Rightarrow> (None, m)
      | Some slot \<Rightarrow>
          (let m1 = m\<lparr>tm_tasks := AList.delete c (tm_tasks m)\<rparr>
           in case cell_ready slot m of None \<Rightarrow> (Some slot, m1) | Some t \<Rightarrow> (None, snd (kill_agent (ma_agent t) m1))))"

definition kill_awaited :: "nat \<Rightarrow> worker_task_manager \<Rightarrow> worker_task_manager option" where
  "kill_awaited slot m =
     (case map_of (tm_cells m) slot of
        Some CellInit \<Rightarrow> None
      | Some (CellReady t) \<Rightarrow> Some (snd (kill_agent (ma_agent t) m))
      | _ \<Rightarrow> Some m)"

definition clear_key :: "id \<Rightarrow> worker_task_manager \<Rightarrow> worker_task_manager" where
  "clear_key c m =
     (case map_of (tm_tasks m) c of
        None \<Rightarrow> m
      | Some slot \<Rightarrow>
          (let m1 = m\<lparr>tm_tasks := AList.delete c (tm_tasks m)\<rparr>
           in case cell_ready slot m of None \<Rightarrow> m1 | Some t \<Rightarrow> snd (kill_agent (ma_agent t) m1)))"

definition clear :: "worker_task_manager \<Rightarrow> worker_task_manager" where
  "clear m = fold clear_key (map fst (tm_tasks m)) m"

section \<open>Capacity\<close>

definition idle_status :: "conversation_status option \<Rightarrow> bool" where
  "idle_status s \<longleftrightarrow> s = None \<or> s = Some StFinished"

definition idle_agent :: "nat \<Rightarrow> worker_task_manager \<Rightarrow> agent_info option" where
  "idle_agent slot m =
     Option.bind (cell_ready slot m) (\<lambda>t. Option.bind (map_of (tm_agents m) (ma_agent t)) (\<lambda>g. if idle_status (ag_status g) then Some g else None))"

definition idle_lru_candidates :: "id \<Rightarrow> worker_task_manager \<Rightarrow> (id \<times> timestamp_ms) list" where
  "idle_lru_candidates requested m =
     sort_key snd (List.map_filter (\<lambda>(c, slot).
       if c = requested then None else map_option (\<lambda>g. (c, ag_last_activity g)) (idle_agent slot m)) (tm_tasks m))"

fun kill_all :: "id list \<Rightarrow> worker_task_manager \<Rightarrow> (agent_error + unit) \<times> worker_task_manager" where
  "kill_all [] m = (Inr (), m)"
| "kill_all (c # cs) m = and_then (kill c m) (\<lambda>_. kill_all cs)"

definition capacity_limit :: "rat \<Rightarrow> worker_task_manager \<Rightarrow> nat" where
  "capacity_limit memory m = (let configured = max (tm_resident_task_limit m) 1 in if 75 \<le> memory then min configured 4 else configured)"

definition enforce_resident_capacity :: "rat option \<Rightarrow> id \<Rightarrow> worker_task_manager \<Rightarrow> (agent_error + unit) \<times> worker_task_manager" where
  "enforce_resident_capacity memory_used requested m =
     (let memory = (case memory_used of Some x \<Rightarrow> x | None \<Rightarrow> 0);
          idle = idle_lru_candidates requested m
      in if 85 \<le> memory
         then and_then (kill_all (map fst idle) m) (\<lambda>_ m.
                (Inl (AgConflict ''Resident agent startup is paused because system memory usage is high''), m))
         else if active_tasks m + tm_building_count m < capacity_limit memory m then (Inr (), m)
         else case idle of
             (c, _) # _ \<Rightarrow> kill c m
           | [] \<Rightarrow> (Inl (AgConflict ''Resident agent pool is at capacity''), m))"

section \<open>Building a task\<close>

definition insert_slot :: "id \<Rightarrow> worker_task_manager \<Rightarrow> worker_task_manager" where
  "insert_slot c m =
     m\<lparr>tm_tasks := AList.update c (tm_next_slot m) (tm_tasks m), tm_cells := AList.update (tm_next_slot m) CellEmpty (tm_cells m),
       tm_next_slot := Suc (tm_next_slot m)\<rparr>"

definition acquire_slot :: "id \<Rightarrow> runtime_capabilities \<Rightarrow> worker_task_manager \<Rightarrow> (agent_error + nat) \<times> worker_task_manager" where
  "acquire_slot c requested m =
     and_then (case initialised_managed_task c m of
                 Some t \<Rightarrow> if satisfies (ma_capabilities t) requested then (Inr (), m) else kill c m
               | None \<Rightarrow> (Inr (), m)) (\<lambda>_ m.
       case map_of (tm_tasks m) c of
         Some slot \<Rightarrow> (Inr slot, m)
       | None \<Rightarrow> (Inr (tm_next_slot m), insert_slot c m))"

definition claim_cell :: "nat \<Rightarrow> worker_task_manager \<Rightarrow> worker_task_manager option" where
  "claim_cell slot m = (if map_of (tm_cells m) slot = Some CellEmpty then Some (set_cell slot CellInit m) else None)"

definition reserve_build :: "rat option \<Rightarrow> id \<Rightarrow> nat \<Rightarrow> worker_task_manager \<Rightarrow> (agent_error + unit) \<times> worker_task_manager" where
  "reserve_build memory_used c slot m =
     (case enforce_resident_capacity memory_used c m of
        (Inl e, m) \<Rightarrow> (Inl e, set_cell slot CellEmpty m)
      | (Inr _, m) \<Rightarrow> (Inr (), m\<lparr>tm_building_count := tm_building_count m + 1\<rparr>))"

definition drop_reservation :: "worker_task_manager \<Rightarrow> worker_task_manager" where
  "drop_reservation m = m\<lparr>tm_building_count := tm_building_count m - 1\<rparr>"

definition build_returned :: "managed_agent_task \<Rightarrow> agent_info \<Rightarrow> worker_task_manager \<Rightarrow> worker_task_manager" where
  "build_returned t info m = drop_reservation (m\<lparr>tm_agents := AList.update (ma_agent t) info (tm_agents m)\<rparr>)"

definition fill_cell :: "nat \<Rightarrow> managed_agent_task \<Rightarrow> worker_task_manager \<Rightarrow> worker_task_manager" where
  "fill_cell slot t m = set_cell slot (CellReady t) m"

definition build_failed :: "nat \<Rightarrow> worker_task_manager \<Rightarrow> worker_task_manager" where
  "build_failed slot m = set_cell slot CellEmpty (drop_reservation m)"

section \<open>Idle tasks\<close>

text \<open>\<open>collect_idle\<close> looks up the lease of a candidate, which drops an expired one.\<close>

fun collect_idle_from ::
  "timestamp_ms \<Rightarrow> timestamp_ms \<Rightarrow> (id \<times> nat) list \<Rightarrow> worker_task_manager \<Rightarrow> id list \<times> worker_task_manager" where
  "collect_idle_from now threshold [] m = ([], m)"
| "collect_idle_from now threshold ((c, slot) # rest) m =
     (case idle_agent slot m of
        Some g \<Rightarrow>
          if ag_type g = AtAcp \<and> threshold < sat_i64 (now - ag_last_activity g)
          then (case active_until now c (tm_leases m) of (lease, reg) \<Rightarrow>
                case collect_idle_from now threshold rest (m\<lparr>tm_leases := reg\<rparr>) of (cs, m) \<Rightarrow>
                  (if lease = None then c # cs else cs, m))
          else collect_idle_from now threshold rest m
      | None \<Rightarrow> collect_idle_from now threshold rest m)"

definition collect_idle :: "timestamp_ms \<Rightarrow> timestamp_ms \<Rightarrow> worker_task_manager \<Rightarrow> id list \<times> worker_task_manager" where
  "collect_idle now threshold m = collect_idle_from now threshold (tm_tasks m) m"

text \<open>One pass of the scanner; the coordinator keeps the conversations it does not handle itself.\<close>

definition scan_and_cleanup :: "timestamp_ms \<Rightarrow> timestamp_ms \<Rightarrow> (id list \<Rightarrow> id list) option \<Rightarrow> worker_task_manager \<Rightarrow> worker_task_manager" where
  "scan_and_cleanup now threshold coordinator m =
     (case collect_idle now threshold m of (idle, m) \<Rightarrow>
        let remaining = (case coordinator of Some f \<Rightarrow> if idle = [] then [] else f idle | None \<Rightarrow> idle)
        in fold (\<lambda>c m. snd (kill_and_wait c m)) remaining m)"

definition task_conversation_deleted :: "id \<Rightarrow> worker_task_manager \<Rightarrow> worker_task_manager" where
  "task_conversation_deleted c m = snd (kill c m)"

end
