(* ===== verification/TaskPool.thy ===== *)
theory TaskPool
  imports TaskManager
begin

text \<open>
  Histories of the table of agent tasks. A state has the manager and the callers of \<open>get_or_build_task\<close>:
  those that hold a slot, those whose initialiser runs but has not passed the capacity lock, those that
  wait for the factory, and those whose reservation is dropped and whose cell is not filled yet. Each
  operation is one step. In the steps of \<open>pool_step L W\<close> every configured limit is at most \<open>L\<close>, and at
  most \<open>W\<close> callers are between the end of their initialiser and the filling of their cell.
\<close>

section \<open>The operations on the table\<close>

lemma cell_ready_eq: "tm_cells m = tm_cells m' \<Longrightarrow> cell_ready slot m = cell_ready slot m'"
  by (simp add: cell_ready_def)

lemma cell_ready_other [simp]:
  "cell_ready s (m\<lparr>tm_agents := as\<rparr>) = cell_ready s m" "cell_ready s (m\<lparr>tm_leases := reg\<rparr>) = cell_ready s m"
  "cell_ready s (m\<lparr>tm_building_count := n\<rparr>) = cell_ready s m" "cell_ready s (m\<lparr>tm_resident_task_limit := n\<rparr>) = cell_ready s m"
  "cell_ready s (m\<lparr>tm_resident_idle_timeout_ms := i\<rparr>) = cell_ready s m" "cell_ready s (m\<lparr>tm_tasks := ts\<rparr>) = cell_ready s m"
  by (simp_all add: cell_ready_def)

definition same_but_tasks :: "worker_task_manager \<Rightarrow> worker_task_manager \<Rightarrow> bool" where
  "same_but_tasks m m' \<longleftrightarrow>
     tm_cells m' = tm_cells m \<and> tm_next_slot m' = tm_next_slot m \<and> tm_building_count m' = tm_building_count m \<and>
     tm_resident_task_limit m' = tm_resident_task_limit m \<and> (\<exists>P. tm_tasks m' = filter P (tm_tasks m))"

lemma same_but_tasksI:
  "tm_cells m' = tm_cells m \<Longrightarrow> tm_next_slot m' = tm_next_slot m \<Longrightarrow> tm_building_count m' = tm_building_count m \<Longrightarrow>
   tm_resident_task_limit m' = tm_resident_task_limit m \<Longrightarrow> tm_tasks m' = filter P (tm_tasks m) \<Longrightarrow> same_but_tasks m m'"
  by (auto simp: same_but_tasks_def)

lemma same_but_tasks_refl [simp]: "same_but_tasks m m"
  by (rule same_but_tasksI [where P = "\<lambda>_. True"]) simp_all

lemma same_but_tasks_other [simp]: "same_but_tasks m (m\<lparr>tm_agents := as\<rparr>)" "same_but_tasks m (m\<lparr>tm_leases := reg\<rparr>)"
  by (auto simp: same_but_tasks_def intro: exI [of _ "\<lambda>_. True"])

lemma same_but_tasks_trans [trans]: "same_but_tasks a b \<Longrightarrow> same_but_tasks b c \<Longrightarrow> same_but_tasks a c"
  by (auto simp: same_but_tasks_def)

lemma same_but_tasks_fold: "(\<And>x m. same_but_tasks m (f x m)) \<Longrightarrow> same_but_tasks m (fold f xs m)"
  by (induction xs arbitrary: m) (auto intro: same_but_tasks_trans)

lemma kill_agent_simps [simp]:
  "tm_tasks (snd (kill_agent a m)) = tm_tasks m" "tm_cells (snd (kill_agent a m)) = tm_cells m"
  "tm_next_slot (snd (kill_agent a m)) = tm_next_slot m" "tm_building_count (snd (kill_agent a m)) = tm_building_count m"
  "tm_resident_task_limit (snd (kill_agent a m)) = tm_resident_task_limit m"
  by (simp_all add: kill_agent_def)

lemma removal_keeps:
  assumes "tm_tasks m' = AList.delete c (tm_tasks m)" "tm_cells m' = tm_cells m" "tm_next_slot m' = tm_next_slot m"
    "tm_building_count m' = tm_building_count m" "tm_resident_task_limit m' = tm_resident_task_limit m"
  shows "same_but_tasks m m'"
  using assms by (intro same_but_tasksI [where P = "\<lambda>(k, _). c \<noteq> k"]) (simp_all add: AList.delete_eq)

lemma tasks_kill: "tm_tasks (snd (kill c m)) = AList.delete c (tm_tasks m)"
  by (auto simp: kill_def Let_def delete_id map_of_eq_None_iff split: option.splits)

lemma kill_keeps: "same_but_tasks m (snd (kill c m))"
  by (cases "map_of (tm_tasks m) c") (auto simp: kill_def Let_def intro!: removal_keeps split: option.splits)

lemma kill_and_wait_keeps: "same_but_tasks m (snd (kill_and_wait c m))"
  by (cases "map_of (tm_tasks m) c") (auto simp: kill_and_wait_def Let_def intro!: removal_keeps split: option.splits)

lemma clear_key_keeps: "same_but_tasks m (clear_key c m)"
  by (cases "map_of (tm_tasks m) c") (auto simp: clear_key_def Let_def intro!: removal_keeps split: option.splits)

lemma clear_keeps: "same_but_tasks m (clear m)"
  by (simp add: clear_def same_but_tasks_fold clear_key_keeps)

lemma kill_all_keeps: "same_but_tasks m (snd (kill_all cs m))"
  by (induction cs arbitrary: m) (auto intro!: and_then_keeps [where P = "same_but_tasks m" for m] kill_keeps elim: same_but_tasks_trans)

lemma kill_agent_keeps: "same_but_tasks m (snd (kill_agent a m))"
  by (intro same_but_tasksI [where P = "\<lambda>_. True"]) simp_all

lemma collect_idle_from_keeps: "same_but_tasks m (snd (collect_idle_from now threshold xs m))"
proof (induction now threshold xs m rule: collect_idle_from.induct)
  case (2 now threshold c slot rest m)
  then show ?case
    by (auto split: option.splits prod.splits) (metis same_but_tasks_other(2) same_but_tasks_trans snd_conv)+
qed simp

lemma scan_keeps: "same_but_tasks m (scan_and_cleanup now threshold coordinator m)"
proof -
  obtain cs m' where c: "collect_idle_from now threshold (tm_tasks m) m = (cs, m')"
    by fastforce
  have "same_but_tasks m m'"
    using collect_idle_from_keeps [of m now threshold "tm_tasks m"] c by simp
  then show ?thesis
    using c same_but_tasks_fold [of "\<lambda>c m. snd (kill_and_wait c m)", OF kill_and_wait_keeps]
    by (auto simp: scan_and_cleanup_def collect_idle_def intro: same_but_tasks_trans)
qed

section \<open>How many tasks are ready\<close>

lemma active_of_filter:
  assumes "same_but_tasks m m'"
  shows "active_tasks m' \<le> active_tasks m"
proof -
  obtain P where t: "tm_tasks m' = filter P (tm_tasks m)" and c: "tm_cells m' = tm_cells m"
    using assms by (auto simp: same_but_tasks_def)
  have "active_tasks m' = length (filter P (filter (\<lambda>(c, slot). cell_ready slot m \<noteq> None) (tm_tasks m)))"
    by (simp add: active_tasks_def t cell_ready_eq [OF c] conj_commute case_prod_unfold)
  also have "\<dots> \<le> active_tasks m"
    unfolding active_tasks_def by (rule length_filter_le)
  finally show ?thesis .
qed

lemma active_kill_ready:
  assumes "map_of (tm_tasks m) c = Some slot" "cell_ready slot m = Some t"
  shows "active_tasks (snd (kill c m)) < active_tasks m"
proof -
  let ?R = "\<lambda>(c, slot). cell_ready slot m \<noteq> None"
  have cells: "tm_cells (snd (kill c m)) = tm_cells m"
    using kill_keeps [of m c] by (simp add: same_but_tasks_def)
  have in_table: "(c, slot) \<in> set (filter ?R (tm_tasks m))"
    using assms by (simp add: map_of_SomeD)
  have "active_tasks (snd (kill c m)) = length (filter (\<lambda>(k, _). c \<noteq> k) (filter ?R (tm_tasks m)))"
    by (simp add: active_tasks_def tasks_kill AList.delete_eq cell_ready_eq [OF cells] conj_commute case_prod_unfold)
  also have "\<dots> < length (filter ?R (tm_tasks m))"
    by (rule length_filter_less [OF in_table]) simp
  finally show ?thesis
    by (simp add: active_tasks_def)
qed

lemma count_one_more:
  assumes "distinct (map f xs)" "\<And>x. x \<in> set xs \<Longrightarrow> f x \<noteq> s \<Longrightarrow> P x = Q x"
  shows "length (filter P xs) \<le> Suc (length (filter Q xs))"
  using assms
proof (induction xs)
  case (Cons x xs)
  show ?case
  proof (cases "f x = s")
    case True
    then have "filter P xs = filter Q xs"
      using Cons.prems by (intro filter_cong) (auto simp: image_iff)
    then show ?thesis by simp
  qed (use Cons in auto)
qed simp

lemma cell_ready_set_cell: "cell_ready slot (set_cell s x m) = (if slot = s then (case x of CellReady t \<Rightarrow> Some t | _ \<Rightarrow> None) else cell_ready slot m)"
  by (simp add: cell_ready_def set_cell_def table_simps split: task_cell.splits)

lemma active_set_cell: "distinct (map snd (tm_tasks m)) \<Longrightarrow> active_tasks (set_cell s x m) \<le> Suc (active_tasks m)"
  unfolding active_tasks_def
  by (simp add: set_cell_def) (rule count_one_more [where f = snd and s = s],
      auto simp: cell_ready_def table_simps)

lemma active_set_cell_unready:
  assumes "\<And>t. x \<noteq> CellReady t"
  shows "active_tasks (set_cell s x m) \<le> active_tasks m"
proof -
  have "filter (\<lambda>(c, slot). cell_ready slot (set_cell s x m) \<noteq> None) (tm_tasks m)
      = filter (\<lambda>(c, slot). slot \<noteq> s) (filter (\<lambda>(c, slot). cell_ready slot m \<noteq> None) (tm_tasks m))"
    using assms by (auto simp: cell_ready_set_cell intro!: filter_cong split: task_cell.splits)
  then have "active_tasks (set_cell s x m)
      = length (filter (\<lambda>(c, slot). slot \<noteq> s) (filter (\<lambda>(c, slot). cell_ready slot m \<noteq> None) (tm_tasks m)))"
    by (simp add: active_tasks_def set_cell_def)
  also have "\<dots> \<le> active_tasks m"
    unfolding active_tasks_def by (rule length_filter_le)
  finally show ?thesis .
qed

section \<open>Histories\<close>

record task_pool =
  tp_manager :: worker_task_manager
  tp_waiting :: "(id \<times> nat) list"
  tp_claimed :: "(id \<times> nat) list"
  tp_building :: "nat list"
  tp_returned :: "(nat \<times> managed_agent_task) list"

definition new_pool :: task_pool where
  "new_pool = \<lparr>tp_manager = new_worker_task_manager, tp_waiting = [], tp_claimed = [], tp_building = [], tp_returned = []\<rparr>"

abbreviation with_manager :: "task_pool \<Rightarrow> worker_task_manager \<Rightarrow> task_pool" where
  "with_manager p m \<equiv> p\<lparr>tp_manager := m\<rparr>"

text \<open>The slots whose initialiser runs.\<close>

definition in_flight :: "task_pool \<Rightarrow> nat list" where
  "in_flight p = map snd (tp_claimed p) @ tp_building p @ map fst (tp_returned p)"

text \<open>
  \<open>left\<close> is a caller that got the agent of a filled cell, or went away; \<open>abandoned\<close> and \<open>failed\<close> are also the
  callers that go away inside their initialiser. \<open>built\<close> is \<open>returned\<close> and \<open>filled\<close> with no step of another caller between them. An agent returned by the factory is a new one. An agent
  changes its status and its activity by itself.
\<close>

inductive pool_step :: "nat \<Rightarrow> nat \<Rightarrow> task_pool \<Rightarrow> task_pool \<Rightarrow> bool" for L W :: nat where
  request: "acquire_slot c requested (tp_manager p) = (Inr slot, m) \<Longrightarrow>
    pool_step L W p ((with_manager p m)\<lparr>tp_waiting := (c, slot) # tp_waiting p\<rparr>)"
| request_failed: "acquire_slot c requested (tp_manager p) = (Inl e, m) \<Longrightarrow> pool_step L W p (with_manager p m)"
| left: "pool_step L W p (p\<lparr>tp_waiting := remove1 w (tp_waiting p)\<rparr>)"
| claimed: "(c, slot) \<in> set (tp_waiting p) \<Longrightarrow> claim_cell slot (tp_manager p) = Some m \<Longrightarrow>
    pool_step L W p ((with_manager p m)\<lparr>tp_waiting := remove1 (c, slot) (tp_waiting p), tp_claimed := (c, slot) # tp_claimed p\<rparr>)"
| abandoned: "(c, slot) \<in> set (tp_claimed p) \<Longrightarrow>
    pool_step L W p ((with_manager p (set_cell slot CellEmpty (tp_manager p)))\<lparr>tp_claimed := remove1 (c, slot) (tp_claimed p)\<rparr>)"
| refused: "(c, slot) \<in> set (tp_claimed p) \<Longrightarrow> reserve_build memory c slot (tp_manager p) = (Inl e, m) \<Longrightarrow>
    pool_step L W p ((with_manager p m)\<lparr>tp_claimed := remove1 (c, slot) (tp_claimed p)\<rparr>)"
| reserved: "(c, slot) \<in> set (tp_claimed p) \<Longrightarrow> reserve_build memory c slot (tp_manager p) = (Inr u, m) \<Longrightarrow>
    pool_step L W p ((with_manager p m)\<lparr>tp_claimed := remove1 (c, slot) (tp_claimed p), tp_building := slot # tp_building p\<rparr>)"
| failed: "slot \<in> set (tp_building p) \<Longrightarrow>
    pool_step L W p ((with_manager p (build_failed slot (tp_manager p)))\<lparr>tp_building := remove1 slot (tp_building p)\<rparr>)"
| returned: "slot \<in> set (tp_building p) \<Longrightarrow> map_of (tm_agents (tp_manager p)) (ma_agent t) = None \<Longrightarrow> length (tp_returned p) < W \<Longrightarrow>
    pool_step L W p ((with_manager p (build_returned t info (tp_manager p)))
      \<lparr>tp_building := remove1 slot (tp_building p), tp_returned := (slot, t) # tp_returned p\<rparr>)"
| filled: "(slot, t) \<in> set (tp_returned p) \<Longrightarrow>
    pool_step L W p ((with_manager p (fill_cell slot t (tp_manager p)))\<lparr>tp_returned := remove1 (slot, t) (tp_returned p)\<rparr>)"
| built: "slot \<in> set (tp_building p) \<Longrightarrow> map_of (tm_agents (tp_manager p)) (ma_agent t) = None \<Longrightarrow>
    pool_step L W p ((with_manager p (fill_cell slot t (build_returned t info (tp_manager p))))\<lparr>tp_building := remove1 slot (tp_building p)\<rparr>)"
| killed: "pool_step L W p (with_manager p (snd (kill c (tp_manager p))))"
| killed_waiting: "pool_step L W p (with_manager p (snd (kill_and_wait c (tp_manager p))))"
| killed_awaited: "kill_awaited slot (tp_manager p) = Some m \<Longrightarrow> pool_step L W p (with_manager p m)"
| cleared: "pool_step L W p (with_manager p (clear (tp_manager p)))"
| deleted: "pool_step L W p (with_manager p (task_conversation_deleted c (tp_manager p)))"
| scanned: "pool_step L W p (with_manager p (scan_and_cleanup now threshold coordinator (tp_manager p)))"
| configured: "limit \<le> L \<Longrightarrow> pool_step L W p (with_manager p (configure_resident_policy limit idle (tp_manager p)))"
| agent_changed: "pool_step L W p (with_manager p ((tp_manager p)
    \<lparr>tm_agents := AList.map_entry a (\<lambda>g. g\<lparr>ag_status := status, ag_last_activity := t\<rparr>) (tm_agents (tp_manager p))\<rparr>))"
| lease_renewed: "pool_step L W p (with_manager p ((tp_manager p)\<lparr>tm_leases := snd (renew now c (tm_leases (tp_manager p)))\<rparr>))"
| leases_renewed: "pool_step L W p (with_manager p ((tp_manager p)\<lparr>tm_leases := snd (renew_many now cs (tm_leases (tp_manager p)))\<rparr>))"

abbreviation pool_steps :: "nat \<Rightarrow> nat \<Rightarrow> task_pool \<Rightarrow> task_pool \<Rightarrow> bool" where
  "pool_steps L W \<equiv> (pool_step L W)\<^sup>*\<^sup>*"

definition slots_inv :: "task_pool \<Rightarrow> bool" where
  "slots_inv p \<longleftrightarrow>
     (let m = tp_manager p
      in distinct (map fst (tm_tasks m)) \<and> distinct (map snd (tm_tasks m)) \<and> (\<forall>s \<in> snd ` set (tm_tasks m). s < tm_next_slot m) \<and>
         (\<forall>s. map_of (tm_cells m) s \<noteq> None \<longrightarrow> s < tm_next_slot m) \<and>
         distinct (in_flight p) \<and> set (in_flight p) = {s. map_of (tm_cells m) s = Some CellInit})"

definition capacity_inv :: "nat \<Rightarrow> nat \<Rightarrow> task_pool \<Rightarrow> bool" where
  "capacity_inv L W p \<longleftrightarrow>
     (let m = tp_manager p
      in tm_resident_task_limit m \<le> L \<and> tm_building_count m = length (tp_building p) \<and> length (tp_returned p) \<le> W \<and>
         active_tasks m + length (tp_building p) + length (tp_returned p) \<le> L + W)"

section \<open>The slots\<close>

lemma update_new: "map_of xs k = None \<Longrightarrow> AList.update k v xs = xs @ [(k, v)]"
  by (induction xs) (auto split: if_splits)

lemma mset_map_remove1: "x \<in> set xs \<Longrightarrow> add_mset (f x) (image_mset f (mset xs - {#x#})) = image_mset f (mset xs)"
  by (metis image_mset_add_mset insert_DiffM set_mset_mset)

lemma slots_inv_keeps:
  assumes "slots_inv p" "same_but_tasks (tp_manager p) m"
  shows "slots_inv (with_manager p m)"
  using assms by (auto simp: slots_inv_def same_but_tasks_def in_flight_def Let_def distinct_map_filter image_iff)

lemma slots_inv_set_cell:
  assumes p: "slots_inv p" and m: "same_but_tasks (tp_manager p) m" and x: "x \<noteq> CellInit"
    and q: "tp_manager q = set_cell s x m" "add_mset s (mset (in_flight q)) = mset (in_flight p)"
  shows "slots_inv q"
proof -
  have d: "distinct (s # in_flight q)" and i: "set (in_flight p) = insert s (set (in_flight q))"
    using p mset_eq_imp_distinct_iff [of "s # in_flight q" "in_flight p"] mset_eq_setD [of "s # in_flight q" "in_flight p"] q(2)
    by (auto simp: slots_inv_def Let_def)
  have "map_of (tm_cells (tp_manager p)) s = Some CellInit"
    using p i by (auto simp: slots_inv_def Let_def)
  then have "s < tm_next_slot m"
    using p m by (auto simp: slots_inv_def Let_def same_but_tasks_def)
  moreover have "slots_inv (with_manager p m)" "in_flight (with_manager p m) = in_flight p"
    using slots_inv_keeps [OF p m] by (simp_all add: in_flight_def)
  ultimately show ?thesis
    using q(1) d i x by (auto simp: slots_inv_def Let_def set_cell_def table_simps split: if_splits)
qed

section \<open>Steps of a caller\<close>

lemma acquire_slot_cases:
  assumes "acquire_slot c requested m = (r, m')"
  obtains (present) "same_but_tasks m m'"
  | (absent) m1 where "same_but_tasks m m1" "map_of (tm_tasks m1) c = None" "m' = insert_slot c m1"
proof -
  let ?first = "case initialised_managed_task c m of
    Some t \<Rightarrow> if satisfies (ma_capabilities t) requested then (Inr (), m) else kill c m | None \<Rightarrow> (Inr (), m)"
  obtain x m1 where f: "?first = (x, m1)" by fastforce
  then have k: "same_but_tasks m m1"
    using kill_keeps [of m c] by (auto split: option.splits if_splits)
  show thesis
    using assms f k present absent by (cases x) (auto simp: acquire_slot_def split: option.splits)
qed

lemma enforce_keeps: "same_but_tasks m (snd (enforce_resident_capacity memory c m))"
  by (auto simp: enforce_resident_capacity_def Let_def kill_keeps kill_all_keeps snd_and_then_pure split: list.splits)

lemma reserve_build_cases:
  assumes "reserve_build memory c slot m = (r, m')"
  obtains (refused) e m1 where "r = Inl e" "same_but_tasks m m1" "m' = set_cell slot CellEmpty m1"
  | (granted) m1 where "r = Inr ()" "enforce_resident_capacity memory c m = (Inr (), m1)" "same_but_tasks m m1"
      "m' = m1\<lparr>tm_building_count := tm_building_count m1 + 1\<rparr>"
  using assms enforce_keeps [of m memory c] that
  by (cases "enforce_resident_capacity memory c m"; cases "fst (enforce_resident_capacity memory c m)")
     (auto simp: reserve_build_def)

lemma kill_awaited_keeps: "kill_awaited slot m = Some m' \<Longrightarrow> same_but_tasks m m'"
  using kill_agent_keeps by (auto simp: kill_awaited_def split: option.splits task_cell.splits)

lemma slots_inv_insert:
  assumes "slots_inv p" "map_of (tm_tasks (tp_manager p)) c = None"
  shows "slots_inv (with_manager p (insert_slot c (tp_manager p)))"
proof -
  have fresh: "map_of (tm_cells (tp_manager p)) (tm_next_slot (tp_manager p)) = None"
    using assms(1) by (auto simp: slots_inv_def Let_def)
  have "c \<notin> fst ` set (tm_tasks (tp_manager p))"
    using assms(2) by (simp add: map_of_eq_None_iff)
  then show ?thesis
    using assms(1) fresh update_new [OF assms(2)]
    by (auto simp: slots_inv_def insert_slot_def Let_def in_flight_def table_simps less_Suc_eq split: if_splits)
qed

lemma slots_inv_cong:
  assumes "slots_inv p" "tm_tasks (tp_manager q) = tm_tasks (tp_manager p)" "tm_cells (tp_manager q) = tm_cells (tp_manager p)"
    "tm_next_slot (tp_manager q) = tm_next_slot (tp_manager p)" "mset (in_flight q) = mset (in_flight p)"
  shows "slots_inv q"
  using assms mset_eq_setD [OF assms(5)] mset_eq_imp_distinct_iff [OF assms(5)] by (simp add: slots_inv_def Let_def)

lemma slots_inv_distinct: "slots_inv p \<Longrightarrow> distinct (in_flight p)"
  by (simp add: slots_inv_def Let_def)

lemma slots_inv_claim:
  assumes "slots_inv p" "claim_cell s (tp_manager p) = Some m"
  shows "slots_inv ((with_manager p m)\<lparr>tp_waiting := ws, tp_claimed := (c, s) # tp_claimed p\<rparr>)"
proof -
  have e: "map_of (tm_cells (tp_manager p)) s = Some CellEmpty" and m: "m = set_cell s CellInit (tp_manager p)"
    using assms(2) by (auto simp: claim_cell_def split: if_splits)
  have "s \<notin> set (in_flight p)" "s < tm_next_slot (tp_manager p)"
    using assms(1) e by (auto simp: slots_inv_def Let_def)
  moreover have "distinct (in_flight p)"
    using assms(1) by (rule slots_inv_distinct)
  ultimately show ?thesis
    using assms(1) by (auto simp: m slots_inv_def Let_def set_cell_def in_flight_def table_simps split: if_splits)
qed

lemma slots_inv_acquire:
  assumes "slots_inv p" "acquire_slot c requested (tp_manager p) = (r, m)"
  shows "slots_inv (with_manager p m)"
  using assms(2)
proof (cases rule: acquire_slot_cases)
  case (absent m1)
  then show ?thesis using slots_inv_insert [of "with_manager p m1" c] slots_inv_keeps [OF assms(1)] by simp
qed (rule slots_inv_keeps [OF assms(1)])

lemma slots_inv_reserve:
  assumes p: "slots_inv p" and c: "(c, s) \<in> set (tp_claimed p)" and r: "reserve_build memory c s (tp_manager p) = (r, m)"
  shows "slots_inv ((with_manager p m)\<lparr>tp_claimed := remove1 (c, s) (tp_claimed p),
    tp_building := (case r of Inl _ \<Rightarrow> tp_building p | Inr _ \<Rightarrow> s # tp_building p)\<rparr>)"
  using r
proof (cases rule: reserve_build_cases)
  case (refused e m1)
  then show ?thesis
    using mset_map_remove1 [OF c, of snd] by (intro slots_inv_set_cell [OF p, of m1 CellEmpty]) (simp_all add: in_flight_def)
next
  case (granted m1)
  show ?thesis
    unfolding granted(1,4) using mset_map_remove1 [OF c, of snd]
    by (intro slots_inv_cong [OF slots_inv_keeps [OF p granted(3)]]) (simp_all add: in_flight_def)
qed

lemma slots_step:
  assumes "pool_step L W p q" "slots_inv p"
  shows "slots_inv q"
proof -
  note ends = slots_inv_set_cell [OF assms(2)] and moves = slots_inv_cong [OF assms(2)] and keeps = slots_inv_keeps [OF assms(2)]
  show ?thesis
    using assms(1)
  proof cases
    case (request c requested slot m)
    then show ?thesis
      using slots_inv_acquire [OF assms(2) request(2)] by (simp add: slots_inv_def in_flight_def)
  next
    case (claimed c slot m)
    then show ?thesis using slots_inv_claim [OF assms(2)] by simp
  next
    case (abandoned c slot)
    then show ?thesis
      using mset_map_remove1 [OF abandoned(2), of snd] by (intro ends [OF same_but_tasks_refl, of CellEmpty]) (simp_all add: in_flight_def)
  next
    case (refused c slot memory e m)
    then show ?thesis using slots_inv_reserve [OF assms(2) refused(2,3)] by simp
  next
    case (reserved c slot memory u m)
    then show ?thesis using slots_inv_reserve [OF assms(2) reserved(2,3)] by simp
  next
    case (failed slot)
    have "slots_inv (with_manager p (drop_reservation (tp_manager p)))"
      by (intro moves) (simp_all add: drop_reservation_def in_flight_def)
    from slots_inv_set_cell [OF this same_but_tasks_refl, of CellEmpty] show ?thesis
      using failed by (simp add: in_flight_def build_failed_def)
  next
    case (returned slot t info)
    then show ?thesis
      by (intro moves) (simp_all add: in_flight_def build_returned_def drop_reservation_def)
  next
    case (filled slot t)
    then show ?thesis
      using mset_map_remove1 [OF filled(2), of fst]
      by (intro ends [OF same_but_tasks_refl, of "CellReady t"]) (simp_all add: in_flight_def fill_cell_def)
  next
    case (built slot t info)
    have "slots_inv (with_manager p (build_returned t info (tp_manager p)))"
      by (intro moves) (simp_all add: build_returned_def drop_reservation_def in_flight_def)
    from slots_inv_set_cell [OF this same_but_tasks_refl, of "CellReady t"] show ?thesis
      using built by (simp add: in_flight_def fill_cell_def)
  qed (auto intro: keeps slots_inv_acquire [OF assms(2)] kill_keeps kill_and_wait_keeps kill_awaited_keeps clear_keeps scan_keeps moves
      simp: task_conversation_deleted_def configure_resident_policy_def in_flight_def)
qed

section \<open>The capacity\<close>

lemma idle_lru_candidates_iff:
  assumes "distinct (map fst (tm_tasks m))"
  shows "(c, t) \<in> set (idle_lru_candidates requested m) \<longleftrightarrow>
    c \<noteq> requested \<and> (\<exists>slot g. map_of (tm_tasks m) c = Some slot \<and> idle_agent slot m = Some g \<and> t = ag_last_activity g)"
  using assms by (force simp: idle_lru_candidates_def map_filter_def split: if_splits)

lemma idle_agent_ready: "idle_agent slot m = Some g \<Longrightarrow> \<exists>t. cell_ready slot m = Some t"
  by (auto simp: idle_agent_def bind_eq_Some_conv)

lemma enforce_makes_room:
  assumes e: "enforce_resident_capacity memory c m = (Inr u, m')" and d: "distinct (map fst (tm_tasks m))"
  shows "active_tasks m' + tm_building_count m' < max (tm_resident_task_limit m) 1 \<or> active_tasks m' < active_tasks m"
proof (cases "active_tasks m + tm_building_count m < capacity_limit (case memory of Some x \<Rightarrow> x | None \<Rightarrow> 0) m")
  case True
  then have "m' = m"
    using e by (auto simp: enforce_resident_capacity_def Let_def and_then_def split: if_splits prod.splits sum.splits)
  then show ?thesis
    using True by (auto simp: capacity_limit_def Let_def split: if_splits)
next
  case False
  then obtain k t rest where k: "idle_lru_candidates c m = (k, t) # rest" and m': "kill k m = (Inr u, m')"
    using e by (auto simp: enforce_resident_capacity_def Let_def and_then_def split: if_splits prod.splits sum.splits list.splits)
  then obtain slot t' where "map_of (tm_tasks m) k = Some slot" "cell_ready slot m = Some t'"
    using idle_lru_candidates_iff [OF d, of k t c] idle_agent_ready by fastforce
  from active_kill_ready [OF this] show ?thesis
    by (simp add: m')
qed

lemma capacity_inv_keeps: "capacity_inv L W p \<Longrightarrow> same_but_tasks (tp_manager p) m \<Longrightarrow> capacity_inv L W (with_manager p m)"
  using active_of_filter [of "tp_manager p" m] by (auto simp: capacity_inv_def Let_def same_but_tasks_def)

lemma capacity_inv_waiting [simp]: "capacity_inv L W (p\<lparr>tp_waiting := ws\<rparr>) = capacity_inv L W p"
  by (simp add: capacity_inv_def)

lemma active_insert_slot:
  assumes "slots_inv p" "map_of (tm_tasks (tp_manager p)) c = None"
  shows "active_tasks (insert_slot c (tp_manager p)) = active_tasks (tp_manager p)"
proof -
  let ?m = "tp_manager p"
  have "cell_ready s (insert_slot c ?m) = cell_ready s ?m" if "(k, s) \<in> set (tm_tasks ?m)" for k s
    using that assms(1) by (force simp: slots_inv_def Let_def cell_ready_def insert_slot_def table_simps)
  then have "filter (\<lambda>(k, s). cell_ready s (insert_slot c ?m) \<noteq> None) (tm_tasks ?m) = filter (\<lambda>(k, s). cell_ready s ?m \<noteq> None) (tm_tasks ?m)"
    by (intro filter_cong) auto
  moreover have "cell_ready (tm_next_slot ?m) (insert_slot c ?m) = None"
    by (simp add: cell_ready_def insert_slot_def table_simps)
  ultimately show ?thesis
    by (simp add: active_tasks_def insert_slot_def update_new [OF assms(2)])
qed

lemma capacity_inv_acquire:
  assumes "slots_inv p" "capacity_inv L W p" "acquire_slot c requested (tp_manager p) = (r, m)"
  shows "capacity_inv L W (with_manager p m)"
  using assms(3)
proof (cases rule: acquire_slot_cases)
  case (absent m1)
  have "active_tasks (insert_slot c m1) = active_tasks m1"
    using active_insert_slot [OF slots_inv_keeps [OF assms(1) absent(1)]] absent(2) by simp
  then show ?thesis
    using capacity_inv_keeps [OF assms(2) absent(1)] absent(3) by (simp add: capacity_inv_def Let_def insert_slot_def)
qed (rule capacity_inv_keeps [OF assms(2)])

lemma capacity_inv_reserve:
  assumes p: "slots_inv p" "capacity_inv L W p" and L: "1 \<le> L" and r: "reserve_build memory c s (tp_manager p) = (r, m)"
  shows "capacity_inv L W ((with_manager p m)\<lparr>tp_claimed := cs, tp_building := (case r of Inl _ \<Rightarrow> tp_building p | Inr _ \<Rightarrow> s # tp_building p)\<rparr>)"
  using r
proof (cases rule: reserve_build_cases)
  case (refused e m1)
  then show ?thesis
    using capacity_inv_keeps [OF p(2) refused(2)] active_set_cell_unready [of CellEmpty s m1]
    by (simp add: capacity_inv_def Let_def set_cell_def)
next
  case (granted m1)
  have "distinct (map fst (tm_tasks (tp_manager p)))"
    using p(1) by (simp add: slots_inv_def Let_def)
  from enforce_makes_room [OF granted(2) this] show ?thesis
    using capacity_inv_keeps [OF p(2) granted(3)] p(2) granted(1,4) L
    by (auto simp: capacity_inv_def Let_def active_tasks_def cell_ready_def)
qed

lemma capacity_step:
  assumes "pool_step L W p q" "slots_inv p" "capacity_inv L W p" "1 \<le> L"
  shows "capacity_inv L W q"
proof -
  note keeps = capacity_inv_keeps [OF assms(3)]
  have dist: "distinct (map snd (tm_tasks (tp_manager p)))"
    using assms(2) by (simp add: slots_inv_def Let_def)
  show ?thesis
    using assms(1)
  proof cases
    case (request c requested slot m)
    then show ?thesis
      using capacity_inv_acquire [OF assms(2,3) request(2)] by (simp add: capacity_inv_def)
  next
    case (claimed c slot m)
    then show ?thesis
      using active_set_cell_unready [of CellInit slot "tp_manager p"] assms(3)
      by (auto simp: claim_cell_def capacity_inv_def Let_def set_cell_def split: if_splits)
  next
    case (abandoned c slot)
    then show ?thesis
      using active_set_cell_unready [of CellEmpty slot "tp_manager p"] assms(3) by (simp add: capacity_inv_def Let_def set_cell_def)
  next
    case (refused c slot memory e m)
    then show ?thesis using capacity_inv_reserve [OF assms(2-4) refused(3)] by simp
  next
    case (reserved c slot memory u m)
    then show ?thesis using capacity_inv_reserve [OF assms(2-4) reserved(3)] by simp
  next
    case (failed slot)
    then show ?thesis
      using active_set_cell_unready [of CellEmpty slot "drop_reservation (tp_manager p)"] assms(3)
      by (auto simp: capacity_inv_def Let_def set_cell_def build_failed_def drop_reservation_def length_remove1
          active_tasks_def [of "tp_manager p\<lparr>tm_building_count := n\<rparr>" for n] active_tasks_def [of "tp_manager p"] cell_ready_def)
  next
    case (returned slot t info)
    obtain k where "length (tp_building p) = Suc k"
      using length_pos_if_in_set [OF returned(2)] gr0_implies_Suc by blast
    then show ?thesis
      using assms(3) returned
      by (auto simp: capacity_inv_def Let_def build_returned_def drop_reservation_def length_remove1 active_tasks_def cell_ready_def)
  next
    case (filled slot t)
    obtain k where "length (tp_returned p) = Suc k"
      using length_pos_if_in_set [OF filled(2)] gr0_implies_Suc by blast
    then show ?thesis
      using active_set_cell [OF dist, of slot "CellReady t"] filled assms(3)
      by (auto simp: capacity_inv_def Let_def fill_cell_def set_cell_def length_remove1)
  next
    case (built slot t info)
    obtain k where "length (tp_building p) = Suc k"
      using length_pos_if_in_set [OF built(2)] gr0_implies_Suc by blast
    moreover have "active_tasks (build_returned t info (tp_manager p)) = active_tasks (tp_manager p)"
      by (simp add: build_returned_def drop_reservation_def active_tasks_def)
    moreover have "active_tasks (set_cell slot (CellReady t) (build_returned t info (tp_manager p))) \<le> Suc (active_tasks (build_returned t info (tp_manager p)))"
      using dist by (intro active_set_cell) (simp add: build_returned_def drop_reservation_def)
    ultimately show ?thesis
      using built assms(3)
      by (auto simp: capacity_inv_def Let_def fill_cell_def length_remove1) (simp_all add: set_cell_def build_returned_def drop_reservation_def)
  next
    case (configured limit idle)
    then show ?thesis
      using assms(3,4) by (simp add: capacity_inv_def Let_def configure_resident_policy_def active_tasks_def cell_ready_def)
  qed (use assms(3) in \<open>auto intro: keeps capacity_inv_acquire [OF assms(2,3)] kill_keeps kill_and_wait_keeps kill_awaited_keeps clear_keeps scan_keeps
      simp: task_conversation_deleted_def\<close>)
qed

section \<open>Reachable pools\<close>

lemma new_pool_inv: "slots_inv new_pool" "6 \<le> L \<Longrightarrow> capacity_inv L W new_pool"
  by (simp_all add: slots_inv_def capacity_inv_def new_pool_def new_worker_task_manager_def in_flight_def active_tasks_def)

lemma pool_steps_inv:
  assumes "pool_steps L W p q" "slots_inv p" "capacity_inv L W p" "1 \<le> L"
  shows "slots_inv q \<and> capacity_inv L W q"
  using assms(1)
  by (induction rule: rtranclp_induct) (use assms slots_step capacity_step in blast)+

lemma reachable_slots_inv: "pool_steps L W new_pool p \<Longrightarrow> slots_inv p"
  by (induction rule: rtranclp_induct) (use new_pool_inv slots_step in blast)+

lemma reachable_capacity_inv:
  assumes "pool_steps L W new_pool p" "6 \<le> L"
  shows "capacity_inv L W p"
  using pool_steps_inv [OF assms(1) new_pool_inv(1) new_pool_inv(2) [OF assms(2)]] assms(2) by auto

text \<open>A filled cell keeps its task: no other initialiser runs on its slot.\<close>

lemma ready_step:
  assumes "pool_step L W p q" "slots_inv p" "cell_ready s (tp_manager p) = Some t"
  shows "cell_ready s (tp_manager q) = Some t"
proof -
  have cells: "cell_ready s m = Some t" if "same_but_tasks (tp_manager p) m" for m
    using that assms(3) by (simp add: same_but_tasks_def cell_ready_def)
  have busy: "s \<noteq> s'" if "s' \<in> set (in_flight p)" for s'
    using that assms(2,3) by (auto simp: slots_inv_def Let_def cell_ready_def)
  have acquire: "cell_ready s m = Some t" if "acquire_slot c requested (tp_manager p) = (r, m)" for c requested r m
    using that
  proof (cases rule: acquire_slot_cases)
    case (absent m1)
    have "s < tm_next_slot m1"
      using slots_inv_keeps [OF assms(2) absent(1)] cells [OF absent(1)]
      by (auto simp: slots_inv_def Let_def cell_ready_def split: option.splits)
    then show ?thesis
      using cells [OF absent(1)] by (simp add: absent(3) insert_slot_def cell_ready_def table_simps)
  qed (rule cells)
  show ?thesis
    using assms(1)
  proof cases
    case (claimed c slot m)
    then show ?thesis
      using assms(3) by (auto simp: claim_cell_def cell_ready_def set_cell_def table_simps split: if_splits)
  next
    case (abandoned c slot)
    then show ?thesis
      using assms(3) busy [of slot] by (force simp: cell_ready_set_cell in_flight_def)
  next
    case (refused c slot memory e m)
    from refused(3) show ?thesis
      using refused(1,2) busy [of slot] cells
      by (cases rule: reserve_build_cases) (force simp: cell_ready_set_cell in_flight_def)+
  next
    case (reserved c slot memory u m)
    from reserved(3) show ?thesis
      using reserved(1) cells by (cases rule: reserve_build_cases) (auto simp: cell_ready_def)
  next
    case (failed slot)
    then show ?thesis
      using assms(3) busy [of slot] by (auto simp: build_failed_def cell_ready_set_cell in_flight_def drop_reservation_def)
  next
    case (filled slot t')
    then show ?thesis
      using assms(3) busy [of slot] by (force simp: fill_cell_def cell_ready_set_cell in_flight_def)
  next
    case (built slot t' info)
    then show ?thesis
      using assms(3) busy [of slot] by (auto simp: fill_cell_def cell_ready_set_cell in_flight_def build_returned_def drop_reservation_def)
  qed (use assms(3) acquire in \<open>auto intro: cells kill_keeps kill_and_wait_keeps kill_awaited_keeps clear_keeps scan_keeps
      simp: task_conversation_deleted_def build_returned_def drop_reservation_def configure_resident_policy_def\<close>)
qed

lemma ready_steps:
  assumes "pool_steps L W p q" "slots_inv p" "cell_ready s (tp_manager p) = Some t"
  shows "cell_ready s (tp_manager q) = Some t"
proof -
  have "slots_inv q \<and> cell_ready s (tp_manager q) = Some t"
    using assms(1) by (induction rule: rtranclp_induct) (use assms slots_step ready_step in blast)+
  then show ?thesis ..
qed

end
