(* ===== verification/TaskGuarantees.thy ===== *)
theory TaskGuarantees
  imports TaskPool
begin

text \<open>
  The guarantees of the table of agent tasks: how many agents are resident, that a slot has one initialiser
  and keeps its agent, which task is evicted for a new one, and which tasks the idle scanner ends.
\<close>

section \<open>What the scanner ends\<close>

definition lease_protects :: "timestamp_ms \<Rightarrow> id \<Rightarrow> worker_task_manager \<Rightarrow> bool" where
  "lease_protects now c m \<longleftrightarrow> (\<exists>e. map_of (al_leases (tm_leases m)) c = Some e \<and> now < e)"

definition scan_target :: "timestamp_ms \<Rightarrow> timestamp_ms \<Rightarrow> worker_task_manager \<Rightarrow> id \<times> nat \<Rightarrow> bool" where
  "scan_target now threshold m = (\<lambda>(c, slot). case idle_agent slot m of
     Some g \<Rightarrow> ag_type g = AtAcp \<and> threshold < sat_i64 (now - ag_last_activity g) \<and> \<not> lease_protects now c m
   | None \<Rightarrow> False)"

definition agent_killed :: "nat \<Rightarrow> worker_task_manager \<Rightarrow> bool" where
  "agent_killed a m \<longleftrightarrow> (\<exists>g. map_of (tm_agents m) a = Some g \<and> ag_killed g)"

lemma active_until_value: "(fst (active_until now c (tm_leases m)) = None) = (\<not> lease_protects now c m)"
  by (auto simp: active_until_def lease_protects_def split: option.splits)

lemma active_until_other:
  "k \<noteq> c \<Longrightarrow> lease_protects now k (m\<lparr>tm_leases := snd (active_until now c (tm_leases m))\<rparr>) = lease_protects now k m"
  by (auto simp: active_until_def lease_protects_def table_simps split: option.splits)

lemma idle_agent_leases [simp]: "idle_agent slot (m\<lparr>tm_leases := reg\<rparr>) = idle_agent slot m"
  by (simp add: idle_agent_def)

lemma scan_target_other:
  assumes "c \<notin> fst ` set xs"
  shows "filter (scan_target now threshold (m\<lparr>tm_leases := snd (active_until now c (tm_leases m))\<rparr>)) xs = filter (scan_target now threshold m) xs"
proof (intro filter_cong refl)
  fix e assume "e \<in> set xs"
  then have "fst e \<noteq> c" using assms by auto
  then show "scan_target now threshold (m\<lparr>tm_leases := snd (active_until now c (tm_leases m))\<rparr>) e = scan_target now threshold m e"
    by (cases e) (simp add: scan_target_def active_until_other split: option.split)
qed

lemma scan_target_pair:
  "scan_target now threshold m (c, slot) \<longleftrightarrow> (\<exists>g. idle_agent slot m = Some g \<and> ag_type g = AtAcp \<and>
     threshold < sat_i64 (now - ag_last_activity g) \<and> \<not> lease_protects now c m)"
  by (auto simp: scan_target_def split: option.splits)

lemma collect_idle_from_value:
  "distinct (map fst xs) \<Longrightarrow> fst (collect_idle_from now threshold xs m) = map fst (filter (scan_target now threshold m) xs)"
proof (induction xs arbitrary: m)
  case (Cons x rest)
  obtain c slot where x: "x = (c, slot)" by fastforce
  obtain lease reg where l: "active_until now c (tm_leases m) = (lease, reg)" by fastforce
  have c: "c \<notin> fst ` set rest" "distinct (map fst rest)" using Cons.prems by (simp_all add: x)
  have "fst (collect_idle_from now threshold rest (m\<lparr>tm_leases := reg\<rparr>)) = map fst (filter (scan_target now threshold m) rest)"
    using Cons.IH [OF c(2), of "m\<lparr>tm_leases := reg\<rparr>"] scan_target_other [OF c(1), of now threshold m] by (simp add: l)
  then show ?case
    using Cons.IH [OF c(2), of m] active_until_value [of now c m]
    by (auto simp: x l scan_target_pair split: option.splits prod.splits)
qed simp

lemma collect_idle_from_same:
  "tm_tasks (snd (collect_idle_from now threshold xs m)) = tm_tasks m" "tm_cells (snd (collect_idle_from now threshold xs m)) = tm_cells m"
  "tm_agents (snd (collect_idle_from now threshold xs m)) = tm_agents m"
  by (induction now threshold xs m rule: collect_idle_from.induct) (auto split: option.splits prod.splits)

lemma tasks_kill_and_wait: "tm_tasks (snd (kill_and_wait c m)) = AList.delete c (tm_tasks m)"
  by (auto simp: kill_and_wait_def Let_def delete_id map_of_eq_None_iff split: option.splits)

lemma agent_killed_stays: "agent_killed a m \<Longrightarrow> agent_killed a (snd (kill_and_wait c m))"
  by (auto simp: agent_killed_def kill_and_wait_def kill_agent_def Let_def map_of_map_entry split: option.splits)

lemma kill_and_wait_kills:
  assumes "map_of (tm_tasks m) c = Some slot" "cell_ready slot m = Some t" "map_of (tm_agents m) (ma_agent t) = Some g"
  shows "agent_killed (ma_agent t) (snd (kill_and_wait c m))"
  using assms by (simp add: agent_killed_def kill_and_wait_def kill_agent_def map_of_map_entry)

lemma kill_and_wait_agents: "(map_of (tm_agents (snd (kill_and_wait c m))) a = None) = (map_of (tm_agents m) a = None)"
  by (auto simp: kill_and_wait_def kill_agent_def Let_def map_of_map_entry split: option.splits)

abbreviation end_tasks :: "id list \<Rightarrow> worker_task_manager \<Rightarrow> worker_task_manager" where
  "end_tasks \<equiv> fold (\<lambda>c m. snd (kill_and_wait c m))"

lemma tasks_end_tasks: "tm_tasks (end_tasks cs m) = filter (\<lambda>(c, _). c \<notin> set cs) (tm_tasks m)"
  by (induction cs arbitrary: m) (auto simp: tasks_kill_and_wait AList.delete_eq case_prod_unfold intro: filter_cong)

lemma end_tasks_killed: "agent_killed a m \<Longrightarrow> agent_killed a (end_tasks cs m)"
  by (induction cs arbitrary: m) (simp_all add: agent_killed_stays)

lemma end_tasks_kills:
  assumes "c \<in> set cs" "map_of (tm_tasks m) c = Some slot" "cell_ready slot m = Some t" "map_of (tm_agents m) (ma_agent t) \<noteq> None"
  shows "agent_killed (ma_agent t) (end_tasks cs m)"
  using assms
proof (induction cs arbitrary: m)
  case (Cons k cs)
  show ?case
  proof (cases "k = c")
    case True
    with Cons.prems obtain g where "map_of (tm_agents m) (ma_agent t) = Some g" by blast
    from kill_and_wait_kills [OF Cons.prems(2,3) this] show ?thesis by (simp add: True end_tasks_killed)
  next
    case False
    have "cell_ready slot (snd (kill_and_wait k m)) = Some t"
      using Cons.prems(3) kill_and_wait_keeps [of m k] by (simp add: same_but_tasks_def cell_ready_def)
    moreover have "map_of (tm_agents (snd (kill_and_wait k m))) (ma_agent t) \<noteq> None"
      using Cons.prems(4) by (simp only: kill_and_wait_agents not_False_eq_True)
    moreover have "map_of (tm_tasks (snd (kill_and_wait k m))) c = Some slot"
      using Cons.prems(2) False by (simp add: tasks_kill_and_wait table_simps)
    ultimately show ?thesis
      using Cons.IH Cons.prems(1) False by simp
  qed
qed simp

section \<open>Example histories\<close>

definition sample_agent :: agent_info where
  "sample_agent = \<lparr>ag_type = AtAcp, ag_status = Some StFinished, ag_last_activity = 0, ag_kill_error = None, ag_killed = False\<rparr>"

definition sample_task :: "nat \<Rightarrow> managed_agent_task" where
  "sample_task a = \<lparr>ma_agent = a, ma_capabilities = None\<rparr>"

text \<open>A caller that gets a slot, runs its initialiser and passes the capacity lock; and how its build ends.\<close>

definition start_build :: "id \<Rightarrow> nat \<Rightarrow> task_pool \<Rightarrow> task_pool" where
  "start_build c s p =
     (let m = snd (acquire_slot c None (tp_manager p)); m = set_cell s CellInit m; m = snd (reserve_build None c s m)
      in p\<lparr>tp_manager := m, tp_building := s # tp_building p\<rparr>)"

definition end_build :: "nat \<Rightarrow> nat \<Rightarrow> task_pool \<Rightarrow> task_pool" where
  "end_build s a p = (with_manager p (fill_cell s (sample_task a) (build_returned (sample_task a) sample_agent (tp_manager p))))
     \<lparr>tp_building := remove1 s (tp_building p)\<rparr>"

lemma start_build_steps:
  assumes "fst (acquire_slot c None (tp_manager p)) = Inr s"
    "map_of (tm_cells (snd (acquire_slot c None (tp_manager p)))) s = Some CellEmpty"
    "fst (reserve_build None c s (set_cell s CellInit (snd (acquire_slot c None (tp_manager p))))) = Inr ()"
  shows "pool_steps L W p (start_build c s p)"
proof -
  let ?m1 = "snd (acquire_slot c None (tp_manager p))"
  let ?m2 = "set_cell s CellInit ?m1"
  let ?p1 = "(with_manager p ?m1)\<lparr>tp_waiting := (c, s) # tp_waiting p\<rparr>"
  let ?p2 = "(with_manager p ?m2)\<lparr>tp_claimed := (c, s) # tp_claimed p\<rparr>"
  have "pool_step L W p ?p1"
    using assms(1) by (intro pool_step.request [where requested = None]) (metis prod.collapse)
  moreover have "pool_step L W ?p1 ?p2"
    using pool_step.claimed [where p = ?p1 and c = c and slot = s and m = ?m2] assms(2) by (simp add: claim_cell_def)
  moreover have "pool_step L W ?p2 (start_build c s p)"
    using pool_step.reserved [where p = ?p2 and c = c and slot = s and memory = None and m = "snd (reserve_build None c s ?m2)" and u = "()"] assms(3)
    by (simp add: start_build_def Let_def prod_eq_iff)
  ultimately show ?thesis
    by (meson converse_rtranclp_into_rtranclp rtranclp.rtrancl_refl)
qed

lemma end_build_step:
  "s \<in> set (tp_building p) \<Longrightarrow> map_of (tm_agents (tp_manager p)) a = None \<Longrightarrow> pool_step L W p (end_build s a p)"
  unfolding end_build_def by (rule pool_step.built) (simp_all add: sample_task_def)

definition one_task :: task_pool where
  "one_task = end_build 0 7 (start_build ''a'' 0 new_pool)"

lemma one_task_steps: "pool_steps L W new_pool one_task"
proof -
  have "pool_steps L W new_pool (start_build ''a'' 0 new_pool)"
    by (rule start_build_steps; code_simp)
  moreover have "pool_step L W (start_build ''a'' 0 new_pool) one_task"
    unfolding one_task_def by (rule end_build_step; code_simp)
  ultimately show ?thesis by simp
qed

lemma second_build_steps: "pool_steps L W one_task (start_build ''b'' 1 one_task)"
  by (rule start_build_steps; code_simp)

lemma one_task_manager:
  "tm_tasks (tp_manager one_task) = [(''a'', 0)]" "cell_ready 0 (tp_manager one_task) = Some (sample_task 7)"
  "map_of (tm_agents (tp_manager one_task)) 7 = Some sample_agent" "tm_leases (tp_manager one_task) = new_lease_registry 90000"
  "active_tasks (tp_manager one_task) = 1" "tm_building_count (tp_manager one_task) = 0" "tm_resident_task_limit (tp_manager one_task) = 6"
  by code_simp+

text \<open>
  The limit is 1 throughout, the first caller has dropped its reservation and not filled its cell, and a second one passes the
  capacity check: two agents are resident. And a conversation whose task is killed while it is built leaves an agent that runs and is in no table.
\<close>

definition limit_one :: task_pool where
  "limit_one = with_manager new_pool (configure_resident_policy 1 180000 new_worker_task_manager)"

definition first_returned :: task_pool where
  "first_returned =
     (let p = start_build ''a'' 0 limit_one
      in (with_manager p (build_returned (sample_task 7) sample_agent (tp_manager p)))\<lparr>tp_building := [], tp_returned := [(0, sample_task 7)]\<rparr>)"

definition over_limit :: task_pool where
  "over_limit =
     (let p = end_build 1 8 (start_build ''b'' 1 first_returned) in (with_manager p (fill_cell 0 (sample_task 7) (tp_manager p)))\<lparr>tp_returned := []\<rparr>)"

lemma limit_exceeded:
  "pool_steps 6 1 new_pool over_limit" "tm_resident_task_limit (tp_manager over_limit) = 1" "active_tasks (tp_manager over_limit) = 2"
proof -
  have "pool_step 6 1 new_pool limit_one"
    using pool_step.configured [of 1 6 1 new_pool 180000] by (simp add: limit_one_def new_pool_def)
  also have "pool_steps 6 1 limit_one (start_build ''a'' 0 limit_one)"
    by (rule start_build_steps; code_simp)
  also have "pool_step 6 1 (start_build ''a'' 0 limit_one) first_returned"
    using pool_step.returned [of 0 "start_build ''a'' 0 limit_one" "sample_task 7" 1 6 sample_agent]
    by (simp add: first_returned_def Let_def start_build_def limit_one_def new_pool_def) (erule meta_mp, code_simp)
  also have "pool_steps 6 1 first_returned (start_build ''b'' 1 first_returned)"
    by (rule start_build_steps; code_simp)
  also have "pool_step 6 1 (start_build ''b'' 1 first_returned) (end_build 1 8 (start_build ''b'' 1 first_returned))"
    by (rule end_build_step; code_simp)
  also have "pool_step 6 1 (end_build 1 8 (start_build ''b'' 1 first_returned)) over_limit"
    using pool_step.filled [of 0 "sample_task 7" "end_build 1 8 (start_build ''b'' 1 first_returned)" 6 1]
    by (simp add: over_limit_def Let_def end_build_def start_build_def first_returned_def)
  finally show "pool_steps 6 1 new_pool over_limit" .
  show "tm_resident_task_limit (tp_manager over_limit) = 1" "active_tasks (tp_manager over_limit) = 2"
    by code_simp+
qed

definition killed_while_built :: task_pool where
  "killed_while_built = (let p = start_build ''a'' 0 new_pool in end_build 0 7 (with_manager p (snd (kill ''a'' (tp_manager p)))))"

lemma kill_leaves_agent_running:
  "pool_steps L W new_pool killed_while_built" "tm_tasks (tp_manager killed_while_built) = []"
  "map_of (tm_agents (tp_manager killed_while_built)) 7 = Some sample_agent" "\<not> ag_killed sample_agent"
proof -
  let ?p = "start_build ''a'' 0 new_pool"
  have "pool_steps L W new_pool ?p"
    by (rule start_build_steps; code_simp)
  also have "pool_step L W ?p (with_manager ?p (snd (kill ''a'' (tp_manager ?p))))"
    by (rule pool_step.killed)
  also have "pool_step L W (with_manager ?p (snd (kill ''a'' (tp_manager ?p)))) killed_while_built"
    unfolding killed_while_built_def Let_def by (rule end_build_step; code_simp)
  finally show "pool_steps L W new_pool killed_while_built" .
  show "tm_tasks (tp_manager killed_while_built) = []" "map_of (tm_agents (tp_manager killed_while_built)) 7 = Some sample_agent"
    "\<not> ag_killed sample_agent"
    by code_simp+
qed

section \<open>Guarantees\<close>









end
