(* ===== verification/Spec2Isabelle.thy ===== *)
theory Spec2Isabelle
  imports TeamWork AgentRunPolicy DependencyOrder TaskLinks TeamMailbox RateLimit ChannelFlow RealtimePrivacy TurnDelivery CronGuarantees TaskGuarantees
begin

text \<open>
  A verification development for the CentaurAI core service, a Rust workspace of 23 crates under
  \<open>src/crates\<close> that runs coding agents for several users: conversations with single agents, teams
  of agents that work on a shared task board, scheduled jobs, extensions, and the HTTP and WebSocket
  interface around them. The development models the parts that decide: who may run when, which
  work an agent gets, in which order things are loaded, who is let in.

  \<^bold>\<open>Parts and theories.\<close>

  \<^item> \<open>Prelude\<close>: names of the basic types, association-list tables for hash maps and B-tree maps,
    list functions of the Rust library, and the lemmas on them. \<open>Decimal\<close>: printing and parsing of
    64-bit integers. \<open>Json\<close>: JSON values.
  \<^item> Team work coordinator, \<open>aionui-team/src/work_coordinator/\<close> and \<open>work_source.rs\<close>. A slot is an
    agent's place in a team; work for it is an intent, bound to a message and possibly to a run, which
    waits in a priority queue, is claimed in a batch, started, and ended. \<open>WorkModel\<close> has the data of
    \<open>model.rs\<close>, \<open>WorkCoordinator\<close> every operation of \<open>coordinator.rs\<close> and \<open>snapshot.rs\<close> under the
    names of the code (\<open>next_work\<close> is \<open>next\<close>, \<open>stop_work\<close> is \<open>stop\<close>). \<open>WorkInvariant\<close> states that
    every open intent has exactly one owner; \<open>WorkSteps\<close>, \<open>WorkBatches\<close> and \<open>WorkCancel\<close> show
    that every operation keeps this and does not panic; \<open>WorkReach\<close> has the coordinator as a state
    machine and the histories of a session.
  \<^item> Team run manager, \<open>team_run/manager.rs\<close>: \<open>RunPort\<close> has the contract of \<open>RunCausalityPort\<close> as a
    locale and what it gives for any run keeper, \<open>TeamRun\<close> the manager, which is shown to keep the
    contract. \<open>TeamWork\<close> has the properties of the two together: ownership, progress, claims,
    retries, cancellation, stop, reconciliation with the mailbox, agreement of runs and work,
    and three sessions in which the run's status does not follow its work.
  \<^item> Conversation runtime state, \<open>aionui-conversation/src/runtime_state.rs\<close>: \<open>ConversationRuntime\<close> has
    turn claims, queued turns, cancelling, deleting and shutdown, with the poisoned mutex and
    the weak reference of a claim; claims are exclusive, shutdown only drains, releases restore,
    and summaries tell what a claim would do.
  \<^item> Agent run scheduler, \<open>aionui-conversation/src/run_scheduler.rs\<close>, and its repository
    \<open>aionui-db/src/repository/agent_run.rs\<close> and \<open>sqlite_agent_run.rs\<close>. \<open>RunRepository\<close> has the trait as
    a record of functions, the SQLite implementation, and the contract as the locale \<open>run_store\<close>,
    interpreted for SQLite. \<open>RunScheduler\<close> has every operation; \<open>SchedulerInvariant\<close> the state
    machine, a rule for the dispatch loop and the locale \<open>sched_changes\<close> of invariants that all steps
    keep, interpreted for limits, the user ring and permits; \<open>SchedulerGrants\<close> what follows from the
    repository's contract. \<open>AgentRuns\<close> has limits, at most one grant of a run, permits,
    fairness and use of the capacity; \<open>AgentRunPolicy\<close> admission, expiry, bounds and
    persistence of the policy, recovery, and two ways in which a limit or a cancellation is missed.
  \<^item> Extension dependencies, \<open>aionui-extension/src/dependency.rs\<close>: \<open>Dependency\<close> has the version checks,
    the graph, Kahn's loop and the depth-first search; \<open>DependencyOrder\<close> relates both to the
    dependency relation: the load order is a permutation that respects it away from cycles, and the
    reported issues are exact.
  \<^item> Team repository, \<open>aionui-db/src/repository/team.rs\<close> and \<open>sqlite_team.rs\<close>: \<open>TeamRepository\<close>, with
    the contract of the task operations as the locale \<open>task_store\<close>. Task board,
    \<open>aionui-team/src/task_board.rs\<close>: \<open>TaskBoard\<close> has the operations and, in that locale, their
    closed forms; \<open>TaskLinks\<close> shows that both ends of a dependency agree in every reachable board, that
    completing a task unblocks what waits for it, that a board cannot deadlock, and how a dependency
    becomes stale. Mailbox, \<open>aionui-team/src/mailbox.rs\<close>: \<open>TeamMailbox\<close>, with the locale
    \<open>message_store\<close>; the mailbox refines one queue of unread messages per agent, which is what
    the coordinator's reconciliation reads.
  \<^item> Rate limiter and QR login tokens, \<open>aionui-auth/src/rate_limit.rs\<close> and \<open>qr_token.rs\<close>: \<open>RateLimit\<close>
    bounds the requests accepted in any interval and shows that tokens are used once and in time.
  \<^item> Channels: users of instant messengers talk to agents once an administrator has approved a pairing
    code. \<open>ChannelRepository\<close> has the trait of \<open>aionui-db/src/repository/channel.rs\<close> as a record of
    functions and its SQLite implementation (\<open>sqlite_channel.rs\<close>), with what its clients rely on as the
    locales \<open>pairing_store\<close> and \<open>session_store\<close>. \<open>ChannelPairing\<close>, \<open>ChannelSession\<close> and \<open>ChannelAction\<close>
    have \<open>pairing.rs\<close>, \<open>session.rs\<close> and \<open>action.rs\<close> of \<open>aionui-channel/src\<close>. \<open>ChannelAccess\<close> has the
    histories of all of them over a database whose queries may fail: access comes from an approval only,
    the tables stay consistent, a decided code is final. \<open>ChannelFlow\<close> has what single operations
    achieve (dispatch of authorised senders only, pairing leads to access, sessions refine a map) and
    four sessions in which the code does not do what its texts say.
  \<^item> Realtime layer, \<open>aionui-realtime/src\<close>: \<open>Realtime\<close> has the connection manager (\<open>manager.rs\<close>), its
    broadcaster trait and adapter, and the handling of a socket and its messages (\<open>handler.rs\<close>);
    \<open>RealtimeDelivery\<close> the closed forms of its loops and its histories; \<open>RealtimePrivacy\<close> shows who
    gets which text, and what heartbeat and revocation do.
  \<^item> Conversation turns, \<open>aionui-conversation/src\<close>: \<open>TurnPolicy\<close> has the policies of
    \<open>turn_recovery_policy.rs\<close>, \<open>turn_continuation_policy.rs\<close>, \<open>agent_health_policy.rs\<close> and
    \<open>runtime_persistence.rs\<close> and the knowledge egress policy; \<open>TurnOrchestrator\<close> the attempt and the turn
    of \<open>turn_orchestrator.rs\<close> over the runtime state of \<open>ConversationRuntime\<close> and a record of ports for
    what a turn awaits; \<open>TurnSafety\<close> the shape of the log of a turn, \<open>TurnDelivery\<close> that its work is
    bounded and its claim released, that only a failure without a trace is replayed, that its outcome
    is reported, and that evidence that may not leave has no effect.
  \<^item> Scheduled jobs, \<open>aionui-cron/src\<close>, and their repository, \<open>aionui-db/src/repository/cron.rs\<close> and
    \<open>sqlite_cron.rs\<close>. \<open>CronRepository\<close> has the trait, its SQLite implementation and the contract as the
    locale \<open>cron_store\<close>; \<open>CronJobs\<close> the jobs of \<open>types.rs\<close> with their conversions and the schedules and
    timers of \<open>scheduler.rs\<close>; \<open>CronExecutor\<close> the preparation and execution of a job of \<open>executor.rs\<close> over
    a record of ports for the conversation service, the files and the clock; \<open>CronService\<close> the operations
    of \<open>service.rs\<close>, with an execution split into its start and its end. \<open>CronHistory\<close> has the
    interleavings of operations, timers, executions and restarts, and shows in \<open>cron_store\<close> that every step
    keeps the stored rows readable; \<open>CronFlow\<close> what ticks, results and resumptions do to a row;
    \<open>CronGuarantees\<close> the properties over SQLite: jobs survive storage and always load, a busy job is retried a
    bounded number of times, a one-shot job runs once, a resumption marks missed jobs, and how the end of an
    execution overwrites a change made meanwhile.
  \<^item> Agent tasks, \<open>aionui-ai-agent/src/task_manager.rs\<close>, \<open>active_lease.rs\<close> and \<open>idle_scanner.rs\<close>: \<open>TaskManager\<close>
    has the table of resident agents, with its slots as cells that outlive their entry, the foreground
    leases and a pass of the scanner; \<open>get_or_build_task\<close> is cut where it awaits. \<open>TaskPool\<close> has the
    interleavings of callers with the other operations and their invariants, \<open>TaskGuarantees\<close> that the resident
    agents are bounded, a slot builds one agent, the least recently active idle task is evicted, the
    scanner ends exactly the idle tasks, and two histories in which an agent is out of the table or over the limit.

  \<^bold>\<open>Conventions.\<close> An operation is a function on explicit state; where it can fail it returns a sum
  with the error on the left, where it can panic an option with \<open>None\<close> for the panic. A method that
  holds its lock throughout is one step; where the code releases a lock in between (publishing run
  summaries, admission and insertion of a run, the end of a build and the filling of its slot, checking and recording a login attempt, finding and
  inserting a channel session) the halves are separate functions as well. The clock, fresh identifiers, random bytes and readings of the
  memory pressure are arguments; an operation reads the clock once unless its halves are separate, and the
  cron service reads it through a port each time the code does.
  Iteration over a hash map whose order can be seen takes the order as an argument or as the order
  of the list that models it. A database is a record of the tables its queries touch, with
  the keys and checks of the migrations and a list that tells which queries fail; rows that tie in an
  \<open>ORDER BY\<close> keep the order of the table, and a transaction takes effect whole or not at all.
  Percentages (\<open>f32\<close>, \<open>f64\<close>) are rational numbers. Counters and times are words where they are
  bounded by the code's own arithmetic (the limiter), integers elsewhere. Third-party crates are
  parameters: \<open>serde_json\<close> for the task board and the mailbox, with the law that what was
  written is read back (for cron jobs that of an agent configuration), and for the realtime layer and the
  turns without any law, like \<open>semver\<close> for the dependency checks and \<open>cron\<close> and \<open>chrono\<close> for schedules. Strings are their bytes in UTF-8.

  \<^bold>\<open>Loops.\<close> No definition uses fuel. Loops over lists are structural; the loops of Kahn's algorithm,
  of the depth-first search, of chunked updates, of the dispatch of runs and of a turn have termination
  proofs, by the sum of the in-degrees, the nodes not yet visited, the rest of the list, the
  length of the queue, and the continuations and replays that are left.

  \<^bold>\<open>Not modelled.\<close> Agent processes and their protocols (\<open>aionui-ai-agent\<close>), HTTP routes, the bytes of
  WebSocket connections, platform plugins, files, downloads, external programs, cryptography and the
  prompt texts of teams: they are input and output or calls of third-party code. The services that glue the
  modelled parts together (the team session and service, the conversation service and stream relay) pass values
  between the modelled parts, processes and streams; the parts of them that a modelled operation calls
  are modelled with it or are its ports. The crates of decisions and assistants and
  the skill files of cron jobs have logic of their own that the development leaves out; in particular
  \<open>build_agent_config_from_conversation\<close> and \<open>resolve_cron_full_auto_mode\<close> of the cron service, which read the
  agent metadata, are ports.
\<close>

end
